(* ===== verification/Js.thy ===== *)
theory Js
  imports Main "HOL-Library.Char_ord" "HOL-Library.List_Lexorder" "HOL-Library.AList"
begin

text \<open>
  The prelude: the part of JavaScript that the modelled modules share.

  A JavaScript string is a \<^typ>\<open>string\<close>, one \<^typ>\<open>char\<close> per code unit, so the model
  covers the strings whose code units are below 256; on those, length, comparison, slicing and
  character tests are the language's own, and \<open>byte_length\<close> is the number of bytes that
  \<open>TextEncoder\<close> and \<open>Buffer.byteLength\<close> count. A value is a \<open>jsval\<close>. A number
  that is a mathematical integer is a \<open>JInt\<close>; every other number (a fraction, \<open>NaN\<close>,
  an infinity, minus zero) is a \<open>JNum\<close> named by its printed form. An object is the list of its
  own enumerable properties in the order \<open>Object.keys\<close> lists them.

  A thrown error is the \<open>Inl\<close> of a sum: \<open>throw_if\<close> is the guard \<open>if (c) throw e\<close>
  and \<open>bind_r\<close> is a call whose error propagates.
\<close>

named_theorems string_facts

subsection \<open>Errors as values\<close>

abbreviation throw_if :: "bool \<Rightarrow> 'e \<Rightarrow> 'e + 'a \<Rightarrow> 'e + 'a" where
  "throw_if c e k \<equiv> (if c then Inl e else k)"

definition bind_r :: "'e + 'a \<Rightarrow> ('a \<Rightarrow> 'e + 'b) \<Rightarrow> 'e + 'b" where
  "bind_r m f = (case m of Inl e \<Rightarrow> Inl e | Inr x \<Rightarrow> f x)"

lemma bind_r_simps [simp]: "bind_r (Inl e) f = Inl e" "bind_r (Inr x) f = f x"
  by (simp_all add: bind_r_def)

lemma bind_r_Inr_iff [simp]: "bind_r m f = Inr y \<longleftrightarrow> (\<exists>x. m = Inr x \<and> f x = Inr y)"
  by (cases m) simp_all

lemma bind_r_cong [fundef_cong]:
  "m = m' \<Longrightarrow> (\<And>x. m' = Inr x \<Longrightarrow> f x = g x) \<Longrightarrow> bind_r m f = bind_r m' g"
  by (cases m') simp_all

fun mapM_r :: "('a \<Rightarrow> 'e + 'b) \<Rightarrow> 'a list \<Rightarrow> 'e + 'b list" where
  "mapM_r f [] = Inr []"
| "mapM_r f (x # xs) = bind_r (f x) (\<lambda>y. bind_r (mapM_r f xs) (\<lambda>ys. Inr (y # ys)))"

lemma mapM_r_cong [fundef_cong]:
  assumes "xs = ys" and "\<And>x. x \<in> set ys \<Longrightarrow> f x = g x"
  shows "mapM_r f xs = mapM_r g ys"
proof -
  have "(\<And>x. x \<in> set ys \<Longrightarrow> f x = g x) \<Longrightarrow> mapM_r f ys = mapM_r g ys"
    by (induction ys) simp_all
  with assms show ?thesis by simp
qed

lemma mapM_r_Inr: "mapM_r f xs = Inr ys \<longleftrightarrow> list_all2 (\<lambda>x y. f x = Inr y) xs ys"
  by (induction xs arbitrary: ys) (auto simp: list_all2_Cons1)

lemma mapM_r_total: "(\<And>x. x \<in> set xs \<Longrightarrow> f x = Inr (g x)) \<Longrightarrow> mapM_r f xs = Inr (map g xs)"
  by (induction xs) simp_all

subsection \<open>Characters, numbers in decimal\<close>

definition is_digit :: "char \<Rightarrow> bool" where
  "is_digit c \<longleftrightarrow> CHR ''0'' \<le> c \<and> c \<le> CHR ''9''"

definition is_lower :: "char \<Rightarrow> bool" where
  "is_lower c \<longleftrightarrow> CHR ''a'' \<le> c \<and> c \<le> CHR ''z''"

definition is_upper :: "char \<Rightarrow> bool" where
  "is_upper c \<longleftrightarrow> CHR ''A'' \<le> c \<and> c \<le> CHR ''Z''"

definition digit_char :: "nat \<Rightarrow> char" where
  "digit_char d = char_of (48 + d)"

text \<open>A non-negative integer in a template literal, \<open>${n}\<close>.\<close>

fun nat_str :: "nat \<Rightarrow> string" where
  "nat_str n = (if n < 10 then [digit_char n] else nat_str (n div 10) @ [digit_char (n mod 10)])"

declare nat_str.simps [simp del]

definition int_str :: "int \<Rightarrow> string" where
  "int_str i = (if i < 0 then ''-'' @ nat_str (nat (- i)) else nat_str (nat i))"

lemma of_char_digit_char: "d < 10 \<Longrightarrow> of_char (digit_char d) = 48 + d"
  by (simp add: digit_char_def)

lemma digit_char_inj: "d < 10 \<Longrightarrow> e < 10 \<Longrightarrow> digit_char d = digit_char e \<longleftrightarrow> d = e"
  by (metis add_left_cancel of_char_digit_char)

lemma is_digit_digit_char: "d < 10 \<Longrightarrow> is_digit (digit_char d)"
  by (simp add: is_digit_def less_eq_char_def of_char_digit_char)

lemma nat_str_digits [string_facts]: "c \<in> set (nat_str n) \<Longrightarrow> is_digit c"
proof (induction n rule: nat_str.induct)
  case (1 n)
  show ?case
  proof (cases "n < 10")
    case True
    with "1.prems" show ?thesis by (simp add: nat_str.simps [of n] is_digit_digit_char)
  next
    case False
    with 1 show ?thesis by (auto simp: nat_str.simps [of n] is_digit_digit_char)
  qed
qed

lemma nat_str_not_empty [simp, string_facts]: "nat_str n \<noteq> []" "[] \<noteq> nat_str n"
proof -
  show "nat_str n \<noteq> []" by (subst nat_str.simps) simp
  then show "[] \<noteq> nat_str n" by metis
qed

lemma nat_str_inj [simp, string_facts]: "nat_str m = nat_str n \<longleftrightarrow> m = n"
proof -
  have "nat_str m = nat_str n \<Longrightarrow> m = n" for m n
  proof (induction m arbitrary: n rule: nat_str.induct)
    case (1 m)
    show ?case
    proof (cases "m < 10 \<or> n < 10")
      case True
      with "1.prems" show ?thesis
        by (auto simp: nat_str.simps [of m] nat_str.simps [of n] digit_char_inj split: if_splits)
    next
      case False
      with "1.prems" have "nat_str (m div 10) = nat_str (n div 10)" "m mod 10 = n mod 10"
        by (auto simp: nat_str.simps [of m] nat_str.simps [of n] digit_char_inj)
      with False "1.IH" show ?thesis by (metis div_mult_mod_eq)
    qed
  qed
  then show ?thesis by blast
qed

lemma length_nat_str: "0 < d \<Longrightarrow> n < 10 ^ d \<Longrightarrow> length (nat_str n) \<le> d"
proof (induction d arbitrary: n)
  case 0
  then show ?case by simp
next
  case (Suc d)
  show ?case
  proof (cases "n < 10")
    case True
    then show ?thesis by (simp add: nat_str.simps [of n])
  next
    case False
    with Suc.prems have "d \<noteq> 0" by (cases d) auto
    moreover have "n div 10 < 10 ^ d" using Suc.prems by (simp add: less_mult_imp_div_less mult.commute)
    ultimately show ?thesis using Suc.IH [of "n div 10"] False by (simp add: nat_str.simps [of n])
  qed
qed

text \<open>
  Names that interpolate a number and go on after it are equal only when both parts are:
  a run of digits ends where a character that is no digit begins.
\<close>

lemma digits_prefix_eq:
  assumes "list_all is_digit xs" and "list_all is_digit ys"
    and "xs @ c # u = ys @ d # v" and "\<not> is_digit c" and "\<not> is_digit d"
  shows "xs = ys \<and> c = d \<and> u = v"
  using assms
proof (induction xs arbitrary: ys)
  case Nil
  then show ?case by (cases ys) auto
next
  case (Cons x xs)
  then show ?case by (cases ys) auto
qed

lemma list_all_digit_nat_str [simp, string_facts]: "list_all is_digit (nat_str n)"
  by (simp add: list_all_iff nat_str_digits)

lemma nat_str_append_eq [simp, string_facts]:
  assumes "\<not> is_digit c" and "\<not> is_digit d"
  shows "nat_str m @ c # u = nat_str n @ d # v \<longleftrightarrow> m = n \<and> c = d \<and> u = v"
proof
  assume "nat_str m @ c # u = nat_str n @ d # v"
  from digits_prefix_eq [OF list_all_digit_nat_str list_all_digit_nat_str this assms]
  show "m = n \<and> c = d \<and> u = v" by simp
qed simp

lemma nat_str_append_neq [simp, string_facts]:
  assumes "\<not> is_digit c"
  shows "nat_str m @ c # u \<noteq> nat_str n" "nat_str n \<noteq> nat_str m @ c # u"
proof -
  have "c \<in> set (nat_str m @ c # u)" by simp
  with assms nat_str_digits show "nat_str m @ c # u \<noteq> nat_str n" by metis
  then show "nat_str n \<noteq> nat_str m @ c # u" by metis
qed

lemma not_digit_dash [simp]: "\<not> is_digit (CHR ''-'')"
  by (simp add: is_digit_def)

subsection \<open>Values\<close>

datatype jsval =
    JUndef
  | JNull
  | JBool bool
  | JInt int
  | JNum string
  | JStr string
  | JArr "jsval list"
  | JObj "(string \<times> jsval) list"

text \<open>\<open>Number.MAX_SAFE_INTEGER\<close> and \<open>Number.isSafeInteger\<close>.\<close>

definition MAX_SAFE_INTEGER :: int where
  "MAX_SAFE_INTEGER = 9007199254740991"

definition is_safe_integer :: "int \<Rightarrow> bool" where
  "is_safe_integer i \<longleftrightarrow> \<bar>i\<bar> \<le> MAX_SAFE_INTEGER"

fun isSafeInteger :: "jsval \<Rightarrow> bool" where
  "isSafeInteger (JInt i) = is_safe_integer i"
| "isSafeInteger (JNum s) = (s = ''-0'')"
| "isSafeInteger _ = False"

fun the_int :: "jsval \<Rightarrow> int" where
  "the_int (JInt i) = i"
| "the_int _ = 0"

definition safe_int_between :: "int \<Rightarrow> int \<Rightarrow> jsval \<Rightarrow> bool" where
  \<comment> \<open>\<open>Number.isSafeInteger(v) && v >= lo && v <= hi\<close>, for \<open>lo > 0\<close>\<close>
  "safe_int_between lo hi v \<longleftrightarrow>
     (case v of JInt i \<Rightarrow> is_safe_integer i \<and> lo \<le> i \<and> i \<le> hi | _ \<Rightarrow> False)"

fun truthy :: "jsval \<Rightarrow> bool" where
  "truthy JUndef = False"
| "truthy JNull = False"
| "truthy (JBool b) = b"
| "truthy (JInt i) = (i \<noteq> 0)"
| "truthy (JNum s) = (s \<noteq> ''NaN'' \<and> s \<noteq> ''-0'')"
| "truthy (JStr s) = (s \<noteq> [])"
| "truthy _ = True"

text \<open>
  Reading a property: \<open>v.k\<close> is undefined when the object lacks it, \<open>k in v\<close> is the test
  for it; both are used on objects only, after the code's own object test.
\<close>

fun props :: "jsval \<Rightarrow> (string \<times> jsval) list" where
  "props (JObj kvs) = kvs"
| "props _ = []"

definition prop_of :: "jsval \<Rightarrow> string \<Rightarrow> jsval" where
  "prop_of v k = (case map_of (props v) k of None \<Rightarrow> JUndef | Some x \<Rightarrow> x)"

definition has_prop :: "jsval \<Rightarrow> string \<Rightarrow> bool" where
  "has_prop v k \<longleftrightarrow> k \<in> fst ` set (props v)"

fun is_object :: "jsval \<Rightarrow> bool" where
  \<comment> \<open>\<open>value && typeof value === "object" && !Array.isArray(value)\<close>\<close>
  "is_object (JObj _) = True"
| "is_object _ = False"

fun is_string :: "jsval \<Rightarrow> bool" where
  "is_string (JStr _) = True"
| "is_string _ = False"

fun the_str :: "jsval \<Rightarrow> string" where
  "the_str (JStr s) = s"
| "the_str _ = []"

definition str_satisfies :: "(string \<Rightarrow> bool) \<Rightarrow> jsval \<Rightarrow> bool" where
  "str_satisfies P v \<longleftrightarrow> (case v of JStr s \<Rightarrow> P s | _ \<Rightarrow> False)"

text \<open>
  The errors the code throws: a \<open>TypeError\<close> of the language, an \<open>Error\<close> (or one of its
  subclasses) with its message, an error that carries a stable \<open>code\<close>. \<open>get_r\<close> is a
  property read on a value that may be null or undefined, which throws.
\<close>

datatype js_error =
    Type_Error
  | Error string
  | Coded string

definition nullish :: "jsval \<Rightarrow> bool" where
  "nullish v \<longleftrightarrow> v = JUndef \<or> v = JNull"

definition get_r :: "jsval \<Rightarrow> string \<Rightarrow> js_error + jsval" where
  "get_r v k = throw_if (nullish v) Type_Error (Inr (prop_of v k))"

definition nullish_or :: "jsval \<Rightarrow> jsval \<Rightarrow> jsval" where
  "nullish_or v d = (if v = JUndef \<or> v = JNull then d else v)"

text \<open>
  \<open>v === w\<close> for values of separate documents: two objects or two arrays are never the same one.
\<close>

definition strict_eq :: "jsval \<Rightarrow> jsval \<Rightarrow> bool" where
  "strict_eq v w \<longleftrightarrow> (case v of
     JArr _ \<Rightarrow> False | JObj _ \<Rightarrow> False
   | JNum s \<Rightarrow> s \<noteq> ''NaN'' \<and> w = v \<or> s = ''-0'' \<and> w = JInt 0
   | JInt i \<Rightarrow> w = v \<or> i = 0 \<and> w = JNum ''-0''
   | _ \<Rightarrow> w = v)"

lemma strict_eq_str [simp]: "strict_eq v (JStr s) \<longleftrightarrow> v = JStr s" "strict_eq (JStr s) v \<longleftrightarrow> v = JStr s"
  by (auto simp: strict_eq_def split: jsval.split)

lemma strict_eq_bool [simp]: "strict_eq v (JBool b) \<longleftrightarrow> v = JBool b" "strict_eq v JNull \<longleftrightarrow> v = JNull"
  by (auto simp: strict_eq_def split: jsval.split)

text \<open>\<open>exactKeys\<close>: the sorted own keys are the sorted expected ones.\<close>

definition exact_keys :: "jsval \<Rightarrow> string list \<Rightarrow> bool" where
  "exact_keys v keys \<longleftrightarrow> is_object v \<and> sort (map fst (props v)) = sort keys"

lemma exact_keys_set: "exact_keys v keys \<Longrightarrow> fst ` set (props v) = set keys"
  unfolding exact_keys_def by (metis list.set_map set_sort)

lemma exact_keys_has_prop: "exact_keys v keys \<Longrightarrow> has_prop v k \<longleftrightarrow> k \<in> set keys"
  by (simp add: has_prop_def exact_keys_set)

lemma exact_keys_length: "exact_keys v keys \<Longrightarrow> length (props v) = length keys"
  unfolding exact_keys_def by (metis length_map length_sort)

subsection \<open>Bytes of a string\<close>

definition byte_length :: "string \<Rightarrow> nat" where
  \<comment> \<open>\<open>new TextEncoder().encode(s).length\<close>, \<open>Buffer.byteLength(s)\<close>\<close>
  "byte_length s = sum_list (map (\<lambda>c. if (of_char c :: nat) < 128 then 1 else 2) s)"

lemma byte_length_append [simp]: "byte_length (s @ t) = byte_length s + byte_length t"
  by (simp add: byte_length_def)

lemma byte_length_Nil [simp]: "byte_length [] = 0"
  by (simp add: byte_length_def)

lemma length_le_byte_length: "length s \<le> byte_length s"
  by (induction s) (auto simp: byte_length_def)

subsection \<open>JSON.stringify\<close>

definition hex_digit :: "nat \<Rightarrow> char" where
  "hex_digit d = (if d < 10 then char_of (48 + d) else char_of (87 + d))"

text \<open>\<open>n.toString(b)\<close> for a radix up to 36, and \<open>padStart\<close> with one character.\<close>

fun radix_str :: "nat \<Rightarrow> nat \<Rightarrow> string" where
  "radix_str b n = (if n < b \<or> b < 2 then [hex_digit n] else radix_str b (n div b) @ [hex_digit (n mod b)])"

declare radix_str.simps [simp del]

definition pad_start :: "nat \<Rightarrow> char \<Rightarrow> string \<Rightarrow> string" where
  "pad_start n c s = replicate (n - length s) c @ s"

definition json_char :: "char \<Rightarrow> string" where
  "json_char c =
     (let n = of_char c :: nat in
      if n = 34 then [CHR 0x5C, CHR 0x22]
      else if n = 92 then [CHR 0x5C, CHR 0x5C]
      else if n = 8 then [CHR 0x5C, CHR ''b'']
      else if n = 9 then [CHR 0x5C, CHR ''t'']
      else if n = 10 then [CHR 0x5C, CHR ''n'']
      else if n = 12 then [CHR 0x5C, CHR ''f'']
      else if n = 13 then [CHR 0x5C, CHR ''r'']
      else if n < 32 then [CHR 0x5C, CHR ''u'', CHR ''0'', CHR ''0'', hex_digit (n div 16), hex_digit (n mod 16)]
      else [c])"

definition json_str :: "string \<Rightarrow> string" where
  "json_str s = [CHR 0x22] @ concat (map json_char s) @ [CHR 0x22]"

fun join :: "string \<Rightarrow> string list \<Rightarrow> string" where
  "join sep [] = []"
| "join sep [x] = x"
| "join sep (x # xs) = x @ sep @ join sep xs"

text \<open>
  A value in a template literal. An object whose own \<open>toString\<close> is plain data cannot be
  converted, a TypeError (\<open>None\<close>); an array joins its items.
\<close>

fun js_string :: "jsval \<Rightarrow> string option" where
  "js_string JUndef = Some ''undefined''"
| "js_string JNull = Some ''null''"
| "js_string (JBool b) = Some (if b then ''true'' else ''false'')"
| "js_string (JInt i) = Some (int_str i)"
| "js_string (JNum s) = Some (if s = ''-0'' then ''0'' else s)"
| "js_string (JStr s) = Some s"
| "js_string (JArr vs) =
     map_option (join '','') (those (map (\<lambda>v. if v \<in> {JUndef, JNull} then Some [] else js_string v) vs))"
| "js_string (JObj kvs) = (if ''toString'' \<in> fst ` set kvs then None else Some ''[object Object]'')"

text \<open>
  \<open>the_text v\<close> is \<open>${v}\<close> for a primitive value, and \<open>error_of v\<close> is
  \<open>new Error(v)\<close>.
\<close>

definition the_text :: "jsval \<Rightarrow> string" where
  "the_text v = (case js_string v of None \<Rightarrow> [] | Some s \<Rightarrow> s)"

definition error_of :: "jsval \<Rightarrow> js_error" where
  "error_of v = (case js_string v of None \<Rightarrow> Type_Error | Some s \<Rightarrow> Error s)"

text \<open>\<open>s.trim()\<close>, on code units below 256.\<close>

definition is_space :: "char \<Rightarrow> bool" where
  "is_space c \<longleftrightarrow> (let n = of_char c :: nat in 9 \<le> n \<and> n \<le> 13 \<or> n = 32 \<or> n = 160)"

definition trim :: "string \<Rightarrow> string" where
  "trim s = rev (dropWhile is_space (rev (dropWhile is_space s)))"

text \<open>
  \<open>json\<close> is \<open>JSON.stringify\<close> as a template literal prints its result: a property whose
  value is undefined is left out, an undefined array item and a number that is not finite are
  \<open>null\<close>.
\<close>

fun json :: "jsval \<Rightarrow> string" where
  "json JUndef = ''undefined''"
| "json JNull = ''null''"
| "json (JBool b) = (if b then ''true'' else ''false'')"
| "json (JInt i) = int_str i"
| "json (JNum s) = (if s \<in> {''NaN'', ''Infinity'', ''-Infinity''} then ''null'' else if s = ''-0'' then ''0'' else s)"
| "json (JStr s) = json_str s"
| "json (JArr vs) = ''['' @ join '','' (map (\<lambda>v. if v = JUndef then ''null'' else json v) vs) @ '']''"
| "json (JObj kvs) =
     ''{'' @ join '','' (map (\<lambda>(k, v). json_str k @ '':'' @ json v) (filter (\<lambda>(k, v). v \<noteq> JUndef) kvs)) @ ''}''"

text \<open>
  \<open>Object.fromEntries\<close>: a repeated key keeps its place and takes the last value; keys that are
  array indices come first, in ascending order, as the language orders own properties.
\<close>

definition is_array_index :: "string \<Rightarrow> bool" where
  "is_array_index s \<longleftrightarrow> s \<noteq> [] \<and> list_all is_digit s \<and> (s = ''0'' \<or> hd s \<noteq> CHR ''0'')
     \<and> (length s < 10 \<or> length s = 10 \<and> s < ''4294967295'')"

definition index_value :: "string \<Rightarrow> nat" where
  "index_value s = fold (\<lambda>c n. 10 * n + (of_char c - 48)) s 0"

definition own_order :: "(string \<times> 'a) list \<Rightarrow> (string \<times> 'a) list" where
  "own_order kvs = sort_key (index_value \<circ> fst) (filter (is_array_index \<circ> fst) kvs)
     @ filter (Not \<circ> is_array_index \<circ> fst) kvs"

definition from_entries :: "(string \<times> 'a) list \<Rightarrow> (string \<times> 'a) list" where
  "from_entries kvs = own_order (fold (\<lambda>(k, v) m. AList.update k v m) kvs [])"

lemma fold_update_distinct:
  "distinct (map fst (acc @ kvs)) \<Longrightarrow> fold (\<lambda>(k, v) m. AList.update k v m) kvs acc = acc @ kvs"
proof (induction kvs arbitrary: acc)
  case Nil
  then show ?case by simp
next
  case (Cons kv kvs)
  obtain k v where kv: "kv = (k, v)" by (cases kv)
  have "k \<notin> fst ` set acc" using Cons.prems kv by auto
  then have "AList.update k v acc = acc @ [(k, v)]"
    by (induction acc) auto
  with Cons.IH [of "acc @ [(k, v)]"] Cons.prems kv show ?case by simp
qed

lemma from_entries_distinct:
  assumes "distinct (map fst kvs)" and "\<And>k. k \<in> fst ` set kvs \<Longrightarrow> \<not> is_array_index k"
  shows "from_entries kvs = kvs"
proof -
  have none: "filter (is_array_index \<circ> fst) kvs = []" "filter (Not \<circ> is_array_index \<circ> fst) kvs = kvs"
    using assms(2) by (auto simp: filter_empty_conv filter_id_conv)
  show ?thesis
    using fold_update_distinct [of "[]" kvs] assms(1) none
    by (simp add: from_entries_def own_order_def)
qed

lemma set_update_subset: "set (AList.update k v m) \<subseteq> insert (k, v) (set m)"
  by (induction m) auto

lemma fold_update_entries:
  "set (fold (\<lambda>(k, v) m. AList.update k v m) kvs acc) \<subseteq> set kvs \<union> set acc"
proof (induction kvs arbitrary: acc)
  case (Cons kv kvs)
  obtain k v where "kv = (k, v)" by (cases kv)
  with Cons [of "AList.update k v acc"] set_update_subset [of k v acc] show ?case by auto
qed simp

lemma distinct_fold_update:
  "distinct (map fst acc) \<Longrightarrow> distinct (map fst (fold (\<lambda>(k, v) m. AList.update k v m) kvs acc))"
  by (induction kvs arbitrary: acc) (auto simp: distinct_update)

lemma set_own_order: "set (own_order kvs) = set kvs"
  by (auto simp: own_order_def)

lemma length_own_order: "length (own_order kvs) = length kvs"
  using sum_length_filter_compl [of "is_array_index \<circ> fst" kvs] by (simp add: own_order_def comp_def)

lemma length_fold_update:
  "length (fold (\<lambda>(k, v) m. AList.update k v m) kvs acc) \<le> length kvs + length acc"
proof (induction kvs arbitrary: acc)
  case (Cons kv kvs)
  have "length (AList.update k v m) \<le> Suc (length m)" for k v and m :: "('a \<times> 'b) list"
    by (induction m) auto
  with Cons [of "AList.update (fst kv) (snd kv) acc"] show ?case
    by (cases kv) (force intro: order_trans)
qed simp

lemma from_entries_subset: "set (from_entries kvs) \<subseteq> set kvs"
  using fold_update_entries [of kvs "[]"] by (auto simp: from_entries_def set_own_order)

lemma length_from_entries: "length (from_entries kvs) \<le> length kvs"
  using length_fold_update [of kvs "[]"] by (simp add: from_entries_def length_own_order)

text \<open>Object spread, the items of an array, \<open>includes\<close>, membership in a closed set of names.\<close>

definition spread :: "jsval list \<Rightarrow> jsval" where
  \<comment> \<open>\<open>{ ...a, ...b }\<close>\<close>
  "spread vs = JObj (from_entries (concat (map props vs)))"

fun items :: "jsval \<Rightarrow> jsval list" where
  "items (JArr vs) = vs"
| "items _ = []"

definition includes_value :: "jsval list \<Rightarrow> jsval \<Rightarrow> bool" where
  "includes_value vs x = list_ex (\<lambda>v. strict_eq v x) vs"

definition member_of :: "string list \<Rightarrow> jsval \<Rightarrow> bool" where
  "member_of xs v = str_satisfies (\<lambda>s. s \<in> set xs) v"

subsection \<open>Text operations of the standard library\<close>

text \<open>\<open>s.split(sep)\<close> for a separator of one character, and \<open>s.includes(t)\<close>, \<open>s.endsWith(t)\<close>.\<close>

fun split_on :: "char \<Rightarrow> string \<Rightarrow> string list" where
  "split_on sep [] = [[]]"
| "split_on sep (c # cs) =
     (if c = sep then [] # split_on sep cs
      else (case split_on sep cs of [] \<Rightarrow> [[c]] | h # t \<Rightarrow> (c # h) # t))"

fun starts_with :: "string \<Rightarrow> string \<Rightarrow> bool" where
  "starts_with [] s = True"
| "starts_with (c # cs) [] = False"
| "starts_with (c # cs) (d # ds) = (c = d \<and> starts_with cs ds)"

fun contains :: "string \<Rightarrow> string \<Rightarrow> bool" where
  "contains t [] = (t = [])"
| "contains t (c # cs) = (starts_with t (c # cs) \<or> contains t cs)"

definition ends_with :: "string \<Rightarrow> string \<Rightarrow> bool" where
  "ends_with t s = starts_with (rev t) (rev s)"

text \<open>
  \<open>toLowerCase\<close> and \<open>toUpperCase\<close>. The two letters whose upper case lies outside Latin-1
  (micro sign, y with diaeresis) are kept: neither they nor their capitals are ASCII.
\<close>

definition lower_char :: "char \<Rightarrow> char" where
  "lower_char c =
     (let n = of_char c :: nat in
      if 65 \<le> n \<and> n \<le> 90 \<or> 192 \<le> n \<and> n \<le> 222 \<and> n \<noteq> 215 then char_of (n + 32) else c)"

definition to_lower :: "string \<Rightarrow> string" where
  "to_lower = map lower_char"

definition upper_char :: "char \<Rightarrow> string" where
  "upper_char c =
     (let n = of_char c :: nat in
      if n = 223 then ''SS''
      else if 97 \<le> n \<and> n \<le> 122 \<or> 224 \<le> n \<and> n \<le> 254 \<and> n \<noteq> 247 then [char_of (n - 32)] else [c])"

definition to_upper :: "string \<Rightarrow> string" where
  "to_upper s = concat (map upper_char s)"

lemma split_on_not_Nil [simp]: "split_on sep s \<noteq> []"
  by (induction s) (auto split: list.splits)

lemma split_on_no_sep: "sep \<notin> set s \<Longrightarrow> split_on sep s = [s]"
  by (induction s) auto

lemma split_on_append: "sep \<notin> set s \<Longrightarrow> split_on sep (s @ sep # t) = s # split_on sep t"
  by (induction s) auto

lemma split_on_join: "join [sep] (split_on sep s) = s"
proof (induction s)
  case (Cons c cs)
  have j: "xs \<noteq> [] \<Longrightarrow> join [sep] (x # xs) = x @ sep # join [sep] xs" for x xs by (cases xs) auto
  show ?case
  proof (cases "split_on sep cs")
    case (Cons h t)
    with Cons.IH show ?thesis by (cases t) (auto simp: j)
  qed simp
qed simp

lemma split_on_pieces: "x \<in> set (split_on sep s) \<Longrightarrow> sep \<notin> set x"
proof (induction s arbitrary: x)
  case (Cons c cs)
  show ?case
  proof (cases "split_on sep cs")
    case (Cons h t)
    with Cons.prems Cons.IH [of h] Cons.IH [of x] show ?thesis by (auto split: if_splits)
  qed simp
qed simp

subsection \<open>Closed tables\<close>

text \<open>
  A frozen table of the code: its keys, each once, and a lookup that finds exactly them. What
  holds of every such table is proved here once; the tables of the code are its instances.
\<close>

locale closed_table =
  fixes keys :: "'k list" and find :: "'k \<Rightarrow> 'v option"
  assumes keys_distinct: "distinct keys" and find_iff: "find k \<noteq> None \<longleftrightarrow> k \<in> set keys"
begin

lemma found: "k \<in> set keys \<Longrightarrow> \<exists>v. find k = Some v"
  using find_iff [of k] by auto

lemma missing: "k \<notin> set keys \<Longrightarrow> find k = None"
  using find_iff [of k] by auto

lemma map_find: "map find keys = map (\<lambda>k. Some (the (find k))) keys"
  using find_iff by fastforce

lemma dom_find: "dom find = set keys"
  using find_iff by (auto simp: dom_def)

end

lemma closed_table_map_of: "distinct (map fst t) \<Longrightarrow> closed_table (map fst t) (map_of t)"
  by (simp add: closed_table_def map_of_eq_None_iff)

end
