(* ===== verification/Selection.thy ===== *)
theory Selection
  imports Js
begin

text \<open>
  \<open>packages/explorer-state/src\<close>: \<open>selection.mjs\<close> (which backend and storage a URL or a click
  selects), \<open>platforms.mjs\<close> (which platforms serve a selection) and \<open>availability.mjs\<close> (which
  profiles may be selected). A selection is a value with \<open>backend\<close> and \<open>storage\<close>.
\<close>

subsection \<open>Backend and storage\<close>

definition findBackend :: "jsval \<Rightarrow> jsval \<Rightarrow> jsval option" where
  "findBackend catalog i = find (\<lambda>b. strict_eq (prop_of b ''id'') i) (items (prop_of catalog ''backends''))"

definition storages_of :: "jsval \<Rightarrow> jsval list" where
  "storages_of backend = items (prop_of backend ''storages'')"

definition first_or_undefined :: "jsval list \<Rightarrow> jsval" where
  "first_or_undefined vs = (case vs of [] \<Rightarrow> JUndef | v # _ \<Rightarrow> v)"

text \<open>\<open>parameters.get(k)\<close>: the first value of a parameter, or null.\<close>

definition get_param :: "(string \<times> string) list \<Rightarrow> string \<Rightarrow> jsval" where
  "get_param params k = (case map_of params k of None \<Rightarrow> JNull | Some v \<Rightarrow> JStr v)"

definition selection :: "jsval \<Rightarrow> jsval \<Rightarrow> jsval" where
  "selection backend storage = JObj [(''backend'', backend), (''storage'', storage)]"

definition initialSelection :: "jsval \<Rightarrow> (string \<times> string) list \<Rightarrow> js_error + jsval" where
  "initialSelection catalog params =
     (case findBackend catalog (prop_of catalog ''defaultBackend'') of
        None \<Rightarrow> Inl (Error ''catalog defaultBackend is not declared'')
      | Some defaultBackend \<Rightarrow>
          let backend = (case findBackend catalog (get_param params ''backend'') of None \<Rightarrow> defaultBackend | Some b \<Rightarrow> b);
              requestedStorage = get_param params ''storage'';
              storage = (if includes_value (storages_of backend) requestedStorage then requestedStorage
                         else first_or_undefined (storages_of backend)) in
          throw_if (\<not> truthy storage) (Error (''backend '' @ the_text (prop_of backend ''id'') @ '' has no storage choices''))
            (Inr (selection (prop_of backend ''id'') storage)))"

definition selectBackend :: "jsval \<Rightarrow> jsval \<Rightarrow> jsval \<Rightarrow> jsval \<Rightarrow> jsval" where
  "selectBackend catalog current backendId defaultStorage =
     (case findBackend catalog backendId of
        None \<Rightarrow> current
      | Some backend \<Rightarrow>
          selection (prop_of backend ''id'')
            (if includes_value (storages_of backend) defaultStorage then defaultStorage
             else if includes_value (storages_of backend) (prop_of current ''storage'') then prop_of current ''storage''
             else first_or_undefined (storages_of backend)))"

definition storageOptions :: "jsval \<Rightarrow> jsval \<Rightarrow> jsval list" where
  "storageOptions catalog backendId =
     (case findBackend catalog backendId of
        None \<Rightarrow> []
      | Some backend \<Rightarrow>
          let labels = map (\<lambda>s. (prop_of s ''id'', s)) (rev (items (prop_of catalog ''storages''))) in
          filter truthy (map (\<lambda>i. case map_of labels i of None \<Rightarrow> JUndef | Some s \<Rightarrow> s) (storages_of backend)))"

subsection \<open>Platforms\<close>

definition DEFAULT_LAMBDA :: string where "DEFAULT_LAMBDA = ''lambda-1769''"
definition LEGACY_DEFAULT_LAMBDA :: string where "LEGACY_DEFAULT_LAMBDA = ''lambda-1024''"
definition LARGE_LAMBDA :: string where "LARGE_LAMBDA = ''lambda-4096''"
definition BROWSER_PLATFORM :: string where "BROWSER_PLATFORM = ''browser''"
definition DATOMIC_PLATFORMS :: "string list" where "DATOMIC_PLATFORMS = [DEFAULT_LAMBDA, LARGE_LAMBDA, ''ec2'']"
definition DATAHIKE_PLATFORMS :: "string list" where "DATAHIKE_PLATFORMS = [DEFAULT_LAMBDA, LARGE_LAMBDA]"
definition DATALEVIN_PLATFORMS :: "string list" where "DATALEVIN_PLATFORMS = [DEFAULT_LAMBDA, ''ec2'']"

lemmas platform_names = DEFAULT_LAMBDA_def LEGACY_DEFAULT_LAMBDA_def LARGE_LAMBDA_def BROWSER_PLATFORM_def
  DATOMIC_PLATFORMS_def DATAHIKE_PLATFORMS_def DATALEVIN_PLATFORMS_def

definition DATOMIC_ORIGINS :: "(string \<times> string) list" where
  "DATOMIC_ORIGINS = [(LARGE_LAMBDA, ''https://7um6u6hb6wq6yfl46ukjkxcpuy0gexer.lambda-url.us-east-1.on.aws''),
     (''ec2'', ''https://datomic.demo.eacl.dev'')]"

definition DATALEVIN_ORIGINS :: "(string \<times> string) list" where
  "DATALEVIN_ORIGINS = [(''ec2'', ''https://datalevin.demo.eacl.dev'')]"

definition DATAHIKE_ORIGINS :: "(string \<times> (string \<times> string) list) list" where
  "DATAHIKE_ORIGINS =
    [(''datahike-s3'', [(LARGE_LAMBDA, ''https://y66owmoqebrcmzyfw6uturkaue0exoqe.lambda-url.us-east-1.on.aws'')]),
     (''datahike-dynamodb'', [(LARGE_LAMBDA, ''https://ammics5svacgyu5eopgicnzz3y0lsryk.lambda-url.us-east-1.on.aws'')])]"

definition SERVER_OPTIONS :: "(string \<times> string) list" where
  "SERVER_OPTIONS = [(DEFAULT_LAMBDA, ''1,769 MiB Lambda (1 vCPU)''), (LARGE_LAMBDA, ''4 GiB Lambda''),
     (''ec2'', ''EC2 t3.micro (1 GiB)'')]"

definition isDatomicDynamo :: "jsval \<Rightarrow> bool" where
  "isDatomicDynamo s \<longleftrightarrow> prop_of s ''backend'' = JStr ''datomic'' \<and> prop_of s ''storage'' = JStr ''dynamodb''"

definition isDatalevinEmbedded :: "jsval \<Rightarrow> bool" where
  "isDatalevinEmbedded s \<longleftrightarrow> prop_of s ''backend'' = JStr ''datalevin'' \<and> prop_of s ''storage'' = JStr ''embedded''"

definition supportedPlatform :: "jsval \<Rightarrow> jsval \<Rightarrow> bool" where
  "supportedPlatform s p =
     (if prop_of s ''backend'' = JStr ''datascript'' then p = JStr BROWSER_PLATFORM
      else if isDatomicDynamo s then member_of DATOMIC_PLATFORMS p
      else if prop_of s ''backend'' = JStr ''datahike'' then member_of DATAHIKE_PLATFORMS p
      else if isDatalevinEmbedded s then member_of DATALEVIN_PLATFORMS p
      else p = JStr DEFAULT_LAMBDA)"

definition defaultPlatform :: "jsval \<Rightarrow> string" where
  "defaultPlatform s = (if prop_of s ''backend'' = JStr ''datascript'' then BROWSER_PLATFORM else DEFAULT_LAMBDA)"

definition normalizePlatform :: "jsval \<Rightarrow> jsval \<Rightarrow> string" where
  "normalizePlatform s requested =
     (let canonical = (if requested = JStr LEGACY_DEFAULT_LAMBDA then JStr DEFAULT_LAMBDA else requested) in
      if supportedPlatform s canonical then the_str canonical else defaultPlatform s)"

definition option_selectable :: "jsval \<Rightarrow> string \<Rightarrow> bool" where
  "option_selectable s i \<longleftrightarrow> i = DEFAULT_LAMBDA \<or> isDatomicDynamo s
     \<or> prop_of s ''backend'' = JStr ''datahike'' \<and> i = LARGE_LAMBDA \<or> isDatalevinEmbedded s \<and> i = ''ec2''"

record platform_option =
  option_id :: string
  label :: string
  selectable :: bool
  reason :: "string option"

definition platformOptions :: "jsval \<Rightarrow> platform_option list" where
  "platformOptions s =
     (if prop_of s ''backend'' = JStr ''datascript''
      then [\<lparr>option_id = BROWSER_PLATFORM, label = ''Browser'', selectable = True, reason = None\<rparr>]
      else map (\<lambda>(i, l). \<lparr>option_id = i, label = l, selectable = option_selectable s i,
        reason = (if option_selectable s i then None
          else if i = ''ec2'' then Some ''EC2 is currently deployed only for Datomic/DynamoDB and Datalevin/Embedded disk.''
          else Some ''This platform is not deployed for this backend.'')\<rparr>) SERVER_OPTIONS)"

definition profileForPlatform :: "jsval \<Rightarrow> jsval \<Rightarrow> js_error + jsval" where
  "profileForPlatform profile platform =
     (let selected = normalizePlatform profile platform in
      throw_if (\<not> supportedPlatform profile (JStr selected)) (Error ''profile platform is not supported'')
      (if selected = BROWSER_PLATFORM \<or> (has_prop profile ''state'' \<and> prop_of profile ''state'' \<noteq> JStr ''enabled'')
       then Inr profile
       else
         let from_table = (\<lambda>t. case map_of t selected of None \<Rightarrow> JUndef | Some o' \<Rightarrow> JStr o');
             apiOrigin =
               (if selected = DEFAULT_LAMBDA then prop_of profile ''apiOrigin''
                else if isDatomicDynamo profile then from_table DATOMIC_ORIGINS
                else if isDatalevinEmbedded profile then from_table DATALEVIN_ORIGINS
                else (case prop_of profile ''id'' of
                   JStr i \<Rightarrow> (case map_of DATAHIKE_ORIGINS i of None \<Rightarrow> JUndef | Some t \<Rightarrow> from_table t)
                 | _ \<Rightarrow> JUndef)) in
         throw_if (\<not> str_satisfies (\<lambda>s. s \<noteq> []) apiOrigin) (Error ''profile platform has no deployed API origin'')
           (Inr (spread [profile, JObj [(''apiOrigin'', apiOrigin)]]))))"

definition executionForPlatform :: "string \<Rightarrow> string" where
  "executionForPlatform p = (if p = ''ec2'' then ''ec2'' else if p = BROWSER_PLATFORM then ''browser'' else ''lambda'')"

lemma normalize_supported: "supportedPlatform s (JStr (normalizePlatform s requested))"
  by (cases requested)
    (auto simp: supportedPlatform_def normalizePlatform_def defaultPlatform_def member_of_def str_satisfies_def platform_names)

lemma normalize_keeps: "supportedPlatform s p \<Longrightarrow> JStr (normalizePlatform s p) = p"
  by (cases p) (auto simp: supportedPlatform_def normalizePlatform_def defaultPlatform_def member_of_def str_satisfies_def
      platform_names isDatomicDynamo_def isDatalevinEmbedded_def split: if_splits)

lemma normalize_idem: "normalizePlatform s (JStr (normalizePlatform s requested)) = normalizePlatform s requested"
  using normalize_keeps [OF normalize_supported] by simp

lemma normalize_names: "normalizePlatform s requested \<in> {''lambda-1769'', ''lambda-4096'', ''ec2'', ''browser''}"
  using normalize_supported [of s requested]
  by (auto simp: supportedPlatform_def member_of_def str_satisfies_def platform_names split: if_splits)

subsection \<open>Availability\<close>

text \<open>
  A \<open>Map\<close> keyed by ids is the list of its entries in insertion order; setting a present key keeps
  its place.
\<close>

definition same_key :: "jsval \<Rightarrow> jsval \<Rightarrow> bool" where
  "same_key v w \<longleftrightarrow> strict_eq v w \<or> v = JNum ''NaN'' \<and> w = v"

definition entry_of :: "(jsval \<times> jsval) list \<Rightarrow> jsval \<Rightarrow> jsval option" where
  "entry_of m k = map_option snd (find (\<lambda>(l, _). same_key l k) m)"

definition set_entry :: "jsval \<Rightarrow> jsval \<Rightarrow> (jsval \<times> jsval) list \<Rightarrow> (jsval \<times> jsval) list" where
  "set_entry k v m = (if entry_of m k = None then m @ [(k, v)] else map (\<lambda>(l, w). (l, if same_key l k then v else w)) m)"

definition map_by_id :: "jsval list \<Rightarrow> (jsval \<times> jsval) list" where
  "map_by_id vs = fold (\<lambda>v. set_entry (prop_of v ''id'') v) vs []"

definition STATES :: "string list" where
  "STATES = [''enabled'', ''disabled'', ''qualifying'', ''unavailable'']"

definition availability_entry :: "(jsval \<times> jsval) list \<Rightarrow> jsval \<Rightarrow> js_error + jsval" where
  "availability_entry definitions entry =
     (let i = prop_of entry ''id''; st = prop_of entry ''state''; r = prop_of entry ''reason'' in
      case entry_of definitions i of
        None \<Rightarrow> Inl (Error (''availability names unknown profile: '' @ the_text i))
      | Some d \<Rightarrow>
          throw_if (\<not> member_of STATES st) (Error (''unknown profile state: '' @ the_text st))
          (throw_if (st = JStr ''enabled'' \<and> r \<noteq> JNull) (Error (''enabled profile '' @ the_text i @ '' must not have a reason''))
          (throw_if (st \<noteq> JStr ''enabled'' \<and> \<not> str_satisfies (\<lambda>s. trim s \<noteq> []) r)
             (Error (''non-selectable profile '' @ the_text i @ '' requires a reason''))
          (Inr (spread [d, entry, JObj [(''selectable'', JBool (st = JStr ''enabled''))]])))))"

fun availability_loop :: "(jsval \<times> jsval) list \<Rightarrow> jsval list \<Rightarrow> (jsval \<times> jsval) list \<Rightarrow> js_error + (jsval \<times> jsval) list" where
  "availability_loop definitions [] m = Inr m"
| "availability_loop definitions (e # es) m =
     bind_r (availability_entry definitions e) (\<lambda>p. availability_loop definitions es (set_entry (prop_of e ''id'') p m))"

definition availabilityByProfile :: "jsval \<Rightarrow> jsval \<Rightarrow> js_error + (jsval \<times> jsval) list" where
  "availabilityByProfile profileDefinitions availability =
     (let definitions = map_by_id (items (prop_of profileDefinitions ''profiles'')) in
      bind_r (availability_loop definitions (items (prop_of availability ''profiles'')) []) (\<lambda>m.
       throw_if (length m \<noteq> length definitions) (Error ''every profile requires an availability entry'') (Inr m)))"

definition choicesForBackend :: "jsval \<Rightarrow> jsval \<Rightarrow> jsval \<Rightarrow> jsval \<Rightarrow> js_error + jsval list" where
  "choicesForBackend catalog profileDefinitions availability backendId =
     bind_r (availabilityByProfile profileDefinitions availability) (\<lambda>profiles.
       let labels = map_by_id (items (prop_of catalog ''storages'')) in
       Inr (map (\<lambda>profile. spread
           [case entry_of profiles (prop_of profile ''id'') of None \<Rightarrow> JUndef | Some p \<Rightarrow> p,
            JObj [(''label'', case entry_of labels (prop_of profile ''storage'') of None \<Rightarrow> JUndef | Some s \<Rightarrow> prop_of s ''label'')]])
         (filter (\<lambda>profile. strict_eq (prop_of profile ''backend'') backendId) (items (prop_of profileDefinitions ''profiles'')))))"

definition selectableProfile :: "jsval \<Rightarrow> js_error + jsval" where
  "selectableProfile profile =
     throw_if (\<not> truthy (prop_of profile ''selectable''))
       (error_of (nullish_or (prop_of profile ''reason'') (JStr ''profile is not selectable''))) (Inr profile)"

subsection \<open>Properties\<close>

text \<open>
  Normalising a platform always yields one the selection supports and changes a supported one not
  at all, whatever was requested; the options shown to the user are exactly selectable where the
  platform is supported, and exactly the others carry a reason; and a profile is only ever sent to
  an API origin, never refused as unsupported.
\<close>

theorem platform_choices_consistent:
  "supportedPlatform s (JStr (normalizePlatform s requested))
   \<and> (if supportedPlatform s requested then requested = JStr (normalizePlatform s requested) else True)
   \<and> normalizePlatform s (JStr (normalizePlatform s requested)) = normalizePlatform s requested
   \<and> list_all (\<lambda>p. (selectable p \<longleftrightarrow> supportedPlatform s (JStr (option_id p))) \<and> (reason p = None \<longleftrightarrow> selectable p)) (platformOptions s)
   \<and> (case profileForPlatform s requested of
        Inl e \<Rightarrow> e = Error ''profile platform has no deployed API origin''
      | Inr p \<Rightarrow> True)"
proof -
  have opts: "list_all (\<lambda>p. (selectable p \<longleftrightarrow> supportedPlatform s (JStr (option_id p))) \<and> (reason p = None \<longleftrightarrow> selectable p)) (platformOptions s)"
    by (auto simp: platformOptions_def SERVER_OPTIONS_def option_selectable_def supportedPlatform_def member_of_def
        str_satisfies_def platform_names isDatomicDynamo_def isDatalevinEmbedded_def)
  show ?thesis
    using normalize_supported [of s requested] normalize_keeps [of s requested] opts normalize_idem [of s requested]
    by (auto simp: profileForPlatform_def Let_def)
qed

end
