(* ===== verification/Regex.thy ===== *)
theory Regex
  imports Js
begin

text \<open>
  The regular expressions of the code as data, with a matcher by derivatives that evaluates and a
  language that says what they mean. Every pattern of the code is anchored at both ends, so
  \<open>matches r s\<close> is \<open>/^r$/u.test(s)\<close> for a string \<open>s\<close>. A character class is
  written \<open>cls rs cs\<close>: the characters of the ranges \<open>rs\<close> (pairs of bounds) and the single
  characters \<open>cs\<close>.
\<close>

datatype regex =
    Empty
  | Chars "char \<Rightarrow> bool"
  | Cat regex regex
  | Either regex regex
  | Rep nat "nat option" regex

fun in_ranges :: "string \<Rightarrow> char \<Rightarrow> bool" where
  "in_ranges (a # b # rs) c = (a \<le> c \<and> c \<le> b \<or> in_ranges rs c)"
| "in_ranges _ c = False"

definition cls :: "string \<Rightarrow> string \<Rightarrow> regex" where
  "cls rs cs = Chars (\<lambda>c. in_ranges rs c \<or> c \<in> set cs)"

fun lit :: "string \<Rightarrow> regex" where
  "lit [] = Empty"
| "lit (c # cs) = Cat (Chars (\<lambda>d. d = c)) (lit cs)"

definition cats :: "regex list \<Rightarrow> regex" where
  "cats rs = foldr Cat rs Empty"

abbreviation times :: "nat \<Rightarrow> regex \<Rightarrow> regex" where "times n r \<equiv> Rep n (Some n) r"
abbreviation plus_of :: "regex \<Rightarrow> regex" where "plus_of r \<equiv> Rep 1 None r"
abbreviation star :: "regex \<Rightarrow> regex" where "star r \<equiv> Rep 0 None r"
abbreviation optional :: "regex \<Rightarrow> regex" where "optional r \<equiv> Rep 0 (Some 1) r"

fun nullable :: "regex \<Rightarrow> bool" where
  "nullable Empty = True"
| "nullable (Chars P) = False"
| "nullable (Cat r s) = (nullable r \<and> nullable s)"
| "nullable (Either r s) = (nullable r \<or> nullable s)"
| "nullable (Rep m n r) = (m = 0 \<or> nullable r \<and> (case n of None \<Rightarrow> True | Some k \<Rightarrow> m \<le> k))"

abbreviation nothing :: regex where "nothing \<equiv> Chars (\<lambda>_. False)"

fun deriv :: "char \<Rightarrow> regex \<Rightarrow> regex" where
  "deriv c Empty = nothing"
| "deriv c (Chars P) = (if P c then Empty else nothing)"
| "deriv c (Cat r s) = (if nullable r then Either (Cat (deriv c r) s) (deriv c s) else Cat (deriv c r) s)"
| "deriv c (Either r s) = Either (deriv c r) (deriv c s)"
| "deriv c (Rep m n r) =
     (if n = Some 0 then nothing else Cat (deriv c r) (Rep (m - 1) (map_option (\<lambda>k. k - 1) n) r))"

definition matches :: "regex \<Rightarrow> string \<Rightarrow> bool" where
  "matches r s = nullable (fold deriv s r)"

subsection \<open>Meaning\<close>

definition conc :: "string set \<Rightarrow> string set \<Rightarrow> string set" where
  "conc A B = {s @ t | s t. s \<in> A \<and> t \<in> B}"

fun power :: "nat \<Rightarrow> string set \<Rightarrow> string set" where
  "power 0 A = {[]}"
| "power (Suc k) A = conc A (power k A)"

definition count_ok :: "nat \<Rightarrow> nat option \<Rightarrow> nat \<Rightarrow> bool" where
  "count_ok m n k \<longleftrightarrow> m \<le> k \<and> (case n of None \<Rightarrow> True | Some b \<Rightarrow> k \<le> b)"

fun lang :: "regex \<Rightarrow> string set" where
  "lang Empty = {[]}"
| "lang (Chars P) = {[c] | c. P c}"
| "lang (Cat r s) = conc (lang r) (lang s)"
| "lang (Either r s) = lang r \<union> lang s"
| "lang (Rep m n r) = (\<Union>k \<in> Collect (count_ok m n). power k (lang r))"

lemma conc_Nil: "[] \<in> conc A B \<longleftrightarrow> [] \<in> A \<and> [] \<in> B"
  by (auto simp: conc_def)

lemma power_Nil: "[] \<in> power k A \<longleftrightarrow> k = 0 \<or> [] \<in> A"
  by (induction k) (auto simp: conc_Nil)

lemma nullable_lang: "nullable r \<longleftrightarrow> [] \<in> lang r"
proof (induction r)
  case (Rep m n r)
  have "(\<exists>k. count_ok m n k \<and> (k = 0 \<or> [] \<in> lang r)) \<longleftrightarrow>
      m = 0 \<or> [] \<in> lang r \<and> (case n of None \<Rightarrow> True | Some k \<Rightarrow> m \<le> k)"
    by (auto simp: count_ok_def split: option.splits)
  with Rep show ?case by (simp add: power_Nil)
qed (auto simp: conc_Nil)

lemma conc_Cons:
  "c # s \<in> conc A B \<longleftrightarrow> (\<exists>u v. s = u @ v \<and> c # u \<in> A \<and> v \<in> B) \<or> [] \<in> A \<and> c # s \<in> B"
proof
  assume "c # s \<in> conc A B"
  then obtain u v where "c # s = u @ v" "u \<in> A" "v \<in> B" by (auto simp: conc_def)
  then show "(\<exists>u v. s = u @ v \<and> c # u \<in> A \<and> v \<in> B) \<or> [] \<in> A \<and> c # s \<in> B" by (cases u) auto
next
  assume "(\<exists>u v. s = u @ v \<and> c # u \<in> A \<and> v \<in> B) \<or> [] \<in> A \<and> c # s \<in> B"
  then consider u v where "s = u @ v" "c # u \<in> A" "v \<in> B" | "[] \<in> A" "c # s \<in> B" by blast
  then show "c # s \<in> conc A B"
  proof cases
    case 1
    then have "c # s = (c # u) @ v" by simp
    with 1 show ?thesis unfolding conc_def by blast
  next
    case 2
    then have "c # s = [] @ (c # s)" by simp
    with 2 show ?thesis unfolding conc_def by blast
  qed
qed

lemma power_Nil_mono: "[] \<in> A \<Longrightarrow> power k A \<subseteq> power (Suc k) A"
proof (rule subsetI)
  fix s assume "[] \<in> A" "s \<in> power k A"
  then have "s = [] @ s \<and> [] \<in> A \<and> s \<in> power k A" by simp
  then show "s \<in> power (Suc k) A" by (auto simp: conc_def)
qed

text \<open>A nonempty word of a power starts with a nonempty word of the base.\<close>

lemma power_Cons:
  "c # s \<in> power k A \<longleftrightarrow> k > 0 \<and> (\<exists>u v. s = u @ v \<and> c # u \<in> A \<and> v \<in> power (k - 1) A)"
proof (induction k)
  case (Suc k)
  have up: "[] \<in> A \<Longrightarrow> v \<in> power (k - 1) A \<Longrightarrow> k > 0 \<Longrightarrow> v \<in> power k A" for v
    using power_Nil_mono [of A "k - 1"] by (cases k) auto
  show ?case
  proof
    assume "c # s \<in> power (Suc k) A"
    then consider u v where "s = u @ v" "c # u \<in> A" "v \<in> power k A" | "[] \<in> A" "c # s \<in> power k A"
      by (auto simp: conc_Cons)
    then show "Suc k > 0 \<and> (\<exists>u v. s = u @ v \<and> c # u \<in> A \<and> v \<in> power (Suc k - 1) A)"
    proof cases
      case 1
      then show ?thesis by auto
    next
      case 2
      then have "k > 0" "\<exists>u v. s = u @ v \<and> c # u \<in> A \<and> v \<in> power (k - 1) A" using Suc.IH by auto
      with 2(1) up show ?thesis by fastforce
    qed
  qed (auto simp: conc_Cons)
qed simp

lemma deriv_lang: "s \<in> lang (deriv c r) \<longleftrightarrow> c # s \<in> lang r"
proof (induction r arbitrary: s)
  case (Cat r1 r2)
  have *: "s \<in> conc (lang (deriv c r1)) B \<longleftrightarrow> (\<exists>u v. s = u @ v \<and> c # u \<in> lang r1 \<and> v \<in> B)" for s B
    by (auto simp: conc_def Cat.IH(1))
  show ?case by (auto simp: conc_Cons * Cat.IH nullable_lang)
next
  case (Rep m n r)
  have *: "s \<in> conc (lang (deriv c r)) B \<longleftrightarrow> (\<exists>u v. s = u @ v \<and> c # u \<in> lang r \<and> v \<in> B)" for B
    by (auto simp: conc_def Rep.IH)
  have shift: "(\<exists>k. count_ok m n k \<and> k > 0 \<and> P (k - 1)) \<longleftrightarrow>
      n \<noteq> Some 0 \<and> (\<exists>k. count_ok (m - 1) (map_option (\<lambda>k. k - 1) n) k \<and> P k)" for P
  proof
    assume "\<exists>k. count_ok m n k \<and> k > 0 \<and> P (k - 1)"
    then obtain k where "count_ok m n k" "k > 0" "P (k - 1)" by blast
    then show "n \<noteq> Some 0 \<and> (\<exists>k. count_ok (m - 1) (map_option (\<lambda>k. k - 1) n) k \<and> P k)"
      by (intro conjI exI [of _ "k - 1"]) (auto simp: count_ok_def split: option.splits)
  next
    assume "n \<noteq> Some 0 \<and> (\<exists>k. count_ok (m - 1) (map_option (\<lambda>k. k - 1) n) k \<and> P k)"
    then obtain k where "n \<noteq> Some 0" "count_ok (m - 1) (map_option (\<lambda>k. k - 1) n) k" "P k" by blast
    then show "\<exists>k. count_ok m n k \<and> k > 0 \<and> P (k - 1)"
      by (intro exI [of _ "Suc k"]) (auto simp: count_ok_def split: option.splits)
  qed
  have shifted: "(\<exists>k. count_ok m n k \<and> k > 0 \<and> v \<in> power (k - 1) (lang r)) \<longleftrightarrow>
      n \<noteq> Some 0 \<and> (\<exists>k. count_ok (m - 1) (map_option (\<lambda>k. k - 1) n) k \<and> v \<in> power k (lang r))" for v
    by (rule shift)
  have "c # s \<in> lang (Rep m n r) \<longleftrightarrow>
      (\<exists>u v. s = u @ v \<and> c # u \<in> lang r \<and> (\<exists>k. count_ok m n k \<and> k > 0 \<and> v \<in> power (k - 1) (lang r)))"
    by (simp add: power_Cons del: power.simps) blast
  also have "\<dots> \<longleftrightarrow> (\<exists>u v. s = u @ v \<and> c # u \<in> lang r \<and> n \<noteq> Some 0
      \<and> (\<exists>k. count_ok (m - 1) (map_option (\<lambda>k. k - 1) n) k \<and> v \<in> power k (lang r)))"
    by (simp only: shifted)
  also have "\<dots> \<longleftrightarrow> s \<in> lang (deriv c (Rep m n r))"
    by (cases "n = Some 0") (simp_all add: *)
  finally show ?case by (rule sym)
qed auto

lemma matches_lang: "matches r s \<longleftrightarrow> s \<in> lang r"
proof -
  have "nullable (fold deriv s r) \<longleftrightarrow> s \<in> lang r" for r
    by (induction s arbitrary: r) (simp_all add: nullable_lang deriv_lang)
  then show ?thesis by (simp add: matches_def)
qed

lemma lang_lit: "lang (lit t) = {t}"
  by (induction t) (auto simp: conc_def)

end
