(* ===== verification/Guards.thy ===== *)
theory Guards
  imports Complex_Main Regex
begin

text \<open>
  Validators as the code writes them: a sequence of \<open>if (...) throw\<close> statements. A
  condition is evaluated left to right and stops at the first true disjunct; a disjunct that
  throws (a property of null, a text conversion that fails) is the \<open>Inl\<close> of a sum.
\<close>

fun guards :: "('e + unit) list \<Rightarrow> 'e + unit" where
  "guards [] = Inr ()"
| "guards (g # gs) = bind_r g (\<lambda>_. guards gs)"

lemma guards_ok: "guards gs = Inr u \<longleftrightarrow> list_all (\<lambda>g. g = Inr ()) gs"
  by (induction gs) auto

lemma guards_append: "guards (gs @ hs) = bind_r (guards gs) (\<lambda>_. guards hs)"
  by (induction gs) (auto simp: bind_r_def split: sum.split)

text \<open>\<open>any_r\<close> is \<open>a || b || ...\<close>; \<open>reject_if cs m\<close> is \<open>if (a || b || ...) throw new Error(m)\<close>.\<close>

fun any_r :: "('e + bool) list \<Rightarrow> 'e + bool" where
  "any_r [] = Inr False"
| "any_r (c # cs) = bind_r c (\<lambda>b. if b then Inr True else any_r cs)"

lemma any_r_False: "any_r cs = Inr False \<longleftrightarrow> list_all (\<lambda>c. c = Inr False) cs"
  by (induction cs) auto

definition reject_if :: "(js_error + bool) list \<Rightarrow> string \<Rightarrow> js_error + unit" where
  "reject_if cs m = bind_r (any_r cs) (\<lambda>b. throw_if b (Error m) (Inr ()))"

definition reject_with :: "(js_error + bool) list \<Rightarrow> js_error \<Rightarrow> js_error + unit" where
  "reject_with cs e = bind_r (any_r cs) (\<lambda>b. throw_if b e (Inr ()))"

lemma reject_if_ok: "reject_if cs m = Inr u \<longleftrightarrow> list_all (\<lambda>c. c = Inr False) cs"
  by (auto simp: reject_if_def any_r_False [symmetric])

lemma reject_with_ok: "reject_with cs e = Inr u \<longleftrightarrow> list_all (\<lambda>c. c = Inr False) cs"
  by (auto simp: reject_with_def any_r_False [symmetric])

text \<open>\<open>!regex.test(v)\<close>, which converts \<open>v\<close> to text, and \<open>v !== w\<close>.\<close>

definition mismatch :: "(string \<Rightarrow> bool) \<Rightarrow> jsval \<Rightarrow> js_error + bool" where
  "mismatch P v = (case js_string v of None \<Rightarrow> Inl Type_Error | Some s \<Rightarrow> Inr (\<not> P s))"

definition differs :: "jsval \<Rightarrow> jsval \<Rightarrow> js_error + bool" where
  "differs v w = Inr (\<not> strict_eq v w)"

text \<open>A value in a template literal, whose conversion may throw.\<close>

definition text_r :: "jsval \<Rightarrow> js_error + string" where
  "text_r v = (case js_string v of None \<Rightarrow> Inl Type_Error | Some s \<Rightarrow> Inr s)"

lemma mismatch_str [simp]: "mismatch P (JStr s) = Inr (\<not> P s)"
  by (simp add: mismatch_def)

lemma mismatch_ok: "mismatch P v = Inr False \<longleftrightarrow> (\<exists>s. js_string v = Some s \<and> P s)"
  by (auto simp: mismatch_def split: option.split)

lemma differs_ok: "differs v w = Inr False \<longleftrightarrow> strict_eq v w"
  by (simp add: differs_def)

text \<open>\<open>exactKeys(value, keys, name)\<close>, the same helper in every package.\<close>

definition exactKeys :: "jsval \<Rightarrow> string list \<Rightarrow> string \<Rightarrow> js_error + unit" where
  "exactKeys v keys name = throw_if (\<not> exact_keys v keys) (Error (name @ '' has unknown or missing fields'')) (Inr ())"

lemma exactKeys_ok: "exactKeys v keys name = Inr u \<longleftrightarrow> exact_keys v keys"
  by (simp add: exactKeys_def)

lemmas guard_facts = guards_ok reject_if_ok reject_with_ok exactKeys_ok any_r_False mismatch_ok differs_ok

text \<open>
  Numbers. The printed form of a finite number reads back as that number, and reading it as a
  decimal fraction keeps its order against every other printed number, so comparisons are made on
  the fractions.
\<close>

fun all_digits_then :: "string \<Rightarrow> string \<times> string" where
  "all_digits_then [] = ([], [])"
| "all_digits_then (c # cs) = (if is_digit c then (case all_digits_then cs of (ds, r) \<Rightarrow> (c # ds, r)) else ([], c # cs))"

definition exponent_of :: "string \<Rightarrow> int" where
  "exponent_of s = (case s of
     e # sg # ds \<Rightarrow> if sg = CHR ''-'' then - int (index_value ds) else if sg = CHR ''+'' then int (index_value ds)
                    else int (index_value (sg # ds))
   | _ \<Rightarrow> 0)"

definition scaled :: "nat \<Rightarrow> int \<Rightarrow> rat" where
  "scaled m e = (if e < 0 then of_nat m / 10 ^ nat (- e) else of_nat m * 10 ^ nat e)"

definition unsigned_rat :: "string \<Rightarrow> rat" where
  "unsigned_rat s = (case all_digits_then s of
     (ds, CHR ''.'' # rest) \<Rightarrow> (case all_digits_then rest of (fs, ex) \<Rightarrow> scaled (index_value (ds @ fs)) (exponent_of ex - int (length fs)))
   | (ds, ex) \<Rightarrow> scaled (index_value ds) (exponent_of ex))"

definition rat_of_text :: "string \<Rightarrow> rat" where
  "rat_of_text s = (case s of CHR ''-'' # t \<Rightarrow> - unsigned_rat t | _ \<Rightarrow> unsigned_rat s)"

fun num_of :: "jsval \<Rightarrow> rat option" where
  \<comment> \<open>the value when \<open>Number.isFinite(v)\<close>\<close>
  "num_of (JInt i) = Some (of_int i)"
| "num_of (JNum s) = (if s \<in> {''NaN'', ''Infinity'', ''-Infinity''} then None else Some (rat_of_text s))"
| "num_of _ = None"

definition num_val :: "jsval \<Rightarrow> rat" where
  "num_val v = (case num_of v of None \<Rightarrow> 0 | Some q \<Rightarrow> q)"

definition num_less :: "jsval \<Rightarrow> jsval \<Rightarrow> bool" where
  "num_less v w = (case (num_of v, num_of w) of (Some a, Some b) \<Rightarrow> a < b | _ \<Rightarrow> False)"

definition num_le :: "jsval \<Rightarrow> jsval \<Rightarrow> bool" where
  "num_le v w = (case (num_of v, num_of w) of (Some a, Some b) \<Rightarrow> a \<le> b | _ \<Rightarrow> False)"

lemma num_less_int [simp]: "num_less (JInt i) (JInt j) \<longleftrightarrow> i < j" "num_le (JInt i) (JInt j) \<longleftrightarrow> i \<le> j"
  by (simp_all add: num_less_def num_le_def)

lemma decimal_examples: "num_of (JNum ''0.5'') = Some (1 / 2)" "num_of (JNum ''1.5e-7'') = Some (15 / 100000000)"
  by (simp_all add: rat_of_text_def unsigned_rat_def is_digit_def less_eq_char_def index_value_def exponent_of_def scaled_def)

end
