(* ===== verification/Json_Text.thy ===== *)
theory Json_Text
  imports Js
begin

text \<open>
  \<open>JSON.parse\<close>, the inverse of the prelude's \<open>json\<close>. The parser follows the ECMAScript
  grammar; a number token that is not the decimal form of a safe integer is handed to the
  parameter \<open>num\<close>, the language's conversion to a double, which no proof below relies on.
  Every recursive call spends one unit of fuel and \<open>json_parse\<close> supplies one unit more than
  twice the characters of the text; \<open>parse_fuel_enough\<close> shows that more fuel changes nothing. A string
  escape above \<open>\u00ff\<close> names a code unit outside the modelled strings and is refused.
\<close>

subsection \<open>The parser\<close>

definition is_ws :: "char \<Rightarrow> bool" where
  "is_ws c \<longleftrightarrow> c \<in> {CHR 0x20, CHR 0x09, CHR 0x0A, CHR 0x0D}"

definition skip_ws :: "string \<Rightarrow> string" where
  "skip_ws = dropWhile is_ws"

definition hex_value :: "char \<Rightarrow> nat option" where
  "hex_value c =
     (let n = of_char c :: nat in
      if is_digit c then Some (n - 48)
      else if CHR ''a'' \<le> c \<and> c \<le> CHR ''f'' then Some (n - 87)
      else if CHR ''A'' \<le> c \<and> c \<le> CHR ''F'' then Some (n - 55)
      else None)"

definition hex4 :: "char \<Rightarrow> char \<Rightarrow> char \<Rightarrow> char \<Rightarrow> nat option" where
  "hex4 a b c d =
     (case (hex_value a, hex_value b, hex_value c, hex_value d) of
        (Some i, Some j, Some k, Some l) \<Rightarrow> Some (((i * 16 + j) * 16 + k) * 16 + l)
      | _ \<Rightarrow> None)"

definition simple_escape :: "char \<Rightarrow> char option" where
  "simple_escape c =
     (if c = CHR 0x22 \<or> c = CHR 0x5C \<or> c = CHR ''/'' then Some c
      else if c = CHR ''b'' then Some (CHR 0x08)
      else if c = CHR ''t'' then Some (CHR 0x09)
      else if c = CHR ''n'' then Some (CHR 0x0A)
      else if c = CHR ''f'' then Some (CHR 0x0C)
      else if c = CHR ''r'' then Some (CHR 0x0D)
      else None)"

text \<open>The characters of a string after its opening quote, and what follows the closing one.\<close>

fun parse_chars :: "string \<Rightarrow> (string \<times> string) option" where
  "parse_chars [] = None"
| "parse_chars (c # cs) =
     (if c = CHR 0x22 then Some ([], cs)
      else if c = CHR 0x5C then
        (case cs of
           [] \<Rightarrow> None
         | e # ds \<Rightarrow>
             (case simple_escape e of
                Some x \<Rightarrow> map_option (\<lambda>(s, r). (x # s, r)) (parse_chars ds)
              | None \<Rightarrow>
                  (case ds of
                     h1 # h2 # h3 # h4 # es \<Rightarrow>
                       (if e = CHR ''u'' then
                          (case hex4 h1 h2 h3 h4 of
                             Some n \<Rightarrow> if n < 256 then map_option (\<lambda>(s, r). (char_of n # s, r)) (parse_chars es) else None
                           | None \<Rightarrow> None)
                        else None)
                   | _ \<Rightarrow> None)))
      else if (of_char c :: nat) < 32 then None
      else map_option (\<lambda>(s, r). (c # s, r)) (parse_chars cs))"

definition digits_then :: "string \<Rightarrow> string \<times> string" where
  "digits_then s = (takeWhile is_digit s, dropWhile is_digit s)"

text \<open>A number token: an optional sign, an integer without leading zeros, an optional fraction and exponent.\<close>

definition int_token :: "string \<Rightarrow> (string \<times> string) option" where
  "int_token s =
     (let (sign, s1) = (case s of c # r \<Rightarrow> if c = CHR ''-'' then ([c], r) else ([], s) | [] \<Rightarrow> ([], s));
          (ds, rest) = digits_then s1
      in if ds = [] then None
         else if hd ds = CHR ''0'' then Some (sign @ [hd ds], tl ds @ rest)
         else Some (sign @ ds, rest))"

definition frac_token :: "string \<Rightarrow> (string \<times> string) option" where
  "frac_token s =
     (case s of
        c # r \<Rightarrow>
          if c = CHR ''.'' then
            (let (ds, rest) = digits_then r in if ds = [] then None else Some (c # ds, rest))
          else Some ([], s)
      | [] \<Rightarrow> Some ([], s))"

definition exp_token :: "string \<Rightarrow> (string \<times> string) option" where
  "exp_token s =
     (case s of
        c # r \<Rightarrow>
          if c = CHR ''e'' \<or> c = CHR ''E'' then
            (let (sign, r1) = (case r of d # q \<Rightarrow> if d = CHR ''+'' \<or> d = CHR ''-'' then ([d], q) else ([], r) | [] \<Rightarrow> ([], r));
                 (ds, rest) = digits_then r1
             in if ds = [] then None else Some (c # sign @ ds, rest))
          else Some ([], s)
      | [] \<Rightarrow> Some ([], s))"

definition digits_value :: "string \<Rightarrow> int" where
  "digits_value ds = int (index_value ds)"

definition int_value :: "string \<Rightarrow> int" where
  "int_value t = (case t of c # r \<Rightarrow> if c = CHR ''-'' then - digits_value r else digits_value t | [] \<Rightarrow> 0)"

definition parse_number :: "(string \<Rightarrow> jsval) \<Rightarrow> string \<Rightarrow> (jsval \<times> string) option" where
  "parse_number num s =
     (case int_token s of
        None \<Rightarrow> None
      | Some (i, r1) \<Rightarrow>
          (case frac_token r1 of
             None \<Rightarrow> None
           | Some (f, r2) \<Rightarrow>
               (case exp_token r2 of
                  None \<Rightarrow> None
                | Some (e, r3) \<Rightarrow>
                    Some (if f = [] \<and> e = [] \<and> i \<noteq> ''-0'' \<and> is_safe_integer (int_value i)
                          then JInt (int_value i) else num (i @ f @ e), r3))))"

definition match_prefix :: "string \<Rightarrow> string \<Rightarrow> string option" where
  "match_prefix p s = (if take (length p) s = p then Some (drop (length p) s) else None)"

definition parse_literal :: "string \<Rightarrow> (jsval \<times> string) option" where
  "parse_literal s =
     (case match_prefix ''null'' s of Some r \<Rightarrow> Some (JNull, r) | None \<Rightarrow>
     (case match_prefix ''true'' s of Some r \<Rightarrow> Some (JBool True, r) | None \<Rightarrow>
     (case match_prefix ''false'' s of Some r \<Rightarrow> Some (JBool False, r) | None \<Rightarrow> None)))"

fun parse_value :: "(string \<Rightarrow> jsval) \<Rightarrow> nat \<Rightarrow> string \<Rightarrow> (jsval \<times> string) option"
  and parse_items :: "(string \<Rightarrow> jsval) \<Rightarrow> nat \<Rightarrow> string \<Rightarrow> (jsval list \<times> string) option"
  and parse_members :: "(string \<Rightarrow> jsval) \<Rightarrow> nat \<Rightarrow> string \<Rightarrow> ((string \<times> jsval) list \<times> string) option" where
  "parse_value num 0 s = None"
| "parse_value num (Suc fuel) s =
     (case skip_ws s of
        [] \<Rightarrow> None
      | c # cs \<Rightarrow>
          if c = CHR ''{'' then
            (case skip_ws cs of
               [] \<Rightarrow> None
             | d # r \<Rightarrow>
                 if d = CHR ''}'' then Some (JObj [], r)
                 else map_option (\<lambda>(ms, q). (JObj (from_entries ms), q)) (parse_members num fuel cs))
          else if c = CHR ''['' then
            (case skip_ws cs of
               [] \<Rightarrow> None
             | d # r \<Rightarrow>
                 if d = CHR '']'' then Some (JArr [], r)
                 else map_option (\<lambda>(vs, q). (JArr vs, q)) (parse_items num fuel cs))
          else if c = CHR 0x22 then map_option (\<lambda>(t, r). (JStr t, r)) (parse_chars cs)
          else if c = CHR ''-'' \<or> is_digit c then parse_number num (c # cs)
          else parse_literal (c # cs))"
| "parse_items num 0 s = None"
| "parse_items num (Suc fuel) s =
     (case parse_value num fuel s of
        None \<Rightarrow> None
      | Some (v, r) \<Rightarrow>
          (case skip_ws r of
             [] \<Rightarrow> None
           | c # q \<Rightarrow>
               if c = CHR '']'' then Some ([v], q)
               else if c = CHR '','' then map_option (\<lambda>(vs, t). (v # vs, t)) (parse_items num fuel q)
               else None))"
| "parse_members num 0 s = None"
| "parse_members num (Suc fuel) s =
     (case skip_ws s of
        [] \<Rightarrow> None
      | c # cs \<Rightarrow>
          if c \<noteq> CHR 0x22 then None else
          (case parse_chars cs of
             None \<Rightarrow> None
           | Some (k, r) \<Rightarrow>
               (case skip_ws r of
                  [] \<Rightarrow> None
                | d # r1 \<Rightarrow>
                    if d \<noteq> CHR '':'' then None else
                    (case parse_value num fuel r1 of
                       None \<Rightarrow> None
                     | Some (v, r2) \<Rightarrow>
                         (case skip_ws r2 of
                            [] \<Rightarrow> None
                          | e # q \<Rightarrow>
                              if e = CHR ''}'' then Some ([(k, v)], q)
                              else if e = CHR '','' then map_option (\<lambda>(ms, t). ((k, v) # ms, t)) (parse_members num fuel q)
                              else None)))))"

definition json_parse :: "(string \<Rightarrow> jsval) \<Rightarrow> string \<Rightarrow> jsval option" where
  "json_parse num s =
     (case parse_value num (Suc (2 * length s)) s of
        Some (v, r) \<Rightarrow> if skip_ws r = [] then Some v else None
      | None \<Rightarrow> None)"

declare parse_chars.simps [simp del] parse_value.simps [simp del]
  parse_items.simps [simp del] parse_members.simps [simp del]

subsection \<open>The parser consumes its input\<close>

lemma length_skip_ws: "length (skip_ws s) \<le> length s"
  by (simp add: skip_ws_def length_dropWhile_le)

lemma skip_ws_Cons: "skip_ws s = c # r \<Longrightarrow> length r < length s"
  using length_skip_ws [of s] by simp

lemma parse_chars_length: "parse_chars s = Some (t, r) \<Longrightarrow> length r < length s"
proof (induction "length s" arbitrary: s t r rule: less_induct)
  case less
  note IH = less.hyps [rotated]
  obtain c cs where s: "s = c # cs" using less.prems by (cases s) (simp_all add: parse_chars.simps)
  consider "c = CHR 0x22" | "c = CHR 0x5C" | "c \<noteq> CHR 0x22" "c \<noteq> CHR 0x5C" by blast
  then show ?case
  proof cases
    case 2
    obtain e ds where cs: "cs = e # ds" using less.prems s 2 by (cases cs) (simp_all add: parse_chars.simps)
    show ?thesis
    proof (cases "simple_escape e")
      case (Some x)
      then obtain u where "parse_chars ds = Some (u, r)"
        using less.prems s 2 cs by (auto simp: parse_chars.simps)
      from IH [OF this] s cs show ?thesis by simp
    next
      case None
      then obtain u h1 h2 h3 h4 es where "parse_chars es = Some (u, r)" "ds = h1 # h2 # h3 # h4 # es"
        using less.prems s 2 cs by (auto simp: parse_chars.simps split: list.splits option.splits if_splits)
      from IH [OF this(1)] this(2) s cs show ?thesis by simp
    qed
  next
    case 3
    then obtain u where "parse_chars cs = Some (u, r)"
      using less.prems s by (auto simp: parse_chars.simps split: if_splits)
    from IH [OF this] s show ?thesis by simp
  qed (use less.prems s in \<open>simp add: parse_chars.simps\<close>)
qed

lemma digits_then_length: "digits_then s = (ds, r) \<Longrightarrow> length ds + length r = length s"
  by (auto simp: digits_then_def) (metis length_append takeWhile_dropWhile_id)

lemma int_token_length:
  assumes "int_token s = Some (t, r)" shows "length r < length s"
proof -
  obtain sign s1 where s1: "(case s of c # q \<Rightarrow> if c = CHR ''-'' then ([c], q) else ([], s) | [] \<Rightarrow> ([], s)) = (sign, s1)"
    by (rule prod.exhaust)
  then have le: "length s1 \<le> length s" by (auto split: list.splits if_splits)
  obtain ds rest where ds: "digits_then s1 = (ds, rest)" by fastforce
  have "ds \<noteq> []" "r = rest \<or> r = tl ds @ rest"
    using assms unfolding int_token_def s1 by (auto simp: ds split: if_splits)
  with digits_then_length [OF ds] le show ?thesis by (cases ds) auto
qed

lemma frac_token_length: "frac_token s = Some (t, r) \<Longrightarrow> length r \<le> length s"
  by (auto simp: frac_token_def split: if_splits list.splits prod.splits dest!: digits_then_length)

lemma exp_token_length: "exp_token s = Some (t, r) \<Longrightarrow> length r \<le> length s"
  by (auto simp: exp_token_def split: if_splits list.splits prod.splits dest!: digits_then_length)

lemma parse_number_length: "parse_number num s = Some (v, r) \<Longrightarrow> length r < length s"
  by (fastforce simp: parse_number_def split: option.splits
        dest: int_token_length frac_token_length exp_token_length)

lemma parse_literal_length: "parse_literal s = Some (v, r) \<Longrightarrow> length r < length s"
  by (cases s) (auto simp: parse_literal_def match_prefix_def split: option.splits if_splits)

lemma parse_length_all:
  "(\<forall>s v r. parse_value num f s = Some (v, r) \<longrightarrow> length r < length s)
   \<and> (\<forall>s vs r. parse_items num f s = Some (vs, r) \<longrightarrow> length r < length s)
   \<and> (\<forall>s ms r. parse_members num f s = Some (ms, r) \<longrightarrow> length r < length s)"
proof (induction f)
  case 0
  then show ?case by (simp add: parse_value.simps parse_items.simps parse_members.simps)
next
  case (Suc f)
  have V: "length r < length s" if "parse_value num f s = Some (v, r)" for s v r using Suc that by blast
  have I: "length r < length s" if "parse_items num f s = Some (vs, r)" for s vs r using Suc that by blast
  have M: "length r < length s" if "parse_members num f s = Some (ms, r)" for s ms r using Suc that by blast
  show ?case
  proof (intro conjI allI impI)
    fix s v r
    assume p: "parse_value num (Suc f) s = Some (v, r)"
    then obtain c cs where c: "skip_ws s = c # cs" by (auto simp: parse_value.simps split: list.splits)
    note cs = skip_ws_Cons [OF c]
    consider d where "skip_ws cs = d # r" | ms where "parse_members num f cs = Some (ms, r)"
      | vs where "parse_items num f cs = Some (vs, r)" | t where "parse_chars cs = Some (t, r)"
      | "parse_number num (c # cs) = Some (v, r)" | "parse_literal (c # cs) = Some (v, r)"
      using p by (auto simp: parse_value.simps c split: list.splits if_splits)
    then show "length r < length s"
      using cs by cases (auto dest!: skip_ws_Cons M I parse_chars_length parse_number_length parse_literal_length)
  next
    fix s vs r
    assume p: "parse_items num (Suc f) s = Some (vs, r)"
    then obtain v r1 c q where v: "parse_value num f s = Some (v, r1)" and q: "skip_ws r1 = c # q"
      by (auto simp: parse_items.simps split: option.splits list.splits)
    consider "r = q" | us where "parse_items num f q = Some (us, r)"
      using p by (auto simp: parse_items.simps v q split: if_splits)
    then show "length r < length s"
      using V [OF v] skip_ws_Cons [OF q] by cases (auto dest!: I)
  next
    fix s ms r
    assume p: "parse_members num (Suc f) s = Some (ms, r)"
    then obtain c cs k r1 d r2 v r3 e q where c: "skip_ws s = c # cs" and k: "parse_chars cs = Some (k, r1)"
      and d: "skip_ws r1 = d # r2" and v: "parse_value num f r2 = Some (v, r3)" and e: "skip_ws r3 = e # q"
      by (auto simp: parse_members.simps split: option.splits list.splits if_splits)
    have cd: "c = CHR 0x22" "d = CHR '':''"
      using p by (auto simp: parse_members.simps c k d split: if_splits)
    consider "r = q" | us where "parse_members num f q = Some (us, r)"
      using p by (auto simp: parse_members.simps c k d v e cd split: if_splits)
    then show "length r < length s"
      using skip_ws_Cons [OF c] parse_chars_length [OF k] skip_ws_Cons [OF d] V [OF v] skip_ws_Cons [OF e]
      by cases (auto dest!: M)
  qed
qed

lemma parse_length:
  "parse_value num f s = Some (v, r) \<Longrightarrow> length r < length s"
  "parse_items num f s = Some (vs, r) \<Longrightarrow> length r < length s"
  "parse_members num f s = Some (ms, r) \<Longrightarrow> length r < length s"
  using parse_length_all by blast+

subsection \<open>More fuel changes nothing\<close>

lemma parse_fuel_all:
  "(\<forall>s g. 2 * length s < f \<and> 2 * length s < g \<longrightarrow> parse_value num f s = parse_value num g s)
   \<and> (\<forall>s g. Suc (2 * length s) < f \<and> Suc (2 * length s) < g \<longrightarrow> parse_items num f s = parse_items num g s)
   \<and> (\<forall>s g. Suc (2 * length s) < f \<and> Suc (2 * length s) < g \<longrightarrow> parse_members num f s = parse_members num g s)"
proof (induction f)
  case 0
  then show ?case by simp
next
  case (Suc f)
  have V: "parse_value num f s = parse_value num g s" if "2 * length s < f" "2 * length s < g" for s g
    using Suc that by blast
  have I: "parse_items num f s = parse_items num g s" if "Suc (2 * length s) < f" "Suc (2 * length s) < g" for s g
    using Suc that by blast
  have M: "parse_members num f s = parse_members num g s" if "Suc (2 * length s) < f" "Suc (2 * length s) < g" for s g
    using Suc that by blast
  show ?case
  proof (intro conjI allI impI; elim conjE)
    fix s :: string and g
    assume less: "2 * length s < Suc f" "2 * length s < g"
    then obtain g' where g: "g = Suc g'" by (cases g) auto
    show "parse_value num (Suc f) s = parse_value num g s"
    proof (cases "skip_ws s")
      case Nil
      then show ?thesis by (simp add: g parse_value.simps)
    next
      case (Cons c cs)
      have "parse_items num f cs = parse_items num g' cs" "parse_members num f cs = parse_members num g' cs"
        using skip_ws_Cons [OF Cons] less g by (auto intro!: I M)
      then show ?thesis by (simp add: g parse_value.simps Cons split: list.split)
    qed
  next
    fix s :: string and g
    assume less: "Suc (2 * length s) < Suc f" "Suc (2 * length s) < g"
    then obtain g' where g: "g = Suc g'" by (cases g) auto
    have v: "parse_value num f s = parse_value num g' s" using less g by (intro V) simp_all
    have "parse_items num f q = parse_items num g' q"
      if "parse_value num g' s = Some (x, r)" "skip_ws r = c # q" for x r c q
      using parse_length(1) [OF that(1)] skip_ws_Cons [OF that(2)] less g by (intro I) auto
    then show "parse_items num (Suc f) s = parse_items num g s"
      by (auto simp: g parse_items.simps v split: option.splits list.splits)
  next
    fix s :: string and g
    assume less: "Suc (2 * length s) < Suc f" "Suc (2 * length s) < g"
    then obtain g' where g: "g = Suc g'" by (cases g) auto
    have v: "parse_value num f r2 = parse_value num g' r2"
      if "skip_ws s = c # cs" "parse_chars cs = Some (k, r1)" "skip_ws r1 = d # r2" for c cs k r1 d r2
      using skip_ws_Cons [OF that(1)] parse_chars_length [OF that(2)] skip_ws_Cons [OF that(3)] less g
      by (intro V) auto
    have m: "parse_members num f q = parse_members num g' q"
      if "skip_ws s = c # cs" "parse_chars cs = Some (k, r1)" "skip_ws r1 = d # r2"
        "parse_value num g' r2 = Some (x, r3)" "skip_ws r3 = e # q" for c cs k r1 d r2 x r3 e q
      using skip_ws_Cons [OF that(1)] parse_chars_length [OF that(2)] skip_ws_Cons [OF that(3)]
        parse_length(1) [OF that(4)] skip_ws_Cons [OF that(5)] less g
      by (intro M) auto
    show "parse_members num (Suc f) s = parse_members num g s"
      by (auto simp: g parse_members.simps v m split: option.splits list.splits)
  qed
qed

lemma parse_fuel_enough:
  "2 * length s < f \<Longrightarrow> parse_value num f s = parse_value num (Suc (2 * length s)) s"
  using parse_fuel_all by blast

subsection \<open>Reading back what was printed\<close>

text \<open>The values that JSON carries exactly: no undefined part, safe integers, properties in own order.\<close>

fun json_plain :: "jsval \<Rightarrow> bool" where
  "json_plain JUndef = False"
| "json_plain JNull = True"
| "json_plain (JBool b) = True"
| "json_plain (JInt i) = is_safe_integer i"
| "json_plain (JNum s) = False"
| "json_plain (JStr s) = True"
| "json_plain (JArr vs) = list_all json_plain vs"
| "json_plain (JObj kvs) = (from_entries kvs = kvs \<and> list_all (\<lambda>(k, v). json_plain v) kvs)"

lemma hex_value_hex_digit: "d < 16 \<Longrightarrow> hex_value (hex_digit d) = Some d"
  by (auto simp: hex_value_def hex_digit_def is_digit_def less_eq_char_def Let_def)

lemma parse_chars_json_char: "parse_chars (json_char c @ cs) = map_option (\<lambda>(s, r). (c # s, r)) (parse_chars cs)"
proof -
  define n where "n = (of_char c :: nat)"
  have c: "c = char_of n" by (simp add: n_def)
  have esc: "simple_escape (CHR ''u'') = None" by (simp add: simple_escape_def)
  consider "n \<in> {34, 92, 8, 9, 10, 12, 13}" | "n < 32" "n \<notin> {8, 9, 10, 12, 13}" | "n \<ge> 32" "n \<noteq> 34" "n \<noteq> 92"
    by (cases "n < 32") auto
  then show ?thesis
  proof cases
    case 1
    then have "c \<in> char_of ` {34 :: nat, 92, 8, 9, 10, 12, 13}" using c by blast
    then have "c \<in> {CHR 0x22, CHR 0x5C, CHR 0x08, CHR 0x09, CHR 0x0A, CHR 0x0C, CHR 0x0D}"
      by (simp add: char_of_def bit_Suc_0_iff)
    then show ?thesis by (auto simp: json_char_def parse_chars.simps simple_escape_def)
  next
    case 2
    have "hex4 CHR ''0'' CHR ''0'' (hex_digit (n div 16)) (hex_digit (n mod 16)) = Some n"
      using 2 by (simp add: hex4_def hex_value_hex_digit) (simp add: hex_value_def is_digit_def)
    with 2 esc show ?thesis
      by (auto simp: json_char_def n_def [symmetric] Let_def parse_chars.simps c)
  next
    case 3
    then have "c \<noteq> CHR 0x22" "c \<noteq> CHR 0x5C" by (auto simp: n_def)
    with 3 show ?thesis by (simp add: json_char_def n_def [symmetric] Let_def parse_chars.simps)
  qed
qed

lemma parse_chars_json_str: "parse_chars (concat (map json_char s) @ CHR 0x22 # r) = Some (s, r)"
  by (induction s) (simp_all add: parse_chars_json_char, simp add: parse_chars.simps)

text \<open>A value is followed by the end of the text or by a separator.\<close>

definition ends_value :: "string \<Rightarrow> bool" where
  "ends_value r \<longleftrightarrow> r = [] \<or> hd r \<in> {CHR '','', CHR '']'', CHR ''}'', CHR 0x0A}"

lemma ends_value_simps [simp]:
  "ends_value []" "ends_value (CHR '','' # r)" "ends_value (CHR '']'' # r)" "ends_value (CHR ''}'' # r)"
  "ends_value (CHR 0x0A # r)"
  by (simp_all add: ends_value_def)

lemma index_value_snoc: "index_value (s @ [c]) = 10 * index_value s + (of_char c - 48)"
  by (simp add: index_value_def)

lemma index_value_nat_str: "index_value (nat_str n) = n"
proof (induction n rule: nat_str.induct)
  case (1 n)
  show ?case
  proof (cases "n < 10")
    case True
    then show ?thesis by (simp add: nat_str.simps [of n] index_value_def of_char_digit_char)
  next
    case False
    with 1 show ?thesis
      by (simp add: nat_str.simps [of n] index_value_snoc of_char_digit_char)
  qed
qed

lemma hd_nat_str: "0 < n \<Longrightarrow> hd (nat_str n) \<noteq> CHR ''0''"
proof (induction n rule: nat_str.induct)
  case (1 n)
  show ?case
  proof (cases "n < 10")
    case True
    have "of_char (digit_char n) \<noteq> (of_char (CHR ''0'') :: nat)"
      using True "1.prems" by (simp add: of_char_digit_char)
    then have "digit_char n \<noteq> CHR ''0''" by metis
    with True 1 show ?thesis by (auto simp: nat_str.simps [of n])
  next
    case False
    with 1 show ?thesis by (simp add: nat_str.simps [of n])
  qed
qed

lemma hd_nat_str_digit: "is_digit (hd (nat_str n))"
  by (rule nat_str_digits [OF hd_in_set]) simp

lemma digits_then_nat_str: "ends_value r \<Longrightarrow> digits_then (nat_str n @ r) = (nat_str n, r)"
proof -
  assume "ends_value r"
  then have "takeWhile is_digit r = []" "dropWhile is_digit r = r"
    by (cases r; auto simp: ends_value_def is_digit_def)+
  then show ?thesis
    by (simp add: digits_then_def takeWhile_append dropWhile_append nat_str_digits list_all_iff)
qed

lemma frac_exp_ends: "ends_value r \<Longrightarrow> frac_token r = Some ([], r)" "ends_value r \<Longrightarrow> exp_token r = Some ([], r)"
  by (cases r; auto simp: ends_value_def frac_token_def exp_token_def)+

lemma int_token_int_str:
  assumes "ends_value r"
  shows "int_token (int_str i @ r) = Some (int_str i, r)"
proof -
  define n where "n = nat \<bar>i\<bar>"
  have ne: "hd (nat_str n) \<noteq> CHR ''-''" using hd_nat_str_digit [of n] by auto
  have body: "(if hd (nat_str n) = CHR ''0'' then (sg @ [hd (nat_str n)], tl (nat_str n) @ r) else (sg @ nat_str n, r))
      = (sg @ nat_str n, r)" for sg
  proof (cases "n = 0")
    case True
    then show ?thesis by (simp add: nat_str.simps [of 0] digit_char_def)
  next
    case False
    then show ?thesis using hd_nat_str [of n] by simp
  qed
  show ?thesis
  proof (cases "i < 0")
    case True
    then have i: "int_str i = ''-'' @ nat_str n" by (simp add: int_str_def n_def)
    show ?thesis using body [of "''-''"] by (simp add: int_token_def i digits_then_nat_str assms split: if_splits)
  next
    case False
    then have i: "int_str i = nat_str n" by (simp add: int_str_def n_def)
    obtain c cs where c: "nat_str n = c # cs" by (cases "nat_str n") auto
    have "(case nat_str n @ r of c # q \<Rightarrow> if c = CHR ''-'' then ([c], q) else ([], nat_str n @ r) | [] \<Rightarrow> ([], nat_str n @ r))
        = ([], nat_str n @ r)" using ne by (simp add: c)
    then show ?thesis using body [of "[]"] by (simp add: int_token_def i digits_then_nat_str assms split: if_splits)
  qed
qed

lemma int_value_int_str: "int_value (int_str i) = i" and int_str_not_minus_zero: "int_str i \<noteq> ''-0''"
proof -
  have hd: "hd (nat_str n) \<noteq> CHR ''-''" for n using hd_nat_str_digit [of n] by auto
  have nat: "int_value (nat_str n) = int n" for n
    using hd [of n] by (cases "nat_str n") (auto simp: int_value_def digits_value_def index_value_nat_str dest: arg_cong [where f = index_value])
  have neg: "int_value (''-'' @ nat_str n) = - int n" for n
    by (simp add: int_value_def digits_value_def index_value_nat_str)
  show "int_value (int_str i) = i"
    using nat neg by (simp add: int_str_def)
  show "int_str i \<noteq> ''-0''"
  proof (cases "i < 0")
    case True
    then show ?thesis using hd_nat_str [of "nat (- i)"] by (auto simp: int_str_def)
  next
    case False
    with hd [of "nat i"] show ?thesis by (auto simp: int_str_def)
  qed
qed

lemma parse_number_int_str:
  "ends_value r \<Longrightarrow> is_safe_integer i \<Longrightarrow> parse_number num (int_str i @ r) = Some (JInt i, r)"
  by (simp add: parse_number_def int_token_int_str frac_exp_ends int_value_int_str int_str_not_minus_zero)

subsection \<open>Round trip\<close>

text \<open>No printed value starts with white space or closes an array.\<close>

lemma json_first:
  assumes "json_plain v"
  obtains c cs where "json v = c # cs" "\<not> is_ws c" "c \<noteq> CHR '']''"
proof -
  have *: "\<not> is_ws c \<and> c \<noteq> CHR '']''" if "is_digit c \<or> c = CHR ''-''" for c
    using that by (auto simp: is_ws_def is_digit_def)
  show ?thesis
  proof (cases v)
    case (JInt i)
    obtain c cs where "nat_str (nat \<bar>i\<bar>) = c # cs" by (cases "nat_str (nat \<bar>i\<bar>)") auto
    moreover have "is_digit (hd (nat_str (nat \<bar>i\<bar>)))" by (rule hd_nat_str_digit)
    ultimately show ?thesis using * that JInt by (cases "i < 0") (auto simp: int_str_def)
  next
    case (JBool b)
    then show ?thesis using that by (cases b) (auto simp: is_ws_def)
  qed (use assms that in \<open>auto simp: is_ws_def json_str_def\<close>)
qed

lemma skip_ws_json: "json_plain v \<Longrightarrow> skip_ws (json v @ r) = json v @ r"
  by (erule json_first) (auto simp: skip_ws_def)

lemma skip_ws_non [simp]: "\<not> is_ws c \<Longrightarrow> skip_ws (c # r) = c # r"
  by (simp add: skip_ws_def)

lemma not_ws_separators [simp]:
  "\<not> is_ws (CHR '','')" "\<not> is_ws (CHR '':'')" "\<not> is_ws (CHR '']'')" "\<not> is_ws (CHR ''}'')"
  "\<not> is_ws (CHR ''['')" "\<not> is_ws (CHR ''{'')" "\<not> is_ws (CHR 0x22)"
  by (simp_all add: is_ws_def)

definition reads_back :: "jsval \<Rightarrow> bool" where
  "reads_back v \<longleftrightarrow> (\<forall>num f r. ends_value r \<longrightarrow> 2 * length (json v) < f \<longrightarrow>
     parse_value num f (json v @ r) = Some (v, r))"

lemma reads_backD:
  "reads_back v \<Longrightarrow> ends_value r \<Longrightarrow> 2 * length (json v) < f \<Longrightarrow>
   parse_value num f (json v @ r) = Some (v, r)"
  by (simp add: reads_back_def)

lemma parse_items_join:
  assumes "vs \<noteq> []" and "\<And>v. v \<in> set vs \<Longrightarrow> reads_back v"
    and "2 * length (join '','' (map json vs)) + 1 < f"
  shows "parse_items num f (join '','' (map json vs) @ CHR '']'' # r) = Some (vs, r)"
  using assms
proof (induction vs arbitrary: f)
  case Nil
  then show ?case by simp
next
  case (Cons v vs)
  obtain f' where f: "f = Suc f'" using Cons.prems(3) by (cases f) auto
  show ?case
  proof (cases vs)
    case Nil
    then show ?thesis
      using reads_backD [of v "CHR '']'' # r" f' num] Cons.prems f by (simp add: parse_items.simps)
  next
    case (Cons w ws)
    have "parse_value num f' (json v @ CHR '','' # join '','' (map json vs) @ CHR '']'' # r)
        = Some (v, CHR '','' # join '','' (map json vs) @ CHR '']'' # r)"
      using Cons.prems f Cons by (intro reads_backD) simp_all
    moreover have "parse_items num f' (join '','' (map json vs) @ CHR '']'' # r) = Some (vs, r)"
      using Cons.prems f Cons by (intro Cons.IH) auto
    ultimately show ?thesis using f by (simp add: parse_items.simps Cons)
  qed
qed

definition json_member :: "string \<times> jsval \<Rightarrow> string" where
  "json_member kv = json_str (fst kv) @ '':'' @ json (snd kv)"

lemma parse_members_join:
  assumes "kvs \<noteq> []" and "\<And>k v. (k, v) \<in> set kvs \<Longrightarrow> reads_back v"
    and "2 * length (join '','' (map json_member kvs)) + 1 < f"
  shows "parse_members num f (join '','' (map json_member kvs) @ CHR ''}'' # r) = Some (kvs, r)"
  using assms
proof (induction kvs arbitrary: f)
  case Nil
  then show ?case by simp
next
  case (Cons kv kvs)
  obtain k v where kv: "kv = (k, v)" by fastforce
  obtain f' where f: "f = Suc f'" using Cons.prems(3) by (cases f) auto
  have v: "reads_back v" using Cons.prems(2) kv by auto
  show ?case
  proof (cases kvs)
    case Nil
    have "parse_value num f' (json v @ CHR ''}'' # r) = Some (v, CHR ''}'' # r)"
      using v Cons.prems(3) f kv Nil by (intro reads_backD) (simp_all add: json_member_def)
    then show ?thesis
      using f by (simp add: parse_members.simps Nil kv json_member_def json_str_def parse_chars_json_str)
  next
    case (Cons w ws)
    define rest where "rest = join '','' (map json_member kvs) @ CHR ''}'' # r"
    have printed: "join '','' (map json_member (kv # kvs)) @ CHR ''}'' # r
        = CHR 0x22 # concat (map json_char k) @ CHR 0x22 # CHR '':'' # json v @ CHR '','' # rest"
      by (simp add: Cons kv json_member_def json_str_def rest_def)
    have "parse_value num f' (json v @ CHR '','' # rest) = Some (v, CHR '','' # rest)"
      using v Cons.prems(3) f kv Cons by (intro reads_backD) (simp_all add: json_member_def)
    moreover have "parse_members num f' rest = Some (kvs, r)"
      unfolding rest_def using Cons.prems f Cons by (intro Cons.IH) auto
    ultimately show ?thesis
      unfolding printed using f by (simp add: parse_members.simps kv parse_chars_json_str)
  qed
qed

lemma reads_backI:
  assumes "\<And>num f r. ends_value r \<Longrightarrow> parse_value num (Suc f) (json v @ r) = Some (v, r)"
  shows "reads_back v"
  unfolding reads_back_def
proof (intro allI impI)
  fix num f r
  assume "ends_value r" "2 * length (json v) < f"
  then show "parse_value num f (json v @ r) = Some (v, r)" using assms by (cases f) simp_all
qed

lemma json_plain_reads_back: "json_plain v \<Longrightarrow> reads_back v"
proof (induction v)
  case (JInt i)
  have hd: "hd (int_str i) = CHR ''-'' \<or> is_digit (hd (int_str i))" "int_str i \<noteq> []"
    using hd_nat_str_digit by (auto simp: int_str_def)
  then obtain c cs where c: "int_str i = c # cs" "c = CHR ''-'' \<or> is_digit c" by (cases "int_str i") auto
  then have n: "\<not> is_ws c" "c \<notin> {CHR ''{'', CHR ''['', CHR 0x22}" by (auto simp: is_ws_def is_digit_def)
  have "parse_value num (Suc f) (json (JInt i) @ r) = Some (JInt i, r)" if "ends_value r" for num f r
  proof -
    have "parse_number num ((c # cs) @ r) = Some (JInt i, r)"
      using parse_number_int_str [OF that, of i num] JInt c by simp
    then show ?thesis using c n by (auto simp: parse_value.simps)
  qed
  then show ?case by (rule reads_backI)
next
  case JNull
  show ?case
    by (rule reads_backI) (simp add: parse_value.simps parse_literal_def match_prefix_def is_ws_def is_digit_def)
next
  case (JBool b)
  show ?case
    by (rule reads_backI, cases b)
       (simp_all add: parse_value.simps parse_literal_def match_prefix_def is_ws_def is_digit_def)
next
  case (JStr s)
  show ?case
    by (rule reads_backI) (simp add: parse_value.simps json_str_def parse_chars_json_str)
next
  case (JArr vs)
  have map: "map (\<lambda>v. if v = JUndef then ''null'' else json v) vs = map json vs"
    using JArr.prems by (auto simp: list_all_iff)
  have readable: "\<And>v. v \<in> set vs \<Longrightarrow> reads_back v" using JArr by (auto simp: list_all_iff)
  have "parse_value num f (json (JArr vs) @ r) = Some (JArr vs, r)"
    if "ends_value r" "2 * length (json (JArr vs)) < f" for num f r
  proof (cases vs)
    case Nil
    then show ?thesis using that by (cases f) (simp_all add: parse_value.simps)
  next
    case (Cons w ws)
    note fuel = that(2)
    obtain f' where f: "f = Suc f'" using fuel by (cases f) simp_all
    obtain c cs where c: "json w = c # cs" "\<not> is_ws c" "c \<noteq> CHR '']''"
      using JArr.prems Cons by (auto elim: json_first)
    have "parse_items num f' (join '','' (map json vs) @ CHR '']'' # r) = Some (vs, r)"
    proof (rule parse_items_join)
      show "vs \<noteq> []" by (simp add: Cons)
      show "2 * length (join '','' (map json vs)) + 1 < f'"
        using fuel f by (simp add: map del: join.simps)
    qed (rule readable)
    moreover have "\<exists>t. join '','' (map json vs) @ CHR '']'' # r = c # t"
      using Cons c by (cases ws) auto
    ultimately show ?thesis using c f by (auto simp: parse_value.simps map)
  qed
  then show ?case by (simp add: reads_back_def)
next
  case (JObj kvs)
  have filt: "filter (\<lambda>(k, v). v \<noteq> JUndef) kvs = kvs"
    using JObj.prems by (fastforce simp: list_all_iff filter_id_conv)
  have printed: "json (JObj kvs) = ''{'' @ join '','' (map json_member kvs) @ ''}''"
  proof -
    have "json_member = (\<lambda>(k, v). json_str k @ '':'' @ json v)" by (simp add: fun_eq_iff json_member_def)
    then show ?thesis by (simp add: filt)
  qed
  have readable: "\<And>k v. (k, v) \<in> set kvs \<Longrightarrow> reads_back v" using JObj by (fastforce simp: list_all_iff)
  have "parse_value num f (json (JObj kvs) @ r) = Some (JObj kvs, r)"
    if "ends_value r" "2 * length (json (JObj kvs)) < f" for num f r
  proof (cases kvs)
    case Nil
    then show ?thesis using that by (cases f) (simp_all add: parse_value.simps)
  next
    case (Cons w ws)
    note fuel = that(2)
    obtain f' where f: "f = Suc f'" using fuel by (cases f) simp_all
    have "parse_members num f' (join '','' (map json_member kvs) @ CHR ''}'' # r) = Some (kvs, r)"
    proof (rule parse_members_join)
      show "kvs \<noteq> []" by (simp add: Cons)
      show "2 * length (join '','' (map json_member kvs)) + 1 < f'"
        using fuel f printed by (simp del: join.simps)
    qed (rule readable)
    moreover have "\<exists>t. join '','' (map json_member kvs) @ CHR ''}'' # r = CHR 0x22 # t"
      using Cons by (cases ws) (auto simp: json_member_def json_str_def)
    ultimately show ?thesis
      using f JObj.prems unfolding printed by (auto simp: parse_value.simps)
  qed
  then show ?case by (simp add: reads_back_def)
qed simp_all

lemma json_parse_json: "json_plain v \<Longrightarrow> json_parse num (json v) = Some v"
  using reads_backD [OF json_plain_reads_back, of v "[]" "Suc (2 * length (json v))" num]
  by (simp add: json_parse_def skip_ws_def)

lemma json_inj: "json_plain v \<Longrightarrow> json_plain w \<Longrightarrow> json v = json w \<Longrightarrow> v = w"
  by (metis json_parse_json option.inject)

text \<open>A text on a line of its own: the line feed is white space, and none occurs inside.\<close>

lemma json_parse_line: "json_plain v \<Longrightarrow> json_parse num (json v @ [CHR 0x0A]) = Some v"
  using reads_backD [OF json_plain_reads_back, of v "[CHR 0x0A]" "Suc (2 * length (json v @ [CHR 0x0A]))" num]
  by (simp add: json_parse_def skip_ws_def is_ws_def)

lemma of_char_LF: "(of_char (CHR 0x0A) :: nat) = 10"
  by simp

lemma json_char_no_LF: "CHR 0x0A \<notin> set (json_char c)"
proof -
  have h: "CHR 0x0A \<noteq> hex_digit d" if "d < 16" for d
  proof
    assume "CHR 0x0A = hex_digit d"
    then have "(of_char (hex_digit d) :: nat) = 10" by (metis of_char_LF)
    with that show False by (simp add: hex_digit_def split: if_splits)
  qed
  have "(of_char c :: nat) \<noteq> 10 \<Longrightarrow> c \<noteq> CHR 0x0A" by auto
  moreover have "CHR 0x0A \<noteq> hex_digit (of_char c mod 16)" by (rule h) simp
  moreover have "CHR 0x0A \<noteq> hex_digit (of_char c div 16)" if "of_char c < (32 :: nat)"
    using that by (intro h) simp
  ultimately show ?thesis by (auto simp: json_char_def Let_def)
qed

lemma json_str_no_LF: "CHR 0x0A \<notin> set (json_str s)"
  using json_char_no_LF by (auto simp: json_str_def)

lemma int_str_no_LF: "CHR 0x0A \<notin> set (int_str i)"
proof -
  have "CHR 0x0A \<notin> set (nat_str n)" for n
    using nat_str_digits [of "CHR 0x0A" n] by (auto simp: is_digit_def)
  then show ?thesis by (simp add: int_str_def)
qed

lemma set_join: "set (join sep xs) \<subseteq> set sep \<union> \<Union> (set ` set xs)"
  by (induction sep xs rule: join.induct) auto

lemma json_no_LF: "json_plain v \<Longrightarrow> CHR 0x0A \<notin> set (json v)"
proof (induction v)
  case (JArr vs)
  let ?f = "\<lambda>v. if v = JUndef then ''null'' else json v"
  have "CHR 0x0A \<notin> \<Union> (set ` set (map ?f vs))" using JArr by (auto simp: list_all_iff)
  with set_join [of "'',''" "map ?f vs"] show ?case by auto
next
  case (JObj kvs)
  let ?f = "\<lambda>(k, v). json_str k @ '':'' @ json v"
  have "CHR 0x0A \<notin> \<Union> (set ` set (map ?f (filter (\<lambda>(k, v). v \<noteq> JUndef) kvs)))"
    using JObj json_str_no_LF by (fastforce simp: list_all_iff)
  with set_join [of "'',''" "map ?f (filter (\<lambda>(k, v). v \<noteq> JUndef) kvs)"] show ?case by auto
qed (simp_all add: json_str_no_LF int_str_no_LF)

end
