(* ===== verification/Contracts_Base.thy ===== *)
theory Contracts_Base
  imports Json_Text
begin

text \<open>
  The constants and small grammars the contracts package shares: the public limits
  (\<open>limits.v1.json\<close>), the error catalogue (\<open>error-codes.v1.json\<close>), the operation routes, and
  the regular expressions as predicates.
\<close>

subsection \<open>Limits\<close>

definition requestBodyBytes :: nat where "requestBodyBytes = 65536"
definition responseBodyBytes :: nat where "responseBodyBytes = 1048576"
definition identifierBytes :: nat where "identifierBytes = 256"
definition arrayItems :: nat where "arrayItems = 1000"
definition maximumPageSize :: int where "maximumPageSize = 1000"
definition countCeiling :: int where "countCeiling = 1000000"
definition cursorBytes :: nat where "cursorBytes = 4096"
definition diagnosticBytes :: nat where "diagnosticBytes = 8192"
definition requestDeadlineMs :: nat where "requestDeadlineMs = 10000"
definition admissionConcurrency :: nat where "admissionConcurrency = 32"

lemmas limit_defs = requestBodyBytes_def responseBodyBytes_def identifierBytes_def arrayItems_def
  maximumPageSize_def countCeiling_def cursorBytes_def diagnosticBytes_def requestDeadlineMs_def
  admissionConcurrency_def

subsection \<open>The error catalogue\<close>

record error_definition =
  httpStatus :: nat
  retryable :: bool
  message :: string

definition error_entry :: "string \<Rightarrow> nat \<Rightarrow> bool \<Rightarrow> string \<Rightarrow> string \<times> error_definition" where
  "error_entry code status retry msg = (code, \<lparr>httpStatus = status, retryable = retry, message = msg\<rparr>)"

definition error_catalog :: "(string \<times> error_definition) list" where
  "error_catalog =
    [error_entry ''validation-error'' 400 False ''The request is invalid.'',
     error_entry ''request-too-large'' 413 False ''The request exceeds a public limit.'',
     error_entry ''method-not-allowed'' 405 False ''The HTTP method is not allowed.'',
     error_entry ''route-not-found'' 404 False ''The route is not available.'',
     error_entry ''unsupported-media-type'' 415 False ''The content type is not supported.'',
     error_entry ''cursor-invalid'' 400 False ''The cursor is malformed or has been altered.'',
     error_entry ''cursor-expired'' 410 False ''The cursor has expired; restart from the first page.'',
     error_entry ''cursor-scope-mismatch'' 409 False ''The cursor belongs to a different request or profile.'',
     error_entry ''unsupported-consistency'' 422 False ''The requested consistency mode is not supported by this profile.'',
     error_entry ''freshness-unavailable'' 409 False ''The selected profile cannot satisfy the requested freshness floor.'',
     error_entry ''cancelled'' 499 True ''The request was cancelled.'',
     error_entry ''deadline-exceeded'' 504 True ''The request deadline was exceeded.'',
     error_entry ''overloaded'' 503 True ''The profile has reached its admission limit.'',
     error_entry ''throttled'' 429 True ''A dependency throttled the request.'',
     error_entry ''dependency-unavailable'' 503 True ''A required dependency is unavailable.'',
     error_entry ''storage-missing'' 503 False ''Required immutable storage data is missing.'',
     error_entry ''storage-corrupt'' 503 False ''Required immutable storage data failed integrity checks.'',
     error_entry ''identity-mismatch'' 409 False ''The route or artifact identity does not match the registry.'',
     error_entry ''response-too-large'' 500 False ''The bounded response could not be produced.'',
     error_entry ''internal-error'' 500 False ''The request failed internally.'']"

definition error_codes :: "string list" where
  "error_codes = [''validation-error'', ''request-too-large'', ''method-not-allowed'', ''route-not-found'',
     ''unsupported-media-type'', ''cursor-invalid'', ''cursor-expired'', ''cursor-scope-mismatch'',
     ''unsupported-consistency'', ''freshness-unavailable'', ''cancelled'', ''deadline-exceeded'', ''overloaded'',
     ''throttled'', ''dependency-unavailable'', ''storage-missing'', ''storage-corrupt'', ''identity-mismatch'',
     ''response-too-large'', ''internal-error'']"

lemma map_fst_error_catalog: "map fst error_catalog = error_codes"
  by (simp add: error_catalog_def error_codes_def error_entry_def)

lemma distinct_error_codes: "distinct error_codes"
  by (simp add: error_codes_def)

interpretation errors: closed_table error_codes "map_of error_catalog"
  using closed_table_map_of [of error_catalog] by (simp only: map_fst_error_catalog distinct_error_codes)

subsection \<open>Grammars\<close>

text \<open>\<open>/^[a-z0-9]+(?:-[a-z0-9]+)*$/\<close>\<close>

definition is_lower_digit :: "char \<Rightarrow> bool" where
  "is_lower_digit c \<longleftrightarrow> is_lower c \<or> is_digit c"

definition kebab :: "string \<Rightarrow> bool" where
  "kebab s \<longleftrightarrow> list_all (\<lambda>seg. seg \<noteq> [] \<and> list_all is_lower_digit seg) (split_on (CHR ''-'') s)"

text \<open>\<open>/^[A-Za-z0-9][A-Za-z0-9._:@/-]*$/\<close>\<close>

definition is_alnum :: "char \<Rightarrow> bool" where
  "is_alnum c \<longleftrightarrow> is_lower c \<or> is_upper c \<or> is_digit c"

definition identifier_text :: "string \<Rightarrow> bool" where
  "identifier_text s \<longleftrightarrow> s \<noteq> [] \<and> is_alnum (hd s) \<and> list_all (\<lambda>c. is_alnum c \<or> c \<in> set ''._:@/-'') (tl s)"

text \<open>\<open>/^[0-9a-f]{n}$/\<close>\<close>

definition is_lower_hex :: "char \<Rightarrow> bool" where
  "is_lower_hex c \<longleftrightarrow> is_digit c \<or> CHR ''a'' \<le> c \<and> c \<le> CHR ''f''"

definition lower_hex :: "nat \<Rightarrow> string \<Rightarrow> bool" where
  "lower_hex n s \<longleftrightarrow> length s = n \<and> list_all is_lower_hex s"

subsection \<open>The operations and their methods\<close>

definition OPERATION_ROUTES :: "(string \<times> string) list" where
  "OPERATION_ROUTES =
    [(''health'', ''GET''), (''bootstrap'', ''GET''), (''list-subjects'', ''POST''), (''get-object'', ''POST''),
     (''list-relationships'', ''POST''), (''reverse-relationships'', ''POST''), (''check-permission'', ''POST''),
     (''lookup-resources'', ''POST''), (''lookup-subjects'', ''POST''), (''count-resources'', ''POST''),
     (''get-schema'', ''POST''), (''get-cache-info'', ''POST''), (''count-objects'', ''POST'')]"

definition logicalOperations :: "string list" where
  "logicalOperations = map fst OPERATION_ROUTES"

interpretation routes: closed_table logicalOperations "map_of OPERATION_ROUTES"
  unfolding logicalOperations_def by (rule closed_table_map_of) (simp add: OPERATION_ROUTES_def)

end
