(* ===== verification/Canonical_Text.thy ===== *)
theory Canonical_Text
  imports Json_Text
begin

text \<open>
  The canonical JSON text that the cursor codec and the publications sign. Unlike the generator's
  \<open>canonicalJson\<close> it accepts every finite number, and it joins the members in the order of their
  sorted keys, so keys that are array indices get no special place. \<open>None\<close> is the thrown error.
\<close>

definition finite_number :: "string \<Rightarrow> bool" where
  "finite_number s \<longleftrightarrow> s \<notin> {''NaN'', ''Infinity'', ''-Infinity''}"

fun canonical_text :: "jsval \<Rightarrow> string option" where
  "canonical_text JUndef = None"
| "canonical_text (JNum s) = (if finite_number s then Some (json (JNum s)) else None)"
| "canonical_text (JArr vs) = map_option (\<lambda>ts. ''['' @ join '','' ts @ '']'') (those (map canonical_text vs))"
| "canonical_text (JObj kvs) =
     map_option (\<lambda>ms. ''{'' @ join '','' (map (\<lambda>(k, t). json_str k @ '':'' @ t) (sort_key fst ms)) @ ''}'')
       (those (map (\<lambda>(k, v). map_option (Pair k) (canonical_text v)) kvs))"
| "canonical_text v = Some (json v)"

fun sort_text :: "jsval \<Rightarrow> jsval" where
  "sort_text (JArr vs) = JArr (map sort_text vs)"
| "sort_text (JObj kvs) = JObj (sort_key fst (map (\<lambda>(k, v). (k, sort_text v)) kvs))"
| "sort_text v = v"

text \<open>The values whose text can be read back: exact integers and keys that are no array indices.\<close>

fun text_plain :: "jsval \<Rightarrow> bool" where
  "text_plain JUndef = False"
| "text_plain (JInt i) = is_safe_integer i"
| "text_plain (JNum s) = False"
| "text_plain (JArr vs) = list_all text_plain vs"
| "text_plain (JObj kvs) =
     (distinct (map fst kvs) \<and> list_all (\<lambda>(k, v). \<not> is_array_index k \<and> text_plain v) kvs)"
| "text_plain v = True"

lemma those_map_pairs:
  "(\<And>k v. (k, v) \<in> set kvs \<Longrightarrow> f v = Some (g v)) \<Longrightarrow>
   those (map (\<lambda>(k, v). map_option (Pair k) (f v)) kvs) = Some (map (\<lambda>(k, v). (k, g v)) kvs)"
  by (induction kvs) (force split: prod.split)+

lemma those_map_total: "(\<And>v. v \<in> set vs \<Longrightarrow> f v = Some (g v)) \<Longrightarrow> those (map f vs) = Some (map g vs)"
  by (induction vs) auto

lemma insort_key_pairs:
  "insort_key fst (k, f v) (map (\<lambda>(k, v). (k, f v)) kvs) = map (\<lambda>(k, v). (k, f v)) (insort_key fst (k, v) kvs)"
  by (induction kvs) auto

lemma sort_key_pairs: "sort_key fst (map (\<lambda>(k, v). (k, f v)) kvs) = map (\<lambda>(k, v). (k, f v)) (sort_key fst kvs)"
  by (induction kvs) (auto simp: insort_key_pairs)

lemma fst_comp_pairs [simp]: "fst \<circ> (\<lambda>(k, v). (k, f v)) = fst"
  by auto

lemma distinct_sort_pairs: "distinct (map fst kvs) \<Longrightarrow> distinct (map fst (sort_key fst kvs))"
  by (simp add: distinct_map)

lemma sort_text_plain: "text_plain v \<Longrightarrow> json_plain (sort_text v)"
proof (induction v rule: sort_text.induct)
  case (2 kvs)
  let ?m = "sort_key fst (map (\<lambda>(k, v). (k, sort_text v)) kvs)"
  have "distinct (map fst ?m)" using "2.prems" by (intro distinct_sort_pairs) simp
  moreover have "\<not> is_array_index k" if "k \<in> fst ` set ?m" for k
    using "2.prems" that by (auto simp: list_all_iff)
  ultimately have "from_entries ?m = ?m" by (intro from_entries_distinct)
  with 2 show ?case by (auto simp: list_all_iff)
qed (auto simp: list_all_iff)

lemma canonical_text_plain: "text_plain v \<Longrightarrow> canonical_text v = Some (json (sort_text v))"
proof (induction v rule: canonical_text.induct)
  case (3 vs)
  have "those (map canonical_text vs) = Some (map (\<lambda>v. json (sort_text v)) vs)"
    using 3 by (intro those_map_total) (auto simp: list_all_iff)
  moreover have "sort_text v \<noteq> JUndef" if "v \<in> set vs" for v
    using "3.prems" that by (cases v) (auto simp: list_all_iff)
  ultimately show ?case by (simp cong: map_cong)
next
  case (4 kvs)
  have e: "those (map (\<lambda>(k, v). map_option (Pair k) (canonical_text v)) kvs)
      = Some (map (\<lambda>(k, v). (k, json (sort_text v))) kvs)"
    using 4 by (intro those_map_pairs) (auto simp: list_all_iff)
  have "sort_text v \<noteq> JUndef" if "(k, v) \<in> set kvs" for k v
    using "4.prems" that by (cases v) (auto simp: list_all_iff)
  then have f: "filter (\<lambda>(k, v). v \<noteq> JUndef) (map (\<lambda>(k, v). (k, sort_text v)) (sort_key fst kvs))
      = map (\<lambda>(k, v). (k, sort_text v)) (sort_key fst kvs)"
    by (auto simp: filter_id_conv)
  show ?case
    unfolding canonical_text.simps e sort_text.simps json.simps sort_key_pairs f option.map map_map
    by (simp add: comp_def case_prod_beta)
qed auto

lemma canonical_text_parse:
  "text_plain v \<Longrightarrow> canonical_text v = Some t \<Longrightarrow> json_parse num t = Some (sort_text v)"
  by (auto simp: canonical_text_plain sort_text_plain json_parse_json)

lemma canonical_text_eq_iff:
  "text_plain v \<Longrightarrow> text_plain w \<Longrightarrow> canonical_text v = canonical_text w \<longleftrightarrow> sort_text v = sort_text w"
  using json_inj [of "sort_text v" "sort_text w"] by (auto simp: canonical_text_plain sort_text_plain)

text \<open>Reading a property of a value whose keys were sorted.\<close>

lemma map_of_sort_key: "distinct (map fst kvs) \<Longrightarrow> map_of (sort_key fst kvs) = map_of kvs"
proof -
  assume "distinct (map fst kvs)"
  moreover from this have "distinct (map fst (sort_key fst kvs))" by (simp add: distinct_map)
  ultimately show ?thesis by (intro map_of_eqI) (auto simp: map_of_eq_Some_iff intro!: map_of_is_SomeI)
qed

lemma prop_of_sort_text:
  assumes "distinct (map fst kvs)"
  shows "prop_of (sort_text (JObj kvs)) k = sort_text (prop_of (JObj kvs) k)"
proof -
  have "distinct (map fst (map (\<lambda>(k, v). (k, sort_text v)) kvs))" using assms by simp
  then have "map_of (sort_key fst (map (\<lambda>(k, v). (k, sort_text v)) kvs)) k = map_option sort_text (map_of kvs k)"
    by (simp only: map_of_sort_key map_of_map comp_def)
  then show ?thesis by (simp add: prop_of_def split: option.split)
qed

lemma text_plain_sort_text: "text_plain v \<Longrightarrow> text_plain (sort_text v)"
proof (induction v rule: sort_text.induct)
  case (2 kvs)
  have "distinct (map fst (sort_key fst (map (\<lambda>(k, v). (k, sort_text v)) kvs)))"
    using "2.prems" by (intro distinct_sort_pairs) simp
  with 2 show ?case by (auto simp: list_all_iff)
qed (auto simp: list_all_iff)

lemma sort_text_simple [simp]:
  "isSafeInteger (sort_text v) = isSafeInteger v" "the_int (sort_text v) = the_int v"
  "str_satisfies P (sort_text v) = str_satisfies P v" "(sort_text v = JInt i) = (v = JInt i)"
  "(sort_text v = JStr t) = (v = JStr t)"
  by (cases v; simp add: str_satisfies_def)+

end
