(* ===== verification/Iso_Date.thy ===== *)
theory Iso_Date
  imports Json_Text
begin

text \<open>
  Times as the data packages write and read them. A time is the integer number of milliseconds
  since 1970. \<open>toISOString\<close> and \<open>Date.parse\<close> on its format are the language's; every
  other format \<open>Date.parse\<close> may accept is the engine's own and a parameter, \<open>engine\<close>.
\<close>

subsection \<open>The proleptic Gregorian calendar\<close>

text \<open>Years start in March, so that a leap day is the last day of its year.\<close>

definition year_start :: "int \<Rightarrow> int" where
  "year_start y = 365 * y + y div 4 - y div 100"

definition year_of_era :: "int \<Rightarrow> int" where
  "year_of_era doe = (doe - doe div 1460 + doe div 36524 - doe div 146096) div 365"

definition month_start :: "int \<Rightarrow> int" where
  "month_start mp = (153 * mp + 2) div 5"

definition civil_from_days :: "int \<Rightarrow> int \<times> int \<times> int" where
  "civil_from_days n =
     (let era = (n + 719468) div 146097; doe = (n + 719468) mod 146097; yoe = year_of_era doe;
          doy = doe - year_start yoe; mp = (5 * doy + 2) div 153; m = (if mp < 10 then mp + 3 else mp - 9) in
      (yoe + era * 400 + (if m \<le> 2 then 1 else 0), m, doy - month_start mp + 1))"

definition days_from_civil :: "int \<Rightarrow> int \<Rightarrow> int \<Rightarrow> int" where
  "days_from_civil y m d =
     (let y' = (if m \<le> 2 then y - 1 else y); mp = (m + 9) mod 12 in
      y' div 400 * 146097 + year_start (y' mod 400) + month_start mp + d - 1 - 719468)"

lemma year_of_era_bounds:
  assumes "0 \<le> doe" and "doe < 146097"
  shows "0 \<le> year_of_era doe \<and> year_of_era doe < 400
    \<and> 0 \<le> doe - year_start (year_of_era doe) \<and> doe - year_start (year_of_era doe) \<le> 365"
proof (cases "doe = 146096")
  case True
  then show ?thesis by (simp add: year_of_era_def year_start_def)
next
  case False
  define b k s e where "b = doe div 36524" and "k = doe mod 36524 div 1461" and "s = doe mod 36524 mod 1461"
    and "e = (24 * b + k + s) div 1460"
  define j where "j = (s - e) div 365"
  have b: "0 \<le> b" "b \<le> 3" using assms False by (auto simp: b_def)
  have "0 \<le> doe mod 36524" "doe mod 36524 < 36524" by simp_all
  then have k: "0 \<le> k" "k \<le> 24" by (auto simp: k_def)
  have s: "0 \<le> s" "s \<le> 1460" using pos_mod_bound [of 1461 "doe mod 36524"] by (simp_all add: s_def)
  have doe: "doe = 36524 * b + (1461 * k + s)"
    using div_mult_mod_eq [of doe 36524] div_mult_mod_eq [of "doe mod 36524" 1461] by (simp add: b_def k_def s_def)
  have e: "0 \<le> e" "e \<le> 1" "s - e \<le> 1459" "0 \<le> s - e" using b k s unfolding e_def by linarith+
  have j: "0 \<le> j" "j \<le> 3" "0 \<le> s - 365 * j" "s - 365 * j \<le> 365"
    using e unfolding j_def by linarith+
  have a: "doe div 1460 = 25 * b + k + e"
  proof -
    have "doe = (24 * b + k + s) + 1460 * (25 * b + k)" by (simp add: doe)
    then show ?thesis by (simp add: e_def)
  qed
  have last: "doe div 146096 = 0" using assms False by simp
  have "doe - doe div 1460 + doe div 36524 - doe div 146096 = doe - (25 * b + k + e) + b - 0"
    by (simp only: a last b_def [symmetric])
  also have "\<dots> = (s - e) + 365 * (100 * b + 4 * k)" by (simp add: doe)
  finally have "doe - doe div 1460 + doe div 36524 - doe div 146096 = (s - e) + 365 * (100 * b + 4 * k)" .
  then have y: "year_of_era doe = 100 * b + 4 * k + j"
    by (simp add: year_of_era_def j_def)
  have "(100 * b + 4 * k + j) div 4 = 25 * b + k" "(100 * b + 4 * k + j) div 100 = b"
    using b k j by linarith+
  then have "year_start (year_of_era doe) = 365 * (100 * b + 4 * k + j) + (25 * b + k) - b"
    using b k j by (simp add: y year_start_def)
  then have "doe - year_start (year_of_era doe) = s - 365 * j" by (simp add: doe)
  with y b k j show ?thesis by (intro conjI) (linarith | simp)+
qed

lemma month_of_year:
  assumes "0 \<le> doy" and "doy \<le> (365 :: int)"
  shows "let mp = (5 * doy + 2) div 153 in 0 \<le> mp \<and> mp \<le> 11 \<and> 1 \<le> doy - month_start mp + 1 \<and> doy - month_start mp + 1 \<le> 31"
  unfolding Let_def month_start_def using assms by linarith

lemma civil_bounds:
  assumes "civil_from_days n = (y, m, d)"
  shows "1 \<le> m \<and> m \<le> 12 \<and> 1 \<le> d \<and> d \<le> 31"
proof -
  define doe where "doe = (n + 719468) mod 146097"
  have doe: "0 \<le> doe" "doe < 146097" by (simp_all add: doe_def)
  show ?thesis
    using assms month_of_year [of "doe - year_start (year_of_era doe)"] year_of_era_bounds [OF doe]
    by (auto simp: civil_from_days_def Let_def doe_def [symmetric] split: if_splits)
qed

lemma days_civil: "civil_from_days n = (y, m, d) \<Longrightarrow> days_from_civil y m d = n"
proof -
  assume civil: "civil_from_days n = (y, m, d)"
  define era doe where "era = (n + 719468) div 146097" and "doe = (n + 719468) mod 146097"
  define yoe doy where "yoe = year_of_era doe" and "doy = doe - year_start yoe"
  define mp where "mp = (5 * doy + 2) div 153"
  have doe: "0 \<le> doe" "doe < 146097" by (simp_all add: doe_def)
  from year_of_era_bounds [OF doe] have yoe: "0 \<le> yoe" "yoe < 400" "0 \<le> doy" "doy \<le> 365"
    by (simp_all add: yoe_def doy_def)
  have mp: "0 \<le> mp" "mp \<le> 11" using month_of_year [OF yoe(3,4)] by (simp_all add: mp_def Let_def)
  define mo where "mo = (if mp < 10 then mp + 3 else mp - 9)"
  have "civil_from_days n = (yoe + era * 400 + (if mo \<le> 2 then 1 else 0), mo, doy - month_start mp + 1)"
    unfolding civil_from_days_def Let_def era_def doe_def yoe_def doy_def mp_def mo_def by (rule refl)
  with civil have m: "m = mo" and y: "y = yoe + era * 400 + (if m \<le> 2 then 1 else 0)"
    and d: "d = doy - month_start mp + 1" by auto
  have "(if m \<le> 2 then y - 1 else y) = yoe + era * 400" by (simp add: y)
  moreover have "(m + 9) mod 12 = mp"
  proof (cases "mp < 10")
    case True
    then have "m + 9 = mp + 12" by (simp add: m mo_def)
    then show ?thesis using mp by simp
  qed (use mp m in \<open>simp add: mo_def\<close>)
  moreover have "n + 719468 = era * 146097 + doe" by (simp add: era_def doe_def)
  ultimately show ?thesis using yoe by (simp add: days_from_civil_def Let_def d doy_def)
qed

subsection \<open>ISO text\<close>

definition digits_of :: "nat \<Rightarrow> int \<Rightarrow> string" where
  "digits_of n i = pad_start n (CHR ''0'') (nat_str (nat i))"

definition year_text :: "int \<Rightarrow> string" where
  "year_text y = (if 0 \<le> y \<and> y \<le> 9999 then digits_of 4 y
     else (if y < 0 then ''-'' else ''+'') @ digits_of 6 \<bar>y\<bar>)"

definition iso_text :: "int \<Rightarrow> string" where
  \<comment> \<open>\<open>new Date(t).toISOString()\<close>\<close>
  "iso_text t =
     (case civil_from_days (t div 86400000) of (y, m, d) \<Rightarrow>
        let r = t mod 86400000 in
        year_text y @ ''-'' @ digits_of 2 m @ ''-'' @ digits_of 2 d @ ''T'' @ digits_of 2 (r div 3600000) @ '':''
          @ digits_of 2 (r div 60000 mod 60) @ '':'' @ digits_of 2 (r div 1000 mod 60) @ ''.'' @ digits_of 3 (r mod 1000) @ ''Z'')"

text \<open>A shape in which \<open>d\<close> stands for a digit and every other character for itself.\<close>

definition shaped :: "string \<Rightarrow> string \<Rightarrow> bool" where
  "shaped p s = list_all2 (\<lambda>a c. if a = CHR ''d'' then is_digit c else c = a) p s"

definition iso_seconds :: "string \<Rightarrow> bool" where "iso_seconds = shaped ''dddd-dd-ddTdd:dd:ddZ''"
definition iso_millis :: "string \<Rightarrow> bool" where "iso_millis = shaped ''dddd-dd-ddTdd:dd:dd.dddZ''"

definition part :: "nat \<Rightarrow> nat \<Rightarrow> string \<Rightarrow> int" where
  "part i n s = int (index_value (take n (drop i s)))"

definition iso_parse :: "string \<Rightarrow> int option" where
  "iso_parse s =
     (let y = part 0 4 s; m = part 5 2 s; d = part 8 2 s; h = part 11 2 s; mi = part 14 2 s; sec = part 17 2 s;
          ms = (if iso_millis s then part 20 3 s else 0); n = days_from_civil y m d in
      if (iso_seconds s \<or> iso_millis s) \<and> civil_from_days n = (y, m, d) \<and> h < 24 \<and> mi < 60 \<and> sec < 60
      then Some (n * 86400000 + h * 3600000 + mi * 60000 + sec * 1000 + ms) else None)"

definition date_parse :: "(string \<Rightarrow> int option) \<Rightarrow> string \<Rightarrow> int option" where
  "date_parse engine s = (case iso_parse s of Some t \<Rightarrow> Some t | None \<Rightarrow> engine s)"

definition dateParse :: "(string \<Rightarrow> int option) \<Rightarrow> jsval \<Rightarrow> int option" where
  \<comment> \<open>\<open>Date.parse(v)\<close> of a value that prints; \<open>None\<close> is \<open>NaN\<close>\<close>
  "dateParse engine v = (case js_string v of None \<Rightarrow> None | Some s \<Rightarrow> date_parse engine s)"

text \<open>\<open>canonical.replace(".000Z", "Z")\<close>: the text ends with the milliseconds.\<close>

definition drop_millis :: "string \<Rightarrow> string" where
  "drop_millis s = (if ends_with ''.000Z'' s then take (length s - 5) s @ ''Z'' else s)"

definition validTimestamp :: "(string \<Rightarrow> int option) \<Rightarrow> jsval \<Rightarrow> bool" where
  "validTimestamp engine v = (case v of
     JStr s \<Rightarrow> (iso_seconds s \<or> iso_millis s) \<and>
       (case date_parse engine s of
          None \<Rightarrow> False
        | Some t \<Rightarrow> if CHR ''.'' \<in> set s then iso_text t = s else drop_millis (iso_text t) = s)
   | _ \<Rightarrow> False)"

subsection \<open>Round trip\<close>

lemma index_value_zeros: "index_value (replicate k (CHR ''0'') @ s) = index_value s"
  by (induction k) (simp_all add: index_value_def)

definition fits :: "nat \<Rightarrow> int \<Rightarrow> bool" where
  "fits n i \<longleftrightarrow> 0 < n \<and> 0 \<le> i \<and> i < 10 ^ n"

lemma digits_of_facts:
  assumes "fits n i"
  shows "length (digits_of n i) = n" "list_all is_digit (digits_of n i)" "int (index_value (digits_of n i)) = i"
proof -
  have "length (nat_str (nat i)) \<le> n"
    using assms by (intro length_nat_str) (simp_all add: fits_def nat_less_iff)
  then show "length (digits_of n i) = n" by (simp add: digits_of_def pad_start_def)
  show "list_all is_digit (digits_of n i)"
    by (auto simp: digits_of_def pad_start_def list_all_iff nat_str_digits) (simp add: is_digit_def)
  show "int (index_value (digits_of n i)) = i"
    using assms by (simp add: fits_def digits_of_def pad_start_def index_value_zeros index_value_nat_str)
qed

lemma shaped_append: "shaped p s \<Longrightarrow> shaped q t \<Longrightarrow> shaped (p @ q) (s @ t)"
  by (simp add: shaped_def list_all2_appendI)

lemma shaped_digits: "length s = n \<Longrightarrow> list_all is_digit s \<Longrightarrow> shaped (replicate n (CHR ''d'')) s"
  by (auto simp: shaped_def list_all2_conv_all_nth list_all_length)

lemma shaped_self: "CHR ''d'' \<notin> set s \<Longrightarrow> shaped s s"
  by (auto simp: shaped_def list_all2_conv_all_nth dest: nth_mem)

text \<open>The times whose year has four digits.\<close>

definition four_digit_year :: "int \<Rightarrow> bool" where
  "four_digit_year t \<longleftrightarrow> (case civil_from_days (t div 86400000) of (y, m, d) \<Rightarrow> 0 \<le> y \<and> y \<le> 9999)"

lemma iso_text_parts:
  assumes "four_digit_year t"
  obtains y m d h mi se ms where
    "iso_text t = y @ ''-'' @ m @ ''-'' @ d @ ''T'' @ h @ '':'' @ mi @ '':'' @ se @ ''.'' @ ms @ ''Z''"
    "length y = 4" "length m = 2" "length d = 2" "length h = 2" "length mi = 2" "length se = 2" "length ms = 3"
    "list_all (list_all is_digit) [y, m, d, h, mi, se, ms]"
    "civil_from_days (t div 86400000) = (int (index_value y), int (index_value m), int (index_value d))"
    "int (index_value h) = t mod 86400000 div 3600000" "int (index_value mi) = t mod 86400000 div 60000 mod 60"
    "int (index_value se) = t mod 86400000 div 1000 mod 60" "int (index_value ms) = t mod 1000"
    "ms = digits_of 3 (t mod 1000)"
proof -
  obtain y m d where civil: "civil_from_days (t div 86400000) = (y, m, d)" by (rule prod_cases3)
  define r where "r = t mod 86400000"
  have r: "0 \<le> r" "r < 86400000" "r mod 1000 = t mod 1000" by (simp_all add: r_def mod_mod_cancel)
  have y: "0 \<le> y" "y \<le> 9999" using assms civil by (simp_all add: four_digit_year_def)
  note md = civil_bounds [OF civil]
  have h: "0 \<le> r div 3600000" "r div 3600000 < 100" using r by linarith+
  have fits: "fits 4 y" "fits 2 m" "fits 2 d" "fits 2 (r div 3600000)" "fits 3 (t mod 1000)"
    using y md h by (simp_all add: fits_def)
  have mods: "fits 2 (r div 60000 mod 60)" "fits 2 (r div 1000 mod 60)"
    using pos_mod_bound [of 60 "r div 60000"] pos_mod_bound [of 60 "r div 1000"] by (auto simp: fits_def)
  note facts = fits [THEN digits_of_facts(1)] fits [THEN digits_of_facts(2)] fits [THEN digits_of_facts(3)]
    mods [THEN digits_of_facts(1)] mods [THEN digits_of_facts(2)] mods [THEN digits_of_facts(3)]
  have "iso_text t = digits_of 4 y @ ''-'' @ digits_of 2 m @ ''-'' @ digits_of 2 d @ ''T'' @ digits_of 2 (r div 3600000) @ '':''
      @ digits_of 2 (r div 60000 mod 60) @ '':'' @ digits_of 2 (r div 1000 mod 60) @ ''.'' @ digits_of 3 (t mod 1000) @ ''Z''"
    unfolding iso_text_def civil Let_def year_text_def r_def [symmetric] r(3) prod.case using y by simp
  then show thesis
    by (rule that) (simp_all add: facts civil r_def [symmetric])
qed

lemma shaped_texts:
  assumes "length y = 4" "length m = 2" "length d = 2" "length h = 2" "length mi = 2" "length se = 2" "length ms = 3"
    and "list_all (list_all is_digit) [y, m, d, h, mi, se, ms]"
  shows "iso_millis (y @ ''-'' @ m @ ''-'' @ d @ ''T'' @ h @ '':'' @ mi @ '':'' @ se @ ''.'' @ ms @ ''Z'')"
    "iso_seconds (y @ ''-'' @ m @ ''-'' @ d @ ''T'' @ h @ '':'' @ mi @ '':'' @ se @ ''Z'')"
proof -
  let ?d = "\<lambda>n. replicate n (CHR ''d'')"
  have "shaped (?d 4) y" "shaped (?d 2) m" "shaped (?d 2) d" "shaped (?d 2) h" "shaped (?d 2) mi" "shaped (?d 2) se" "shaped (?d 3) ms"
    using assms by (simp_all add: shaped_digits)
  note parts = this
  have "shaped (?d 4 @ ''-'' @ ?d 2 @ ''-'' @ ?d 2 @ ''T'' @ ?d 2 @ '':'' @ ?d 2 @ '':'' @ ?d 2 @ ''.'' @ ?d 3 @ ''Z'')
      (y @ ''-'' @ m @ ''-'' @ d @ ''T'' @ h @ '':'' @ mi @ '':'' @ se @ ''.'' @ ms @ ''Z'')"
    by (intro shaped_append parts shaped_self) simp_all
  then show "iso_millis (y @ ''-'' @ m @ ''-'' @ d @ ''T'' @ h @ '':'' @ mi @ '':'' @ se @ ''.'' @ ms @ ''Z'')"
    by (simp add: iso_millis_def numeral_eq_Suc)
  have "shaped (?d 4 @ ''-'' @ ?d 2 @ ''-'' @ ?d 2 @ ''T'' @ ?d 2 @ '':'' @ ?d 2 @ '':'' @ ?d 2 @ ''Z'')
      (y @ ''-'' @ m @ ''-'' @ d @ ''T'' @ h @ '':'' @ mi @ '':'' @ se @ ''Z'')"
    by (intro shaped_append parts shaped_self) simp_all
  then show "iso_seconds (y @ ''-'' @ m @ ''-'' @ d @ ''T'' @ h @ '':'' @ mi @ '':'' @ se @ ''Z'')"
    by (simp add: iso_seconds_def numeral_eq_Suc)
qed

lemma clock_sum:
  fixes t :: int
  defines "r \<equiv> t mod 86400000"
  shows "t div 86400000 * 86400000 + r div 3600000 * 3600000 + r div 60000 mod 60 * 60000 + r div 1000 mod 60 * 1000 + t mod 1000 = t"
proof -
  have "r div 60000 div 60 = r div 3600000" "r div 1000 div 60 = r div 60000" by (simp_all add: div_mult2_eq [symmetric])
  then have "r div 60000 = r div 3600000 * 60 + r div 60000 mod 60" "r div 1000 = r div 60000 * 60 + r div 1000 mod 60"
    by (metis div_mult_mod_eq)+
  moreover have "r = r div 1000 * 1000 + t mod 1000"
    using div_mult_mod_eq [of r 1000] by (simp add: r_def mod_mod_cancel)
  moreover have "t = t div 86400000 * 86400000 + r" by (simp add: r_def)
  moreover have "d + h * 3600000 + m * 60000 + s * 1000 + ms = t"
    if "b = h * 60 + m" "a = b * 60 + s" "r' = a * 1000 + ms" "t = d + r'" for a b d h m s ms r' :: int
    using that by simp
  ultimately show ?thesis by blast
qed

lemma zero_millis: "digits_of 3 0 = ''000''"
proof -
  have "replicate 2 (CHR ''0'') = ''00''" by (simp add: numeral_2_eq_2)
  moreover have "digit_char 0 = CHR ''0''"
    by (simp add: digit_char_def char_of_eq_iff take_bit_nat_eq_self)
  ultimately show ?thesis by (simp add: digits_of_def pad_start_def nat_str.simps)
qed

lemma iso_parse_intro:
  assumes "iso_seconds s \<or> iso_millis s"
    and "part 0 4 s = y" "part 5 2 s = m" "part 8 2 s = d" "part 11 2 s = h" "part 14 2 s = mi" "part 17 2 s = se"
    and "(if iso_millis s then part 20 3 s else 0) = ms" "days_from_civil y m d = n" "civil_from_days n = (y, m, d)"
    and "h < 24" "mi < 60" "se < 60" "n * 86400000 + h * 3600000 + mi * 60000 + se * 1000 + ms = t"
  shows "iso_parse s = Some t"
  unfolding iso_parse_def Let_def assms(2-9) using assms(1,10-14) by simp

lemma iso_parse_text:
  assumes "four_digit_year t"
  shows "iso_millis (iso_text t) \<and> iso_parse (iso_text t) = Some t \<and> CHR ''.'' \<in> set (iso_text t)"
    and "t mod 1000 = 0 \<Longrightarrow> iso_seconds (drop_millis (iso_text t)) \<and> iso_parse (drop_millis (iso_text t)) = Some t
      \<and> CHR ''.'' \<notin> set (drop_millis (iso_text t))"
proof -
  obtain y m d h mi se ms where
    whole: "iso_text t = y @ ''-'' @ m @ ''-'' @ d @ ''T'' @ h @ '':'' @ mi @ '':'' @ se @ ''.'' @ ms @ ''Z''"
    and lengths: "length y = 4" "length m = 2" "length d = 2" "length h = 2" "length mi = 2" "length se = 2" "length ms = 3"
    and digits: "list_all (list_all is_digit) [y, m, d, h, mi, se, ms]"
    and civil: "civil_from_days (t div 86400000) = (int (index_value y), int (index_value m), int (index_value d))"
    and clock: "int (index_value h) = t mod 86400000 div 3600000" "int (index_value mi) = t mod 86400000 div 60000 mod 60"
      "int (index_value se) = t mod 86400000 div 1000 mod 60" "int (index_value ms) = t mod 1000"
    and ms: "ms = digits_of 3 (t mod 1000)"
    using iso_text_parts [OF assms] .
  have hour: "t mod 86400000 div 3600000 < 24" by linarith
  have limits: "int (index_value h) < 24" "int (index_value mi) < 60" "int (index_value se) < 60"
    unfolding clock by (rule hour) simp_all
  note shapes = shaped_texts [OF lengths digits]
  have len: "length (y @ ''-'' @ m @ ''-'' @ d @ ''T'' @ h @ '':'' @ mi @ '':'' @ se @ ''.'' @ ms @ ''Z'') = 24"
    "length (y @ ''-'' @ m @ ''-'' @ d @ ''T'' @ h @ '':'' @ mi @ '':'' @ se @ ''Z'') = 20"
    using lengths by simp_all
  have parts: "part 0 4 s = int (index_value y)" "part 5 2 s = int (index_value m)" "part 8 2 s = int (index_value d)"
    "part 11 2 s = int (index_value h)" "part 14 2 s = int (index_value mi)" "part 17 2 s = int (index_value se)"
    if "s = y @ ''-'' @ m @ ''-'' @ d @ ''T'' @ h @ '':'' @ mi @ '':'' @ se @ u" for s u
    using that lengths by (simp_all add: part_def)
  note day = days_civil [OF civil] civil
  have sum: "t div 86400000 * 86400000 + int (index_value h) * 3600000 + int (index_value mi) * 60000
      + int (index_value se) * 1000 + t mod 1000 = t"
    unfolding clock by (rule clock_sum)
  have ms_part: "part 20 3 (iso_text t) = int (index_value ms)" using lengths by (simp add: part_def whole)
  have millis: "iso_millis (iso_text t)" using shapes(1) by (simp only: whole)
  have "iso_parse (iso_text t) = Some t"
    by (rule iso_parse_intro [OF _ parts [OF whole] _ day limits sum])
      (simp_all add: millis ms_part clock(4))
  then show "iso_millis (iso_text t) \<and> iso_parse (iso_text t) = Some t \<and> CHR ''.'' \<in> set (iso_text t)"
    using millis by (simp add: whole)
  assume zero: "t mod 1000 = 0"
  then have "ms = ''000''" by (simp add: ms zero_millis)
  then have short: "drop_millis (iso_text t) = y @ ''-'' @ m @ ''-'' @ d @ ''T'' @ h @ '':'' @ mi @ '':'' @ se @ ''Z''"
    using lengths by (simp add: drop_millis_def whole ends_with_def)
  have seconds: "iso_seconds (drop_millis (iso_text t))" using shapes(2) by (simp only: short)
  have "\<not> iso_millis (drop_millis (iso_text t))"
    using len(2) unfolding short iso_millis_def shaped_def by (auto dest!: list_all2_lengthD)
  then have "iso_parse (drop_millis (iso_text t)) = Some t"
    by (intro iso_parse_intro [OF _ parts [OF short] _ day limits sum])
      (simp_all add: seconds zero)
  moreover have "CHR ''.'' \<notin> set (drop_millis (iso_text t))"
    using digits by (auto simp: short list_all_iff is_digit_def)
  ultimately show "iso_seconds (drop_millis (iso_text t)) \<and> iso_parse (drop_millis (iso_text t)) = Some t
      \<and> CHR ''.'' \<notin> set (drop_millis (iso_text t))"
    using seconds by simp
qed

lemma no_millis:
  assumes "four_digit_year t" and "CHR ''.'' \<notin> set (drop_millis (iso_text t))"
  shows "t mod 1000 = 0"
proof -
  obtain y m d h mi se ms where whole: "iso_text t = y @ ''-'' @ m @ ''-'' @ d @ ''T'' @ h @ '':'' @ mi @ '':'' @ se @ ''.'' @ ms @ ''Z''"
    and ms: "length ms = 3" "int (index_value ms) = t mod 1000"
    using iso_text_parts [OF assms(1)] by metis
  then have "ends_with ''.000Z'' (iso_text t)"
    using assms(2) by (auto simp: drop_millis_def split: if_splits)
  moreover obtain a b c where "ms = [a, b, c]" using ms(1) by (auto simp: numeral_eq_Suc length_Suc_conv)
  ultimately have "ms = ''000''" by (auto simp: whole ends_with_def)
  then show ?thesis using ms(2) by (simp add: index_value_def)
qed

lemma shaped_year:
  assumes "iso_seconds s \<or> iso_millis s" and "s = iso_text t \<or> s = drop_millis (iso_text t)"
  shows "four_digit_year t"
proof -
  obtain y m d where civil: "civil_from_days (t div 86400000) = (y, m, d)" by (rule prod_cases3)
  from assms(1) obtain c u where s: "s = c # u" "is_digit c"
    by (cases s) (auto simp: iso_seconds_def iso_millis_def shaped_def)
  have "take 1 (drop_millis v) = take 1 v" if "length v > 6" for v
    using that by (cases v) (auto simp: drop_millis_def take_Cons')
  moreover have "length (iso_text t) > 6" by (simp add: iso_text_def civil Let_def)
  ultimately have "take 1 (drop_millis (iso_text t)) = take 1 (iso_text t)" by blast
  moreover have "take 1 s = [c]" using s by simp
  ultimately have "take 1 (iso_text t) = [c]" using assms(2) by metis
  then have "hd (iso_text t) = c" by (cases "iso_text t") auto
  then have "is_digit (hd (iso_text t))" using s by simp
  then show ?thesis
    by (auto simp: iso_text_def civil Let_def year_text_def four_digit_year_def is_digit_def split: if_splits)
qed

text \<open>
  \<open>validTimestamp\<close> accepts exactly the canonical texts of times with a four-digit year: what
  \<open>toISOString\<close> prints, or that text without its milliseconds when they are zero. Whatever other
  formats the engine's \<open>Date.parse\<close> reads, none of them passes, and an accepted text reads back as
  its time.
\<close>

theorem valid_timestamp_iff:
  "validTimestamp engine v \<longleftrightarrow>
     (\<exists>t. four_digit_year t \<and> dateParse engine v = Some t
        \<and> (v = JStr (iso_text t) \<or> t mod 1000 = 0 \<and> v = JStr (drop_millis (iso_text t))))"
proof
  assume valid: "validTimestamp engine v"
  then obtain s t where v: "v = JStr s" and shape: "iso_seconds s \<or> iso_millis s" and t: "date_parse engine s = Some t"
    and canonical: "if CHR ''.'' \<in> set s then iso_text t = s else drop_millis (iso_text t) = s"
    by (auto simp: validTimestamp_def split: jsval.splits option.splits)
  have year: "four_digit_year t" using shape by (rule shaped_year) (use canonical in \<open>auto split: if_splits\<close>)
  have "t mod 1000 = 0" if "CHR ''.'' \<notin> set s"
    using that canonical by (intro no_millis [OF year]) simp
  then have "v = JStr (iso_text t) \<or> t mod 1000 = 0 \<and> v = JStr (drop_millis (iso_text t))"
    using canonical v by (cases "CHR ''.'' \<in> set s") simp_all
  moreover have "dateParse engine v = Some t" using v t by (simp add: dateParse_def)
  ultimately show "\<exists>t. four_digit_year t \<and> dateParse engine v = Some t
      \<and> (v = JStr (iso_text t) \<or> t mod 1000 = 0 \<and> v = JStr (drop_millis (iso_text t)))"
    using year by iprover
next
  assume "\<exists>t. four_digit_year t \<and> dateParse engine v = Some t
      \<and> (v = JStr (iso_text t) \<or> t mod 1000 = 0 \<and> v = JStr (drop_millis (iso_text t)))"
  then show "validTimestamp engine v"
  proof (elim exE disjE conjE)
    fix t assume "four_digit_year t" "v = JStr (iso_text t)"
    with iso_parse_text(1) [of t] show ?thesis by (simp add: validTimestamp_def date_parse_def)
  next
    fix t assume "four_digit_year t" "t mod 1000 = 0" "v = JStr (drop_millis (iso_text t))"
    with iso_parse_text(2) [of t] show ?thesis by (simp add: validTimestamp_def date_parse_def)
  qed
qed

end
