(* ===== verification/Stable_Json.thy ===== *)
theory Stable_Json
  imports Guards Contracts_Base Canonical_Text Iso_Date
begin

text \<open>
  What the data-lifecycle modules share: \<open>stableJson\<close>, the digest of a value, references of the
  form \<open>sha256:...\<close> and times read from values. SHA-256 of \<open>node:crypto\<close> is the parameter
  \<open>sha\<close>, the engine's own date formats the parameter \<open>engine\<close>.
\<close>

definition sha256_ref :: "string \<Rightarrow> bool" where
  \<comment> \<open>\<open>/^sha256:[0-9a-f]{64}$/u\<close>\<close>
  "sha256_ref s \<longleftrightarrow> starts_with ''sha256:'' s \<and> lower_hex 64 (drop 7 s)"

fun stable_json :: "jsval \<Rightarrow> string" where
  "stable_json (JArr vs) = ''['' @ join '','' (map (\<lambda>v. if v = JUndef then [] else stable_json v) vs) @ '']''"
| "stable_json (JObj kvs) =
     ''{'' @ join '','' (map (\<lambda>(k, t). json_str k @ '':'' @ t) (sort_key fst (map (\<lambda>(k, v). (k, stable_json v)) kvs))) @ ''}''"
| "stable_json v = json v"

definition stable_digest :: "(string \<Rightarrow> string) \<Rightarrow> jsval \<Rightarrow> string" where
  "stable_digest sha v = ''sha256:'' @ sha (stable_json v @ [CHR 0x0A])"

text \<open>\<open>Date.parse(v)\<close>, where the conversion to text may throw; \<open>new Date(v)\<close> also takes times.\<close>

definition date_r :: "(string \<Rightarrow> int option) \<Rightarrow> jsval \<Rightarrow> js_error + int option" where
  "date_r engine v = (case js_string v of None \<Rightarrow> Inl Type_Error | Some s \<Rightarrow> Inr (date_parse engine s))"

definition time_clip :: "int \<Rightarrow> int option" where
  "time_clip t = (if \<bar>t\<bar> \<le> 8640000000000000 then Some t else None)"

definition truncate_rat :: "rat \<Rightarrow> int" where
  "truncate_rat q = (if q < 0 then \<lceil>q\<rceil> else \<lfloor>q\<rfloor>)"

definition new_date :: "(string \<Rightarrow> int option) \<Rightarrow> jsval \<Rightarrow> int option" where
  "new_date engine v = (case v of
     JUndef \<Rightarrow> None
   | JNull \<Rightarrow> Some 0
   | JBool b \<Rightarrow> Some (if b then 1 else 0)
   | JInt i \<Rightarrow> time_clip i
   | JNum s \<Rightarrow> (case num_of (JNum s) of None \<Rightarrow> None | Some q \<Rightarrow> time_clip (truncate_rat q))
   | _ \<Rightarrow> dateParse engine v)"

text \<open>\<open>new Date(t).toISOString()\<close> throws for a time outside the range.\<close>

definition iso_r :: "int \<Rightarrow> js_error + string" where
  "iso_r t = (case time_clip t of None \<Rightarrow> Inl (Error ''Invalid time value'') | Some u \<Rightarrow> Inr (iso_text u))"

lemma iso_r_ok: "iso_r t = Inr s \<longleftrightarrow> \<bar>t\<bar> \<le> 8640000000000000 \<and> s = iso_text t"
  by (auto simp: iso_r_def time_clip_def)

lemma sha256_ref_str: "sha256_ref (''sha256:'' @ s) \<longleftrightarrow> lower_hex 64 s"
  by (simp add: sha256_ref_def)

lemma stable_json_text: "text_plain v \<Longrightarrow> canonical_text v = Some (stable_json v)"
proof (induction v rule: stable_json.induct)
  case (1 vs)
  have "v \<noteq> JUndef \<and> text_plain v" if "v \<in> set vs" for v using 1(2) that by (auto simp: list_all_iff)
  with 1(1) have "those (map canonical_text vs) = Some (map stable_json vs)"
    by (intro those_map_total) auto
  moreover have "map (\<lambda>v. if v = JUndef then [] else stable_json v) vs = map stable_json vs"
    using 1(2) by (auto simp: list_all_iff)
  ultimately show ?case by (simp del: map_eq_conv)
next
  case (2 kvs)
  then have "those (map (\<lambda>(k, v). map_option (Pair k) (canonical_text v)) kvs) = Some (map (\<lambda>(k, v). (k, stable_json v)) kvs)"
    by (intro those_map_pairs) (auto simp: list_all_iff)
  then show ?case by simp
qed simp_all

text \<open>Two plain values print the same stable text exactly when they differ only in the order of their keys.\<close>

lemma stable_json_eq_iff:
  "text_plain v \<Longrightarrow> text_plain w \<Longrightarrow> stable_json v = stable_json w \<longleftrightarrow> sort_text v = sort_text w"
  using canonical_text_eq_iff [of v w] by (simp add: stable_json_text)

end
