(* ===== verification/Bytes.thy ===== *)
theory Bytes
  imports Js
begin

text \<open>
  Text as bytes and bytes as base 64, as the contracts package uses them: \<open>TextEncoder\<close>,
  \<open>btoa\<close>, \<open>atob\<close>, and the url-safe form of \<open>cursor-codec.mjs\<close>. A byte is a number below 256.
  What \<open>TextDecoder\<close> makes of bytes is the interface \<open>text_decoder\<close>: it inverts the encoder;
  what it makes of other bytes may lie outside the model's texts.
\<close>

subsection \<open>UTF-8\<close>

definition utf8_char :: "char \<Rightarrow> nat list" where
  "utf8_char c = (let n = of_char c :: nat in if n < 128 then [n] else [192 + n div 64, 128 + n mod 64])"

definition utf8 :: "string \<Rightarrow> nat list" where
  "utf8 s = concat (map utf8_char s)"

lemma utf8_simps [simp]: "utf8 [] = []" "utf8 (c # s) = utf8_char c @ utf8 s"
  by (simp_all add: utf8_def)

lemma length_utf8: "length (utf8 s) = byte_length s"
  by (induction s) (simp_all add: utf8_char_def byte_length_def Let_def)

lemma utf8_bytes: "b \<in> set (utf8 s) \<Longrightarrow> b < 256"
proof (induction s)
  case (Cons c s)
  have "(of_char c :: nat) < 256" by simp
  then have "(of_char c :: nat) div 64 < 4" by (simp add: less_mult_imp_div_less)
  with Cons show ?case by (auto simp: utf8_char_def Let_def split: if_splits)
qed simp

lemma utf8_not_Nil: "s \<noteq> [] \<Longrightarrow> utf8 s \<noteq> []"
  by (cases s) (simp_all add: utf8_char_def Let_def)

locale text_decoder =
  fixes decode :: "nat list \<Rightarrow> string"
  assumes decode_utf8: "decode (utf8 s) = s"
begin

lemma utf8_inj: "utf8 s = utf8 t \<Longrightarrow> s = t"
  by (metis decode_utf8)

end

text \<open>A decoder for the one and two byte forms the model's texts need.\<close>

fun latin_decode :: "nat list \<Rightarrow> string" where
  "latin_decode [] = []"
| "latin_decode [b] = [char_of b]"
| "latin_decode (b # c # bs) =
     (if b < 128 then char_of b # latin_decode (c # bs)
      else char_of ((b - 192) * 64 + (c - 128)) # latin_decode bs)"

lemma latin_decode_utf8: "latin_decode (utf8_char c @ bs) = c # latin_decode bs"
proof -
  define n where "n = (of_char c :: nat)"
  have "n div 64 * 64 + n mod 64 = n" "char_of n = c" by (simp_all add: n_def)
  then show ?thesis
    by (cases bs) (simp_all add: utf8_char_def n_def [symmetric] Let_def)
qed

interpretation latin: text_decoder latin_decode
proof
  show "latin_decode (utf8 s) = s" for s by (induction s) (simp_all add: latin_decode_utf8)
qed

subsection \<open>Base 64\<close>

fun sextets :: "nat list \<Rightarrow> nat list" where
  "sextets [] = []"
| "sextets [a] = [a div 4, (a mod 4) * 16]"
| "sextets [a, b] = [a div 4, (a mod 4) * 16 + b div 16, (b mod 16) * 4]"
| "sextets (a # b # c # bs) =
     [a div 4, (a mod 4) * 16 + b div 16, (b mod 16) * 4 + c div 64, c mod 64] @ sextets bs"

fun octets :: "nat list \<Rightarrow> nat list" where
  "octets (w # x # y # z # vs) =
     [w * 4 + x div 16, (x mod 16) * 16 + y div 4, (y mod 4) * 64 + z] @ octets vs"
| "octets [w, x, y] = [w * 4 + x div 16, (x mod 16) * 16 + y div 4]"
| "octets [w, x] = [w * 4 + x div 16]"
| "octets _ = []"

lemma octets_sextets: "(\<And>b. b \<in> set bs \<Longrightarrow> b < 256) \<Longrightarrow> octets (sextets bs) = bs"
proof (induction bs rule: sextets.induct)
  case (3 a b)
  then have "b div 16 < 16" by (simp add: less_mult_imp_div_less)
  then show ?case by simp
next
  case (4 a b c bs)
  then have "b div 16 < 16" "c div 64 < 4" by (simp_all add: less_mult_imp_div_less)
  with 4 show ?case by simp
qed simp_all

lemma sextets_bound: "(\<And>b. b \<in> set bs \<Longrightarrow> b < 256) \<Longrightarrow> v \<in> set (sextets bs) \<Longrightarrow> v < 64"
proof (induction bs arbitrary: v rule: sextets.induct)
  case (2 a)
  then show ?case by (auto simp: less_mult_imp_div_less)
next
  case (3 a b)
  then have "a div 4 < 64" "b div 16 < 16" by (simp_all add: less_mult_imp_div_less)
  moreover have "a mod 4 < 4" "b mod 16 < 16" by simp_all
  ultimately show ?case using 3 by auto
next
  case (4 a b c bs)
  then have "a div 4 < 64" "b div 16 < 16" "c div 64 < 4" by (simp_all add: less_mult_imp_div_less)
  moreover have "a mod 4 < 4" "b mod 16 < 16" by simp_all
  ultimately show ?case using 4 by auto
qed simp

lemma length_sextets: "length (sextets bs) mod 4 \<noteq> 1"
  by (induction bs rule: sextets.induct) (auto simp: mod_Suc)

definition b64_char :: "nat \<Rightarrow> char" where
  "b64_char n =
     (if n < 26 then char_of (65 + n) else if n < 52 then char_of (71 + n)
      else if n < 62 then char_of (n - 4) else if n = 62 then CHR ''+'' else CHR ''/'')"

definition b64_value :: "char \<Rightarrow> nat option" where
  "b64_value c =
     (let n = of_char c :: nat in
      if 65 \<le> n \<and> n \<le> 90 then Some (n - 65) else if 97 \<le> n \<and> n \<le> 122 then Some (n - 71)
      else if 48 \<le> n \<and> n \<le> 57 then Some (n + 4) else if n = 43 then Some 62 else if n = 47 then Some 63 else None)"

lemma b64_value_char: "n < 64 \<Longrightarrow> b64_value (b64_char n) = Some n"
  by (auto simp: b64_char_def b64_value_def Let_def)

lemma b64_value_special: "b64_value (CHR ''='') = None" "b64_value (CHR '' '') = None"
  "b64_value (CHR ''-'') = None" "b64_value (CHR ''_'') = None"
  by (simp_all add: b64_value_def)

lemma b64_char_neq:
  "n < 64 \<Longrightarrow> b64_char n \<notin> {CHR ''='', CHR ''-'', CHR ''_'', CHR '' ''}"
  using b64_value_char [of n] b64_value_special by auto

definition btoa :: "nat list \<Rightarrow> string" where
  "btoa bs = map b64_char (sextets bs) @ replicate ((3 - length bs mod 3) mod 3) (CHR ''='')"

definition ascii_space :: "char \<Rightarrow> bool" where
  "ascii_space c \<longleftrightarrow> (of_char c :: nat) \<in> {9, 10, 12, 13, 32}"

definition strip_padding :: "string \<Rightarrow> string" where
  "strip_padding s =
     (if length s mod 4 = 0 then
        (if ends_with ''=='' s then take (length s - 2) s
         else if ends_with ''='' s then take (length s - 1) s else s)
      else s)"

text \<open>\<open>atob\<close>: an error (\<open>None\<close>) for a text that is no base 64.\<close>

definition atob :: "string \<Rightarrow> nat list option" where
  "atob s =
     (let t = strip_padding (filter (\<lambda>c. \<not> ascii_space c) s) in
      if length t mod 4 = 1 then None else map_option octets (those (map b64_value t)))"

text \<open>\<open>/^[A-Za-z0-9+/]*={0,2}$/\<close> of \<open>function-url.mjs\<close> and its decoder.\<close>

definition b64_shaped :: "string \<Rightarrow> bool" where
  "b64_shaped s \<longleftrightarrow>
     (let body = takeWhile (\<lambda>c. b64_value c \<noteq> None) s; pad = dropWhile (\<lambda>c. b64_value c \<noteq> None) s in
      list_all (\<lambda>c. c = CHR ''='') pad \<and> length pad \<le> 2)"

definition fromBase64 :: "string \<Rightarrow> nat list option" where
  "fromBase64 v = (if b64_shaped v then atob v else None)"

subsection \<open>The url-safe form\<close>

definition url_char :: "char \<Rightarrow> char" where
  "url_char c = (if c = CHR ''+'' then CHR ''-'' else if c = CHR ''/'' then CHR ''_'' else c)"

definition plain_char :: "char \<Rightarrow> char" where
  "plain_char c = (if c = CHR ''-'' then CHR ''+'' else if c = CHR ''_'' then CHR ''/'' else c)"

definition base64url :: "nat list \<Rightarrow> string" where
  "base64url bs = map url_char (filter (\<lambda>c. c \<noteq> CHR ''='') (btoa bs))"

definition url_shaped :: "string \<Rightarrow> bool" where
  "url_shaped s \<longleftrightarrow> s \<noteq> [] \<and> list_all (\<lambda>c. is_lower c \<or> is_upper c \<or> is_digit c \<or> c = CHR ''_'' \<or> c = CHR ''-'') s"

definition fromBase64url :: "string \<Rightarrow> nat list option" where
  "fromBase64url v =
     (if \<not> url_shaped v then None
      else atob (map plain_char v @ replicate ((4 - length v mod 4) mod 4) (CHR ''='')))"

subsection \<open>Round trip\<close>

lemma starts_with_append: "starts_with p (p @ s)"
  by (induction p) auto

lemma starts_with_iff: "starts_with p s \<longleftrightarrow> (\<exists>t. s = p @ t)"
  by (induction p s rule: starts_with.induct) auto

lemma ends_with_iff: "ends_with p s \<longleftrightarrow> (\<exists>t. s = t @ p)"
proof -
  have "rev s = rev p @ t \<longleftrightarrow> s = rev t @ p" for t by (metis rev_append rev_rev_ident)
  then show ?thesis unfolding ends_with_def starts_with_iff by (metis rev_rev_ident)
qed

lemma strip_padding_replicate:
  assumes "CHR ''='' \<notin> set t" and "length t mod 4 \<noteq> 1"
  shows "strip_padding (t @ replicate ((4 - length t mod 4) mod 4) (CHR ''='')) = t"
proof -
  have m: "length t mod 4 = 0 \<or> length t mod 4 = 2 \<or> length t mod 4 = 3" using assms(2) by presburger
  have none: "\<not> ends_with (p @ [CHR ''='']) t" for p
    using assms(1) by (auto simp: ends_with_iff)
  have one: "\<not> ends_with ''=='' (t @ ''='')"
    using assms(1) by (auto simp: ends_with_iff)
  from m consider "length t mod 4 = 0" | "length t mod 4 = 2" | "length t mod 4 = 3" by auto
  then show ?thesis
  proof cases
    case 1
    with none [of "''=''"] none [of "[]"] show ?thesis by (simp add: strip_padding_def)
  next
    case 2
    then have "(length t + 2) mod 4 = 0" by presburger
    moreover have "ends_with ''=='' (t @ ''=='')" by (auto simp: ends_with_iff)
    ultimately show ?thesis using 2 by (simp add: strip_padding_def numeral_2_eq_2)
  next
    case 3
    then have "Suc (length t) mod 4 = 0" by presburger
    moreover have "ends_with ''='' (t @ ''='')" by (auto simp: ends_with_iff)
    ultimately show ?thesis using 3 one by (simp add: strip_padding_def)
  qed
qed

lemma those_map_Some: "(\<And>x. x \<in> set xs \<Longrightarrow> f x = Some (g x)) \<Longrightarrow> those (map f xs) = Some (map g xs)"
  by (induction xs) auto

lemma those_values: "(\<And>v. v \<in> set vs \<Longrightarrow> v < 64) \<Longrightarrow> those (map b64_value (map b64_char vs)) = Some vs"
  using those_map_Some [of vs "b64_value \<circ> b64_char" id] by (simp add: b64_value_char)

lemma url_roundtrip_char: "n < 64 \<Longrightarrow> plain_char (url_char (b64_char n)) = b64_char n"
  using b64_char_neq [of n] by (auto simp: plain_char_def url_char_def)

lemma url_char_shaped: "n < 64 \<Longrightarrow> list_all (\<lambda>c. is_lower c \<or> is_upper c \<or> is_digit c \<or> c = CHR ''_'' \<or> c = CHR ''-'') [url_char (b64_char n)]"
  by (auto simp: url_char_def b64_char_def is_lower_def is_upper_def is_digit_def less_eq_char_def char_of_eq_iff)

lemma not_space_b64: "n < 64 \<Longrightarrow> \<not> ascii_space (b64_char n)"
  by (auto simp: ascii_space_def b64_char_def)

lemma filter_btoa: "(\<And>b. b \<in> set bs \<Longrightarrow> b < 256) \<Longrightarrow> filter (\<lambda>c. c \<noteq> CHR ''='') (btoa bs) = map b64_char (sextets bs)"
proof -
  assume b: "\<And>b. b \<in> set bs \<Longrightarrow> b < 256"
  have "\<forall>v \<in> set (sextets bs). b64_char v \<noteq> CHR ''=''"
    using sextets_bound [OF b] b64_char_neq by blast
  then show ?thesis by (auto simp: btoa_def filter_id_conv)
qed

lemma atob_padded:
  assumes b: "\<And>b. b \<in> set bs \<Longrightarrow> b < 256"
  shows "atob (map b64_char (sextets bs) @ replicate ((4 - length (sextets bs) mod 4) mod 4) (CHR ''='')) = Some bs"
proof -
  note v = sextets_bound [OF b]
  let ?t = "map b64_char (sextets bs)"
  have space: "filter (\<lambda>c. \<not> ascii_space c) (?t @ replicate n (CHR ''='')) = ?t @ replicate n (CHR ''='')" for n
    using v not_space_b64 by (auto simp: filter_id_conv ascii_space_def)
  have "CHR ''='' \<notin> set ?t" using v b64_char_neq by fastforce
  from strip_padding_replicate [OF this] length_sextets [of bs]
  have "strip_padding (?t @ replicate ((4 - length (sextets bs) mod 4) mod 4) (CHR ''='')) = ?t" by simp
  moreover have "those (map b64_value ?t) = Some (sextets bs)" by (rule those_values) (rule v)
  ultimately show ?thesis
    using octets_sextets [OF b] length_sextets [of bs] unfolding atob_def space by (simp add: Let_def del: map_map)
qed

lemma fromBase64url_base64url:
  assumes "bs \<noteq> []" and b: "\<And>b. b \<in> set bs \<Longrightarrow> b < 256"
  shows "fromBase64url (base64url bs) = Some bs"
proof -
  note v = sextets_bound [OF b]
  have url: "base64url bs = map (\<lambda>n. url_char (b64_char n)) (sextets bs)"
    by (simp add: base64url_def filter_btoa b comp_def)
  have "sextets bs \<noteq> []" using assms(1) by (cases bs rule: sextets.cases) auto
  then have shape: "url_shaped (base64url bs)"
    using v url_char_shaped by (fastforce simp: url url_shaped_def list_all_iff)
  have plain: "map plain_char (base64url bs) = map b64_char (sextets bs)"
    using v url_roundtrip_char by (simp add: url)
  show ?thesis
    using atob_padded [OF b] by (simp add: fromBase64url_def shape plain) (simp add: url)
qed

lemma base64url_no_dot:
  assumes b: "\<And>b. b \<in> set bs \<Longrightarrow> b < 256"
  shows "CHR ''.'' \<notin> set (base64url bs)"
proof -
  have "url_char (b64_char n) \<noteq> CHR ''.''" if "n < 64" for n
    using url_char_shaped [OF that] by (auto simp: is_lower_def is_upper_def is_digit_def less_eq_char_def)
  with sextets_bound [OF b] show ?thesis by (fastforce simp: base64url_def filter_btoa b)
qed

end
