(* ===== verification/Sha256.thy ===== *)
theory Sha256
  imports Bytes Contracts_Base "HOL-Library.Word"
begin

text \<open>
  \<open>packages/contracts/src/sha256.mjs\<close>: SHA-256 over 32-bit words, as the loops over typed arrays
  compute it, and its equivalence with the definition of FIPS 180-4. A byte array is a list of
  numbers below 256; a store into it truncates as \<open>Uint8Array\<close> does.
\<close>

unbundle bit_operations_syntax

subsection \<open>Words and constants\<close>

type_synonym word32 = "32 word"

definition ROUND_CONSTANTS :: "word32 list" where
  \<comment> \<open>the table of the source, written in decimal\<close>
  "ROUND_CONSTANTS = [
    1116352408, 1899447441, 3049323471, 3921009573, 961987163, 1508970993, 2453635748, 2870763221,
    3624381080, 310598401, 607225278, 1426881987, 1925078388, 2162078206, 2614888103, 3248222580,
    3835390401, 4022224774, 264347078, 604807628, 770255983, 1249150122, 1555081692, 1996064986,
    2554220882, 2821834349, 2952996808, 3210313671, 3336571891, 3584528711, 113926993, 338241895,
    666307205, 773529912, 1294757372, 1396182291, 1695183700, 1986661051, 2177026350, 2456956037,
    2730485921, 2820302411, 3259730800, 3345764771, 3516065817, 3600352804, 4094571909, 275423344,
    430227734, 506948616, 659060556, 883997877, 958139571, 1322822218, 1537002063, 1747873779,
    1955562222, 2024104815, 2227730452, 2361852424, 2428436474, 2756734187, 3204031479, 3329325298]"

definition rotateRight :: "word32 \<Rightarrow> nat \<Rightarrow> word32" where
  "rotateRight v amount = drop_bit amount v OR push_bit (32 - amount) v"

subsection \<open>The padded message\<close>

definition paddedLength :: "nat \<Rightarrow> nat" where
  "paddedLength n = ((n + 9 + 63) div 64) * 64"

definition put_at :: "nat \<Rightarrow> nat list \<Rightarrow> nat list \<Rightarrow> nat list" where
  \<comment> \<open>\<open>buffer.set(xs, i)\<close>\<close>
  "put_at i xs buf = take i buf @ xs @ drop (i + length xs) buf"

definition be32 :: "word32 \<Rightarrow> nat list" where
  \<comment> \<open>the four bytes \<open>setUint32\<close> stores, most significant first\<close>
  "be32 w = map (\<lambda>s. unat (drop_bit s w) mod 256) [24, 16, 8, 0]"

definition getUint32 :: "nat list \<Rightarrow> nat \<Rightarrow> word32" where
  "getUint32 buf i = foldl (\<lambda>w b. 256 * w + of_nat b) 0 (map (\<lambda>j. buf ! (i + j)) [0, 1, 2, 3])"

definition padded_message :: "nat list \<Rightarrow> nat list" where
  "padded_message bytes =
     (let n = length bytes; size = paddedLength n; bitLength = 8 * n in
      put_at (size - 4) (be32 (of_nat bitLength))
        (put_at (size - 8) (be32 (of_nat (bitLength div 2 ^ 32)))
          (put_at n [0x80] (put_at 0 bytes (replicate size 0)))))"

subsection \<open>The compression of one block\<close>

definition load_words :: "nat list \<Rightarrow> nat \<Rightarrow> word32 list \<Rightarrow> word32 list" where
  "load_words buf offset ws = fold (\<lambda>index ws. ws[index := getUint32 buf (offset + index * 4)]) [0..<16] ws"

definition extend_step :: "nat \<Rightarrow> word32 list \<Rightarrow> word32 list" where
  "extend_step index ws =
     (let left = ws ! (index - 15); right = ws ! (index - 2);
          sigma0 = rotateRight left 7 XOR rotateRight left 18 XOR drop_bit 3 left;
          sigma1 = rotateRight right 17 XOR rotateRight right 19 XOR drop_bit 10 right in
      ws[index := ws ! (index - 16) + sigma0 + ws ! (index - 7) + sigma1])"

definition extend_words :: "word32 list \<Rightarrow> word32 list" where
  "extend_words ws = fold extend_step [16..<64] ws"

record registers =
  ra :: word32
  rb :: word32
  rc :: word32
  rd :: word32
  re :: word32
  rf :: word32
  rg :: word32
  rh :: word32

definition round_step :: "word32 list \<Rightarrow> nat \<Rightarrow> registers \<Rightarrow> registers" where
  "round_step ws index s =
     (let sum1 = rotateRight (re s) 6 XOR rotateRight (re s) 11 XOR rotateRight (re s) 25;
          choice = (re s AND rf s) XOR (NOT (re s) AND rg s);
          temporary1 = rh s + sum1 + choice + ROUND_CONSTANTS ! index + ws ! index;
          sum0 = rotateRight (ra s) 2 XOR rotateRight (ra s) 13 XOR rotateRight (ra s) 22;
          majority = (ra s AND rb s) XOR (ra s AND rc s) XOR (rb s AND rc s);
          temporary2 = sum0 + majority in
      \<lparr>ra = temporary1 + temporary2, rb = ra s, rc = rb s, rd = rc s,
       re = rd s + temporary1, rf = re s, rg = rf s, rh = rg s\<rparr>)"

definition add_registers :: "registers \<Rightarrow> registers \<Rightarrow> registers" where
  "add_registers s t =
     \<lparr>ra = ra s + ra t, rb = rb s + rb t, rc = rc s + rc t, rd = rd s + rd t,
      re = re s + re t, rf = rf s + rf t, rg = rg s + rg t, rh = rh s + rh t\<rparr>"

definition process_block :: "nat list \<Rightarrow> nat \<Rightarrow> registers \<times> word32 list \<Rightarrow> registers \<times> word32 list" where
  "process_block buf offset s =
     (case s of (hash, ws) \<Rightarrow>
       let ws' = extend_words (load_words buf offset ws) in
       (add_registers hash (fold (round_step ws') [0..<64] hash), ws'))"

definition initial_hash :: registers where
  "initial_hash = \<lparr>ra = 0x6a09e667, rb = 0xbb67ae85, rc = 0x3c6ef372, rd = 0xa54ff53a,
     re = 0x510e527f, rf = 0x9b05688c, rg = 0x1f83d9ab, rh = 0x5be0cd19\<rparr>"

definition register_list :: "registers \<Rightarrow> word32 list" where
  "register_list s = [ra s, rb s, rc s, rd s, re s, rf s, rg s, rh s]"

definition sha256_words :: "nat list \<Rightarrow> word32 list" where
  "sha256_words bytes =
     (let buf = padded_message bytes in
      register_list (fst (fold (\<lambda>i. process_block buf (64 * i)) [0..<paddedLength (length bytes) div 64]
        (initial_hash, replicate 64 0))))"

definition sha256Hex :: "nat list \<Rightarrow> string" where
  "sha256Hex bytes = concat (map (\<lambda>w. pad_start 8 (CHR ''0'') (radix_str 16 (unat w))) (sha256_words bytes))"

subsection \<open>FIPS 180-4\<close>

text \<open>The standard's definition: rotations of words, a recurrence for the schedule, no arrays.\<close>

definition fips_message :: "nat list \<Rightarrow> nat list" where
  "fips_message bytes =
     (let n = length bytes in
      bytes @ [0x80] @ replicate ((119 - n mod 64) mod 64) 0 @ map (\<lambda>s. (8 * n) div 2 ^ s mod 256) [56, 48, 40, 32, 24, 16, 8, 0])"

fun fips_schedule :: "(nat \<Rightarrow> word32) \<Rightarrow> nat \<Rightarrow> word32" where
  "fips_schedule m t =
     (if t < 16 then m t
      else let x = fips_schedule m (t - 15); y = fips_schedule m (t - 2) in
        (word_rotr 17 y XOR word_rotr 19 y XOR drop_bit 10 y) + fips_schedule m (t - 7)
          + (word_rotr 7 x XOR word_rotr 18 x XOR drop_bit 3 x) + fips_schedule m (t - 16))"

declare fips_schedule.simps [simp del]

definition fips_round :: "(nat \<Rightarrow> word32) \<Rightarrow> nat \<Rightarrow> registers \<Rightarrow> registers" where
  "fips_round w t s =
     (let t1 = rh s + (word_rotr 6 (re s) XOR word_rotr 11 (re s) XOR word_rotr 25 (re s))
            + ((re s AND rf s) XOR (NOT (re s) AND rg s)) + ROUND_CONSTANTS ! t + w t;
          t2 = (word_rotr 2 (ra s) XOR word_rotr 13 (ra s) XOR word_rotr 22 (ra s))
            + ((ra s AND rb s) XOR (ra s AND rc s) XOR (rb s AND rc s)) in
      \<lparr>ra = t1 + t2, rb = ra s, rc = rb s, rd = rc s, re = rd s + t1, rf = re s, rg = rf s, rh = rg s\<rparr>)"

definition fips_block :: "(nat \<Rightarrow> word32) \<Rightarrow> registers \<Rightarrow> registers" where
  "fips_block m h = add_registers h (fold (fips_round (fips_schedule m)) [0..<64] h)"

definition fips_sha256 :: "nat list \<Rightarrow> word32 list" where
  "fips_sha256 bytes =
     (let m = fips_message bytes in
      register_list (fold (\<lambda>i. fips_block (\<lambda>t. getUint32 m (64 * i + t * 4))) [0..<length m div 64] initial_hash))"

subsection \<open>The loops compute it\<close>

lemma rotateRight_rotr:
  assumes "0 < n" and "n < 32"
  shows "rotateRight v n = word_rotr n v"
proof (rule bit_word_eqI)
  fix i assume i: "i < LENGTH(32)"
  show "bit (rotateRight v n) i \<longleftrightarrow> bit (word_rotr n v) i"
  proof (cases "i + n < 32")
    case True
    then have "(i + n) mod 32 = i + n" "\<not> 32 - n \<le> i" by simp_all
    with True i assms show ?thesis
      by (simp add: rotateRight_def bit_or_iff bit_drop_bit_eq bit_push_bit_iff bit_word_rotr_iff add.commute)
  next
    case False
    then have "(i + n) mod 32 = i + n - 32" using i assms by (simp add: mod_if)
    moreover have "\<not> bit v (n + i)" using False bit_imp_le_length by fastforce
    moreover have "32 - n \<le> i" "i - (32 - n) = i + n - 32" using False assms by auto
    ultimately show ?thesis using i assms
      by (simp add: rotateRight_def bit_or_iff bit_drop_bit_eq bit_push_bit_iff bit_word_rotr_iff add.commute)
  qed
qed

lemma fold_store:
  "n \<le> length ws \<Longrightarrow> length (fold (\<lambda>i ws. ws[i := f i]) [0..<n] ws) = length ws
     \<and> (\<forall>j. fold (\<lambda>i ws. ws[i := f i]) [0..<n] ws ! j = (if j < n then f j else ws ! j))"
  by (induction n) (auto simp: nth_list_update less_Suc_eq)

lemma extend_words_schedule:
  assumes "length ws = 64" and "\<And>i. i < 16 \<Longrightarrow> ws ! i = m i" and "n \<le> 48"
  shows "length (fold extend_step [16..<16 + n] ws) = 64
     \<and> (\<forall>i < 16 + n. fold extend_step [16..<16 + n] ws ! i = fips_schedule m i)"
  using assms(3)
proof (induction n)
  case 0
  with assms show ?case by (simp add: fips_schedule.simps)
next
  case (Suc n)
  let ?ws = "fold extend_step [16..<16 + n] ws"
  have ih: "length ?ws = 64" "\<And>i. i < 16 + n \<Longrightarrow> ?ws ! i = fips_schedule m i" using Suc by auto
  have rec: "fips_schedule m (n + 16) =
      (let x = fips_schedule m (n + 1); y = fips_schedule m (n + 14) in
        (word_rotr 17 y XOR word_rotr 19 y XOR drop_bit 10 y) + fips_schedule m (n + 9)
          + (word_rotr 7 x XOR word_rotr 18 x XOR drop_bit 3 x) + fips_schedule m n)"
    by (subst fips_schedule.simps) (simp add: Let_def add_ac)
  have "[16..<16 + Suc n] = [16..<16 + n] @ [16 + n]" by (simp only: add_Suc_right upt_Suc_append le_add1)
  then have "fold extend_step [16..<16 + Suc n] ws = extend_step (16 + n) ?ws" by (simp only: fold_append fold_simps comp_def)
  also have "\<dots> = ?ws[16 + n := fips_schedule m (16 + n)]"
    using ih(2) [of "16 + n - 15"] ih(2) [of "16 + n - 2"] ih(2) [of "16 + n - 7"] ih(2) [of "16 + n - 16"]
    by (simp add: extend_step_def rotateRight_rotr rec Let_def add_ac)
  finally show ?case using ih Suc.prems by (auto simp: nth_list_update less_Suc_eq)
qed

lemma fold_round_cong:
  assumes "\<And>i. i < 64 \<Longrightarrow> ws ! i = w i"
  shows "fold (round_step ws) [0..<64] h = fold (fips_round w) [0..<64] h"
  using assms
  by (intro fold_cong refl ext) (simp add: round_step_def fips_round_def rotateRight_rotr Let_def)

lemma process_block_fips:
  assumes "length ws = 64"
  shows "length (snd (process_block buf offset (h, ws))) = 64"
    and "fst (process_block buf offset (h, ws)) = fips_block (\<lambda>t. getUint32 buf (offset + t * 4)) h"
proof -
  let ?m = "\<lambda>t. getUint32 buf (offset + t * 4)"
  have load: "length (load_words buf offset ws) = 64" "\<And>i. i < 16 \<Longrightarrow> load_words buf offset ws ! i = ?m i"
    using fold_store [of 16 ws ?m] assms by (auto simp: load_words_def)
  have "[16..<64] = [16..<16 + (48::nat)]" by simp
  then have ext: "length (extend_words (load_words buf offset ws)) = 64"
    "\<And>i. i < 64 \<Longrightarrow> extend_words (load_words buf offset ws) ! i = fips_schedule ?m i"
    using extend_words_schedule [OF load, of 48] by (auto simp: extend_words_def)
  show "length (snd (process_block buf offset (h, ws))) = 64"
    using ext(1) by (simp add: process_block_def Let_def)
  show "fst (process_block buf offset (h, ws)) = fips_block ?m h"
    using fold_round_cong [OF ext(2)] by (simp add: process_block_def fips_block_def Let_def)
qed

lemma process_blocks_fips:
  assumes "length (snd s) = 64"
  shows "length (snd (fold (\<lambda>i. process_block buf (64 * i)) ixs s)) = 64
    \<and> fst (fold (\<lambda>i. process_block buf (64 * i)) ixs s)
      = fold (\<lambda>i. fips_block (\<lambda>t. getUint32 buf (64 * i + t * 4))) ixs (fst s)"
  using assms
proof (induction ixs arbitrary: s)
  case (Cons i ixs)
  obtain h ws where s: "s = (h, ws)" by (cases s)
  with Cons process_block_fips [of ws buf "64 * i" h] show ?case by simp
qed simp

lemma put_at_over: "length old = length xs \<Longrightarrow> put_at (length pre) xs (pre @ old @ post) = pre @ xs @ post"
  by (simp add: put_at_def)

lemma byte_of_word:
  assumes "0 < m" and "m * c = 4294967296" and "256 dvd c"
  shows "(k mod 4294967296) div m mod 256 = k div m mod (256 :: nat)"
proof -
  have "(k mod (m * c)) div m = k div m mod c" using assms(1) by (simp add: mod_mult2_eq)
  then show ?thesis using assms(2,3) by (simp add: mod_mod_cancel)
qed

lemma padded_message_fips: "padded_message bytes = fips_message bytes" "length (fips_message bytes) = paddedLength (length bytes)"
proof -
  let ?n = "length bytes"
  define z where "z = (119 - ?n mod 64) mod 64"
  have size: "paddedLength ?n = ?n + 1 + z + 8"
  proof -
    define q r where "q = ?n div 64" and "r = ?n mod 64"
    have n: "?n = 64 * q + r" "r < 64" by (simp_all add: q_def r_def)
    have "(64 * q + r + 72) div 64 = q + (r + 72) div 64"
      using div_mult_self4 [of 64 q "r + 72"] by (simp only: add.assoc)
    moreover have "(r + 72) div 64 * 64 = r + 1 + (119 - r) mod 64 + 8"
    proof (cases "r < 56")
      case True
      then have e: "119 - r = 55 - r + 64" by simp
      have "(119 - r) mod 64 = 55 - r" unfolding e mod_add_self2 by (rule mod_less) simp
      moreover have "(r + 72) div 64 = 1" using True by (intro div_nat_eqI) simp_all
      ultimately show ?thesis using True by linarith
    next
      case False
      have "(r + 72) div 64 = 2" using False n(2) by (intro div_nat_eqI) simp_all
      moreover have "(119 - r) mod 64 = 119 - r" using False by (intro mod_less) linarith
      ultimately show ?thesis using False n(2) by linarith
    qed
    ultimately show ?thesis unfolding paddedLength_def z_def r_def [symmetric] using n(1) by (simp add: algebra_simps)
  qed
  have be: "be32 (of_nat k) = map (\<lambda>s. k div 2 ^ s mod 256) [24, 16, 8, 0]" for k
    using byte_of_word [of 16777216 256 k] byte_of_word [of 65536 65536 k] byte_of_word [of 256 16777216 k]
      byte_of_word [of 1 4294967296 k]
    by (simp add: be32_def unat_div_distrib unat_of_nat drop_bit_eq_div)
  show len: "length (fips_message bytes) = paddedLength ?n"
    by (simp add: fips_message_def Let_def size z_def)
  have "padded_message bytes = bytes @ [0x80] @ replicate z 0 @ be32 (of_nat (8 * ?n div 2 ^ 32)) @ be32 (of_nat (8 * ?n))"
  proof -
    have zeros: "replicate (?n + 1 + z + 8) 0 = replicate ?n (0::nat) @ [0] @ replicate z 0 @ replicate 4 0 @ replicate 4 0"
    proof -
      have "replicate (?n + (1 + (z + (4 + 4)))) (0::nat) = replicate ?n 0 @ replicate 1 0 @ replicate z 0 @ replicate 4 0 @ replicate 4 0"
        by (simp only: replicate_add)
      then show ?thesis by (simp add: add_ac)
    qed
    have be4: "length (be32 w) = 4" for w by (simp add: be32_def)
    have store: "put_at (?n + 1 + z + 8 - 4) u (put_at (?n + 1 + z + 8 - 8) v (put_at ?n [0x80] (put_at 0 bytes (replicate (?n + 1 + z + 8) 0))))
        = bytes @ [0x80] @ replicate z 0 @ v @ u" if "length u = 4" "length v = 4" for u v
      unfolding zeros
      using that put_at_over [where pre = "[]" and old = "replicate ?n 0" and xs = bytes and post = "[0] @ replicate z 0 @ replicate 4 0 @ replicate 4 0"]
        put_at_over [where pre = bytes and old = "[0]" and xs = "[0x80]" and post = "replicate z 0 @ replicate 4 0 @ replicate 4 0"]
        put_at_over [where pre = "bytes @ [0x80] @ replicate z 0" and old = "replicate 4 0" and xs = v and post = "replicate 4 0"]
        put_at_over [where pre = "bytes @ [0x80] @ replicate z 0 @ v" and old = "replicate 4 0" and xs = u and post = "[]"]
      by (simp add: add_ac)
    show ?thesis
      unfolding padded_message_def Let_def size using be4 store by simp
  qed
  also have "\<dots> = fips_message bytes"
    unfolding be fips_message_def Let_def z_def by (simp add: div_mult2_eq [symmetric])
  finally show "padded_message bytes = fips_message bytes" .
qed

lemma sha256_words_fips: "sha256_words bytes = fips_sha256 bytes"
  using process_blocks_fips [of "(initial_hash, replicate 64 0)" "fips_message bytes"]
  by (simp add: sha256_words_def fips_sha256_def Let_def padded_message_fips)

subsection \<open>The printed digest\<close>

lemma hex_digit_lower: "d < 16 \<Longrightarrow> is_lower_hex (hex_digit d)"
  by (simp add: is_lower_hex_def is_digit_def hex_digit_def less_eq_char_def)

lemma radix_str_16: "n < 16 ^ Suc k \<Longrightarrow> list_all is_lower_hex (radix_str 16 n) \<and> length (radix_str 16 n) \<le> Suc k"
proof (induction k arbitrary: n)
  case 0
  then show ?case by (subst radix_str.simps, subst (2) radix_str.simps) (simp add: hex_digit_lower)
next
  case (Suc k)
  show ?case
  proof (cases "n < 16")
    case True
    then show ?thesis by (subst radix_str.simps, subst (2) radix_str.simps) (simp add: hex_digit_lower)
  next
    case False
    from Suc.prems have "n div 16 < 16 ^ Suc k" by (simp add: div_less_iff_less_mult)
    with Suc.IH False show ?thesis
      by (subst radix_str.simps, subst (2) radix_str.simps) (simp add: hex_digit_lower)
  qed
qed

lemma padded_word_hex: "lower_hex 8 (pad_start 8 (CHR ''0'') (radix_str 16 (unat (w :: word32))))"
proof -
  have "unat w < 16 ^ Suc 7" using unsigned_less [of w] by simp
  from radix_str_16 [OF this] show ?thesis
    by (auto simp: lower_hex_def pad_start_def is_lower_hex_def is_digit_def list_all_iff)
qed

lemma lower_hex_append: "lower_hex m s \<Longrightarrow> lower_hex n t \<Longrightarrow> lower_hex (m + n) (s @ t)"
  by (simp add: lower_hex_def)

lemma lower_hex_concat: "list_all (lower_hex n) xs \<Longrightarrow> lower_hex (n * length xs) (concat xs)"
  by (induction xs) (auto simp: lower_hex_def)

lemma sha256Hex_digest: "lower_hex 64 (sha256Hex bytes)"
proof -
  have "length (sha256_words bytes) = 8" by (simp add: sha256_words_def register_list_def Let_def)
  moreover have "list_all (lower_hex 8) (map (\<lambda>w. pad_start 8 (CHR ''0'') (radix_str 16 (unat w))) (sha256_words bytes))"
    by (simp add: list_all_iff padded_word_hex)
  ultimately show ?thesis using lower_hex_concat [of 8] by (fastforce simp: sha256Hex_def)
qed

text \<open>
  C17 \<open>sha256Hex\<close> is SHA-256: the padded typed array is the message the standard pads, the loops
  over the reused 64-word array and the shifted registers compute the standard's recurrence and
  rounds, and the digest is printed as 64 lower-case hexadecimal digits.
\<close>

theorem sha256Hex_is_fips:
  "padded_message bytes = fips_message bytes \<and> 64 dvd length (padded_message bytes)
   \<and> sha256_words bytes = fips_sha256 bytes
   \<and> sha256Hex bytes = concat (map (\<lambda>w. pad_start 8 (CHR ''0'') (radix_str 16 (unat w))) (fips_sha256 bytes))
   \<and> lower_hex 64 (sha256Hex bytes)"
  using padded_message_fips sha256_words_fips sha256Hex_digest
  by (simp add: paddedLength_def sha256Hex_def)

end
