(* ===== verification/Fastest_Evidence.thy ===== *)
theory Fastest_Evidence
  imports Stable_Json Bytes Sha256 "HOL-Library.Multiset"
begin

text \<open>
  \<open>packages/explorer-state/src/fastest-evidence.mjs\<close>: the published comparison of the two Datahike
  storages, sealed by its own digest, and the decision that is computed from its measurements.

  Measurements are compared as numbers. What the engine decides is the parameter \<open>js\<close>: rounding
  to a double (the one quotient the code computes is rounded twice), the number a value that is no
  number is converted to by an operator (\<open>None\<close> for \<open>NaN\<close>), and what \<open>sort\<close> makes of results its
  comparator does not order consistently (a missing measurement is \<open>NaN\<close>), which the language
  leaves to the implementation. \<open>collate\<close> is the collation key by which \<open>localeCompare\<close> orders two texts.
\<close>

definition EXPECTED_PROFILES :: "string list" where
  "EXPECTED_PROFILES = [''datahike-s3'', ''datahike-dynamodb'']"

definition EXPECTED_OPERATION_WEIGHTS :: jsval where
  "EXPECTED_OPERATION_WEIGHTS = JObj [(''checkPermission'', JInt 40), (''bootstrap'', JInt 5), (''countObjects'', JInt 10), (''getObject'', JInt 10),
     (''getSchema'', JInt 5), (''listRelationships'', JInt 15), (''listSubjects'', JInt 5), (''reverseRelationships'', JInt 10)]"

definition COMMON_BINDING_FIELDS :: "string list" where
  "COMMON_BINDING_FIELDS = [''demoSha'', ''eaclSha'', ''serviceCodeDigest'', ''dataManifestDigest'', ''contractVersion'', ''region'', ''runtime'',
     ''architecture'', ''memoryMb'', ''snapStart'', ''timeoutSeconds'', ''ephemeralStorageMiB'', ''workloadDigest'', ''cacheLanesDigest'']"

subsection \<open>The canonical text\<close>

fun ambiguous :: "jsval \<Rightarrow> bool" where
  "ambiguous (JNum s) = (s \<in> {''NaN'', ''Infinity'', ''-Infinity'', ''-0''})"
| "ambiguous (JArr vs) = list_ex ambiguous vs"
| "ambiguous (JObj kvs) = list_ex (\<lambda>(k, v). ambiguous v) kvs"
| "ambiguous v = False"

definition evidence_json :: "jsval \<Rightarrow> js_error + string" where
  "evidence_json v = throw_if (ambiguous v) Type_Error (Inr (stable_json v))"

definition json_differs :: "jsval \<Rightarrow> jsval \<Rightarrow> js_error + bool" where
  "json_differs v w = bind_r (evidence_json v) (\<lambda>s. bind_r (evidence_json w) (\<lambda>t. Inr (s \<noteq> t)))"

definition strings :: "string list \<Rightarrow> jsval" where
  "strings xs = JArr (map JStr xs)"

definition sha256_text :: "string \<Rightarrow> string" where
  "sha256_text s = ''sha256:'' @ sha256Hex (utf8 s)"

definition computeEvidenceId :: "jsval \<Rightarrow> js_error + string" where
  "computeEvidenceId evidence =
     bind_r (evidence_json (JObj (filter (\<lambda>(k, _). k \<noteq> ''evidenceId'') (props evidence)))) (\<lambda>t. Inr (sha256_text (t @ [CHR 0x0A])))"

definition sealFastestEvidence :: "jsval \<Rightarrow> js_error + jsval" where
  "sealFastestEvidence v =
     (let evidence = spread [v, JObj [(''evidenceId'', JNull)]] in
      bind_r (computeEvidenceId evidence) (\<lambda>i. Inr (spread [evidence, JObj [(''evidenceId'', JStr i)]])))"

definition evidence_date :: "(string \<Rightarrow> int option) \<Rightarrow> jsval \<Rightarrow> string \<Rightarrow> js_error + int" where
  "evidence_date engine v name =
     bind_r (date_r engine v) (\<lambda>t. case t of None \<Rightarrow> Inl (Error (name @ '' is invalid'')) | Some n \<Rightarrow> Inr n)"

text \<open>\<open>now\<close> is the time of the clock, \<open>None\<close> for an invalid date.\<close>

definition isEvidenceCurrent :: "(string \<Rightarrow> int option) \<Rightarrow> jsval \<Rightarrow> int option \<Rightarrow> bool" where
  "isEvidenceCurrent engine evidence now = (case (now, dateParse engine (prop_of evidence ''measuredAt''), dateParse engine (prop_of evidence ''expiresAt'')) of
     (Some n, Some a, Some b) \<Rightarrow> a \<le> n \<and> n \<le> b | _ \<Rightarrow> False)"

subsection \<open>The decision\<close>

definition evidence_decision :: "string \<Rightarrow> jsval \<Rightarrow> string \<Rightarrow> jsval \<Rightarrow> jsval" where
  "evidence_decision outcome i selection effect = JObj [(''outcome'', JStr outcome), (''defaultProfileId'', i), (''selectionBasis'', JStr selection),
     (''primaryMetric'', JStr ''operation-weighted-warm-cache-disabled-service-p95-ms''), (''minimumEffectFraction'', effect),
     (''tieBreakOrder'', strings [''cold-or-restore-p95-ms'', ''projected-monthly-usd''])]"

record js_engine =
  rounded :: "rat \<Rightarrow> rat"
  coerced :: "jsval \<Rightarrow> rat option"
  unordered :: "string \<Rightarrow> jsval list \<Rightarrow> js_error + jsval list"

definition spread_list :: "jsval \<Rightarrow> js_error + jsval list" where
  \<comment> \<open>\<open>[...v]\<close>\<close>
  "spread_list v = (case v of JArr vs \<Rightarrow> Inr vs | JStr t \<Rightarrow> Inr (map (\<lambda>c. JStr [c]) t) | _ \<Rightarrow> Inl Type_Error)"

definition index_r :: "jsval \<Rightarrow> nat \<Rightarrow> js_error + jsval" where
  \<comment> \<open>\<open>v[i]\<close>, which throws for undefined and null\<close>
  "index_r v i = throw_if (nullish v) Type_Error (Inr (case v of
     JArr vs \<Rightarrow> if i < length vs then vs ! i else JUndef
   | JStr t \<Rightarrow> if i < length t then JStr [t ! i] else JUndef
   | _ \<Rightarrow> prop_of v (int_str (int i))))"

definition number_of :: "js_engine \<Rightarrow> jsval \<Rightarrow> rat option" where
  "number_of js v = (case v of JInt i \<Rightarrow> num_of v | JNum t \<Rightarrow> num_of v | _ \<Rightarrow> coerced js v)"

definition less_than :: "js_engine \<Rightarrow> jsval \<Rightarrow> jsval \<Rightarrow> bool" where
  \<comment> \<open>\<open>v < w\<close>\<close>
  "less_than js v w = (case (v, w) of (JStr a, JStr b) \<Rightarrow> a < b
   | _ \<Rightarrow> (case (number_of js v, number_of js w) of (Some a, Some b) \<Rightarrow> a < b | _ \<Rightarrow> False))"

definition ordered :: "string \<Rightarrow> jsval \<Rightarrow> bool" where
  "ordered m r \<longleftrightarrow> num_of (prop_of r m) \<noteq> None \<and> is_string (prop_of r ''profileId'')"

definition by_metric :: "js_engine \<Rightarrow> (string \<Rightarrow> string) \<Rightarrow> string \<Rightarrow> jsval list \<Rightarrow> js_error + jsval list" where
  \<comment> \<open>\<open>sort((l, r) => l.m - r.m || l.profileId.localeCompare(r.profileId))\<close>\<close>
  "by_metric js collate m rs =
     (if length rs \<le> 1 \<or> list_all (ordered m) rs
      then Inr (sort_key (\<lambda>r. num_val (prop_of r m)) (sort_key (\<lambda>r. collate (the_text (prop_of r ''profileId''))) rs))
      else unordered js m rs)"

definition gain :: "(rat \<Rightarrow> rat) \<Rightarrow> rat \<Rightarrow> rat \<Rightarrow> rat" where
  "gain rnd r b = rnd (rnd (rnd r - rnd b) / rnd r)"

definition improvement :: "js_engine \<Rightarrow> jsval \<Rightarrow> jsval \<Rightarrow> js_error + (rat \<Rightarrow> bool)" where
  \<comment> \<open>the effects the improvement reaches: none for NaN, all for the infinity of a division by zero\<close>
  "improvement js best runner =
     bind_r (get_r runner ''warmWeightedP95Ms'') (\<lambda>r.
     if num_of r = Some 0 then Inr (\<lambda>e. e \<le> 0)
     else bind_r (get_r best ''warmWeightedP95Ms'') (\<lambda>b.
       Inr (\<lambda>e. case (number_of js r, number_of js b) of
              (Some q, Some p) \<Rightarrow> if q = 0 then p < 0 else e \<le> gain (rounded js) q p
            | _ \<Rightarrow> False)))"

definition primary_win :: "js_engine \<Rightarrow> jsval \<Rightarrow> jsval \<Rightarrow> jsval \<Rightarrow> js_error + bool" where
  "primary_win js effect best runner =
     bind_r (improvement js best runner) (\<lambda>reached.
     if (case number_of js effect of Some e \<Rightarrow> reached (rounded js e) | None \<Rightarrow> False)
     then bind_r (index_r (prop_of best ''warmP95Ci95Ms'') 1) (\<lambda>above.
          bind_r (index_r (prop_of runner ''warmP95Ci95Ms'') 0) (\<lambda>below. Inr (less_than js above below)))
     else Inr False)"

fun every_r :: "('a \<Rightarrow> 'e + bool) \<Rightarrow> 'a list \<Rightarrow> 'e + bool" where
  "every_r P [] = Inr True"
| "every_r P (x # xs) = bind_r (P x) (\<lambda>b. if b then every_r P xs else Inr False)"

definition strictly_first :: "js_engine \<Rightarrow> string \<Rightarrow> jsval list \<Rightarrow> js_error + bool" where
  "strictly_first js m rs = (case rs of
     a # b # _ \<Rightarrow> bind_r (get_r a m) (\<lambda>x. bind_r (get_r b m) (\<lambda>y. Inr (less_than js x y)))
   | _ \<Rightarrow> Inl Type_Error)"

definition tie_break_r :: "js_engine \<Rightarrow> (string \<Rightarrow> string) \<Rightarrow> string \<Rightarrow> jsval list \<Rightarrow> js_error + jsval option" where
  "tie_break_r js collate m results =
     bind_r (by_metric js collate m results) (\<lambda>rs. bind_r (strictly_first js m rs) (\<lambda>b. Inr (if b then Some (prop_of (hd rs) ''profileId'') else None)))"

definition computeEvidenceDecision :: "js_engine \<Rightarrow> (string \<Rightarrow> string) \<Rightarrow> jsval \<Rightarrow> js_error + jsval" where
  "computeEvidenceDecision js collate evidence =
     bind_r (get_r evidence ''results'') (\<lambda>listed. bind_r (spread_list listed) (\<lambda>rs.
     bind_r (by_metric js collate ''warmWeightedP95Ms'' rs) (\<lambda>results.
     bind_r (get_r (prop_of evidence ''decision'') ''minimumEffectFraction'') (\<lambda>effect.
      case results of
        [] \<Rightarrow> Inl Type_Error
      | best # runners \<Rightarrow>
          bind_r (every_r (primary_win js effect best) runners) (\<lambda>wins.
          if wins then bind_r (get_r best ''profileId'') (\<lambda>i. Inr (evidence_decision ''winner'' i ''warm-cache-disabled-p95'' effect))
          else bind_r (tie_break_r js collate ''coldOrRestoreP95Ms'' results) (\<lambda>cold. case cold of
            Some i \<Rightarrow> Inr (evidence_decision ''benchmark-tiebreak'' i ''cold-or-restore-p95'' effect)
          | None \<Rightarrow> bind_r (tie_break_r js collate ''projectedMonthlyUsd'' results) (\<lambda>cost. case cost of
              Some i \<Rightarrow> Inr (evidence_decision ''benchmark-tiebreak'' i ''projected-monthly-cost'' effect)
            | None \<Rightarrow> Inr (evidence_decision ''unresolved'' JNull ''none'' effect))))))))"

subsection \<open>Validation\<close>

definition validateFixture :: "jsval \<Rightarrow> js_error + unit" where
  "validateFixture v = guards ([
     exactKeys v [''id'', ''manifestDigest'', ''fixtureDigest'', ''schemaDigest'', ''logicalResourceCount''] ''fixture'',
     reject_if [differs (prop_of v ''id'') (JStr ''eacl-demo-fixture-v1'')] ''fixture ID is not canonical'']
     @ map (\<lambda>f. reject_if [mismatch sha256_ref (prop_of v f)] (''fixture '' @ f @ '' is required'')) [''manifestDigest'', ''fixtureDigest'', ''schemaDigest'']
     @ [reject_if [differs (prop_of v ''logicalResourceCount'') (JInt 1000000)] ''comparable storage evidence requires the million-resource cut point''])"

definition validateWorkload :: "jsval \<Rightarrow> js_error + unit" where
  "validateWorkload v =
     (let p = prop_of v; weights = p ''operationWeights'' in
      guards [
        exactKeys v [''id'', ''digest'', ''requestsPerWave'', ''operationWeights'', ''cacheLanesDigest''] ''workload'',
        reject_if [mismatch sha256_ref (p ''digest''), mismatch sha256_ref (p ''cacheLanesDigest'')] ''workload digests are required'',
        reject_if [differs (p ''id'') (JStr ''datahike-storage-million-v1''), json_differs weights EXPECTED_OPERATION_WEIGHTS]
          ''workload identity or operation weights are invalid'',
        reject_if [differs (p ''requestsPerWave'') (JInt 100)] ''workload must contain 100 requests per wave'',
        reject_if [Inr (sum_list (map (the_int \<circ> snd) (props weights)) \<noteq> 100)] ''operation weights must sum to 100''])"

definition validateEnvironment :: "jsval \<Rightarrow> js_error + unit" where
  "validateEnvironment v =
     (let p = prop_of v in
      guards ([
        exactKeys v [''region'', ''runtime'', ''architecture'', ''memoryMb'', ''snapStart'', ''timeoutSeconds'', ''ephemeralStorageMiB'', ''productionPath'']
          ''environment'',
        reject_if [differs (p ''region'') (JStr ''us-east-1''), differs (p ''runtime'') (JStr ''java25''), differs (p ''architecture'') (JStr ''arm64''),
            Inr (\<not> member_of [''None'', ''PublishedVersions''] (p ''snapStart'')), differs (p ''productionPath'') (JStr ''function-url-v2'')]
          ''environment does not match the accepted Datahike benchmark runtime'']
      @ map (\<lambda>f. reject_if [Inr (\<not> safe_int_between 1 MAX_SAFE_INTEGER (p f))] (''environment '' @ f @ '' is invalid''))
          [''memoryMb'', ''timeoutSeconds'', ''ephemeralStorageMiB'']))"

definition validateRepetitions :: "jsval \<Rightarrow> js_error + unit" where
  "validateRepetitions v =
     (let p = prop_of v in
      guards [
        exactKeys v [''coldOrRestore'', ''warmWavesPerLane'', ''concurrency'', ''bootstrapResamples''] ''repetitions'',
        reject_if [Inr (\<not> safe_int_between 30 MAX_SAFE_INTEGER (p ''coldOrRestore'')), Inr (\<not> safe_int_between 30 MAX_SAFE_INTEGER (p ''warmWavesPerLane'')),
            differs (p ''bootstrapResamples'') (JInt 10000)] ''insufficient repetitions'',
        bind_r (evidence_json (p ''concurrency'')) (\<lambda>t. throw_if (t \<noteq> ''[1,8]'') (Error ''benchmark concurrency must be exactly 1 and 8'') (Inr ()))])"

definition CANDIDATE_KEYS :: "string list" where
  "CANDIDATE_KEYS = [''profileId'', ''storage'', ''demoSha'', ''eaclSha'', ''artifactDigest'', ''deploymentId'', ''serviceCodeDigest'', ''dataLifecycleId'',
     ''dataManifestDigest'', ''qualificationEvidenceId'', ''qualificationExpiresAt'', ''qualificationPassing'', ''contractVersion'', ''region'', ''runtime'',
     ''architecture'', ''memoryMb'', ''snapStart'', ''timeoutSeconds'', ''ephemeralStorageMiB'', ''workloadDigest'', ''cacheLanesDigest'']"

definition bounded_text :: "nat \<Rightarrow> jsval \<Rightarrow> bool" where
  "bounded_text n v = str_satisfies (\<lambda>s. 1 \<le> length s \<and> length s \<le> n) v"

definition validateCandidate :: "(string \<Rightarrow> int option) \<Rightarrow> jsval \<Rightarrow> int \<Rightarrow> int \<Rightarrow> jsval option \<Rightarrow> jsval \<Rightarrow> js_error + unit" where
  \<comment> \<open>the reference is the first candidate, \<open>None\<close> for the first itself\<close>
  "validateCandidate engine evidence measuredAt expiresAt reference candidate =
     (let c = prop_of candidate; fixture = prop_of (prop_of evidence ''fixture''); workload = prop_of (prop_of evidence ''workload'') in
      bind_r (get_r candidate ''profileId'') (\<lambda>i. bind_r (text_r i) (\<lambda>name.
      bind_r (guards ([
        exactKeys candidate CANDIDATE_KEYS (''candidate '' @ name),
        reject_if [mismatch (lower_hex 40) (c ''demoSha''), mismatch (lower_hex 40) (c ''eaclSha'')] ''candidate sources must be exact SHAs'',
        reject_if [Inr (\<not> bounded_text 256 (c ''deploymentId''))] ''candidate deployment ID is invalid'',
        reject_if [Inr (if i = JStr ''datahike-s3'' then c ''storage'' \<noteq> JStr ''s3'' else if i = JStr ''datahike-dynamodb'' then c ''storage'' \<noteq> JStr ''dynamodb'' else True)]
          ''candidate profile/storage mapping is invalid'',
        reject_if [Inr (\<not> bounded_text 256 (c ''dataLifecycleId'')), differs (c ''contractVersion'') (JStr ''explorer.v1'')]
          ''candidate lifecycle or contract identity is invalid'']
      @ map (\<lambda>f. reject_if [mismatch sha256_ref (c f)] (''candidate '' @ name @ '' has invalid '' @ f))
          [''artifactDigest'', ''serviceCodeDigest'', ''dataManifestDigest'', ''qualificationEvidenceId'', ''workloadDigest'', ''cacheLanesDigest'']
      @ [reject_if [differs (c ''qualificationPassing'') (JBool True)] (''candidate '' @ name @ '' qualification is not passing'')])) (\<lambda>_.
      bind_r (evidence_date engine (c ''qualificationExpiresAt'') ''qualification expiry'') (\<lambda>expiry.
      guards ([
        reject_if [Inr (expiry \<le> measuredAt), Inr (expiry < expiresAt)] (''candidate '' @ name @ '' qualification does not cover evidence lifetime''),
        reject_if [differs (c ''dataManifestDigest'') (fixture ''manifestDigest''), differs (c ''workloadDigest'') (workload ''digest''),
            differs (c ''cacheLanesDigest'') (workload ''cacheLanesDigest'')] ''candidate fixture or workload binding is incomparable'']
      @ map (\<lambda>f. reject_if [differs (c f) (prop_of (prop_of evidence ''environment'') f)] (''candidate environment differs at '' @ f))
          [''region'', ''runtime'', ''architecture'', ''memoryMb'', ''snapStart'', ''timeoutSeconds'', ''ephemeralStorageMiB'']
      @ (case reference of None \<Rightarrow> []
         | Some r \<Rightarrow> map (\<lambda>f. reject_if [differs (c f) (prop_of r f)] (''candidate configurations are incomparable at '' @ f)) COMMON_BINDING_FIELDS)))))))"

definition validateCandidates :: "(string \<Rightarrow> int option) \<Rightarrow> jsval \<Rightarrow> int \<Rightarrow> int \<Rightarrow> js_error + jsval list" where
  "validateCandidates engine evidence measuredAt expiresAt =
     (let cs = prop_of evidence ''candidates'' in
      throw_if (\<not> (case cs of JArr _ \<Rightarrow> True | _ \<Rightarrow> False)) (Error ''candidate bindings are required'')
      (bind_r (guards (map (\<lambda>(first, c). validateCandidate engine evidence measuredAt expiresAt (if first then None else Some (hd (items cs))) c)
          (zip (True # replicate (length (items cs)) False) (items cs)))) (\<lambda>_.
       Inr (map (\<lambda>c. prop_of c ''profileId'') (items cs)))))"

definition nonnegative :: "jsval \<Rightarrow> bool" where
  "nonnegative v \<longleftrightarrow> (case num_of v of None \<Rightarrow> False | Some q \<Rightarrow> 0 \<le> q)"

definition interval :: "jsval \<Rightarrow> bool" where
  "interval v \<longleftrightarrow> (case v of JArr [a, b] \<Rightarrow> nonnegative a \<and> nonnegative b \<and> num_val a \<le> num_val b | _ \<Rightarrow> False)"

definition validateResult :: "jsval \<Rightarrow> js_error + unit" where
  "validateResult result =
     bind_r (get_r result ''profileId'') (\<lambda>i. bind_r (text_r i) (\<lambda>name.
     let r = prop_of result in
     guards ([exactKeys result [''profileId'', ''warmWeightedP95Ms'', ''coldOrRestoreP95Ms'', ''warmP95Ci95Ms'', ''coldP95Ci95Ms'', ''errorRate'',
        ''projectedMonthlyUsd'', ''warmSamples'', ''coldSamples''] (''result '' @ name)]
     @ map (\<lambda>f. reject_if [Inr (\<not> nonnegative (r f))] (''result '' @ name @ '' has invalid '' @ f)) [''warmWeightedP95Ms'', ''coldOrRestoreP95Ms'', ''projectedMonthlyUsd'']
     @ map (\<lambda>f. reject_if [Inr (\<not> interval (r f))] (''result '' @ name @ '' has invalid '' @ f)) [''warmP95Ci95Ms'', ''coldP95Ci95Ms'']
     @ [reject_if [differs (r ''errorRate'') (JInt 0)] (''result '' @ name @ '' has correctness or availability errors''),
        reject_if [Inr (\<not> safe_int_between 6000 MAX_SAFE_INTEGER (r ''warmSamples'')), Inr (\<not> safe_int_between 30 MAX_SAFE_INTEGER (r ''coldSamples''))]
          (''result '' @ name @ '' has insufficient samples'')])))"

definition validateResults :: "jsval \<Rightarrow> js_error + jsval list" where
  "validateResults rs =
     throw_if (\<not> (case rs of JArr _ \<Rightarrow> True | _ \<Rightarrow> False)) (Error ''benchmark results are required'')
     (bind_r (guards (map validateResult (items rs))) (\<lambda>_. Inr (map (\<lambda>r. prop_of r ''profileId'') (items rs))))"

definition validateDecision :: "jsval \<Rightarrow> js_error + unit" where
  "validateDecision v =
     (let p = prop_of v in
      guards [
        exactKeys v [''outcome'', ''defaultProfileId'', ''selectionBasis'', ''primaryMetric'', ''minimumEffectFraction'', ''tieBreakOrder''] ''decision'',
        reject_if [Inr (\<not> member_of [''winner'', ''benchmark-tiebreak'', ''unresolved''] (p ''outcome'')),
            Inr (p ''defaultProfileId'' \<noteq> JNull \<and> \<not> member_of EXPECTED_PROFILES (p ''defaultProfileId'')),
            Inr (\<not> member_of [''warm-cache-disabled-p95'', ''cold-or-restore-p95'', ''projected-monthly-cost'', ''none''] (p ''selectionBasis'')),
            differs (p ''primaryMetric'') (JStr ''operation-weighted-warm-cache-disabled-service-p95-ms''),
            differs (p ''minimumEffectFraction'') (JNum ''0.05''),
            json_differs (p ''tieBreakOrder'') (strings [''cold-or-restore-p95-ms'', ''projected-monthly-usd''])] ''benchmark decision rule is invalid''])"

definition sets_differ :: "jsval list \<Rightarrow> jsval list \<Rightarrow> js_error + bool" where
  \<comment> \<open>\<open>!sameSet(left, right)\<close>; ids print, as their validation has printed them\<close>
  "sets_differ l r = json_differs (JArr (sort_key the_text l)) (JArr (sort_key the_text r))"

definition validateFastestEvidence :: "(string \<Rightarrow> int option) \<Rightarrow> js_engine \<Rightarrow> (string \<Rightarrow> string) \<Rightarrow> jsval \<Rightarrow> js_error + jsval" where
  "validateFastestEvidence engine js collate evidence =
     (let p = prop_of evidence; ids = items (p ''profiles'') in
      bind_r (guards [
        exactKeys evidence [''schema'', ''evidenceId'', ''methodVersion'', ''backend'', ''profiles'', ''fixture'', ''workload'', ''environment'',
          ''repetitions'', ''measuredAt'', ''expiresAt'', ''candidates'', ''results'', ''decision''] ''evidence'',
        reject_if [differs (p ''schema'') (JStr ''eacl-demo.fastest-storage-evidence.v1'')] ''unsupported evidence schema'',
        reject_if [differs (p ''methodVersion'') (JStr ''datahike-storage-million.v1''), differs (p ''backend'') (JStr ''datahike''),
            json_differs (p ''profiles'') (strings EXPECTED_PROFILES)] ''unsupported fastest-storage comparison scope'',
        bind_r (computeEvidenceId evidence) (\<lambda>i. reject_if [differs (p ''evidenceId'') (JStr i)] ''evidence ID does not match canonical content''),
        reject_if [Inr (length ids < 2), Inr (\<not> distinct ids)] ''at least two distinct profiles are required'',
        reject_if [Inr (list_ex (\<lambda>i. \<not> starts_with (the_text (p ''backend'') @ ''-'') (the_str i)) ids)] ''every candidate must use the evidence backend'',
        validateFixture (p ''fixture''), validateWorkload (p ''workload''), validateEnvironment (p ''environment''), validateRepetitions (p ''repetitions'')]) (\<lambda>_.
      bind_r (evidence_date engine (p ''measuredAt'') ''measurement date'') (\<lambda>measuredAt.
      bind_r (evidence_date engine (p ''expiresAt'') ''evidence expiry'') (\<lambda>expiresAt.
      throw_if (expiresAt \<le> measuredAt \<or> 31 * 24 * 60 * 60 * 1000 < expiresAt - measuredAt)
        (Error ''evidence expiry must follow measurement by no more than 31 days'')
      (bind_r (validateCandidates engine evidence measuredAt expiresAt) (\<lambda>candidateIds.
      bind_r (validateResults (p ''results'')) (\<lambda>resultIds.
      bind_r (reject_if [sets_differ candidateIds ids, sets_differ resultIds ids] ''candidate bindings and results must exactly match profiles'') (\<lambda>_.
      bind_r (validateDecision (p ''decision'')) (\<lambda>_.
      bind_r (computeEvidenceDecision js collate evidence) (\<lambda>computed.
      bind_r (reject_if [json_differs computed (p ''decision'')] ''published fastest decision does not match measurements and method'') (\<lambda>_.
      Inr evidence)))))))))))"

subsection \<open>What a decision shows\<close>

text \<open>
  A result with every measurement the decision reads: what the validator admits. \<open>champion\<close> looks for
  a result that stands in relation \<open>R\<close> to each of the others, without sorting anything.
\<close>

definition metric :: "string \<Rightarrow> jsval \<Rightarrow> rat" where
  "metric m r = num_val (prop_of r m)"

definition measurements :: "jsval \<Rightarrow> bool" where
  "measurements r \<longleftrightarrow> list_all (\<lambda>m. num_of (prop_of r m) \<noteq> None) [''warmWeightedP95Ms'', ''coldOrRestoreP95Ms'', ''projectedMonthlyUsd'']
     \<and> (case prop_of r ''warmP95Ci95Ms'' of JArr [a, b] \<Rightarrow> num_of a \<noteq> None \<and> num_of b \<noteq> None | _ \<Rightarrow> False)"

definition measured :: "jsval \<Rightarrow> bool" where
  "measured r \<longleftrightarrow> measurements r \<and> is_string (prop_of r ''profileId'')"

definition bound :: "nat \<Rightarrow> jsval \<Rightarrow> rat" where
  "bound i r = num_val (items (prop_of r ''warmP95Ci95Ms'') ! i)"

definition champion :: "(jsval \<Rightarrow> jsval \<Rightarrow> bool) \<Rightarrow> jsval list \<Rightarrow> jsval option" where
  "champion R rs = map_option (\<lambda>k. rs ! k) (find (\<lambda>k. list_all (\<lambda>j. j = k \<or> R (rs ! k) (rs ! j)) [0..<length rs]) [0..<length rs])"

definition faster_by :: "(rat \<Rightarrow> rat) \<Rightarrow> rat \<Rightarrow> jsval \<Rightarrow> jsval \<Rightarrow> bool" where
  \<comment> \<open>faster by the fraction, with a confidence interval wholly below the other's\<close>
  "faster_by rnd effect a b \<longleftrightarrow> metric ''warmWeightedP95Ms'' a < metric ''warmWeightedP95Ms'' b \<and> metric ''warmWeightedP95Ms'' b \<noteq> 0
     \<and> rnd effect \<le> gain rnd (metric ''warmWeightedP95Ms'' b) (metric ''warmWeightedP95Ms'' a) \<and> bound 1 a < bound 0 b"

definition below :: "string \<Rightarrow> jsval \<Rightarrow> jsval \<Rightarrow> bool" where
  "below m a b \<longleftrightarrow> metric m a < metric m b"

definition decision_rule :: "(rat \<Rightarrow> rat) \<Rightarrow> jsval \<Rightarrow> jsval list \<Rightarrow> jsval" where
  "decision_rule rnd effect rs =
     (case champion (faster_by rnd (num_val effect)) rs of
        Some a \<Rightarrow> evidence_decision ''winner'' (prop_of a ''profileId'') ''warm-cache-disabled-p95'' effect
      | None \<Rightarrow> case champion (below ''coldOrRestoreP95Ms'') rs of
          Some a \<Rightarrow> evidence_decision ''benchmark-tiebreak'' (prop_of a ''profileId'') ''cold-or-restore-p95'' effect
        | None \<Rightarrow> case champion (below ''projectedMonthlyUsd'') rs of
            Some a \<Rightarrow> evidence_decision ''benchmark-tiebreak'' (prop_of a ''profileId'') ''projected-monthly-cost'' effect
          | None \<Rightarrow> evidence_decision ''unresolved'' JNull ''none'' effect)"

lemma set_take_nth: "k \<le> length rs \<Longrightarrow> set (take k rs) = {rs ! j | j. j < k}"
  by (subst nth_image [symmetric]) auto

lemma set_drop_nth: "set (drop k rs) = {rs ! j | j. k \<le> j \<and> j < length rs}"
proof -
  have "set (drop k rs) = {drop k rs ! i | i. i < length rs - k}" by (auto simp: set_conv_nth)
  also have "\<dots> = {rs ! (k + i) | i. k + i < length rs}" by auto
  also have "\<dots> = {rs ! j | j. k \<le> j \<and> j < length rs}" by auto (metis le_add_diff_inverse)
  finally show ?thesis .
qed

lemma others_of_sorted:
  assumes "mset rs = mset (a # bs)" and "k < length rs" "rs ! k = a"
  shows "set bs = {rs ! j | j. j < length rs \<and> j \<noteq> k}"
proof -
  have "mset (take k rs @ a # drop (Suc k) rs) = mset (a # bs)" using assms id_take_nth_drop [OF assms(2)] by simp
  then have "mset (take k rs @ drop (Suc k) rs) = mset bs" by simp
  then have "set bs = set (take k rs) \<union> set (drop (Suc k) rs)" by (metis mset_eq_setD set_append)
  also have "set (take k rs) \<union> set (drop (Suc k) rs) = {rs ! j | j. j < length rs \<and> j \<noteq> k}"
    using assms(2) by (auto simp: set_take_nth set_drop_nth nat_neq_iff Suc_le_eq)
  finally show ?thesis .
qed

text \<open>When \<open>R\<close> respects a strict order, only the head of the sorted list can be the champion.\<close>

lemma champion_sorted:
  assumes perm: "mset rs = mset (a # bs)" and sorted: "sorted (map (metric m) (a # bs))" and strict: "\<And>x y. R x y \<Longrightarrow> metric m x < metric m y"
  shows "champion R rs = (if list_all (R a) bs then Some a else None)"
proof -
  let ?P = "\<lambda>k. list_all (\<lambda>j. j = k \<or> R (rs ! k) (rs ! j)) [0..<length rs]"
  have P: "?P k \<longleftrightarrow> (\<forall>j < length rs. j = k \<or> R (rs ! k) (rs ! j))" for k by (auto simp: list_all_iff)
  have "a \<in> set rs" using perm by (metis list.set_intros(1) mset_eq_setD)
  then obtain k where k: "k < length rs" "rs ! k = a" by (auto simp: in_set_conv_nth)
  note others = others_of_sorted [OF perm k]
  have least: "metric m a \<le> metric m (rs ! j)" if "j < length rs" for j
    using that k sorted others by (cases "j = k") auto
  have only: "i = k" if "i < length rs" "?P i" for i
  proof (rule ccontr)
    assume "i \<noteq> k"
    with that k have "R (rs ! i) a" by (auto simp: P)
    with strict least [OF that(1)] show False by (metis not_le)
  qed
  have "list_all (R a) bs \<longleftrightarrow> (\<forall>j < length rs. j \<noteq> k \<longrightarrow> R a (rs ! j))" by (auto simp: list_all_iff others)
  then have "?P k \<longleftrightarrow> list_all (R a) bs" by (auto simp: list_all_iff k(2))
  show ?thesis
  proof (cases "find ?P [0..<length rs]")
    case None
    then show ?thesis using k \<open>?P k \<longleftrightarrow> list_all (R a) bs\<close> by (auto simp: champion_def find_None_iff)
  next
    case (Some i)
    then have "i < length rs" "?P i" by (auto simp: find_Some_iff)
    with only have "i = k" by blast
    with Some \<open>?P i\<close> k \<open>?P k \<longleftrightarrow> list_all (R a) bs\<close> show ?thesis by (simp add: champion_def)
  qed
qed

lemma measured_number: "measured r \<Longrightarrow> m \<in> {''warmWeightedP95Ms'', ''coldOrRestoreP95Ms'', ''projectedMonthlyUsd''} \<Longrightarrow>
    num_of (prop_of r m) = Some (metric m r) \<and> ordered m r"
  by (auto simp: measured_def measurements_def metric_def num_val_def ordered_def)

lemma number_of_finite: "num_of v = Some q \<Longrightarrow> number_of js v = Some q"
  by (cases v) (simp_all add: number_of_def)

lemma get_measured: "num_of (prop_of r m) = Some q \<Longrightarrow> get_r r m = Inr (prop_of r m)"
  by (cases r) (auto simp: get_r_def nullish_def prop_of_def)

lemma less_than_finite: "num_of v = Some a \<Longrightarrow> num_of w = Some b \<Longrightarrow> less_than js v w \<longleftrightarrow> a < b"
  by (cases v; cases w) (simp_all add: less_than_def number_of_def)

lemma by_metric_measured:
  assumes "list_all measured rs" and "m \<in> {''warmWeightedP95Ms'', ''coldOrRestoreP95Ms'', ''projectedMonthlyUsd''}"
  obtains qs where "by_metric js collate m rs = Inr qs" "mset qs = mset rs" "sorted (map (metric m) qs)"
proof -
  let ?qs = "sort_key (\<lambda>r. num_val (prop_of r m)) (sort_key (\<lambda>r. collate (the_text (prop_of r ''profileId''))) rs)"
  have "list_all (ordered m) rs" using assms measured_number by (auto simp: list_all_iff)
  moreover have "(\<lambda>r. num_val (prop_of r m)) = metric m" by (simp add: metric_def fun_eq_iff)
  ultimately show ?thesis using that [of ?qs] by (simp add: by_metric_def)
qed

lemma tie_break_champion:
  assumes ms: "list_all measured rs" and m: "m \<in> {''warmWeightedP95Ms'', ''coldOrRestoreP95Ms'', ''projectedMonthlyUsd''}"
    and more: "2 \<le> length rs" and same: "mset qs = mset rs"
  shows "tie_break_r js collate m qs = Inr (map_option (\<lambda>a. prop_of a ''profileId'') (champion (below m) rs))"
proof -
  have "list_all measured qs" using ms same by (metis list_all_iff mset_eq_setD)
  then obtain ss where ss: "by_metric js collate m qs = Inr ss" "mset ss = mset qs" "sorted (map (metric m) ss)" using m by (rule by_metric_measured)
  have "length ss = length rs" using ss(2) same by (metis size_mset)
  with more obtain a b cs where l: "ss = a # b # cs" by (cases ss; cases "tl ss") auto
  have "measured a" "measured b" using l ss(2) same ms by (metis list.set_intros list_all_iff mset_eq_setD)+
  then have num: "num_of (prop_of a m) = Some (metric m a)" "num_of (prop_of b m) = Some (metric m b)" using m measured_number by blast+
  have "list_all (below m a) (b # cs) \<longleftrightarrow> metric m a < metric m b" using ss(3) l by (auto simp: list_all_iff below_def)
  moreover have "mset rs = mset (a # b # cs)" using ss(2) same l by simp
  moreover have "sorted (map (metric m) (a # b # cs))" using ss(3) l by simp
  ultimately have "champion (below m) rs = (if metric m a < metric m b then Some a else None)"
    by (subst champion_sorted [of rs a "b # cs" m "below m"]) (simp_all add: below_def)
  moreover have "strictly_first js m ss = Inr (metric m a < metric m b)"
    by (simp add: strictly_first_def l get_measured [OF num(1)] get_measured [OF num(2)] less_than_finite [OF num])
  ultimately show ?thesis by (simp add: tie_break_r_def ss(1) l)
qed

lemma primary_win_measured:
  assumes a: "measured a" and b: "measured b" and e: "num_of effect = Some e" and pos: "rounded js 0 = 0" "0 < rounded js e"
    and le: "metric ''warmWeightedP95Ms'' a \<le> metric ''warmWeightedP95Ms'' b"
  shows "primary_win js effect a b = Inr (faster_by (rounded js) e a b)"
proof -
  let ?w = "''warmWeightedP95Ms''" and ?ci = "''warmP95Ci95Ms''"
  let ?G = "if metric ?w b = 0 then 0 else gain (rounded js) (metric ?w b) (metric ?w a)"
  obtain a0 a1 b0 b1 where ci: "prop_of a ?ci = JArr [a0, a1]" "prop_of b ?ci = JArr [b0, b1]"
    and fin: "num_of a1 = Some (bound 1 a)" "num_of b0 = Some (bound 0 b)"
    using a b by (auto simp: measured_def measurements_def bound_def num_val_def split: jsval.splits list.splits)
  have num: "num_of (prop_of a ?w) = Some (metric ?w a)" "num_of (prop_of b ?w) = Some (metric ?w b)"
    using a b measured_number by blast+
  have imp: "improvement js a b = Inr (\<lambda>e. e \<le> (if metric ?w b = 0 then 0 else gain (rounded js) (metric ?w b) (metric ?w a)))"
    by (simp add: improvement_def get_measured [OF num(1)] get_measured [OF num(2)] num number_of_finite)
  have none: "gain (rounded js) q q = 0" for q using pos(1) by (simp add: gain_def)
  have "primary_win js effect a b = Inr (rounded js e \<le> ?G \<and> bound 1 a < bound 0 b)"
    by (simp add: primary_win_def imp number_of_finite [OF e] index_r_def ci nullish_def less_than_finite [OF fin(1,2)])
  moreover have "rounded js e \<le> ?G \<longleftrightarrow> metric ?w a < metric ?w b \<and> metric ?w b \<noteq> 0 \<and> rounded js e \<le> gain (rounded js) (metric ?w b) (metric ?w a)"
    using pos(2) le none by (cases "metric ?w a = metric ?w b") auto
  ultimately show ?thesis by (simp only: faster_by_def conj_assoc)
qed

lemma every_r_pure: "list_all (\<lambda>x. P x = Inr (Q x)) xs \<Longrightarrow> every_r P xs = Inr (list_all Q xs)"
  by (induction xs) auto

lemma measured_decision:
  assumes rs: "prop_of evidence ''results'' = JArr rs" "rs \<noteq> []" "list_all measured rs"
    and effect: "prop_of (prop_of evidence ''decision'') ''minimumEffectFraction'' = effect" "num_of effect = Some e"
    and pos: "rounded js 0 = 0" "0 < rounded js e"
  shows "computeEvidenceDecision js collate evidence = Inr (decision_rule (rounded js) effect rs)"
proof -
  let ?w = "''warmWeightedP95Ms''"
  obtain qs where qs: "by_metric js collate ?w rs = Inr qs" "mset qs = mset rs" "sorted (map (metric ?w) qs)"
    using by_metric_measured [OF rs(3), of ?w] by blast
  then obtain best runners where l: "qs = best # runners" using rs(2) by (cases qs) auto
  have ms: "list_all measured (best # runners)" using qs(2) l rs(3) by (metis list_all_iff mset_eq_setD)
  have "list_all (\<lambda>r. primary_win js effect best r = Inr (faster_by (rounded js) e best r)) runners"
    using ms qs(3) l primary_win_measured [OF _ _ effect(2) pos] by (auto simp: list_all_iff)
  then have every: "every_r (primary_win js effect best) runners = Inr (list_all (faster_by (rounded js) e best) runners)" by (rule every_r_pure)
  have champ: "champion (faster_by (rounded js) e) rs = (if list_all (faster_by (rounded js) e best) runners then Some best else None)"
    using qs l by (intro champion_sorted [of rs best runners ?w]) (auto simp: faster_by_def)
  have "get_r evidence ''results'' = Inr (JArr rs)" "get_r (prop_of evidence ''decision'') ''minimumEffectFraction'' = Inr effect"
    using rs(1) effect by (auto simp: get_r_def nullish_def prop_of_def split: jsval.splits)
  moreover have "get_r best ''profileId'' = Inr (prop_of best ''profileId'')"
    using ms by (cases best) (auto simp: measured_def get_r_def nullish_def prop_of_def)
  moreover have "2 \<le> length rs" if "\<not> list_all (faster_by (rounded js) e best) runners"
    using that qs(2) l by (cases runners) (auto dest: arg_cong [where f = size])
  ultimately show ?thesis
    using tie_break_champion [OF rs(3) _ _ qs(2), of _ js collate] effect(2)
    by (auto simp: computeEvidenceDecision_def spread_list_def qs(1) l every champ decision_rule_def num_val_def split: option.split)
qed

lemma no_results: "prop_of evidence ''results'' = JArr [] \<Longrightarrow> computeEvidenceDecision js collate evidence = Inl Type_Error"
  by (auto simp: computeEvidenceDecision_def get_r_def spread_list_def by_metric_def bind_r_def)

text \<open>What the validator admits is measured.\<close>

lemma nonnegative_finite: "nonnegative v \<Longrightarrow> \<exists>q. num_of v = Some q"
  by (auto simp: nonnegative_def split: option.splits)

lemma valid_result_measured:
  assumes "validateResult r = Inr u"
  shows "measurements r"
proof -
  have num: "nonnegative (prop_of r f)" if "f \<in> {''warmWeightedP95Ms'', ''coldOrRestoreP95Ms'', ''projectedMonthlyUsd''}" for f
    using assms that by (auto simp: validateResult_def bind_r_Inr_iff Let_def guard_facts)
  have "interval (prop_of r ''warmP95Ci95Ms'')"
    using assms by (auto simp: validateResult_def bind_r_Inr_iff Let_def guard_facts)
  then obtain a b where "prop_of r ''warmP95Ci95Ms'' = JArr [a, b]" "nonnegative a" "nonnegative b"
    by (auto simp: interval_def split: jsval.splits list.splits)
  with num nonnegative_finite show ?thesis by (simp add: measurements_def)
qed

lemma validated_evidence:
  assumes "validateFastestEvidence engine js collate evidence = Inr v"
  obtains rs d where "prop_of evidence ''results'' = JArr rs" "list_all measurements rs"
    "sets_differ (map (\<lambda>r. prop_of r ''profileId'') rs) (items (prop_of evidence ''profiles'')) = Inr False"
    "json_differs (prop_of evidence ''profiles'') (strings EXPECTED_PROFILES) = Inr False"
    "prop_of (prop_of evidence ''decision'') ''minimumEffectFraction'' = JNum ''0.05''"
    "computeEvidenceDecision js collate evidence = Inr d" "json_differs d (prop_of evidence ''decision'') = Inr False"
proof -
  let ?p = "prop_of evidence"
  obtain ids rids d where parts: "validateResults (?p ''results'') = Inr rids" "validateDecision (?p ''decision'') = Inr ()"
      "computeEvidenceDecision js collate evidence = Inr d" "json_differs d (?p ''decision'') = Inr False"
      "sets_differ rids (items (?p ''profiles'')) = Inr False" "json_differs (?p ''profiles'') (strings EXPECTED_PROFILES) = Inr False"
    using assms by (auto simp: validateFastestEvidence_def Let_def bind_r_Inr_iff guard_facts split: if_splits)
  moreover obtain rs where "?p ''results'' = JArr rs" "list_all measurements rs" "rids = map (\<lambda>r. prop_of r ''profileId'') rs"
    using parts(1) valid_result_measured
    by (cases "?p ''results''") (auto simp: validateResults_def bind_r_Inr_iff guard_facts list_all_iff)
  moreover have "prop_of (?p ''decision'') ''minimumEffectFraction'' = JNum ''0.05''"
    using parts(2) by (auto simp: validateDecision_def Let_def guard_facts strict_eq_def split: jsval.splits)
  ultimately show ?thesis using that by blast
qed

text \<open>Two results: twice as fast with separate intervals wins; a missing interval throws.\<close>

definition sample_result :: "string \<Rightarrow> int \<Rightarrow> jsval \<Rightarrow> jsval" where
  "sample_result i warm ci = JObj [(''profileId'', JStr i), (''warmWeightedP95Ms'', JInt warm), (''coldOrRestoreP95Ms'', JInt 5),
     (''warmP95Ci95Ms'', ci), (''projectedMonthlyUsd'', JInt 3)]"

definition sample_evidence :: "jsval \<Rightarrow> jsval" where
  "sample_evidence ci = JObj [(''results'', JArr [sample_result ''datahike-s3'' 20 (JArr [JInt 19, JInt 21]), sample_result ''datahike-dynamodb'' 10 ci]),
     (''decision'', JObj [(''minimumEffectFraction'', JNum ''0.05'')])]"

definition exact_engine :: js_engine where
  "exact_engine = \<lparr>rounded = \<lambda>q. q, coerced = \<lambda>v. None, unordered = \<lambda>m rs. Inr rs\<rparr>"

lemma sample_winner:
  "computeEvidenceDecision exact_engine (\<lambda>t. t) (sample_evidence (JArr [JInt 9, JInt 11]))
     = Inr (evidence_decision ''winner'' (JStr ''datahike-dynamodb'') ''warm-cache-disabled-p95'' (JNum ''0.05''))"
  by code_simp

lemma sample_unresolved:
  "computeEvidenceDecision exact_engine (\<lambda>t. t) (sample_evidence (JArr [JInt 9, JInt 19]))
     = Inr (evidence_decision ''unresolved'' JNull ''none'' (JNum ''0.05''))"
  by code_simp

lemma sample_missing_interval: "computeEvidenceDecision exact_engine (\<lambda>t. t) (sample_evidence JUndef) = Inl Type_Error"
  by code_simp

text \<open>
  C26 The decision names a storage exactly when one is singled out, and by the first rule that singles one out.
  For results with all their measurements it is the winner that is faster than every other result by
  the required fraction, with a confidence interval wholly below each of theirs; when there is no such
  result, the one whose cold latency is strictly less than every other's; else the one whose cost is;
  and when neither exists no storage. Outcome, storage and basis are those of \<open>decision_rule\<close>,
  which sorts nothing; a comparison without results throws. Evidence the validator admits has all
  these measurements, and its required fraction is 0.05.
\<close>

theorem decision_singles_out_storage:
  "(let rs = items (prop_of evidence ''results''); effect = prop_of (prop_of evidence ''decision'') ''minimumEffectFraction'' in
    (if prop_of evidence ''results'' = JArr rs \<and> list_all measured rs \<and> num_of effect \<noteq> None
         \<and> rounded js 0 = 0 \<and> 0 < rounded js (num_val effect)
     then computeEvidenceDecision js collate evidence = (if rs = [] then Inl Type_Error else Inr (decision_rule (rounded js) effect rs))
     else True)
    \<and> (case validateFastestEvidence engine js collate evidence of
         Inl e \<Rightarrow> True
       | Inr v \<Rightarrow> prop_of evidence ''results'' = JArr rs \<and> rs \<noteq> [] \<and> list_all measurements rs \<and> effect = JNum ''0.05''))"
proof -
  let ?rs = "items (prop_of evidence ''results'')" and ?effect = "prop_of (prop_of evidence ''decision'') ''minimumEffectFraction''"
  have rule: "computeEvidenceDecision js collate evidence = (if ?rs = [] then Inl Type_Error else Inr (decision_rule (rounded js) ?effect ?rs))"
    if c: "prop_of evidence ''results'' = JArr ?rs" "list_all measured ?rs" "num_of ?effect \<noteq> None" "rounded js 0 = 0" "0 < rounded js (num_val ?effect)"
  proof (cases "?rs = []")
    case True
    then show ?thesis using c by (simp add: no_results)
  next
    case False
    from c(3) obtain e where e: "num_of ?effect = Some e" by auto
    then have "0 < rounded js e" using c(5) by (simp add: num_val_def)
    with measured_decision [OF c(1) False c(2) refl e c(4)] False show ?thesis by simp
  qed
  have "prop_of evidence ''results'' = JArr ?rs \<and> ?rs \<noteq> [] \<and> list_all measurements ?rs \<and> ?effect = JNum ''0.05''"
    if v: "validateFastestEvidence engine js collate evidence = Inr v" for v
  proof -
    obtain rs d where "prop_of evidence ''results'' = JArr rs" "list_all measurements rs" "?effect = JNum ''0.05''"
      "computeEvidenceDecision js collate evidence = Inr d"
      using validated_evidence [OF v] by metis
    then show ?thesis using no_results [of evidence js collate] by (cases rs) auto
  qed
  with rule show ?thesis by (simp add: Let_def split: sum.split)
qed

end
