(* ===== verification/Profile_Registry.thy ===== *)
theory Profile_Registry
  imports Selection Fastest_Evidence
begin

text \<open>
  \<open>packages/explorer-state/src\<close>: \<open>profile-entry.mjs\<close> (one profile's published status),
  \<open>default-storage.mjs\<close> (which storage of a backend is chosen) and \<open>profile-registry.mjs\<close> (the
  registry of all profiles). Catalogue and definitions are the repository's own documents.
\<close>

subsection \<open>One profile\<close>

definition ENTRY_STATES :: "string list" where
  "ENTRY_STATES = [''enabled'', ''disabled'', ''qualifying'', ''unavailable'']"
definition OUTCOMES :: "string list" where
  "OUTCOMES = [''never-deployed'', ''succeeded'', ''failed'', ''rolled-back'']"
definition ARTIFACT_KINDS :: "string list" where
  "ARTIFACT_KINDS = [''static'', ''lambda-version'']"

definition canonicalProfileRoute :: "jsval \<Rightarrow> js_error + string" where
  "canonicalProfileRoute i =
     (if i = JStr ''datascript-browser-memory'' then Inr ''/''
      else if member_of [''datahike-s3'', ''datahike-dynamodb'', ''datomic-dynamodb'', ''datalevin-memory'', ''jank-memory''] i then Inr ''/''
      else bind_r (text_r i) (\<lambda>t. Inl (Error (''unknown profile route: '' @ t))))"

text \<open>\<open>/\b(?:latest source|all profiles converged)\b/iu\<close>: the phrase between word boundaries.\<close>

definition word_char :: "char \<Rightarrow> bool" where
  "word_char c \<longleftrightarrow> is_alnum c \<or> c = CHR ''_''"

fun contains_word :: "string \<Rightarrow> bool \<Rightarrow> string \<Rightarrow> bool" where
  \<comment> \<open>the flag tells whether a word character precedes\<close>
  "contains_word t inside [] = False"
| "contains_word t inside (c # cs) =
     (\<not> inside \<and> starts_with t (c # cs) \<and> (case drop (length t) (c # cs) of [] \<Rightarrow> True | d # _ \<Rightarrow> \<not> word_char d)
      \<or> contains_word t (word_char c) cs)"

fun containsLatestClaim :: "jsval \<Rightarrow> bool" where
  "containsLatestClaim (JStr s) =
     (contains_word ''latest source'' False (to_lower s) \<or> contains_word ''all profiles converged'' False (to_lower s))"
| "containsLatestClaim (JArr vs) = list_ex containsLatestClaim vs"
| "containsLatestClaim (JObj kvs) =
     list_ex (\<lambda>(k, v). contains ''latest'' (to_lower k) \<or> contains ''converged'' (to_lower k) \<or> containsLatestClaim v) kvs"
| "containsLatestClaim v = False"

definition no_date :: "(string \<Rightarrow> int option) \<Rightarrow> jsval \<Rightarrow> js_error + bool" where
  \<comment> \<open>\<open>Number.isNaN(Date.parse(v))\<close>\<close>
  "no_date engine v = bind_r (date_r engine v) (\<lambda>t. Inr (t = None))"

definition validateDeployment :: "(string \<Rightarrow> int option) \<Rightarrow> jsval \<Rightarrow> js_error + unit" where
  "validateDeployment engine d =
     (let p = prop_of d; a = prop_of (p ''artifact'') in
      guards [
        exactKeys d [''demoSha'', ''eaclSha'', ''artifact'', ''deploymentId'', ''dataManifestSha256'', ''deployedAt''] ''deployment'',
        reject_if [mismatch (lower_hex 40) (p ''demoSha''), mismatch (lower_hex 40) (p ''eaclSha'')] ''deployed sources must be exact SHAs'',
        exactKeys (p ''artifact'') [''kind'', ''sha256'', ''version''] ''artifact'',
        reject_if [Inr (\<not> member_of ARTIFACT_KINDS (a ''kind'')), mismatch (lower_hex 64) (a ''sha256''), Inr (\<not> str_satisfies (\<lambda>s. s \<noteq> []) (a ''version''))]
          ''artifact identity is invalid'',
        reject_if [Inr (\<not> str_satisfies (\<lambda>s. s \<noteq> []) (p ''deploymentId''))] ''deployment ID is invalid'',
        reject_if [mismatch (lower_hex 64) (p ''dataManifestSha256'')] ''deployment data manifest digest is invalid'',
        reject_if [no_date engine (p ''deployedAt'')] ''deployment timestamp is invalid''])"

definition validateOutcome :: "(string \<Rightarrow> int option) \<Rightarrow> jsval \<Rightarrow> js_error + unit" where
  "validateOutcome engine v =
     (let p = prop_of v in
      guards [
        exactKeys v [''outcome'', ''attemptedDemoSha'', ''attemptedEaclSha'', ''artifactSha256'', ''at'', ''message''] ''last outcome'',
        reject_if [Inr (\<not> member_of OUTCOMES (p ''outcome''))] ''deployment outcome is unknown'',
        reject_if [Inr (\<not> bounded_text 320 (p ''message''))] ''deployment outcome message is invalid'',
        (if p ''outcome'' = JStr ''never-deployed''
         then reject_if [Inr (list_ex (\<lambda>k. p k \<noteq> JNull) [''attemptedDemoSha'', ''attemptedEaclSha'', ''artifactSha256'', ''at''])]
           ''never-deployed outcome cannot carry attempted identity''
         else reject_if [mismatch (lower_hex 40) (p ''attemptedDemoSha''), mismatch (lower_hex 40) (p ''attemptedEaclSha''),
             mismatch (lower_hex 64) (p ''artifactSha256''), no_date engine (p ''at'')] ''deployment outcome requires exact attempted identity'')])"

definition ENTRY_KEYS :: "string list" where
  "ENTRY_KEYS = [''id'', ''backend'', ''storage'', ''state'', ''reason'', ''route'', ''deployment'', ''lastOutcome'']"

definition validateProfileEntry :: "(string \<Rightarrow> int option) \<Rightarrow> jsval \<Rightarrow> jsval \<Rightarrow> js_error + jsval" where
  "validateProfileEntry engine profile dfn =
     (let p = prop_of profile; deployment = p ''deployment''; outcome = prop_of (p ''lastOutcome'') in
      bind_r (text_r (nullish_or (p ''id'') (JStr ''unknown''))) (\<lambda>name.
      bind_r (exactKeys profile ENTRY_KEYS (''profile '' @ name)) (\<lambda>_.
      bind_r (guards [
        reject_if [Inr (\<not> truthy dfn), differs (prop_of dfn ''id'') (p ''id''), differs (prop_of dfn ''backend'') (p ''backend''),
          differs (prop_of dfn ''storage'') (p ''storage'')] (''profile mapping is not canonical: '' @ the_text (p ''id'')),
        reject_if [Inr (\<not> member_of ENTRY_STATES (p ''state''))] (''profile '' @ name @ '' has an unknown state''),
        bind_r (canonicalProfileRoute (p ''id'')) (\<lambda>route. reject_if [differs (p ''route'') (JStr route)] (''profile '' @ name @ '' route is not canonical'')),
        (if p ''state'' = JStr ''enabled''
         then reject_if [differs (p ''reason'') JNull, Inr (\<not> truthy deployment)]
           (''enabled profile '' @ name @ '' requires deployment identity and no reason'')
         else reject_if [Inr (\<not> str_satisfies (\<lambda>s. 12 \<le> length s \<and> length s \<le> 320) (p ''reason''))]
           (''non-enabled profile '' @ name @ '' requires a bounded reason'')),
        (if deployment = JNull then Inr () else validateDeployment engine deployment),
        validateOutcome engine (p ''lastOutcome''),
        reject_if [Inr (truthy deployment \<and> outcome ''outcome'' = JStr ''never-deployed'')]
          (''deployed profile '' @ name @ '' cannot have a never-deployed outcome''),
        (if outcome ''outcome'' \<noteq> JStr ''succeeded'' then Inr ()
         else guards [
           reject_if [Inr (\<not> truthy deployment)] (''successful profile '' @ name @ '' requires the active deployment''),
           reject_if [differs (outcome ''attemptedDemoSha'') (prop_of deployment ''demoSha''), differs (outcome ''attemptedEaclSha'') (prop_of deployment ''eaclSha''),
               differs (outcome ''artifactSha256'') (prop_of (prop_of deployment ''artifact'') ''sha256'')]
             (''successful profile '' @ name @ '' outcome does not match the active deployment'')])]) (\<lambda>_. Inr profile))))"

subsection \<open>The default storage of a backend\<close>

definition storage_choice :: "string \<Rightarrow> jsval \<Rightarrow> jsval \<Rightarrow> jsval \<Rightarrow> jsval \<Rightarrow> jsval \<Rightarrow> jsval \<Rightarrow> jsval" where
  "storage_choice outcome i storage claim evidenceId measuredAt r = JObj [(''outcome'', JStr outcome), (''profileId'', i), (''storage'', storage),
     (''claim'', claim), (''evidenceId'', evidenceId), (''measuredAt'', measuredAt), (''reason'', r)]"

definition without_evidence :: "string \<Rightarrow> jsval \<Rightarrow> string \<Rightarrow> jsval" where
  "without_evidence outcome profile r =
     storage_choice outcome (prop_of profile ''id'') (prop_of profile ''storage'') JNull JNull JNull (JStr r)"

definition qualified_profiles :: "jsval \<Rightarrow> jsval \<Rightarrow> jsval list \<Rightarrow> jsval list" where
  "qualified_profiles backend dfns entries =
     (let byId = map_by_id (items (prop_of dfns ''profiles'')) in
      map (\<lambda>e. case entry_of byId (prop_of e ''id'') of None \<Rightarrow> JUndef | Some d \<Rightarrow> d)
        (filter (\<lambda>e. prop_of e ''state'' = JStr ''enabled''
           \<and> (case entry_of byId (prop_of e ''id'') of None \<Rightarrow> False | Some d \<Rightarrow> strict_eq (prop_of d ''backend'') backend)) entries))"

definition selectDefaultStorage ::
    "(string \<Rightarrow> int option) \<Rightarrow> js_engine \<Rightarrow> (string \<Rightarrow> string) \<Rightarrow> jsval \<Rightarrow> jsval \<Rightarrow> jsval list \<Rightarrow> jsval \<Rightarrow> int option \<Rightarrow> js_error + jsval" where
  "selectDefaultStorage engine js collate backend dfns entries evidence now =
     (let byId = map_by_id (items (prop_of dfns ''profiles'')) in
      case qualified_profiles backend dfns entries of
        [] \<Rightarrow> Inr (storage_choice ''none'' JNull JNull JNull JNull JNull (JStr ''No qualified storage choice is enabled.''))
      | [profile] \<Rightarrow> Inr (without_evidence ''sole-qualified'' profile ''Only one qualified storage choice is enabled.'')
      | q # qs \<Rightarrow>
          let fallback = Inr (without_evidence ''fallback'' q ''Comparable current benchmark evidence is unavailable; using the stable qualified fallback.'') in
          if \<not> truthy evidence then fallback
          else bind_r (validateFastestEvidence engine js collate evidence) (\<lambda>_.
            throw_if (\<not> strict_eq (prop_of evidence ''backend'') backend) (Error ''fastest evidence backend does not match selection backend'')
            (throw_if (json (JArr (sort_key the_text (items (prop_of evidence ''profiles'')))) \<noteq> json (JArr (sort_key the_text (map (\<lambda>d. prop_of d ''id'') (q # qs)))))
              (Error ''fastest evidence candidates must exactly equal qualified storage choices'')
            (if \<not> isEvidenceCurrent engine evidence now then fallback
             else bind_r (computeEvidenceDecision js collate evidence) (\<lambda>computed.
               if prop_of computed ''outcome'' = JStr ''unresolved'' then fallback
               else case entry_of byId (prop_of computed ''defaultProfileId'') of
                   None \<Rightarrow> Inl Type_Error
                 | Some profile \<Rightarrow> Inr (storage_choice (the_text (prop_of computed ''outcome'')) (prop_of profile ''id'') (prop_of profile ''storage'')
                     (JStr (if prop_of computed ''outcome'' = JStr ''winner'' then ''fastest-qualified'' else ''benchmark-selected''))
                     (prop_of evidence ''evidenceId'') (prop_of evidence ''measuredAt'') JNull))))))"

subsection \<open>The registry\<close>

definition evidenceSummary :: "jsval \<Rightarrow> jsval" where
  "evidenceSummary record =
     (let e = prop_of (prop_of record ''evidence'') in
      JObj [(''evidenceId'', e ''evidenceId''), (''backend'', e ''backend''), (''profiles'', e ''profiles''), (''measuredAt'', e ''measuredAt''),
        (''expiresAt'', e ''expiresAt''), (''path'', prop_of record ''path''), (''sha256'', prop_of record ''sha256'')])"

definition normalizeEvidenceRecord :: "(string \<Rightarrow> int option) \<Rightarrow> js_engine \<Rightarrow> (string \<Rightarrow> string) \<Rightarrow> jsval \<Rightarrow> js_error + jsval" where
  "normalizeEvidenceRecord engine js collate record =
     bind_r (reject_if [Inr (\<not> truthy record), Inr (\<not> truthy (prop_of record ''evidence'')), Inr (\<not> is_string (prop_of record ''path'')),
        mismatch (lower_hex 64) (prop_of record ''sha256'')] ''published evidence record requires evidence, repository path, and file digest'') (\<lambda>_.
     bind_r (validateFastestEvidence engine js collate (prop_of record ''evidence'')) (\<lambda>_.
     bind_r (reject_if [Inr (\<not> starts_with ''registry/benchmark-evidence/'' (the_str (prop_of record ''path''))),
        Inr (\<not> ends_with ''.json'' (the_str (prop_of record ''path'')))] ''benchmark evidence path is outside the registry evidence directory'') (\<lambda>_.
     Inr record)))"

definition active_deployments :: "jsval list \<Rightarrow> (jsval \<times> jsval) list" where
  "active_deployments profiles =
     fold (\<lambda>p. set_entry (prop_of p ''id'') (prop_of p ''deployment''))
       (filter (\<lambda>p. prop_of p ''state'' = JStr ''enabled'' \<and> truthy (prop_of p ''deployment'')) profiles) []"

definition candidate_is_active :: "(jsval \<times> jsval) list \<Rightarrow> jsval \<Rightarrow> bool" where
  "candidate_is_active active candidate = (case entry_of active (prop_of candidate ''profileId'') of
     None \<Rightarrow> False
   | Some d \<Rightarrow>
       let c = prop_of candidate in
       strict_eq (c ''demoSha'') (prop_of d ''demoSha'') \<and> strict_eq (c ''eaclSha'') (prop_of d ''eaclSha'')
       \<and> strict_eq (c ''artifactDigest'') (JStr (''sha256:'' @ the_text (prop_of (prop_of d ''artifact'') ''sha256'')))
       \<and> strict_eq (c ''deploymentId'') (prop_of d ''deploymentId'')
       \<and> strict_eq (c ''dataManifestDigest'') (JStr (''sha256:'' @ the_text (prop_of d ''dataManifestSha256''))))"

definition evidenceMatchesActiveDeployments :: "jsval \<Rightarrow> jsval list \<Rightarrow> bool" where
  "evidenceMatchesActiveDeployments evidence profiles =
     (let active = active_deployments profiles in
      list_all (\<lambda>i. entry_of active i \<noteq> None) (items (prop_of evidence ''profiles''))
      \<and> list_all (candidate_is_active active) (items (prop_of evidence ''candidates'')))"

definition backends_of :: "jsval \<Rightarrow> jsval list" where
  \<comment> \<open>\<open>[...new Set(values)]\<close>: first occurrences, in order\<close>
  "backends_of dfns = rev (remdups (rev (map (\<lambda>d. prop_of d ''backend'') (items (prop_of dfns ''profiles'')))))"

definition newest_evidence :: "(string \<Rightarrow> int option) \<Rightarrow> jsval \<Rightarrow> jsval list \<Rightarrow> jsval list \<Rightarrow> int option \<Rightarrow> jsval" where
  "newest_evidence engine backend profiles records now =
     (let usable = filter (\<lambda>e. strict_eq (prop_of e ''backend'') backend \<and> isEvidenceCurrent engine e now \<and> evidenceMatchesActiveDeployments e profiles)
         (map (\<lambda>r. prop_of r ''evidence'') records);
          time = (\<lambda>e. case dateParse engine (prop_of e ''measuredAt'') of None \<Rightarrow> 0 | Some t \<Rightarrow> t) in
      case sort_key (\<lambda>e. - time e) usable of [] \<Rightarrow> JNull | e # _ \<Rightarrow> e)"

definition deriveStorageDefaults ::
    "(string \<Rightarrow> int option) \<Rightarrow> js_engine \<Rightarrow> (string \<Rightarrow> string) \<Rightarrow> jsval list \<Rightarrow> jsval \<Rightarrow> jsval list \<Rightarrow> int option \<Rightarrow> js_error + jsval list" where
  "deriveStorageDefaults engine js collate profiles dfns records now =
     mapM_r (\<lambda>backend.
       bind_r (selectDefaultStorage engine js collate backend dfns profiles (newest_evidence engine backend profiles records now) now) (\<lambda>choice.
         Inr (spread [choice, JObj [(''backend'', backend)]]))) (backends_of dfns)"

fun validateEntries :: "(string \<Rightarrow> int option) \<Rightarrow> (jsval \<times> jsval) list \<Rightarrow> jsval list \<Rightarrow> jsval list \<Rightarrow> js_error + unit" where
  "validateEntries engine dfns seen [] = Inr ()"
| "validateEntries engine dfns seen (profile # ps) =
     bind_r (get_r profile ''id'') (\<lambda>i.
     case entry_of dfns i of
       None \<Rightarrow> bind_r (text_r i) (\<lambda>t. Inl (Error (''profile mapping is not canonical: '' @ t)))
     | Some dfn \<Rightarrow>
         if includes_value seen i then Inl (Error (''profile mapping is not canonical: '' @ the_text i))
         else bind_r (validateProfileEntry engine profile dfn) (\<lambda>_. validateEntries engine dfns (seen @ [i]) ps))"

definition sort_summaries :: "(string \<Rightarrow> string) \<Rightarrow> jsval list \<Rightarrow> jsval list" where
  "sort_summaries collate ss = sort_key (\<lambda>s. collate (the_text (prop_of s ''evidenceId''))) ss"

definition validateProfileRegistry ::
    "(string \<Rightarrow> int option) \<Rightarrow> js_engine \<Rightarrow> (string \<Rightarrow> string) \<Rightarrow> jsval \<Rightarrow> jsval \<Rightarrow> jsval list \<Rightarrow> int option \<Rightarrow> js_error + jsval" where
  "validateProfileRegistry engine js collate registry dfns records now =
     (let p = prop_of registry; definitions = map_by_id (items (prop_of dfns ''profiles'')) in
      bind_r (guards [
        exactKeys registry [''$schema'', ''schema'', ''contractVersion'', ''benchmarkEvidence'', ''storageDefaults'', ''profiles''] ''registry'',
        reject_if [differs (p ''schema'') (JStr ''eacl-demo.profile-registry.v1''), differs (p ''contractVersion'') (JStr ''explorer.v1'')]
          ''unsupported registry contract'',
        throw_if (nullish (p ''profiles'')) Type_Error
          (throw_if (case p ''profiles'' of JArr ps \<Rightarrow> length ps \<noteq> length definitions | _ \<Rightarrow> True)
            (Error ''registry must contain every profile exactly once'') (Inr ())),
        validateEntries engine definitions [] (items (p ''profiles''))]) (\<lambda>_.
      bind_r (mapM_r (normalizeEvidenceRecord engine js collate) records) (\<lambda>normalized.
      bind_r (reject_if [Inr (json (p ''benchmarkEvidence'') \<noteq> json (JArr (sort_summaries collate (map evidenceSummary normalized))))]
        ''registry benchmark evidence summaries do not match published evidence files'') (\<lambda>_.
      bind_r (deriveStorageDefaults engine js collate (items (p ''profiles'')) dfns normalized now) (\<lambda>defaults.
      bind_r (guards [
        reject_if [Inr (json (p ''storageDefaults'') \<noteq> json (JArr defaults))] ''registry storage defaults do not match qualified profiles and comparable evidence'',
        reject_if [Inr (containsLatestClaim registry)] ''registry must not claim latest source or fleet convergence'']) (\<lambda>_.
      Inr registry))))))"

end
