(* ===== verification/Http_Client.thy ===== *)
theory Http_Client
  imports Bytes Contracts_Base
begin

text \<open>
  \<open>packages/contracts/src/http-client.mjs\<close>: reading a response without trusting its size. A body is
  a stream of chunks or a \<open>text()\<close> method; the fatal streaming \<open>TextDecoder\<close> is a parameter with
  its state, each step of which may throw (\<open>None\<close>).
\<close>

subsection \<open>Responses\<close>

datatype chunk = Chunk_Bytes "nat list" | Chunk_Other | Chunk_Fails

datatype response_content =
    Stream "chunk list"
  | Text_Method "string option"
  | Unreadable

record http_response =
  content_length :: "string option"
  content :: response_content

record 'd text_stream =
  decoder_start :: 'd
  decoder_feed :: "'d \<Rightarrow> nat list \<Rightarrow> (string \<times> 'd) option"
  decoder_flush :: "'d \<Rightarrow> string option"

definition MAXIMUM_RESPONSE_BYTES :: int where
  "MAXIMUM_RESPONSE_BYTES = 1048576"

abbreviation response_too_large :: js_error where "response_too_large \<equiv> Coded ''response-too-large''"

text \<open>The reading loop: the result, whether the reader was cancelled, and the bytes decoded.\<close>

record read_report =
  read_result :: "js_error + string"
  cancelled :: bool
  decoded_bytes :: nat

fun read_loop :: "'d text_stream \<Rightarrow> nat \<Rightarrow> nat \<Rightarrow> 'd \<Rightarrow> string list \<Rightarrow> chunk list \<Rightarrow> read_report" where
  "read_loop d maximumBytes seen st parts [] =
     \<lparr>read_result = (case decoder_flush d st of None \<Rightarrow> Inl Type_Error | Some t \<Rightarrow> Inr (concat (parts @ [t]))),
      cancelled = False, decoded_bytes = seen\<rparr>"
| "read_loop d maximumBytes seen st parts (Chunk_Fails # cs) =
     \<lparr>read_result = Inl (Error ''read failed''), cancelled = False, decoded_bytes = seen\<rparr>"
| "read_loop d maximumBytes seen st parts (Chunk_Other # cs) =
     \<lparr>read_result = Inl (Error ''HTTP response stream returned a non-byte chunk''), cancelled = False, decoded_bytes = seen\<rparr>"
| "read_loop d maximumBytes seen st parts (Chunk_Bytes bs # cs) =
     (if seen + length bs > maximumBytes then \<lparr>read_result = Inl response_too_large, cancelled = True, decoded_bytes = seen\<rparr>
      else (case decoder_feed d st bs of
         None \<Rightarrow> \<lparr>read_result = Inl Type_Error, cancelled = False, decoded_bytes = seen + length bs\<rparr>
       | Some (t, st') \<Rightarrow> read_loop d maximumBytes (seen + length bs) st' (parts @ [t]) cs))"

definition declared_ok :: "nat \<Rightarrow> string option \<Rightarrow> bool" where
  "declared_ok maximumBytes declared = (case declared of
     None \<Rightarrow> True | Some s \<Rightarrow> s \<noteq> [] \<and> list_all is_digit s \<and> index_value s \<le> maximumBytes)"

definition readBoundedTextResponse :: "'d text_stream \<Rightarrow> jsval \<Rightarrow> http_response \<Rightarrow> read_report" where
  "readBoundedTextResponse d maximumBytes response =
     (let fail = (\<lambda>e. \<lparr>read_result = Inl e, cancelled = False, decoded_bytes = 0\<rparr>); limit = nat (the_int maximumBytes) in
      if \<not> safe_int_between 1 MAXIMUM_RESPONSE_BYTES maximumBytes then fail Type_Error
      else if \<not> declared_ok limit (content_length response) then fail response_too_large
      else (case content response of
         Stream cs \<Rightarrow> read_loop d limit 0 (decoder_start d) [] cs
       | Text_Method None \<Rightarrow> fail (Error ''read failed'')
       | Text_Method (Some t) \<Rightarrow>
           if byte_length t > limit then fail response_too_large
           else \<lparr>read_result = Inr t, cancelled = False, decoded_bytes = 0\<rparr>
       | Unreadable \<Rightarrow> fail Type_Error))"

definition readBoundedJsonResponse :: "'d text_stream \<Rightarrow> (string \<Rightarrow> jsval) \<Rightarrow> jsval \<Rightarrow> http_response \<Rightarrow> js_error + jsval" where
  "readBoundedJsonResponse d num maximumBytes response =
     bind_r (read_result (readBoundedTextResponse d maximumBytes response)) (\<lambda>t.
       case json_parse num t of
         None \<Rightarrow> Inl (Coded ''invalid-response'')
       | Some v \<Rightarrow> throw_if (\<not> is_object v) (Coded ''invalid-response'') (Inr v))"

text \<open>\<open>digest\<close> is Web Crypto's SHA-256 of bytes.\<close>

definition jsonPayloadSha256 :: "(nat list \<Rightarrow> nat list) \<Rightarrow> jsval \<Rightarrow> js_error + string" where
  "jsonPayloadSha256 digest body =
     (case body of
        JStr b \<Rightarrow>
          let v = concat (map (\<lambda>n. pad_start 2 (CHR ''0'') (radix_str 16 n)) (digest (utf8 b))) in
          throw_if (\<not> lower_hex 64 v) (Error ''SHA-256 implementation returned an invalid digest'') (Inr v)
      | _ \<Rightarrow> Inl Type_Error)"

subsection \<open>Bounds\<close>

definition chunk_bytes :: "chunk \<Rightarrow> nat" where
  "chunk_bytes c = (case c of Chunk_Bytes bs \<Rightarrow> length bs | _ \<Rightarrow> 0)"

fun feed_all :: "'d text_stream \<Rightarrow> 'd \<Rightarrow> chunk list \<Rightarrow> string option" where
  "feed_all d st [] = decoder_flush d st"
| "feed_all d st (Chunk_Bytes bs # cs) =
     (case decoder_feed d st bs of None \<Rightarrow> None | Some (t, st') \<Rightarrow> map_option ((@) t) (feed_all d st' cs))"
| "feed_all d st (_ # cs) = None"

lemma read_loop_bounded: "seen \<le> m \<Longrightarrow> decoded_bytes (read_loop d m seen st parts cs) \<le> m"
  by (induction d m seen st parts cs rule: read_loop.induct) (auto split: option.split prod.split)

lemma read_loop_result:
  "read_result (read_loop d m seen st parts cs) = Inr t \<longleftrightarrow>
     seen + sum_list (map chunk_bytes cs) \<le> m \<and> map_option ((@) (concat parts)) (feed_all d st cs) = Some t
   \<or> cs = [] \<and> m < seen \<and> map_option ((@) (concat parts)) (decoder_flush d st) = Some t"
proof (induction d m seen st parts cs rule: read_loop.induct)
  case (4 d m seen st parts bs cs)
  show ?case
  proof (cases "seen + length bs > m")
    case True
    then show ?thesis by (simp add: chunk_bytes_def)
  next
    case False
    with 4 show ?thesis by (auto simp: chunk_bytes_def split: option.splits prod.splits)
  qed
qed (auto simp: chunk_bytes_def split: option.splits)

lemma read_loop_cancelled:
  "cancelled (read_loop d m seen st parts cs) \<Longrightarrow> read_result (read_loop d m seen st parts cs) = Inl response_too_large"
  by (induction d m seen st parts cs rule: read_loop.induct) (auto split: option.splits prod.splits if_splits)

text \<open>
  No more bytes than the configured maximum (at most 1 MiB) are ever decoded from a stream; a
  stream is read successfully exactly when all its chunks are bytes, they fit the maximum and a
  declared length, and the decoder accepts them, and then the text is all of them decoded in
  order; a reader is cancelled only on the way to \<open>response-too-large\<close>.
\<close>

theorem stream_read_exact:
  "(let r = readBoundedTextResponse d (JInt m) \<lparr>content_length = declared, content = Stream cs\<rparr> in
     decoded_bytes r \<le> 1048576
     \<and> (read_result r = Inr t \<longleftrightarrow> 1 \<le> m \<and> m \<le> 1048576 \<and> declared_ok (nat m) declared
          \<and> sum_list (map chunk_bytes cs) \<le> nat m \<and> feed_all d (decoder_start d) cs = Some t)
     \<and> (if cancelled r then read_result r = Inl (Coded ''response-too-large'') else True))"
proof -
  have "decoded_bytes (read_loop d (nat m) 0 (decoder_start d) [] cs) \<le> nat m" by (rule read_loop_bounded) simp
  then have b: "m \<le> 1048576 \<Longrightarrow> decoded_bytes (read_loop d (nat m) 0 (decoder_start d) [] cs) \<le> 1048576" by linarith
  show ?thesis
    using b read_loop_result [of d "nat m" 0 "decoder_start d" "[]" cs t]
      read_loop_cancelled [of d "nat m" 0 "decoder_start d" "[]" cs]
    by (auto simp: readBoundedTextResponse_def safe_int_between_def MAXIMUM_RESPONSE_BYTES_def is_safe_integer_def
        MAX_SAFE_INTEGER_def Let_def option.map_id [unfolded id_def])
qed

end
