(* ===== verification/Canonical_Json.thy ===== *)
theory Canonical_Json
  imports Json_Text
begin

text \<open>
  \<open>packages/fixture-generator/canonical-json.mjs\<close>: the one text of a JSON value that the
  fixture stream, its digests and its verifier agree on. \<open>same_json\<close> is the specification,
  equality of values up to the order of properties; \<open>canonicalJson_eq_iff\<close> says that two
  values have one canonical text exactly when they are the same in that sense.
\<close>

datatype canonical_error = NotSafeNonNegative | UndefinedNotJson

fun canonicalValue :: "jsval \<Rightarrow> canonical_error + jsval" where
  "canonicalValue (JArr vs) = bind_r (mapM_r canonicalValue vs) (\<lambda>ws. Inr (JArr ws))"
| "canonicalValue (JObj kvs) =
     bind_r (mapM_r (\<lambda>(k, v). bind_r (canonicalValue v) (\<lambda>w. Inr (k, w))) (sort_key fst kvs))
       (\<lambda>es. Inr (JObj (from_entries es)))"
| "canonicalValue (JInt i) = throw_if (\<not> is_safe_integer i \<or> i < 0) NotSafeNonNegative (Inr (JInt i))"
| "canonicalValue (JNum s) = Inl NotSafeNonNegative"
| "canonicalValue JUndef = Inl UndefinedNotJson"
| "canonicalValue v = Inr v"

definition canonicalJson :: "jsval \<Rightarrow> canonical_error + string" where
  "canonicalJson v = bind_r (canonicalValue v) (\<lambda>w. Inr (json w))"

subsection \<open>The values it accepts\<close>

fun canonical_ok :: "jsval \<Rightarrow> bool" where
  "canonical_ok (JArr vs) = list_all canonical_ok vs"
| "canonical_ok (JObj kvs) = (distinct (map fst kvs) \<and> list_all (\<lambda>(k, v). canonical_ok v) kvs)"
| "canonical_ok (JInt i) = (is_safe_integer i \<and> 0 \<le> i)"
| "canonical_ok (JNum s) = False"
| "canonical_ok JUndef = False"
| "canonical_ok v = True"

text \<open>The value after sorting, without the error cases.\<close>

fun sort_props :: "jsval \<Rightarrow> jsval" where
  "sort_props (JArr vs) = JArr (map sort_props vs)"
| "sort_props (JObj kvs) = JObj (own_order (sort_key fst (map (\<lambda>(k, v). (k, sort_props v)) kvs)))"
| "sort_props v = v"

declare set_own_order [simp]

lemma own_order_distinct [simp]: "distinct (map fst kvs) \<Longrightarrow> distinct (map fst (own_order kvs))"
  by (auto simp: own_order_def distinct_map comp_def intro: inj_on_subset)

lemma own_order_idem [simp]: "own_order (own_order kvs) = own_order kvs"
  by (simp add: own_order_def filter_sort comp_def sort_key_id_if_sorted)

lemma from_entries_own_order: "distinct (map fst kvs) \<Longrightarrow> from_entries kvs = own_order kvs"
  using fold_update_distinct [of "[]" kvs] by (simp add: from_entries_def)

lemma fst_comp_snd_map [simp]: "fst \<circ> (\<lambda>(k, v). (k, f v)) = fst"
  by auto

lemma map_fst_sort_props [simp]: "map fst (map (\<lambda>(k, v). (k, f v)) kvs) = map fst kvs"
  by simp

lemma distinct_fst_sort_key [simp]: "distinct (map fst kvs) \<Longrightarrow> distinct (map fst (sort_key fst kvs))"
  by (simp add: distinct_map)

lemma insort_key_map_snd:
  "insort_key fst (k, f v) (map (\<lambda>(k, v). (k, f v)) kvs) = map (\<lambda>(k, v). (k, f v)) (insort_key fst (k, v) kvs)"
  by (induction kvs) auto

lemma sort_key_map_snd: "sort_key fst (map (\<lambda>(k, v). (k, f v)) kvs) = map (\<lambda>(k, v). (k, f v)) (sort_key fst kvs)"
  by (induction kvs) (auto simp: insort_key_map_snd)

lemma canonicalValue_ok: "canonical_ok v \<Longrightarrow> canonicalValue v = Inr (sort_props v)"
proof (induction v rule: canonicalValue.induct)
  case (2 kvs)
  have d: "distinct (map fst kvs)" using "2.prems" by simp
  have "mapM_r (\<lambda>(k, v). bind_r (canonicalValue v) (\<lambda>w. Inr (k, w))) (sort_key fst kvs)
      = Inr (map (\<lambda>(k, v). (k, sort_props v)) (sort_key fst kvs))"
    using 2 by (intro mapM_r_total) (auto simp: list_all_iff)
  moreover have "from_entries (map (\<lambda>(k, v). (k, sort_props v)) (sort_key fst kvs))
      = own_order (sort_key fst (map (\<lambda>(k, v). (k, sort_props v)) kvs))"
    using d by (simp add: from_entries_own_order sort_key_map_snd del: map_map)
  ultimately show ?case by simp
qed (auto simp: list_all_iff intro!: mapM_r_total)

lemma sort_props_plain: "canonical_ok v \<Longrightarrow> json_plain (sort_props v)"
proof (induction v rule: sort_props.induct)
  case (2 kvs)
  let ?m = "sort_key fst (map (\<lambda>(k, v). (k, sort_props v)) kvs)"
  have "distinct (map fst ?m)" using "2.prems" by (intro distinct_fst_sort_key) simp
  then have "from_entries (own_order ?m) = own_order ?m"
    by (simp add: from_entries_own_order)
  then show ?case using 2 by (auto simp: list_all_iff)
qed (auto simp: list_all_iff)

lemma list_all2_map_eq: "list_all2 (\<lambda>v w. f v = f w) vs ws \<longleftrightarrow> map f vs = map f ws"
  by (induction vs arbitrary: ws) (auto simp: list_all2_Cons1 Cons_eq_map_conv)

subsection \<open>Sameness up to the order of properties\<close>

fun same_json :: "jsval \<Rightarrow> jsval \<Rightarrow> bool" where
  "same_json (JArr vs) w = (case w of JArr ws \<Rightarrow> list_all2 same_json vs ws | _ \<Rightarrow> False)"
| "same_json (JObj kvs) w =
     (case w of
        JObj kws \<Rightarrow> fst ` set kvs = fst ` set kws
          \<and> (\<forall>kv \<in> set kvs. \<forall>kw \<in> set kws. fst kv = fst kw \<longrightarrow> same_json (snd kv) (snd kw))
      | _ \<Rightarrow> False)"
| "same_json v w = (v = w)"

lemma own_order_set_unique:
  assumes "set xs = set ys" and "distinct (map fst xs)" and "distinct (map fst ys)"
  shows "own_order (sort_key fst xs) = own_order (sort_key fst ys)"
proof -
  have "sort_key fst xs = sort_key fst ys"
  proof (rule map_sorted_distinct_set_unique [where f = fst])
    show "inj_on fst (set (sort_key fst xs) \<union> set (sort_key fst ys))"
      using assms by (simp add: distinct_map)
  qed (use assms in simp_all)
  then show ?thesis by simp
qed

lemma same_json_sort_props:
  "canonical_ok v \<Longrightarrow> canonical_ok w \<Longrightarrow> same_json v w \<longleftrightarrow> sort_props v = sort_props w"
proof (induction v w rule: same_json.induct)
  case (1 vs w)
  show ?case
  proof (cases w)
    case (JArr ws)
    have "list_all2 same_json vs ws \<longleftrightarrow> list_all2 (\<lambda>v w. sort_props v = sort_props w) vs ws"
      using 1 JArr by (intro list.rel_cong_simp) (auto simp: list_all_iff list.pred_set)
    then show ?thesis using JArr by (simp add: list_all2_map_eq)
  qed simp_all
next
  case (2 kvs w)
  show ?case
  proof (cases w)
    case (JObj kws)
    let ?a = "map (\<lambda>(k, v). (k, sort_props v)) kvs" and ?b = "map (\<lambda>(k, v). (k, sort_props v)) kws"
    have d: "distinct (map fst ?a)" "distinct (map fst ?b)" using "2.prems" JObj by simp_all
    have step: "same_json (snd kv) (snd kw) \<longleftrightarrow> sort_props (snd kv) = sort_props (snd kw)"
      if "kv \<in> set kvs" "kw \<in> set kws" "fst kv = fst kw" for kv kw
      using 2 JObj that by (auto simp: list_all_iff case_prod_beta)
    have "same_json (JObj kvs) w \<longleftrightarrow> set ?a = set ?b"
    proof
      assume "same_json (JObj kvs) w"
      then have keys: "fst ` set kvs = fst ` set kws"
        and vals: "\<And>kv kw. kv \<in> set kvs \<Longrightarrow> kw \<in> set kws \<Longrightarrow> fst kv = fst kw \<Longrightarrow> sort_props (snd kv) = sort_props (snd kw)"
        using JObj step by auto
      show "set ?a = set ?b"
      proof (intro equalityI subsetI)
        fix e assume "e \<in> set ?a"
        then obtain kv where kv: "kv \<in> set kvs" "e = (fst kv, sort_props (snd kv))" by force
        have "fst kv \<in> fst ` set kws" using imageI [OF kv(1), of fst] keys by simp
        then obtain kw where kw: "kw \<in> set kws" "fst kv = fst kw" by blast
        have "e = (\<lambda>(k, v). (k, sort_props v)) kw"
          using vals [OF kv(1) kw] kv kw by (simp add: case_prod_beta)
        then show "e \<in> set ?b" using kw by simp
      next
        fix e assume "e \<in> set ?b"
        then obtain kw where kw: "kw \<in> set kws" "e = (fst kw, sort_props (snd kw))" by force
        have "fst kw \<in> fst ` set kvs" using imageI [OF kw(1), of fst] keys by simp
        then obtain kv where kv: "kv \<in> set kvs" "fst kv = fst kw" by force
        have "e = (\<lambda>(k, v). (k, sort_props v)) kv"
          using vals [OF kv(1) kw(1) kv(2)] kv kw by (simp add: case_prod_beta)
        then show "e \<in> set ?a" using kv by simp
      qed
    next
      assume eq: "set ?a = set ?b"
      have keys: "fst ` set kvs = fst ` set kws"
        using arg_cong [OF eq, of "image fst"] by (simp add: image_image case_prod_beta)
      have "sort_props (snd kv) = sort_props (snd kw)"
        if "kv \<in> set kvs" "kw \<in> set kws" "fst kv = fst kw" for kv kw
      proof -
        have "(\<lambda>(k, v). (k, sort_props v)) kv \<in> set ?a" using that(1) by simp
        then have 1: "(fst kv, sort_props (snd kv)) \<in> set ?b" unfolding eq by (simp only: case_prod_beta)
        have "(\<lambda>(k, v). (k, sort_props v)) kw \<in> set ?b" using that(2) by simp
        then have 2: "(fst kv, sort_props (snd kw)) \<in> set ?b" by (simp only: case_prod_beta that(3))
        from eq_key_imp_eq_value [OF d(2) 1 2] show ?thesis .
      qed
      with keys step JObj show "same_json (JObj kvs) w" by simp
    qed
    also have "\<dots> \<longleftrightarrow> sort_props (JObj kvs) = sort_props w"
    proof
      assume "set ?a = set ?b"
      then show "sort_props (JObj kvs) = sort_props w" using own_order_set_unique [OF _ d] JObj by simp
    next
      assume "sort_props (JObj kvs) = sort_props w"
      then have "set (own_order (sort_key fst ?a)) = set (own_order (sort_key fst ?b))" using JObj by simp
      then show "set ?a = set ?b" by simp
    qed
    finally show ?thesis .
  qed simp_all
qed (case_tac w; auto)+

text \<open>One canonical text per value, and different texts for different values.\<close>

lemma canonicalJson_ok: "canonical_ok v \<Longrightarrow> canonicalJson v = Inr (json (sort_props v))"
  by (simp add: canonicalJson_def canonicalValue_ok)

lemma canonicalJson_same_iff:
  assumes "canonical_ok v" and "canonical_ok w"
  shows "canonicalJson v = canonicalJson w \<longleftrightarrow> same_json v w"
  using assms json_inj [OF sort_props_plain sort_props_plain, of v w]
  by (auto simp: canonicalJson_ok same_json_sort_props)

lemma canonical_ok_sort_props: "canonical_ok v \<Longrightarrow> canonical_ok (sort_props v)"
proof (induction v rule: sort_props.induct)
  case (2 kvs)
  let ?m = "sort_key fst (map (\<lambda>(k, v). (k, sort_props v)) kvs)"
  have "distinct (map fst ?m)" using "2.prems" by (intro distinct_fst_sort_key) simp
  then show ?case using 2 by (auto simp: list_all_iff)
qed (auto simp: list_all_iff)

lemma sort_props_idem: "canonical_ok v \<Longrightarrow> sort_props (sort_props v) = sort_props v"
proof (induction v rule: sort_props.induct)
  case (2 kvs)
  let ?m = "map (\<lambda>(k, v). (k, sort_props v)) kvs"
  let ?o = "own_order (sort_key fst ?m)"
  have d: "distinct (map fst ?m)" using "2.prems" by simp
  have id: "map (\<lambda>(k, v). (k, sort_props v)) ?o = ?o"
    by (rule map_idI) (use 2 in \<open>auto simp: list_all_iff\<close>)
  have "own_order (sort_key fst ?o) = ?o"
  proof (rule own_order_set_unique [OF _ _ d])
    show "distinct (map fst ?o)" by (intro own_order_distinct distinct_fst_sort_key d)
  qed simp
  with id show ?case by (simp del: set_own_order)
qed (auto simp: list_all_iff)

lemma canonicalJson_parse:
  assumes "canonical_ok v" and "canonicalJson v = Inr t"
  shows "json_parse num t = Some (sort_props v)" and "canonicalJson (sort_props v) = Inr t"
  using assms json_parse_json [OF sort_props_plain, of v]
  by (auto simp: canonicalJson_ok canonical_ok_sort_props sort_props_idem)

end
