(* ===== verification/Spread.thy ===== *)
theory Spread
  imports Canonical_Json
begin

text \<open>
  The properties of \<open>{ ...a, ...b }\<close>: the last value wins. An object literal used as a table
  also answers to the names every object inherits.
\<close>

definition INHERITED :: "string list" where
  "INHERITED = [''constructor'', ''hasOwnProperty'', ''isPrototypeOf'', ''propertyIsEnumerable'', ''toLocaleString'', ''toString'', ''valueOf'',
     ''__defineGetter__'', ''__defineSetter__'', ''__lookupGetter__'', ''__lookupSetter__'', ''__proto__'']"

lemma map_of_fold_update:
  "map_of (fold (\<lambda>(k, v) m. AList.update k v m) kvs acc) = map_of acc ++ map_of (rev kvs)"
  by (induction kvs arbitrary: acc) (auto simp: update_conv' fun_eq_iff map_add_def split: option.split)

lemma map_of_own_order: "distinct (map fst kvs) \<Longrightarrow> map_of (own_order kvs) = map_of kvs"
  by (intro map_of_eqI) (auto simp: map_of_eq_Some_iff intro!: map_of_is_SomeI)

lemma prop_of_spread: "prop_of (spread vs) k = (case map_of (rev (concat (map props vs))) k of None \<Rightarrow> JUndef | Some v \<Rightarrow> v)"
proof -
  define m where "m = fold (\<lambda>(k, v) m. AList.update k v m) (concat (map props vs)) []"
  have "distinct (map fst m)" by (simp add: m_def distinct_fold_update)
  from map_of_own_order [OF this] show ?thesis
    by (simp add: spread_def prop_of_def from_entries_def m_def [symmetric]) (simp add: m_def map_of_fold_update)
qed

end
