(* ===== verification/Profile_Publication.thy ===== *)
theory Profile_Publication
  imports Profile_Registry Http_Client Spread
begin

text \<open>
  \<open>packages/explorer-state/src/profile-publication.mjs\<close>: independently published status documents,
  one per profile, sealed by a digest of their content, and the registry composed from them. Web
  Crypto's SHA-256 is the parameter \<open>digest\<close>; the network answers are inputs.
\<close>

definition PUBLICATION_SCHEMA :: string where "PUBLICATION_SCHEMA = ''eacl-demo.profile-publication.v1''"
definition PUBLICATION_SCHEMA_PATH :: string where "PUBLICATION_SCHEMA_PATH = ''../../schemas/profile-publication.v1.schema.json''"
definition MAXIMUM_PUBLICATION_BYTES :: int where "MAXIMUM_PUBLICATION_BYTES = 65536"
definition FALLBACK_REASON :: string where
  "FALLBACK_REASON = ''The current independently published profile status could not be verified, so this profile is not selectable.''"

definition publicationKeys :: "jsval \<Rightarrow> string list \<Rightarrow> js_error + unit" where
  "publicationKeys v ks = throw_if (\<not> exact_keys v ks) (Coded ''publication-contract-invalid'') (Inr ())"

definition publication_json :: "jsval \<Rightarrow> js_error + string" where
  "publication_json v = (case canonical_text v of None \<Rightarrow> Inl (Coded ''publication-contract-invalid'') | Some t \<Rightarrow> Inr t)"

subsection \<open>Validation\<close>

definition validatePublicationGate :: "jsval \<Rightarrow> js_error + unit" where
  "validatePublicationGate gate =
     bind_r (publicationKeys gate [''kind'', ''evidenceId'']) (\<lambda>_.
     if prop_of gate ''kind'' = JStr ''failure-outcome''
     then reject_with [differs (prop_of gate ''evidenceId'') JNull] (Coded ''publication-gate-invalid'')
     else reject_with [Inr (\<not> member_of [''initial-qualification'', ''merge-smoke'', ''demo-smoke''] (prop_of gate ''kind'')),
         mismatch sha256_ref (prop_of gate ''evidenceId'')] (Coded ''publication-gate-invalid''))"

definition predates :: "(string \<Rightarrow> int option) \<Rightarrow> int \<Rightarrow> jsval \<Rightarrow> js_error + bool" where
  "predates engine timestamp earlier = bind_r (date_r engine earlier) (\<lambda>t. Inr (case t of None \<Rightarrow> False | Some n \<Rightarrow> timestamp < n))"

definition validatePublicationTime :: "(string \<Rightarrow> int option) \<Rightarrow> jsval \<Rightarrow> jsval \<Rightarrow> int option \<Rightarrow> js_error + unit" where
  "validatePublicationTime engine publishedAt profile now =
     bind_r (date_r engine publishedAt) (\<lambda>t.
     case (is_string publishedAt, t) of
       (True, Some timestamp) \<Rightarrow>
         bind_r (reject_with [Inr (case now of None \<Rightarrow> True | Some n \<Rightarrow> n + 300000 < timestamp)] (Coded ''publication-time-invalid'')) (\<lambda>_.
         bind_r (get_r (prop_of profile ''lastOutcome'') ''at'') (\<lambda>outcomeAt.
         guards (map (\<lambda>earlier. reject_with [predates engine timestamp earlier] (Coded ''publication-time-invalid''))
           (filter truthy [prop_of (prop_of profile ''deployment'') ''deployedAt'', outcomeAt]))))
     | _ \<Rightarrow> Inl (Coded ''publication-time-invalid''))"

definition PUBLICATION_KEYS :: "string list" where
  "PUBLICATION_KEYS = [''$schema'', ''schema'', ''contractVersion'', ''publicationId'', ''publishedAt'', ''gate'', ''profile'']"

definition validateProfilePublication :: "(string \<Rightarrow> int option) \<Rightarrow> jsval \<Rightarrow> jsval \<Rightarrow> jsval \<Rightarrow> int option \<Rightarrow> js_error + jsval" where
  "validateProfilePublication engine publication dfn expected now =
     (let p = prop_of publication; profile = prop_of (p ''profile'') in
      bind_r (guards [
        publicationKeys publication PUBLICATION_KEYS,
        reject_with [differs (p ''$schema'') (JStr PUBLICATION_SCHEMA_PATH), differs (p ''schema'') (JStr PUBLICATION_SCHEMA),
          differs (p ''contractVersion'') (JStr ''explorer.v1'')] (Coded ''publication-contract-invalid''),
        reject_with [mismatch sha256_ref (p ''publicationId'')] (Coded ''publication-digest-invalid''),
        validatePublicationGate (p ''gate''),
        bind_r (validateProfileEntry engine (p ''profile'') dfn) (\<lambda>_. Inr ()),
        reject_with [Inr (\<not> truthy expected), differs (profile ''id'') (prop_of expected ''id''), differs (profile ''backend'') (prop_of expected ''backend''),
          differs (profile ''storage'') (prop_of expected ''storage''), differs (profile ''route'') (prop_of expected ''route'')]
          (Coded ''publication-identity-mismatch''),
        validatePublicationTime engine (p ''publishedAt'') (p ''profile'') now]) (\<lambda>_. Inr publication))"

definition unsigned_publication :: "jsval \<Rightarrow> jsval" where
  "unsigned_publication publication = JObj (filter (\<lambda>(k, _). k \<noteq> ''publicationId'') (props publication))"

definition publication_id :: "(nat list \<Rightarrow> nat list) \<Rightarrow> jsval \<Rightarrow> js_error + string" where
  "publication_id digest unsealed =
     bind_r (publication_json unsealed) (\<lambda>t. bind_r (jsonPayloadSha256 digest (JStr t)) (\<lambda>h. Inr (''sha256:'' @ h)))"

definition verifyProfilePublication ::
    "(string \<Rightarrow> int option) \<Rightarrow> (nat list \<Rightarrow> nat list) \<Rightarrow> jsval \<Rightarrow> jsval \<Rightarrow> jsval \<Rightarrow> int option \<Rightarrow> js_error + jsval" where
  "verifyProfilePublication engine digest publication dfn expected now =
     bind_r (validateProfilePublication engine publication dfn expected now) (\<lambda>_.
     bind_r (publication_id digest (unsigned_publication publication)) (\<lambda>i.
     throw_if (prop_of publication ''publicationId'' \<noteq> JStr i) (Coded ''publication-digest-mismatch'') (Inr publication)))"

definition createProfilePublication ::
    "(string \<Rightarrow> int option) \<Rightarrow> (nat list \<Rightarrow> nat list) \<Rightarrow> jsval \<Rightarrow> jsval \<Rightarrow> jsval \<Rightarrow> jsval \<Rightarrow> int option \<Rightarrow> js_error + jsval" where
  "createProfilePublication engine digest profile dfn publishedAt gate now =
     bind_r (validateProfileEntry engine profile dfn) (\<lambda>_.
     bind_r (validatePublicationTime engine publishedAt profile now) (\<lambda>_.
     bind_r (validatePublicationGate gate) (\<lambda>_.
     let unsealed = JObj [(''$schema'', JStr PUBLICATION_SCHEMA_PATH), (''schema'', JStr PUBLICATION_SCHEMA), (''contractVersion'', JStr ''explorer.v1''),
       (''publishedAt'', publishedAt), (''gate'', gate), (''profile'', profile)] in
     bind_r (publication_id digest unsealed) (\<lambda>i. Inr (JObj (props unsealed @ [(''publicationId'', JStr i)]))))))"

subsection \<open>Registries\<close>

definition NEVER_DEPLOYED :: jsval where
  "NEVER_DEPLOYED = JObj [(''outcome'', JStr ''never-deployed''), (''attemptedDemoSha'', JNull), (''attemptedEaclSha'', JNull), (''artifactSha256'', JNull),
     (''at'', JNull), (''message'', JStr ''No consolidated candidate has been deployed.'')]"

definition base_profile :: "jsval \<Rightarrow> js_error + jsval" where
  "base_profile dfn = bind_r (canonicalProfileRoute (prop_of dfn ''id'')) (\<lambda>route.
     Inr (JObj [(''id'', prop_of dfn ''id''), (''backend'', prop_of dfn ''backend''), (''storage'', prop_of dfn ''storage''), (''state'', JStr ''unavailable''),
       (''reason'', JStr FALLBACK_REASON), (''route'', JStr route), (''deployment'', JNull), (''lastOutcome'', NEVER_DEPLOYED)]))"

definition createBaseRegistry :: "(string \<Rightarrow> int option) \<Rightarrow> js_engine \<Rightarrow> (string \<Rightarrow> string) \<Rightarrow> jsval \<Rightarrow> int option \<Rightarrow> js_error + jsval" where
  "createBaseRegistry engine js collate dfns now =
     bind_r (mapM_r base_profile (items (prop_of dfns ''profiles''))) (\<lambda>profiles.
     bind_r (deriveStorageDefaults engine js collate profiles dfns [] now) (\<lambda>defaults.
     validateProfileRegistry engine js collate (JObj [(''$schema'', JStr ''../schemas/profile-registry.v1.schema.json''),
       (''schema'', JStr ''eacl-demo.profile-registry.v1''), (''contractVersion'', JStr ''explorer.v1''), (''benchmarkEvidence'', JArr []),
       (''storageDefaults'', JArr defaults), (''profiles'', JArr profiles)]) dfns [] now))"

definition failClosedProfile :: "jsval \<Rightarrow> jsval" where
  "failClosedProfile profile = spread [profile, JObj [(''state'', JStr ''unavailable''), (''reason'', JStr FALLBACK_REASON)]]"

definition createFailClosedRegistry ::
    "(string \<Rightarrow> int option) \<Rightarrow> js_engine \<Rightarrow> (string \<Rightarrow> string) \<Rightarrow> jsval \<Rightarrow> jsval \<Rightarrow> jsval list \<Rightarrow> int option \<Rightarrow> js_error + jsval" where
  "createFailClosedRegistry engine js collate base dfns records now =
     bind_r (validateProfileRegistry engine js collate base dfns [] now) (\<lambda>_.
     let profiles = map failClosedProfile (items (prop_of base ''profiles'')) in
     bind_r (deriveStorageDefaults engine js collate profiles dfns records now) (\<lambda>defaults.
     validateProfileRegistry engine js collate
       (spread [base, JObj [(''benchmarkEvidence'', JArr (sort_summaries collate (map evidenceSummary records))), (''storageDefaults'', JArr defaults),
         (''profiles'', JArr profiles)]]) dfns records now))"

type_synonym failure = "jsval \<times> string"

definition publication_profile_id :: "jsval \<Rightarrow> jsval" where
  \<comment> \<open>\<open>publication?.profile?.id\<close>\<close>
  "publication_profile_id publication = prop_of (prop_of publication ''profile'') ''id''"

definition matching :: "jsval list \<Rightarrow> jsval \<Rightarrow> jsval list" where
  "matching publications i = filter (\<lambda>p. same_key (publication_profile_id p) i) publications"

definition error_code :: "js_error \<Rightarrow> string \<Rightarrow> string" where
  \<comment> \<open>\<open>error?.code ?? fallback\<close>\<close>
  "error_code e fallback = (case e of Coded c \<Rightarrow> c | _ \<Rightarrow> fallback)"

definition composed_profile ::
    "(string \<Rightarrow> int option) \<Rightarrow> (nat list \<Rightarrow> nat list) \<Rightarrow> jsval list \<Rightarrow> (jsval \<times> jsval) list \<Rightarrow> (jsval \<times> jsval) list \<Rightarrow> int option \<Rightarrow> jsval \<Rightarrow> jsval \<times> failure list" where
  "composed_profile engine digest publications dfns expected now fallback =
     (let i = prop_of fallback ''id''; found = (\<lambda>m. case entry_of m i of None \<Rightarrow> JUndef | Some v \<Rightarrow> v) in
      case matching publications i of
        [] \<Rightarrow> (fallback, [(i, ''publication-missing'')])
      | [publication] \<Rightarrow>
          (case verifyProfilePublication engine digest publication (found dfns) (found expected) now of
             Inr verified \<Rightarrow> (prop_of verified ''profile'', [])
           | Inl e \<Rightarrow> (fallback, [(i, error_code e ''publication-invalid'')]))
      | _ \<Rightarrow> (fallback, [(i, ''publication-duplicate'')]))"

definition composeProfileRegistry ::
    "(string \<Rightarrow> int option) \<Rightarrow> js_engine \<Rightarrow> (string \<Rightarrow> string) \<Rightarrow> (nat list \<Rightarrow> nat list) \<Rightarrow> jsval \<Rightarrow> jsval \<Rightarrow> jsval list \<Rightarrow> jsval list \<Rightarrow> int option
      \<Rightarrow> js_error + (jsval \<times> failure list)" where
  "composeProfileRegistry engine js collate digest base dfns publications records now =
     bind_r (createFailClosedRegistry engine js collate base dfns records now) (\<lambda>registry.
     let definitions = map_by_id (items (prop_of dfns ''profiles'')); expected = map_by_id (items (prop_of base ''profiles''));
         unknown = map (\<lambda>p. (nullish_or (publication_profile_id p) JNull, ''publication-identity-mismatch''))
           (filter (\<lambda>p. entry_of definitions (publication_profile_id p) = None) publications);
         composed = map (composed_profile engine digest publications definitions expected now) (items (prop_of registry ''profiles''));
         profiles = map fst composed in
     bind_r (deriveStorageDefaults engine js collate profiles dfns records now) (\<lambda>defaults.
     let result = spread [registry, JObj [(''profiles'', JArr profiles), (''storageDefaults'', JArr defaults)]] in
     bind_r (validateProfileRegistry engine js collate result dfns records now) (\<lambda>_.
     Inr (result, unknown @ concat (map snd composed)))))"

subsection \<open>Loading\<close>

text \<open>
  One request as the environment answers it: the response or the rejection of \<open>fetch\<close>, whether the
  request's own controller was aborted when an error was caught, and whether the caller's signal was.
  A parsed URL is a record; resolving a path against it is the parameter \<open>resolve\<close>.
\<close>

record publication_response =
  response_ok :: bool
  response_status :: jsval
  response_redirected :: jsval
  response_url :: jsval
  content_type :: jsval
  payload_response :: http_response

record fetch_answer =
  fetched :: "js_error + publication_response"
  controller_aborted :: bool
  caller_aborted :: bool

record url_parts =
  url_origin :: string
  url_protocol :: string
  url_hostname :: string

definition JSON_TYPE :: regex where
  \<comment> \<open>\<open>/^application\/(?:json|[a-z0-9.+-]+\+json)(?:\s*;|$)/iu\<close>, on the text in lower case\<close>
  "JSON_TYPE = cats [lit ''application/'', Either (lit ''json'') (Cat (plus_of (cls ''az09'' ''.+-'')) (lit ''+json'')),
     Either Empty (cats [star (Chars is_space), lit '';'', star (Chars (\<lambda>_. True))])]"

definition json_type :: "jsval \<Rightarrow> js_error + bool" where
  "json_type v = bind_r (text_r (nullish_or v (JStr []))) (\<lambda>t. Inr (matches JSON_TYPE (to_lower t)))"

definition response_guards :: "string \<Rightarrow> string \<Rightarrow> publication_response \<Rightarrow> js_error + unit" where
  \<comment> \<open>the checks on a response, whose codes start with \<open>kind\<close>\<close>
  "response_guards kind href r = guards [
     reject_with [Inr (\<not> response_ok r), differs (response_status r) (JInt 200)] (Coded (kind @ ''-http-failed'')),
     reject_with [Inr (response_redirected r = JBool True), Inr (str_satisfies (\<lambda>u. u \<noteq> [] \<and> u \<noteq> href) (response_url r))] (Coded (kind @ ''-redirected'')),
     bind_r (json_type (content_type r)) (\<lambda>ok. throw_if (\<not> ok) (Coded (kind @ ''-content-type-invalid'')) (Inr ()))]"

definition abort_code :: "string \<Rightarrow> fetch_answer \<Rightarrow> js_error \<Rightarrow> js_error" where
  "abort_code kind answer e =
     (if controller_aborted answer \<and> \<not> caller_aborted answer then Coded (kind @ ''-timeout'')
      else if controller_aborted answer then Coded (kind @ ''-cancelled'') else e)"

definition fetchPublication ::
    "'d text_stream \<Rightarrow> (string \<Rightarrow> jsval) \<Rightarrow> string \<Rightarrow> int \<Rightarrow> fetch_answer \<Rightarrow> js_error + jsval" where
  "fetchPublication d num href maximumBytes answer =
     (case bind_r (fetched answer) (\<lambda>r. bind_r (response_guards ''publication'' href r) (\<lambda>_.
         readBoundedJsonResponse d num (JInt maximumBytes) (payload_response r))) of
        Inr v \<Rightarrow> Inr v
      | Inl e \<Rightarrow> Inl (abort_code ''publication'' answer e))"

definition validatePublicationOrigin :: "string \<Rightarrow> url_parts \<Rightarrow> string option \<Rightarrow> js_error + url_parts" where
  "validatePublicationOrigin kind url browserOrigin =
     throw_if (case browserOrigin of None \<Rightarrow> False | Some b \<Rightarrow> b \<noteq> [] \<and> url_origin url \<noteq> b) (Coded (kind @ ''-origin-invalid''))
     (throw_if (url_protocol url \<noteq> ''https:''
        \<and> \<not> (url_protocol url = ''http:'' \<and> url_hostname url \<in> {''localhost'', ''127.0.0.1'', ''::1''})) (Coded (kind @ ''-origin-invalid'')) (Inr url))"

definition publication_path :: "string \<Rightarrow> string" where
  "publication_path i = ''/registry/profiles/'' @ i @ ''.json''"

definition load_limits :: "bool \<Rightarrow> jsval \<Rightarrow> jsval \<Rightarrow> js_error + unit" where
  "load_limits has_fetch timeoutMs maximumBytes =
     throw_if (\<not> has_fetch) Type_Error
     (throw_if (\<not> safe_int_between 100 30000 timeoutMs) (Error ''profile publication timeout must be 100..30000 milliseconds'')
     (throw_if (\<not> safe_int_between 1 MAXIMUM_PUBLICATION_BYTES maximumBytes) (Error ''profile publication limit must be 1..65536 bytes'') (Inr ())))"

definition loaded_publication ::
    "(string \<Rightarrow> int option) \<Rightarrow> (nat list \<Rightarrow> nat list) \<Rightarrow> 'd text_stream \<Rightarrow> (string \<Rightarrow> jsval) \<Rightarrow> (string \<Rightarrow> string) \<Rightarrow> (string \<Rightarrow> fetch_answer)
      \<Rightarrow> jsval \<Rightarrow> jsval \<Rightarrow> jsval \<Rightarrow> int \<Rightarrow> int option \<Rightarrow> js_error + jsval" where
  "loaded_publication engine digest d num resolve network i dfn expected maximumBytes now =
     (let href = resolve (publication_path (the_text i)) in
      bind_r (fetchPublication d num href maximumBytes (network href)) (\<lambda>publication.
      verifyProfilePublication engine digest publication dfn expected now))"

definition found_or_undefined :: "(jsval \<times> jsval) list \<Rightarrow> jsval \<Rightarrow> jsval" where
  "found_or_undefined m i = (case entry_of m i of None \<Rightarrow> JUndef | Some v \<Rightarrow> v)"

definition loadProfilePublications ::
    "(string \<Rightarrow> int option) \<Rightarrow> js_engine \<Rightarrow> (string \<Rightarrow> string) \<Rightarrow> (nat list \<Rightarrow> nat list) \<Rightarrow> 'd text_stream \<Rightarrow> (string \<Rightarrow> jsval)
      \<Rightarrow> (string \<Rightarrow> string) \<Rightarrow> (string \<Rightarrow> fetch_answer) \<Rightarrow> bool \<Rightarrow> jsval \<Rightarrow> jsval \<Rightarrow> url_parts \<Rightarrow> string option \<Rightarrow> jsval \<Rightarrow> jsval
      \<Rightarrow> int option \<Rightarrow> js_error + (jsval list \<times> failure list)" where
  "loadProfilePublications engine js collate digest d num resolve network has_fetch timeoutMs maximumBytes url browserOrigin dfns base now =
     bind_r (load_limits has_fetch timeoutMs maximumBytes) (\<lambda>_.
     bind_r (validateProfileRegistry engine js collate base dfns [] now) (\<lambda>_.
     bind_r (validatePublicationOrigin ''publication'' url browserOrigin) (\<lambda>_.
     let definitions = map_by_id (items (prop_of dfns ''profiles'')); expected = map_by_id (items (prop_of base ''profiles''));
         outcomes = map (\<lambda>dfn. let i = prop_of dfn ''id'' in
           (i, loaded_publication engine digest d num resolve network i (found_or_undefined definitions i) (found_or_undefined expected i)
             (the_int maximumBytes) now)) (items (prop_of dfns ''profiles'')) in
     Inr (concat (map (\<lambda>(i, r). case r of Inr p \<Rightarrow> [p] | Inl e \<Rightarrow> []) outcomes),
          concat (map (\<lambda>(i, r). case r of Inr p \<Rightarrow> []
            | Inl e \<Rightarrow> [(i, error_code e (if caller_aborted (network (resolve (publication_path (the_text i)))) then ''publication-cancelled'' else ''publication-fetch-failed''))])
            outcomes)))))"

definition loadProfilePublication ::
    "(string \<Rightarrow> int option) \<Rightarrow> js_engine \<Rightarrow> (string \<Rightarrow> string) \<Rightarrow> (nat list \<Rightarrow> nat list) \<Rightarrow> 'd text_stream \<Rightarrow> (string \<Rightarrow> jsval)
      \<Rightarrow> (string \<Rightarrow> string) \<Rightarrow> (string \<Rightarrow> fetch_answer) \<Rightarrow> bool \<Rightarrow> jsval \<Rightarrow> jsval \<Rightarrow> url_parts \<Rightarrow> string option \<Rightarrow> jsval \<Rightarrow> jsval
      \<Rightarrow> jsval \<Rightarrow> int option \<Rightarrow> js_error + jsval" where
  "loadProfilePublication engine js collate digest d num resolve network has_fetch timeoutMs maximumBytes url browserOrigin i dfns base now =
     bind_r (load_limits has_fetch timeoutMs maximumBytes) (\<lambda>_.
     bind_r (validateProfileRegistry engine js collate base dfns [] now) (\<lambda>_.
     let by_id = (\<lambda>vs. find (\<lambda>v. strict_eq (prop_of v ''id'') i) vs) in
     case (by_id (items (prop_of base ''profiles'')), by_id (items (prop_of dfns ''profiles''))) of
       (Some expected, Some dfn) \<Rightarrow>
         bind_r (validatePublicationOrigin ''publication'' url browserOrigin) (\<lambda>_.
         loaded_publication engine digest d num resolve network i dfn expected (the_int maximumBytes) now)
     | _ \<Rightarrow> Inl (Coded ''publication-identity-mismatch'')))"

subsection \<open>Fail closed\<close>

lemma failClosed_unavailable: "prop_of (failClosedProfile p) ''state'' = JStr ''unavailable''"
  by (simp add: failClosedProfile_def prop_of_spread)

lemma validateProfileRegistry_returns: "validateProfileRegistry engine js collate registry dfns records now = Inr r \<Longrightarrow> r = registry"
  by (auto simp: validateProfileRegistry_def Let_def)

lemma failClosed_registry:
  assumes "createFailClosedRegistry engine js collate base dfns records now = Inr registry"
  shows "items (prop_of registry ''profiles'') = map failClosedProfile (items (prop_of base ''profiles''))"
  using assms by (auto simp: createFailClosedRegistry_def Let_def prop_of_spread dest!: validateProfileRegistry_returns)

definition entry_follows ::
    "(string \<Rightarrow> int option) \<Rightarrow> (nat list \<Rightarrow> nat list) \<Rightarrow> jsval list \<Rightarrow> (jsval \<times> jsval) list \<Rightarrow> (jsval \<times> jsval) list \<Rightarrow> int option
      \<Rightarrow> failure list \<Rightarrow> jsval \<Rightarrow> jsval \<Rightarrow> bool" where
  "entry_follows engine digest publications dfns expected now failures b p =
     (let i = prop_of (failClosedProfile b) ''id'';
          closed = (\<lambda>reason. p = failClosedProfile b \<and> prop_of p ''state'' = JStr ''unavailable'' \<and> (i, reason) \<in> set failures) in
      case matching publications i of
        [] \<Rightarrow> closed ''publication-missing''
      | [publication] \<Rightarrow>
          (case verifyProfilePublication engine digest publication (found_or_undefined dfns i) (found_or_undefined expected i) now of
             Inr verified \<Rightarrow> verified = publication \<and> p = prop_of publication ''profile''
               \<and> publication_id digest (unsigned_publication publication) = Inr (the_str (prop_of publication ''publicationId''))
           | Inl e \<Rightarrow> closed (error_code e ''publication-invalid''))
      | _ \<Rightarrow> closed ''publication-duplicate'')"

lemma verified_is_sealed:
  assumes "verifyProfilePublication engine digest publication d e now = Inr verified"
  shows "verified = publication" "publication_id digest (unsigned_publication publication) = Inr (the_str (prop_of publication ''publicationId''))"
  using assms by (auto simp: verifyProfilePublication_def split: if_splits)

lemma composed_entry_follows:
  assumes "set (snd (composed_profile engine digest publications dfns expected now (failClosedProfile b))) \<subseteq> set failures"
  shows "entry_follows engine digest publications dfns expected now failures b
           (fst (composed_profile engine digest publications dfns expected now (failClosedProfile b)))"
proof (cases "matching publications (prop_of (failClosedProfile b) ''id'')")
  case Nil
  then show ?thesis using assms by (simp add: entry_follows_def composed_profile_def failClosed_unavailable)
next
  case (Cons publication rest)
  then show ?thesis using assms
    by (cases rest; cases "verifyProfilePublication engine digest publication
          (found_or_undefined dfns (prop_of (failClosedProfile b) ''id'')) (found_or_undefined expected (prop_of (failClosedProfile b) ''id'')) now")
       (auto simp: entry_follows_def composed_profile_def found_or_undefined_def failClosed_unavailable dest: verified_is_sealed)
qed

text \<open>
  C27 A composed registry fails closed. It has one entry for each profile of the base registry: the
  profile of the one publication for it, when that was verified against the catalogue and is sealed
  by the digest of its own content, and otherwise the unavailable copy of the base profile, which is
  then named among the failures with the reason.
\<close>

theorem composed_registry_fails_closed:
  "case composeProfileRegistry engine js collate digest base dfns publications records now of
     Inl e \<Rightarrow> True
   | Inr (registry, failures) \<Rightarrow>
       list_all2 (entry_follows engine digest publications (map_by_id (items (prop_of dfns ''profiles'')))
           (map_by_id (items (prop_of base ''profiles''))) now failures)
         (items (prop_of base ''profiles'')) (items (prop_of registry ''profiles''))"
proof (cases "composeProfileRegistry engine js collate digest base dfns publications records now")
  case (Inr r)
  define defs expected where "defs = map_by_id (items (prop_of dfns ''profiles''))" and "expected = map_by_id (items (prop_of base ''profiles''))"
  let ?c = "composed_profile engine digest publications defs expected now"
  obtain fallback registry failures where closed: "createFailClosedRegistry engine js collate base dfns records now = Inr fallback"
    and r: "r = (registry, failures)"
    and profiles: "items (prop_of registry ''profiles'') = map fst (map ?c (items (prop_of fallback ''profiles'')))"
    and fails: "set (concat (map snd (map ?c (items (prop_of fallback ''profiles''))))) \<subseteq> set failures"
    using Inr by (auto simp: composeProfileRegistry_def Let_def prop_of_spread defs_def expected_def)
  have "set (snd (?c (failClosedProfile b))) \<subseteq> set failures" if "b \<in> set (items (prop_of base ''profiles''))" for b
    using fails that unfolding failClosed_registry [OF closed] by auto
  then show ?thesis
    unfolding Inr r sum.case prod.case profiles failClosed_registry [OF closed] map_map defs_def [symmetric] expected_def [symmetric]
    by (simp add: list_all2_map2 list_all2_same composed_entry_follows)
qed simp

end
