(* ===== verification/Benchmark_Publication.thy ===== *)
theory Benchmark_Publication
  imports Profile_Publication
begin

text \<open>
  \<open>packages/explorer-state/src/benchmark-publication.mjs\<close>: the published index of benchmark
  evidence, sealed by a digest of its content, and the bounded loader of the evidence files it
  names. The parameters are those of the profile publications: the engine's date formats, the rounding of
  a division, \<open>localeCompare\<close>, Web Crypto's SHA-256, the decoder, and the network's answers.
\<close>

definition INDEX_SCHEMA_PATH :: string where "INDEX_SCHEMA_PATH = ''../../schemas/benchmark-evidence-index.v1.schema.json''"

definition EVIDENCE_PATH :: regex where
  "EVIDENCE_PATH = cats [lit ''registry/benchmark-evidence/'', cls ''az09'' [], star (cls ''az09'' ''._-''), lit ''.json'']"

definition MAXIMUM_INDEX_BYTES :: int where "MAXIMUM_INDEX_BYTES = 65536"
definition MAXIMUM_EVIDENCE_BYTES :: int where "MAXIMUM_EVIDENCE_BYTES = 262144"

abbreviation index_invalid :: js_error where "index_invalid \<equiv> Coded ''benchmark-index-invalid''"

definition index_keys :: "jsval \<Rightarrow> string list \<Rightarrow> js_error + unit" where
  "index_keys v ks = throw_if (\<not> exact_keys v ks) index_invalid (Inr ())"

definition index_json :: "jsval \<Rightarrow> js_error + string" where
  "index_json v = (case canonical_text v of None \<Rightarrow> Inl index_invalid | Some t \<Rightarrow> Inr t)"

subsection \<open>Validation\<close>

definition validateIndexTime :: "(string \<Rightarrow> int option) \<Rightarrow> jsval \<Rightarrow> int option \<Rightarrow> js_error + unit" where
  "validateIndexTime engine publishedAt now =
     bind_r (date_r engine publishedAt) (\<lambda>t.
     throw_if (case (t, now) of (Some timestamp, Some current) \<Rightarrow> current + 300000 < timestamp | _ \<Rightarrow> True)
       (Coded ''benchmark-index-time-invalid'') (Inr ()))"

definition ends_r :: "string \<Rightarrow> jsval \<Rightarrow> js_error + bool" where
  "ends_r suffix v = (case v of JStr s \<Rightarrow> Inr (ends_with suffix s) | _ \<Rightarrow> Inl Type_Error)"

fun distinct_values :: "jsval list \<Rightarrow> bool" where
  \<comment> \<open>\<open>new Set(vs).size === vs.length\<close>\<close>
  "distinct_values [] = True"
| "distinct_values (v # vs) = (\<not> list_ex (same_key v) vs \<and> distinct_values vs)"

definition not_after :: "(string \<Rightarrow> int option) \<Rightarrow> jsval \<Rightarrow> jsval \<Rightarrow> js_error + bool" where
  \<comment> \<open>\<open>Date.parse(later) <= Date.parse(earlier)\<close>\<close>
  "not_after engine later earlier =
     bind_r (date_r engine later) (\<lambda>l. bind_r (date_r engine earlier) (\<lambda>e.
       Inr (case (l, e) of (Some m, Some n) \<Rightarrow> m \<le> n | _ \<Rightarrow> False)))"

definition validateSummary :: "(string \<Rightarrow> int option) \<Rightarrow> jsval \<Rightarrow> js_error + unit" where
  "validateSummary engine v =
     (let p = prop_of v in
      bind_r (index_keys v [''evidenceId'', ''backend'', ''profiles'', ''measuredAt'', ''expiresAt'', ''path'', ''sha256'']) (\<lambda>_.
      reject_with [
        mismatch sha256_ref (p ''evidenceId''),
        Inr (\<not> member_of [''datahike'', ''datomic'', ''datalevin'', ''jank'', ''datascript''] (p ''backend'')),
        Inr (case p ''profiles'' of JArr vs \<Rightarrow> length vs < 2 \<or> \<not> distinct_values vs | _ \<Rightarrow> True),
        mismatch (matches EVIDENCE_PATH) (p ''path''),
        ends_r ''/index.v1.json'' (p ''path''),
        mismatch (lower_hex 64) (p ''sha256''),
        no_date engine (p ''measuredAt''),
        no_date engine (p ''expiresAt''),
        not_after engine (p ''expiresAt'') (p ''measuredAt'')] index_invalid))"

definition validateUniqueSummaries :: "jsval list \<Rightarrow> js_error + unit" where
  "validateUniqueSummaries vs =
     throw_if (\<not> distinct_values (map (\<lambda>v. prop_of v ''evidenceId'') vs) \<or> \<not> distinct_values (map (\<lambda>v. prop_of v ''path'') vs)) index_invalid (Inr ())"

definition validateEvidenceRecord :: "(string \<Rightarrow> int option) \<Rightarrow> js_engine \<Rightarrow> (string \<Rightarrow> string) \<Rightarrow> jsval \<Rightarrow> js_error + jsval" where
  "validateEvidenceRecord engine js collate record =
     bind_r (reject_with [Inr (\<not> truthy record), Inr (\<not> truthy (prop_of record ''evidence'')), Inr (\<not> is_string (prop_of record ''path'')),
        mismatch (lower_hex 64) (prop_of record ''sha256'')] (Coded ''benchmark-evidence-invalid'')) (\<lambda>_.
     bind_r (validateFastestEvidence engine js collate (prop_of record ''evidence'')) (\<lambda>_.
     bind_r (reject_with [mismatch (matches EVIDENCE_PATH) (prop_of record ''path''), ends_r ''/index.v1.json'' (prop_of record ''path'')]
        (Coded ''benchmark-evidence-invalid'')) (\<lambda>_. Inr record)))"

definition measured_later :: "(string \<Rightarrow> int option) \<Rightarrow> jsval list \<Rightarrow> jsval \<Rightarrow> js_error + bool" where
  "measured_later engine summaries publishedAt =
     any_r (map (\<lambda>s. bind_r (date_r engine (prop_of s ''measuredAt'')) (\<lambda>m. bind_r (date_r engine publishedAt) (\<lambda>t.
       Inr (case (m, t) of (Some a, Some b) \<Rightarrow> b < a | _ \<Rightarrow> False)))) summaries)"

subsection \<open>The index\<close>

definition index_id :: "(nat list \<Rightarrow> nat list) \<Rightarrow> jsval \<Rightarrow> js_error + string" where
  "index_id digest unsealed =
     bind_r (index_json unsealed) (\<lambda>t. bind_r (jsonPayloadSha256 digest (JStr t)) (\<lambda>h. Inr (''sha256:'' @ h)))"

definition createBenchmarkEvidenceIndex ::
    "(string \<Rightarrow> int option) \<Rightarrow> js_engine \<Rightarrow> (string \<Rightarrow> string) \<Rightarrow> (nat list \<Rightarrow> nat list) \<Rightarrow> jsval list \<Rightarrow> jsval \<Rightarrow> int option \<Rightarrow> js_error + jsval" where
  "createBenchmarkEvidenceIndex engine js collate digest records publishedAt now =
     bind_r (validateIndexTime engine publishedAt now) (\<lambda>_.
     bind_r (mapM_r (validateEvidenceRecord engine js collate) records) (\<lambda>valid.
     let evidence = sort_summaries collate (map evidenceSummary valid) in
     bind_r (validateUniqueSummaries evidence) (\<lambda>_.
     bind_r (reject_with [measured_later engine evidence publishedAt] (Coded ''benchmark-index-time-invalid'')) (\<lambda>_.
     let unsealed = JObj [(''$schema'', JStr INDEX_SCHEMA_PATH), (''schema'', JStr ''eacl-demo.benchmark-evidence-index.v1''),
       (''contractVersion'', JStr ''explorer.v1''), (''publishedAt'', publishedAt), (''evidence'', JArr evidence)] in
     bind_r (index_id digest unsealed) (\<lambda>i. Inr (JObj (props unsealed @ [(''indexId'', JStr i)])))))))"

definition INDEX_KEYS :: "string list" where
  "INDEX_KEYS = [''$schema'', ''schema'', ''contractVersion'', ''indexId'', ''publishedAt'', ''evidence'']"

definition unsigned_index :: "jsval \<Rightarrow> jsval" where
  "unsigned_index index = JObj (filter (\<lambda>(k, _). k \<noteq> ''indexId'') (props index))"

definition verifyBenchmarkEvidenceIndex ::
    "(string \<Rightarrow> int option) \<Rightarrow> (nat list \<Rightarrow> nat list) \<Rightarrow> jsval \<Rightarrow> int option \<Rightarrow> js_error + jsval" where
  "verifyBenchmarkEvidenceIndex engine digest index now =
     (let p = prop_of index; evidence = items (p ''evidence'') in
      bind_r (guards [
        index_keys index INDEX_KEYS,
        reject_with [differs (p ''$schema'') (JStr INDEX_SCHEMA_PATH), differs (p ''schema'') (JStr ''eacl-demo.benchmark-evidence-index.v1''),
          differs (p ''contractVersion'') (JStr ''explorer.v1''), mismatch sha256_ref (p ''indexId'')] index_invalid,
        validateIndexTime engine (p ''publishedAt'') now,
        reject_with [Inr (case p ''evidence'' of JArr vs \<Rightarrow> 32 < length vs | _ \<Rightarrow> True)] index_invalid,
        guards (map (validateSummary engine) evidence),
        validateUniqueSummaries evidence,
        reject_with [measured_later engine evidence (p ''publishedAt'')] (Coded ''benchmark-index-time-invalid'')]) (\<lambda>_.
      bind_r (index_id digest (unsigned_index index)) (\<lambda>i.
      throw_if (p ''indexId'' \<noteq> JStr i) (Coded ''benchmark-index-digest-mismatch'') (Inr index))))"

subsection \<open>Loading\<close>

text \<open>
  The body is returned unawaited: its read happens after the \<open>finally\<close>, so its errors never meet
  the \<open>catch\<close> that names a timeout or a cancellation.
\<close>

definition fetchBounded :: "bool \<Rightarrow> string \<Rightarrow> fetch_answer \<Rightarrow> js_error + http_response" where
  "fetchBounded has_fetch href answer =
     throw_if (\<not> has_fetch) (Coded ''benchmark-fetch-unavailable'')
     (case bind_r (fetched answer) (\<lambda>r. bind_r (response_guards ''benchmark'' href r) (\<lambda>_. Inr (payload_response r))) of
        Inr body \<Rightarrow> Inr body
      | Inl e \<Rightarrow> Inl (abort_code ''benchmark'' answer e))"

definition evidence_record :: "jsval \<Rightarrow> jsval \<Rightarrow> jsval" where
  "evidence_record expected evidence = JObj [(''evidence'', evidence), (''path'', prop_of expected ''path''), (''sha256'', prop_of expected ''sha256'')]"

definition load_evidence ::
    "(string \<Rightarrow> int option) \<Rightarrow> js_engine \<Rightarrow> (string \<Rightarrow> string) \<Rightarrow> (nat list \<Rightarrow> nat list) \<Rightarrow> 'd text_stream \<Rightarrow> (string \<Rightarrow> jsval) \<Rightarrow> bool
      \<Rightarrow> (string \<Rightarrow> string) \<Rightarrow> (string \<Rightarrow> fetch_answer) \<Rightarrow> jsval \<Rightarrow> js_error + jsval" where
  "load_evidence engine js collate digest d num has_fetch resolve network expected =
     (let href = resolve (''/'' @ the_text (prop_of expected ''path'')) in
      bind_r (fetchBounded has_fetch href (network href)) (\<lambda>body.
      bind_r (read_result (readBoundedTextResponse d (JInt MAXIMUM_EVIDENCE_BYTES) body)) (\<lambda>t.
      bind_r (jsonPayloadSha256 digest (JStr t)) (\<lambda>h.
      throw_if (JStr h \<noteq> prop_of expected ''sha256'') (Coded ''benchmark-file-digest-mismatch'')
      (case json_parse num t of
         None \<Rightarrow> Inl (Error ''SyntaxError'')
       | Some evidence \<Rightarrow>
           bind_r (validateFastestEvidence engine js collate evidence) (\<lambda>_.
           throw_if (json (evidenceSummary (evidence_record expected evidence)) \<noteq> json expected) (Coded ''benchmark-summary-mismatch'')
           (Inr (evidence_record expected evidence))))))))"

record loaded_benchmarks =
  index_loaded :: jsval
  evidence_records :: "jsval list"
  load_failures :: "failure list"

definition load_index ::
    "(string \<Rightarrow> int option) \<Rightarrow> (nat list \<Rightarrow> nat list) \<Rightarrow> 'd text_stream \<Rightarrow> (string \<Rightarrow> jsval) \<Rightarrow> bool \<Rightarrow> (string \<Rightarrow> string) \<Rightarrow> (string \<Rightarrow> fetch_answer)
      \<Rightarrow> js_error + url_parts \<Rightarrow> string option \<Rightarrow> jsval \<Rightarrow> int option \<Rightarrow> js_error + jsval" where
  "load_index engine digest d num has_fetch resolve network url browserOrigin timeoutMs now =
     throw_if (\<not> safe_int_between 100 30000 timeoutMs) (Coded ''benchmark-timeout-invalid'')
     (bind_r (bind_r url (\<lambda>u. validatePublicationOrigin ''benchmark'' u browserOrigin)) (\<lambda>_.
      let href = resolve ''/registry/benchmark-evidence/index.v1.json'' in
      bind_r (fetchBounded has_fetch href (network href)) (\<lambda>body.
      bind_r (readBoundedJsonResponse d num (JInt MAXIMUM_INDEX_BYTES) body) (\<lambda>v.
      verifyBenchmarkEvidenceIndex engine digest v now))))"

definition loadBenchmarkEvidence ::
    "(string \<Rightarrow> int option) \<Rightarrow> js_engine \<Rightarrow> (string \<Rightarrow> string) \<Rightarrow> (nat list \<Rightarrow> nat list) \<Rightarrow> 'd text_stream \<Rightarrow> (string \<Rightarrow> jsval) \<Rightarrow> bool
      \<Rightarrow> (string \<Rightarrow> string) \<Rightarrow> (string \<Rightarrow> fetch_answer) \<Rightarrow> js_error + url_parts \<Rightarrow> string option \<Rightarrow> jsval \<Rightarrow> int option \<Rightarrow> loaded_benchmarks" where
  "loadBenchmarkEvidence engine js collate digest d num has_fetch resolve network url browserOrigin timeoutMs now =
     (case load_index engine digest d num has_fetch resolve network url browserOrigin timeoutMs now of
        Inl e \<Rightarrow> \<lparr>index_loaded = JNull, evidence_records = [], load_failures = [(JNull, error_code e ''benchmark-index-fetch-failed'')]\<rparr>
      | Inr index \<Rightarrow>
          let outcomes = map (\<lambda>expected. (expected, load_evidence engine js collate digest d num has_fetch resolve network expected))
            (items (prop_of index ''evidence'')) in
          \<lparr>index_loaded = index,
           evidence_records = concat (map (\<lambda>(x, r). case r of Inr v \<Rightarrow> [v] | Inl e \<Rightarrow> []) outcomes),
           load_failures = concat (map (\<lambda>(x, r). case r of Inr v \<Rightarrow> []
             | Inl e \<Rightarrow> [(prop_of x ''evidenceId'', error_code e ''benchmark-evidence-invalid'')]) outcomes)\<rparr>)"

subsection \<open>What is loaded is sealed\<close>

definition sealed_record ::
    "(string \<Rightarrow> int option) \<Rightarrow> js_engine \<Rightarrow> (string \<Rightarrow> string) \<Rightarrow> (nat list \<Rightarrow> nat list) \<Rightarrow> (string \<Rightarrow> jsval) \<Rightarrow> jsval \<Rightarrow> jsval \<Rightarrow> bool" where
  "sealed_record engine js collate digest num index r \<longleftrightarrow>
     (\<exists>expected t. expected \<in> set (items (prop_of index ''evidence'')) \<and> json (evidenceSummary r) = json expected
       \<and> jsonPayloadSha256 digest (JStr t) = Inr (the_str (prop_of expected ''sha256''))
       \<and> json_parse num t = Some (prop_of r ''evidence'')
       \<and> validateFastestEvidence engine js collate (prop_of r ''evidence'') = Inr (prop_of r ''evidence''))"

lemma validateFastestEvidence_returns: "validateFastestEvidence engine js collate e = Inr v \<Longrightarrow> v = e"
  by (auto simp: validateFastestEvidence_def Let_def split: if_splits)

lemma loaded_evidence_sealed:
  assumes "load_evidence engine js collate digest d num has_fetch resolve network expected = Inr r"
    and "expected \<in> set (items (prop_of index ''evidence''))"
  shows "sealed_record engine js collate digest num index r"
proof -
  obtain t h evidence where "jsonPayloadSha256 digest (JStr t) = Inr h" "JStr h = prop_of expected ''sha256''" "json_parse num t = Some evidence"
    "validateFastestEvidence engine js collate evidence = Inr evidence"
    "json (evidenceSummary (evidence_record expected evidence)) = json expected" "r = evidence_record expected evidence"
    using assms(1) by (auto simp: load_evidence_def Let_def split: if_splits option.splits dest: validateFastestEvidence_returns)
  moreover have evidence: "prop_of (evidence_record expected evidence) ''evidence'' = evidence" by (simp add: evidence_record_def prop_of_def)
  ultimately show ?thesis unfolding sealed_record_def
    by (intro exI [of _ expected] exI [of _ t]) (use assms(2) evidence in \<open>simp flip: \<open>JStr h = _\<close>\<close>)
qed

lemma verified_index_sealed:
  assumes "verifyBenchmarkEvidenceIndex engine digest index now = Inr v"
  shows "v = index" "is_object index" "index_id digest (unsigned_index index) = Inr (the_str (prop_of index ''indexId''))"
    "length (items (prop_of index ''evidence'')) \<le> 32"
  using assms
  by (auto simp: verifyBenchmarkEvidenceIndex_def Let_def index_keys_def exact_keys_def guard_facts split: if_splits jsval.splits)

lemma concat_outcomes_length:
  "length (concat (map (\<lambda>(x, r). case r of Inr v \<Rightarrow> [v] | Inl e \<Rightarrow> []) os))
   + length (concat (map (\<lambda>(x, r). case r of Inr v \<Rightarrow> [] | Inl e \<Rightarrow> [g x e]) os)) = length os"
  by (induction os) (auto split: sum.split)

text \<open>
  C39 Loading the benchmark evidence never throws. Either there is no index and one failure, or the
  index is sealed by the digest of its own content, every entry is either loaded or named among the
  failures, and every loaded record is the parsed file whose SHA-256 the index states, is valid
  evidence and has exactly the summary the index shows.
\<close>

theorem loaded_benchmarks_are_sealed:
  "(let l = loadBenchmarkEvidence engine js collate digest d num has_fetch resolve network url browserOrigin timeoutMs now in
     if index_loaded l = JNull then evidence_records l = [] \<and> length (load_failures l) = 1
     else index_id digest (unsigned_index (index_loaded l)) = Inr (the_str (prop_of (index_loaded l) ''indexId''))
       \<and> length (evidence_records l) + length (load_failures l) = length (items (prop_of (index_loaded l) ''evidence''))
       \<and> length (items (prop_of (index_loaded l) ''evidence'')) \<le> 32
       \<and> list_all (sealed_record engine js collate digest num (index_loaded l)) (evidence_records l))"
proof (cases "load_index engine digest d num has_fetch resolve network url browserOrigin timeoutMs now")
  case (Inr index)
  then obtain v where v: "verifyBenchmarkEvidenceIndex engine digest v now = Inr index"
    by (auto simp: load_index_def Let_def split: if_splits)
  note sealed = verified_index_sealed [OF v]
  have "list_all (sealed_record engine js collate digest num index) (concat (map (\<lambda>(x, r). case r of Inr v \<Rightarrow> [v] | Inl e \<Rightarrow> [])
      (map (\<lambda>expected. (expected, load_evidence engine js collate digest d num has_fetch resolve network expected)) (items (prop_of index ''evidence'')))))"
    by (auto simp: list_all_iff intro: loaded_evidence_sealed split: sum.splits)
  moreover have "index \<noteq> JNull" using sealed(1,2) by auto
  moreover note concat_outcomes_length [of "map (\<lambda>expected. (expected, load_evidence engine js collate digest d num has_fetch resolve network expected))
      (items (prop_of index ''evidence''))" "\<lambda>x e. (prop_of x ''evidenceId'', error_code e ''benchmark-evidence-invalid'')"]
  ultimately show ?thesis using sealed unfolding loadBenchmarkEvidence_def Inr sum.case Let_def loaded_benchmarks.select_convs
    by (simp only: if_False length_map simp_thms)
qed (simp add: loadBenchmarkEvidence_def Let_def)

end
