(* ===== verification/Cursor_Codec.thy ===== *)
theory Cursor_Codec
  imports Canonical_Text Bytes Contracts_Base "HOL-Library.Multiset"
begin

text \<open>
  \<open>packages/contracts/src/cursor-codec.mjs\<close>: a page position travels to the client as a signed
  token and comes back. Web Crypto and the platform are parameters: \<open>digest\<close> is the hexadecimal
  SHA-256 of a text, \<open>hmac\<close> the HMAC-SHA-256 of bytes under the imported key (verification
  recomputes it), \<open>decode\<close> is \<open>TextDecoder\<close>, \<open>num\<close> the number conversion of \<open>JSON.parse\<close>,
  and the clock's reading is an argument.
\<close>

subsection \<open>Creating the codec\<close>

definition PAYLOAD_KEYS :: "string list" where
  "PAYLOAD_KEYS = [''version'', ''contractVersion'', ''profileId'', ''deploymentId'', ''dataManifestSha256'',
     ''lifecycleId'', ''operation'', ''querySha256'', ''position'', ''issuedAt'', ''expiresAt'']"

record cursor_codec =
  scope :: "(string \<times> string) list"
  ttlMs :: int

definition SCOPE_KEYS :: "string list" where
  "SCOPE_KEYS = [''contractVersion'', ''profileId'', ''deploymentId'', ''dataManifestSha256'', ''lifecycleId'']"

text \<open>\<open>options\<close> holds the scope and the lifetime as given; the defaults stand in for undefined.\<close>

definition default_option :: "jsval \<Rightarrow> string \<Rightarrow> jsval" where
  "default_option options k =
     (let v = prop_of options k in
      if v \<noteq> JUndef then v
      else if k = ''contractVersion'' then JStr ''explorer.v1''
      else if k = ''ttlMs'' then JInt 900000 else JUndef)"

definition createCursorCodec :: "nat option \<Rightarrow> bool \<Rightarrow> jsval \<Rightarrow> js_error + cursor_codec" where
  \<comment> \<open>the length of \<open>keyBytes\<close> when it is a byte array, and whether \<open>crypto.subtle\<close> exists\<close>
  "createCursorCodec key_length subtle options =
     throw_if (case key_length of None \<Rightarrow> True | Some n \<Rightarrow> n < 32)
       (Error ''cursor HMAC key must contain at least 32 bytes'')
     (throw_if (\<not> subtle) (Error ''Web Crypto is required'')
     (throw_if (list_ex (\<lambda>k. \<not> str_satisfies (\<lambda>s. 1 \<le> length s) (default_option options k)) SCOPE_KEYS)
       (Error ''cursor scope is incomplete'')
     (throw_if (\<not> safe_int_between 1000 86400000 (default_option options ''ttlMs'')) (Error ''cursor TTL is invalid'')
       (Inr \<lparr>scope = map (\<lambda>k. (k, the_str (default_option options k))) SCOPE_KEYS,
             ttlMs = the_int (default_option options ''ttlMs'')\<rparr>))))"

subsection \<open>Tokens\<close>

abbreviation cursor_invalid :: js_error where "cursor_invalid \<equiv> Coded ''cursor-invalid''"

definition canonicalJson :: "jsval \<Rightarrow> js_error + string" where
  "canonicalJson v = (case canonical_text v of None \<Rightarrow> Inl cursor_invalid | Some t \<Rightarrow> Inr t)"

definition validatePayload :: "jsval \<Rightarrow> js_error + unit" where
  "validatePayload payload =
     throw_if (\<not> exact_keys payload PAYLOAD_KEYS) cursor_invalid
     (throw_if (prop_of payload ''version'' \<noteq> JInt 1 \<or> \<not> isSafeInteger (prop_of payload ''issuedAt'')
         \<or> \<not> isSafeInteger (prop_of payload ''expiresAt'')
         \<or> the_int (prop_of payload ''expiresAt'') \<le> the_int (prop_of payload ''issuedAt'')) cursor_invalid
     (throw_if (list_ex (\<lambda>k. \<not> str_satisfies (\<lambda>s. 1 \<le> length s) (prop_of payload k))
         (SCOPE_KEYS @ [''operation'', ''querySha256''])) cursor_invalid
     (bind_r (canonicalJson (prop_of payload ''position'')) (\<lambda>_. Inr ()))))"

definition cursor_payload :: "cursor_codec \<Rightarrow> string \<Rightarrow> string \<Rightarrow> jsval \<Rightarrow> int \<Rightarrow> jsval" where
  "cursor_payload c operation query_digest position issuedAt =
     JObj ([(''version'', JInt 1)] @ map (\<lambda>(k, s). (k, JStr s)) (scope c)
       @ [(''operation'', JStr operation), (''querySha256'', JStr query_digest), (''position'', position),
          (''issuedAt'', JInt issuedAt), (''expiresAt'', JInt (issuedAt + ttlMs c))])"

definition encode_cursor ::
  "cursor_codec \<Rightarrow> (string \<Rightarrow> string) \<Rightarrow> (nat list \<Rightarrow> nat list) \<Rightarrow> int \<Rightarrow> string \<Rightarrow> jsval \<Rightarrow> jsval \<Rightarrow> js_error + string" where
  "encode_cursor c digest hmac now operation query position =
     bind_r (canonicalJson query) (\<lambda>q.
      let payload = cursor_payload c operation (digest q) position now in
      bind_r (validatePayload payload) (\<lambda>_.
      bind_r (canonicalJson payload) (\<lambda>t.
        let body = utf8 t; token = base64url body @ ''.'' @ base64url (hmac body) in
        throw_if (byte_length token > cursorBytes) cursor_invalid (Inr token))))"

definition cursor_parts :: "string \<Rightarrow> js_error + nat list \<times> nat list" where
  "cursor_parts token =
     (case split_on (CHR ''.'') token of
        [a, b] \<Rightarrow> (case (fromBase64url a, fromBase64url b) of
            (Some body, Some signature) \<Rightarrow> Inr (body, signature)
          | _ \<Rightarrow> Inl cursor_invalid)
      | _ \<Rightarrow> Inl cursor_invalid)"

definition expected_scope :: "cursor_codec \<Rightarrow> string \<Rightarrow> string \<Rightarrow> (string \<times> jsval) list" where
  "expected_scope c operation query_digest =
     map (\<lambda>(k, s). (k, JStr s)) (scope c @ [(''operation'', operation), (''querySha256'', query_digest)])"

definition decode_cursor ::
  "cursor_codec \<Rightarrow> (string \<Rightarrow> string) \<Rightarrow> (nat list \<Rightarrow> nat list) \<Rightarrow> (nat list \<Rightarrow> string) \<Rightarrow> (string \<Rightarrow> jsval)
     \<Rightarrow> int \<Rightarrow> jsval \<Rightarrow> string \<Rightarrow> jsval \<Rightarrow> js_error + jsval" where
  "decode_cursor c digest hmac decode num now token operation query =
     throw_if (\<not> str_satisfies (\<lambda>t. byte_length t \<le> cursorBytes) token) cursor_invalid
     (bind_r (cursor_parts (the_str token)) (\<lambda>(body, signature).
      throw_if (signature \<noteq> hmac body) cursor_invalid
      (case json_parse num (decode body) of
         None \<Rightarrow> Inl cursor_invalid
       | Some payload \<Rightarrow>
           bind_r (validatePayload payload) (\<lambda>_.
           throw_if (the_int (prop_of payload ''expiresAt'') \<le> now) (Coded ''cursor-expired'')
           (bind_r (canonicalJson query) (\<lambda>q.
            throw_if (list_ex (\<lambda>(k, v). prop_of payload k \<noteq> v) (expected_scope c operation (digest q)))
              (Coded ''cursor-scope-mismatch'') (Inr (prop_of payload ''position''))))))))"

subsection \<open>What a decoded token guarantees\<close>

lemma Inl_bind_r: "bind_r m f = Inl e \<longleftrightarrow> m = Inl e \<or> (\<exists>x. m = Inr x \<and> f x = Inl e)"
  by (cases m) auto

lemma canonicalJson_Inl: "canonicalJson v = Inl d \<Longrightarrow> d = cursor_invalid"
  by (auto simp: canonicalJson_def split: option.splits)

lemma validatePayload_Inl: "validatePayload p = Inl d \<Longrightarrow> d = cursor_invalid"
  by (auto simp: validatePayload_def Inl_bind_r dest!: canonicalJson_Inl split: if_splits)

lemma cursor_parts_Inl: "cursor_parts t = Inl d \<Longrightarrow> d = cursor_invalid"
  by (auto simp: cursor_parts_def split: list.splits option.splits prod.splits)

text \<open>
  C15 Whatever token arrives, decoding either fails with one of the three stable cursor codes, or the
  token is at most 4096 bytes, carries the HMAC of its own body, and that body is a well-formed
  payload not expired by the clock, issued for exactly this codec's scope, this operation and this
  query; the position returned is the one it signs.
\<close>

theorem decoded_cursor_is_authentic:
  "case decode_cursor c digest hmac decode num now token operation query of
     Inl e \<Rightarrow> e \<in> Coded ` {''cursor-invalid'', ''cursor-expired'', ''cursor-scope-mismatch''}
   | Inr position \<Rightarrow> \<exists>text a b body payload q.
       token = JStr text \<and> byte_length text \<le> 4096 \<and> split_on (CHR ''.'') text = [a, b]
       \<and> fromBase64url a = Some body \<and> fromBase64url b = Some (hmac body)
       \<and> json_parse num (decode body) = Some payload \<and> exact_keys payload PAYLOAD_KEYS
       \<and> now < the_int (prop_of payload ''expiresAt'') \<and> canonical_text query = Some q
       \<and> list_all (\<lambda>(k, v). prop_of payload k = v) (expected_scope c operation (digest q))
       \<and> position = prop_of payload ''position''"
proof (cases "decode_cursor c digest hmac decode num now token operation query")
  case (Inl e)
  from Inl show ?thesis
    by (auto simp: decode_cursor_def Inl_bind_r dest!: canonicalJson_Inl validatePayload_Inl cursor_parts_Inl split: if_splits option.splits)
next
  case (Inr position)
  then obtain t body signature payload q where
    *: "token = JStr t" "byte_length t \<le> cursorBytes" "cursor_parts t = Inr (body, signature)"
    "signature = hmac body" "json_parse num (decode body) = Some payload" "validatePayload payload = Inr ()"
    "now < the_int (prop_of payload ''expiresAt'')" "canonicalJson query = Inr q"
    "\<not> list_ex (\<lambda>(k, v). prop_of payload k \<noteq> v) (expected_scope c operation (digest q))"
    "position = prop_of payload ''position''"
    by (cases token) (auto simp: decode_cursor_def str_satisfies_def split: if_splits option.splits)
  from *(3) obtain a b where ab: "split_on (CHR ''.'') t = [a, b]" "fromBase64url a = Some body"
      "fromBase64url b = Some signature"
    by (auto simp: cursor_parts_def split: list.splits option.splits)
  have "exact_keys payload PAYLOAD_KEYS" using *(6) by (simp add: validatePayload_def split: if_splits)
  moreover have "canonical_text query = Some q" using *(8) by (simp add: canonicalJson_def split: option.splits)
  moreover have "list_all (\<lambda>(k, v). prop_of payload k = v) (expected_scope c operation (digest q))"
    using *(9) by (auto simp: list_ex_iff list_all_iff)
  ultimately show ?thesis using Inr * ab by (auto simp: limit_defs)
qed

subsection \<open>A token comes back as it went\<close>

lemma created_scope:
  assumes "createCursorCodec n subtle options = Inr c"
  shows "\<exists>f. scope c = map (\<lambda>k. (k, f k)) SCOPE_KEYS \<and> (\<forall>k \<in> set SCOPE_KEYS. 1 \<le> length (f k))"
    and "1000 \<le> ttlMs c"
proof -
  from assms have "list_all (\<lambda>k. str_satisfies (\<lambda>s. 1 \<le> length s) (default_option options k)) SCOPE_KEYS"
    and c: "scope c = map (\<lambda>k. (k, the_str (default_option options k))) SCOPE_KEYS"
      "safe_int_between 1000 86400000 (default_option options ''ttlMs'')"
      "ttlMs c = the_int (default_option options ''ttlMs'')"
    by (auto simp: createCursorCodec_def list_ex_iff list_all_iff split: if_splits)
  then have "1 \<le> length (the_str (default_option options k))" if "k \<in> set SCOPE_KEYS" for k
    using that by (cases "default_option options k") (auto simp: list_all_iff str_satisfies_def)
  with c(1) show "\<exists>f. scope c = map (\<lambda>k. (k, f k)) SCOPE_KEYS \<and> (\<forall>k \<in> set SCOPE_KEYS. 1 \<le> length (f k))"
    by (intro exI [of _ "\<lambda>k. the_str (default_option options k)"]) simp
  from c(2,3) show "1000 \<le> ttlMs c" by (simp add: safe_int_between_def split: jsval.splits)
qed

lemma validatePayload_sorted:
  assumes "validatePayload (JObj kvs) = Inr ()" and "text_plain (JObj kvs)"
  shows "validatePayload (sort_text (JObj kvs)) = Inr ()"
proof -
  have d: "distinct (map fst kvs)" using assms(2) by simp
  have keys: "exact_keys (sort_text (JObj kvs)) PAYLOAD_KEYS = exact_keys (JObj kvs) PAYLOAD_KEYS"
  proof -
    have "sort (map fst (sort_key fst (map (\<lambda>(k, v). (k, sort_text v)) kvs))) = sort (map fst kvs)"
      by (rule properties_for_sort) (simp_all only: mset_map mset_sort multiset.map_comp fst_comp_pairs sorted_sort)
    then show ?thesis by (simp add: exact_keys_def)
  qed
  have "text_plain (prop_of (JObj kvs) ''position'')" if "exact_keys (JObj kvs) PAYLOAD_KEYS"
  proof -
    have "''position'' \<in> fst ` set kvs" using exact_keys_set [OF that] by (simp add: PAYLOAD_KEYS_def)
    then obtain v where v: "map_of kvs ''position'' = Some v" by (metis map_of_eq_None_iff option.exhaust)
    with assms(2) show ?thesis by (auto simp: prop_of_def list_all_iff dest!: map_of_SomeD)
  qed
  from canonical_text_plain [OF text_plain_sort_text [OF this]] assms(1)
  have "canonicalJson (sort_text (prop_of (JObj kvs) ''position'')) = Inr (json (sort_text (sort_text (prop_of (JObj kvs) ''position''))))"
    by (simp add: canonicalJson_def validatePayload_def split: if_splits)
  with assms(1) show ?thesis
    unfolding validatePayload_def keys prop_of_sort_text [OF d] sort_text_simple by (auto split: if_splits)
qed

lemma cursor_roundtrip_helper:
  assumes c: "createCursorCodec n subtle options = Inr c" and c': "createCursorCodec n' subtle' options' = Inr c'"
    and decoder: "text_decoder decode" and hmac: "\<And>b. hmac b \<noteq> [] \<and> list_all (\<lambda>x. x < 256) (hmac b)"
    and pos: "text_plain position" and enc: "encode_cursor c digest hmac issued operation query position = Inr token"
  shows "decode_cursor c' digest hmac decode num now (JStr token) operation' query' =
     (if issued + ttlMs c \<le> now then Inl (Coded ''cursor-expired'')
      else case canonical_text query' of
        None \<Rightarrow> Inl cursor_invalid
      | Some q' \<Rightarrow>
          if scope c' = scope c \<and> operation' = operation \<and> Some (digest q') = map_option digest (canonical_text query)
          then Inr (sort_text position) else Inl (Coded ''cursor-scope-mismatch''))"
proof -
  obtain f where f: "scope c = map (\<lambda>k. (k, f k)) SCOPE_KEYS" using created_scope [OF c] by blast
  obtain g where g: "scope c' = map (\<lambda>k. (k, g k)) SCOPE_KEYS" using created_scope [OF c'] by blast
  from enc obtain q t where q: "canonical_text query = Some q"
    and valid: "validatePayload (cursor_payload c operation (digest q) position issued) = Inr ()"
    and t: "canonical_text (cursor_payload c operation (digest q) position issued) = Some t"
    and token: "token = base64url (utf8 t) @ ''.'' @ base64url (hmac (utf8 t))" and size: "byte_length token \<le> cursorBytes"
    by (auto simp: encode_cursor_def canonicalJson_def Let_def split: if_splits option.splits)
  define kvs where "kvs = [(''version'', JInt 1)] @ map (\<lambda>(k, s). (k, JStr s)) (scope c)
       @ [(''operation'', JStr operation), (''querySha256'', JStr (digest q)), (''position'', position),
          (''issuedAt'', JInt issued), (''expiresAt'', JInt (issued + ttlMs c))]"
  have payload: "cursor_payload c operation (digest q) position issued = JObj kvs"
    by (simp add: cursor_payload_def kvs_def)
  have issued: "prop_of (JObj kvs) ''issuedAt'' = JInt issued" "prop_of (JObj kvs) ''expiresAt'' = JInt (issued + ttlMs c)"
      "prop_of (JObj kvs) ''position'' = position"
    by (simp_all add: kvs_def prop_of_def f SCOPE_KEYS_def)
  have "is_safe_integer issued" "is_safe_integer (issued + ttlMs c)"
    using valid unfolding payload validatePayload_def issued by (auto split: if_splits)
  then have plain: "text_plain (JObj kvs)"
    using pos by (simp add: kvs_def f SCOPE_KEYS_def is_array_index_def is_safe_integer_def MAX_SAFE_INTEGER_def is_digit_def)
  have bytes: "utf8 t \<noteq> []" "\<And>b. b \<in> set (utf8 t) \<Longrightarrow> b < 256"
    "hmac (utf8 t) \<noteq> []" "\<And>b. b \<in> set (hmac (utf8 t)) \<Longrightarrow> b < 256"
    using t utf8_bytes hmac [of "utf8 t"] by (auto simp: payload list_all_iff intro!: utf8_not_Nil)
  have parts: "cursor_parts token = Inr (utf8 t, hmac (utf8 t))"
    using base64url_no_dot [OF bytes(2)] base64url_no_dot [OF bytes(4)]
    by (simp add: cursor_parts_def token split_on_append split_on_no_sep fromBase64url_base64url bytes)
  have parse: "json_parse num (decode (utf8 t)) = Some (sort_text (JObj kvs))"
    using canonical_text_parse [OF plain] t text_decoder.decode_utf8 [OF decoder] by (simp add: payload)
  have valid': "validatePayload (sort_text (JObj kvs)) = Inr ()"
    using valid validatePayload_sorted [OF _ plain] by (simp add: payload)
  have "distinct (map fst kvs)" using plain by simp
  note sorted = prop_of_sort_text [OF this]
  have mismatch: "list_ex (\<lambda>(k, v). prop_of (sort_text (JObj kvs)) k \<noteq> v) (expected_scope c' operation' d)
      \<longleftrightarrow> \<not> (scope c' = scope c \<and> operation' = operation \<and> d = digest q)" for d
    unfolding sorted by (auto simp: expected_scope_def kvs_def prop_of_def f g SCOPE_KEYS_def)
  define p where "p = sort_text (JObj kvs)"
  have p: "json_parse num (decode (utf8 t)) = Some p" "validatePayload p = Inr ()"
    "the_int (prop_of p ''expiresAt'') = issued + ttlMs c" "prop_of p ''position'' = sort_text position"
    "list_ex (\<lambda>(k, v). prop_of p k \<noteq> v) (expected_scope c' operation' d)
      \<longleftrightarrow> \<not> (scope c' = scope c \<and> operation' = operation \<and> d = digest q)" for d
    using parse valid' mismatch by (simp_all only: p_def sorted issued sort_text_simple the_int.simps)
  show ?thesis
    using size by (auto simp: decode_cursor_def str_satisfies_def parts p q canonicalJson_def split: option.split)
qed

text \<open>
  C14 A token encoded by one codec and presented to a codec with the same key: it is refused as
  expired exactly from its expiry on, refused as out of scope exactly when the codec's scope, the
  operation or the digest of the query's canonical text differ, and otherwise gives back the
  position with its keys sorted. Encoding itself fails only with the code \<open>cursor-invalid\<close>.
\<close>

theorem cursor_roundtrip:
  assumes "createCursorCodec n subtle options = Inr c" and "createCursorCodec n' subtle' options' = Inr c'"
    and "text_decoder decode" and "\<And>b. hmac b \<noteq> [] \<and> list_all (\<lambda>x. x < 256) (hmac b)" and "text_plain position"
  shows "case encode_cursor c digest hmac issued operation query position of
      Inl e \<Rightarrow> e = cursor_invalid
    | Inr token \<Rightarrow>
        decode_cursor c' digest hmac decode num now (JStr token) operation' query' =
          (if issued + ttlMs c \<le> now then Inl (Coded ''cursor-expired'')
           else case canonical_text query' of
             None \<Rightarrow> Inl cursor_invalid
           | Some q' \<Rightarrow>
               if scope c' = scope c \<and> operation' = operation \<and> Some (digest q') = map_option digest (canonical_text query)
               then Inr (sort_text position) else Inl (Coded ''cursor-scope-mismatch''))"
proof (cases "encode_cursor c digest hmac issued operation query position")
  case (Inl e)
  then have "e = cursor_invalid"
    by (auto simp: encode_cursor_def Inl_bind_r Let_def dest!: canonicalJson_Inl validatePayload_Inl split: if_splits)
  with Inl show ?thesis by simp
next
  case (Inr token)
  with cursor_roundtrip_helper [OF assms Inr] show ?thesis by simp
qed

definition sample_options :: jsval where
  "sample_options = JObj [(''profileId'', JStr ''p''), (''deploymentId'', JStr ''d''), (''dataManifestSha256'', JStr ''m''),
     (''lifecycleId'', JStr ''l'')]"

definition sample_codec :: cursor_codec where
  "sample_codec = \<lparr>scope = [(''contractVersion'', ''explorer.v1''), (''profileId'', ''p''), (''deploymentId'', ''d''),
     (''dataManifestSha256'', ''m''), (''lifecycleId'', ''l'')], ttlMs = 900000\<rparr>"

lemma sample_codec_created: "createCursorCodec (Some 32) True sample_options = Inr sample_codec"
  by (simp add: createCursorCodec_def sample_options_def sample_codec_def default_option_def prop_of_def SCOPE_KEYS_def
      str_satisfies_def safe_int_between_def is_safe_integer_def MAX_SAFE_INTEGER_def)

lemma length_sextets_le: "length (sextets bs) \<le> 2 * length bs"
  by (induction bs rule: sextets.induct) auto

lemma byte_length_base64url: "(\<And>b. b \<in> set bs \<Longrightarrow> b < 256) \<Longrightarrow> byte_length (base64url bs) \<le> 2 * length bs"
proof -
  assume b: "\<And>b. b \<in> set bs \<Longrightarrow> b < 256"
  have ascii: "(of_char (url_char (b64_char n)) :: nat) < 128" if "n < 64" for n
    using url_char_shaped [OF that]
    by (auto simp: is_lower_def is_upper_def is_digit_def less_eq_char_def)
  have "byte_length (map (\<lambda>n. url_char (b64_char n)) ns) = length ns" if "\<And>n. n \<in> set ns \<Longrightarrow> n < 64" for ns
    using that by (induction ns) (simp_all add: byte_length_def ascii)
  from this [of "sextets bs"] sextets_bound [OF b] length_sextets_le [of bs] show ?thesis
    by (simp add: base64url_def filter_btoa b comp_def)
qed

lemma cursor_roundtrip_witness:
  "\<exists>token. encode_cursor sample_codec (\<lambda>_. ''q'') (\<lambda>_. [7]) 0 ''list-subjects'' (JObj []) (JStr ''x'') = Inr token
     \<and> decode_cursor sample_codec (\<lambda>_. ''q'') (\<lambda>_. [7]) latin_decode (\<lambda>_. JNull) 899999 (JStr token) ''list-subjects'' (JObj [])
        = Inr (JStr ''x'')"
proof -
  have "validatePayload (cursor_payload sample_codec ''list-subjects'' ''q'' (JStr ''x'') 0) = Inr ()"
    by (simp add: validatePayload_def exact_keys_def PAYLOAD_KEYS_def SCOPE_KEYS_def canonicalJson_def cursor_payload_def
        sample_codec_def prop_of_def str_satisfies_def is_safe_integer_def MAX_SAFE_INTEGER_def)
  moreover obtain t where "canonicalJson (cursor_payload sample_codec ''list-subjects'' ''q'' (JStr ''x'') 0) = Inr t"
      "byte_length t < 300"
    by (simp add: canonicalJson_def cursor_payload_def sample_codec_def json_str_def json_char_def byte_length_def
        int_str_def nat_str.simps digit_char_def)
  moreover from this(2) have "byte_length (base64url (utf8 t)) \<le> 600"
    using byte_length_base64url [of "utf8 t"] utf8_bytes [of _ t] by (simp add: length_utf8)
  moreover have "byte_length (base64url [7]) \<le> 2" using byte_length_base64url [of "[7]"] by simp
  moreover have "byte_length ''.'' = 1" by (simp add: byte_length_def)
  moreover have "canonicalJson (JObj []) = Inr ''{}''" by (simp add: canonicalJson_def)
  ultimately obtain token where token: "encode_cursor sample_codec (\<lambda>_. ''q'') (\<lambda>_. [7]) 0 ''list-subjects'' (JObj []) (JStr ''x'') = Inr token"
    using byte_length_append [of "base64url (utf8 t)" "''.'' @ base64url [7]"] byte_length_append [of "''.''" "base64url [7]"]
    by (simp add: encode_cursor_def limit_defs del: append_Cons)
  have hmac: "(\<lambda>_. [7 :: nat]) b \<noteq> [] \<and> list_all (\<lambda>x. x < 256) ((\<lambda>_. [7 :: nat]) b)" for b :: "nat list" by simp
  have decoder: "text_decoder latin_decode" by (rule latin.text_decoder_axioms)
  show ?thesis
    using token cursor_roundtrip [OF sample_codec_created sample_codec_created decoder hmac, where position = "JStr ''x''"
        and digest = "\<lambda>_. ''q''" and issued = 0 and operation = "''list-subjects''" and operation' = "''list-subjects''"
        and query = "JObj []" and query' = "JObj []" and now = 899999 and num = "\<lambda>_. JNull"]
    by (simp add: sample_codec_def)
qed

end
