(* ===== verification/Data_Lifecycle.thy ===== *)
theory Data_Lifecycle
  imports Stable_Json
begin

text \<open>
  \<open>packages/data-lifecycle/lifecycle.mjs\<close>: the record of one generation of a profile's data, its
  four states, and the promotion that moves a profile's pointer from one generation to the next.
\<close>

definition LIFECYCLE_STATES :: "string list" where
  "LIFECYCLE_STATES = [''staging'', ''verified'', ''serving'', ''retired'']"

definition IMMUTABLE_FIELDS :: "string list" where
  "IMMUTABLE_FIELDS = [''schema'', ''lifecycleId'', ''profileId'', ''storageResourceId'', ''manifestDigest'', ''fixtureDigest'',
     ''previousLifecycleId'', ''createdAt'']"

definition lifecycle_id :: regex where
  \<comment> \<open>\<open>/^[a-z0-9]+(?:-[a-z0-9]+)*:[a-z0-9._-]+$/u\<close>\<close>
  "lifecycle_id = cats [plus_of (cls ''az09'' []), star (Cat (lit ''-'') (plus_of (cls ''az09'' []))), lit '':'', plus_of (cls ''az09'' ''._-'')]"

definition parseDate :: "(string \<Rightarrow> int option) \<Rightarrow> jsval \<Rightarrow> string \<Rightarrow> js_error + unit" where
  "parseDate engine v name =
     reject_if [Inr (\<not> str_satisfies (\<lambda>s. date_parse engine s \<noteq> None) v)] (name @ '' must be an RFC 3339 timestamp'')"

definition requiredTimestamps :: "string \<Rightarrow> string list" where
  "requiredTimestamps st =
     (if st = ''verified'' then [''verifiedAt''] else if st = ''serving'' then [''verifiedAt'', ''servingAt'']
      else if st = ''retired'' then [''verifiedAt'', ''servingAt'', ''retiredAt''] else [])"

definition timestamp_guard :: "(string \<Rightarrow> int option) \<Rightarrow> jsval \<Rightarrow> string \<Rightarrow> js_error + unit" where
  "timestamp_guard engine r f =
     (if f \<in> set (requiredTimestamps (the_str (prop_of r ''state''))) then parseDate engine (prop_of r f) f
      else reject_if [differs (prop_of r f) JNull] (f @ '' must be null in '' @ the_text (prop_of r ''state'')))"

definition validateLifecycle :: "(string \<Rightarrow> int option) \<Rightarrow> jsval \<Rightarrow> js_error + jsval" where
  "validateLifecycle engine r =
     bind_r (guards ([
       exactKeys r (IMMUTABLE_FIELDS @ [''state'', ''verifiedAt'', ''servingAt'', ''retiredAt'']) ''data lifecycle'',
       reject_if [differs (prop_of r ''schema'') (JStr ''eacl-demo.data-lifecycle.v1'')] ''unsupported data lifecycle schema'',
       reject_if [mismatch (matches lifecycle_id) (prop_of r ''lifecycleId'')] ''invalid data lifecycle ID'',
       reject_if [mismatch sha256_ref (prop_of r ''manifestDigest''), mismatch sha256_ref (prop_of r ''fixtureDigest'')]
         ''data lifecycle requires exact manifest and fixture digests'',
       reject_if [Inr (\<not> member_of LIFECYCLE_STATES (prop_of r ''state''))] ''invalid data lifecycle state'',
       parseDate engine (prop_of r ''createdAt'') ''createdAt'']
      @ map (timestamp_guard engine r) [''verifiedAt'', ''servingAt'', ''retiredAt''])) (\<lambda>_. Inr r)"

definition transitions :: "(string \<times> string) list" where
  "transitions = [(''staging'', ''verified''), (''verified'', ''serving''), (''serving'', ''retired'')]"

definition transitionLifecycle :: "(string \<Rightarrow> int option) \<Rightarrow> jsval \<Rightarrow> jsval \<Rightarrow> js_error + jsval" where
  "transitionLifecycle engine before after =
     bind_r (validateLifecycle engine before) (\<lambda>_. bind_r (validateLifecycle engine after) (\<lambda>_.
     bind_r (guards (map (\<lambda>f. reject_if [differs (prop_of before f) (prop_of after f)]
         (''accepted lifecycle field '' @ f @ '' is immutable'')) IMMUTABLE_FIELDS)) (\<lambda>_.
     let a = the_text (prop_of before ''state''); b = the_text (prop_of after ''state'') in
     throw_if ((a, b) \<notin> set transitions) (Error (''forbidden data lifecycle transition '' @ a @ ''->'' @ b)) (Inr after))))"

definition requireOrdinaryDeployManifest :: "(string \<Rightarrow> int option) \<Rightarrow> jsval \<Rightarrow> jsval \<Rightarrow> js_error + jsval" where
  "requireOrdinaryDeployManifest engine serving expected =
     bind_r (validateLifecycle engine serving) (\<lambda>_.
     throw_if (prop_of serving ''state'' \<noteq> JStr ''serving'') (Error ''ordinary deployment requires a serving lifecycle'')
     (throw_if (\<not> strict_eq (prop_of serving ''manifestDigest'') expected) (Coded ''stateful-migration-required'') (Inr serving)))"

definition planBlueGreenPromotion :: "(string \<Rightarrow> int option) \<Rightarrow> jsval \<Rightarrow> jsval \<Rightarrow> js_error + jsval" where
  "planBlueGreenPromotion engine current candidate =
     bind_r (validateLifecycle engine current) (\<lambda>_. bind_r (validateLifecycle engine candidate) (\<lambda>_.
     bind_r (guards [
       reject_if [differs (prop_of current ''state'') (JStr ''serving''), differs (prop_of candidate ''state'') (JStr ''verified'')]
         ''promotion requires one serving and one separately verified lifecycle'',
       reject_if [differs (prop_of current ''profileId'') (prop_of candidate ''profileId'')] ''blue-green promotion cannot cross profiles'',
       reject_if [Inr (strict_eq (prop_of current ''lifecycleId'') (prop_of candidate ''lifecycleId'')),
           Inr (strict_eq (prop_of current ''storageResourceId'') (prop_of candidate ''storageResourceId''))]
         ''candidate must use a distinct lifecycle and physical storage resource'',
       reject_if [differs (prop_of candidate ''previousLifecycleId'') (prop_of current ''lifecycleId'')]
         ''candidate does not identify the serving predecessor'']) (\<lambda>_.
     Inr (JObj [(''profileId'', prop_of current ''profileId''), (''fromLifecycleId'', prop_of current ''lifecycleId''),
       (''toLifecycleId'', prop_of candidate ''lifecycleId''), (''expectedManifestDigest'', prop_of candidate ''manifestDigest''),
       (''operation'', JStr ''atomic-profile-data-pointer-update''), (''mutateAcceptedLifecycle'', JBool False)]))))"

subsection \<open>The states of a lifecycle\<close>

definition rank :: "jsval \<Rightarrow> nat" where
  "rank r = length (takeWhile (\<lambda>s. s \<noteq> the_str (prop_of r ''state'')) LIFECYCLE_STATES)"

definition timestamps :: "jsval \<Rightarrow> jsval list" where
  "timestamps r = map (prop_of r) [''verifiedAt'', ''servingAt'', ''retiredAt'']"

text \<open>A generation's history: a valid record and the records that replace it one after the other.\<close>

fun lifecycle_history :: "(string \<Rightarrow> int option) \<Rightarrow> jsval \<Rightarrow> jsval list \<Rightarrow> js_error + jsval" where
  "lifecycle_history engine r [] = validateLifecycle engine r"
| "lifecycle_history engine r (s # ss) = bind_r (transitionLifecycle engine r s) (\<lambda>s. lifecycle_history engine s ss)"

lemma validateLifecycle_returns: "validateLifecycle engine r = Inr s \<Longrightarrow> s = r"
  by (simp add: validateLifecycle_def)

lemma validateLifecycle_timestamps:
  assumes "validateLifecycle engine r = Inr s"
  shows "rank r < 4 \<and> is_string (prop_of r ''state'') \<and> is_string (prop_of r ''createdAt'')
    \<and> list_all is_string (take (rank r) (timestamps r)) \<and> list_all ((=) JNull) (drop (rank r) (timestamps r))"
proof -
  have "member_of LIFECYCLE_STATES (prop_of r ''state'')" "list_all (\<lambda>f. timestamp_guard engine r f = Inr ()) [''verifiedAt'', ''servingAt'', ''retiredAt'']"
    "str_satisfies (\<lambda>s. date_parse engine s \<noteq> None) (prop_of r ''createdAt'')"
    using assms by (auto simp: validateLifecycle_def guards_append parseDate_def guard_facts)
  note facts = this
  have str: "str_satisfies P v \<Longrightarrow> is_string v" for P v by (cases v) (simp_all add: str_satisfies_def)
  obtain st where st: "prop_of r ''state'' = JStr st" "st \<in> set LIFECYCLE_STATES"
    using facts(1) by (auto simp: member_of_def str_satisfies_def split: jsval.splits)
  have stamp: "f \<in> set (requiredTimestamps st) \<Longrightarrow> is_string (prop_of r f)"
    "f \<notin> set (requiredTimestamps st) \<Longrightarrow> prop_of r f = JNull" if "timestamp_guard engine r f = Inr ()" for f
    using that str by (auto simp: timestamp_guard_def parseDate_def guard_facts st(1))
  have stamps: "timestamp_guard engine r ''verifiedAt'' = Inr ()" "timestamp_guard engine r ''servingAt'' = Inr ()"
    "timestamp_guard engine r ''retiredAt'' = Inr ()" using facts(2) by simp_all
  have created: "is_string (prop_of r ''createdAt'')" using facts(3) by (rule str)
  from st(2) consider "st = ''staging''" | "st = ''verified''" | "st = ''serving''" | "st = ''retired''"
    by (auto simp: LIFECYCLE_STATES_def)
  then show ?thesis
    using stamp [OF stamps(1)] stamp [OF stamps(2)] stamp [OF stamps(3)] created st(1)
    by cases (simp_all add: requiredTimestamps_def rank_def timestamps_def LIFECYCLE_STATES_def)
qed

lemma transition_steps:
  assumes "transitionLifecycle engine before after = Inr s"
  shows "s = after" "validateLifecycle engine before = Inr before" "validateLifecycle engine after = Inr after"
    "rank after = Suc (rank before)" "list_all (\<lambda>f. strict_eq (prop_of before f) (prop_of after f)) IMMUTABLE_FIELDS"
proof -
  show "s = after" and valid: "validateLifecycle engine before = Inr before" "validateLifecycle engine after = Inr after"
    using assms validateLifecycle_returns by (auto simp: transitionLifecycle_def Let_def split: if_splits)
  show "list_all (\<lambda>f. strict_eq (prop_of before f) (prop_of after f)) IMMUTABLE_FIELDS"
    using assms by (auto simp: transitionLifecycle_def guard_facts list_all_iff)
  have "is_string (prop_of before ''state'')" "is_string (prop_of after ''state'')"
    using validateLifecycle_timestamps [OF valid(1)] validateLifecycle_timestamps [OF valid(2)] by simp_all
  moreover have "(the_text (prop_of before ''state''), the_text (prop_of after ''state'')) \<in> set transitions"
    using assms by (auto simp: transitionLifecycle_def Let_def split: if_splits)
  ultimately show "rank after = Suc (rank before)"
    by (cases "prop_of before ''state''"; cases "prop_of after ''state''")
      (auto simp: the_text_def transitions_def rank_def LIFECYCLE_STATES_def)
qed

lemma strict_eq_trans: "strict_eq u v \<Longrightarrow> strict_eq v w \<Longrightarrow> strict_eq u w"
  by (auto simp: strict_eq_def split: jsval.splits if_splits)

lemma history_steps:
  "lifecycle_history engine r rs = Inr s \<Longrightarrow>
     validateLifecycle engine r = Inr r \<and> validateLifecycle engine s = Inr s \<and> rank s = rank r + length rs
     \<and> (rs \<noteq> [] \<longrightarrow> list_all (\<lambda>f. strict_eq (prop_of r f) (prop_of s f)) IMMUTABLE_FIELDS)"
proof (induction rs arbitrary: r)
  case Nil
  then show ?case using validateLifecycle_returns by auto
next
  case (Cons q rs)
  then obtain q' where q': "transitionLifecycle engine r q = Inr q'" "lifecycle_history engine q' rs = Inr s" by auto
  note t = transition_steps [OF q'(1)]
  from Cons.IH [OF q'(2)] t show ?case
    using q'(2) by (cases "rs = []") (auto simp: list_all_iff dest: strict_eq_trans dest!: validateLifecycle_returns)
qed

text \<open>
  C21 A generation of data only moves forward. Whatever records replace one another by accepted
  transitions, the last one is valid, lies exactly as many states after the first as there were
  transitions (so there are at most three), carries a timestamp for each state it has passed and
  null for each it has not, and has the identity fields of the first.
\<close>

theorem lifecycle_moves_forward:
  "case lifecycle_history engine r rs of
     Inl e \<Rightarrow> True
   | Inr s \<Rightarrow>
       validateLifecycle engine s = Inr s \<and> rank s = rank r + length rs \<and> rank s < length LIFECYCLE_STATES
       \<and> list_all is_string (take (rank s) (timestamps s)) \<and> list_all ((=) JNull) (drop (rank s) (timestamps s))
       \<and> (if rs = [] then s = r else list_all (\<lambda>f. strict_eq (prop_of r f) (prop_of s f)) IMMUTABLE_FIELDS)"
proof (cases "lifecycle_history engine r rs")
  case (Inr s)
  note h = history_steps [OF Inr]
  then have v: "validateLifecycle engine s = Inr s" by blast
  have "rank s < length LIFECYCLE_STATES" using validateLifecycle_timestamps [OF v] by (simp add: LIFECYCLE_STATES_def)
  moreover have "rs = [] \<Longrightarrow> s = r" using Inr validateLifecycle_returns by fastforce
  ultimately show ?thesis using h validateLifecycle_timestamps [OF v] by (simp add: Inr)
qed simp

end
