(* ===== verification/Machine.thy ===== *)
theory Machine
  imports Main
begin

text \<open>
  Asynchronous components as machines. The single thread of the language interleaves callbacks;
  one event is what runs without interruption, \<open>next e s\<close> the state after it, or \<open>None\<close> when
  the event cannot happen in \<open>s\<close>. A schedule is a list of events.
\<close>

fun run_events :: "('e \<Rightarrow> 's \<Rightarrow> 's option) \<Rightarrow> 'e list \<Rightarrow> 's \<Rightarrow> 's option" where
  "run_events next [] s = Some s"
| "run_events next (e # es) s = (case next e s of None \<Rightarrow> None | Some t \<Rightarrow> run_events next es t)"

inductive reach :: "('e \<Rightarrow> 's \<Rightarrow> 's option) \<Rightarrow> 's \<Rightarrow> 's \<Rightarrow> bool" for "next" init where
  reach_init: "reach next init init"
| reach_step: "reach next init s \<Longrightarrow> next e s = Some t \<Longrightarrow> reach next init t"

lemma run_events_append:
  "run_events next (es @ fs) s = (case run_events next es s of None \<Rightarrow> None | Some t \<Rightarrow> run_events next fs t)"
  by (induction es arbitrary: s) (auto split: option.split)

lemma reach_run: "reach next init s \<Longrightarrow> run_events next es s = Some t \<Longrightarrow> reach next init t"
  by (induction es arbitrary: s) (auto split: option.splits intro: reach_step)

lemma reach_iff_run: "reach next init s \<longleftrightarrow> (\<exists>es. run_events next es init = Some s)"
proof
  assume "reach next init s"
  then show "\<exists>es. run_events next es init = Some s"
  proof induction
    case reach_init
    show ?case by (rule exI [of _ "[]"]) simp
  next
    case (reach_step s e t)
    then obtain es where "run_events next es init = Some s" by blast
    with reach_step.hyps(2) have "run_events next (es @ [e]) init = Some t" by (simp add: run_events_append)
    then show ?case by blast
  qed
next
  assume "\<exists>es. run_events next es init = Some s"
  then obtain es where "run_events next es init = Some s" by (elim exE)
  then show "reach next init s" by (rule reach_run [OF reach_init])
qed

text \<open>
  An inductive invariant: it holds at the start and every event keeps it. A step property
  relates the states before and after every event that starts where the invariant holds.
\<close>

locale machine_invariant =
  fixes "next" :: "'e \<Rightarrow> 's \<Rightarrow> 's option" and init :: 's and holds :: "'s \<Rightarrow> bool"
  assumes holds_init: "holds init" and holds_step: "holds s \<Longrightarrow> next e s = Some t \<Longrightarrow> holds t"
begin

lemma holds_reach: "reach next init s \<Longrightarrow> holds s"
  by (induction rule: reach.induct) (auto intro: holds_init holds_step)

lemma holds_run: "run_events next es init = Some s \<Longrightarrow> holds s"
  using holds_reach reach_iff_run by metis

lemma holds_run_from: "holds s \<Longrightarrow> run_events next es s = Some t \<Longrightarrow> holds t"
  by (induction es arbitrary: s) (auto split: option.splits intro: holds_step)

end

text \<open>A relation that every event extends is kept along a schedule: values never changed once set.\<close>

locale machine_monotone = machine_invariant "next" init holds
  for "next" :: "'e \<Rightarrow> 's \<Rightarrow> 's option" and init :: 's and holds :: "'s \<Rightarrow> bool" +
  fixes leq :: "'s \<Rightarrow> 's \<Rightarrow> bool"
  assumes leq_refl: "holds s \<Longrightarrow> leq s s" and leq_trans: "leq s t \<Longrightarrow> leq t u \<Longrightarrow> leq s u"
    and leq_step: "holds s \<Longrightarrow> next e s = Some t \<Longrightarrow> leq s t"
begin

lemma leq_run: "holds s \<Longrightarrow> run_events next es s = Some t \<Longrightarrow> leq s t"
proof (induction es arbitrary: s)
  case (Cons e es)
  then obtain u where u: "next e s = Some u" "run_events next es u = Some t" by (auto split: option.splits)
  with Cons show ?case by (metis holds_step leq_step leq_trans)
qed (simp add: leq_refl)

end

end
