(* ===== verification/Datascript_Loader.thy ===== *)
theory Datascript_Loader
  imports Contracts_Base Machine
begin

text \<open>
  \<open>packages/explorer-state/src/datascript-runtime-loader.mjs\<close>: the script of the browser runtime is
  loaded once per asset. The document is the environment: an event is a call of the loader, a callback of
  a script element or of its timer, or the microtask that forgets a failed load.
\<close>

subsection \<open>The loader\<close>

definition runtime_asset :: "string \<Rightarrow> bool" where
  \<comment> \<open>\<open>/^\/datascript\/assets\/datascript-runtime-[a-f0-9]{64}\.js$/u\<close>\<close>
  "runtime_asset s \<longleftrightarrow> (let prefix = ''/datascript/assets/datascript-runtime-''; n = length prefix in
     take n s = prefix \<and> lower_hex 64 (take 64 (drop n s)) \<and> drop (n + 64) s = ''.js'')"

datatype load_point = Loading | Loaded | Failed string | Forgotten string

record script =
  asset :: string
  load_point :: load_point
  attached :: bool

record loader =
  scripts :: "script list"
  loads :: "string \<rightharpoonup> nat"
  given :: "(string + nat) list"

definition start_loader :: loader where "start_loader = \<lparr>scripts = [], loads = Map.empty, given = []\<rparr>"

definition give :: "string + nat \<Rightarrow> loader \<Rightarrow> loader" where
  \<comment> \<open>what a call returns: a rejection, or the promise of a script\<close>
  "give r s = s\<lparr>given := given s @ [r]\<rparr>"

definition loadRuntime :: "string option \<Rightarrow> loader \<Rightarrow> loader" where
  \<comment> \<open>the argument is the content of the \<open>meta\<close> element, if the document has one\<close>
  "loadRuntime content s = (case content of
     None \<Rightarrow> give (Inl ''The DataScript runtime asset is unavailable. Build or refresh the demo site.'') s
   | Some path \<Rightarrow>
       if \<not> runtime_asset path then give (Inl ''The DataScript runtime asset is unavailable. Build or refresh the demo site.'') s
       else (case loads s path of
         Some i \<Rightarrow> give (Inr i) s
       | None \<Rightarrow> let i = length (scripts s) in
           give (Inr i) (s\<lparr>scripts := scripts s @ [\<lparr>asset = path, load_point = Loading, attached = True\<rparr>], loads := (loads s)(path \<mapsto> i)\<rparr>)))"

definition finish :: "nat \<Rightarrow> string option \<Rightarrow> loader \<Rightarrow> loader" where
  \<comment> \<open>the callbacks and the timer are cleared: only the first of them counts\<close>
  "finish i e s = s\<lparr>scripts := (scripts s)[i := (case e of
     None \<Rightarrow> (scripts s ! i)\<lparr>load_point := Loaded\<rparr> | Some m \<Rightarrow> (scripts s ! i)\<lparr>load_point := Failed m, attached := False\<rparr>)]\<rparr>"

definition forget :: "nat \<Rightarrow> string \<Rightarrow> loader \<Rightarrow> loader" where
  "forget i m s = s\<lparr>scripts := (scripts s)[i := (scripts s ! i)\<lparr>load_point := Forgotten m\<rparr>], loads := (loads s)(asset (scripts s ! i) := None)\<rparr>"

datatype loader_event = Load_Call "string option" | Script_Load nat bool | Script_Error nat | Load_Timeout nat | Load_Caught nat

definition loading :: "loader \<Rightarrow> nat \<Rightarrow> bool" where
  "loading s i \<longleftrightarrow> i < length (scripts s) \<and> load_point (scripts s ! i) = Loading"

fun loader_step :: "loader_event \<Rightarrow> loader \<Rightarrow> loader option" where
  "loader_step (Load_Call content) s = Some (loadRuntime content s)"
| "loader_step (Script_Load i complete) s =
     (if loading s i then Some (finish i (if complete then None else Some ''The DataScript runtime did not initialize its browser interface.'') s) else None)"
| "loader_step (Script_Error i) s = (if loading s i then Some (finish i (Some ''DataScript could not be downloaded. Please retry.'') s) else None)"
| "loader_step (Load_Timeout i) s = (if loading s i then Some (finish i (Some ''Loading DataScript timed out. Please retry.'') s) else None)"
| "loader_step (Load_Caught i) s = (if i < length (scripts s) then (case load_point (scripts s ! i) of Failed m \<Rightarrow> Some (forget i m s) | _ \<Rightarrow> None) else None)"

subsection \<open>One script per asset\<close>

definition forgotten :: "script \<Rightarrow> bool" where
  "forgotten c \<longleftrightarrow> (case load_point c of Forgotten m \<Rightarrow> True | _ \<Rightarrow> False)"

definition alive :: "script \<Rightarrow> bool" where
  "alive c \<longleftrightarrow> load_point c = Loading \<or> load_point c = Loaded"

definition script_ok :: "loader \<Rightarrow> nat \<Rightarrow> bool" where
  "script_ok s i \<longleftrightarrow> runtime_asset (asset (scripts s ! i)) \<and> attached (scripts s ! i) = alive (scripts s ! i)
     \<and> (\<not> forgotten (scripts s ! i) \<longrightarrow> loads s (asset (scripts s ! i)) = Some i)"

definition entry_ok :: "loader \<Rightarrow> string \<Rightarrow> bool" where
  "entry_ok s path \<longleftrightarrow> (case loads s path of None \<Rightarrow> True
     | Some i \<Rightarrow> i < length (scripts s) \<and> asset (scripts s ! i) = path \<and> \<not> forgotten (scripts s ! i))"

definition loader_ok :: "loader \<Rightarrow> bool" where
  "loader_ok s \<longleftrightarrow> (\<forall>i < length (scripts s). script_ok s i) \<and> (\<forall>path. entry_ok s path)"

lemma loader_okI: "(\<And>i. i < length (scripts s) \<Longrightarrow> script_ok s i) \<Longrightarrow> (\<And>path. entry_ok s path) \<Longrightarrow> loader_ok s"
  by (simp add: loader_ok_def)

lemma loader_okD:
  "loader_ok s \<Longrightarrow> i < length (scripts s) \<Longrightarrow> script_ok s i" "loader_ok s \<Longrightarrow> entry_ok s path"
  by (simp_all add: loader_ok_def)

lemma give_ok [simp]: "loader_ok (give r s) = loader_ok s"
  by (simp add: loader_ok_def give_def script_ok_def entry_ok_def cong: option.case_cong)

lemma add_script_ok:
  assumes ok: "loader_ok s" and new: "runtime_asset path" "loads s path = None"
  shows "loader_ok (s\<lparr>scripts := scripts s @ [\<lparr>asset = path, load_point = Loading, attached = True\<rparr>], loads := (loads s)(path \<mapsto> length (scripts s))\<rparr>)" (is "loader_ok ?t")
proof (rule loader_okI)
  fix i assume "i < length (scripts ?t)"
  then consider "i = length (scripts s)" | "i < length (scripts s)" by (auto simp: less_Suc_eq)
  then show "script_ok ?t i"
  proof cases
    case 2
    with loader_okD(1) [OF ok 2] new(2) show ?thesis by (auto simp: script_ok_def nth_append)
  qed (simp add: script_ok_def new alive_def)
next
  fix q
  from loader_okD(2) [OF ok, of q] show "entry_ok ?t q"
    by (auto simp: entry_ok_def nth_append forgotten_def split: option.splits)
qed

lemma loadRuntime_ok: "loader_ok s \<Longrightarrow> loader_ok (loadRuntime content s)"
  by (simp add: loadRuntime_def Let_def add_script_ok split: option.split)

lemma change_script_ok:
  assumes ok: "loader_ok s" and i: "i < length (scripts s)" and c: "asset c = asset (scripts s ! i)" "\<not> forgotten (scripts s ! i)"
    and own: "attached c = alive c" "l = (if forgotten c then (loads s)(asset c := None) else loads s)"
  shows "loader_ok (s\<lparr>scripts := (scripts s)[i := c], loads := l\<rparr>)" (is "loader_ok ?t")
proof (rule loader_okI)
  have here: "runtime_asset (asset c)" "loads s (asset c) = Some i" using loader_okD(1) [OF ok i] c by (auto simp: script_ok_def)
  fix j assume j: "j < length (scripts ?t)"
  show "script_ok ?t j"
  proof (cases "j = i")
    case True
    then show ?thesis using here own i by (simp add: script_ok_def)
  next
    case False
    with loader_okD(1) [OF ok, of j] j here own show ?thesis by (auto simp: script_ok_def)
  qed
next
  fix q
  from loader_okD(2) [OF ok, of q] loader_okD(1) [OF ok i] c own i show "entry_ok ?t q"
    by (auto simp: entry_ok_def script_ok_def nth_list_update split: option.splits if_splits)
qed

lemma script_finish_ok: "loader_ok s \<Longrightarrow> loading s i \<Longrightarrow> loader_ok (finish i e s)"
proof -
  assume "loader_ok s" and i: "loading s i"
  then have "loader_ok (s\<lparr>scripts := (scripts s)[i := c], loads := loads s\<rparr>)" if "asset c = asset (scripts s ! i)" "attached c = alive c" "\<not> forgotten c" for c
    using that by (intro change_script_ok) (auto simp: loading_def forgotten_def)
  from this [of "(scripts s ! i)\<lparr>load_point := Loaded\<rparr>"] this [of "(scripts s ! i)\<lparr>load_point := Failed m, attached := False\<rparr>" for m] i
    loader_okD(1) [OF \<open>loader_ok s\<close>, of i] show ?thesis
    by (auto simp: finish_def loading_def forgotten_def alive_def script_ok_def split: option.split)
qed

lemma forget_ok: "loader_ok s \<Longrightarrow> i < length (scripts s) \<Longrightarrow> load_point (scripts s ! i) = Failed m \<Longrightarrow> loader_ok (forget i m s)"
  unfolding forget_def using loader_okD(1) [of s i] by (intro change_script_ok) (auto simp: forgotten_def alive_def script_ok_def)

interpretation runtime_loader: machine_invariant loader_step start_loader loader_ok
proof
  show "loader_ok start_loader" by (simp add: loader_ok_def start_loader_def entry_ok_def)
  show "loader_ok t" if "loader_ok s" "loader_step e s = Some t" for s e t
    using that by (cases e) (auto simp: loadRuntime_ok script_finish_ok forget_ok split: if_splits load_point.splits)
qed

lemma distinct_numbered:
  "(\<And>i. i < length xs \<Longrightarrow> P (xs ! i) \<Longrightarrow> g (f (xs ! i)) = Some (k + i)) \<Longrightarrow> distinct (map f (filter P xs))"
proof (induction xs arbitrary: k)
  case (Cons x xs)
  have rest: "g (f (xs ! i)) = Some (Suc k + i)" if "i < length xs" "P (xs ! i)" for i using Cons.prems [of "Suc i"] that by simp
  have "f x \<noteq> f y" if "P x" "y \<in> set xs" "P y" for y
    using Cons.prems [of 0] rest that by (auto simp: in_set_conv_nth)
  with Cons.IH [OF rest] show ?case by auto
qed simp

text \<open>
  Whatever the callbacks do, two elements of the document are never scripts of the same asset, every
  one has the path of a built asset, and a call for an asset whose script is in the document adds none.
\<close>

theorem one_script_per_asset:
  "case run_events loader_step es start_loader of
     None \<Rightarrow> True
   | Some s \<Rightarrow> distinct (map asset (filter attached (scripts s))) \<and> list_all (runtime_asset \<circ> asset) (scripts s)
       \<and> list_all (\<lambda>c. attached c \<longrightarrow> scripts (loadRuntime (Some (asset c)) s) = scripts s) (scripts s)"
proof (cases "run_events loader_step es start_loader")
  case (Some s)
  from runtime_loader.holds_run [OF this] have ok: "loader_ok s" .
  have own: "loads s (asset (scripts s ! i)) = Some i" if "i < length (scripts s)" "attached (scripts s ! i)" for i
    using loader_okD(1) [OF ok that(1)] that(2) by (auto simp: script_ok_def alive_def forgotten_def)
  have assets: "runtime_asset (asset (scripts s ! i))" if "i < length (scripts s)" for i using loader_okD(1) [OF ok that] by (simp add: script_ok_def)
  have "distinct (map asset (filter attached (scripts s)))" using own by (intro distinct_numbered [where g = "loads s" and k = 0]) simp
  moreover have "scripts (loadRuntime (Some (asset (scripts s ! i))) s) = scripts s" if "i < length (scripts s)" "attached (scripts s ! i)" for i
    using own [OF that] assets [OF that(1)] by (simp add: loadRuntime_def give_def)
  ultimately show ?thesis using assets Some by (simp add: list_all_length)
qed simp

end
