(* ===== verification/Handshake.thy ===== *)
theory Handshake
  imports Contracts_Base
begin

text \<open>
  \<open>packages/contracts/src/descriptor-handshake.mjs\<close>: what a client makes of a profile's health and
  bootstrap answers before it talks to the profile. Reading a property of null or undefined is
  the language's TypeError.
\<close>

definition IDENTITY_FIELDS :: "string list" where
  "IDENTITY_FIELDS = [''profileId'', ''demoSha'', ''eaclSha'', ''artifactSha256'', ''deploymentId'', ''dataManifestSha256'']"

definition DEPLOYMENT_FIELDS :: "string list" where
  "DEPLOYMENT_FIELDS = filter (\<lambda>f. f \<noteq> ''profileId'') IDENTITY_FIELDS"

abbreviation identity_mismatch :: js_error where "identity_mismatch \<equiv> Coded ''identity-mismatch''"

definition assertProfileIdentity :: "jsval \<Rightarrow> jsval \<Rightarrow> js_error + unit" where
  "assertProfileIdentity actual profileId =
     throw_if (\<not> truthy actual \<or> list_ex (\<lambda>f. \<not> is_string (prop_of actual f)) IDENTITY_FIELDS
         \<or> \<not> strict_eq (prop_of actual ''profileId'') profileId) identity_mismatch (Inr ())"

definition assertSameIdentity :: "jsval \<Rightarrow> jsval \<Rightarrow> js_error + unit" where
  "assertSameIdentity health bootstrap =
     throw_if (list_ex (\<lambda>f. \<not> strict_eq (prop_of health f) (prop_of bootstrap f)) IDENTITY_FIELDS) identity_mismatch (Inr ())"

definition deploymentIdentityWarning :: "(string \<times> jsval) list \<Rightarrow> jsval \<Rightarrow> jsval" where
  "deploymentIdentityWarning expected actual =
     (let differences = filter (\<lambda>f. \<not> strict_eq (prop_of (JObj expected) f) (prop_of actual f)) DEPLOYMENT_FIELDS in
      if differences = [] then JNull
      else JObj [(''code'', JStr ''deployment-identity-drift''),
        (''message'', JStr (if ''eaclSha'' \<in> set differences
           then ''The service is running an out-of-date EACL version.''
           else ''The service deployment differs from the published registry version.'')),
        (''expected'', JObj expected), (''actual'', actual),
        (''differences'', JArr (map (\<lambda>f. JObj [(''field'', JStr f), (''expected'', prop_of (JObj expected) f),
            (''actual'', prop_of actual f)]) differences))])"

definition expected_identity :: "jsval \<Rightarrow> js_error + (string \<times> jsval) list" where
  "expected_identity registryProfile =
     (let deployment = prop_of registryProfile ''deployment'' in
      bind_r (get_r (prop_of deployment ''artifact'') ''sha256'') (\<lambda>artifact.
        Inr [(''profileId'', prop_of registryProfile ''id''), (''demoSha'', prop_of deployment ''demoSha''),
             (''eaclSha'', prop_of deployment ''eaclSha''), (''artifactSha256'', artifact),
             (''deploymentId'', prop_of deployment ''deploymentId''),
             (''dataManifestSha256'', prop_of deployment ''dataManifestSha256'')]))"

definition same_basis :: "jsval \<Rightarrow> jsval \<Rightarrow> bool" where
  "same_basis health bootstrap \<longleftrightarrow> truthy health \<and> truthy bootstrap \<and>
     list_all (\<lambda>f. strict_eq (prop_of health f) (prop_of bootstrap f)) [''id'', ''behavior'', ''fixedForEnvironment'']"

definition validateDescriptorHandshake :: "jsval \<Rightarrow> jsval \<Rightarrow> jsval \<Rightarrow> jsval \<Rightarrow> js_error + jsval" where
  "validateDescriptorHandshake registryProfile route health bootstrap =
     throw_if (\<not> truthy registryProfile \<or> prop_of registryProfile ''state'' \<noteq> JStr ''enabled''
         \<or> \<not> truthy (prop_of registryProfile ''deployment'')) identity_mismatch
     (throw_if (\<not> strict_eq route (prop_of registryProfile ''route'')) identity_mismatch
     (throw_if (\<not> truthy health \<or> prop_of health ''status'' \<noteq> JStr ''ready'' \<or> prop_of health ''ready'' \<noteq> JBool True)
       identity_mismatch
     (throw_if (\<not> truthy bootstrap) identity_mismatch
     (bind_r (expected_identity registryProfile) (\<lambda>expected.
      let hi = prop_of health ''identity''; bi = prop_of bootstrap ''identity'';
          profileId = prop_of registryProfile ''id''; profile = prop_of bootstrap ''profile'' in
      bind_r (assertProfileIdentity hi profileId) (\<lambda>_.
      bind_r (assertProfileIdentity bi profileId) (\<lambda>_.
      bind_r (assertSameIdentity hi bi) (\<lambda>_.
      throw_if (\<not> truthy profile \<or> \<not> strict_eq (prop_of profile ''backend'') (prop_of registryProfile ''backend'')
          \<or> \<not> strict_eq (prop_of profile ''storage'') (prop_of registryProfile ''storage'')) identity_mismatch
      (throw_if (\<not> strict_eq (prop_of hi ''dataManifestSha256'') (prop_of bi ''dataManifestSha256'')) identity_mismatch
      (throw_if (\<not> same_basis (prop_of health ''basis'') (prop_of bootstrap ''basis'')) identity_mismatch
      (bind_r (get_r (prop_of bootstrap ''dataset'') ''manifestSha256'') (\<lambda>manifest.
       throw_if (\<not> strict_eq manifest (prop_of bi ''dataManifestSha256'')) identity_mismatch
       (Inr (JObj ([(''profileId'', profileId), (''route'', route), (''contract'', prop_of bootstrap ''contract''),
          (''deployment'', JObj (map (\<lambda>f. (f, prop_of hi f)) [''demoSha'', ''eaclSha'', ''artifactSha256'', ''deploymentId''])),
          (''dataManifestSha256'', prop_of bi ''dataManifestSha256'')]
          @ map (\<lambda>f. (f, prop_of bootstrap f)) [''basis'', ''profile'', ''runtime'', ''capabilities'', ''limits'', ''dataset'']
          @ [(''identityWarning'', deploymentIdentityWarning expected hi)])))))))))))))))"

lemma DEPLOYMENT_FIELDS_eq:
  "DEPLOYMENT_FIELDS = [''demoSha'', ''eaclSha'', ''artifactSha256'', ''deploymentId'', ''dataManifestSha256'']"
  by (simp add: DEPLOYMENT_FIELDS_def IDENTITY_FIELDS_def)

lemma prop_of_JObj: "prop_of (JObj kvs) k = (case map_of kvs k of None \<Rightarrow> JUndef | Some x \<Rightarrow> x)"
  by (simp add: prop_of_def)

lemma is_string_strict: "is_string v \<Longrightarrow> strict_eq v w \<longleftrightarrow> w = v"
  by (cases v) auto

definition registered_field :: "jsval \<Rightarrow> string \<Rightarrow> jsval" where
  "registered_field registryProfile f =
     (let d = prop_of registryProfile ''deployment'' in
      if f = ''artifactSha256'' then prop_of (prop_of d ''artifact'') ''sha256'' else prop_of d f)"

lemma expected_fields:
  "expected_identity p = Inr expected \<Longrightarrow> f \<in> set DEPLOYMENT_FIELDS \<Longrightarrow> prop_of (JObj expected) f = registered_field p f"
  by (auto simp: expected_identity_def get_r_def DEPLOYMENT_FIELDS_eq prop_of_def registered_field_def Let_def split: if_splits)

text \<open>
  C18 A profile passes the handshake only when it is enabled, was asked on its registered route,
  reports ready, and names in health and in bootstrap the very same identity for the registered
  profile, backend, storage and data manifest. A deployment that differs from the registered one
  passes, but then with a warning that lists exactly the fields that differ. Every refusal is
  \<open>identity-mismatch\<close>, except a TypeError on a part that is missing altogether.
\<close>

theorem handshake_binds_identity:
  "case validateDescriptorHandshake p route health bootstrap of
     Inl e \<Rightarrow> e \<in> {Coded ''identity-mismatch'', Type_Error}
   | Inr d \<Rightarrow>
       prop_of p ''state'' = JStr ''enabled'' \<and> strict_eq route (prop_of p ''route'') \<and> prop_of health ''ready'' = JBool True
       \<and> prop_of (prop_of health ''identity'') ''profileId'' = prop_of p ''id''
       \<and> list_all (\<lambda>f. is_string (prop_of (prop_of health ''identity'') f) \<and>
            prop_of (prop_of bootstrap ''identity'') f = prop_of (prop_of health ''identity'') f) IDENTITY_FIELDS
       \<and> prop_of (prop_of bootstrap ''dataset'') ''manifestSha256'' = prop_of (prop_of health ''identity'') ''dataManifestSha256''
       \<and> prop_of d ''profileId'' = prop_of p ''id''
       \<and> (case filter (\<lambda>f. registered_field p f \<noteq> prop_of (prop_of health ''identity'') f) DEPLOYMENT_FIELDS of
            [] \<Rightarrow> prop_of d ''identityWarning'' = JNull
          | fs \<Rightarrow> (case prop_of (prop_of d ''identityWarning'') ''differences'' of
              JArr ds \<Rightarrow> map (\<lambda>x. prop_of x ''field'') ds = map JStr fs | _ \<Rightarrow> False))"
proof (cases "validateDescriptorHandshake p route health bootstrap")
  case (Inl e)
  then show ?thesis
    by (auto simp: validateDescriptorHandshake_def assertProfileIdentity_def assertSameIdentity_def expected_identity_def
        get_r_def bind_r_def Let_def split: if_splits)
next
  case (Inr d)
  let ?hi = "prop_of health ''identity''" and ?bi = "prop_of bootstrap ''identity''"
  from Inr obtain expected where
    e: "expected_identity p = Inr expected" and
    h: "prop_of p ''state'' = JStr ''enabled''" "strict_eq route (prop_of p ''route'')" "prop_of health ''ready'' = JBool True" and
    i: "assertProfileIdentity ?hi (prop_of p ''id'') = Inr ()" "assertSameIdentity ?hi ?bi = Inr ()" and
    m: "strict_eq (prop_of (prop_of bootstrap ''dataset'') ''manifestSha256'') (prop_of ?bi ''dataManifestSha256'')" and
    d: "prop_of d ''profileId'' = prop_of p ''id''" "prop_of d ''identityWarning'' = deploymentIdentityWarning expected ?hi"
    by (auto simp: validateDescriptorHandshake_def get_r_def Let_def prop_of_JObj split: if_splits)
  have str: "is_string (prop_of ?hi f)" if "f \<in> set IDENTITY_FIELDS" for f
    using i(1) that by (auto simp: assertProfileIdentity_def list_ex_iff split: if_splits)
  have same: "prop_of ?bi f = prop_of ?hi f" if "f \<in> set IDENTITY_FIELDS" for f
    using i(2) that is_string_strict [OF str [OF that]] by (auto simp: assertSameIdentity_def list_ex_iff split: if_splits)
  have pid: "prop_of ?hi ''profileId'' = prop_of p ''id''"
    using i(1) is_string_strict [OF str, of "''profileId''"] by (auto simp: assertProfileIdentity_def IDENTITY_FIELDS_def split: if_splits)
  have data: "''dataManifestSha256'' \<in> set IDENTITY_FIELDS" by (simp add: IDENTITY_FIELDS_def)
  have man: "prop_of (prop_of bootstrap ''dataset'') ''manifestSha256'' = prop_of ?hi ''dataManifestSha256''"
    using m same [OF data] str [OF data] by (cases "prop_of ?hi ''dataManifestSha256''") auto
  have "strict_eq (prop_of (JObj expected) f) (prop_of ?hi f) \<longleftrightarrow> registered_field p f = prop_of ?hi f"
    if "f \<in> set DEPLOYMENT_FIELDS" for f
  proof -
    have "is_string (prop_of ?hi f)" using that str by (simp add: DEPLOYMENT_FIELDS_def)
    then show ?thesis using expected_fields [OF e that] by (cases "prop_of ?hi f") auto
  qed
  then have "filter (\<lambda>f. \<not> strict_eq (prop_of (JObj expected) f) (prop_of ?hi f)) DEPLOYMENT_FIELDS
      = filter (\<lambda>f. registered_field p f \<noteq> prop_of ?hi f) DEPLOYMENT_FIELDS"
    by (intro filter_cong) auto
  then have warning: "case filter (\<lambda>f. registered_field p f \<noteq> prop_of ?hi f) DEPLOYMENT_FIELDS of
      [] \<Rightarrow> prop_of d ''identityWarning'' = JNull
    | fs \<Rightarrow> (case prop_of (prop_of d ''identityWarning'') ''differences'' of
        JArr ds \<Rightarrow> map (\<lambda>x. prop_of x ''field'') ds = map JStr fs | _ \<Rightarrow> False)"
    unfolding d(2) deploymentIdentityWarning_def Let_def by (simp add: prop_of_JObj split: list.split)
  have "list_all (\<lambda>f. is_string (prop_of ?hi f) \<and> prop_of ?bi f = prop_of ?hi f) IDENTITY_FIELDS"
    using str same by (simp add: list_all_iff)
  then show ?thesis unfolding Inr sum.case by (intro conjI h pid man d(1) warning)
qed

end
