(* ===== verification/Failures.thy ===== *)
theory Failures
  imports Guards
begin

text \<open>The failures the explorer shows: those with a public message, and every other exception.\<close>

text \<open>\<open>publicError\<close> carries a code, a message for the user and whether a retry may help.\<close>

datatype failure =
    Public jsval jsval bool
  | Plain js_error

definition public_error :: "string \<Rightarrow> string \<Rightarrow> bool \<Rightarrow> failure" where
  "public_error code shown again = Public (JStr code) (JStr shown) again"

definition plain_r :: "js_error + 'a \<Rightarrow> failure + 'a" where
  "plain_r r = (case r of Inl e \<Rightarrow> Inl (Plain e) | Inr x \<Rightarrow> Inr x)"

lemma plain_r_Inr: "plain_r r = Inr x \<longleftrightarrow> r = Inr x"
  by (simp add: plain_r_def split: sum.split)

end
