(* ===== verification/Http_Transport.thy ===== *)
theory Http_Transport
  imports Http_Client Handshake Failures Spread Machine
begin

text \<open>
  \<open>packages/explorer-state/src/http-transport.mjs\<close>: the transport of one enabled server profile.
  A request is its preparation up to \<open>fetch\<close> and its completion from the answer. Parameters: the
  platform's URL parser \<open>parse\<close>, the generated validators \<open>validateRequest\<close> and
  \<open>validateResponse\<close> the caller passes in, and the decoder of the bounded reader.
\<close>

definition OPERATIONS :: "string list" where
  "OPERATIONS = [''health'', ''bootstrap'', ''list-subjects'', ''get-object'', ''list-relationships'', ''reverse-relationships'',
     ''check-permission'', ''get-schema'', ''get-cache-info'', ''count-objects'', ''lookup-resources'', ''lookup-subjects'', ''count-resources'']"

definition GET_OPERATIONS :: "string list" where "GET_OPERATIONS = [''health'', ''bootstrap'']"
definition LOOPBACK :: "string list" where "LOOPBACK = [''localhost'', ''127.0.0.1'', ''[::1]'', ''::1'']"

definition FUNCTION_URL_HOST :: regex where
  "FUNCTION_URL_HOST = cats [plus_of (cls ''az09'' []), lit ''.lambda-url.'', plus_of (cls ''az09'' ''-''), lit ''.on.aws'']"

definition APPROVED_HTTPS_HOST :: "string list" where "APPROVED_HTTPS_HOST = [''datomic.demo.eacl.dev'', ''datalevin.demo.eacl.dev'']"

definition PROFILE_ID :: regex where
  "PROFILE_ID = Cat (plus_of (cls ''az09'' [])) (star (Cat (lit ''-'') (plus_of (cls ''az09'' []))))"

definition REQUEST_ID :: regex where
  "REQUEST_ID = Cat (cls ''AZaz09'' []) (Rep 0 (Some 127) (cls ''AZaz09'' ''._:-''))"

subsection \<open>Failures\<close>

definition invalid_response :: failure where
  "invalid_response = public_error ''invalid-response'' ''The profile returned an invalid response.'' False"

definition retryableError :: "jsval \<Rightarrow> bool" where
  "retryableError code = member_of [''cancelled'', ''canceled'', ''deadline-exceeded'', ''overloaded'', ''throttled'', ''dependency-unavailable''] code"

subsection \<open>Construction\<close>

definition validateProfile :: "jsval \<Rightarrow> js_error + unit" where
  "validateProfile profile =
     throw_if (\<not> truthy profile \<or> prop_of profile ''state'' \<noteq> JStr ''enabled'' \<or> \<not> truthy (prop_of profile ''deployment'')
         \<or> \<not> str_satisfies (matches PROFILE_ID) (prop_of profile ''id''))
       (error_of (nullish_or (prop_of profile ''reason'') (JStr ''profile is not enabled'')))
     (throw_if (\<not> is_string (prop_of profile ''backend'') \<or> \<not> is_string (prop_of profile ''storage'')) (Error ''profile mapping is missing'') (Inr ()))"

record parsed_url =
  url_href :: string
  origin :: string
  protocol :: string
  hostname :: string
  pathname :: string
  search :: string
  hash :: string
  username :: string
  password :: string
  port :: string

definition validateApiOrigin :: "(string \<Rightarrow> string option \<Rightarrow> parsed_url option) \<Rightarrow> jsval \<Rightarrow> js_error + string" where
  "validateApiOrigin parse v =
     throw_if (\<not> str_satisfies (\<lambda>s. s \<noteq> []) v) (Error ''enabled server profile requires a deployment origin'')
     (case parse (the_str v) None of
        None \<Rightarrow> Inl Type_Error
      | Some url \<Rightarrow>
          throw_if (username url \<noteq> [] \<or> password url \<noteq> [] \<or> pathname url \<noteq> ''/'' \<or> search url \<noteq> [] \<or> hash url \<noteq> [] \<or> port url \<noteq> [])
            (Error ''HTTP profile API origin must be an origin without credentials or a path'')
          (throw_if (if hostname url \<in> set LOOPBACK then protocol url \<notin> {''http:'', ''https:''}
              else protocol url \<noteq> ''https:'' \<or> \<not> matches FUNCTION_URL_HOST (hostname url) \<and> hostname url \<notin> set APPROVED_HTTPS_HOST)
            (Error ''HTTP profile transport requires an approved HTTPS deployment origin or loopback origin'')
          (Inr (origin url))))"

record server_transport =
  profile :: jsval
  api_origin :: string
  response_limit :: jsval
  released :: bool
  sequence :: nat

definition createServerProfileTransport ::
    "(string \<Rightarrow> string option \<Rightarrow> parsed_url option) \<Rightarrow> jsval \<Rightarrow> bool \<Rightarrow> jsval \<Rightarrow> jsval \<Rightarrow> js_error + server_transport" where
  "createServerProfileTransport parse p has_dependencies timeoutMs maximumResponseBytes =
     bind_r (validateProfile p) (\<lambda>_.
     throw_if (\<not> has_dependencies) Type_Error
     (throw_if (\<not> safe_int_between 1000 60000 timeoutMs) (Error ''HTTP profile timeout is invalid'')
     (throw_if (\<not> safe_int_between 1 1048576 maximumResponseBytes) (Error ''HTTP response limit is invalid'')
     (bind_r (validateApiOrigin parse (prop_of p ''apiOrigin'')) (\<lambda>a.
      throw_if (prop_of p ''route'' \<noteq> JStr ''/'') (Error ''enabled profile route is not canonical'')
      (Inr \<lparr>profile = p, api_origin = a, response_limit = maximumResponseBytes, released = False, sequence = 0\<rparr>))))))"

subsection \<open>Binding of an answer to its request\<close>

definition validateEnvelopeBinding :: "jsval \<Rightarrow> string \<Rightarrow> jsval \<Rightarrow> failure + jsval" where
  "validateEnvelopeBinding envelope requestId status =
     (let success = has_prop envelope ''data'' \<and> \<not> has_prop envelope ''error'';
          failed = has_prop envelope ''error'' \<and> \<not> has_prop envelope ''data'' in
      throw_if ((case envelope of JObj _ \<Rightarrow> False | JArr _ \<Rightarrow> False | _ \<Rightarrow> True) \<or> \<not> truthy (prop_of envelope ''meta'')) invalid_response
      (throw_if (prop_of (prop_of envelope ''meta'') ''requestId'' \<noteq> JStr requestId)
        (public_error ''identity-mismatch'' ''The profile response did not match this request.'' False)
      (throw_if (\<not> success \<and> \<not> failed) invalid_response
      (if status \<in> {JNull, JUndef} then Inr envelope
       else throw_if (case status of JInt n \<Rightarrow> n < 200 \<or> 599 < n | _ \<Rightarrow> True)
          (public_error ''invalid-response'' ''The profile returned an invalid HTTP status.'' False)
        (throw_if (success \<and> status \<noteq> JInt 200) (public_error ''invalid-response'' ''The profile success status was invalid.'' False)
        (throw_if (failed \<and> the_int status < 400) (public_error ''invalid-response'' ''The profile failure status was invalid.'' False)
        (Inr envelope)))))))"

subsection \<open>A request\<close>

record wire_request =
  request_id :: string
  http_method :: string
  http_headers :: "(string \<times> string) list"
  http_body :: "string option"
  http_href :: string

definition request_id_of :: "jsval \<Rightarrow> server_transport \<Rightarrow> js_error + (jsval \<times> server_transport)" where
  "request_id_of options t =
     (if \<not> nullish (prop_of options ''requestId'') then Inr (prop_of options ''requestId'', t)
      else bind_r (text_r (nullish_or (prop_of options ''epoch'') (JInt 0))) (\<lambda>e.
        Inr (JStr (''browser-'' @ e @ ''-'' @ nat_str (sequence t + 1)), t\<lparr>sequence := sequence t + 1\<rparr>)))"

definition wire_of ::
    "(string \<Rightarrow> string option \<Rightarrow> parsed_url option) \<Rightarrow> string \<Rightarrow> string \<Rightarrow> string \<Rightarrow> jsval \<Rightarrow> js_error + wire_request" where
  "wire_of parse apiOrigin operation requestId logicalRequest =
     (let post = operation \<notin> set GET_OPERATIONS; path = ''/'' @ operation in
      bind_r (if post then get_r logicalRequest ''input'' else Inr JNull) (\<lambda>input.
      case parse path (Some apiOrigin) of
        None \<Rightarrow> Inl Type_Error
      | Some url \<Rightarrow>
          throw_if (origin url \<noteq> apiOrigin \<or> pathname url \<noteq> path \<or> search url \<noteq> [] \<or> hash url \<noteq> [])
            (Error ''HTTP profile request escaped its deployment route'')
          (Inr \<lparr>request_id = requestId, http_method = (if post then ''POST'' else ''GET''),
            http_headers = (if post then [(''content-type'', ''application/json; charset=utf-8'')] else []) @ [(''x-eacl-request-id'', requestId)],
            http_body = (if post then (if input = JUndef then None else Some (json input)) else None), http_href = url_href url\<rparr>)))"

definition prepare_request ::
    "(string \<Rightarrow> string option \<Rightarrow> parsed_url option) \<Rightarrow> (jsval \<Rightarrow> js_error + jsval) \<Rightarrow> string \<Rightarrow> jsval \<Rightarrow> jsval \<Rightarrow> server_transport
      \<Rightarrow> (failure + wire_request) \<times> server_transport" where
  "prepare_request parse validateRequest operation input options t =
     (if released t then (Inl (public_error ''cancelled'' ''The selected profile transport has been released.'' True), t)
      else if operation \<notin> set OPERATIONS \<or> \<not> is_object input then (Inl (Plain Type_Error), t)
      else (case request_id_of options t of
        Inl e \<Rightarrow> (Inl (Plain e), t)
      | Inr (i, t') \<Rightarrow>
          (if \<not> str_satisfies (matches REQUEST_ID) i then Inl (Plain Type_Error)
           else plain_r (bind_r (validateRequest (JObj [(''contractVersion'', JStr ''explorer.v1''), (''profileId'', prop_of (profile t) ''id''),
               (''requestId'', i), (''operation'', JStr operation), (''input'', input)]))
             (wire_of parse (api_origin t) operation (the_str i))), t')))"

text \<open>What the network answers: a response or a rejection, and whether the deadline had fired.\<close>

record wire_response =
  redirected :: jsval
  media_type :: jsval
  status :: jsval
  payload :: http_response

record wire_answer =
  reply :: "js_error + wire_response option"
  deadline_fired :: bool

definition json_media :: "jsval \<Rightarrow> failure + bool" where
  "json_media v = (case nullish_or v (JStr []) of
     JStr s \<Rightarrow> Inr (starts_with ''application/json'' (to_lower s)) | _ \<Rightarrow> Inl (Plain Type_Error))"

definition read_envelope ::
    "'d text_stream \<Rightarrow> (string \<Rightarrow> jsval) \<Rightarrow> (jsval \<Rightarrow> js_error + jsval) \<Rightarrow> jsval \<Rightarrow> string \<Rightarrow> wire_answer \<Rightarrow> failure + jsval" where
  "read_envelope d num validateResponse maximumBytes requestId a =
     bind_r (plain_r (reply a)) (\<lambda>r.
     case r of
       None \<Rightarrow> Inl invalid_response
     | Some w \<Rightarrow>
         throw_if (redirected w = JBool True) invalid_response
         (bind_r (json_media (media_type w)) (\<lambda>ok.
          throw_if (\<not> ok) invalid_response
          (bind_r (plain_r (bind_r (readBoundedJsonResponse d num maximumBytes (payload w)) validateResponse)) (\<lambda>envelope.
           validateEnvelopeBinding envelope requestId (status w))))))"

definition complete_request ::
    "'d text_stream \<Rightarrow> (string \<Rightarrow> jsval) \<Rightarrow> (jsval \<Rightarrow> js_error + jsval) \<Rightarrow> jsval \<Rightarrow> string \<Rightarrow> wire_answer \<Rightarrow> failure + jsval" where
  "complete_request d num validateResponse maximumBytes requestId a =
     (case read_envelope d num validateResponse maximumBytes requestId a of
        Inr envelope \<Rightarrow> Inr envelope
      | Inl e \<Rightarrow> Inl (if deadline_fired a then public_error ''deadline-exceeded'' ''The profile request exceeded its client deadline.'' True else e))"

definition performRequest ::
    "(string \<Rightarrow> string option \<Rightarrow> parsed_url option) \<Rightarrow> (jsval \<Rightarrow> js_error + jsval) \<Rightarrow> (jsval \<Rightarrow> js_error + jsval) \<Rightarrow> 'd text_stream \<Rightarrow> (string \<Rightarrow> jsval)
      \<Rightarrow> string \<Rightarrow> jsval \<Rightarrow> jsval \<Rightarrow> server_transport \<Rightarrow> wire_answer \<Rightarrow> failure + jsval" where
  "performRequest parse validateRequest validateResponse d num operation input options t a =
     bind_r (fst (prepare_request parse validateRequest operation input options t)) (\<lambda>w.
       complete_request d num validateResponse (response_limit t) (request_id w) a)"

subsection \<open>Bootstrap and release\<close>

definition sameBasis :: "jsval \<Rightarrow> jsval \<Rightarrow> bool" where
  "sameBasis left right \<longleftrightarrow> strict_eq (prop_of left ''id'') (prop_of right ''id'') \<and> strict_eq (prop_of left ''capturedAt'') (prop_of right ''capturedAt'')"

definition refuse_error :: "jsval \<Rightarrow> failure + jsval" where
  "refuse_error envelope =
     (let e = prop_of envelope ''error'' in
      if truthy e then Inl (Public (prop_of e ''code'') (prop_of e ''message'') (retryableError (prop_of e ''code''))) else Inr (prop_of envelope ''data''))"

text \<open>
  \<open>ask k operation\<close> is the outcome of the \<open>k\<close>-th request of the startup: other calls may run in
  between, so each has its own state of the transport.
\<close>

definition bootstrap_with :: "(nat \<Rightarrow> string \<Rightarrow> failure + jsval) \<Rightarrow> jsval \<Rightarrow> failure + jsval" where
  "bootstrap_with ask p =
     bind_r (bind_r (ask 0 ''health'') refuse_error) (\<lambda>first.
     bind_r (bind_r (ask 1 ''bootstrap'') refuse_error) (\<lambda>bootstrap.
     bind_r (if sameBasis (prop_of first ''basis'') (prop_of bootstrap ''basis'') then Inr first
             else bind_r (ask 2 ''health'') refuse_error) (\<lambda>health.
     bind_r (plain_r (validateDescriptorHandshake p (prop_of p ''route'') health bootstrap)) (\<lambda>handshake.
     let warning = prop_of handshake ''identityWarning'' in
     Inr (spread ([bootstrap, JObj [(''basis'', prop_of health ''basis'')]] @ (if truthy warning then [JObj [(''identityWarning'', warning)]] else [])))))))"

definition startup_options :: "jsval \<Rightarrow> jsval" where
  "startup_options options = JObj (filter (\<lambda>(k, v). k \<noteq> ''requestId'') (props options))"

definition bootstrap_transport ::
    "(string \<Rightarrow> string option \<Rightarrow> parsed_url option) \<Rightarrow> (jsval \<Rightarrow> js_error + jsval) \<Rightarrow> (jsval \<Rightarrow> js_error + jsval) \<Rightarrow> 'd text_stream \<Rightarrow> (string \<Rightarrow> jsval)
      \<Rightarrow> jsval \<Rightarrow> jsval \<Rightarrow> (nat \<Rightarrow> server_transport \<times> wire_answer) \<Rightarrow> failure + jsval" where
  "bootstrap_transport parse validateRequest validateResponse d num options p network =
     bootstrap_with (\<lambda>k operation. performRequest parse validateRequest validateResponse d num operation (JObj []) (startup_options options)
       (fst (network k)) (snd (network k))) p"

definition release_transport :: "server_transport \<Rightarrow> bool \<times> server_transport" where
  "release_transport t = (if released t then (False, t) else (True, t\<lparr>released := True\<rparr>))"

subsection \<open>The bounded signal\<close>

text \<open>
  The signal of one request: the parents it listens to, whether it is aborted and whether its
  timer has fired. Its events are a parent's abort, the timer, and \<open>close\<close>.
\<close>

record bounded_signal =
  listening :: "nat list"
  timer :: bool
  signal_aborted :: bool
  timed_out :: bool

definition boundedSignal :: "bool option list \<Rightarrow> bounded_signal" where
  \<comment> \<open>each parent is absent, aborted (\<open>True\<close>) or live\<close>
  "boundedSignal signals =
     \<lparr>listening = filter (\<lambda>i. signals ! i = Some False) [0..<length signals], timer = True,
      signal_aborted = (Some True \<in> set signals), timed_out = False\<rparr>"

datatype signal_event = Parent_Aborts nat | Timer_Fires | Closes

fun signal_step :: "signal_event \<Rightarrow> bounded_signal \<Rightarrow> bounded_signal option" where
  "signal_step (Parent_Aborts i) s =
     (if i \<in> set (listening s) then Some (s\<lparr>listening := filter (\<lambda>j. j \<noteq> i) (listening s), signal_aborted := True\<rparr>) else Some s)"
| "signal_step Timer_Fires s = (if timer s then Some (s\<lparr>timer := False, signal_aborted := True, timed_out := True\<rparr>) else None)"
| "signal_step Closes s = Some (s\<lparr>listening := [], timer := False\<rparr>)"

subsection \<open>A transport in use\<close>

text \<open>
  Calls of \<open>request\<close> and \<open>release\<close> in any order. A call runs up to its \<open>fetch\<close> at once, so
  the log \<open>sent\<close> has the requests handed to \<open>fetch\<close>, with their operations, in the order of the calls.
\<close>

record server_session =
  link :: server_transport
  sent :: "(string \<times> wire_request) list"

datatype server_event = Requests_Operation string jsval jsval | Releases_Transport

fun server_step ::
    "(string \<Rightarrow> string option \<Rightarrow> parsed_url option) \<Rightarrow> (jsval \<Rightarrow> js_error + jsval) \<Rightarrow> server_event \<Rightarrow> server_session \<Rightarrow> server_session option" where
  "server_step parse validateRequest (Requests_Operation operation input options) s =
     (case prepare_request parse validateRequest operation input options (link s) of
        (r, t) \<Rightarrow> Some (s\<lparr>link := t, sent := sent s @ (case r of Inl e \<Rightarrow> [] | Inr w \<Rightarrow> [(operation, w)])\<rparr>))"
| "server_step parse validateRequest Releases_Transport s = Some (s\<lparr>link := snd (release_transport (link s))\<rparr>)"

definition approved_site :: "parsed_url \<Rightarrow> bool" where
  "approved_site site \<longleftrightarrow> username site = [] \<and> password site = [] \<and> pathname site = ''/'' \<and> search site = [] \<and> hash site = [] \<and> port site = []
     \<and> (if hostname site \<in> {''localhost'', ''127.0.0.1'', ''[::1]'', ''::1''} then protocol site \<in> {''http:'', ''https:''}
        else protocol site = ''https:''
          \<and> (matches FUNCTION_URL_HOST (hostname site) \<or> hostname site \<in> {''datomic.demo.eacl.dev'', ''datalevin.demo.eacl.dev''}))"

definition sent_to :: "(string \<Rightarrow> string option \<Rightarrow> parsed_url option) \<Rightarrow> string \<Rightarrow> string \<times> wire_request \<Rightarrow> bool" where
  \<comment> \<open>to the operation's own path on the origin, under the identifier in its header\<close>
  "sent_to parse site = (\<lambda>(operation, w). operation \<in> set OPERATIONS \<and> matches REQUEST_ID (request_id w)
     \<and> http_method w = (if operation \<in> {''health'', ''bootstrap''} then ''GET'' else ''POST'')
     \<and> map_of (http_headers w) ''x-eacl-request-id'' = Some (request_id w)
     \<and> (case parse (''/'' @ operation) (Some site) of None \<Rightarrow> False | Some url \<Rightarrow>
          http_href w = url_href url \<and> origin url = site \<and> pathname url = ''/'' @ operation \<and> search url = [] \<and> hash url = []))"

text \<open>The identifier and the shape always agree; the status too, where the response has one.\<close>

definition correlated :: "string \<Rightarrow> jsval \<Rightarrow> jsval \<Rightarrow> bool" where
  "correlated requestId code envelope \<longleftrightarrow>
     prop_of (prop_of envelope ''meta'') ''requestId'' = JStr requestId \<and> (has_prop envelope ''data'' \<longleftrightarrow> \<not> has_prop envelope ''error'')
     \<and> (code \<in> {JNull, JUndef} \<or> (if has_prop envelope ''data'' then code = JInt 200 else code \<in> JInt ` {400..599}))"

lemma binding_correlated: "validateEnvelopeBinding envelope requestId code = Inr v \<Longrightarrow> v = envelope \<and> correlated requestId code envelope"
  by (auto simp: validateEnvelopeBinding_def correlated_def Let_def split: if_splits jsval.splits)

lemma completed_correlated:
  "complete_request d num validateResponse m i a = Inr envelope \<Longrightarrow> case reply a of Inr (Some w) \<Rightarrow> correlated i (status w) envelope | _ \<Rightarrow> False"
  using binding_correlated
  by (fastforce simp: complete_request_def read_envelope_def plain_r_def split: sum.splits option.splits if_splits)

lemma wire_of_facts:
  assumes "wire_of parse apiOrigin operation requestId logicalRequest = Inr w"
  shows "request_id w = requestId \<and> (operation \<in> set OPERATIONS \<and> matches REQUEST_ID requestId \<longrightarrow> sent_to parse apiOrigin (operation, w))"
  using assms by (auto simp: wire_of_def Let_def GET_OPERATIONS_def sent_to_def split: if_splits option.splits)

lemma prepared_facts:
  assumes "prepare_request parse validateRequest operation input options t = (r, t')"
  shows "api_origin t' = api_origin t \<and> response_limit t' = response_limit t \<and> released t' = released t
    \<and> (case r of Inl e \<Rightarrow> True | Inr w \<Rightarrow> \<not> released t \<and> sent_to parse (api_origin t) (operation, w))"
proof -
  have same: "api_origin t' = api_origin t \<and> response_limit t' = response_limit t \<and> released t' = released t"
    using assms by (auto simp: prepare_request_def request_id_of_def bind_r_def split: if_splits sum.splits)
  have "\<not> released t \<and> sent_to parse (api_origin t) (operation, w)" if w: "r = Inr w" for w
  proof -
    obtain i l where i: "str_satisfies (matches REQUEST_ID) i" and "wire_of parse (api_origin t) operation (the_str i) l = Inr w"
      and "\<not> released t" "operation \<in> set OPERATIONS"
      using assms w by (auto simp: prepare_request_def plain_r_def split: if_splits sum.splits)
    moreover have "matches REQUEST_ID (the_str i)" using i by (auto simp: str_satisfies_def split: jsval.splits)
    ultimately show ?thesis using wire_of_facts by blast
  qed
  with same show ?thesis by (simp split: sum.split)
qed

definition session_ok :: "(string \<Rightarrow> string option \<Rightarrow> parsed_url option) \<Rightarrow> string \<Rightarrow> server_session \<Rightarrow> bool" where
  "session_ok parse site s \<longleftrightarrow> api_origin (link s) = site \<and> list_all (sent_to parse site) (sent s)"

lemma server_step_ok:
  assumes "session_ok parse site s" "server_step parse validateRequest e s = Some s'"
  shows "session_ok parse site s'"
proof (cases e)
  case (Requests_Operation operation input options)
  obtain r t where p: "prepare_request parse validateRequest operation input options (link s) = (r, t)" by force
  with prepared_facts [OF p] assms Requests_Operation show ?thesis by (auto simp: session_ok_def split: sum.splits)
qed (use assms in \<open>auto simp: session_ok_def release_transport_def\<close>)

lemma released_link_sends_nothing:
  "released (link s) \<Longrightarrow> case run_events (server_step parse validateRequest) es s of None \<Rightarrow> False | Some s' \<Rightarrow> released (link s') \<and> sent s' = sent s"
proof (induction es arbitrary: s)
  case (Cons e es)
  obtain s' where "server_step parse validateRequest e s = Some s'" "released (link s')" "sent s' = sent s"
    using Cons.prems by (cases e) (simp_all add: prepare_request_def release_transport_def)
  with Cons.IH [of s'] show ?case by (simp split: option.splits)
qed simp

lemma server_runs: "\<exists>s'. run_events (server_step parse validateRequest) es s = Some s'"
proof (induction es arbitrary: s)
  case (Cons e es)
  have "\<exists>s'. server_step parse validateRequest e s = Some s'" by (cases e) (auto split: prod.split)
  with Cons.IH show ?case by auto
qed simp

interpretation server_session: machine_invariant "server_step parse validateRequest" "\<lparr>link = t, sent = []\<rparr>" "session_ok parse (api_origin t)"
  for parse validateRequest t
  by unfold_locales (simp add: session_ok_def, rule server_step_ok)

lemma created_transport:
  assumes "createServerProfileTransport parse p has_dependencies timeoutMs maximumResponseBytes = Inr t"
  obtains site where "parse (the_str (prop_of p ''apiOrigin'')) None = Some site" "approved_site site" "api_origin t = origin site"
  using assms
  by (auto simp: createServerProfileTransport_def validateApiOrigin_def approved_site_def LOOPBACK_def APPROVED_HTTPS_HOST_def bind_r_Inr_iff
      split: if_splits option.splits)

text \<open>
  C38 The requests and answers of a transport, from its creation and for any calls of \<open>request\<close> and
  \<open>release\<close>: its origin is an approved HTTPS host or a loopback one, without credentials, path or port; every
  request it hands to \<open>fetch\<close> goes to an operation's own path on that origin, by GET exactly for health and
  bootstrap, with its identifier in its header; once it is released nothing more is sent, whatever is called.
  What a call returns for a request that was sent is an envelope that names that identifier, with either
  data or an error, and with the status 200 or one from 400 to 599 if the response has a status.
\<close>

theorem server_requests_correlated:
  "case createServerProfileTransport parse p has_dependencies timeoutMs maximumResponseBytes of
     Inl e \<Rightarrow> True
   | Inr t \<Rightarrow>
       (case (parse (the_str (prop_of p ''apiOrigin'')) None, run_events (server_step parse validateRequest) es \<lparr>link = t, sent = []\<rparr>) of
          (Some site, Some s) \<Rightarrow>
            approved_site site \<and> list_all (sent_to parse (origin site)) (sent s)
            \<and> (if released (link s)
               then (case run_events (server_step parse validateRequest) later s of None \<Rightarrow> False | Some s' \<Rightarrow> sent s' = sent s)
               else True)
            \<and> list_all (\<lambda>(operation, w).
                case complete_request d num validateResponse (response_limit t) (request_id w) (network w) of
                  Inl e \<Rightarrow> True
                | Inr envelope \<Rightarrow> (case reply (network w) of Inr (Some answer) \<Rightarrow> correlated (request_id w) (status answer) envelope | _ \<Rightarrow> False)) (sent s)
        | _ \<Rightarrow> False)"
proof (cases "createServerProfileTransport parse p has_dependencies timeoutMs maximumResponseBytes")
  case (Inr t)
  obtain site where site: "parse (the_str (prop_of p ''apiOrigin'')) None = Some site" "approved_site site" "api_origin t = origin site"
    using created_transport [OF Inr] .
  obtain s where s: "run_events (server_step parse validateRequest) es \<lparr>link = t, sent = []\<rparr> = Some s" using server_runs by blast
  have "list_all (sent_to parse (origin site)) (sent s)" using server_session.holds_run [OF s] by (simp add: session_ok_def site(3))
  moreover have "case run_events (server_step parse validateRequest) later s of None \<Rightarrow> False | Some s' \<Rightarrow> sent s' = sent s" if "released (link s)"
    using released_link_sends_nothing [OF that, of parse validateRequest later] by (auto split: option.splits)
  moreover have "list_all (\<lambda>(operation, w). case complete_request d num validateResponse (response_limit t) (request_id w) (network w) of
      Inl e \<Rightarrow> True | Inr envelope \<Rightarrow> (case reply (network w) of Inr (Some answer) \<Rightarrow> correlated (request_id w) (status answer) envelope | _ \<Rightarrow> False)) (sent s)"
    by (simp add: list_all_iff split_def completed_correlated split: sum.split)
  ultimately show ?thesis by (simp add: Inr site s)
qed simp

text \<open>
  A transport that starts up has verified its deployment: the handshake accepted the health and the
  bootstrap it received (the health asked a second time exactly when the first one was of another
  basis), and the descriptor shows the basis of that health and the warning of the handshake.
\<close>

theorem startup_is_verified:
  "case bootstrap_with ask p of
     Inl e \<Rightarrow> True
   | Inr descriptor \<Rightarrow>
       (case (ask 0 ''health'', ask 1 ''bootstrap'') of
          (Inr first, Inr bootstrap) \<Rightarrow>
            (case if sameBasis (prop_of (prop_of first ''data'') ''basis'') (prop_of (prop_of bootstrap ''data'') ''basis'')
                  then Inr first else ask 2 ''health'' of
               Inl e \<Rightarrow> False
             | Inr health \<Rightarrow>
                 (case validateDescriptorHandshake p (prop_of p ''route'') (prop_of health ''data'') (prop_of bootstrap ''data'') of
                    Inl e \<Rightarrow> False
                  | Inr handshake \<Rightarrow>
                      prop_of descriptor ''basis'' = prop_of (prop_of health ''data'') ''basis''
                      \<and> (if truthy (prop_of handshake ''identityWarning'')
                         then prop_of descriptor ''identityWarning'' = prop_of handshake ''identityWarning'' else True)))
        | _ \<Rightarrow> False)"
proof (cases "bootstrap_with ask p")
  case (Inr descriptor)
  have refused: "refuse_error e = Inr v \<Longrightarrow> v = prop_of e ''data''" for e v by (simp add: refuse_error_def Let_def split: if_splits)
  let ?warned = "\<lambda>hs. if truthy (prop_of hs ''identityWarning'') then [JObj [(''identityWarning'', prop_of hs ''identityWarning'')]] else []"
  obtain first bootstrap where asked: "ask 0 ''health'' = Inr first" "ask 1 ''bootstrap'' = Inr bootstrap"
    and rest: "bind_r (if sameBasis (prop_of (prop_of first ''data'') ''basis'') (prop_of (prop_of bootstrap ''data'') ''basis'') then Inr (prop_of first ''data'')
      else bind_r (ask 2 ''health'') refuse_error) (\<lambda>h. bind_r (plain_r (validateDescriptorHandshake p (prop_of p ''route'') h (prop_of bootstrap ''data'')))
        (\<lambda>hs. Inr (spread ([prop_of bootstrap ''data'', JObj [(''basis'', prop_of h ''basis'')]] @ ?warned hs)))) = Inr descriptor"
    using Inr unfolding bootstrap_with_def Let_def bind_r_Inr_iff [of "bind_r (ask _ _) _"] by (auto dest!: refused simp del: append.simps)
  then obtain h handshake where chosen: "(if sameBasis (prop_of (prop_of first ''data'') ''basis'') (prop_of (prop_of bootstrap ''data'') ''basis'') then Inr (prop_of first ''data'')
      else bind_r (ask 2 ''health'') refuse_error) = Inr h"
    and hs: "validateDescriptorHandshake p (prop_of p ''route'') h (prop_of bootstrap ''data'') = Inr handshake"
    and d: "descriptor = spread ([prop_of bootstrap ''data'', JObj [(''basis'', prop_of h ''basis'')]] @ ?warned handshake)"
    unfolding bind_r_Inr_iff plain_r_Inr by blast
  from chosen obtain health where health: "(if sameBasis (prop_of (prop_of first ''data'') ''basis'') (prop_of (prop_of bootstrap ''data'') ''basis'')
      then Inr first else ask 2 ''health'') = Inr health" "h = prop_of health ''data''"
    by (cases "sameBasis (prop_of (prop_of first ''data'') ''basis'') (prop_of (prop_of bootstrap ''data'') ''basis'')") (auto dest!: refused)
  show ?thesis unfolding Inr asked prod.case sum.case health(1) using hs d unfolding health(2) by (simp add: prop_of_spread)
qed simp

end
