(* ===== verification/Datascript_Transport.thy ===== *)
theory Datascript_Transport
  imports Http_Transport Machine
begin

text \<open>
  \<open>packages/explorer-state/src/datascript-profile-transport.mjs\<close>: the transport of the profile that runs
  in the browser. The runtime, whose \<open>initialize\<close> answers with a promise, is the environment;
  \<open>valid_seed\<close> is the generated validator of local seeds. An event is what runs between two awaits; an
  aborted call throws the reason of its signal, here one error.
\<close>

subsection \<open>Construction\<close>

definition identity_error :: "string \<Rightarrow> failure" where
  "identity_error m = public_error ''identity-mismatch'' m False"

definition createDataScriptProfileTransport :: "jsval \<Rightarrow> failure + jsval" where
  "createDataScriptProfileTransport p =
     throw_if (\<not> truthy p \<or> prop_of p ''id'' \<noteq> JStr ''datascript-browser-memory'' \<or> prop_of p ''state'' \<noteq> JStr ''enabled'' \<or> \<not> truthy (prop_of p ''deployment''))
       (identity_error ''The DataScript profile is not an enabled immutable deployment.'')
     (bind_r (plain_r (get_r (prop_of (prop_of p ''deployment'') ''artifact'') ''kind'')) (\<lambda>kind.
      throw_if (kind \<noteq> JStr ''static'') (identity_error ''The DataScript profile does not identify its static browser runtime.'') (Inr p)))"

definition runtime_identity :: "jsval \<Rightarrow> jsval" where
  "runtime_identity p =
     (let d = prop_of p ''deployment'' in
      JObj [(''profileId'', prop_of p ''id''), (''demoSha'', prop_of d ''demoSha''), (''eaclSha'', prop_of d ''eaclSha''),
        (''artifactSha256'', prop_of (prop_of d ''artifact'') ''sha256''), (''deploymentId'', prop_of d ''deploymentId''),
        (''dataManifestSha256'', prop_of d ''dataManifestSha256'')])"

definition hex_id :: "nat list \<Rightarrow> string" where
  \<comment> \<open>the identifier of sixteen random bytes, where the platform has no \<open>randomUUID\<close>\<close>
  "hex_id bytes = concat (map (\<lambda>b. pad_start 2 (CHR ''0'') (radix_str 16 b)) bytes)"

definition LOCAL_SEED :: "string list" where "LOCAL_SEED = [''seed-start'', ''seed-status'', ''seed-retry'']"

subsection \<open>The state\<close>

datatype ds_outcome = Waiting_On nat | Load_Runtime | Both_Sent "jsval option" "jsval option" | Both_Here jsval jsval | Sent_Request bool | Done "failure + jsval"

record ds_call =
  is_bootstrap :: bool
  call_aborted :: bool
  at_point :: ds_outcome

datatype init_promise = Init_Pending | Init_Done | Init_Failed failure

record ds_transport =
  runtime :: "(bool \<times> bool) option"
  inits :: "init_promise list"
  current_init :: "nat option"
  bootstrapped :: bool
  ds_released :: bool
  ds_calls :: "ds_call list"
  asked :: "(nat \<times> string) list"
  release_answers :: "bool list"

text \<open>
  Of a runtime the model keeps whether \<open>initialize\<close> and \<open>request\<close> are functions.
\<close>

definition can_ask :: "ds_transport \<Rightarrow> bool" where
  "can_ask s \<longleftrightarrow> (case runtime s of Some (_, ask) \<Rightarrow> ask | None \<Rightarrow> False)"

definition start_ds :: ds_transport where
  "start_ds = \<lparr>runtime = None, inits = [], current_init = None, bootstrapped = False, ds_released = False, ds_calls = [], asked = [], release_answers = []\<rparr>"

definition released_error :: failure where "released_error = Plain (Error ''DataScript profile transport is released'')"
definition aborted_error :: failure where "aborted_error = Plain (Error ''The request was canceled.'')"

definition set_point :: "nat \<Rightarrow> ds_outcome \<Rightarrow> ds_transport \<Rightarrow> ds_transport" where
  "set_point i x s = s\<lparr>ds_calls := (ds_calls s)[i := (ds_calls s ! i)\<lparr>at_point := x\<rparr>]\<rparr>"

definition still_open :: "nat \<Rightarrow> ds_transport \<Rightarrow> failure + unit" where
  \<comment> \<open>\<open>assertOpen(); throwIfAborted(signal)\<close>\<close>
  "still_open i s = (if ds_released s then Inl released_error else if call_aborted (ds_calls s ! i) then Inl aborted_error else Inr ())"

definition guarded :: "nat \<Rightarrow> (ds_transport \<Rightarrow> ds_transport) \<Rightarrow> ds_transport \<Rightarrow> ds_transport" where
  "guarded i f s = (case still_open i s of Inl e \<Rightarrow> set_point i (Done (Inl e)) s | Inr _ \<Rightarrow> f s)"

subsection \<open>Bootstrap\<close>

definition initialize :: "nat \<Rightarrow> ds_transport \<Rightarrow> ds_transport" where
  "initialize i s =
     (if runtime s \<noteq> Some (True, True) then set_point i (Done (Inl (identity_error ''The DataScript browser runtime did not load.''))) s
      else (case current_init s of
         Some k \<Rightarrow> set_point i (Waiting_On k) s
       | None \<Rightarrow> set_point i (Waiting_On (length (inits s))) (s\<lparr>inits := inits s @ [Init_Pending], current_init := Some (length (inits s))\<rparr>)))"

definition add_call :: "bool \<Rightarrow> bool \<Rightarrow> ds_transport \<Rightarrow> ds_transport" where
  "add_call boot a s = s\<lparr>ds_calls := ds_calls s @ [\<lparr>is_bootstrap = boot, call_aborted = a, at_point = Load_Runtime\<rparr>]\<rparr>"

definition begin_bootstrap :: "bool \<Rightarrow> ds_transport \<Rightarrow> ds_transport" where
  "begin_bootstrap a s =
     (let i = length (ds_calls s) in
      guarded i (\<lambda>s. if runtime s = None then s else initialize i s) (add_call True a s))"

definition provider_settles :: "nat \<Rightarrow> failure + (bool \<times> bool) option \<Rightarrow> ds_transport \<Rightarrow> ds_transport" where
  "provider_settles i r s = (case r of
     Inl e \<Rightarrow> set_point i (Done (Inl e)) s
   | Inr v \<Rightarrow> guarded i (initialize i) (s\<lparr>runtime := v\<rparr>))"

definition init_settles :: "nat \<Rightarrow> failure option \<Rightarrow> ds_transport \<Rightarrow> ds_transport" where
  "init_settles k r s = (case r of
     None \<Rightarrow> s\<lparr>inits := (inits s)[k := Init_Done]\<rparr>
   | Some e \<Rightarrow> s\<lparr>inits := (inits s)[k := Init_Failed e], current_init := None\<rparr>)"

definition ask_both :: "nat \<Rightarrow> ds_transport \<Rightarrow> ds_transport" where
  "ask_both i s =
     (if \<not> can_ask s then set_point i (Done (Inl (Plain Type_Error))) s
      else set_point i (Both_Sent None None) (s\<lparr>asked := asked s @ [(i, ''bootstrap''), (i, ''health'')]\<rparr>))"

definition init_resumes :: "nat \<Rightarrow> nat \<Rightarrow> ds_transport \<Rightarrow> ds_transport option" where
  "init_resumes i k s = (case inits s ! k of
     Init_Pending \<Rightarrow> None
   | Init_Failed e \<Rightarrow> Some (set_point i (Done (Inl e)) s)
   | Init_Done \<Rightarrow> Some (guarded i (ask_both i) s))"

definition arrived :: "nat \<Rightarrow> jsval option \<Rightarrow> jsval option \<Rightarrow> ds_transport \<Rightarrow> ds_transport" where
  "arrived i b h = guarded i (set_point i (case (b, h) of (Some x, Some y) \<Rightarrow> Both_Here x y | _ \<Rightarrow> Both_Sent b h))"

definition descriptor_of :: "(jsval \<Rightarrow> bool) \<Rightarrow> jsval \<Rightarrow> jsval \<Rightarrow> jsval \<Rightarrow> failure + jsval" where
  "descriptor_of valid_seed p b h =
     bind_r (plain_r (get_r b ''error'')) (\<lambda>be. bind_r (if truthy be then Inr be else plain_r (get_r h ''error'')) (\<lambda>e.
     throw_if (truthy e) (identity_error ''The DataScript browser runtime did not complete its descriptor handshake.'')
     (bind_r (plain_r (get_r (prop_of b ''data'') ''localSeed'')) (\<lambda>seed.
      throw_if (\<not> valid_seed seed) (identity_error ''Invalid local seed descriptor.'')
      (bind_r (plain_r (validateDescriptorHandshake p (JStr ''/'') (prop_of h ''data'') (prop_of b ''data''))) (\<lambda>handshake.
       let warning = prop_of handshake ''identityWarning'' in
       Inr (spread ([prop_of b ''data''] @ (if truthy warning then [JObj [(''identityWarning'', warning)]] else [])))))))))"

definition handshakes :: "(jsval \<Rightarrow> bool) \<Rightarrow> jsval \<Rightarrow> nat \<Rightarrow> jsval \<Rightarrow> jsval \<Rightarrow> ds_transport \<Rightarrow> ds_transport" where
  "handshakes valid_seed p i b h s =
     (case descriptor_of valid_seed p b h of
        Inl e \<Rightarrow> set_point i (Done (Inl e)) s
      | Inr d \<Rightarrow> set_point i (Done (Inr d)) (s\<lparr>bootstrapped := True\<rparr>))"

subsection \<open>Requests and release\<close>

definition begin_request :: "(jsval \<Rightarrow> bool) \<Rightarrow> string \<Rightarrow> jsval \<Rightarrow> bool \<Rightarrow> ds_transport \<Rightarrow> ds_transport" where
  "begin_request valid_seed operation input a s =
     (let i = length (ds_calls s); s' = add_call False a s; local = operation \<in> set LOCAL_SEED; refuse = (\<lambda>e. set_point i (Done (Inl e)) s') in
      if ds_released s then refuse released_error
      else if \<not> bootstrapped s then refuse (identity_error ''The DataScript descriptor handshake has not completed.'')
      else if a then refuse aborted_error
      else if local \<and> \<not> valid_seed (JObj [(''operation'', JStr operation), (''input'', input)]) then refuse (Plain (Error ''Invalid local seed input.''))
      else if \<not> can_ask s then refuse (Plain Type_Error)
      else set_point i (Sent_Request local) (s'\<lparr>asked := asked s' @ [(i, operation)]\<rparr>))"

definition request_replies :: "(jsval \<Rightarrow> bool) \<Rightarrow> nat \<Rightarrow> bool \<Rightarrow> failure + jsval \<Rightarrow> ds_transport \<Rightarrow> ds_transport" where
  "request_replies valid_seed i local r s =
     (case bind_r r (\<lambda>v. bind_r (if local then plain_r (get_r v ''data'') else Inr JUndef) (\<lambda>d.
          throw_if (local \<and> truthy d \<and> \<not> valid_seed d) (Plain (Error ''Invalid local seed progress.''))
          (bind_r (still_open i s) (\<lambda>_. Inr v)))) of
        outcome \<Rightarrow> set_point i (Done outcome) s)"

text \<open>The answers to \<open>release\<close>: false, or what the runtime answers and otherwise true, here true.\<close>

definition release_ds :: "ds_transport \<Rightarrow> ds_transport" where
  "release_ds s =
     (if ds_released s then s\<lparr>release_answers := release_answers s @ [False]\<rparr>
      else s\<lparr>ds_released := True, bootstrapped := False, current_init := None, release_answers := release_answers s @ [True]\<rparr>)"

subsection \<open>The machine\<close>

datatype ds_event =
    Ds_Bootstrap bool
  | Provider_Settles nat "failure + (bool \<times> bool) option"
  | Init_Settles nat "failure option"
  | Init_Resumes nat
  | Bootstrap_Replies nat "failure + jsval"
  | Health_Replies nat "failure + jsval"
  | Handshake_Runs nat
  | Ds_Request string jsval bool
  | Request_Replies nat "failure + jsval"
  | Ds_Abort nat
  | Ds_Release

definition point_of :: "ds_transport \<Rightarrow> nat \<Rightarrow> ds_outcome option" where
  "point_of s i = (if i < length (ds_calls s) then Some (at_point (ds_calls s ! i)) else None)"

fun ds_step :: "(jsval \<Rightarrow> bool) \<Rightarrow> jsval \<Rightarrow> ds_event \<Rightarrow> ds_transport \<Rightarrow> ds_transport option" where
  "ds_step valid_seed p (Ds_Bootstrap a) s = Some (begin_bootstrap a s)"
| "ds_step valid_seed p (Provider_Settles i r) s = (case point_of s i of Some Load_Runtime \<Rightarrow> Some (provider_settles i r s) | _ \<Rightarrow> None)"
| "ds_step valid_seed p (Init_Settles k r) s = (if k < length (inits s) \<and> inits s ! k = Init_Pending then Some (init_settles k r s) else None)"
| "ds_step valid_seed p (Init_Resumes i) s = (case point_of s i of Some (Waiting_On k) \<Rightarrow> init_resumes i k s | _ \<Rightarrow> None)"
| "ds_step valid_seed p (Bootstrap_Replies i r) s = (case point_of s i of
     Some (Both_Sent None h) \<Rightarrow> Some (case r of Inl e \<Rightarrow> set_point i (Done (Inl e)) s | Inr v \<Rightarrow> arrived i (Some v) h s)
   | _ \<Rightarrow> None)"
| "ds_step valid_seed p (Health_Replies i r) s = (case point_of s i of
     Some (Both_Sent b None) \<Rightarrow> Some (case r of Inl e \<Rightarrow> set_point i (Done (Inl e)) s | Inr v \<Rightarrow> arrived i b (Some v) s)
   | _ \<Rightarrow> None)"
| "ds_step valid_seed p (Handshake_Runs i) s = (case point_of s i of Some (Both_Here b h) \<Rightarrow> Some (handshakes valid_seed p i b h s) | _ \<Rightarrow> None)"
| "ds_step valid_seed p (Ds_Request operation input a) s = Some (begin_request valid_seed operation input a s)"
| "ds_step valid_seed p (Request_Replies i r) s = (case point_of s i of Some (Sent_Request local) \<Rightarrow> Some (request_replies valid_seed i local r s) | _ \<Rightarrow> None)"
| "ds_step valid_seed p (Ds_Abort i) s = (if i < length (ds_calls s) then Some (s\<lparr>ds_calls := (ds_calls s)[i := (ds_calls s ! i)\<lparr>call_aborted := True\<rparr>]\<rparr>) else None)"
| "ds_step valid_seed p Ds_Release s = Some (release_ds s)"

subsection \<open>Nothing is served unverified or after release\<close>

definition verified_call :: "ds_call \<Rightarrow> bool" where
  "verified_call c \<longleftrightarrow> is_bootstrap c \<and> (case at_point c of Done (Inr d) \<Rightarrow> True | _ \<Rightarrow> False)"

definition served_call :: "ds_call \<Rightarrow> bool" where
  \<comment> \<open>a request that reached the runtime and has not failed\<close>
  "served_call c \<longleftrightarrow> \<not> is_bootstrap c \<and> (case at_point c of Sent_Request l \<Rightarrow> True | Done (Inr v) \<Rightarrow> True | _ \<Rightarrow> False)"

definition answer_of :: "ds_call \<Rightarrow> jsval option" where
  "answer_of c = (case (is_bootstrap c, at_point c) of (False, Done (Inr v)) \<Rightarrow> Some v | _ \<Rightarrow> None)"

definition ds_call_ok :: "(jsval \<Rightarrow> bool) \<Rightarrow> jsval \<Rightarrow> ds_call \<Rightarrow> bool" where
  "ds_call_ok valid_seed p c \<longleftrightarrow> (case at_point c of
     Done (Inr d) \<Rightarrow> is_bootstrap c \<longrightarrow> (\<exists>b h. descriptor_of valid_seed p b h = Inr d)
   | Done (Inl e) \<Rightarrow> True | Sent_Request l \<Rightarrow> \<not> is_bootstrap c | _ \<Rightarrow> is_bootstrap c)"

definition ds_ok :: "(jsval \<Rightarrow> bool) \<Rightarrow> jsval \<Rightarrow> ds_transport \<Rightarrow> bool" where
  "ds_ok valid_seed p s \<longleftrightarrow> list_all (ds_call_ok valid_seed p) (ds_calls s)
     \<and> (bootstrapped s \<or> list_ex served_call (ds_calls s) \<longrightarrow> list_ex verified_call (ds_calls s))"

lemma list_ex_keep: "list_ex P xs \<Longrightarrow> \<not> P (xs ! i) \<Longrightarrow> list_ex P (xs[i := y])"
  by (auto simp: list_ex_length) (metis nth_list_update_neq)

lemma list_ex_new: "list_ex P (xs[i := y]) \<Longrightarrow> list_ex P xs \<or> P y"
  using set_update_subset_insert [of xs i y] by (auto simp: list_ex_iff)

lemma list_all_new: "list_all P xs \<Longrightarrow> P y \<Longrightarrow> list_all P (xs[i := y])"
  using set_update_subset_insert [of xs i y] by (auto simp: list_all_iff)

lemma set_point_ok:
  assumes "ds_ok valid_seed p s" "\<not> verified_call (ds_calls s ! i)" "ds_call_ok valid_seed p ((ds_calls s ! i)\<lparr>at_point := x\<rparr>)"
    "served_call ((ds_calls s ! i)\<lparr>at_point := x\<rparr>) \<Longrightarrow> list_ex verified_call (ds_calls s)"
  shows "ds_ok valid_seed p (set_point i x s)"
  using assms list_ex_keep [of verified_call "ds_calls s" i] list_ex_new [of served_call "ds_calls s" i] list_all_new [of "ds_call_ok valid_seed p" "ds_calls s"]
  unfolding ds_ok_def set_point_def by simp blast

text \<open>The ways a step moves a call of a bootstrap: to another point of its way, or to an error.\<close>

definition on_the_way :: "ds_outcome \<Rightarrow> bool" where
  "on_the_way x \<longleftrightarrow> (case x of Done (Inl e) \<Rightarrow> True | Done (Inr d) \<Rightarrow> False | Sent_Request l \<Rightarrow> False | _ \<Rightarrow> True)"

lemma set_point_way:
  assumes "ds_ok valid_seed p s" "is_bootstrap (ds_calls s ! i)" "at_point (ds_calls s ! i) = y" "on_the_way y" "on_the_way x"
  shows "ds_ok valid_seed p (set_point i x s)"
  using assms by (intro set_point_ok) (auto simp: verified_call_def ds_call_ok_def served_call_def on_the_way_def split: ds_outcome.splits sum.splits)

lemma ok_fields [simp]:
  "ds_ok valid_seed p (s\<lparr>runtime := v\<rparr>) = ds_ok valid_seed p s" "ds_ok valid_seed p (s\<lparr>inits := ps\<rparr>) = ds_ok valid_seed p s"
  "ds_ok valid_seed p (s\<lparr>current_init := k\<rparr>) = ds_ok valid_seed p s" "ds_ok valid_seed p (s\<lparr>asked := xs\<rparr>) = ds_ok valid_seed p s"
  "ds_ok valid_seed p (s\<lparr>release_answers := bs\<rparr>) = ds_ok valid_seed p s"
  by (simp_all add: ds_ok_def)

definition boot_at :: "nat \<Rightarrow> ds_transport \<Rightarrow> bool" where
  "boot_at i s \<longleftrightarrow> is_bootstrap (ds_calls s ! i) \<and> on_the_way (at_point (ds_calls s ! i))"

lemma boot_at_fields [simp]:
  "boot_at i (s\<lparr>runtime := v\<rparr>) = boot_at i s" "boot_at i (s\<lparr>inits := ps\<rparr>) = boot_at i s" "boot_at i (s\<lparr>current_init := k\<rparr>) = boot_at i s"
  "boot_at i (s\<lparr>asked := xs\<rparr>) = boot_at i s"
  by (simp_all add: boot_at_def)

lemma call_move_ok: "ds_ok valid_seed p s \<Longrightarrow> boot_at i s \<Longrightarrow> on_the_way x \<Longrightarrow> ds_ok valid_seed p (set_point i x s)"
  by (rule set_point_way [where y = "at_point (ds_calls s ! i)"]) (simp_all add: boot_at_def)

lemma ways [simp]: "on_the_way (Done (Inl e))" "on_the_way Load_Runtime" "on_the_way (Waiting_On k)" "on_the_way (Both_Sent b h)" "on_the_way (Both_Here x y)"
  "\<not> on_the_way (Sent_Request l)"
  by (simp_all add: on_the_way_def)

lemma guarded_ok: "ds_ok valid_seed p s \<Longrightarrow> boot_at i s \<Longrightarrow> ds_ok valid_seed p (f s) \<Longrightarrow> ds_ok valid_seed p (guarded i f s)"
  by (simp add: guarded_def call_move_ok split: sum.split)

lemma initialize_ok: "ds_ok valid_seed p s \<Longrightarrow> boot_at i s \<Longrightarrow> ds_ok valid_seed p (initialize i s)"
  by (simp add: initialize_def call_move_ok split: option.split)

lemma boot_point: "ds_ok valid_seed p s \<Longrightarrow> point_of s i = Some x \<Longrightarrow> on_the_way x \<Longrightarrow> (\<And>e. x \<noteq> Done (Inl e)) \<Longrightarrow> boot_at i s"
  by (auto simp: ds_ok_def list_all_length point_of_def boot_at_def on_the_way_def ds_call_ok_def split: if_splits ds_outcome.splits sum.splits)

lemma appended: "set_point (length (ds_calls s)) x (add_call b a s) = s\<lparr>ds_calls := ds_calls s @ [\<lparr>is_bootstrap = b, call_aborted = a, at_point = x\<rparr>]\<rparr>"
  by (simp add: set_point_def add_call_def)

lemma add_boot: "ds_ok valid_seed p s \<Longrightarrow> ds_ok valid_seed p (add_call True a s) \<and> boot_at (length (ds_calls s)) (add_call True a s)"
  by (auto simp: ds_ok_def add_call_def boot_at_def ds_call_ok_def served_call_def verified_call_def)

lemma set_point_asked: "set_point i x (s\<lparr>asked := xs\<rparr>) = (set_point i x s)\<lparr>asked := xs\<rparr>"
  by (simp add: set_point_def)

lemma add_request:
  assumes "ds_ok valid_seed p s"
  shows "ds_ok valid_seed p (s\<lparr>ds_calls := ds_calls s @ [\<lparr>is_bootstrap = False, call_aborted = a, at_point = Done (Inl e)\<rparr>]\<rparr>)"
    "bootstrapped s \<Longrightarrow> ds_ok valid_seed p (s\<lparr>ds_calls := ds_calls s @ [\<lparr>is_bootstrap = False, call_aborted = a, at_point = Sent_Request l\<rparr>]\<rparr>)"
  using assms by (auto simp: ds_ok_def ds_call_ok_def served_call_def verified_call_def)

lemma begin_request_ok:
  assumes "ds_ok valid_seed p s" shows "ds_ok valid_seed p (begin_request valid_seed operation input a s)"
  using add_request [OF assms, of a] by (auto simp only: begin_request_def Let_def appended set_point_asked ok_fields split: if_split)

lemma handshakes_ok:
  assumes "ds_ok valid_seed p s" "boot_at i s" "i < length (ds_calls s)"
  shows "ds_ok valid_seed p (handshakes valid_seed p i b h s)"
proof (cases "descriptor_of valid_seed p b h")
  case (Inr d)
  let ?c = "(ds_calls s ! i)\<lparr>at_point := Done (Inr d)\<rparr>"
  have c: "verified_call ?c" "\<not> served_call ?c" "ds_call_ok valid_seed p ?c"
    using assms(2) Inr by (auto simp: verified_call_def served_call_def ds_call_ok_def boot_at_def)
  have "\<not> verified_call (ds_calls s ! i)"
    using assms(2) by (auto simp: verified_call_def boot_at_def on_the_way_def split: ds_outcome.splits sum.splits)
  then have "ds_ok valid_seed p (set_point i (Done (Inr d)) s)" using assms(1) c by (intro set_point_ok) auto
  moreover have "?c \<in> set (ds_calls (set_point i (Done (Inr d)) s))" using assms(3) by (simp add: set_point_def set_update_memI)
  then have "list_ex verified_call (ds_calls (set_point i (Done (Inr d)) s))" using c(1) by (auto simp: list_ex_iff)
  ultimately show ?thesis by (simp add: handshakes_def Inr ds_ok_def set_point_def)
qed (use assms in \<open>simp add: handshakes_def call_move_ok\<close>)

lemma reply_ok:
  assumes "ds_ok valid_seed p s" "i < length (ds_calls s)" "at_point (ds_calls s ! i) = Sent_Request l"
  shows "ds_ok valid_seed p (set_point i (Done x) s)"
proof -
  from assms have boot: "\<not> is_bootstrap (ds_calls s ! i)" by (auto simp: ds_ok_def list_all_length ds_call_ok_def)
  with assms(3) have "served_call (ds_calls s ! i)" by (simp add: served_call_def)
  with assms(1,2) have "list_ex verified_call (ds_calls s)" by (auto simp: ds_ok_def list_ex_length)
  with assms(1) boot show ?thesis by (intro set_point_ok) (auto simp: verified_call_def ds_call_ok_def split: sum.split)
qed

lemma abort_ok:
  assumes "ds_ok valid_seed p s" shows "ds_ok valid_seed p (s\<lparr>ds_calls := (ds_calls s)[i := (ds_calls s ! i)\<lparr>call_aborted := True\<rparr>]\<rparr>)"
proof (cases "i < length (ds_calls s)")
  case True
  have same: "verified_call (c\<lparr>call_aborted := b\<rparr>) = verified_call c" "served_call (c\<lparr>call_aborted := b\<rparr>) = served_call c"
    "ds_call_ok valid_seed p (c\<lparr>call_aborted := b\<rparr>) = ds_call_ok valid_seed p c" for c b
    by (simp_all add: verified_call_def served_call_def ds_call_ok_def split: ds_outcome.split sum.split)
  have "f ((ds_calls s)[i := (ds_calls s ! i)\<lparr>call_aborted := True\<rparr>] ! n) = f (ds_calls s ! n)"
    if "\<And>c b. f (c\<lparr>call_aborted := b\<rparr>) = f c" for f :: "ds_call \<Rightarrow> bool" and n
    using True that by (cases "n = i") simp_all
  note same_at = this [of verified_call, OF same(1)] this [of served_call, OF same(2)] this [of "ds_call_ok valid_seed p", OF same(3)]
  then show ?thesis using assms by (simp add: ds_ok_def list_ex_length list_all_length)
qed (use assms in \<open>simp add: not_less list_update_beyond\<close>)

lemma ds_step_ok: "ds_ok valid_seed p s \<Longrightarrow> ds_step valid_seed p e s = Some t \<Longrightarrow> ds_ok valid_seed p t"
proof (cases e)
  case (Ds_Bootstrap a)
  assume ok: "ds_ok valid_seed p s" and t: "ds_step valid_seed p e s = Some t"
  from add_boot [OF ok, of a] have "ds_ok valid_seed p (begin_bootstrap a s)"
    unfolding begin_bootstrap_def Let_def by (intro guarded_ok) (simp_all add: initialize_ok)
  with t Ds_Bootstrap show ?thesis by simp
next
  case (Provider_Settles i r)
  assume ok: "ds_ok valid_seed p s" and t: "ds_step valid_seed p e s = Some t"
  from t Provider_Settles have "point_of s i = Some Load_Runtime" "t = provider_settles i r s" by (auto split: option.splits ds_outcome.splits)
  with boot_point [OF ok this(1)] ok show ?thesis by (auto simp: provider_settles_def call_move_ok intro!: guarded_ok initialize_ok split: sum.split)
next
  case (Init_Settles k r)
  then show "ds_ok valid_seed p s \<Longrightarrow> ds_step valid_seed p e s = Some t \<Longrightarrow> ?thesis" by (auto simp: init_settles_def split: if_splits option.splits)
next
  case (Init_Resumes i)
  assume ok: "ds_ok valid_seed p s" and t: "ds_step valid_seed p e s = Some t"
  from t Init_Resumes obtain k where k: "point_of s i = Some (Waiting_On k)" "init_resumes i k s = Some t" by (auto split: option.splits ds_outcome.splits)
  from boot_point [OF ok k(1)] have b: "boot_at i s" by simp
  have "ds_ok valid_seed p (ask_both i s)" using ok b by (simp add: ask_both_def call_move_ok)
  with k(2) ok b show ?thesis by (auto simp: init_resumes_def call_move_ok intro: guarded_ok split: init_promise.splits)
next
  case (Bootstrap_Replies i r)
  assume ok: "ds_ok valid_seed p s" and t: "ds_step valid_seed p e s = Some t"
  from t Bootstrap_Replies obtain h where h: "point_of s i = Some (Both_Sent None h)" by (auto split: option.splits ds_outcome.splits)
  from boot_point [OF ok h] have b: "boot_at i s" by simp
  with t Bootstrap_Replies h ok show ?thesis by (auto simp: arrived_def call_move_ok intro!: guarded_ok split: sum.splits option.split)
next
  case (Health_Replies i r)
  assume ok: "ds_ok valid_seed p s" and t: "ds_step valid_seed p e s = Some t"
  from t Health_Replies obtain h where h: "point_of s i = Some (Both_Sent h None)" by (auto split: option.splits ds_outcome.splits)
  from boot_point [OF ok h] have b: "boot_at i s" by simp
  with t Health_Replies h ok show ?thesis by (auto simp: arrived_def call_move_ok intro!: guarded_ok split: sum.splits option.split)
next
  case (Handshake_Runs i)
  assume ok: "ds_ok valid_seed p s" and t: "ds_step valid_seed p e s = Some t"
  from t Handshake_Runs obtain b h where h: "point_of s i = Some (Both_Here b h)" "t = handshakes valid_seed p i b h s" by (auto split: option.splits ds_outcome.splits)
  from boot_point [OF ok h(1)] have b: "boot_at i s" by simp
  have "i < length (ds_calls s)" using h(1) by (auto simp: point_of_def split: if_splits)
  with ok b h(2) show ?thesis by (simp add: handshakes_ok)
next
  case (Ds_Request operation input a)
  then show "ds_ok valid_seed p s \<Longrightarrow> ds_step valid_seed p e s = Some t \<Longrightarrow> ?thesis" by (auto simp: begin_request_ok)
next
  case (Request_Replies i r)
  assume ok: "ds_ok valid_seed p s" and t: "ds_step valid_seed p e s = Some t"
  from t Request_Replies obtain l x where h: "point_of s i = Some (Sent_Request l)" "t = set_point i (Done x) s" by (auto simp: request_replies_def split: option.splits ds_outcome.splits)
  then have c: "i < length (ds_calls s)" "at_point (ds_calls s ! i) = Sent_Request l" by (auto simp: point_of_def split: if_splits)
  with ok h(2) show ?thesis by (simp add: reply_ok)
next
  case (Ds_Abort i)
  assume ok: "ds_ok valid_seed p s" and t: "ds_step valid_seed p e s = Some t"
  from t Ds_Abort have "t = s\<lparr>ds_calls := (ds_calls s)[i := (ds_calls s ! i)\<lparr>call_aborted := True\<rparr>]\<rparr>" "i < length (ds_calls s)" by (auto split: if_splits)
  with ok show ?thesis by (simp add: abort_ok)
next
  case Ds_Release
  then show "ds_ok valid_seed p s \<Longrightarrow> ds_step valid_seed p e s = Some t \<Longrightarrow> ?thesis" by (auto simp: release_ds_def ds_ok_def split: if_splits)
qed

interpretation datascript: machine_invariant "ds_step valid_seed p" start_ds "ds_ok valid_seed p" for valid_seed p
  by unfold_locales (simp add: ds_ok_def start_ds_def, rule ds_step_ok)

definition answers :: "ds_transport \<Rightarrow> jsval list" where
  "answers s = List.map_filter answer_of (ds_calls s)"

definition quiet :: "ds_transport \<Rightarrow> ds_transport \<Rightarrow> bool" where
  \<comment> \<open>once released, nothing is sent to the runtime and no request is answered\<close>
  "quiet s t \<longleftrightarrow> (ds_released s \<longrightarrow> ds_released t \<and> asked t = asked s \<and> answers t = answers s)"

lemma map_filter_update: "i < length xs \<Longrightarrow> f (xs ! i) = f y \<Longrightarrow> List.map_filter f (xs[i := y]) = List.map_filter f xs"
  unfolding List.map_filter_def
proof -
  assume "i < length xs" "f (xs ! i) = f y"
  then have "map f (xs[i := y]) = map f xs" by (metis list_update_id map_update)
  moreover have "map (the \<circ> f) (filter (\<lambda>x. f x \<noteq> None) zs) = map the (filter (\<lambda>x. x \<noteq> None) (map f zs))" for zs
    by (simp add: filter_map comp_def)
  ultimately show "map (the \<circ> f) (filter (\<lambda>x. f x \<noteq> None) (xs[i := y])) = map (the \<circ> f) (filter (\<lambda>x. f x \<noteq> None) xs)" by simp
qed

lemma quiet_point:
  assumes "i < length (ds_calls s)" "answer_of (ds_calls s ! i) = None" "is_bootstrap (ds_calls s ! i) \<or> (\<forall>v. x \<noteq> Done (Inr v))"
  shows "quiet s (set_point i x s)"
proof -
  have "answer_of ((ds_calls s ! i)\<lparr>at_point := x\<rparr>) = None" using assms(3) by (auto simp: answer_of_def split: bool.split ds_outcome.split sum.split)
  with assms(1,2) show ?thesis by (simp add: quiet_def answers_def set_point_def map_filter_update)
qed

lemma quiet_fields:
  "ds_released s \<Longrightarrow> quiet (s\<lparr>runtime := v\<rparr>) t = quiet s t"
  "quiet s (t\<lparr>bootstrapped := b\<rparr>) = quiet s t"
  by (simp_all add: quiet_def answers_def)

lemma guarded_released: "ds_released s \<Longrightarrow> guarded i f s = set_point i (Done (Inl released_error)) s"
  by (simp add: guarded_def still_open_def)

lemma quiet_add: "quiet s (set_point (length (ds_calls s)) (Done (Inl e)) (add_call b a s))"
  by (simp add: quiet_def answers_def appended answer_of_def List.map_filter_def split: bool.split)

lemma unanswered: "point_of s i = Some x \<Longrightarrow> (\<And>o'. x \<noteq> Done o') \<Longrightarrow> i < length (ds_calls s) \<and> answer_of (ds_calls s ! i) = None"
  by (auto simp: point_of_def answer_of_def split: if_splits bool.splits ds_outcome.splits)

lemma quiet_failed: "point_of s i = Some x \<Longrightarrow> (\<And>o'. x \<noteq> Done o') \<Longrightarrow> quiet s (set_point i (Done (Inl e)) s)"
  using unanswered [of s i x] by (intro quiet_point) auto

lemma quiet_step:
  assumes ok: "ds_ok valid_seed p s" and t: "ds_step valid_seed p e s = Some t"
  shows "quiet s t"
proof (cases "ds_released s")
  case released: True
  note guarded_released [OF released, simp]
  show ?thesis
  proof (cases e)
    case (Ds_Bootstrap a)
    have "ds_released (add_call True a s)" using released by (simp add: add_call_def)
    with t Ds_Bootstrap show ?thesis by (auto simp: begin_bootstrap_def Let_def guarded_released quiet_add)
  next
    case (Provider_Settles i r)
    with t have "point_of s i = Some Load_Runtime" "t = provider_settles i r s" by (auto split: option.splits ds_outcome.splits)
    with quiet_failed [of s i Load_Runtime] released show ?thesis
      by (auto simp: provider_settles_def guarded_released quiet_def answers_def set_point_def split: sum.split)
  next
    case (Init_Settles k r)
    with t show ?thesis by (auto simp: init_settles_def quiet_def answers_def split: if_splits option.splits)
  next
    case (Init_Resumes i)
    with t obtain k where "point_of s i = Some (Waiting_On k)" "init_resumes i k s = Some t" by (auto split: option.splits ds_outcome.splits)
    with quiet_failed [of s i "Waiting_On k"] show ?thesis by (auto simp: init_resumes_def split: init_promise.splits)
  next
    case (Bootstrap_Replies i r)
    with t obtain h where "point_of s i = Some (Both_Sent None h)" by (auto split: option.splits ds_outcome.splits)
    with t Bootstrap_Replies quiet_failed [of s i "Both_Sent None h"] show ?thesis by (auto simp: arrived_def split: sum.splits)
  next
    case (Health_Replies i r)
    with t obtain h where "point_of s i = Some (Both_Sent h None)" by (auto split: option.splits ds_outcome.splits)
    with t Health_Replies quiet_failed [of s i "Both_Sent h None"] show ?thesis by (auto simp: arrived_def split: sum.splits)
  next
    case (Handshake_Runs i)
    with t obtain b h where h: "point_of s i = Some (Both_Here b h)" "t = handshakes valid_seed p i b h s" by (auto split: option.splits ds_outcome.splits)
    from boot_point [OF ok h(1)] have "is_bootstrap (ds_calls s ! i)" by (simp add: boot_at_def)
    with h unanswered [OF h(1)] have "quiet s (set_point i x s)" for x by (intro quiet_point) auto
    then show ?thesis by (auto simp: h(2) handshakes_def quiet_def answers_def set_point_def split: sum.split)
  next
    case (Ds_Request operation input a)
    with t released show ?thesis by (auto simp: begin_request_def Let_def quiet_add)
  next
    case (Request_Replies i r)
    with t obtain l where h: "point_of s i = Some (Sent_Request l)" "t = request_replies valid_seed i l r s" by (auto split: option.splits ds_outcome.splits)
    have "\<exists>e. t = set_point i (Done (Inl e)) s" using released
      by (auto simp: h(2) request_replies_def still_open_def bind_r_def split: sum.split)
    with quiet_failed [OF h(1)] show ?thesis by auto
  next
    case (Ds_Abort i)
    with t have i: "i < length (ds_calls s)" "t = s\<lparr>ds_calls := (ds_calls s)[i := (ds_calls s ! i)\<lparr>call_aborted := True\<rparr>]\<rparr>" by (auto split: if_splits)
    have "answer_of ((ds_calls s ! i)\<lparr>call_aborted := True\<rparr>) = answer_of (ds_calls s ! i)" by (simp add: answer_of_def)
    with i show ?thesis by (simp add: quiet_def answers_def map_filter_update)
  next
    case Ds_Release
    with t released show ?thesis by (auto simp: release_ds_def quiet_def answers_def)
  qed
qed (simp add: quiet_def)

interpretation datascript_quiet: machine_monotone "ds_step valid_seed p" start_ds "ds_ok valid_seed p" quiet for valid_seed p
  by unfold_locales (simp add: quiet_def, simp add: quiet_def, rule quiet_step)

text \<open>
  Whatever the interleaving: a request reaches the runtime only after a handshake has verified its
  descriptor, and from a release on nothing is sent to the runtime and no request is answered.
\<close>

theorem datascript_serves_verified_until_release:
  "case run_events (ds_step valid_seed p) es start_ds of
     None \<Rightarrow> True
   | Some s \<Rightarrow> (if list_ex served_call (ds_calls s) then list_ex verified_call (ds_calls s) else True)
       \<and> list_all (ds_call_ok valid_seed p) (ds_calls s)
       \<and> (case run_events (ds_step valid_seed p) later s of None \<Rightarrow> True | Some t \<Rightarrow> quiet s t)"
proof (cases "run_events (ds_step valid_seed p) es start_ds")
  case (Some s)
  from datascript.holds_run [OF this] have ok: "ds_ok valid_seed p s" .
  with Some datascript_quiet.leq_run [OF ok] show ?thesis by (auto simp: ds_ok_def split: option.split)
qed simp

end
