(* ===== verification/Release_Manifests.thy ===== *)
theory Release_Manifests
  imports Guards Stable_Json Spread "HOL-Library.Multiset"
begin

text \<open>
  \<open>scripts/lib/release-manifest.mjs\<close>, \<open>scripts/lib/deployment-manifest.mjs\<close> and
  \<open>scripts/lib/lambda-version-retention.mjs\<close>: the manifests a release is bound by and the versions it
  keeps. Parameters: \<open>sha\<close> is the SHA-256 of \<open>node:crypto\<close>, \<open>date_ok\<close> a \<open>Date.parse\<close> that is not NaN.
\<close>

subsection \<open>Assertions\<close>

definition need :: "js_error + bool \<Rightarrow> string \<Rightarrow> js_error + unit" where
  \<comment> \<open>\<open>invariant(condition, message)\<close>\<close>
  "need c m = bind_r c (\<lambda>b. throw_if (\<not> b) (Error m) (Inr ()))"

definition passes :: "(string \<Rightarrow> bool) \<Rightarrow> jsval \<Rightarrow> js_error + bool" where
  \<comment> \<open>\<open>pattern.test(v)\<close>, which converts \<open>v\<close> to text\<close>
  "passes P v = bind_r (text_r v) (\<lambda>s. Inr (P s))"

definition manifest_keys :: "jsval \<Rightarrow> string list \<Rightarrow> string \<Rightarrow> js_error + unit" where
  "manifest_keys v expected label =
     guards [need (Inr (is_object v)) (label @ '' must be an object''),
       need (Inr (exact_keys v expected)) (label @ '' keys must be exactly: '' @ join '', '' (sort expected))]"

definition hex40 :: "string \<Rightarrow> bool" where "hex40 = lower_hex 40"
definition hex64 :: "string \<Rightarrow> bool" where "hex64 = lower_hex 64"

definition KEBAB :: regex where
  "KEBAB = Cat (plus_of (cls ''az09'' [])) (star (Cat (lit ''-'') (plus_of (cls ''az09'' []))))"

definition RELEASE_ID :: regex where
  "RELEASE_ID = Cat (plus_of (cls ''az09'' [])) (star (Cat (cls [] ''._-'') (plus_of (cls ''az09'' []))))"

definition POSITIVE :: regex where "POSITIVE = Cat (cls ''19'' []) (star (cls ''09'' []))"

fun no_repeats :: "jsval list \<Rightarrow> bool" where
  \<comment> \<open>\<open>new Set(vs).size === vs.length\<close>\<close>
  "no_repeats [] = True"
| "no_repeats (v # vs) = (\<not> list_ex (strict_eq v) vs \<and> no_repeats vs)"

definition each_of :: "jsval list \<Rightarrow> (jsval \<Rightarrow> js_error + unit) \<Rightarrow> js_error + unit" where
  "each_of vs check = guards (map check vs)"

definition is_list :: "jsval \<Rightarrow> bool" where
  "is_list v \<longleftrightarrow> (case v of JArr _ \<Rightarrow> True | _ \<Rightarrow> False)"

subsection \<open>Release manifests\<close>

definition DEMO_REPOSITORY :: string where "DEMO_REPOSITORY = ''https://github.com/theronic/eacl-demo.git''"
definition EACL_REPOSITORY :: string where "EACL_REPOSITORY = ''https://github.com/theronic/eacl.git''"

definition check_artifact :: "jsval \<Rightarrow> js_error + unit" where
  "check_artifact a = guards [
     manifest_keys a [''name'', ''path'', ''sha256'', ''bytes''] ''artifact'',
     need (passes (matches KEBAB) (prop_of a ''name'')) ''artifact name is invalid'',
     need (bind_r (text_r (prop_of a ''name'')) (\<lambda>n. Inr (prop_of a ''path'' = JStr (''dist/'' @ n @ ''/artifact.json'')))) ''artifact path does not match name'',
     need (passes hex64 (prop_of a ''sha256'')) ''artifact digest is invalid'',
     need (Inr (safe_int_between 1 MAX_SAFE_INTEGER (prop_of a ''bytes''))) ''artifact size is invalid'']"

definition release_checks :: "jsval \<Rightarrow> jsval \<Rightarrow> jsval \<Rightarrow> jsval \<Rightarrow> jsval \<Rightarrow> js_error + unit" where
  "release_checks demoSha eaclSha fixture deployment artifacts = guards [
     need (passes hex40 demoSha) ''demo SHA must be exact lowercase 40-hex'',
     need (passes hex40 eaclSha) ''EACL SHA must be exact lowercase 40-hex'',
     manifest_keys fixture [''id'', ''manifestSha256''] ''fixture'',
     need (passes (matches RELEASE_ID) (prop_of fixture ''id'')) ''fixture ID is invalid'',
     need (passes hex64 (prop_of fixture ''manifestSha256'')) ''fixture manifest digest is invalid'',
     manifest_keys deployment [''provider'', ''repositoryId'', ''runId'', ''runAttempt'', ''ref''] ''deployment input'',
     need (Inr (prop_of deployment ''provider'' = JStr ''github-actions'')) ''deployment provider must be github-actions'',
     need (Inr (prop_of deployment ''repositoryId'' = JStr ''1345904214'')) ''deployment repository ID is not canonical'',
     need (passes (matches POSITIVE) (prop_of deployment ''runId'')) ''GitHub run ID is invalid'',
     need (Inr (safe_int_between 1 MAX_SAFE_INTEGER (prop_of deployment ''runAttempt''))) ''GitHub run attempt is invalid'',
     need (Inr (prop_of deployment ''ref'' = JStr ''refs/heads/production'')) ''release ref must be refs/heads/production'',
     need (Inr (is_list artifacts \<and> items artifacts \<noteq> [])) ''artifacts must be non-empty'',
     each_of (items artifacts) check_artifact,
     need (Inr (no_repeats (map (\<lambda>a. prop_of a ''name'') (items artifacts)))) ''artifact names must be unique'']"

definition release_identity :: "jsval \<Rightarrow> jsval \<Rightarrow> string" where
  "release_identity deployment demoSha = the_text (prop_of deployment ''repositoryId'') @ '':'' @ the_text (prop_of deployment ''runId'') @ '':''
     @ the_text (prop_of deployment ''runAttempt'') @ '':'' @ the_text demoSha"

definition createReleaseManifest :: "jsval \<Rightarrow> jsval \<Rightarrow> jsval \<Rightarrow> jsval \<Rightarrow> jsval \<Rightarrow> js_error + jsval" where
  "createReleaseManifest demoSha eaclSha fixture deployment artifacts =
     bind_r (release_checks demoSha eaclSha fixture deployment artifacts) (\<lambda>_. Inr (JObj
       [(''schema'', JStr ''eacl-demo.release-manifest.v1''), (''contractVersion'', JStr ''explorer.v1''),
        (''source'', JObj [(''demo'', JObj [(''repository'', JStr DEMO_REPOSITORY), (''sha'', demoSha)]),
           (''eacl'', JObj [(''repository'', JStr EACL_REPOSITORY), (''sha'', eaclSha)])]),
        (''fixture'', fixture),
        (''deployment'', spread [deployment, JObj [(''identity'', JStr (release_identity deployment demoSha))]]),
        (''artifacts'', artifacts)]))"

definition without_identity :: "jsval \<Rightarrow> js_error + jsval" where
  \<comment> \<open>\<open>const { identity, ...deployment } = v\<close>\<close>
  "without_identity v = throw_if (nullish v) Type_Error (Inr (JObj (filter (\<lambda>(k, x). k \<noteq> ''identity'') (props v))))"

definition validateReleaseManifest :: "jsval \<Rightarrow> js_error + jsval" where
  "validateReleaseManifest manifest =
     bind_r (guards [
       manifest_keys manifest [''schema'', ''contractVersion'', ''source'', ''fixture'', ''deployment'', ''artifacts''] ''release manifest'',
       need (Inr (prop_of manifest ''schema'' = JStr ''eacl-demo.release-manifest.v1'')) ''unsupported release manifest'',
       need (Inr (prop_of manifest ''contractVersion'' = JStr ''explorer.v1'')) ''unsupported contract version'']) (\<lambda>_.
     bind_r (without_identity (prop_of manifest ''deployment'')) (\<lambda>deployment.
     bind_r (createReleaseManifest (prop_of (prop_of (prop_of manifest ''source'') ''demo'') ''sha'') (prop_of (prop_of (prop_of manifest ''source'') ''eacl'') ''sha'')
         (prop_of manifest ''fixture'') deployment (prop_of manifest ''artifacts'')) (\<lambda>recreated.
     bind_r (guards [
       need (Inr (strict_eq (prop_of (prop_of manifest ''deployment'') ''identity'') (prop_of (prop_of recreated ''deployment'') ''identity''))) ''deployment identity mismatch'',
       need (Inr (json recreated = json manifest)) ''release manifest is not canonical'']) (\<lambda>_. Inr manifest))))"

subsection \<open>Deployment manifests\<close>

definition DEPS_EDN_PATH :: string where "DEPS_EDN_PATH = ''deps.edn''"

definition validateCoreIdentity :: "jsval \<Rightarrow> js_error + unit" where
  "validateCoreIdentity core = guards [
     manifest_keys core [''repository'', ''sha'', ''modules''] ''Core identity'',
     need (Inr (prop_of core ''repository'' = JStr EACL_REPOSITORY)) ''Core repository is not canonical'',
     need (passes hex40 (prop_of core ''sha'')) ''Core sha must be a lowercase 40-hex commit'',
     need (Inr (is_list (prop_of core ''modules'') \<and> items (prop_of core ''modules'') \<noteq> [])) ''Core modules must be non-empty'',
     need (Inr (no_repeats (items (prop_of core ''modules'')))) ''Core modules must be unique'']"

definition first_twelve :: "jsval \<Rightarrow> string" where
  \<comment> \<open>\<open>v.slice(0, 12)\<close> in a template, of a string or of an array whose text is a digest\<close>
  "first_twelve v = (case v of JArr vs \<Rightarrow> the_text (JArr (take 12 vs)) | _ \<Rightarrow> take 12 (the_text v))"

definition all_passing :: "(string \<Rightarrow> bool) \<Rightarrow> jsval \<Rightarrow> js_error + bool" where
  "all_passing P v = (if is_list v then bind_r (any_r (map (mismatch P) (items v))) (\<lambda>bad. Inr (\<not> bad)) else Inr False)"

definition check_named_digest :: "jsval \<Rightarrow> js_error + unit" where
  "check_named_digest a = guards [
     manifest_keys a [''name'', ''sha256''] ''Artifact'',
     need (Inr (str_satisfies (\<lambda>s. 0 < length s \<and> length s \<le> 128) (prop_of a ''name''))) ''Artifact name is invalid'',
     need (passes hex64 (prop_of a ''sha256'')) ''Artifact sha256 must be lowercase 64-hex'']"

definition createDeploymentManifest ::
    "(string \<Rightarrow> string) \<Rightarrow> (jsval \<Rightarrow> bool) \<Rightarrow> jsval \<Rightarrow> jsval \<Rightarrow> string option \<Rightarrow> jsval \<Rightarrow> jsval \<Rightarrow> jsval \<Rightarrow> js_error + jsval" where
  "createDeploymentManifest sha date_ok demoSha core depsEdnBytes generatedAt artifacts profiles =
     bind_r (guards [
       validateCoreIdentity core,
       need (passes hex40 demoSha) ''demoSha must be a lowercase 40-hex commit'',
       need (Inr (depsEdnBytes \<noteq> None)) ''depsEdnBytes must contain the committed deps.edn bytes'',
       need (Inr (date_ok generatedAt)) ''generatedAt must be ISO-8601'',
       need (Inr (is_list artifacts)) ''artifacts must be an array'',
       need (all_passing (matches KEBAB) profiles) ''profiles must contain closed kebab-case IDs'',
       need (Inr (no_repeats (items profiles))) ''profiles must be unique'',
       each_of (items artifacts) check_named_digest]) (\<lambda>_. Inr (JObj
       [(''schema'', JStr ''eacl-demo.deployment-manifest.v1''), (''contractVersion'', JStr ''explorer.v1''),
        (''deploymentId'', JStr (first_twelve demoSha @ ''-'' @ first_twelve (prop_of core ''sha''))), (''generatedAt'', generatedAt),
        (''demo'', JObj [(''repository'', JStr DEMO_REPOSITORY), (''sha'', demoSha)]),
        (''eacl'', JObj [(''repository'', prop_of core ''repository''), (''sha'', prop_of core ''sha''),
           (''pin'', JObj [(''path'', JStr DEPS_EDN_PATH), (''sha256'', JStr (sha (the depsEdnBytes))), (''committedAtDemoSha'', JBool True)])]),
        (''artifacts'', artifacts), (''profiles'', profiles)]))"

definition deployment_id :: "string \<Rightarrow> bool" where
  \<comment> \<open>\<open>/^[0-9a-f]{12}-[0-9a-f]{12}$/u\<close>\<close>
  "deployment_id s \<longleftrightarrow> lower_hex 12 (take 12 s) \<and> take 1 (drop 12 s) = ''-'' \<and> lower_hex 12 (drop 13 s)"

definition validateDeploymentManifest :: "(jsval \<Rightarrow> bool) \<Rightarrow> jsval \<Rightarrow> js_error + jsval" where
  "validateDeploymentManifest date_ok m =
     (let demo = prop_of m ''demo''; eacl = prop_of m ''eacl''; pin = prop_of eacl ''pin'' in
      bind_r (guards [
        manifest_keys m [''schema'', ''contractVersion'', ''deploymentId'', ''generatedAt'', ''demo'', ''eacl'', ''artifacts'', ''profiles''] ''Deployment manifest'',
        need (Inr (prop_of m ''schema'' = JStr ''eacl-demo.deployment-manifest.v1'')) ''Unsupported deployment manifest schema'',
        need (Inr (prop_of m ''contractVersion'' = JStr ''explorer.v1'')) ''Unsupported explorer contract'',
        need (passes deployment_id (prop_of m ''deploymentId'')) ''Deployment ID is invalid'',
        need (Inr (date_ok (prop_of m ''generatedAt''))) ''Deployment generatedAt is invalid'',
        manifest_keys demo [''repository'', ''sha''] ''Demo source'',
        need (Inr (prop_of demo ''repository'' = JStr DEMO_REPOSITORY)) ''Demo repository is not canonical'',
        need (passes hex40 (prop_of demo ''sha'')) ''Demo sha is invalid'',
        manifest_keys eacl [''repository'', ''sha'', ''pin''] ''EACL source'',
        need (Inr (prop_of eacl ''repository'' = JStr EACL_REPOSITORY)) ''EACL repository is not canonical'',
        need (passes hex40 (prop_of eacl ''sha'')) ''EACL sha is invalid'',
        manifest_keys pin [''path'', ''sha256'', ''committedAtDemoSha''] ''EACL pin binding'',
        need (Inr (prop_of pin ''path'' = JStr DEPS_EDN_PATH)) ''EACL pin path is invalid'',
        need (passes hex64 (prop_of pin ''sha256'')) ''EACL pin digest is invalid'',
        need (Inr (prop_of pin ''committedAtDemoSha'' = JBool True)) ''EACL pin must be committed at demo sha'',
        need (Inr (prop_of m ''deploymentId'' = JStr (first_twelve (prop_of demo ''sha'') @ ''-'' @ first_twelve (prop_of eacl ''sha'')))) ''Deployment ID does not match source pair'',
        need (Inr (is_list (prop_of m ''artifacts''))) ''Artifacts must be an array'',
        need (all_passing (matches KEBAB) (prop_of m ''profiles'')) ''Profiles are invalid'']) (\<lambda>_. Inr m))"

subsection \<open>Published versions\<close>

definition published :: "jsval list \<Rightarrow> jsval list" where
  "published versions = filter (\<lambda>v. matches POSITIVE (the_text v)) (map (\<lambda>v. prop_of v ''Version'') versions)"

definition version_number :: "jsval \<Rightarrow> nat" where
  \<comment> \<open>\<open>Number(v)\<close> of a version, exact since the provider's versions have less than sixteen digits\<close>
  "version_number v = index_value (the_text v)"

definition newest_first :: "jsval list \<Rightarrow> jsval list" where
  "newest_first vs = rev (sort_key version_number (rev vs))"

definition stalePublishedVersions :: "jsval \<Rightarrow> jsval \<Rightarrow> js_error + (jsval list \<times> jsval list)" where
  "stalePublishedVersions versions retain =
     throw_if (\<not> is_list versions) (Error ''Lambda versions must be an array'')
     (throw_if (\<not> safe_int_between 1 MAX_SAFE_INTEGER retain) (Error ''Lambda retention must be a positive integer'')
     (throw_if (JNull \<in> set (items versions) \<or> list_ex (\<lambda>v. js_string (prop_of v ''Version'') = None) (items versions)) Type_Error
     (let vs = newest_first (published (items versions)); n = nat (the_int retain) in Inr (take n vs, drop n vs))))"

subsection \<open>What is created is accepted\<close>

lemma need_ok [simp]: "need c m = Inr u \<longleftrightarrow> c = Inr True"
  by (auto simp: need_def)

lemma manifest_keys_ok [simp]: "manifest_keys v ks label = Inr u \<longleftrightarrow> exact_keys v ks"
  by (auto simp: manifest_keys_def guards_ok exact_keys_def)

lemma passes_ok: "passes P v = Inr True \<longleftrightarrow> (\<exists>s. js_string v = Some s \<and> P s)"
  by (auto simp: passes_def text_r_def split: option.splits)

lemma exact_keys_shape: "exact_keys v ks \<Longrightarrow> distinct ks \<Longrightarrow> \<exists>kvs. v = JObj kvs \<and> distinct (map fst kvs) \<and> fst ` set kvs = set ks"
  using exact_keys_set [of v ks]
  by (cases v) (auto simp: exact_keys_def, metis distinct_sort)

definition DEPLOYMENT_FIELDS_IN :: "string list" where "DEPLOYMENT_FIELDS_IN = [''provider'', ''repositoryId'', ''runId'', ''runAttempt'', ''ref'']"

lemma spread_identity:
  assumes "exact_keys deployment DEPLOYMENT_FIELDS_IN"
  shows "spread [deployment, JObj [(''identity'', v)]] = JObj (props deployment @ [(''identity'', v)])"
    "JObj (filter (\<lambda>(k, x). k \<noteq> ''identity'') (props deployment @ [(''identity'', v)])) = deployment"
proof -
  from exact_keys_shape [OF assms] obtain kvs where d: "deployment = JObj kvs" "distinct (map fst kvs)" "fst ` set kvs = set DEPLOYMENT_FIELDS_IN"
    by (auto simp: DEPLOYMENT_FIELDS_IN_def)
  have fresh: "k \<noteq> ''identity'' \<and> \<not> is_array_index k" if "k \<in> fst ` set kvs" for k
    using that unfolding d(3) by (auto simp: DEPLOYMENT_FIELDS_IN_def is_array_index_def is_digit_def)
  have index: "\<not> is_array_index ''identity''" by (simp add: is_array_index_def is_digit_def)
  have "from_entries (kvs @ [(''identity'', v)]) = kvs @ [(''identity'', v)]"
  proof (rule from_entries_distinct)
    show "distinct (map fst (kvs @ [(''identity'', v)]))" using d(2) fresh [of "''identity''"] by (auto simp del: list.inject)
    show "\<not> is_array_index k" if "k \<in> fst ` set (kvs @ [(''identity'', v)])" for k
    proof (cases "k \<in> fst ` set kvs")
      case False
      with that have "k = ''identity''" by (simp only: set_append image_Un Un_iff list.set image_insert image_empty fst_conv insert_iff empty_iff simp_thms)
      with index show ?thesis by (simp only: not_False_eq_True)
    qed (use fresh in blast)
  qed
  then show "spread [deployment, JObj [(''identity'', v)]] = JObj (props deployment @ [(''identity'', v)])" by (simp add: d(1) spread_def)
  have "k \<noteq> ''identity''" if "(k, y) \<in> set kvs" for k y using fresh [of k] image_eqI [OF _ that, of k fst] by simp
  then have "filter (\<lambda>(k, x). k \<noteq> ''identity'') kvs = kvs" unfolding filter_id_conv by (blast intro: case_prodI2)
  then show "JObj (filter (\<lambda>(k, x). k \<noteq> ''identity'') (props deployment @ [(''identity'', v)])) = deployment" by (simp add: d(1))
qed

text \<open>
  A release manifest that was created is accepted as it is, and one that is accepted prints exactly
  as the manifest created anew from its own source pair, fixture, deployment and artifacts: no byte of
  it is free.
\<close>

theorem release_manifest_canonical:
  "(case createReleaseManifest demoSha eaclSha fixture deployment artifacts of Inl e \<Rightarrow> True | Inr m \<Rightarrow> validateReleaseManifest m = Inr m)
   \<and> (case validateReleaseManifest manifest of
        Inl e \<Rightarrow> True
      | Inr m \<Rightarrow> m = manifest \<and>
          (case createReleaseManifest (prop_of (prop_of (prop_of m ''source'') ''demo'') ''sha'') (prop_of (prop_of (prop_of m ''source'') ''eacl'') ''sha'')
              (prop_of m ''fixture'') (JObj (filter (\<lambda>(k, x). k \<noteq> ''identity'') (props (prop_of m ''deployment'')))) (prop_of m ''artifacts'') of
             Inl e \<Rightarrow> False | Inr recreated \<Rightarrow> json recreated = json m))"
proof (rule conjI)
  show "case createReleaseManifest demoSha eaclSha fixture deployment artifacts of Inl e \<Rightarrow> True | Inr m \<Rightarrow> validateReleaseManifest m = Inr m"
  proof (cases "createReleaseManifest demoSha eaclSha fixture deployment artifacts")
    case (Inr m)
    then have ok: "release_checks demoSha eaclSha fixture deployment artifacts = Inr ()" by (auto simp: createReleaseManifest_def)
    then have keys: "exact_keys deployment DEPLOYMENT_FIELDS_IN" by (auto simp: release_checks_def DEPLOYMENT_FIELDS_IN_def guards_ok)
    let ?i = "JStr (release_identity deployment demoSha)"
    have m: "m = JObj
       [(''schema'', JStr ''eacl-demo.release-manifest.v1''), (''contractVersion'', JStr ''explorer.v1''),
        (''source'', JObj [(''demo'', JObj [(''repository'', JStr DEMO_REPOSITORY), (''sha'', demoSha)]),
           (''eacl'', JObj [(''repository'', JStr EACL_REPOSITORY), (''sha'', eaclSha)])]),
        (''fixture'', fixture), (''deployment'', JObj (props deployment @ [(''identity'', ?i)])), (''artifacts'', artifacts)]"
      using Inr spread_identity(1) [OF keys] by (simp add: createReleaseManifest_def ok)
    then have parts: "prop_of m ''deployment'' = JObj (props deployment @ [(''identity'', ?i)])" "prop_of (prop_of (prop_of m ''source'') ''demo'') ''sha'' = demoSha"
      "prop_of (prop_of (prop_of m ''source'') ''eacl'') ''sha'' = eaclSha" "prop_of m ''fixture'' = fixture" "prop_of m ''artifacts'' = artifacts"
      by (simp_all add: prop_of_def)
    have inner: "without_identity (prop_of m ''deployment'') = Inr deployment"
      unfolding parts without_identity_def props.simps spread_identity(2) [OF keys] by (simp add: nullish_def)
    have "exact_keys m [''schema'', ''contractVersion'', ''source'', ''fixture'', ''deployment'', ''artifacts'']" unfolding m by (simp add: exact_keys_def)
    moreover have "map_of (props deployment) ''identity'' = None"
      using exact_keys_has_prop [OF keys, of "''identity''"] by (simp add: has_prop_def map_of_eq_None_iff DEPLOYMENT_FIELDS_IN_def)
    then have "prop_of (prop_of m ''deployment'') ''identity'' = ?i" unfolding parts by (simp add: prop_of_def map_add_def)
    moreover have "prop_of m ''schema'' = JStr ''eacl-demo.release-manifest.v1''" "prop_of m ''contractVersion'' = JStr ''explorer.v1''"
      unfolding m by (simp_all add: prop_of_def)
    ultimately show ?thesis using Inr inner parts(2-5) by (simp add: validateReleaseManifest_def guards_ok)
  qed simp
  show "case validateReleaseManifest manifest of
        Inl e \<Rightarrow> True
      | Inr m \<Rightarrow> m = manifest \<and>
          (case createReleaseManifest (prop_of (prop_of (prop_of m ''source'') ''demo'') ''sha'') (prop_of (prop_of (prop_of m ''source'') ''eacl'') ''sha'')
              (prop_of m ''fixture'') (JObj (filter (\<lambda>(k, x). k \<noteq> ''identity'') (props (prop_of m ''deployment'')))) (prop_of m ''artifacts'') of
             Inl e \<Rightarrow> False | Inr recreated \<Rightarrow> json recreated = json m)"
    by (auto simp: validateReleaseManifest_def without_identity_def bind_r_def guards_ok split: sum.splits if_splits)
qed

text \<open>
  A deployment manifest that was created from the committed source pair is accepted; the digest of the
  pin is SHA-256's own.
\<close>

lemma hex_prefix: "str_satisfies hex40 v \<Longrightarrow> lower_hex 12 (first_twelve v)"
  by (cases v) (auto simp: str_satisfies_def first_twelve_def the_text_def hex40_def lower_hex_def list_all_iff dest: in_set_takeD)

theorem deployment_manifest_accepted:
  "case createDeploymentManifest sha date_ok demoSha core depsEdnBytes generatedAt artifacts profiles of
     Inl e \<Rightarrow> True
   | Inr m \<Rightarrow> (if hex64 (sha (the depsEdnBytes)) \<and> str_satisfies hex40 demoSha \<and> str_satisfies hex40 (prop_of core ''sha'') then validateDeploymentManifest date_ok m = Inr m else True)"
proof (cases "createDeploymentManifest sha date_ok demoSha core depsEdnBytes generatedAt artifacts profiles")
  case (Inr m)
  show ?thesis
  proof (cases "str_satisfies hex40 demoSha \<and> str_satisfies hex40 (prop_of core ''sha'')")
    case True
  let ?i = "first_twelve demoSha @ ''-'' @ first_twelve (prop_of core ''sha'')"
  from Inr have demo: "passes hex40 demoSha = Inr True" and core: "passes hex40 (prop_of core ''sha'') = Inr True" "prop_of core ''repository'' = JStr EACL_REPOSITORY"
    and rest: "date_ok generatedAt" "is_list artifacts" "all_passing (matches KEBAB) profiles = Inr True"
    and m: "m = JObj
       [(''schema'', JStr ''eacl-demo.deployment-manifest.v1''), (''contractVersion'', JStr ''explorer.v1''), (''deploymentId'', JStr ?i), (''generatedAt'', generatedAt),
        (''demo'', JObj [(''repository'', JStr DEMO_REPOSITORY), (''sha'', demoSha)]),
        (''eacl'', JObj [(''repository'', prop_of core ''repository''), (''sha'', prop_of core ''sha''),
           (''pin'', JObj [(''path'', JStr DEPS_EDN_PATH), (''sha256'', JStr (sha (the depsEdnBytes))), (''committedAtDemoSha'', JBool True)])]),
        (''artifacts'', artifacts), (''profiles'', profiles)]"
    by (auto simp: createDeploymentManifest_def guards_ok validateCoreIdentity_def)
  have "lower_hex 12 (first_twelve demoSha)" "lower_hex 12 (first_twelve (prop_of core ''sha''))"
    using True by (auto intro: hex_prefix)
  then have i: "deployment_id ?i" by (auto simp: deployment_id_def lower_hex_def)
  have parts: "prop_of m ''demo'' = JObj [(''repository'', JStr DEMO_REPOSITORY), (''sha'', demoSha)]"
    "prop_of m ''eacl'' = JObj [(''repository'', prop_of core ''repository''), (''sha'', prop_of core ''sha''),
           (''pin'', JObj [(''path'', JStr DEPS_EDN_PATH), (''sha256'', JStr (sha (the depsEdnBytes))), (''committedAtDemoSha'', JBool True)])]"
    "prop_of m ''deploymentId'' = JStr ?i" "prop_of m ''generatedAt'' = generatedAt" "prop_of m ''artifacts'' = artifacts" "prop_of m ''profiles'' = profiles"
    "prop_of m ''schema'' = JStr ''eacl-demo.deployment-manifest.v1''" "prop_of m ''contractVersion'' = JStr ''explorer.v1''"
    unfolding m by (simp_all add: prop_of_def)
  have keys: "exact_keys m [''schema'', ''contractVersion'', ''deploymentId'', ''generatedAt'', ''demo'', ''eacl'', ''artifacts'', ''profiles'']"
    unfolding m by (simp add: exact_keys_def)
  show ?thesis using demo core rest i unfolding Inr sum.case
    by (simp add: validateDeploymentManifest_def guards_ok Let_def parts keys exact_keys_def [of "JObj _"] prop_of_def [of "JObj (_ # _)"] passes_ok)
  qed (auto simp: Inr)
qed simp

text \<open>
  The retention keeps the newest versions: nothing is lost, what is kept is at least as new as
  what is stale, and as many are kept as asked for, or all of them.
\<close>

theorem retention_keeps_newest:
  "case stalePublishedVersions versions retain of
     Inl e \<Rightarrow> True
   | Inr (retained, stale) \<Rightarrow>
       mset (retained @ stale) = mset (published (items versions))
       \<and> sorted_wrt (\<lambda>a b. version_number b \<le> version_number a) (retained @ stale)
       \<and> length retained = min (nat (the_int retain)) (length (published (items versions))) \<and> 1 \<le> the_int retain"
proof -
  have "mset (newest_first vs) = mset vs" "length (newest_first vs) = length vs" for vs by (simp_all add: newest_first_def)
  moreover have "sorted_wrt (\<lambda>a b. version_number b \<le> version_number a) (newest_first vs)" for vs
    using sorted_sort_key [of version_number "rev vs"] by (simp add: newest_first_def sorted_wrt_rev sorted_map)
  ultimately show ?thesis
    by (auto simp: stalePublishedVersions_def Let_def safe_int_between_def simp flip: mset_append split: jsval.splits)
qed

end
