(* ===== verification/Deploy_Smoke.thy ===== *)
theory Deploy_Smoke
  imports Release_Manifests
begin

text \<open>
  \<open>scripts/lib/demo-smoke-result.mjs\<close> and \<open>scripts/lib/public-readiness.mjs\<close>: what a deployment
  accepts as the answer of the profile it has just deployed, and how long it waits for it. The network
  and the clock are the environment: an attempt is given by the clock's reading before it and by
  what came back.
\<close>

subsection \<open>Envelopes\<close>

definition META_KEYS :: "string list" where "META_KEYS = [''revision'', ''requestId'', ''elapsedMs'', ''cacheStatus'']"
definition CACHE_STATUSES :: "string list" where "CACHE_STATUSES = [''hit'', ''miss'', ''disabled'']"
definition DEPLOYMENT_KEYS :: "string list" where "DEPLOYMENT_KEYS = [''profileId'', ''demoSha'', ''eaclSha'', ''artifactSha256'', ''deploymentId'']"

definition sized :: "nat \<Rightarrow> jsval \<Rightarrow> bool" where
  "sized n v \<longleftrightarrow> str_satisfies (\<lambda>s. 1 \<le> length s \<and> length s \<le> n) v"

definition elapsed_ok :: "jsval \<Rightarrow> bool" where
  \<comment> \<open>absent, or a finite number that is not negative\<close>
  "elapsed_ok v \<longleftrightarrow> v = JUndef \<or> (case num_of v of None \<Rightarrow> False | Some q \<Rightarrow> 0 \<le> q)"

definition meta_ok :: "jsval \<Rightarrow> bool" where
  "meta_ok m \<longleftrightarrow> list_all (\<lambda>(k, v). k \<in> set META_KEYS) (props m) \<and> sized 256 (prop_of m ''revision'') \<and> sized 128 (prop_of m ''requestId'')
     \<and> elapsed_ok (prop_of m ''elapsedMs'') \<and> (prop_of m ''cacheStatus'' = JUndef \<or> member_of CACHE_STATUSES (prop_of m ''cacheStatus''))"

definition validateDemoSmokeEnvelope :: "jsval \<Rightarrow> js_error + jsval" where
  "validateDemoSmokeEnvelope e =
     throw_if (\<not> is_object e \<or> \<not> is_object (prop_of e ''meta'')) (Error ''demo smoke envelope is invalid'')
     (let success = has_prop e ''data'' \<and> \<not> has_prop e ''error''; failed = has_prop e ''error'' \<and> \<not> has_prop e ''data''; f = prop_of e ''error'' in
      throw_if (\<not> success \<and> \<not> failed \<or> length (props e) \<noteq> 2) (Error ''demo smoke envelope shape is invalid'')
      (throw_if (\<not> meta_ok (prop_of e ''meta'')) (Error ''demo smoke response metadata is invalid'')
      (throw_if (success \<and> \<not> is_object (prop_of e ''data'')) (Error ''demo smoke response data is invalid'')
      (throw_if (failed \<and> (\<not> exact_keys f [''code'', ''message''] \<or> \<not> sized 128 (prop_of f ''code'') \<or> \<not> sized 512 (prop_of f ''message'')))
        (Error ''demo smoke response error is invalid'') (Inr e)))))"

definition identity_differs :: "jsval \<Rightarrow> jsval \<Rightarrow> bool" where
  "identity_differs i expected \<longleftrightarrow> list_ex (\<lambda>k. \<not> strict_eq (prop_of i k) (prop_of expected k)) DEPLOYMENT_KEYS"

definition summarizeDemoSmoke :: "string \<Rightarrow> jsval \<Rightarrow> jsval \<Rightarrow> jsval \<Rightarrow> jsval list \<Rightarrow> jsval \<Rightarrow> js_error + jsval" where
  "summarizeDemoSmoke profileId expected health bootstrap decisions mutation =
     (let data_of = (\<lambda>r. prop_of (prop_of r ''envelope'') ''data''); h = prop_of (data_of health) ''identity''; b = prop_of (data_of bootstrap) ''identity'';
          sha = prop_of b ''dataManifestSha256'' in
      throw_if (identity_differs h expected) (Error (profileId @ '' health deployment identity differs from the candidate''))
      (throw_if (identity_differs b expected) (Error (profileId @ '' bootstrap deployment identity differs from the candidate''))
      (bind_r (passes hex64 (nullish_or sha (JStr []))) (\<lambda>ok.
       throw_if (\<not> ok) (Error (profileId @ '' smoke data manifest identity is invalid''))
       (throw_if (\<not> strict_eq (prop_of h ''dataManifestSha256'') sha) (Error (profileId @ '' health and bootstrap data manifests differ''))
       (throw_if (\<not> strict_eq (prop_of (prop_of (data_of bootstrap) ''dataset'') ''manifestSha256'') sha) (Error (profileId @ '' bootstrap dataset manifest differs from its identity''))
        (Inr (JObj [(''dataManifestSha'', sha), (''evidence'', JStr (json (JArr ([health, bootstrap] @ decisions @ [mutation]))))]))))))))"

subsection \<open>Waiting for the deployment\<close>

record smoke_response =
  smoke_status :: int
  content_type :: jsval
  allow_origin :: jsval
  smoke_text :: "string option"

record smoke_attempt =
  began_at :: rat
  smoke_answer :: "smoke_response option"

definition is_json :: "jsval \<Rightarrow> bool" where
  "is_json v \<longleftrightarrow> (case v of JStr s \<Rightarrow> take 16 s = ''application/json'' | _ \<Rightarrow> False)"

definition smoke_passes :: "(string \<Rightarrow> jsval) \<Rightarrow> string \<Rightarrow> jsval \<Rightarrow> smoke_response \<Rightarrow> bool" where
  \<comment> \<open>an unread body, a text that is not JSON and an invalid envelope are the attempt's error\<close>
  "smoke_passes num profileId expected r \<longleftrightarrow> is_json (content_type r) \<and> (case smoke_text r of
     None \<Rightarrow> False
   | Some body \<Rightarrow> (case json_parse num body of
       None \<Rightarrow> False
     | Some v \<Rightarrow> (case validateDemoSmokeEnvelope v of
         Inl e \<Rightarrow> False
       | Inr e \<Rightarrow> let data = prop_of e ''data''; i = prop_of data ''identity'' in
           smoke_status r = 200 \<and> allow_origin r = JStr ''https://demo.eacl.dev'' \<and> prop_of data ''ready'' = JBool True
           \<and> prop_of i ''profileId'' = JStr profileId
           \<and> list_all (\<lambda>k. strict_eq (prop_of i k) (prop_of expected k)) [''demoSha'', ''eaclSha'', ''artifactSha256'', ''deploymentId''])))"

datatype smoke_outcome = Smoke_Passed | Smoke_Failed | Still_Waiting

fun smoke_loop :: "(string \<Rightarrow> jsval) \<Rightarrow> string \<Rightarrow> jsval \<Rightarrow> rat \<Rightarrow> smoke_attempt list \<Rightarrow> smoke_outcome" where
  "smoke_loop num profileId expected deadline [] = Still_Waiting"
| "smoke_loop num profileId expected deadline (a # as) =
     (if \<not> began_at a < deadline then Smoke_Failed
      else if (case smoke_answer a of None \<Rightarrow> False | Some r \<Rightarrow> smoke_passes num profileId expected r) then Smoke_Passed
      else smoke_loop num profileId expected deadline as)"

definition smokeFunctionUrl :: "(string \<Rightarrow> jsval) \<Rightarrow> string \<Rightarrow> jsval \<Rightarrow> rat \<Rightarrow> rat \<Rightarrow> smoke_attempt list \<Rightarrow> smoke_outcome" where
  "smokeFunctionUrl num profileId expected started timeoutMs as = smoke_loop num profileId expected (started + timeoutMs) as"

definition attempt_ms :: "rat \<Rightarrow> rat \<Rightarrow> rat" where
  \<comment> \<open>how long an attempt may take\<close>
  "attempt_ms deadline t = max 1 (min 10000 (deadline - t))"

text \<open>
  The wait ends: when an attempt begins at the deadline or later it has passed or failed. It passes only
  by an answer, to an attempt begun before the deadline, that names the expected deployment.
\<close>

lemma smoke_loop_passed:
  "smoke_loop num profileId expected deadline as = Smoke_Passed \<Longrightarrow>
   list_ex (\<lambda>a. began_at a < deadline \<and> (case smoke_answer a of None \<Rightarrow> False | Some r \<Rightarrow> smoke_passes num profileId expected r)) as"
  by (induction as) (auto split: if_splits)

lemma smoke_loop_ends: "list_ex (\<lambda>a. \<not> began_at a < deadline) as \<Longrightarrow> smoke_loop num profileId expected deadline as \<noteq> Still_Waiting"
  by (induction as) auto

theorem smoke_ends_by_evidence:
  "(if list_ex (\<lambda>a. started + timeoutMs \<le> began_at a) as then smokeFunctionUrl num profileId expected started timeoutMs as \<noteq> Still_Waiting else True)
   \<and> (if smokeFunctionUrl num profileId expected started timeoutMs as = Smoke_Passed
      then list_ex (\<lambda>a. began_at a < started + timeoutMs
          \<and> (case smoke_answer a of None \<Rightarrow> False | Some r \<Rightarrow> smoke_status r = 200 \<and> smoke_passes num profileId expected r)) as else True)"
proof -
  have ok: "smoke_passes num profileId expected r \<Longrightarrow> smoke_status r = 200" for r
    by (simp add: smoke_passes_def Let_def split: option.splits sum.splits)
  have "list_ex (\<lambda>a. began_at a < started + timeoutMs \<and> (case smoke_answer a of None \<Rightarrow> False | Some r \<Rightarrow> smoke_status r = 200 \<and> smoke_passes num profileId expected r)) as"
    if "smokeFunctionUrl num profileId expected started timeoutMs as = Smoke_Passed"
  proof -
    from that obtain a where a: "a \<in> set as" "began_at a < started + timeoutMs" "case smoke_answer a of None \<Rightarrow> False | Some r \<Rightarrow> smoke_passes num profileId expected r"
      using smoke_loop_passed [of num profileId expected "started + timeoutMs" as] by (auto simp: smokeFunctionUrl_def list_ex_iff)
    then show ?thesis using ok by (cases "smoke_answer a") (auto simp: list_ex_iff intro!: bexI [of _ a])
  qed
  then show ?thesis using smoke_loop_ends [of "started + timeoutMs" as num profileId expected] by (simp add: smokeFunctionUrl_def not_less)
qed

end
