(* ===== verification/Descriptor_Presentation.thy ===== *)
theory Descriptor_Presentation
  imports Guards Spread
begin

text \<open>
  \<open>packages/explorer-state/src/descriptor-presentation.mjs\<close>: what a descriptor advertises, as the
  closed vocabulary shown to the user. A term outside its dictionary is refused, except the names
  every object inherits, which the lookup finds as something that is not a notice.
\<close>

datatype shown_term =
    Notice string string string
  | Inherited string

definition notice :: "string \<Rightarrow> string \<Rightarrow> string \<Rightarrow> string \<times> shown_term" where
  "notice i label description = (i, Notice i label description)"

definition OPERATION_PRESENTATION :: "(string \<times> shown_term) list" where
  "OPERATION_PRESENTATION = [
     notice ''health'' ''Health''
       ''Report readiness and immutable serving identity.'',
     notice ''bootstrap'' ''Profile facts''
       ''Negotiate the contract, capabilities, limits, dataset, and basis.'',
     notice ''list-subjects'' ''Subjects''
       ''Browse known subjects in bounded pages.'',
     notice ''get-object'' ''Objects''
       ''Open one normalized object by canonical type and identifier.'',
     notice ''list-relationships'' ''Relationships''
       ''Expand outbound relationships in bounded cursor pages.'',
     notice ''reverse-relationships'' ''Reverse lookup''
       ''Find normalized objects related to a selected subject.'',
     notice ''check-permission'' ''Authorization''
       ''Evaluate one subject, resource, and permission.'',
     notice ''get-schema'' ''Schema''
       ''Inspect the read-only normalized authorization schema.'',
     notice ''get-cache-info'' ''Cache''
       ''Inspect the advertised cache scope and request result without mutating it.'',
     notice ''count-objects'' ''Bounded counts''
       ''Count only up to an explicit ceiling and distinguish exact from truncated results.'']"

definition CONSISTENCY_PRESENTATION :: "(string \<times> shown_term) list" where
  "CONSISTENCY_PRESENTATION = [
     notice ''minimize'' ''Minimize latency''
       ''Use the lowest-latency consistency path this profile advertises.'',
     notice ''authoritative'' ''Authoritative''
       (''Wait for the profile'' @ [CHR 0x27] @ ''s qualified authoritative read boundary.''),
     notice ''at-least'' ''At least as fresh''
       ''Require a basis that is no older than the supplied qualified marker.'',
     notice ''exact'' ''Exact snapshot''
       ''Read only the exact qualified snapshot identified by a scoped token.'',
     notice ''historical-date'' ''Historical date''
       ''Select a qualified retained snapshot at or before a date.'']"

definition SNAPSHOT_PRESENTATION :: "(string \<times> shown_term) list" where
  "SNAPSHOT_PRESENTATION = [
     notice ''fixed-environment'' ''Fixed for this environment''
       ''One database value is captured during initialization and remains fixed until the serving environment is replaced.'',
     notice ''request-snapshot'' ''Snapshot per request''
       ''Each admitted operation owns a bounded immutable request snapshot.'',
     notice ''page-lifecycle'' ''Browser page lifecycle''
       ''The database, cursors, and cache belong to the current browser page.'',
     notice ''rebuild-lifecycle'' ''Rebuilt environment''
       ''The immutable dataset is rebuilt and verified before each serving lifecycle becomes ready.'']"

definition CACHE_PRESENTATION :: "(string \<times> shown_term) list" where
  "CACHE_PRESENTATION = [
     notice ''none'' ''No authorization cache''
       ''The profile advertises no reusable authorization cache.'',
     notice ''request-local'' ''Request-local cache''
       ''Cached values exist only inside one admitted operation.'',
     notice ''environment-local'' ''Environment-local cache''
       ''Cached values may be reused only within the current isolated serving environment.'',
     notice ''browser-page-local'' ''Browser-page cache''
       ''Cached values remain inside the current browser page and are discarded with it.'',
     notice ''shared-read-through'' ''Shared read-through cache''
       ''The profile may reuse qualified read-through entries under its advertised identity and invalidation rules.'']"

definition MUTATION_PRESENTATION :: "(string \<times> shown_term) list" where
  "MUTATION_PRESENTATION = [
     notice ''none'' ''No data mutation''
       ''Neither public requests nor initialization mutate the dataset.'',
     notice ''private-seed-workflow'' ''Private publication workflow''
       ''Dataset creation and publication happen only in a separate privileged workflow; the public explorer is read-only.'',
     notice ''initialization-before-ready'' ''Initialization before readiness''
       ''The environment creates and verifies its private fixture before public read operations become ready.'',
     notice ''browser-local'' ''Browser-local mutations''
       ''Fixture restoration and additional seeding affect only the active browser session, never a shared server dataset.'',
     notice ''browser-initialization'' ''Browser-local initialization''
       ''Fixture initialization affects only the current browser page and never a shared server dataset.'']"

definition LIMITATION_PRESENTATION :: "(string \<times> shown_term) list" where
  "LIMITATION_PRESENTATION = [
     notice ''read-only'' ''Read-only public profile''
       ''Public explorer operations cannot seed, transact, edit schema, evict shared cache, migrate, or administer storage.'',
     notice ''fixed-current-snapshot'' ''Fixed current snapshot''
       ''The current database value is fixed for this serving environment and does not advance during requests.'',
     notice ''no-synchronization'' ''No synchronization''
       ''Requests cannot wait for a newer backend basis or trigger synchronization.'',
     notice ''no-history-api'' ''No public history selection''
       ''Retained storage history is not exposed by this read-only profile.'',
     notice ''ephemeral'' ''Ephemeral dataset''
       ''The serving dataset belongs to an isolated runtime lifecycle and can be rebuilt after replacement.'',
     notice ''browser-local'' ''Browser-local execution''
       ''Authorization inputs, fixture data, and results remain in the browser page.'',
     notice ''no-durability'' ''No durability claim''
       ''This profile does not promise durable application data across runtime replacement.'',
     notice ''datomic-like-not-datomic-pro'' ''Bundled in-memory Datomic-like conformance store''
       ''The in-memory store demonstrates the accepted semantics but is not Datomic Pro and makes no Datomic service claim.'',
     notice ''no-datalog-api'' ''No Datalog API''
       ''This conformance store implements the bounded EACL access paths only; it does not expose or claim a general Datalog query API.'',
     notice ''no-distribution'' ''Not distributed''
       ''Each Lambda environment owns an isolated in-memory rebuild; there is no replicated or distributed database service.'',
     notice ''not-production-database'' ''Not a production database''
       ''This store exists only to demonstrate EACL semantics and is not supported as an application database.'',
     notice ''unequal-dataset-scale'' ''Smaller fixture''
       ''This profile uses the canonical ten-thousand-resource prefix and must not be compared as if it served the million-resource dataset.'',
     notice ''no-snapstart'' ''SnapStart is not used''
       ''Startup relies on the profile runtime; no SnapStart support or performance claim is made.'',
     notice ''eventual-storage-read'' ''Storage visibility limits''
       ''Fresh storage publication may be eventually visible; only qualified snapshot semantics are advertised.'',
     notice ''lifecycle-rebuild'' ''Lifecycle rebuild''
       ''Environment or page replacement discards owned database, cursor, and cache state and rebuilds from the accepted fixture.'',
     notice ''unsupported-consistency'' ''Some consistency modes are unavailable''
       ''Only the modes listed for this profile are executable; other requests fail instead of silently weakening consistency.'']"

definition projectTerm :: "(string \<times> shown_term) list \<Rightarrow> string \<Rightarrow> jsval \<Rightarrow> js_error + shown_term" where
  "projectTerm dictionary kind v =
     bind_r (text_r v) (\<lambda>k.
     case map_of dictionary k of
       Some t \<Rightarrow> Inr t
     | None \<Rightarrow> if k \<in> set INHERITED then Inr (Inherited k) else Inl (Error (''unknown descriptor '' @ kind)))"

definition projectTerms :: "(string \<times> shown_term) list \<Rightarrow> string \<Rightarrow> jsval \<Rightarrow> js_error + shown_term list" where
  "projectTerms dictionary kind v = (case v of
     JArr vs \<Rightarrow> mapM_r (projectTerm dictionary kind) vs
   | _ \<Rightarrow> Inl (Error (''descriptor '' @ kind @ '' list is missing'')))"

definition normalizeLimits :: "jsval \<Rightarrow> js_error + (string \<times> jsval) list" where
  "normalizeLimits limits = (case limits of
     JArr vs \<Rightarrow> bind_r (mapM_r (\<lambda>v. bind_r (get_r v ''name'') (\<lambda>n. bind_r (text_r n) (\<lambda>k. Inr (k, prop_of v ''value'')))) vs)
       (\<lambda>kvs. Inr (from_entries kvs))
   | JObj kvs \<Rightarrow> Inr (from_entries kvs)
   | _ \<Rightarrow> Inl (Error ''descriptor limits are missing''))"

record presentation =
  shown_identity :: "(string \<times> jsval) list"
  runtime_label :: string
  snap_start :: jsval
  snap_start_text :: string
  operations :: "shown_term list"
  controls :: "(string \<times> bool) list"
  default_mode :: jsval
  modes :: "shown_term list"
  snapshot :: shown_term
  cache :: shown_term
  mutation :: shown_term
  limitations :: "shown_term list"
  shown_limits :: "(string \<times> jsval) list"
  dataset :: "(string \<times> jsval) list"
  deployment :: jsval
  basis :: jsval

definition runtimeLabel :: "jsval \<Rightarrow> js_error + string" where
  "runtimeLabel runtime =
     bind_r (text_r (prop_of runtime ''name'')) (\<lambda>n. bind_r (text_r (prop_of runtime ''architecture'')) (\<lambda>a.
     bind_r (text_r (prop_of runtime ''execution'')) (\<lambda>e.
       let dot = '' '' @ [CHR 0xB7] @ '' '' in Inr (n @ dot @ a @ dot @ e))))"

definition snapStartText :: "jsval \<Rightarrow> string" where
  "snapStartText v = (if v = JStr ''enabled'' then ''SnapStart enabled'' else if v = JStr ''disabled'' then ''SnapStart disabled''
     else ''SnapStart not applicable'')"

definition controls_of :: "jsval list \<Rightarrow> nat \<Rightarrow> (string \<times> bool) list" where
  "controls_of advertised modeCount =
     (let has = (\<lambda>k. includes_value advertised (JStr k)) in
      [(''subjects'', has ''list-subjects''), (''objects'', has ''get-object'' \<and> has ''count-objects''), (''relationships'', has ''list-relationships''),
       (''reverseRelationships'', has ''reverse-relationships''), (''authorization'', has ''check-permission''), (''schema'', has ''get-schema''),
       (''cache'', has ''get-cache-info''), (''consistency'', 1 < modeCount)])"

definition term_id :: "shown_term list \<Rightarrow> js_error + jsval" where
  "term_id ts = (case ts of [] \<Rightarrow> Inl Type_Error | Notice i l d # _ \<Rightarrow> Inr (JStr i) | Inherited k # _ \<Rightarrow> Inr JUndef)"

definition projectDescriptorPresentation :: "jsval \<Rightarrow> js_error + presentation" where
  "projectDescriptorPresentation descriptor =
     (let d = prop_of descriptor; capabilities = prop_of (d ''capabilities'') in
      throw_if (list_ex (\<lambda>k. \<not> truthy (d k)) [''identity'', ''profile'', ''runtime'', ''capabilities'', ''dataset'', ''basis''])
        (Error ''descriptor presentation facts are incomplete'')
      (bind_r (projectTerms OPERATION_PRESENTATION ''operation'' (capabilities ''operations'')) (\<lambda>ops.
       bind_r (projectTerms CONSISTENCY_PRESENTATION ''consistency mode'' (capabilities ''consistencyModes'')) (\<lambda>ms.
       bind_r (projectTerm SNAPSHOT_PRESENTATION ''snapshot behavior'' (capabilities ''snapshotBehavior'')) (\<lambda>sn.
       bind_r (projectTerm CACHE_PRESENTATION ''cache behavior'' (capabilities ''cacheBehavior'')) (\<lambda>ca.
       bind_r (projectTerm MUTATION_PRESENTATION ''mutation locality'' (capabilities ''mutationLocality'')) (\<lambda>mu.
       bind_r (projectTerms LIMITATION_PRESENTATION ''limitation'' (capabilities ''limitations'')) (\<lambda>ls.
       bind_r (runtimeLabel (d ''runtime'')) (\<lambda>label.
       bind_r (term_id ms) (\<lambda>mode.
       bind_r (normalizeLimits (d ''limits'')) (\<lambda>limits.
       Inr \<lparr>shown_identity = [(''profileId'', prop_of (d ''identity'') ''profileId''), (''backend'', prop_of (d ''profile'') ''backend''),
             (''storage'', prop_of (d ''profile'') ''storage'')],
           runtime_label = label, snap_start = prop_of (d ''runtime'') ''snapStart'', snap_start_text = snapStartText (prop_of (d ''runtime'') ''snapStart''),
           operations = ops, controls = controls_of (items (capabilities ''operations'')) (length ms),
           default_mode = mode, modes = ms, snapshot = sn, cache = ca, mutation = mu, limitations = ls, shown_limits = limits,
           dataset = map (\<lambda>k. (k, prop_of (d ''dataset'') k)) [''fixtureId'', ''logicalResourceCount'', ''manifestSha256''],
           deployment = spread [d ''identity''], basis = spread [d ''basis'']\<rparr>)))))))))))"

subsection \<open>The vocabulary is closed\<close>

definition is_shown :: "(string \<times> shown_term) list \<Rightarrow> jsval \<Rightarrow> shown_term \<Rightarrow> bool" where
  "is_shown dictionary v t \<longleftrightarrow> (case js_string v of None \<Rightarrow> False
     | Some k \<Rightarrow> map_of dictionary k = Some t \<or> map_of dictionary k = None \<and> k \<in> set INHERITED \<and> t = Inherited k)"

lemma projectTerm_shows: "projectTerm dictionary kind v = Inr t \<longleftrightarrow> is_shown dictionary v t"
  by (cases "js_string v"; cases "map_of dictionary (the (js_string v))") (auto simp: projectTerm_def is_shown_def text_r_def)

lemma projectTerms_shows: "projectTerms dictionary kind v = Inr ts \<Longrightarrow> list_all2 (is_shown dictionary) (items v) ts"
  by (cases v) (auto simp: projectTerms_def mapM_r_Inr projectTerm_shows)

lemma presentation_shows:
  assumes "projectDescriptorPresentation descriptor = Inr p"
  shows "list_all2 (is_shown OPERATION_PRESENTATION) (items (prop_of (prop_of descriptor ''capabilities'') ''operations'')) (operations p)"
    and "list_all2 (is_shown LIMITATION_PRESENTATION) (items (prop_of (prop_of descriptor ''capabilities'') ''limitations'')) (limitations p)"
    and "modes p \<noteq> []"
proof -
  from assms obtain ops ms ls mode where
    "projectTerms OPERATION_PRESENTATION ''operation'' (prop_of (prop_of descriptor ''capabilities'') ''operations'') = Inr ops" "operations p = ops"
    "projectTerms LIMITATION_PRESENTATION ''limitation'' (prop_of (prop_of descriptor ''capabilities'') ''limitations'') = Inr ls" "limitations p = ls"
    "term_id ms = Inr mode" "modes p = ms"
    unfolding projectDescriptorPresentation_def Let_def by (auto split: if_splits)
  then show "list_all2 (is_shown OPERATION_PRESENTATION) (items (prop_of (prop_of descriptor ''capabilities'') ''operations'')) (operations p)"
    "list_all2 (is_shown LIMITATION_PRESENTATION) (items (prop_of (prop_of descriptor ''capabilities'') ''limitations'')) (limitations p)" "modes p \<noteq> []"
    by (auto simp: term_id_def dest: projectTerms_shows)
qed

end
