(* ===== verification/Execution_Boundary.thy ===== *)
theory Execution_Boundary
  imports Machine Contracts_Base
begin

text \<open>
  \<open>packages/contracts/src/execution-boundary.mjs\<close>: admission, deadline, cancellation and cleanup
  of requests. A job is one call of \<open>execute\<close>; the jobs of one boundary share \<open>active\<close>. What the
  handler answers, when the timer fires, when the parent aborts and how a cleanup ends are
  events; \<open>stringify\<close> is \<open>JSON.stringify\<close>, which may throw (\<open>None\<close>).
\<close>

subsection \<open>Jobs\<close>

datatype failure = Boundary string | Handler_Error

datatype 'r settled = Value 'r | Failed failure

datatype 'r phase =
    Refused
  | Body
  | Cleaning "'r settled"
  | Leaked
  | Finished "'r settled"

record 'r job =
  aborted :: bool
  listening :: bool
  deadlineReached :: bool
  race :: "'r settled option"
  registered :: "nat list"
  late :: "nat list"
  pending :: "nat list"
  ran :: "nat list"
  phase :: "'r phase"

record 'r boundary =
  active :: nat
  jobs :: "'r job list"

record 'r boundary_options =
  maximumConcurrency :: nat
  maximumResponseBytes :: nat
  stringify :: "'r \<Rightarrow> string option"

definition default_boundary :: "('r \<Rightarrow> string option) \<Rightarrow> 'r boundary_options" where
  "default_boundary f = \<lparr>maximumConcurrency = admissionConcurrency, maximumResponseBytes = responseBodyBytes, stringify = f\<rparr>"

definition empty_boundary :: "'r boundary" where
  "empty_boundary = \<lparr>active = 0, jobs = []\<rparr>"

text \<open>
  A job as admitted. A parent that is already aborted aborts the controller before
  \<open>abortPromise\<close> listens to it.
\<close>

definition admitted_job :: "bool \<Rightarrow> 'r job" where
  "admitted_job parentAborted = \<lparr>aborted = parentAborted, listening = \<not> parentAborted, deadlineReached = False,
     race = None, registered = [], late = [], pending = [], ran = [], phase = Body\<rparr>"

definition refused_job :: "'r job" where
  "refused_job = \<lparr>aborted = False, listening = False, deadlineReached = False, race = None, registered = [],
     late = [], pending = [], ran = [], phase = Refused\<rparr>"

subsection \<open>Events\<close>

datatype 'r boundary_event =
    Execute bool
  | Register nat nat
  | Parent_Abort nat
  | Deadline nat
  | Settle nat "'r settled"
  | Resume nat
  | Cleanup_Done nat
  | Cleanup_Throws nat
  | Release nat

definition abort_code :: "'r job \<Rightarrow> string" where
  "abort_code j = (if deadlineReached j then ''deadline-exceeded'' else ''cancelled'')"

text \<open>\<open>controller.abort\<close>: only the first one counts, and it rejects \<open>abortPromise\<close> if that listens.\<close>

definition abort_job :: "'r job \<Rightarrow> 'r job" where
  "abort_job j =
     (if aborted j then j
      else j\<lparr>aborted := True,
        race := (if listening j \<and> race j = None then Some (Failed (Boundary (abort_code j))) else race j)\<rparr>)"

text \<open>What the \<open>try\<close> block ends with once the race is decided.\<close>

definition settle_outcome :: "'r boundary_options \<Rightarrow> 'r job \<Rightarrow> 'r settled \<Rightarrow> 'r settled" where
  "settle_outcome opts j v = (case v of
     Failed f \<Rightarrow> Failed f
   | Value r \<Rightarrow>
       if aborted j then Failed (Boundary (abort_code j))
       else (case stringify opts r of
          None \<Rightarrow> Failed (Boundary ''internal-error'')
        | Some t \<Rightarrow>
            if byte_length t > maximumResponseBytes opts then Failed (Boundary ''response-too-large'') else Value r))"

fun job_step :: "'r boundary_options \<Rightarrow> 'r boundary_event \<Rightarrow> 'r job \<Rightarrow> 'r job option" where
  "job_step opts (Register i c) j =
     (case phase j of
        Body \<Rightarrow> Some (j\<lparr>registered := registered j @ [c]\<rparr>)
      | Cleaning v \<Rightarrow> Some (j\<lparr>late := late j @ [c], pending := pending j @ [c]\<rparr>)
      | _ \<Rightarrow> Some j)"
| "job_step opts (Parent_Abort i) j = (if phase j = Body then Some (abort_job j) else Some j)"
| "job_step opts (Deadline i) j = (if phase j = Body then Some (abort_job (j\<lparr>deadlineReached := True\<rparr>)) else None)"
| "job_step opts (Settle i v) j = Some (if phase j = Body \<and> race j = None then j\<lparr>race := Some v\<rparr> else j)"
| "job_step opts (Resume i) j =
     (case (phase j, race j) of
        (Body, Some v) \<Rightarrow> Some (j\<lparr>phase := Cleaning (settle_outcome opts j v), pending := rev (registered j)\<rparr>)
      | _ \<Rightarrow> None)"
| "job_step opts (Cleanup_Done i) j =
     (case (phase j, pending j) of
        (Cleaning v, c # cs) \<Rightarrow> Some (j\<lparr>pending := cs, ran := ran j @ [c]\<rparr>)
      | _ \<Rightarrow> None)"
| "job_step opts (Cleanup_Throws i) j =
     (case (phase j, pending j) of
        (Cleaning v, c # cs) \<Rightarrow> Some (j\<lparr>phase := Leaked, pending := cs, ran := ran j @ [c]\<rparr>)
      | _ \<Rightarrow> None)"
| "job_step opts (Release i) j =
     (case (phase j, pending j) of (Cleaning v, []) \<Rightarrow> Some (j\<lparr>phase := Finished v\<rparr>) | _ \<Rightarrow> None)"
| "job_step opts (Execute p) j = None"

fun job_of :: "'r boundary_event \<Rightarrow> nat" where
  "job_of (Register i c) = i"
| "job_of (Parent_Abort i) = i"
| "job_of (Deadline i) = i"
| "job_of (Settle i v) = i"
| "job_of (Resume i) = i"
| "job_of (Cleanup_Done i) = i"
| "job_of (Cleanup_Throws i) = i"
| "job_of (Release i) = i"
| "job_of (Execute p) = 0"

definition boundary_step :: "'r boundary_options \<Rightarrow> 'r boundary_event \<Rightarrow> 'r boundary \<Rightarrow> 'r boundary option" where
  "boundary_step opts e s =
     (case e of
        Execute parentAborted \<Rightarrow> Some
          (if active s \<ge> maximumConcurrency opts then s\<lparr>jobs := jobs s @ [refused_job]\<rparr>
           else \<lparr>active = active s + 1, jobs = jobs s @ [admitted_job parentAborted]\<rparr>)
      | _ \<Rightarrow>
          if job_of e < length (jobs s) then
            map_option (\<lambda>j. s\<lparr>jobs := (jobs s)[job_of e := j],
                active := (case e of Release i \<Rightarrow> active s - 1 | _ \<Rightarrow> active s)\<rparr>)
              (job_step opts e (jobs s ! job_of e))
          else None)"

subsection \<open>The invariant\<close>

definition holds_slot :: "'r job \<Rightarrow> bool" where
  "holds_slot j = (case phase j of Refused \<Rightarrow> False | Finished _ \<Rightarrow> False | _ \<Rightarrow> True)"

definition within_limit :: "'r boundary_options \<Rightarrow> 'r settled \<Rightarrow> bool" where
  "within_limit opts v = (case v of
     Failed f \<Rightarrow> True
   | Value r \<Rightarrow> (case stringify opts r of None \<Rightarrow> False | Some t \<Rightarrow> byte_length t \<le> maximumResponseBytes opts))"

definition job_ok :: "'r boundary_options \<Rightarrow> 'r job \<Rightarrow> bool" where
  "job_ok opts j = (case phase j of
     Cleaning v \<Rightarrow> ran j @ pending j = rev (registered j) @ late j \<and> within_limit opts v
   | Finished v \<Rightarrow> ran j = rev (registered j) @ late j \<and> within_limit opts v
   | Leaked \<Rightarrow> ran j @ pending j = rev (registered j) @ late j \<and> ran j \<noteq> []
   | _ \<Rightarrow> ran j = [] \<and> late j = [])"

definition boundary_ok :: "'r boundary_options \<Rightarrow> 'r boundary \<Rightarrow> bool" where
  "boundary_ok opts s \<longleftrightarrow>
     active s = length (filter holds_slot (jobs s)) \<and> active s \<le> maximumConcurrency opts \<and> list_all (job_ok opts) (jobs s)"

lemma settle_outcome_within: "within_limit opts (settle_outcome opts j v)"
  by (auto simp: within_limit_def settle_outcome_def split: settled.split option.split)

lemma abort_job_simps [simp]:
  "phase (abort_job j) = phase j" "ran (abort_job j) = ran j" "late (abort_job j) = late j"
  "pending (abort_job j) = pending j" "registered (abort_job j) = registered j"
  by (simp_all add: abort_job_def)

lemma job_step_ok:
  assumes "job_ok opts j" and "job_step opts e j = Some j'"
  shows "job_ok opts j'"
  using assms
  by (cases e) (auto simp: job_ok_def settle_outcome_within split: phase.splits if_splits list.splits option.splits)

lemma job_step_slot:
  assumes "job_step opts e j = Some j'"
  shows "holds_slot j' \<longleftrightarrow> holds_slot j \<and> (case e of Release i \<Rightarrow> False | _ \<Rightarrow> True)"
    and "case e of Release i \<Rightarrow> holds_slot j | _ \<Rightarrow> True"
  using assms
  by (cases e; auto simp: holds_slot_def split: phase.splits if_splits list.splits option.splits)+

lemma filter_update:
  "i < length xs \<Longrightarrow> length (filter P (xs[i := y])) + (if P (xs ! i) then 1 else 0) = length (filter P xs) + (if P y then 1 else 0)"
proof (induction xs arbitrary: i)
  case (Cons x xs)
  then show ?case by (cases i) auto
qed simp

lemma boundary_step_job:
  assumes "boundary_step opts e s = Some t" and "\<And>p. e \<noteq> Execute p"
  obtains j where "job_of e < length (jobs s)" and "job_step opts e (jobs s ! job_of e) = Some j"
    and "jobs t = (jobs s)[job_of e := j]" and "active t = (case e of Release i \<Rightarrow> active s - 1 | _ \<Rightarrow> active s)"
proof -
  have "(if job_of e < length (jobs s) then
      map_option (\<lambda>j. s\<lparr>jobs := (jobs s)[job_of e := j],
        active := (case e of Release i \<Rightarrow> active s - 1 | _ \<Rightarrow> active s)\<rparr>) (job_step opts e (jobs s ! job_of e))
      else None) = Some t"
    using assms by (cases e) (auto simp only: boundary_step_def boundary_event.case)
  with that show thesis by (auto split: if_splits)
qed

lemma boundary_step_ok:
  assumes ok: "boundary_ok opts s" and step: "boundary_step opts e s = Some t"
  shows "boundary_ok opts t"
proof (cases "\<exists>p. e = Execute p")
  case True
  with assms show ?thesis
    by (auto simp: boundary_ok_def boundary_step_def admitted_job_def refused_job_def holds_slot_def job_ok_def
        split: if_splits)
next
  case False
  let ?i = "job_of e"
  from False step obtain j where i: "?i < length (jobs s)" and j: "job_step opts e (jobs s ! ?i) = Some j"
    and t: "jobs t = (jobs s)[?i := j]" "active t = (case e of Release i \<Rightarrow> active s - 1 | _ \<Rightarrow> active s)"
    by (metis boundary_step_job)
  have oks: "list_all (job_ok opts) (jobs t)"
    using ok i job_step_ok [OF _ j] set_update_subset_insert [of "jobs s" ?i j] by (auto simp: boundary_ok_def t list_all_iff)
  note slot = job_step_slot [OF j] and count = filter_update [OF i, of holds_slot j]
  show ?thesis
  proof (cases "\<exists>n. e = Release n")
    case True
    then have "holds_slot (jobs s ! ?i)" "\<not> holds_slot j" "active t = active s - 1" using slot t by auto
    with count ok oks show ?thesis by (auto simp: boundary_ok_def t(1))
  next
    case no: False
    then have "holds_slot j \<longleftrightarrow> holds_slot (jobs s ! ?i)" "active t = active s"
      using slot t by (auto split: boundary_event.splits)
    with count ok oks show ?thesis by (simp add: boundary_ok_def t(1))
  qed
qed

interpretation boundary: machine_invariant "boundary_step opts" empty_boundary "boundary_ok opts" for opts
  by (unfold_locales, simp add: boundary_ok_def empty_boundary_def, rule boundary_step_ok)

text \<open>
  C16 Under every interleaving of calls, handlers, deadlines, cancellations and cleanups: the number
  of admitted jobs that have not released their slot is what \<open>active\<close> counts and never exceeds the
  admission limit; a job that finished ran each of its cleanups exactly once, the latest
  registered first; a response is only returned when its text is within the response limit.
\<close>

theorem boundary_bounds_work:
  "case run_events (boundary_step opts) es empty_boundary of
     None \<Rightarrow> True
   | Some s \<Rightarrow>
       active s = length (filter holds_slot (jobs s)) \<and> active s \<le> maximumConcurrency opts
       \<and> list_all (\<lambda>j. case phase j of
            Finished v \<Rightarrow> ran j = rev (registered j) @ late j \<and>
              (case v of
                 Failed f \<Rightarrow> True
               | Value r \<Rightarrow> (case stringify opts r of
                     None \<Rightarrow> False | Some t \<Rightarrow> byte_length t \<le> maximumResponseBytes opts))
          | _ \<Rightarrow> True) (jobs s)"
proof (cases "run_events (boundary_step opts) es empty_boundary")
  case (Some s)
  then have ok: "boundary_ok opts s" by (rule boundary.holds_run)
  then have "list_all (\<lambda>j. case phase j of Finished v \<Rightarrow> ran j = rev (registered j) @ late j \<and> within_limit opts v | _ \<Rightarrow> True) (jobs s)"
    unfolding boundary_ok_def list_all_iff by (auto simp: job_ok_def split: phase.splits)
  with Some ok show ?thesis unfolding boundary_ok_def within_limit_def by simp
qed simp

subsection \<open>Outcomes are final\<close>

definition settled_phase :: "'r phase \<Rightarrow> bool" where
  "settled_phase p = (case p of Refused \<Rightarrow> True | Leaked \<Rightarrow> True | Finished _ \<Rightarrow> True | _ \<Rightarrow> False)"

definition later :: "'r boundary \<Rightarrow> 'r boundary \<Rightarrow> bool" where
  "later s t \<longleftrightarrow> length (jobs s) \<le> length (jobs t) \<and>
     (\<forall>i < length (jobs s). settled_phase (phase (jobs s ! i)) \<longrightarrow> phase (jobs t ! i) = phase (jobs s ! i))"

lemma job_step_settled: "job_step opts e j = Some j' \<Longrightarrow> settled_phase (phase j) \<Longrightarrow> phase j' = phase j"
  by (cases e) (auto simp: settled_phase_def split: phase.splits if_splits list.splits option.splits)

lemma boundary_step_later: "boundary_step opts e s = Some t \<Longrightarrow> later s t"
proof (cases "\<exists>p. e = Execute p")
  case True
  assume "boundary_step opts e s = Some t"
  with True show ?thesis by (auto simp: boundary_step_def later_def nth_append split: if_splits)
next
  case False
  assume "boundary_step opts e s = Some t"
  with False obtain j where "job_step opts e (jobs s ! job_of e) = Some j" "jobs t = (jobs s)[job_of e := j]"
    by (metis boundary_step_job)
  with job_step_settled [OF this(1)] show ?thesis
    by (cases "job_of e < length (jobs s)") (auto simp: later_def nth_list_update split: if_splits)
qed

interpretation boundary_history: machine_monotone "boundary_step opts" empty_boundary "boundary_ok opts" later for opts
proof unfold_locales
  show "later s t \<Longrightarrow> later t u \<Longrightarrow> later s u" for s t u :: "'r boundary"
    unfolding later_def by (metis order_trans order_less_le_trans)
  show "boundary_step opts e s = Some t \<Longrightarrow> later s t" for e s t by (rule boundary_step_later)
qed (simp add: later_def)

lemma settled_forever:
  assumes "run_events (boundary_step opts) es empty_boundary = Some s"
    and "run_events (boundary_step opts) fs s = Some t" and "i < length (jobs s)" and "settled_phase (phase (jobs s ! i))"
  shows "phase (jobs t ! i) = phase (jobs s ! i)" "i < length (jobs t)"
  using boundary_history.leq_run [OF boundary.holds_run [OF assms(1)] assms(2)] assms(3,4) by (auto simp: later_def)

text \<open>
  A cleanup that throws takes its admission slot with it: the cleanups registered before it never
  run and, whatever happens afterwards, the job is never released and stays counted in \<open>active\<close>.
\<close>

theorem cleanup_failure_leaks_slot:
  "case run_events (boundary_step (default_boundary f))
      ([Execute False, Register 0 1, Register 0 2, Settle 0 v, Resume 0, Cleanup_Throws 0] @ es) empty_boundary of
     None \<Rightarrow> True
   | Some s \<Rightarrow> phase (jobs s ! 0) = Leaked \<and> 1 \<le> active s"
proof -
  let ?pre = "[Execute False, Register 0 1, Register 0 2, Settle 0 v, Resume 0, Cleanup_Throws 0]"
  let ?step = "boundary_step (default_boundary f)"
  obtain s where s: "run_events ?step ?pre empty_boundary = Some s" "length (jobs s) = 1" "phase (jobs s ! 0) = Leaked"
    by (simp add: boundary_step_def default_boundary_def empty_boundary_def admitted_job_def limit_defs)
  show ?thesis
  proof (cases "run_events ?step es s")
    case (Some t)
    have leaked: "phase (jobs t ! 0) = Leaked" "0 < length (jobs t)"
      using settled_forever [OF s(1) Some, of 0] s(2,3) by (simp_all add: settled_phase_def)
    have "run_events ?step (?pre @ es) empty_boundary = Some t" using s(1) Some unfolding run_events_append by simp
    moreover from boundary.holds_run [OF this] have "active t = length (filter holds_slot (jobs t))"
      by (simp add: boundary_ok_def)
    moreover have "jobs t ! 0 \<in> set (filter holds_slot (jobs t))" using leaked by (simp add: holds_slot_def)
    then have "1 \<le> length (filter holds_slot (jobs t))" by (cases "filter holds_slot (jobs t)") auto
    ultimately show ?thesis using leaked by simp
  next
    case None
    then have "run_events ?step (?pre @ es) empty_boundary = None" using s(1) unfolding run_events_append by simp
    then show ?thesis by simp
  qed
qed

text \<open>
  When the parent signal is aborted before the call, neither the deadline nor the parent can end
  it: the race stays undecided until the handler settles, and only then is its answer discarded.
\<close>

theorem aborted_parent_disables_deadline:
  "case run_events (boundary_step (default_boundary f)) [Execute True, Deadline 0, Parent_Abort 0] empty_boundary of
     None \<Rightarrow> False
   | Some s \<Rightarrow> race (jobs s ! 0) = None \<and> boundary_step (default_boundary f) (Resume 0) s = None
       \<and> (case run_events (boundary_step (default_boundary f)) [Settle 0 (Value r), Resume 0, Release 0] s of
            None \<Rightarrow> False
          | Some t \<Rightarrow> phase (jobs t ! 0) = Finished (Failed (Boundary ''deadline-exceeded'')) \<and> active t = 0)"
  by (simp add: boundary_step_def default_boundary_def empty_boundary_def admitted_job_def abort_job_def
      settle_outcome_def abort_code_def limit_defs)

end
