(* ===== verification/Fixture_Generator.thy ===== *)
theory Fixture_Generator
  imports Js "HOL-Library.Word"
begin

unbundle bit_operations_syntax

text \<open>
  \<open>packages/fixture-generator/generator.mjs\<close>: the deterministic stream of logical
  resources. \<open>mix64\<close> and \<open>sample64\<close> compute on \<^typ>\<open>int\<close> as the code computes on
  BigInt, with its masks written out; \<open>fixture_bundles\<close> is the generator function, its loops
  with the counter \<open>emittedResources\<close> and their early exits. \<open>block_stream\<close> is the
  specification: the whole stream without counters, of which a cut point takes a prefix.
\<close>

subsection \<open>Constants and sampling\<close>

datatype generator_error =
    CutPointRange
  | AccountOrdinalRange
  | StreamRange
  | GeneratedCountMismatch nat nat

definition SEED :: int where "SEED = 20260813"
definition PRELUDE_ACCOUNTS :: nat where "PRELUDE_ACCOUNTS = 8"
definition PRELUDE_SERVERS_PER_ACCOUNT :: nat where "PRELUDE_SERVERS_PER_ACCOUNT = 16"
definition TEAMS_PER_ACCOUNT :: nat where "TEAMS_PER_ACCOUNT = 4"
definition VPCS_PER_ACCOUNT :: nat where "VPCS_PER_ACCOUNT = 2"
definition ACCOUNT_PARENT_GROUP_SIZE :: nat where "ACCOUNT_PARENT_GROUP_SIZE = 4"
definition SERVER_PARENT_GROUP_SIZE :: nat where "SERVER_PARENT_GROUP_SIZE = 8"
definition CUT_POINTS :: "nat list" where "CUT_POINTS = [10000, 1000000]"

definition MASK_64 :: int where "MASK_64 = push_bit 64 1 - 1"
definition ORDINAL_MULTIPLIER :: int where "ORDINAL_MULTIPLIER = 104729"
definition STREAM_MULTIPLIER :: int where "STREAM_MULTIPLIER = 0x9e3779b97f4a7c15"
definition MIX_MULTIPLIER_1 :: int where "MIX_MULTIPLIER_1 = 0xbf58476d1ce4e5b9"
definition MIX_MULTIPLIER_2 :: int where "MIX_MULTIPLIER_2 = 0x94d049bb133111eb"

definition mix64 :: "int \<Rightarrow> int" where
  "mix64 v =
     (let mixed = v AND MASK_64;
          mixed = ((mixed XOR drop_bit 30 mixed) * MIX_MULTIPLIER_1) AND MASK_64;
          mixed = ((mixed XOR drop_bit 27 mixed) * MIX_MULTIPLIER_2) AND MASK_64
      in (mixed XOR drop_bit 31 mixed) AND MASK_64)"

definition sample64 :: "int \<Rightarrow> int \<Rightarrow> generator_error + int" where
  "sample64 accountOrdinal stream =
     throw_if (\<not> is_safe_integer accountOrdinal \<or> accountOrdinal < 0) AccountOrdinalRange
    (throw_if (\<not> is_safe_integer stream \<or> stream < 0) StreamRange
    (Inr (mix64 ((SEED + accountOrdinal * ORDINAL_MULTIPLIER + stream * STREAM_MULTIPLIER) AND MASK_64))))"

text \<open>The tier boundaries of \<open>accountServerCount\<close>, then the count itself.\<close>

definition server_tier :: "int \<Rightarrow> int \<times> int" where
  "server_tier tier =
     (if tier < 5500 then (1, 2000)
      else if tier < 8400 then (2001, 7500)
      else if tier < 9600 then (7501, 20000)
      else (20001, 50000))"

definition accountServerCount :: "nat \<Rightarrow> generator_error + nat" where
  "accountServerCount accountOrdinal =
     (if accountOrdinal < PRELUDE_ACCOUNTS then Inr PRELUDE_SERVERS_PER_ACCOUNT
      else bind_r (sample64 (int accountOrdinal) 0) (\<lambda>s0.
        let (minimum, maximum) = server_tier (s0 mod 10000)
        in bind_r (sample64 (int accountOrdinal) 1) (\<lambda>s1.
             Inr (nat (minimum + s1 mod (maximum - minimum + 1))))))"

subsection \<open>Records and bundles\<close>

record objref =
  otype :: string
  oid :: string

datatype role = SubjectRole | ResourceRole

datatype fixture_record =
    ObjectRecord role objref
  | RelationshipRecord (rel_name: string) (rel_resource: objref) (rel_subject: objref)

record resource_bundle =
  bundle_resource :: objref
  bundle_records :: "fixture_record list"

definition object_ref :: "string \<Rightarrow> string \<Rightarrow> objref" where
  "object_ref type ident = \<lparr>otype = type, oid = ident\<rparr>"

definition objectRecord :: "role \<Rightarrow> string \<Rightarrow> string \<Rightarrow> fixture_record" where
  "objectRecord role type ident = ObjectRecord role (object_ref type ident)"

definition relationshipRecord :: "string \<Rightarrow> string \<Rightarrow> string \<Rightarrow> string \<Rightarrow> string \<Rightarrow> fixture_record" where
  "relationshipRecord subjectType subjectId rel resourceType resourceId =
     RelationshipRecord rel (object_ref resourceType resourceId) (object_ref subjectType subjectId)"

text \<open>The names the loops build from their ordinals.\<close>

definition account_id :: "nat \<Rightarrow> string" where
  "account_id k = ''account-'' @ nat_str k"

definition owner_id :: "nat \<Rightarrow> string" where
  "owner_id k = account_id k @ ''-owner''"

definition team_id :: "nat \<Rightarrow> nat \<Rightarrow> string" where
  "team_id k t = account_id k @ ''-team-'' @ nat_str t"

definition leader_id :: "nat \<Rightarrow> nat \<Rightarrow> string" where
  "leader_id k t = team_id k t @ ''-leader''"

definition vpc_id :: "nat \<Rightarrow> nat \<Rightarrow> string" where
  "vpc_id k v = account_id k @ ''-vpc-'' @ nat_str v"

definition admin_id :: "nat \<Rightarrow> nat \<Rightarrow> string" where
  "admin_id k v = vpc_id k v @ ''-admin''"

definition server_id :: "nat \<Rightarrow> nat \<Rightarrow> string" where
  "server_id k s = account_id k @ ''-server-'' @ nat_str s"

definition root_bundle :: resource_bundle where
  "root_bundle =
     \<lparr>bundle_resource = object_ref ''platform'' ''platform'',
      bundle_records =
        [objectRecord ResourceRole ''platform'' ''platform'',
         objectRecord SubjectRole ''user'' ''super-user'',
         objectRecord SubjectRole ''user'' ''user-1'',
         objectRecord SubjectRole ''user'' ''user-2'',
         relationshipRecord ''user'' ''super-user'' ''super_admin'' ''platform'' ''platform'']\<rparr>"

definition account_bundle :: "nat \<Rightarrow> resource_bundle" where
  "account_bundle k =
     \<lparr>bundle_resource = object_ref ''account'' (account_id k),
      bundle_records =
        [objectRecord SubjectRole ''user'' (owner_id k),
         objectRecord ResourceRole ''account'' (account_id k),
         relationshipRecord ''platform'' ''platform'' ''platform'' ''account'' (account_id k),
         relationshipRecord ''user'' (owner_id k) ''owner'' ''account'' (account_id k)]
        @ (if k > 0 \<and> k mod ACCOUNT_PARENT_GROUP_SIZE \<noteq> 0
           then [relationshipRecord ''account'' (account_id (k - 1)) ''parent'' ''account'' (account_id k)] else [])
        @ (if k = 1
           then [relationshipRecord ''account'' ''account-1'' ''parent'' ''account'' ''account-0''] else [])
        @ (if k = 0 then [relationshipRecord ''user'' ''user-1'' ''owner'' ''account'' (account_id k)] else [])
        @ (if k = 4 then [relationshipRecord ''user'' ''user-2'' ''owner'' ''account'' (account_id k)] else [])\<rparr>"

definition team_bundle :: "nat \<Rightarrow> nat \<Rightarrow> resource_bundle" where
  "team_bundle k t =
     \<lparr>bundle_resource = object_ref ''team'' (team_id k t),
      bundle_records =
        [objectRecord SubjectRole ''user'' (leader_id k t),
         objectRecord ResourceRole ''team'' (team_id k t),
         relationshipRecord ''account'' (account_id k) ''account'' ''team'' (team_id k t),
         relationshipRecord ''user'' (leader_id k t) ''leader'' ''team'' (team_id k t)]\<rparr>"

definition vpc_bundle :: "nat \<Rightarrow> nat \<Rightarrow> resource_bundle" where
  "vpc_bundle k v =
     \<lparr>bundle_resource = object_ref ''vpc'' (vpc_id k v),
      bundle_records =
        [objectRecord SubjectRole ''user'' (admin_id k v),
         objectRecord ResourceRole ''vpc'' (vpc_id k v),
         relationshipRecord ''account'' (account_id k) ''account'' ''vpc'' (vpc_id k v),
         relationshipRecord ''user'' (admin_id k v) ''shared_admin'' ''vpc'' (vpc_id k v)]\<rparr>"

definition server_bundle :: "nat \<Rightarrow> nat \<Rightarrow> resource_bundle" where
  "server_bundle k s =
     \<lparr>bundle_resource = object_ref ''server'' (server_id k s),
      bundle_records =
        [objectRecord ResourceRole ''server'' (server_id k s),
         relationshipRecord ''account'' (account_id k) ''account'' ''server'' (server_id k s),
         relationshipRecord ''team'' (team_id k (s mod TEAMS_PER_ACCOUNT)) ''team'' ''server'' (server_id k s),
         relationshipRecord ''vpc'' (vpc_id k (s mod VPCS_PER_ACCOUNT)) ''vpc'' ''server'' (server_id k s)]
        @ (if s > 0 \<and> s mod SERVER_PARENT_GROUP_SIZE \<noteq> 0
           then [relationshipRecord ''server'' (server_id k (s - 1)) ''parent'' ''server'' (server_id k s)] else [])\<rparr>"

subsection \<open>The generator loops\<close>

text \<open>
  \<open>for (let i = start; i < limit && emitted < cutPoint; i += 1) { yield f(i); emitted += 1; }\<close>:
  the bundles yielded and the counter afterwards.
\<close>

function yield_while :: "(nat \<Rightarrow> resource_bundle) \<Rightarrow> nat \<Rightarrow> nat \<Rightarrow> nat \<Rightarrow> nat \<Rightarrow> resource_bundle list \<times> nat" where
  "yield_while f i limit emitted cutPoint =
     (if i < limit \<and> emitted < cutPoint
      then let (bs, e) = yield_while f (Suc i) limit (Suc emitted) cutPoint in (f i # bs, e)
      else ([], emitted))"
  by pat_completeness auto
termination
  by (relation "measure (\<lambda>(f, i, limit, emitted, cutPoint). limit - i)") auto

declare yield_while.simps [simp del]

lemma yield_while_eq:
  "yield_while f i limit emitted cutPoint =
     (map f [i..<min limit (i + (cutPoint - emitted))], emitted + min (limit - i) (cutPoint - emitted))"
proof (induction f i limit emitted cutPoint rule: yield_while.induct)
  case (1 f i limit emitted cutPoint)
  show ?case
  proof (cases "i < limit \<and> emitted < cutPoint")
    case True
    with 1 have "yield_while f (Suc i) limit (Suc emitted) cutPoint =
      (map f [Suc i..<min limit (Suc i + (cutPoint - Suc emitted))], Suc emitted + min (limit - Suc i) (cutPoint - Suc emitted))"
      by blast
    moreover have "[i..<min limit (i + (cutPoint - emitted))] = i # [Suc i..<min limit (Suc i + (cutPoint - Suc emitted))]"
    proof -
      have "min limit (i + (cutPoint - emitted)) = min limit (Suc i + (cutPoint - Suc emitted))"
        and "i < min limit (i + (cutPoint - emitted))" using True by arith+
      then show ?thesis by (metis upt_conv_Cons)
    qed
    ultimately show ?thesis using True by (auto simp: yield_while.simps [of f i])
  next
    case False
    then show ?thesis by (auto simp: yield_while.simps [of f i])
  qed
qed

lemma yield_while_emitted: "yield_while f i limit emitted cutPoint = (bs, e) \<Longrightarrow> emitted \<le> e"
  by (simp add: yield_while_eq)

text \<open>The loop over accounts, its \<open>break\<close>s after each group included.\<close>

function account_loop :: "nat \<Rightarrow> nat \<Rightarrow> nat \<Rightarrow> generator_error + resource_bundle list \<times> nat" where
  "account_loop k emitted cutPoint =
     (if emitted < cutPoint then
        (let acc = account_bundle k; e1 = Suc emitted in
         if e1 \<ge> cutPoint then Inr ([acc], e1) else
         case yield_while (team_bundle k) 0 TEAMS_PER_ACCOUNT e1 cutPoint of (teams, e2) \<Rightarrow>
         if e2 \<ge> cutPoint then Inr (acc # teams, e2) else
         case yield_while (vpc_bundle k) 0 VPCS_PER_ACCOUNT e2 cutPoint of (vpcs, e3) \<Rightarrow>
         if e3 \<ge> cutPoint then Inr (acc # teams @ vpcs, e3) else
         bind_r (accountServerCount k) (\<lambda>serverCount.
           case yield_while (server_bundle k) 0 serverCount e3 cutPoint of (servers, e4) \<Rightarrow>
           bind_r (account_loop (Suc k) e4 cutPoint) (\<lambda>(rest, e5).
             Inr (acc # teams @ vpcs @ servers @ rest, e5))))
      else Inr ([], emitted))"
  by pat_completeness auto
termination
  by (relation "measure (\<lambda>(k, emitted, cutPoint). cutPoint - emitted)") (auto dest!: yield_while_emitted [OF sym])

declare account_loop.simps [simp del]

definition validateCutPoint :: "int \<Rightarrow> generator_error + unit" where
  "validateCutPoint v = throw_if (\<not> is_safe_integer v \<or> v < 1) CutPointRange (Inr ())"

definition fixtureBundles :: "nat \<Rightarrow> generator_error + resource_bundle list" where
  "fixtureBundles cutPoint =
     bind_r (validateCutPoint (int cutPoint)) (\<lambda>_.
       bind_r (account_loop 0 1 cutPoint) (\<lambda>(bs, emitted).
         throw_if (emitted \<noteq> cutPoint) (GeneratedCountMismatch emitted cutPoint) (Inr (root_bundle # bs))))"

subsection \<open>BigInt arithmetic under the mask is 64-bit arithmetic\<close>

text \<open>The same mixer on machine words, with wrap-around instead of masks.\<close>

definition mix64_word :: "64 word \<Rightarrow> 64 word" where
  "mix64_word w =
     (let w = (w XOR drop_bit 30 w) * 0xbf58476d1ce4e5b9;
          w = (w XOR drop_bit 27 w) * 0x94d049bb133111eb
      in w XOR drop_bit 31 w)"

lemma and_MASK_64: "v AND MASK_64 = take_bit 64 v"
proof -
  have "MASK_64 = mask 64" by (simp only: MASK_64_def push_bit_eq_mult mask_eq_exp_minus_1 mult_1)
  then show ?thesis by (simp only: take_bit_eq_mask)
qed

lemma uint_masked: "take_bit 64 (uint w) = uint (w :: 64 word)"
  by (rule bintr_uint) simp

lemma uint_xorshift: "uint w XOR drop_bit n (uint w) = uint (w XOR drop_bit n (w :: 64 word))"
  by (simp add: unsigned_xor_eq unsigned_drop_bit_eq uint_masked)

lemma uint_mult_masked: "take_bit 64 (uint a * uint b) = uint (a * b :: 64 word)"
  by (simp add: uint_word_arith_bintrs(3))

lemma mix64_word_eq: "mix64 v = uint (mix64_word (word_of_int v))"
proof -
  have m1: "MIX_MULTIPLIER_1 = uint (0xbf58476d1ce4e5b9 :: 64 word)"
    and m2: "MIX_MULTIPLIER_2 = uint (0x94d049bb133111eb :: 64 word)"
    by (simp_all add: MIX_MULTIPLIER_1_def MIX_MULTIPLIER_2_def)
  have v: "take_bit 64 v = uint (word_of_int v :: 64 word)"
    by (simp add: uint_word_of_int_eq)
  show ?thesis
    by (simp only: mix64_def mix64_word_def Let_def and_MASK_64 v m1 m2 uint_xorshift uint_mult_masked uint_masked)
qed

text \<open>A right shift xor-ed onto its argument can be undone, so the mixer merges no two inputs.\<close>

lemma xorshift_inj:
  fixes x y :: "'a::len word"
  assumes "x XOR drop_bit k x = y XOR drop_bit k y" and "0 < k"
  shows "x = y"
proof (rule bit_eqI)
  fix n
  assume "possible_bit TYPE('a word) n"
  show "bit x n = bit y n"
  proof (induction "LENGTH('a) - n" arbitrary: n rule: less_induct)
    case less
    show ?case
    proof (cases "n < LENGTH('a)")
      case False
      then show ?thesis by (auto dest: bit_imp_le_length)
    next
      case True
      with less assms(2) have "bit x (k + n) = bit y (k + n)" by simp
      moreover have "bit (x XOR drop_bit k x) n = bit (y XOR drop_bit k y) n"
        using assms(1) by simp
      ultimately show ?thesis by (auto simp: bit_xor_iff bit_drop_bit_eq)
    qed
  qed
qed

lemma mult_inj_word:
  fixes a b m :: "'a::len word"
  assumes "a * m = b * m" and "m * i = 1"
  shows "a = b"
  by (metis assms mult.assoc mult.right_neutral)

lemma mix64_word_inj:
  assumes "mix64_word x = mix64_word y" shows "x = y"
proof -
  define a where "a w = (w XOR drop_bit 30 w) * 0xbf58476d1ce4e5b9" for w :: "64 word"
  define b where "b w = (w XOR drop_bit 27 w) * 0x94d049bb133111eb" for w :: "64 word"
  have "mix64_word w = b (a w) XOR drop_bit 31 (b (a w))" for w
    by (simp only: mix64_word_def Let_def a_def b_def)
  with assms have "b (a x) XOR drop_bit 31 (b (a x)) = b (a y) XOR drop_bit 31 (b (a y))" by simp
  then have "b (a x) = b (a y)" by (rule xorshift_inj) simp
  then have "a x XOR drop_bit 27 (a x) = a y XOR drop_bit 27 (a y)"
    unfolding b_def by (rule mult_inj_word [where i = 3573116690164977347]) simp
  then have "a x = a y" by (rule xorshift_inj) simp
  then have "x XOR drop_bit 30 x = y XOR drop_bit 30 y"
    unfolding a_def by (rule mult_inj_word [where i = 10871156337175269513]) simp
  then show ?thesis by (rule xorshift_inj) simp
qed

lemma mix64_bounds: "0 \<le> mix64 v" "mix64 v < 2 ^ 64"
  using uint_lt2p [of "mix64_word (word_of_int v)"] by (simp_all add: mix64_word_eq)

lemma mix64_inj:
  assumes "mix64 v = mix64 w" shows "take_bit 64 v = take_bit 64 w"
proof -
  have "uint (mix64_word (word_of_int v)) = uint (mix64_word (word_of_int w))"
    using assms by (simp only: mix64_word_eq)
  then have "mix64_word (word_of_int v) = mix64_word (word_of_int w)" by (rule word_uint_eqI)
  then have "(word_of_int v :: 64 word) = word_of_int w" by (rule mix64_word_inj)
  then have "uint (word_of_int v :: 64 word) = uint (word_of_int w :: 64 word)" by (rule arg_cong)
  then show ?thesis by (simp only: uint_word_of_int_eq len_num0 len_bit0 len_num1) simp
qed

subsection \<open>Counts and the whole stream\<close>

lemma safe_nat: "is_safe_integer (int k) \<longleftrightarrow> int k \<le> MAX_SAFE_INTEGER"
  by (simp add: is_safe_integer_def)

lemma sample64_safe:
  "is_safe_integer (int k) \<Longrightarrow> is_safe_integer (int s) \<Longrightarrow>
   sample64 (int k) (int s)
     = Inr (mix64 ((SEED + int k * ORDINAL_MULTIPLIER + int s * STREAM_MULTIPLIER) AND MASK_64))"
  by (simp add: sample64_def)

lemma server_tier_bounds:
  "server_tier t = (lo, hi) \<Longrightarrow> 1 \<le> lo \<and> lo \<le> hi \<and> hi \<le> 50000"
  by (auto simp: server_tier_def split: if_splits)

lemma accountServerCount_safe:
  assumes "is_safe_integer (int k)"
  obtains n where "accountServerCount k = Inr n" "1 \<le> n" "n \<le> 50000" "k < PRELUDE_ACCOUNTS \<Longrightarrow> n = 16"
proof (cases "k < PRELUDE_ACCOUNTS")
  case True
  then show ?thesis using that by (simp add: accountServerCount_def PRELUDE_SERVERS_PER_ACCOUNT_def)
next
  case False
  obtain s0 s1 where s: "sample64 (int k) 0 = Inr s0" "sample64 (int k) 1 = Inr s1"
    using assms sample64_safe [of k 0] sample64_safe [of k 1]
    by (auto simp: is_safe_integer_def MAX_SAFE_INTEGER_def)
  obtain lo hi where t: "server_tier (s0 mod 10000) = (lo, hi)" by fastforce
  note b = server_tier_bounds [OF t]
  have "0 \<le> s1 mod (hi - lo + 1)" "s1 mod (hi - lo + 1) < hi - lo + 1"
    using b pos_mod_sign [of "hi - lo + 1" s1] pos_mod_bound [of "hi - lo + 1" s1] by linarith+
  then have "1 \<le> nat (lo + s1 mod (hi - lo + 1))" "nat (lo + s1 mod (hi - lo + 1)) \<le> 50000"
    using b by linarith+
  moreover have "accountServerCount k = Inr (nat (lo + s1 mod (hi - lo + 1)))"
    using False s t by (simp add: accountServerCount_def)
  ultimately show ?thesis using that False by blast
qed

definition servers_of :: "nat \<Rightarrow> nat" where
  "servers_of k = (case accountServerCount k of Inl _ \<Rightarrow> 0 | Inr n \<Rightarrow> n)"

definition account_block :: "nat \<Rightarrow> resource_bundle list" where
  "account_block k = account_bundle k # map (team_bundle k) [0..<TEAMS_PER_ACCOUNT]
     @ map (vpc_bundle k) [0..<VPCS_PER_ACCOUNT] @ map (server_bundle k) [0..<servers_of k]"

definition block_stream :: "nat \<Rightarrow> nat \<Rightarrow> resource_bundle list" where
  "block_stream k j = concat (map account_block [k..<k + j])"

lemma block_stream_Suc: "block_stream k (Suc j) = account_block k @ block_stream (Suc k) j"
  by (simp add: block_stream_def upt_conv_Cons del: upt_Suc)

lemma length_block_stream: "j \<le> length (block_stream k j)"
proof (induction j arbitrary: k)
  case 0
  then show ?case by simp
next
  case (Suc j)
  have "1 \<le> length (account_block k)" by (simp add: account_block_def)
  with Suc.IH [of "Suc k"] show ?case by (simp add: block_stream_Suc)
qed

lemma block_stream_prefix: "i \<le> j \<Longrightarrow> \<exists>xs. block_stream k j = block_stream k i @ xs"
proof -
  assume "i \<le> j"
  then have "[k..<k + j] = [k..<k + i] @ [k + i..<k + j]" by (metis le_add1 upt_add_eq_append le_add_diff_inverse add.assoc)
  then show ?thesis by (auto simp: block_stream_def)
qed

lemma yield_while_take:
  "yield_while f 0 limit emitted cutPoint
     = (take (cutPoint - emitted) (map f [0..<limit]), emitted + min limit (cutPoint - emitted))"
proof -
  have "take m [0..<n] = [0..<min m n]" for m n :: nat by (cases "m \<le> n") (auto simp: min_def)
  then show ?thesis by (simp add: yield_while_eq take_map min.commute)
qed

lemma account_loop_eq:
  assumes "emitted \<le> cutPoint" and "int k + int (cutPoint - emitted) \<le> MAX_SAFE_INTEGER"
    and "cutPoint - emitted \<le> j"
  shows "account_loop k emitted cutPoint = Inr (take (cutPoint - emitted) (block_stream k j), cutPoint)"
  using assms
proof (induction "cutPoint - emitted" arbitrary: k emitted j rule: less_induct)
  case less
  show ?case
  proof (cases "emitted < cutPoint")
    case False
    with less.prems show ?thesis by (simp add: account_loop.simps [of k])
  next
    case True
    obtain j' where j: "j = Suc j'" using True less.prems(3) by (cases j) auto
    have safe: "is_safe_integer (int k)" using less.prems(2) by (simp add: safe_nat)
    obtain n where n: "accountServerCount k = Inr n" "1 \<le> n"
      using accountServerCount_safe [OF safe] by metis
    let ?teams = "map (team_bundle k) [0..<TEAMS_PER_ACCOUNT]"
    let ?vpcs = "map (vpc_bundle k) [0..<VPCS_PER_ACCOUNT]"
    let ?servers = "map (server_bundle k) [0..<n]"
    have stream: "block_stream k j
        = account_bundle k # ?teams @ ?vpcs @ ?servers @ block_stream (Suc k) j'"
      by (simp add: j block_stream_Suc account_block_def servers_of_def n)
    define e3 where "e3 = Suc emitted + TEAMS_PER_ACCOUNT + VPCS_PER_ACCOUNT"
    show ?thesis
    proof (cases "e3 < cutPoint")
      case False
      then show ?thesis using True
        by (cases "cutPoint \<le> Suc emitted"; cases "cutPoint \<le> Suc emitted + TEAMS_PER_ACCOUNT")
          (auto simp: account_loop.simps [of k] stream yield_while_take e3_def take_Cons' min_def Let_def)
    next
      case e3: True
      define e4 where "e4 = e3 + min n (cutPoint - e3)"
      have y: "yield_while (server_bundle k) 0 n e3 cutPoint = (take (cutPoint - e3) ?servers, e4)"
        by (simp add: yield_while_take e4_def)
      have ty: "yield_while (team_bundle k) 0 TEAMS_PER_ACCOUNT (Suc emitted) cutPoint
            = (?teams, Suc (emitted + TEAMS_PER_ACCOUNT))"
        "yield_while (vpc_bundle k) 0 VPCS_PER_ACCOUNT (Suc (emitted + TEAMS_PER_ACCOUNT)) cutPoint = (?vpcs, e3)"
        using e3 by (simp_all add: yield_while_take e3_def)
      have rest: "account_loop (Suc k) e4 cutPoint
          = Inr (take (cutPoint - e4) (block_stream (Suc k) j'), cutPoint)"
      proof (rule less.hyps)
        show "cutPoint - e4 < cutPoint - emitted" "e4 \<le> cutPoint" "cutPoint - e4 \<le> j'"
          using True e3 j less.prems(3) by (auto simp: e4_def e3_def)
        show "int (Suc k) + int (cutPoint - e4) \<le> MAX_SAFE_INTEGER"
          using True e3 less.prems(2) by (simp add: e4_def e3_def)
      qed
      have loop: "account_loop k emitted cutPoint
          = Inr (account_bundle k # ?teams @ ?vpcs @ take (cutPoint - e3) ?servers
                 @ take (cutPoint - e4) (block_stream (Suc k) j'), cutPoint)"
      proof -
        have "\<not> cutPoint \<le> Suc emitted" "\<not> cutPoint \<le> Suc (emitted + TEAMS_PER_ACCOUNT)" "\<not> cutPoint \<le> e3"
          using e3 by (simp_all add: e3_def)
        then show ?thesis using True by (simp add: account_loop.simps [of k] ty y n rest Let_def)
      qed
      have "take (cutPoint - emitted) (block_stream k j)
          = account_bundle k # ?teams @ ?vpcs @ take (cutPoint - e3) ?servers
            @ take (cutPoint - e4) (block_stream (Suc k) j')"
      proof -
        have "cutPoint - emitted = Suc (TEAMS_PER_ACCOUNT + (VPCS_PER_ACCOUNT + (cutPoint - e3)))"
          using e3 by (simp add: e3_def)
        moreover have "cutPoint - e4 = cutPoint - e3 - n" by (simp add: e4_def)
        ultimately show ?thesis by (simp add: stream)
      qed
      with loop show ?thesis by simp
    qed
  qed
qed

theorem fixtureBundles_eq:
  assumes "1 \<le> cutPoint" and "int cutPoint \<le> MAX_SAFE_INTEGER" and "cutPoint - 1 \<le> j"
  shows "fixtureBundles cutPoint = Inr (take cutPoint (root_bundle # block_stream 0 j))"
proof -
  have "account_loop 0 1 cutPoint = Inr (take (cutPoint - 1) (block_stream 0 j), cutPoint)"
    using assms by (intro account_loop_eq) simp_all
  with assms show ?thesis
    by (cases cutPoint) (simp_all add: fixtureBundles_def validateCutPoint_def is_safe_integer_def)
qed

lemma fixtureBundles_invalid:
  "\<not> (1 \<le> cutPoint \<and> int cutPoint \<le> MAX_SAFE_INTEGER) \<Longrightarrow> fixtureBundles cutPoint = Inl CutPointRange"
  by (auto simp: fixtureBundles_def validateCutPoint_def is_safe_integer_def)

subsection \<open>The stream as an interface\<close>

text \<open>
  What the batching, the manifest and the verifier rely on: a source hands out, for every
  valid cut point, exactly that many bundles, and a smaller cut point sees a prefix of what
  a larger one sees.
\<close>

definition valid_cut_point :: "nat \<Rightarrow> bool" where
  "valid_cut_point n \<longleftrightarrow> 1 \<le> n \<and> int n \<le> MAX_SAFE_INTEGER"

definition bundles_of :: "nat \<Rightarrow> resource_bundle list" where
  "bundles_of n = take n (root_bundle # block_stream 0 n)"

lemma fixtureBundles_valid: "valid_cut_point n \<Longrightarrow> fixtureBundles n = Inr (bundles_of n)"
  by (simp add: valid_cut_point_def bundles_of_def fixtureBundles_eq [where j = n])

lemma fixtureBundles_not_valid: "\<not> valid_cut_point n \<Longrightarrow> fixtureBundles n = Inl CutPointRange"
  by (rule fixtureBundles_invalid) (simp add: valid_cut_point_def)

lemma length_bundles_of [simp]: "length (bundles_of n) = n"
  using length_block_stream [of n 0] by (simp add: bundles_of_def)

lemma bundles_of_prefix: "m \<le> n \<Longrightarrow> bundles_of m = take m (bundles_of n)"
proof -
  assume le: "m \<le> n"
  obtain xs where xs: "block_stream 0 n = block_stream 0 m @ xs" using block_stream_prefix [OF le] by blast
  have "m - Suc 0 \<le> length (block_stream 0 m)" using length_block_stream [of m 0] by linarith
  with le show ?thesis by (cases m) (simp_all add: bundles_of_def xs min_def)
qed

locale bundle_source =
  fixes bundles :: "nat \<Rightarrow> 'e + 'b list" and valid :: "nat \<Rightarrow> bool"
  assumes complete: "valid n \<Longrightarrow> \<exists>bs. bundles n = Inr bs \<and> length bs = n"
    and prefix: "\<lbrakk>valid m; m \<le> n; bundles n = Inr bs\<rbrakk> \<Longrightarrow> bundles m = Inr (take m bs)"
    and invalid: "\<not> valid n \<Longrightarrow> \<exists>e. bundles n = Inl e"
begin

lemma succeeds_iff: "(\<exists>bs. bundles n = Inr bs) \<longleftrightarrow> valid n"
  using complete [of n] invalid [of n] by force

lemma exact_length: "bundles n = Inr bs \<Longrightarrow> length bs = n"
  using complete [of n] succeeds_iff [of n] by force

lemma agree:
  assumes "bundles m = Inr bs" and "bundles n = Inr cs" and "i < m" and "i < n"
  shows "bs ! i = cs ! i"
proof -
  have vm: "valid m" and vn: "valid n" using assms succeeds_iff by blast+
  show ?thesis
  proof (cases "m \<le> n")
    case True
    from prefix [OF vm True assms(2)] assms show ?thesis by simp
  next
    case False
    then have "n \<le> m" by simp
    from prefix [OF vn this assms(1)] assms show ?thesis by simp
  qed
qed

end

interpretation fixture: bundle_source fixtureBundles valid_cut_point
proof
  fix m n :: nat and bs
  show "\<exists>bs. fixtureBundles n = Inr bs \<and> length bs = n" if "valid_cut_point n"
    using that by (simp add: fixtureBundles_valid)
  show "\<exists>e. fixtureBundles n = Inl e" if "\<not> valid_cut_point n"
    using that by (simp add: fixtureBundles_not_valid)
  assume "valid_cut_point m" and "m \<le> n" and ok: "fixtureBundles n = Inr bs"
  moreover have "bs = bundles_of n"
    using ok fixtureBundles_valid [of n] fixtureBundles_not_valid [of n] by (cases "valid_cut_point n") auto
  ultimately show "fixtureBundles m = Inr (take m bs)"
    by (simp add: fixtureBundles_valid bundles_of_prefix [symmetric])
qed

text \<open>
  The BigInt mixer is the 64-bit word mixer with wrapping multiplication: its results are
  64-bit values, and two seeds collide only when their low 64 bits are the same.
\<close>

theorem mix64_is_64_bit_permutation:
  "mix64 v = uint (mix64_word (word_of_int v)) \<and> 0 \<le> mix64 v \<and> mix64 v < 2 ^ 64
   \<and> (mix64 v = mix64 w \<longleftrightarrow> take_bit 64 v = take_bit 64 w)"
proof -
  have "mix64 v = mix64 w" if "take_bit 64 v = take_bit 64 w"
  proof -
    have "(word_of_int v :: 64 word) = word_of_int w" using that by (simp add: word_of_int_eq_iff)
    then show ?thesis by (metis mix64_word_eq)
  qed
  then show ?thesis using mix64_word_eq mix64_bounds mix64_inj by blast
qed

text \<open>
  The number of servers of an account is 16 for the first eight accounts and otherwise
  between 1 and 50000; only an ordinal beyond the safe integers is refused.
\<close>

theorem accountServerCount_range:
  "case accountServerCount k of
     Inl _ \<Rightarrow> int k > MAX_SAFE_INTEGER
   | Inr c \<Rightarrow> if k < 8 then c = 16 else 1 \<le> c \<and> c \<le> 50000"
proof (cases "int k \<le> MAX_SAFE_INTEGER")
  case True
  then obtain c where "accountServerCount k = Inr c" "1 \<le> c" "c \<le> 50000" "k < PRELUDE_ACCOUNTS \<Longrightarrow> c = 16"
    using accountServerCount_safe [of k] by (auto simp: is_safe_integer_def)
  then show ?thesis by (simp add: PRELUDE_ACCOUNTS_def)
next
  case False
  then show ?thesis
    by (simp add: accountServerCount_def sample64_def is_safe_integer_def PRELUDE_ACCOUNTS_def MAX_SAFE_INTEGER_def)
qed

text \<open>
  \<open>fixtureBundles\<close> yields exactly as many bundles as the cut point says, for every positive
  safe integer and for nothing else, and any two cut points agree on every bundle both yield:
  the smaller fixture is a prefix of the larger.
\<close>

theorem fixtureBundles_nested:
  "case (fixtureBundles m, fixtureBundles n) of
     (Inl e, _) \<Rightarrow> \<not> valid_cut_point m \<and> e = CutPointRange
   | (_, Inl e) \<Rightarrow> \<not> valid_cut_point n \<and> e = CutPointRange
   | (Inr bs, Inr cs) \<Rightarrow> length bs = m \<and> length cs = n \<and> take (min m n) bs = take (min m n) cs"
proof (cases "valid_cut_point m \<and> valid_cut_point n")
  case True
  then obtain bs cs where b: "fixtureBundles m = Inr bs" "fixtureBundles n = Inr cs"
    by (auto simp: fixtureBundles_valid)
  note len = b [THEN fixture.exact_length]
  have "take (min m n) bs = take (min m n) cs"
    using len fixture.agree [OF b] by (intro nth_equalityI) simp_all
  with b len show ?thesis by simp
next
  case False
  then show ?thesis
    by (cases "valid_cut_point m"; cases "valid_cut_point n") (auto simp: fixtureBundles_not_valid fixtureBundles_valid)
qed

end
