(* ===== verification/Fixture_Manifest.thy ===== *)
theory Fixture_Manifest
  imports Fixture_Generator Canonical_Json
begin

text \<open>
  The second half of \<open>packages/fixture-generator/generator.mjs\<close>: the records as JSON, the
  header line, and \<open>generateFixtureManifest\<close>, whose loop feeds every line to the running
  hashes, to one hash per cut point and to the counters. \<open>node:crypto\<close> is the parameter
  \<open>hash\<close>, the hexadecimal SHA-256 of a text; a running hash is the text it has been fed.
  \<open>stream_lines\<close> is the specification: the lines of a list of bundles.
\<close>

subsection \<open>Records as JSON\<close>

definition LF :: char where "LF = CHR 0x0A"

fun role_name :: "role \<Rightarrow> string" where
  "role_name SubjectRole = ''subject''"
| "role_name ResourceRole = ''resource''"

definition objref_json :: "objref \<Rightarrow> jsval" where
  "objref_json x = JObj [(''type'', JStr (otype x)), (''id'', JStr (oid x))]"

fun record_json :: "fixture_record \<Rightarrow> jsval" where
  "record_json (ObjectRecord r x) =
     JObj [(''kind'', JStr ''object''), (''object'', objref_json x), (''role'', JStr (role_name r))]"
| "record_json (RelationshipRecord rel res sub) =
     JObj [(''kind'', JStr ''relationship''), (''relation'', JStr rel),
           (''resource'', objref_json res), (''subject'', objref_json sub)]"

text \<open>\<open>${canonicalJson(value)}\n\<close>, for a value the canonical form accepts.\<close>

definition canonical_line :: "jsval \<Rightarrow> string" where
  "canonical_line v = json (sort_props v) @ [LF]"

lemma canonical_line_ok: "canonical_ok v \<Longrightarrow> bind_r (canonicalJson v) (\<lambda>t. Inr (t @ [LF])) = Inr (canonical_line v)"
  by (simp add: canonicalJson_ok canonical_line_def)

definition record_line :: "fixture_record \<Rightarrow> string" where
  "record_line r = canonical_line (record_json r)"

lemma record_json_ok [simp]: "canonical_ok (record_json r)"
  by (cases r) (simp_all add: objref_json_def)

record fixture_context =
  schemaDigest :: string
  exemplarDigest :: string
  generatorDigest :: string

definition header_json :: "nat \<Rightarrow> fixture_context \<Rightarrow> jsval" where
  "header_json cutPoint ctx =
     JObj [(''algorithm'', JStr ''eacl-demo-fixture''), (''algorithmVersion'', JInt 1),
           (''cutPointResources'', JInt (int cutPoint)), (''exemplarDigest'', JStr (exemplarDigest ctx)),
           (''fixtureId'', JStr ''eacl-demo-fixture-v1''), (''kind'', JStr ''fixture''),
           (''schemaDigest'', JStr (schemaDigest ctx)), (''seed'', JStr (int_str SEED))]"

definition fixtureHeader :: "nat \<Rightarrow> fixture_context \<Rightarrow> generator_error + jsval" where
  "fixtureHeader cutPoint ctx = bind_r (validateCutPoint (int cutPoint)) (\<lambda>_. Inr (header_json cutPoint ctx))"

lemma header_json_ok: "int cutPoint \<le> MAX_SAFE_INTEGER \<Longrightarrow> canonical_ok (header_json cutPoint ctx)"
  by (simp add: header_json_def is_safe_integer_def MAX_SAFE_INTEGER_def)

subsection \<open>Counters\<close>

record counts =
  c_bundles :: nat
  c_bytes :: nat
  c_objects :: nat
  c_subjects :: nat
  c_subjects_by :: "(string \<times> nat) list"
  c_resources :: nat
  c_resources_by :: "(string \<times> nat) list"
  c_relationships :: nat
  c_by_relation :: "(string \<times> nat) list"
  c_records :: nat

definition emptyCounts :: counts where
  "emptyCounts = \<lparr>c_bundles = 0, c_bytes = 0, c_objects = 0, c_subjects = 0, c_subjects_by = [],
     c_resources = 0, c_resources_by = [], c_relationships = 0, c_by_relation = [], c_records = 0\<rparr>"

text \<open>\<open>group[key] = (group[key] ?? 0) + 1\<close>\<close>

definition bump :: "string \<Rightarrow> (string \<times> nat) list \<Rightarrow> (string \<times> nat) list" where
  "bump k m = AList.update k (case map_of m k of None \<Rightarrow> 1 | Some n \<Rightarrow> Suc n) m"

fun countRecord :: "counts \<Rightarrow> fixture_record \<Rightarrow> string \<Rightarrow> counts" where
  "countRecord c (ObjectRecord r x) line =
     (let c1 = c\<lparr>c_records := Suc (c_records c), c_bytes := c_bytes c + byte_length line,
                c_objects := Suc (c_objects c)\<rparr>
      in case r of
           SubjectRole \<Rightarrow> c1\<lparr>c_subjects := Suc (c_subjects c1), c_subjects_by := bump (otype x) (c_subjects_by c1)\<rparr>
         | ResourceRole \<Rightarrow> c1\<lparr>c_resources := Suc (c_resources c1), c_resources_by := bump (otype x) (c_resources_by c1)\<rparr>)"
| "countRecord c (RelationshipRecord rel res sub) line =
     c\<lparr>c_records := Suc (c_records c), c_bytes := c_bytes c + byte_length line,
       c_relationships := Suc (c_relationships c), c_by_relation := bump rel (c_by_relation c)\<rparr>"

text \<open>
  \<open>sortObject\<close> sorts by \<open>localeCompare\<close> in English; on names made of lower-case letters
  and underscores that is the code-unit order.
\<close>

definition sortObject :: "(string \<times> nat) list \<Rightarrow> jsval" where
  "sortObject m = JObj (from_entries (map (\<lambda>(k, n). (k, JInt (int n))) (sort_key fst m)))"

definition finalizeCounts :: "counts \<Rightarrow> jsval" where
  "finalizeCounts c =
     JObj [(''bundles'', JInt (int (c_bundles c))),
           (''objects'', JObj [(''total'', JInt (int (c_objects c))),
              (''subjects'', JObj [(''total'', JInt (int (c_subjects c))), (''byType'', sortObject (c_subjects_by c))]),
              (''resources'', JObj [(''total'', JInt (int (c_resources c))), (''byType'', sortObject (c_resources_by c))])]),
           (''relationships'', JObj [(''total'', JInt (int (c_relationships c))),
              (''unique'', JInt (int (c_relationships c))), (''byRelation'', sortObject (c_by_relation c))]),
           (''records'', JObj [(''total'', JInt (int (c_records c))), (''canonicalBytes'', JInt (int (c_bytes c)))])]"

subsection \<open>The manifest loop\<close>

record prefix_hash =
  p_cut :: nat
  p_text :: string
  p_count :: nat

record manifest_state =
  fixture_text :: string
  records_text :: string
  prefix_hashes :: "prefix_hash list"
  m_counts :: counts
  resourcesSeen :: nat
  emitted_lines :: "string list"

definition feed_prefix :: "nat \<Rightarrow> string \<Rightarrow> prefix_hash \<Rightarrow> prefix_hash" where
  "feed_prefix seen line p =
     (if seen \<le> p_cut p then p\<lparr>p_text := p_text p @ line, p_count := Suc (p_count p)\<rparr> else p)"

definition manifest_record :: "fixture_record \<Rightarrow> manifest_state \<Rightarrow> manifest_state" where
  "manifest_record r st =
     (let line = record_line r in
      st\<lparr>fixture_text := fixture_text st @ line,
         records_text := records_text st @ line,
         prefix_hashes := map (feed_prefix (resourcesSeen st) line) (prefix_hashes st),
         emitted_lines := emitted_lines st @ [line],
         m_counts := countRecord (m_counts st) r line\<rparr>)"

definition manifest_bundle :: "resource_bundle \<Rightarrow> manifest_state \<Rightarrow> manifest_state" where
  "manifest_bundle b st =
     fold manifest_record (bundle_records b)
       (st\<lparr>resourcesSeen := Suc (resourcesSeen st),
           m_counts := (m_counts st)\<lparr>c_bundles := Suc (c_bundles (m_counts st))\<rparr>\<rparr>)"

definition manifest_start :: "nat \<Rightarrow> fixture_context \<Rightarrow> manifest_state" where
  "manifest_start cutPoint ctx =
     (let line = canonical_line (header_json cutPoint ctx) in
      \<lparr>fixture_text = line, records_text = [],
       prefix_hashes = map (\<lambda>c. \<lparr>p_cut = c, p_text = [], p_count = 0\<rparr>) (filter (\<lambda>c. c \<le> cutPoint) CUT_POINTS),
       m_counts = emptyCounts, resourcesSeen = 0, emitted_lines = [line]\<rparr>)"

datatype manifest_error =
    ManifestGenerator generator_error
  | NoPrefixForCutPoint nat

text \<open>The result of the run, before it is laid out as the manifest object.\<close>

record fixture_manifest =
  mf_cutPoint :: nat
  mf_counts :: counts
  mf_prefixProofs :: "(nat \<times> nat \<times> string) list"
  mf_fixture :: string
  mf_semanticRecords :: string
  mf_context :: fixture_context

definition manifest_facts ::
  "(string \<Rightarrow> string) \<Rightarrow> nat \<Rightarrow> fixture_context \<Rightarrow> manifest_state \<Rightarrow> manifest_error + fixture_manifest" where
  "manifest_facts hash cutPoint ctx st =
     (let proofs = map (\<lambda>p. (p_cut p, p_count p, ''sha256:'' @ hash (p_text p))) (prefix_hashes st) in
      case map_of proofs cutPoint of
        None \<Rightarrow> Inl (NoPrefixForCutPoint cutPoint)
      | Some (_, semantic) \<Rightarrow>
          Inr \<lparr>mf_cutPoint = cutPoint, mf_counts = m_counts st, mf_prefixProofs = proofs,
               mf_fixture = ''sha256:'' @ hash (fixture_text st), mf_semanticRecords = semantic, mf_context = ctx\<rparr>)"

definition generateFixtureManifest ::
  "(string \<Rightarrow> string) \<Rightarrow> fixture_context \<Rightarrow> nat \<Rightarrow> manifest_error + fixture_manifest \<times> string list" where
  "generateFixtureManifest hash ctx cutPoint =
     (case fixtureBundles cutPoint of
        Inl e \<Rightarrow> Inl (ManifestGenerator e)
      | Inr bs \<Rightarrow>
          (let st = fold manifest_bundle bs (manifest_start cutPoint ctx)
           in bind_r (manifest_facts hash cutPoint ctx st) (\<lambda>m. Inr (m, emitted_lines st))))"

text \<open>
  The manifest object: \<open>manifest_payload\<close> without its own digest, \<open>manifest_json\<close> with
  \<open>digests.manifest\<close> added last.
\<close>

definition proof_json :: "nat \<times> nat \<times> string \<Rightarrow> string \<times> jsval" where
  "proof_json p = (case p of (c, n, d) \<Rightarrow>
     (nat_str c, JObj [(''recordCount'', JInt (int n)), (''recordsDigest'', JStr d)]))"

definition manifest_body :: "fixture_manifest \<Rightarrow> (string \<times> jsval) list" where
  "manifest_body m =
     [(''schemaVersion'', JInt 1),
      (''fixtureId'', JStr ''eacl-demo-fixture-v1''),
      (''algorithm'', JObj [(''id'', JStr ''eacl-demo-fixture''), (''version'', JInt 1), (''seed'', JStr (int_str SEED)),
         (''generatorSource'', JStr ''packages/fixture-generator/generator.mjs''),
         (''generatorDigest'', JStr (generatorDigest (mf_context m))),
         (''arithmetic'', JStr ''unsigned-64-bit-modulo-2^64'')]),
      (''cutPoint'', JObj [(''logicalResources'', JInt (int (mf_cutPoint m))),
         (''semanticPrefixOf'', if mf_cutPoint m < 1000000 then JInt 1000000 else JNull)]),
      (''format'', JObj [(''mediaType'', JStr ''application/x-ndjson''),
         (''canonicalization'', JStr ''UTF-8; lexicographically sorted object keys; LF after every record''),
         (''headerRecords'', JInt 1), (''recordKinds'', JArr [JStr ''object'', JStr ''relationship''])]),
      (''schema'', JObj [(''source'', JStr ''fixtures/schema.v1.zed''), (''digest'', JStr (schemaDigest (mf_context m))),
         (''definitions'', JInt 6), (''relations'', JInt 13), (''permissions'', JInt 9)]),
      (''exemplars'', JObj [(''source'', JStr ''fixtures/exemplars.v1.json''),
         (''digest'', JStr (exemplarDigest (mf_context m))), (''cases'', JInt 14)]),
      (''counts'', finalizeCounts (mf_counts m)),
      (''prefixProofs'', JObj (from_entries (map proof_json (mf_prefixProofs m))))]"

definition manifest_digests :: "fixture_manifest \<Rightarrow> (string \<times> jsval) list" where
  "manifest_digests m = [(''fixture'', JStr (mf_fixture m)), (''semanticRecords'', JStr (mf_semanticRecords m))]"

definition manifest_payload :: "fixture_manifest \<Rightarrow> jsval" where
  "manifest_payload m = JObj (manifest_body m @ [(''digests'', JObj (manifest_digests m))])"

definition manifest_digest :: "(string \<Rightarrow> string) \<Rightarrow> jsval \<Rightarrow> string" where
  "manifest_digest hash payload = ''sha256:'' @ hash (canonical_line payload)"

definition manifest_json :: "(string \<Rightarrow> string) \<Rightarrow> fixture_manifest \<Rightarrow> jsval" where
  "manifest_json hash m =
     JObj (manifest_body m @
       [(''digests'', JObj (manifest_digests m @ [(''manifest'', JStr (manifest_digest hash (manifest_payload m)))]))])"

subsection \<open>The lines of the stream\<close>

definition bundle_lines :: "resource_bundle \<Rightarrow> string list" where
  "bundle_lines b = map record_line (bundle_records b)"

definition stream_lines :: "resource_bundle list \<Rightarrow> string list" where
  "stream_lines bs = concat (map bundle_lines bs)"

lemma stream_lines_simps [simp]:
  "stream_lines [] = []" "stream_lines (b # bs) = bundle_lines b @ stream_lines bs"
  "stream_lines (bs @ cs) = stream_lines bs @ stream_lines cs"
  by (simp_all add: stream_lines_def)

definition count_records :: "fixture_record list \<Rightarrow> counts \<Rightarrow> counts" where
  "count_records = fold (\<lambda>r c. countRecord c r (record_line r))"

lemma feed_lines:
  "fold (\<lambda>l. feed_prefix seen l) ls p
     = (if seen \<le> p_cut p then p\<lparr>p_text := p_text p @ concat ls, p_count := p_count p + length ls\<rparr> else p)"
  by (induction ls arbitrary: p) (auto simp: feed_prefix_def)

lemma fold_manifest_record:
  "fold manifest_record rs st =
     st\<lparr>fixture_text := fixture_text st @ concat (map record_line rs),
        records_text := records_text st @ concat (map record_line rs),
        prefix_hashes := map (fold (\<lambda>l. feed_prefix (resourcesSeen st) l) (map record_line rs)) (prefix_hashes st),
        emitted_lines := emitted_lines st @ map record_line rs,
        m_counts := count_records rs (m_counts st)\<rparr>"
  by (induction rs arbitrary: st) (simp_all add: manifest_record_def count_records_def Let_def comp_def)

lemma fold_manifest_bundle:
  "fold manifest_bundle bs st =
     st\<lparr>fixture_text := fixture_text st @ concat (stream_lines bs),
        records_text := records_text st @ concat (stream_lines bs),
        prefix_hashes := map (\<lambda>p. let ls = stream_lines (take (p_cut p - resourcesSeen st) bs) in
          p\<lparr>p_text := p_text p @ concat ls, p_count := p_count p + length ls\<rparr>) (prefix_hashes st),
        emitted_lines := emitted_lines st @ stream_lines bs,
        resourcesSeen := resourcesSeen st + length bs,
        m_counts := fold (\<lambda>b c. count_records (bundle_records b) (c\<lparr>c_bundles := Suc (c_bundles c)\<rparr>)) bs (m_counts st)\<rparr>"
proof (induction bs arbitrary: st)
  case Nil
  show ?case by simp
next
  case (Cons b bs)
  have "take (c - n) (b # bs) = (if Suc n \<le> c then b # take (c - Suc n) bs else [])" for c n :: nat
    by (cases "Suc n \<le> c") (auto simp: Suc_diff_Suc [symmetric])
  then show ?case
    by (cases st) (auto simp add: Cons.IH manifest_bundle_def [of b] fold_manifest_record feed_lines
        bundle_lines_def Let_def)
qed

lemma manifest_final:
  "fold manifest_bundle bs (manifest_start cutPoint ctx) =
     (let header = canonical_line (header_json cutPoint ctx) in
      \<lparr>fixture_text = header @ concat (stream_lines bs), records_text = concat (stream_lines bs),
       prefix_hashes = map (\<lambda>c. \<lparr>p_cut = c, p_text = concat (stream_lines (take c bs)),
                                 p_count = length (stream_lines (take c bs))\<rparr>)
                         (filter (\<lambda>c. c \<le> cutPoint) CUT_POINTS),
       m_counts = fold (\<lambda>b c. count_records (bundle_records b) (c\<lparr>c_bundles := Suc (c_bundles c)\<rparr>)) bs emptyCounts,
       resourcesSeen = length bs, emitted_lines = header # stream_lines bs\<rparr>)"
  by (simp add: fold_manifest_bundle manifest_start_def Let_def comp_def)

lemma counts_fold:
  "c_records (count_records rs c) = c_records c + length rs"
  "c_bytes (count_records rs c) = c_bytes c + sum_list (map (\<lambda>r. byte_length (record_line r)) rs)"
  "c_bundles (count_records rs c) = c_bundles c"
proof (induction rs arbitrary: c)
  case (Cons r rs)
  case 1 show ?case using Cons by (cases r) (simp_all add: count_records_def Let_def split: role.splits)
  case 2 show ?case using Cons by (cases r) (simp_all add: count_records_def Let_def split: role.splits)
  case 3 show ?case using Cons by (cases r) (simp_all add: count_records_def Let_def split: role.splits)
qed (simp_all add: count_records_def)

definition all_counts :: "resource_bundle list \<Rightarrow> counts \<Rightarrow> counts" where
  "all_counts bs = fold (\<lambda>b c. count_records (bundle_records b) (c\<lparr>c_bundles := Suc (c_bundles c)\<rparr>)) bs"

lemma all_counts_fold:
  "c_records (all_counts bs c) = c_records c + length (stream_lines bs)"
  "c_bytes (all_counts bs c) = c_bytes c + sum_list (map byte_length (stream_lines bs))"
  "c_bundles (all_counts bs c) = c_bundles c + length bs"
proof (induction bs arbitrary: c)
  case (Cons b bs)
  case 1 show ?case using Cons by (simp add: all_counts_def counts_fold bundle_lines_def)
  case 2 show ?case using Cons by (simp add: all_counts_def counts_fold bundle_lines_def comp_def)
  case 3 show ?case using Cons by (simp add: all_counts_def counts_fold)
qed (simp_all add: all_counts_def)

definition manifest_of :: "(string \<Rightarrow> string) \<Rightarrow> fixture_context \<Rightarrow> nat \<Rightarrow> fixture_manifest" where
  "manifest_of hash ctx n =
     (let bs = bundles_of n; header = canonical_line (header_json n ctx) in
      \<lparr>mf_cutPoint = n, mf_counts = all_counts bs emptyCounts,
       mf_prefixProofs = map (\<lambda>c. (c, length (stream_lines (take c bs)), ''sha256:'' @ hash (concat (stream_lines (take c bs)))))
         (filter (\<lambda>c. c \<le> n) CUT_POINTS),
       mf_fixture = ''sha256:'' @ hash (header @ concat (stream_lines bs)),
       mf_semanticRecords = ''sha256:'' @ hash (concat (stream_lines bs)), mf_context = ctx\<rparr>)"

lemma cut_points_valid: "n \<in> set CUT_POINTS \<Longrightarrow> valid_cut_point n"
  by (auto simp: CUT_POINTS_def valid_cut_point_def MAX_SAFE_INTEGER_def)

lemma generateFixtureManifest_eq:
  "generateFixtureManifest hash ctx n =
     (if \<not> valid_cut_point n then Inl (ManifestGenerator CutPointRange)
      else if n \<notin> set CUT_POINTS then Inl (NoPrefixForCutPoint n)
      else Inr (manifest_of hash ctx n, canonical_line (header_json n ctx) # stream_lines (bundles_of n)))"
proof (cases "valid_cut_point n")
  case False
  then show ?thesis by (simp add: generateFixtureManifest_def fixtureBundles_not_valid)
next
  case True
  have m: "map_of (map (\<lambda>c. (c, g c, h c)) xs) n = (if n \<in> set xs then Some (g n, h n) else None)"
    for g :: "nat \<Rightarrow> nat" and h :: "nat \<Rightarrow> string" and xs
    by (induction xs) auto
  have t: "take n (bundles_of n) = bundles_of n" by simp
  show ?thesis
    by (simp add: True generateFixtureManifest_def fixtureBundles_valid manifest_final manifest_facts_def
        comp_def m Let_def manifest_of_def all_counts_def t)
qed

text \<open>
  C4 For every cut point \<open>generateFixtureManifest\<close> answers exactly for the two published cut
  points; the digests it reports are those of the lines it emitted (all of them, and all but
  the header), and its totals are the number of records and of bytes emitted after the
  header, and the number of logical resources. Any other cut point is refused: an invalid
  one by the guard, a valid one when the digest of a missing prefix is read.
\<close>

theorem manifest_describes_stream:
  "case generateFixtureManifest hash ctx n of
     Inl e \<Rightarrow> n \<notin> {10000, 1000000} \<and>
       e = (if valid_cut_point n then NoPrefixForCutPoint n else ManifestGenerator CutPointRange)
   | Inr (m, ls) \<Rightarrow> n \<in> {10000, 1000000} \<and>
       mf_fixture m = ''sha256:'' @ hash (concat ls) \<and>
       mf_semanticRecords m = ''sha256:'' @ hash (concat (tl ls)) \<and>
       c_bundles (mf_counts m) = n \<and>
       c_records (mf_counts m) + 1 = length ls \<and>
       c_bytes (mf_counts m) = sum_list (map byte_length (tl ls))"
  by (auto simp: generateFixtureManifest_eq manifest_of_def all_counts_fold emptyCounts_def Let_def
      CUT_POINTS_def valid_cut_point_def MAX_SAFE_INTEGER_def)

text \<open>
  C3 The manifest for a million resources carries a proof for its first ten thousand: under
  the cut point 10000 it records the number of records and the semantic digest that the
  manifest for ten thousand resources itself reports, and the lines of the smaller fixture,
  header aside, are a prefix of the lines of the larger.
\<close>

theorem manifest_prefix_proof:
  "\<exists>small smallLines large largeLines.
     generateFixtureManifest hash ctx 10000 = Inr (small, smallLines) \<and>
     generateFixtureManifest hash ctx 1000000 = Inr (large, largeLines) \<and>
     map_of (mf_prefixProofs large) 10000 = Some (c_records (mf_counts small), mf_semanticRecords small) \<and>
     take (length (tl smallLines)) (tl largeLines) = tl smallLines"
proof -
  have p: "take 10000 (bundles_of 1000000) = bundles_of 10000" by (simp add: bundles_of_prefix [symmetric])
  have v: "valid_cut_point 10000" "valid_cut_point 1000000" "10000 \<in> set CUT_POINTS" "1000000 \<in> set CUT_POINTS"
    by (simp_all add: CUT_POINTS_def valid_cut_point_def MAX_SAFE_INTEGER_def)
  have "bundles_of 1000000 = bundles_of 10000 @ drop 10000 (bundles_of 1000000)"
    by (metis append_take_drop_id p)
  then have "take (length (stream_lines (bundles_of 10000))) (stream_lines (bundles_of 1000000))
      = stream_lines (bundles_of 10000)"
    by (metis append_eq_conv_conj stream_lines_simps(3))
  then show ?thesis
    by (simp add: generateFixtureManifest_eq v)
      (simp add: manifest_of_def Let_def CUT_POINTS_def p all_counts_fold emptyCounts_def)
qed

end
