(* ===== verification/Fixture_Sizes.thy ===== *)
theory Fixture_Sizes
  imports Fixture_Manifest
begin

text \<open>
  How large the generated records are: every bundle has at most eight records and at most
  16 KiB of canonical text. These bounds are what keeps the totals of a manifest in the range
  of safe integers and every bundle within the default limits of a batch.
\<close>

subsection \<open>Lengths of names\<close>

lemma length_nat_str_safe: "int n \<le> MAX_SAFE_INTEGER \<Longrightarrow> length (nat_str n) \<le> 16"
  by (rule length_nat_str) (simp_all add: MAX_SAFE_INTEGER_def)

lemma byte_length_Cons [simp]:
  "byte_length (c # s) = (if (of_char c :: nat) < 128 then 1 else 2) + byte_length s"
  by (simp add: byte_length_def)

lemma byte_length_json_char: "byte_length (json_char c) \<le> 6"
proof -
  have h: "(of_char (hex_digit d) :: nat) < 128" if "d < 16" for d
    using that by (simp add: hex_digit_def)
  then have "(of_char (hex_digit (of_char c mod 16)) :: nat) < 128"
    "(of_char c :: nat) < 32 \<Longrightarrow> (of_char (hex_digit (of_char c div 16)) :: nat) < 128"
    by (simp_all add: less_mult_imp_div_less)
  then show ?thesis by (simp add: json_char_def Let_def)
qed

lemma byte_length_json_str: "byte_length (json_str s) \<le> 2 + 6 * length s"
proof (induction s)
  case Nil
  then show ?case by (simp add: json_str_def byte_length_def)
next
  case (Cons c s)
  with byte_length_json_char [of c] show ?case by (simp add: json_str_def del: One_nat_def)
qed

subsection \<open>Lines\<close>

lemma record_line_object:
  "record_line (ObjectRecord r x) =
     ''{'' @ json_str ''kind'' @ '':'' @ json_str ''object'' @ '','' @ json_str ''object'' @ '':{''
     @ json_str ''id'' @ '':'' @ json_str (oid x) @ '','' @ json_str ''type'' @ '':'' @ json_str (otype x)
     @ ''},'' @ json_str ''role'' @ '':'' @ json_str (role_name r) @ ''}'' @ [LF]"
  by (simp add: record_line_def canonical_line_def objref_json_def own_order_def is_array_index_def is_digit_def)

lemma record_line_relationship:
  "record_line (RelationshipRecord l res sub) =
     ''{'' @ json_str ''kind'' @ '':'' @ json_str ''relationship'' @ '','' @ json_str ''relation'' @ '':'' @ json_str l
     @ '','' @ json_str ''resource'' @ '':{'' @ json_str ''id'' @ '':'' @ json_str (oid res) @ '','' @ json_str ''type''
     @ '':'' @ json_str (otype res) @ ''},'' @ json_str ''subject'' @ '':{'' @ json_str ''id'' @ '':'' @ json_str (oid sub)
     @ '','' @ json_str ''type'' @ '':'' @ json_str (otype sub) @ ''}}'' @ [LF]"
  by (simp add: record_line_def canonical_line_def objref_json_def own_order_def is_array_index_def is_digit_def)

definition small_object :: "objref \<Rightarrow> bool" where
  "small_object x \<longleftrightarrow> length (oid x) \<le> 60 \<and> length (otype x) \<le> 8"

fun small_record :: "fixture_record \<Rightarrow> bool" where
  "small_record (ObjectRecord r x) = small_object x"
| "small_record (RelationshipRecord l res sub) = (length l \<le> 16 \<and> small_object res \<and> small_object sub)"

lemma record_line_bytes: "small_record r \<Longrightarrow> byte_length (record_line r) \<le> 2048"
proof (induction r)
  case (ObjectRecord r x)
  then show ?case
    using byte_length_json_str [of "oid x"] byte_length_json_str [of "otype x"]
    by (cases r) (simp_all add: record_line_object small_object_def json_str_def [of "''kind''"]
        json_str_def [of "''object''"] json_str_def [of "''id''"] json_str_def [of "''type''"]
        json_str_def [of "''role''"] json_str_def [of "''subject''"] json_str_def [of "''resource''"]
        json_char_def LF_def)
next
  case (RelationshipRecord l res sub)
  then show ?case
    using byte_length_json_str [of "oid res"] byte_length_json_str [of "otype res"]
      byte_length_json_str [of "oid sub"] byte_length_json_str [of "otype sub"] byte_length_json_str [of l]
    by (simp add: record_line_relationship small_object_def json_str_def [of "''kind''"]
        json_str_def [of "''relationship''"] json_str_def [of "''relation''"] json_str_def [of "''id''"]
        json_str_def [of "''type''"] json_str_def [of "''subject''"] json_str_def [of "''resource''"]
        json_char_def LF_def)
qed

subsection \<open>Bundles\<close>

definition small_bundle :: "resource_bundle \<Rightarrow> bool" where
  "small_bundle b \<longleftrightarrow> length (bundle_records b) \<le> 8 \<and> list_all small_record (bundle_records b)"

lemmas small_defs = small_bundle_def small_object_def objectRecord_def relationshipRecord_def object_ref_def

lemma root_bundle_small: "small_bundle root_bundle"
  by (simp add: small_defs root_bundle_def)

lemma account_block_small:
  assumes "int k \<le> MAX_SAFE_INTEGER" and "b \<in> set (account_block k)"
  shows "small_bundle b"
proof -
  have k: "length (nat_str k) \<le> 16" "length (nat_str (k - 1)) \<le> 16"
    "length (nat_str 0) \<le> 16" "length (nat_str 4) \<le> 16"
    using assms(1) by (auto intro!: length_nat_str_safe simp: MAX_SAFE_INTEGER_def)
  have small: "length (nat_str t) \<le> 5" if "t \<le> 50000" for t
    using that by (intro length_nat_str) simp_all
  obtain n where n: "accountServerCount k = Inr n" "n \<le> 50000"
    using accountServerCount_safe [of k] assms(1) by (auto simp: is_safe_integer_def)
  consider "b = account_bundle k" | t where "t < TEAMS_PER_ACCOUNT" "b = team_bundle k t"
    | v where "v < VPCS_PER_ACCOUNT" "b = vpc_bundle k v" | s where "s < 50000" "b = server_bundle k s"
  proof -
    have "b = account_bundle k \<or> (\<exists>t<TEAMS_PER_ACCOUNT. b = team_bundle k t)
        \<or> (\<exists>v<VPCS_PER_ACCOUNT. b = vpc_bundle k v) \<or> (\<exists>s<n. b = server_bundle k s)"
      using assms(2) n by (auto simp: account_block_def servers_of_def)
    moreover have "s < n \<Longrightarrow> s < 50000" for s using n by simp
    ultimately show ?thesis using that by blast
  qed
  then show ?thesis
  proof cases
    case 1
    with k show ?thesis by (simp add: small_defs account_bundle_def account_id_def owner_id_def)
  next
    case 2
    with k small [of t] show ?thesis
      by (simp add: small_defs team_bundle_def account_id_def team_id_def leader_id_def TEAMS_PER_ACCOUNT_def)
  next
    case 3
    with k small [of v] show ?thesis
      by (simp add: small_defs vpc_bundle_def account_id_def vpc_id_def admin_id_def VPCS_PER_ACCOUNT_def)
  next
    case 4
    have "s mod TEAMS_PER_ACCOUNT \<le> 50000" "s mod VPCS_PER_ACCOUNT \<le> 50000" "s \<le> 50000" "s - 1 \<le> 50000"
      using 4(1) by (auto simp: TEAMS_PER_ACCOUNT_def VPCS_PER_ACCOUNT_def intro: order_trans [OF mod_less_eq_dividend])
    with k 4(2) small [of s] small [of "s - 1"] small [of "s mod TEAMS_PER_ACCOUNT"] small [of "s mod VPCS_PER_ACCOUNT"]
    show ?thesis by (simp add: small_defs server_bundle_def account_id_def team_id_def vpc_id_def server_id_def)
  qed
qed

lemma bundles_of_small:
  assumes "valid_cut_point n" and "b \<in> set (bundles_of n)"
  shows "small_bundle b"
proof -
  from assms(2) have "b = root_bundle \<or> (\<exists>k<n. b \<in> set (account_block k))"
    by (auto simp: bundles_of_def block_stream_def dest!: in_set_takeD)
  then show ?thesis
  proof
    assume "\<exists>k<n. b \<in> set (account_block k)"
    then obtain k where "k < n" "b \<in> set (account_block k)" by blast
    moreover have "int k \<le> MAX_SAFE_INTEGER" using assms(1) \<open>k < n\<close> by (simp add: valid_cut_point_def)
    ultimately show ?thesis by (intro account_block_small)
  qed (simp add: root_bundle_small)
qed

lemma small_bundle_lines:
  assumes "small_bundle b"
  shows "length (bundle_lines b) \<le> 8" "sum_list (map byte_length (bundle_lines b)) \<le> 16384"
proof -
  show l: "length (bundle_lines b) \<le> 8" using assms by (simp add: small_bundle_def bundle_lines_def)
  have "sum_list (map byte_length ls) \<le> length ls * 2048" if "list_all (\<lambda>l. byte_length l \<le> 2048) ls" for ls
    using that by (induction ls) auto
  moreover have "list_all (\<lambda>l. byte_length l \<le> 2048) (bundle_lines b)"
    using assms record_line_bytes by (auto simp: small_bundle_def bundle_lines_def list_all_iff)
  ultimately have "sum_list (map byte_length (bundle_lines b)) \<le> length (bundle_lines b) * 2048" by blast
  also have "\<dots> \<le> 8 * 2048" using l by (intro mult_right_mono) simp_all
  finally show "sum_list (map byte_length (bundle_lines b)) \<le> 16384" by simp
qed

lemma stream_totals:
  "list_all small_bundle bs \<Longrightarrow> length (stream_lines bs) \<le> 8 * length bs
     \<and> sum_list (map byte_length (stream_lines bs)) \<le> 16384 * length bs"
proof (induction bs)
  case (Cons b bs)
  with small_bundle_lines [of b] show ?case by simp
qed simp

subsection \<open>The manifest has a canonical form\<close>

lemma canonical_ok_from_entries:
  "list_all (\<lambda>(k, v). canonical_ok v) kvs \<Longrightarrow> canonical_ok (JObj (from_entries kvs))"
  using fold_update_entries [of kvs "[]"] distinct_fold_update [of "[]" kvs]
  by (auto simp: from_entries_def list_all_iff)

fun counts_within :: "counts \<Rightarrow> nat \<Rightarrow> bool" where
  "counts_within c m = (c_records c \<le> m \<and> c_objects c \<le> c_records c \<and> c_relationships c \<le> c_records c
     \<and> c_subjects c \<le> c_records c \<and> c_resources c \<le> c_records c
     \<and> list_all (\<lambda>(k, n). n \<le> c_records c) (c_subjects_by c)
     \<and> list_all (\<lambda>(k, n). n \<le> c_records c) (c_resources_by c)
     \<and> list_all (\<lambda>(k, n). n \<le> c_records c) (c_by_relation c))"

lemma bump_within:
  "list_all (\<lambda>(k, n). n \<le> b) m \<Longrightarrow> list_all (\<lambda>(k, n). n \<le> Suc b) (bump k m)"
proof -
  assume m: "list_all (\<lambda>(k, n). n \<le> b) m"
  then have "(case map_of m k of None \<Rightarrow> 1 | Some n \<Rightarrow> Suc n) \<le> Suc b"
    by (auto simp: list_all_iff split: option.split dest: map_of_SomeD)
  with m set_update_subset [of k "case map_of m k of None \<Rightarrow> 1 | Some n \<Rightarrow> Suc n" m] show ?thesis
    by (fastforce simp: bump_def list_all_iff)
qed

lemma list_all_weaken: "list_all (\<lambda>(k, n). n \<le> b) m \<Longrightarrow> list_all (\<lambda>(k, n). n \<le> Suc b) m"
  by (auto simp: list_all_iff)

lemma countRecord_within: "counts_within c (c_records c) \<Longrightarrow> counts_within (countRecord c r l) (c_records (countRecord c r l))"
  by (cases r) (auto simp: Let_def bump_within intro: list_all_weaken split: role.split)

lemma count_records_within:
  "counts_within c (c_records c) \<Longrightarrow> counts_within (count_records rs c) (c_records (count_records rs c))"
  by (induction rs arbitrary: c) (simp_all add: count_records_def countRecord_within del: counts_within.simps countRecord.simps)

lemma all_counts_within:
  "counts_within c (c_records c) \<Longrightarrow> counts_within (all_counts bs c) (c_records (all_counts bs c))"
proof (induction bs arbitrary: c)
  case Nil
  then show ?case by (simp add: all_counts_def)
next
  case (Cons b bs)
  have "counts_within (c\<lparr>c_bundles := Suc (c_bundles c)\<rparr>) (c_records (c\<lparr>c_bundles := Suc (c_bundles c)\<rparr>))"
    using Cons.prems by simp
  from count_records_within [OF this, of "bundle_records b"] Cons.IH
  show ?case by (simp add: all_counts_def del: counts_within.simps)
qed

lemma canonical_ok_int: "int n \<le> MAX_SAFE_INTEGER \<Longrightarrow> canonical_ok (JInt (int n))"
  by (simp add: is_safe_integer_def)

lemma sortObject_ok:
  assumes "list_all (\<lambda>(k, n). n \<le> b) m" and "int b \<le> MAX_SAFE_INTEGER"
  shows "canonical_ok (sortObject m)"
  unfolding sortObject_def
  using assms by (intro canonical_ok_from_entries) (auto simp: list_all_iff is_safe_integer_def)

lemma finalizeCounts_ok:
  assumes "counts_within c m" and "int m \<le> MAX_SAFE_INTEGER" and "int (c_bytes c) \<le> MAX_SAFE_INTEGER"
    and "int (c_bundles c) \<le> MAX_SAFE_INTEGER"
  shows "canonical_ok (finalizeCounts c)"
proof -
  have b: "int (c_records c) \<le> MAX_SAFE_INTEGER" using assms(1,2) by simp
  have "canonical_ok (sortObject (c_subjects_by c))" "canonical_ok (sortObject (c_resources_by c))"
    "canonical_ok (sortObject (c_by_relation c))"
    using assms(1) b by (auto intro: sortObject_ok)
  with assms b show ?thesis by (simp add: finalizeCounts_def is_safe_integer_def)
qed

lemma cut_point_totals:
  assumes "n \<in> set CUT_POINTS"
  shows "length (stream_lines (bundles_of n)) \<le> 8000000"
    and "sum_list (map byte_length (stream_lines (bundles_of n))) \<le> 16384000000"
proof -
  have "list_all small_bundle (bundles_of n)"
    using bundles_of_small [OF cut_points_valid [OF assms]] by (simp add: list_all_iff)
  from stream_totals [OF this] assms show "length (stream_lines (bundles_of n)) \<le> 8000000"
    and "sum_list (map byte_length (stream_lines (bundles_of n))) \<le> 16384000000"
    by (auto simp: CUT_POINTS_def)
qed

lemma prefix_total:
  assumes "n \<in> set CUT_POINTS"
  shows "length (stream_lines (take c (bundles_of n))) \<le> 8000000"
proof -
  have "length (stream_lines (take c bs)) \<le> length (stream_lines bs)" for bs
    by (metis append_take_drop_id le_add1 length_append stream_lines_simps(3))
  with cut_point_totals(1) [OF assms] show ?thesis using order_trans by blast
qed

lemma manifest_payload_ok:
  assumes n: "n \<in> set CUT_POINTS"
  shows "canonical_ok (manifest_payload (manifest_of hash ctx n))"
proof -
  let ?c = "all_counts (bundles_of n) emptyCounts"
  have "counts_within ?c (c_records ?c)" by (rule all_counts_within) (simp add: emptyCounts_def)
  then have counts: "canonical_ok (finalizeCounts ?c)"
    by (rule finalizeCounts_ok)
      (use cut_point_totals [OF n] n in \<open>auto simp: all_counts_fold emptyCounts_def MAX_SAFE_INTEGER_def CUT_POINTS_def\<close>)
  have "length (stream_lines (take c (bundles_of n))) \<le> 9007199254740991" for c
    using prefix_total [OF n, of c] by simp
  then have "canonical_ok (JObj (from_entries (map proof_json (mf_prefixProofs (manifest_of hash ctx n)))))"
    by (intro canonical_ok_from_entries)
      (auto simp: list_all_iff manifest_of_def Let_def proof_json_def is_safe_integer_def MAX_SAFE_INTEGER_def)
  moreover have "int n \<le> MAX_SAFE_INTEGER" using n by (auto simp: CUT_POINTS_def MAX_SAFE_INTEGER_def)
  ultimately show ?thesis using counts
    by (simp add: manifest_payload_def manifest_body_def manifest_digests_def manifest_of_def Let_def
        is_safe_integer_def MAX_SAFE_INTEGER_def)
qed

end
