(* ===== verification/Fixture_References.thy ===== *)
theory Fixture_References
  imports Fixture_Generator
begin

text \<open>
  Referential integrity of the generated stream: no object is introduced twice, and a
  relationship only names objects introduced before it. \<open>refs_ok\<close> is the check a reader of
  the stream makes record by record, \<open>introduces\<close> the objects a list of records adds.
\<close>

fun refs_ok :: "objref set \<Rightarrow> fixture_record list \<Rightarrow> bool" where
  "refs_ok S [] = True"
| "refs_ok S (ObjectRecord r x # rs) = (x \<notin> S \<and> refs_ok (insert x S) rs)"
| "refs_ok S (RelationshipRecord l res sub # rs) = (sub \<in> S \<and> res \<in> S \<and> refs_ok S rs)"

fun introduces :: "fixture_record list \<Rightarrow> objref set" where
  "introduces [] = {}"
| "introduces (ObjectRecord r x # rs) = insert x (introduces rs)"
| "introduces (RelationshipRecord l res sub # rs) = introduces rs"

lemma introduces_append [simp]: "introduces (xs @ ys) = introduces xs \<union> introduces ys"
  by (induction xs rule: introduces.induct) auto

lemma refs_ok_append [simp]: "refs_ok S (xs @ ys) \<longleftrightarrow> refs_ok S xs \<and> refs_ok (S \<union> introduces xs) ys"
  by (induction xs arbitrary: S rule: introduces.induct) simp_all

definition bundles_records :: "resource_bundle list \<Rightarrow> fixture_record list" where
  "bundles_records bs = concat (map bundle_records bs)"

lemma bundles_records_simps [simp]:
  "bundles_records [] = []" "bundles_records (b # bs) = bundle_records b @ bundles_records bs"
  "bundles_records (bs @ cs) = bundles_records bs @ bundles_records cs"
  by (simp_all add: bundles_records_def)

lemma introduces_upt: "introduces (bundles_records (map f [0..<n])) = (\<Union>i<n. introduces (bundle_records (f i)))"
  by (induction n) (auto simp: lessThan_Suc)

lemma refs_ok_upt:
  "(\<And>i. i < n \<Longrightarrow> refs_ok (S \<union> (\<Union>j<i. introduces (bundle_records (f j)))) (bundle_records (f i))) \<Longrightarrow>
   refs_ok S (bundles_records (map f [0..<n]))"
  by (induction n) (simp_all add: introduces_upt)

subsection \<open>The objects of one account\<close>

definition root_objects :: "objref set" where
  "root_objects = {object_ref ''platform'' ''platform'', object_ref ''user'' ''super-user'',
     object_ref ''user'' ''user-1'', object_ref ''user'' ''user-2''}"

definition account_objects :: "nat \<Rightarrow> objref set" where
  "account_objects k = {object_ref ''user'' (owner_id k), object_ref ''account'' (account_id k)}"

definition team_objects :: "nat \<Rightarrow> nat \<Rightarrow> objref set" where
  "team_objects k t = {object_ref ''user'' (leader_id k t), object_ref ''team'' (team_id k t)}"

definition vpc_objects :: "nat \<Rightarrow> nat \<Rightarrow> objref set" where
  "vpc_objects k v = {object_ref ''user'' (admin_id k v), object_ref ''vpc'' (vpc_id k v)}"

definition server_objects :: "nat \<Rightarrow> nat \<Rightarrow> objref set" where
  "server_objects k s = {object_ref ''server'' (server_id k s)}"

lemmas object_sets = root_objects_def account_objects_def team_objects_def vpc_objects_def server_objects_def

lemmas object_names = account_id_def owner_id_def team_id_def leader_id_def vpc_id_def admin_id_def server_id_def

lemma object_ref_inj [simp]: "object_ref t i = object_ref t' i' \<longleftrightarrow> t = t' \<and> i = i'"
  by (simp add: object_ref_def)

lemma introduces_bundles [simp]:
  "introduces (bundle_records root_bundle) = root_objects"
  "introduces (bundle_records (account_bundle k)) = account_objects k"
  "introduces (bundle_records (team_bundle k t)) = team_objects k t"
  "introduces (bundle_records (vpc_bundle k v)) = vpc_objects k v"
  "introduces (bundle_records (server_bundle k s)) = server_objects k s"
  by (auto simp: object_sets root_bundle_def account_bundle_def team_bundle_def vpc_bundle_def
      server_bundle_def objectRecord_def relationshipRecord_def)

definition block_objects :: "nat \<Rightarrow> objref set" where
  "block_objects k = account_objects k \<union> (\<Union>t<TEAMS_PER_ACCOUNT. team_objects k t)
     \<union> (\<Union>v<VPCS_PER_ACCOUNT. vpc_objects k v) \<union> (\<Union>s\<in>{..<servers_of k}. server_objects k s)"

lemma introduces_block: "introduces (bundles_records (account_block k)) = block_objects k"
  by (simp add: account_block_def introduces_upt block_objects_def Un_assoc)

text \<open>The name of an object tells its account.\<close>

lemma account_of_name:
  "account_id k = account_id l \<longleftrightarrow> k = l" "owner_id k = owner_id l \<longleftrightarrow> k = l"
  "team_id k t = team_id l u \<longleftrightarrow> k = l \<and> t = u" "leader_id k t = leader_id l u \<longleftrightarrow> k = l \<and> t = u"
  "vpc_id k t = vpc_id l u \<longleftrightarrow> k = l \<and> t = u" "admin_id k t = admin_id l u \<longleftrightarrow> k = l \<and> t = u"
  "server_id k t = server_id l u \<longleftrightarrow> k = l \<and> t = u"
  "owner_id k \<noteq> leader_id l u" "owner_id k \<noteq> admin_id l u" "leader_id k t \<noteq> admin_id l u"
  "leader_id k t \<noteq> owner_id l" "admin_id k t \<noteq> owner_id l" "admin_id k t \<noteq> leader_id l u"
  by (auto simp: object_names)

lemma not_root_name:
  "owner_id k \<notin> {''super-user'', ''user-1'', ''user-2''}"
  "leader_id k t \<notin> {''super-user'', ''user-1'', ''user-2''}"
  "admin_id k t \<notin> {''super-user'', ''user-1'', ''user-2''}"
  by (auto simp: object_names)

subsection \<open>The stream is sound\<close>

definition seen_before :: "nat \<Rightarrow> objref set" where
  "seen_before k = root_objects \<union> (\<Union>l<k. block_objects l)"

lemma fresh_account: "x \<in> block_objects k \<Longrightarrow> x \<notin> seen_before k"
  by (auto simp: seen_before_def block_objects_def object_sets account_of_name not_root_name [simplified])

lemma root_refs_ok: "refs_ok {} (bundle_records root_bundle)"
  by (simp add: root_bundle_def objectRecord_def relationshipRecord_def)

lemma account_0_name: "account_id 0 = ''account-0''" "account_id (Suc 0) = ''account-1''"
  by (simp_all add: account_id_def nat_str.simps digit_char_def char_of_def bit_Suc_0_iff)

lemma account_refs_ok: "refs_ok (seen_before k) (bundle_records (account_bundle k))"
proof -
  have new: "object_ref ''user'' (owner_id k) \<notin> seen_before k" "object_ref ''account'' (account_id k) \<notin> seen_before k"
    by (rule fresh_account, simp add: block_objects_def account_objects_def)+
  have root: "root_objects \<subseteq> seen_before k" by (auto simp: seen_before_def)
  have prev: "object_ref ''account'' (account_id l) \<in> seen_before k" if "l < k" for l
    using that by (auto simp: seen_before_def block_objects_def account_objects_def)
  show ?thesis
    using new root prev [of "k - 1"] prev [of 0]
    by (auto simp: account_bundle_def objectRecord_def relationshipRecord_def root_objects_def
        account_0_name [symmetric])
qed

text \<open>Within one account the groups come one after the other.\<close>

lemma groups_disjoint:
  "x \<in> team_objects k t \<Longrightarrow> x \<in> team_objects k u \<Longrightarrow> t = u"
  "x \<in> vpc_objects k t \<Longrightarrow> x \<in> vpc_objects k u \<Longrightarrow> t = u"
  "x \<in> server_objects k t \<Longrightarrow> x \<in> server_objects k u \<Longrightarrow> t = u"
  "x \<in> team_objects k t \<Longrightarrow> x \<notin> account_objects k"
  "x \<in> vpc_objects k v \<Longrightarrow> x \<notin> account_objects k" "x \<in> vpc_objects k v \<Longrightarrow> x \<notin> team_objects k t"
  "x \<in> server_objects k s \<Longrightarrow> x \<notin> account_objects k" "x \<in> server_objects k s \<Longrightarrow> x \<notin> team_objects k t"
  "x \<in> server_objects k s \<Longrightarrow> x \<notin> vpc_objects k v"
  by (auto simp: object_sets account_of_name)

lemma team_refs_ok:
  assumes new: "\<And>x. x \<in> team_objects k t \<Longrightarrow> x \<notin> S" and account: "account_objects k \<subseteq> S"
  shows "refs_ok S (bundle_records (team_bundle k t))"
  using new account
  by (auto simp: team_bundle_def objectRecord_def relationshipRecord_def team_objects_def account_objects_def)

lemma vpc_refs_ok:
  assumes new: "\<And>x. x \<in> vpc_objects k v \<Longrightarrow> x \<notin> S" and account: "account_objects k \<subseteq> S"
  shows "refs_ok S (bundle_records (vpc_bundle k v))"
  using new account
  by (auto simp: vpc_bundle_def objectRecord_def relationshipRecord_def vpc_objects_def account_objects_def)

lemma server_refs_ok:
  assumes new: "\<And>x. x \<in> server_objects k s \<Longrightarrow> x \<notin> S"
    and "account_objects k \<union> (\<Union>t<TEAMS_PER_ACCOUNT. team_objects k t)
      \<union> (\<Union>v<VPCS_PER_ACCOUNT. vpc_objects k v) \<union> (\<Union>r\<in>{..<s}. server_objects k r) \<subseteq> S"
  shows "refs_ok S (bundle_records (server_bundle k s))"
proof -
  have "s mod TEAMS_PER_ACCOUNT < TEAMS_PER_ACCOUNT" "s mod VPCS_PER_ACCOUNT < VPCS_PER_ACCOUNT"
    by (simp_all add: TEAMS_PER_ACCOUNT_def VPCS_PER_ACCOUNT_def)
  then have "object_ref ''team'' (team_id k (s mod TEAMS_PER_ACCOUNT)) \<in> S"
    "object_ref ''vpc'' (vpc_id k (s mod VPCS_PER_ACCOUNT)) \<in> S"
    "object_ref ''account'' (account_id k) \<in> S"
    using assms(2) by (auto simp: object_sets)
  moreover have "object_ref ''server'' (server_id k (s - 1)) \<in> S" if "0 < s"
  proof -
    have "s - 1 \<in> {..<s}" using that by simp
    then show ?thesis using assms(2) unfolding server_objects_def by blast
  qed
  moreover have "object_ref ''server'' (server_id k s) \<notin> S" by (rule new) (simp add: server_objects_def)
  ultimately show ?thesis by (simp add: server_bundle_def objectRecord_def relationshipRecord_def)
qed

lemma block_refs_ok: "refs_ok (seen_before k) (bundles_records (account_block k))"
proof -
  define A where "A = seen_before k \<union> account_objects k"
  define T where "T = A \<union> (\<Union>t<TEAMS_PER_ACCOUNT. team_objects k t)"
  define V where "V = T \<union> (\<Union>v<VPCS_PER_ACCOUNT. vpc_objects k v)"
  have fresh: "x \<notin> seen_before k" if "x \<in> block_objects k" for x using that by (rule fresh_account)
  have teams: "refs_ok A (bundles_records (map (team_bundle k) [0..<TEAMS_PER_ACCOUNT]))"
  proof (rule refs_ok_upt, rule team_refs_ok)
    fix t x assume "t < TEAMS_PER_ACCOUNT" "x \<in> team_objects k t"
    moreover from this have "x \<notin> seen_before k" by (intro fresh) (auto simp: block_objects_def)
    ultimately show "x \<notin> A \<union> (\<Union>u<t. introduces (bundle_records (team_bundle k u)))"
      by (auto simp: A_def dest: groups_disjoint(1,4))
  qed (auto simp: A_def)
  have vpcs: "refs_ok T (bundles_records (map (vpc_bundle k) [0..<VPCS_PER_ACCOUNT]))"
  proof (rule refs_ok_upt, rule vpc_refs_ok)
    fix v x assume "v < VPCS_PER_ACCOUNT" "x \<in> vpc_objects k v"
    moreover from this have "x \<notin> seen_before k" by (intro fresh) (auto simp: block_objects_def)
    ultimately show "x \<notin> T \<union> (\<Union>u<v. introduces (bundle_records (vpc_bundle k u)))"
      by (auto simp: A_def T_def dest: groups_disjoint(2,5,6))
  qed (auto simp: A_def T_def)
  have servers: "refs_ok V (bundles_records (map (server_bundle k) [0..<servers_of k]))"
  proof (rule refs_ok_upt, rule server_refs_ok)
    fix s x assume "s < servers_of k" "x \<in> server_objects k s"
    moreover from this have "x \<notin> seen_before k" by (intro fresh) (auto simp: block_objects_def)
    ultimately show "x \<notin> V \<union> (\<Union>u\<in>{..<s}. introduces (bundle_records (server_bundle k u)))"
      by (auto simp: A_def T_def V_def dest: groups_disjoint(3,7,8,9))
  qed (auto simp: A_def T_def V_def)
  show ?thesis
    using account_refs_ok [of k] teams vpcs servers
    by (simp add: account_block_def introduces_upt A_def T_def V_def)
qed

lemma seen_before_Suc: "seen_before (Suc k) = seen_before k \<union> block_objects k"
  by (auto simp: seen_before_def lessThan_Suc)

lemma block_stream_refs_ok: "refs_ok (seen_before k) (bundles_records (block_stream k j))"
proof (induction j arbitrary: k)
  case 0
  then show ?case by (simp add: block_stream_def)
next
  case (Suc j)
  show ?case using block_refs_ok [of k] Suc.IH [of "Suc k"]
    by (simp add: block_stream_Suc introduces_block seen_before_Suc)
qed

lemma bundles_of_refs_ok: "refs_ok {} (bundles_records (bundles_of n))"
proof -
  have "refs_ok {} (bundles_records (root_bundle # block_stream 0 n))"
    using root_refs_ok block_stream_refs_ok [of 0 n] by (simp add: seen_before_def)
  then have "refs_ok {} (bundles_records (take n (root_bundle # block_stream 0 n) @ drop n (root_bundle # block_stream 0 n)))"
    by (simp only: append_take_drop_id)
  then show ?thesis by (simp only: bundles_records_simps refs_ok_append bundles_of_def)
qed

text \<open>
  C9 Referential integrity: in the stream of a valid cut point no object is introduced twice
  and every relationship names a subject and a resource introduced by an earlier record.
\<close>

theorem fixture_references_resolve:
  "case fixtureBundles n of
     Inl _ \<Rightarrow> \<not> valid_cut_point n
   | Inr bs \<Rightarrow> refs_ok {} (concat (map bundle_records bs))"
  using bundles_of_refs_ok [of n]
  by (cases "valid_cut_point n") (simp_all add: fixtureBundles_valid fixtureBundles_not_valid bundles_records_def)

end
