(* ===== verification/Fixture_Verifier.thy ===== *)
theory Fixture_Verifier
  imports Fixture_Sizes Fixture_References
begin

text \<open>
  \<open>packages/fixture-generator/verifier.mjs\<close>: a fixture file is checked line by line against
  the deterministic stream and its manifest. \<open>hash\<close> is the hexadecimal SHA-256 of
  \<open>node:crypto\<close>, \<open>num\<close> reads a JSON number that is no safe integer, and \<open>ctx\<close> is what
  \<open>fixtureContext\<close> read. A failure carries the code of \<open>FixtureVerificationError\<close>; a
  property read on null or undefined and a value without canonical form are the TypeErrors
  the code lets escape.
\<close>

datatype verify_error =
    Fail string
  | EscapedTypeError
  | VerifyGenerator generator_error

text \<open>A line as the iterable hands it over: text (a buffer is decoded first) or anything else.\<close>

datatype raw_line = TextLine string | OtherLine

definition nullish :: "jsval \<Rightarrow> bool" where
  "nullish v \<longleftrightarrow> v = JUndef \<or> v = JNull"

text \<open>\<open>v.k\<close>, a TypeError on null and undefined; \<open>v?.k\<close> is \<open>prop_of\<close>.\<close>

definition get_prop :: "jsval \<Rightarrow> string \<Rightarrow> verify_error + jsval" where
  "get_prop v k = (if nullish v then Inl EscapedTypeError else Inr (prop_of v k))"

definition canonical_text :: "jsval \<Rightarrow> verify_error + string" where
  "canonical_text v = (case canonicalJson v of Inl _ \<Rightarrow> Inl EscapedTypeError | Inr t \<Rightarrow> Inr (t @ [LF]))"

abbreviation fail_if :: "bool \<Rightarrow> string \<Rightarrow> verify_error + 'a \<Rightarrow> verify_error + 'a" where
  "fail_if b code k \<equiv> throw_if b (Fail code) k"

subsection \<open>The manifest's identity\<close>

fun drop_key :: "string \<Rightarrow> jsval \<Rightarrow> jsval" where
  "drop_key k (JObj kvs) = JObj (filter (\<lambda>(k', _). k' \<noteq> k) kvs)"
| "drop_key k v = v"

text \<open>\<open>delete payload.digests.manifest\<close> on a copy.\<close>

definition without_claim :: "jsval \<Rightarrow> verify_error + jsval" where
  "without_claim manifest =
     (if nullish (prop_of manifest ''digests'') then Inl EscapedTypeError
      else Inr (JObj (map (\<lambda>(k, v). (k, if k = ''digests'' then drop_key ''manifest'' v else v)) (props manifest))))"

definition validateManifestIdentity ::
  "(string \<Rightarrow> string) \<Rightarrow> jsval \<Rightarrow> fixture_context \<Rightarrow> verify_error + unit" where
  "validateManifestIdentity hash manifest ctx =
     fail_if (\<not> truthy manifest \<or> prop_of manifest ''schemaVersion'' \<noteq> JInt 1
         \<or> prop_of manifest ''fixtureId'' \<noteq> JStr ''eacl-demo-fixture-v1'') ''manifest-identity-mismatch''
     (let cutPoint = prop_of (prop_of manifest ''cutPoint'') ''logicalResources'' in
      fail_if (cutPoint \<notin> set (map (\<lambda>c. JInt (int c)) CUT_POINTS)) ''wrong-cut-point''
      (fail_if (prop_of (prop_of manifest ''algorithm'') ''generatorDigest'' \<noteq> JStr (generatorDigest ctx)) ''generator-drift''
      (fail_if (prop_of (prop_of manifest ''schema'') ''digest'' \<noteq> JStr (schemaDigest ctx)) ''schema-drift''
      (fail_if (prop_of (prop_of manifest ''exemplars'') ''digest'' \<noteq> JStr (exemplarDigest ctx)) ''exemplar-drift''
      (let claimed = prop_of (prop_of manifest ''digests'') ''manifest'' in
       bind_r (without_claim manifest) (\<lambda>payload.
       bind_r (canonical_text payload) (\<lambda>t.
       fail_if (claimed \<noteq> JStr (''sha256:'' @ hash t)) ''manifest-digest-mismatch'' (Inr ()))))))))"

subsection \<open>The expected lines\<close>

definition expectedLines :: "nat \<Rightarrow> fixture_context \<Rightarrow> verify_error + string list" where
  "expectedLines cutPoint ctx =
     (case fixtureHeader cutPoint ctx of
        Inl e \<Rightarrow> Inl (VerifyGenerator e)
      | Inr h \<Rightarrow>
         (case fixtureBundles cutPoint of
            Inl e \<Rightarrow> Inl (VerifyGenerator e)
          | Inr bs \<Rightarrow> Inr (canonical_line h # stream_lines bs)))"

subsection \<open>One line\<close>

definition validateHeader :: "jsval \<Rightarrow> nat \<Rightarrow> fixture_context \<Rightarrow> verify_error + unit" where
  "validateHeader header cutPoint ctx =
     bind_r (get_prop header ''kind'') (\<lambda>kind.
       fail_if (kind \<noteq> JStr ''fixture'' \<or> prop_of header ''fixtureId'' \<noteq> JStr ''eacl-demo-fixture-v1'')
         ''fixture-header-mismatch''
       (fail_if (prop_of header ''cutPointResources'' \<noteq> JInt (int cutPoint)) ''wrong-cut-point''
       (fail_if (prop_of header ''schemaDigest'' \<noteq> JStr (schemaDigest ctx)) ''schema-drift''
       (fail_if (prop_of header ''exemplarDigest'' \<noteq> JStr (exemplarDigest ctx)) ''exemplar-drift'' (Inr ())))))"

text \<open>\<open>${value.type}:${value.id}\<close>\<close>

definition objectKey_of :: "jsval \<Rightarrow> verify_error + string" where
  "objectKey_of v =
     bind_r (get_prop v ''type'') (\<lambda>t.
       (case (js_string t, js_string (prop_of v ''id'')) of
          (Some a, Some b) \<Rightarrow> Inr (a @ '':'' @ b)
        | _ \<Rightarrow> Inl EscapedTypeError))"

text \<open>The set of introduced objects afterwards.\<close>

definition validateReferences :: "jsval \<Rightarrow> string set \<Rightarrow> verify_error + string set" where
  "validateReferences r introduced =
     bind_r (get_prop r ''kind'') (\<lambda>kind.
       if kind = JStr ''object'' then
         bind_r (objectKey_of (prop_of r ''object'')) (\<lambda>key.
           fail_if (key \<in> introduced) ''duplicate-object'' (Inr (insert key introduced)))
       else
         fail_if (kind \<noteq> JStr ''relationship'') ''unknown-record-kind''
         (bind_r (objectKey_of (prop_of r ''subject'')) (\<lambda>subject.
           fail_if (subject \<notin> introduced) ''dangling-relationship''
           (bind_r (objectKey_of (prop_of r ''resource'')) (\<lambda>resource.
             fail_if (resource \<notin> introduced) ''dangling-relationship'' (Inr introduced))))))"

text \<open>\<open>line.endsWith("\n") && !line.slice(0, -1).includes("\n")\<close>\<close>

definition framed :: "string \<Rightarrow> bool" where
  "framed line \<longleftrightarrow> line \<noteq> [] \<and> last line = LF \<and> LF \<notin> set (butlast line)"

record verify_state =
  v_fixture :: string
  v_semantic :: string
  v_introduced :: "string set"
  v_lines :: nat
  v_previous :: "string option"

definition verify_start :: verify_state where
  "verify_start = \<lparr>v_fixture = [], v_semantic = [], v_introduced = {}, v_lines = 0, v_previous = None\<rparr>"

definition parse_line :: "(string \<Rightarrow> jsval) \<Rightarrow> string \<Rightarrow> verify_error + jsval" where
  "parse_line num line =
     (case json_parse num line of
        None \<Rightarrow> Inl (Fail ''invalid-json'')
      | Some v \<Rightarrow> bind_r (canonical_text v) (\<lambda>t. fail_if (t \<noteq> line) ''non-canonical-json'' (Inr v)))"

definition verify_line :: "(string \<Rightarrow> jsval) \<Rightarrow> nat \<Rightarrow> fixture_context \<Rightarrow> string option \<Rightarrow> raw_line \<Rightarrow>
    verify_state \<Rightarrow> verify_error + verify_state" where
  "verify_line num cutPoint ctx expected raw st =
     (case raw of
        OtherLine \<Rightarrow> Inl (Fail ''invalid-line-framing'')
      | TextLine line \<Rightarrow>
          fail_if (\<not> framed line) ''invalid-line-framing''
          (case expected of
             None \<Rightarrow> Inl (Fail (if v_previous st = Some line then ''duplicate-record'' else ''extra-record''))
           | Some want \<Rightarrow>
               bind_r (parse_line num line) (\<lambda>r.
               bind_r (if v_lines st = 0 then bind_r (validateHeader r cutPoint ctx) (\<lambda>_. Inr (v_introduced st))
                       else validateReferences r (v_introduced st)) (\<lambda>introduced.
               fail_if (line \<noteq> want)
                 (if v_previous st = Some line then ''duplicate-record'' else ''record-mismatch'')
               (Inr \<lparr>v_fixture = v_fixture st @ line,
                     v_semantic = (if v_lines st > 0 then v_semantic st @ line else v_semantic st),
                     v_introduced = introduced, v_lines = v_lines st + 1, v_previous = Some line\<rparr>)))))"

fun verify_loop :: "(string \<Rightarrow> jsval) \<Rightarrow> nat \<Rightarrow> fixture_context \<Rightarrow> string list \<Rightarrow> raw_line list \<Rightarrow>
    verify_state \<Rightarrow> verify_error + string list \<times> verify_state" where
  "verify_loop num cutPoint ctx expected [] st = Inr (expected, st)"
| "verify_loop num cutPoint ctx expected (raw # raws) st =
     (case expected of
        [] \<Rightarrow> bind_r (verify_line num cutPoint ctx None raw st) (verify_loop num cutPoint ctx [] raws)
      | want # rest \<Rightarrow>
          bind_r (verify_line num cutPoint ctx (Some want) raw st) (verify_loop num cutPoint ctx rest raws))"

subsection \<open>The whole file\<close>

text \<open>\<open>v + 1\<close> where the sum is an integer; any other sum differs from every line count.\<close>

fun plus_one :: "jsval \<Rightarrow> int option" where
  "plus_one (JInt i) = Some (i + 1)"
| "plus_one JNull = Some 1"
| "plus_one (JBool b) = Some (if b then 2 else 1)"
| "plus_one (JNum s) = (if s = ''-0'' then Some 1 else None)"
| "plus_one _ = None"

record verify_result =
  vr_cutPoint :: nat
  vr_lines :: nat
  vr_fixture :: string
  vr_semantic :: string
  vr_manifest :: jsval

definition verifyFixtureLines :: "(string \<Rightarrow> string) \<Rightarrow> (string \<Rightarrow> jsval) \<Rightarrow> fixture_context \<Rightarrow>
    raw_line list \<Rightarrow> jsval \<Rightarrow> verify_error + verify_result" where
  "verifyFixtureLines hash num ctx raws manifest =
     bind_r (validateManifestIdentity hash manifest ctx) (\<lambda>_.
     (let cutPoint = nat (the_int (prop_of (prop_of manifest ''cutPoint'') ''logicalResources''));
          digests = prop_of manifest ''digests'' in
      bind_r (expectedLines cutPoint ctx) (\<lambda>expected.
      bind_r (verify_loop num cutPoint ctx expected raws verify_start) (\<lambda>(rest, st).
      fail_if (rest \<noteq> []) ''partial-fixture''
      (let fixture = ''sha256:'' @ hash (v_fixture st); semantic = ''sha256:'' @ hash (v_semantic st) in
      fail_if (JStr fixture \<noteq> prop_of digests ''fixture'') ''fixture-digest-mismatch''
      (fail_if (JStr semantic \<noteq> prop_of digests ''semanticRecords'') ''semantic-digest-mismatch''
      (bind_r (get_prop manifest ''counts'') (\<lambda>counts.
       bind_r (get_prop counts ''records'') (\<lambda>recs.
       bind_r (get_prop recs ''total'') (\<lambda>total.
       fail_if (plus_one total \<noteq> Some (int (v_lines st))) ''record-count-mismatch''
       (Inr \<lparr>vr_cutPoint = cutPoint, vr_lines = v_lines st, vr_fixture = fixture, vr_semantic = semantic,
             vr_manifest = prop_of digests ''manifest''\<rparr>)))))))))))"

subsection \<open>Whatever is accepted is the stream\<close>

lemma verify_line_accepts:
  "verify_line num cutPoint ctx expected raw st = Inr st' \<Longrightarrow>
     \<exists>line. expected = Some line \<and> raw = TextLine line \<and> v_fixture st' = v_fixture st @ line
       \<and> v_semantic st' = v_semantic st @ (if v_lines st > 0 then line else [])
       \<and> v_lines st' = Suc (v_lines st)"
  by (auto simp: verify_line_def bind_r_def split: raw_line.splits option.splits if_splits sum.splits)

lemma verify_loop_accepts:
  "verify_loop num cutPoint ctx expected raws st = Inr (rest, st') \<Longrightarrow>
     \<exists>ls. expected = ls @ rest \<and> raws = map TextLine ls \<and> v_fixture st' = v_fixture st @ concat ls
       \<and> v_semantic st' = v_semantic st @ concat (if v_lines st > 0 then ls else tl ls)
       \<and> v_lines st' = v_lines st + length ls"
proof (induction raws arbitrary: expected st)
  case Nil
  then show ?case by (intro exI [of _ "[]"]) auto
next
  case (Cons raw raws)
  show ?case
  proof (cases expected)
    case Nil
    with Cons.prems show ?thesis by (auto dest: verify_line_accepts)
  next
    case (Cons want more)
    with Cons.prems obtain st1 where l: "verify_line num cutPoint ctx (Some want) raw st = Inr st1"
      and r: "verify_loop num cutPoint ctx more raws st1 = Inr (rest, st')" by auto
    from verify_line_accepts [OF l] have w: "raw = TextLine want" "v_fixture st1 = v_fixture st @ want"
      "v_semantic st1 = v_semantic st @ (if v_lines st > 0 then want else [])" "v_lines st1 = Suc (v_lines st)"
      by auto
    from Cons.IH [OF r] obtain ls where "more = ls @ rest" "raws = map TextLine ls"
      "v_fixture st' = v_fixture st1 @ concat ls" "v_semantic st' = v_semantic st1 @ concat ls"
      "v_lines st' = v_lines st1 + length ls"
      using w(4) by auto
    with w Cons show ?thesis by (intro exI [of _ "want # ls"]) auto
  qed
qed

definition fixture_lines :: "fixture_context \<Rightarrow> nat \<Rightarrow> string list" where
  "fixture_lines ctx n = canonical_line (header_json n ctx) # stream_lines (bundles_of n)"

lemma expectedLines_cut: "n \<in> set CUT_POINTS \<Longrightarrow> expectedLines n ctx = Inr (fixture_lines ctx n)"
  using cut_points_valid [of n]
  by (auto simp: expectedLines_def fixtureHeader_def validateCutPoint_def valid_cut_point_def
      is_safe_integer_def fixtureBundles_valid fixture_lines_def)

lemma identity_cut:
  "validateManifestIdentity hash manifest ctx = Inr u \<Longrightarrow>
   \<exists>n \<in> set CUT_POINTS. prop_of (prop_of manifest ''cutPoint'') ''logicalResources'' = JInt (int n)"
  by (auto simp: validateManifestIdentity_def Let_def split: if_splits)

text \<open>
  C5 Soundness of the verifier: whenever it accepts, the cut point it reports is the one the
  manifest names and a published one, the lines it was given are exactly the header and the records
  of the stream of that cut point, in order and nothing else, the three digests it reports are those of these lines and of the manifest, and the
  manifest's own digests and record total agree with them.
\<close>

theorem verifier_sound:
  "case verifyFixtureLines hash num ctx raws manifest of
     Inl _ \<Rightarrow> True
   | Inr r \<Rightarrow>
       (let n = vr_cutPoint r; ls = fixture_lines ctx n in
        prop_of (prop_of manifest ''cutPoint'') ''logicalResources'' = JInt (int n) \<and>
        n \<in> {10000, 1000000} \<and> raws = map TextLine ls \<and> vr_lines r = length ls \<and>
        vr_fixture r = ''sha256:'' @ hash (concat ls) \<and> vr_semantic r = ''sha256:'' @ hash (concat (tl ls)) \<and>
        prop_of (prop_of manifest ''digests'') ''fixture'' = JStr (vr_fixture r) \<and>
        prop_of (prop_of manifest ''digests'') ''semanticRecords'' = JStr (vr_semantic r) \<and>
        plus_one (prop_of (prop_of (prop_of manifest ''counts'') ''records'') ''total'') = Some (int (length ls)))"
proof (cases "verifyFixtureLines hash num ctx raws manifest")
  case (Inl e)
  then show ?thesis by simp
next
  case (Inr r)
  then obtain u where u: "validateManifestIdentity hash manifest ctx = Inr u"
    by (auto simp: verifyFixtureLines_def)
  obtain n where n: "n \<in> set CUT_POINTS"
    and cut: "prop_of (prop_of manifest ''cutPoint'') ''logicalResources'' = JInt (int n)"
    using identity_cut [OF u] by blast
  from Inr obtain rest st where loop: "verify_loop num n ctx (fixture_lines ctx n) raws verify_start = Inr (rest, st)"
    and rest: "rest = []"
    and d: "JStr (''sha256:'' @ hash (v_fixture st)) = prop_of (prop_of manifest ''digests'') ''fixture''"
      "JStr (''sha256:'' @ hash (v_semantic st)) = prop_of (prop_of manifest ''digests'') ''semanticRecords''"
    and total: "plus_one (prop_of (prop_of (prop_of manifest ''counts'') ''records'') ''total'') = Some (int (v_lines st))"
    and r: "vr_cutPoint r = n" "vr_lines r = v_lines st" "vr_fixture r = ''sha256:'' @ hash (v_fixture st)"
      "vr_semantic r = ''sha256:'' @ hash (v_semantic st)"
    by (auto simp: verifyFixtureLines_def u cut Let_def expectedLines_cut [OF n] get_prop_def split: if_splits)
  from verify_loop_accepts [OF loop] rest have "raws = map TextLine (fixture_lines ctx n)"
    "v_fixture st = concat (fixture_lines ctx n)" "v_semantic st = concat (tl (fixture_lines ctx n))"
    "v_lines st = length (fixture_lines ctx n)"
    by (auto simp: verify_start_def)
  with d total r n cut Inr show ?thesis by (auto simp: Let_def CUT_POINTS_def)
qed

subsection \<open>The stream and its manifest are accepted\<close>

text \<open>Sorting the properties does not change what a property read gives.\<close>

lemma prop_of_sort_props:
  assumes "canonical_ok v"
  shows "prop_of (sort_props v) k = sort_props (prop_of v k)"
proof (cases v)
  case (JObj kvs)
  let ?m = "map (\<lambda>(k, v). (k, sort_props v)) kvs"
  have d: "distinct (map fst kvs)" using assms JObj by simp
  then have m: "distinct (map fst ?m)" by simp
  note own_order_distinct [OF distinct_fst_sort_key [OF m]]
  with m have "map_of (own_order (sort_key fst ?m)) = map_of ?m"
    by (subst map_of_inject_set) simp_all
  then have "map_of (own_order (sort_key fst ?m)) k = map_of ?m k" by simp
  also have "map_of ?m k = map_option sort_props (map_of kvs k)" by (simp add: map_of_map)
  finally show ?thesis by (simp add: JObj prop_of_def split: option.split)
qed (simp_all add: prop_of_def)

lemma canonical_ok_prop: "canonical_ok v \<Longrightarrow> has_prop v k \<Longrightarrow> canonical_ok (prop_of v k)"
  by (cases v) (auto simp: has_prop_def prop_of_def list_all_iff split: option.split dest: map_of_SomeD
      intro: map_of_eq_None_iff [THEN iffD1])

definition objectKey :: "objref \<Rightarrow> string" where
  "objectKey x = otype x @ '':'' @ oid x"

definition plain_type :: "objref \<Rightarrow> bool" where
  "plain_type x \<longleftrightarrow> CHR '':'' \<notin> set (otype x)"

lemma objectKey_inj:
  assumes "plain_type x" and "plain_type y" and "objectKey x = objectKey y"
  shows "x = y"
proof -
  have t: "takeWhile (\<lambda>c. c \<noteq> CHR '':'') (objectKey z) = otype z" if "plain_type z" for z :: objref
    using that unfolding objectKey_def plain_type_def by (subst takeWhile_append2) auto
  from assms t have "otype x = otype y" by metis
  with assms(3) show ?thesis by (simp add: objectKey_def)
qed

fun plain_record :: "fixture_record \<Rightarrow> bool" where
  "plain_record (ObjectRecord r x) = plain_type x"
| "plain_record (RelationshipRecord l res sub) = (plain_type res \<and> plain_type sub)"

lemma objectKey_of_json: "objectKey_of (sort_props (objref_json x)) = Inr (objectKey x)"
  by (simp add: objectKey_of_def get_prop_def nullish_def prop_of_sort_props objref_json_def objectKey_def)
    (simp add: prop_of_def)

lemma record_json_props:
  "prop_of (record_json (ObjectRecord r x)) ''kind'' = JStr ''object''"
  "prop_of (record_json (ObjectRecord r x)) ''object'' = objref_json x"
  "prop_of (record_json (RelationshipRecord l res sub)) ''kind'' = JStr ''relationship''"
  "prop_of (record_json (RelationshipRecord l res sub)) ''resource'' = objref_json res"
  "prop_of (record_json (RelationshipRecord l res sub)) ''subject'' = objref_json sub"
  by (simp_all add: prop_of_def)

lemma sort_props_not_nullish: "nullish (sort_props v) = nullish v"
  by (cases v) (simp_all add: nullish_def)

lemma record_json_not_nullish: "\<not> nullish (record_json r)"
  by (cases r) (simp_all add: nullish_def)

lemma validateReferences_record:
  assumes "plain_record r" and "\<And>x. x \<in> S \<Longrightarrow> plain_type x" and "refs_ok S [r]"
  shows "validateReferences (sort_props (record_json r)) (objectKey ` S) = Inr (objectKey ` (S \<union> introduces [r]))"
proof (cases r)
  case (ObjectRecord ro x)
  have "objectKey x \<notin> objectKey ` S" using assms ObjectRecord objectKey_inj by fastforce
  then show ?thesis
    by (simp add: ObjectRecord validateReferences_def get_prop_def sort_props_not_nullish record_json_not_nullish
        prop_of_sort_props record_json_props objectKey_of_json del: record_json.simps)
next
  case (RelationshipRecord l res sub)
  then show ?thesis using assms(3)
    by (simp add: validateReferences_def get_prop_def sort_props_not_nullish record_json_not_nullish
        prop_of_sort_props record_json_props objectKey_of_json del: record_json.simps)
qed

lemma framed_canonical_line: "canonical_ok v \<Longrightarrow> framed (canonical_line v)"
  using json_no_LF [OF sort_props_plain] by (simp add: framed_def canonical_line_def LF_def)

lemma parse_canonical_line: "canonical_ok v \<Longrightarrow> parse_line num (canonical_line v) = Inr (sort_props v)"
  using json_parse_line [OF sort_props_plain, of v num]
  by (simp add: parse_line_def canonical_line_def LF_def canonical_text_def canonicalJson_ok
      canonical_ok_sort_props sort_props_idem)

lemma verify_records:
  assumes "refs_ok S rs" and "list_all plain_record rs" and "\<And>x. x \<in> S \<Longrightarrow> plain_type x"
    and "v_introduced st = objectKey ` S" and "v_lines st > 0"
  shows "\<exists>st'. verify_loop num n ctx (map record_line rs) (map (\<lambda>r. TextLine (record_line r)) rs) st = Inr ([], st')"
  using assms
proof (induction rs arbitrary: S st)
  case Nil
  then show ?case by simp
next
  case (Cons r rs)
  have first: "refs_ok S [r]" and rest: "refs_ok (S \<union> introduces [r]) rs"
    using Cons.prems(1) refs_ok_append [of S "[r]" rs] by auto
  have v: "validateReferences (sort_props (record_json r)) (v_introduced st) = Inr (objectKey ` (S \<union> introduces [r]))"
    using validateReferences_record [of r S] first Cons.prems by simp
  have "x \<in> S \<union> introduces [r] \<Longrightarrow> plain_type x" for x
    using Cons.prems(2,3) by (cases r) auto
  note ih = Cons.IH [OF rest _ this]
  obtain st1 where l: "verify_line num n ctx (Some (record_line r)) (TextLine (record_line r)) st = Inr st1"
    and st1: "v_introduced st1 = objectKey ` (S \<union> introduces [r])" "v_lines st1 > 0"
    using v Cons.prems(5)
    by (simp add: verify_line_def record_line_def framed_canonical_line parse_canonical_line)
  show ?case using ih [of st1] st1 l Cons.prems(2) by simp
qed

lemma bundle_records_plain:
  "list_all plain_record (bundle_records root_bundle)" "list_all plain_record (bundle_records (account_bundle k))"
  "list_all plain_record (bundle_records (team_bundle k t))" "list_all plain_record (bundle_records (vpc_bundle k t))"
  "list_all plain_record (bundle_records (server_bundle k t))"
  by (simp_all add: root_bundle_def account_bundle_def team_bundle_def vpc_bundle_def server_bundle_def
      objectRecord_def relationshipRecord_def object_ref_def plain_type_def)

lemma bundles_of_plain: "list_all plain_record (bundles_records (bundles_of n))"
proof -
  have "list_all plain_record (bundle_records b)" if "b \<in> set (bundles_of n)" for b
    using that bundle_records_plain
    by (auto simp: bundles_of_def block_stream_def account_block_def dest!: in_set_takeD)
  then show ?thesis by (simp add: bundles_records_def list_all_iff)
qed

lemma stream_lines_records: "stream_lines bs = map record_line (bundles_records bs)"
  by (induction bs) (simp_all add: bundle_lines_def)

lemma header_json_props:
  "prop_of (header_json n ctx) ''kind'' = JStr ''fixture''"
  "prop_of (header_json n ctx) ''fixtureId'' = JStr ''eacl-demo-fixture-v1''"
  "prop_of (header_json n ctx) ''cutPointResources'' = JInt (int n)"
  "prop_of (header_json n ctx) ''schemaDigest'' = JStr (schemaDigest ctx)"
  "prop_of (header_json n ctx) ''exemplarDigest'' = JStr (exemplarDigest ctx)"
  "\<not> nullish (header_json n ctx)"
  by (simp_all add: header_json_def prop_of_def nullish_def)

lemma verify_loop_complete:
  assumes "valid_cut_point n"
  shows "\<exists>st. verify_loop num n ctx (fixture_lines ctx n) (map TextLine (fixture_lines ctx n)) verify_start = Inr ([], st)"
proof -
  have h: "canonical_ok (header_json n ctx)" using assms by (simp add: header_json_ok valid_cut_point_def)
  have "validateHeader (sort_props (header_json n ctx)) n ctx = Inr ()"
    by (simp add: validateHeader_def get_prop_def sort_props_not_nullish prop_of_sort_props h header_json_props)
  then obtain st where l: "verify_line num n ctx (Some (canonical_line (header_json n ctx)))
      (TextLine (canonical_line (header_json n ctx))) verify_start = Inr st"
    and st: "v_introduced st = {}" "v_lines st > 0"
    using h by (simp add: verify_line_def framed_canonical_line parse_canonical_line verify_start_def)
  obtain st' where "verify_loop num n ctx (map record_line (bundles_records (bundles_of n)))
      (map (\<lambda>r. TextLine (record_line r)) (bundles_records (bundles_of n))) st = Inr ([], st')"
    using verify_records [OF bundles_of_refs_ok bundles_of_plain, where st = st and num = num and n = n and ctx = ctx] st
    by auto
  with l show ?thesis by (simp add: fixture_lines_def stream_lines_records comp_def)
qed

lemma manifest_body_props:
  assumes "ds = manifest_digests m \<or> ds = manifest_digests m @ [(''manifest'', d)]"
  shows "prop_of (JObj (manifest_body m @ [(''digests'', JObj ds)])) ''schemaVersion'' = JInt 1"
    "prop_of (JObj (manifest_body m @ [(''digests'', JObj ds)])) ''fixtureId'' = JStr ''eacl-demo-fixture-v1''"
    "prop_of (prop_of (JObj (manifest_body m @ [(''digests'', JObj ds)])) ''cutPoint'') ''logicalResources'' = JInt (int (mf_cutPoint m))"
    "prop_of (prop_of (JObj (manifest_body m @ [(''digests'', JObj ds)])) ''algorithm'') ''generatorDigest'' = JStr (generatorDigest (mf_context m))"
    "prop_of (prop_of (JObj (manifest_body m @ [(''digests'', JObj ds)])) ''schema'') ''digest'' = JStr (schemaDigest (mf_context m))"
    "prop_of (prop_of (JObj (manifest_body m @ [(''digests'', JObj ds)])) ''exemplars'') ''digest'' = JStr (exemplarDigest (mf_context m))"
    "prop_of (JObj (manifest_body m @ [(''digests'', JObj ds)])) ''digests'' = JObj ds"
    "prop_of (JObj (manifest_body m @ [(''digests'', JObj ds)])) ''counts'' = finalizeCounts (mf_counts m)"
  by (simp_all add: manifest_body_def prop_of_def)

lemma manifest_identity_complete:
  assumes n: "n \<in> set CUT_POINTS"
  shows "validateManifestIdentity hash (manifest_json hash (manifest_of hash ctx n)) ctx = Inr ()"
proof -
  let ?m = "manifest_of hash ctx n"
  let ?ds = "manifest_digests ?m @ [(''manifest'', JStr (manifest_digest hash (manifest_payload ?m)))]"
  have "manifest_json hash ?m = JObj (manifest_body ?m @ [(''digests'', JObj ?ds)])"
    by (simp add: manifest_json_def)
  note props = manifest_body_props [of ?ds ?m "JStr (manifest_digest hash (manifest_payload ?m))", folded this, simplified]
  have c: "mf_cutPoint ?m = n" "mf_context ?m = ctx" by (simp_all add: manifest_of_def Let_def)
  have payload: "without_claim (manifest_json hash ?m) = Inr (manifest_payload ?m)"
  proof -
    have "filter (\<lambda>(k', _). k' \<noteq> ''manifest'') ?ds = manifest_digests ?m"
      by (simp add: manifest_digests_def)
    moreover have "map (\<lambda>(k, v). (k, if k = ''digests'' then drop_key ''manifest'' v else v)) (manifest_body ?m) = manifest_body ?m"
      by (simp add: manifest_body_def)
    ultimately show ?thesis
      using props(7) by (simp add: without_claim_def nullish_def) (simp add: manifest_json_def manifest_payload_def)
  qed
  have "canonical_text (manifest_payload ?m) = Inr (canonical_line (manifest_payload ?m))"
    using manifest_payload_ok [OF n, of hash ctx] by (simp add: canonical_text_def canonicalJson_ok canonical_line_def)
  moreover have "truthy (manifest_json hash ?m)" by (simp add: manifest_json_def)
  moreover have "prop_of (JObj ?ds) ''manifest'' = JStr (manifest_digest hash (manifest_payload ?m))"
    by (simp add: prop_of_def manifest_digests_def)
  ultimately show ?thesis
    using props payload c n by (simp add: validateManifestIdentity_def Let_def manifest_digest_def)
qed

text \<open>
  C6 Completeness of the verifier: the fixture that \<open>generateFixtureManifest\<close> emits for a
  published cut point, line by line, passes the verification against the manifest it returns,
  whatever the three file digests are. In particular the stream never repeats an object and
  never refers to one that has not been introduced.
\<close>

theorem verifier_accepts_generated:
  "case generateFixtureManifest hash ctx n of
     Inl _ \<Rightarrow> n \<notin> {10000, 1000000}
   | Inr (m, ls) \<Rightarrow>
       verifyFixtureLines hash num ctx (map TextLine ls) (manifest_json hash m)
         = Inr \<lparr>vr_cutPoint = n, vr_lines = length ls, vr_fixture = mf_fixture m, vr_semantic = mf_semanticRecords m,
                vr_manifest = JStr (manifest_digest hash (manifest_payload m))\<rparr>"
proof (cases "n \<in> set CUT_POINTS")
  case False
  then show ?thesis by (simp add: generateFixtureManifest_eq CUT_POINTS_def)
next
  case True
  let ?m = "manifest_of hash ctx n"
  let ?ds = "manifest_digests ?m @ [(''manifest'', JStr (manifest_digest hash (manifest_payload ?m)))]"
  have json: "manifest_json hash ?m = JObj (manifest_body ?m @ [(''digests'', JObj ?ds)])"
    by (simp add: manifest_json_def)
  note props = manifest_body_props [of ?ds ?m "JStr (manifest_digest hash (manifest_payload ?m))", folded json, simplified]
  have m: "mf_cutPoint ?m = n" "mf_counts ?m = all_counts (bundles_of n) emptyCounts"
    "mf_fixture ?m = ''sha256:'' @ hash (concat (fixture_lines ctx n))"
    "mf_semanticRecords ?m = ''sha256:'' @ hash (concat (tl (fixture_lines ctx n)))"
    by (simp_all add: manifest_of_def Let_def fixture_lines_def)
  obtain st where loop: "verify_loop num n ctx (fixture_lines ctx n) (map TextLine (fixture_lines ctx n)) verify_start = Inr ([], st)"
    using verify_loop_complete [OF cut_points_valid [OF True]] by blast
  from verify_loop_accepts [OF loop] have st: "v_fixture st = concat (fixture_lines ctx n)"
    "v_semantic st = concat (tl (fixture_lines ctx n))" "v_lines st = length (fixture_lines ctx n)"
    by (auto simp: verify_start_def)
  have ds: "prop_of (JObj ?ds) ''fixture'' = JStr (mf_fixture ?m)"
    "prop_of (JObj ?ds) ''semanticRecords'' = JStr (mf_semanticRecords ?m)"
    "prop_of (JObj ?ds) ''manifest'' = JStr (manifest_digest hash (manifest_payload ?m))"
    by (simp_all add: prop_of_def manifest_digests_def)
  have total: "prop_of (prop_of (finalizeCounts c) ''records'') ''total'' = JInt (int (c_records c))"
    "\<not> nullish (prop_of (finalizeCounts c) ''records'')" "\<not> nullish (finalizeCounts c)" for c
    by (simp_all add: finalizeCounts_def prop_of_def nullish_def)
  have len: "length (fixture_lines ctx n) = Suc (c_records (all_counts (bundles_of n) emptyCounts))"
    by (simp add: fixture_lines_def all_counts_fold emptyCounts_def)
  have "\<not> nullish (manifest_json hash ?m)" by (simp add: json nullish_def)
  then have "verifyFixtureLines hash num ctx (map TextLine (fixture_lines ctx n)) (manifest_json hash ?m)
      = Inr \<lparr>vr_cutPoint = n, vr_lines = length (fixture_lines ctx n), vr_fixture = mf_fixture ?m,
             vr_semantic = mf_semanticRecords ?m, vr_manifest = JStr (manifest_digest hash (manifest_payload ?m))\<rparr>"
    by (simp add: verifyFixtureLines_def manifest_identity_complete [OF True] props m(1) expectedLines_cut [OF True]
        loop st ds m(2-) total len get_prop_def Let_def)
  then show ?thesis
    using True by (simp add: generateFixtureManifest_eq cut_points_valid fixture_lines_def)
qed

end
