(* ===== verification/Exemplar_Evaluator.thy ===== *)
theory Exemplar_Evaluator
  imports Fixture_Verifier "HOL-Library.Product_Lexorder" "HOL-Library.Multiset"
begin

text \<open>
  \<open>packages/fixture-generator/exemplar-evaluator.mjs\<close>: the fixture indexed in memory and the
  reference evaluator of permissions over it, a recursive search that cuts cycles with the
  set of states on its path. The specification is \<open>granted\<close>, the least relation closed under
  the permission rules of \<open>fixtures/schema.v1.zed\<close>; the search decides exactly this relation.
\<close>

subsection \<open>The index\<close>

record logical_fixture =
  lf_objects :: "(string \<times> fixture_record) list"
  lf_resources :: "objref list"
  lf_subjects :: "objref list"
  lf_relationships :: "(string \<times> string list) list"

definition relationshipKey :: "objref \<Rightarrow> string \<Rightarrow> string" where
  "relationshipKey res rel = objectKey res @ ''#'' @ rel"

text \<open>\<open>slice(0, -1)\<close> and \<open>slice(0)\<close> are what a key without a colon is split into.\<close>

definition parseObjectKey :: "string \<Rightarrow> objref" where
  "parseObjectKey v =
     (if CHR '':'' \<in> set v
      then object_ref (takeWhile (\<lambda>c. c \<noteq> CHR '':'') v) (tl (dropWhile (\<lambda>c. c \<noteq> CHR '':'') v))
      else object_ref (butlast v) v)"

definition set_add :: "string \<Rightarrow> string list \<Rightarrow> string list" where
  "set_add x xs = (if x \<in> set xs then xs else xs @ [x])"

fun index_record :: "fixture_record \<Rightarrow> logical_fixture \<Rightarrow> logical_fixture" where
  "index_record (ObjectRecord r x) f =
     (let f1 = f\<lparr>lf_objects := AList.update (objectKey x) (ObjectRecord r x) (lf_objects f)\<rparr>
      in case r of
           SubjectRole \<Rightarrow> f1\<lparr>lf_subjects := lf_subjects f1 @ [x]\<rparr>
         | ResourceRole \<Rightarrow> f1\<lparr>lf_resources := lf_resources f1 @ [x]\<rparr>)"
| "index_record (RelationshipRecord rel res sub) f =
     (let indexKey = relationshipKey res rel;
          vs = (case map_of (lf_relationships f) indexKey of None \<Rightarrow> [] | Some vs \<Rightarrow> vs)
      in f\<lparr>lf_relationships := AList.update indexKey (set_add (objectKey sub) vs) (lf_relationships f)\<rparr>)"

definition empty_fixture :: logical_fixture where
  "empty_fixture = \<lparr>lf_objects = [], lf_resources = [], lf_subjects = [], lf_relationships = []\<rparr>"

definition buildLogicalFixture :: "nat \<Rightarrow> generator_error + logical_fixture" where
  "buildLogicalFixture cutPoint =
     bind_r (fixtureBundles cutPoint) (\<lambda>bs. Inr (fold index_record (concat (map bundle_records bs)) empty_fixture))"

definition related :: "logical_fixture \<Rightarrow> objref \<Rightarrow> string \<Rightarrow> string list" where
  "related f res rel =
     (case map_of (lf_relationships f) (relationshipKey res rel) of None \<Rightarrow> [] | Some vs \<Rightarrow> vs)"

definition hasRelationship :: "logical_fixture \<Rightarrow> objref \<Rightarrow> string \<Rightarrow> objref \<Rightarrow> bool" where
  "hasRelationship f sub rel res \<longleftrightarrow> objectKey sub \<in> set (related f res rel)"

subsection \<open>The search\<close>

definition direct :: "logical_fixture \<Rightarrow> string \<Rightarrow> objref \<Rightarrow> string \<Rightarrow> bool" where
  "direct f subjectKey res rel \<longleftrightarrow> subjectKey \<in> set (related f res rel)"

definition arrowRelation :: "logical_fixture \<Rightarrow> string \<Rightarrow> objref \<Rightarrow> string \<Rightarrow> string \<Rightarrow> bool" where
  "arrowRelation f subjectKey res via targetRelation \<longleftrightarrow>
     list_ex (\<lambda>t. direct f subjectKey (parseObjectKey t) targetRelation) (related f res via)"

definition arrowPermission :: "logical_fixture \<Rightarrow> (string \<Rightarrow> objref \<Rightarrow> bool) \<Rightarrow> objref \<Rightarrow> string \<Rightarrow> string \<Rightarrow> bool" where
  "arrowPermission f rec res via targetPermission \<longleftrightarrow>
     list_ex (\<lambda>t. rec targetPermission (parseObjectKey t)) (related f res via)"

text \<open>The switch; \<open>rec\<close> is the evaluator on the extended path.\<close>

definition permission_rule :: "logical_fixture \<Rightarrow> string \<Rightarrow> (string \<Rightarrow> objref \<Rightarrow> bool) \<Rightarrow> string \<Rightarrow> objref \<Rightarrow> bool" where
  "permission_rule f subjectKey rec permission res =
     (let key = otype res @ '':'' @ permission;
          dir = direct f subjectKey res;
          arrowRel = arrowRelation f subjectKey res;
          arrow = arrowPermission f rec res
      in if key = ''platform:view'' then dir ''super_admin''
         else if key = ''account:admin'' then
           dir ''owner'' \<or> arrow ''parent'' ''admin'' \<or> arrowRel ''platform'' ''super_admin''
         else if key = ''account:view'' then rec ''admin'' res \<or> arrow ''parent'' ''admin''
         else if key = ''team:admin'' then arrow ''account'' ''admin'' \<or> dir ''leader''
         else if key = ''team:view'' then rec ''admin'' res
         else if key = ''vpc:admin'' then arrow ''account'' ''admin'' \<or> dir ''shared_admin''
         else if key = ''vpc:view'' then rec ''admin'' res
         else if key = ''server:admin'' then arrow ''account'' ''admin'' \<or> dir ''shared_admin''
         else if key = ''server:view'' then
           rec ''admin'' res \<or> arrow ''parent'' ''view'' \<or> arrow ''account'' ''view''
           \<or> arrow ''team'' ''view'' \<or> arrow ''vpc'' ''view'' \<or> dir ''shared_admin''
         else False)"

definition eval_state :: "string \<Rightarrow> string \<Rightarrow> objref \<Rightarrow> string" where
  "eval_state subjectKey permission res = subjectKey @ ''|'' @ permission @ ''|'' @ objectKey res"

definition all_targets :: "logical_fixture \<Rightarrow> objref list" where
  "all_targets f = map parseObjectKey (concat (map snd (lf_relationships f)))"

text \<open>The states a search from \<open>res\<close> can put on its path.\<close>

definition eval_states :: "logical_fixture \<Rightarrow> string \<Rightarrow> objref \<Rightarrow> string set" where
  "eval_states f subjectKey res =
     (\<lambda>(p, r). eval_state subjectKey p r) ` ({''admin'', ''view''} \<times> set (res # all_targets f))"

lemma finite_eval_states: "finite (eval_states f subjectKey res)"
  by (simp add: eval_states_def)

lemma related_in_targets: "t \<in> set (related f res via) \<Longrightarrow> parseObjectKey t \<in> set (all_targets f)"
proof -
  assume t: "t \<in> set (related f res via)"
  then obtain vs where "map_of (lf_relationships f) (relationshipKey res via) = Some vs" "t \<in> set vs"
    unfolding related_def by (cases "map_of (lf_relationships f) (relationshipKey res via)") auto
  then have "t \<in> set (concat (map snd (lf_relationships f)))" by (force dest: map_of_SomeD)
  then show ?thesis by (simp add: all_targets_def)
qed

lemma key_split:
  assumes eq: "t @ CHR '':'' # p = a @ CHR '':'' # b" and "CHR '':'' \<notin> set a" and "CHR '':'' \<notin> set b"
  shows "t = a \<and> p = b"
proof -
  have "filter (\<lambda>c. c = CHR '':'') a = []" "filter (\<lambda>c. c = CHR '':'') b = []"
    using assms(2,3) by (auto simp: filter_empty_conv)
  then have "length (filter (\<lambda>c. c = CHR '':'') (t @ CHR '':'' # p)) = 1"
    unfolding eq by simp
  then have "CHR '':'' \<notin> set t" by (auto simp: filter_empty_conv)
  then have "takeWhile (\<lambda>c. c \<noteq> CHR '':'') (t @ CHR '':'' # p) = t" by (subst takeWhile_append2) auto
  moreover have "takeWhile (\<lambda>c. c \<noteq> CHR '':'') (a @ CHR '':'' # b) = a"
    using assms(2) by (subst takeWhile_append2) auto
  ultimately have "t = a" using eq by metis
  with eq show ?thesis by simp
qed

lemma rule_keys:
  "t @ '':'' @ p = ''platform:view'' \<longleftrightarrow> t = ''platform'' \<and> p = ''view''"
  "t @ '':'' @ p = ''account:admin'' \<longleftrightarrow> t = ''account'' \<and> p = ''admin''"
  "t @ '':'' @ p = ''account:view'' \<longleftrightarrow> t = ''account'' \<and> p = ''view''"
  "t @ '':'' @ p = ''team:admin'' \<longleftrightarrow> t = ''team'' \<and> p = ''admin''"
  "t @ '':'' @ p = ''team:view'' \<longleftrightarrow> t = ''team'' \<and> p = ''view''"
  "t @ '':'' @ p = ''vpc:admin'' \<longleftrightarrow> t = ''vpc'' \<and> p = ''admin''"
  "t @ '':'' @ p = ''vpc:view'' \<longleftrightarrow> t = ''vpc'' \<and> p = ''view''"
  "t @ '':'' @ p = ''server:admin'' \<longleftrightarrow> t = ''server'' \<and> p = ''admin''"
  "t @ '':'' @ p = ''server:view'' \<longleftrightarrow> t = ''server'' \<and> p = ''view''"
  using key_split [of t p "''platform''" "''view''"] key_split [of t p "''account''" "''admin''"]
    key_split [of t p "''account''" "''view''"] key_split [of t p "''team''" "''admin''"]
    key_split [of t p "''team''" "''view''"] key_split [of t p "''vpc''" "''admin''"]
    key_split [of t p "''vpc''" "''view''"] key_split [of t p "''server''" "''admin''"]
    key_split [of t p "''server''" "''view''"]
  by auto

lemma permission_rule_cong [fundef_cong]:
  assumes "f = f'" and "s = s'" and "p = p'" and "r = r'"
    and "\<And>q t. p' \<in> {''admin'', ''view''} \<Longrightarrow> q \<in> {''admin'', ''view''} \<Longrightarrow> t \<in> set (r' # all_targets f') \<Longrightarrow>
      rec q t = rec' q t"
  shows "permission_rule f s rec p r = permission_rule f' s' rec' p' r'"
proof -
  have self: "p' \<in> {''admin'', ''view''} \<Longrightarrow> rec ''admin'' r' = rec' ''admin'' r'" using assms(5) by simp
  have arrow: "arrowPermission f' rec r' via q = arrowPermission f' rec' r' via q"
    if "p' \<in> {''admin'', ''view''}" "q \<in> {''admin'', ''view''}" for via q
    unfolding arrowPermission_def
  proof (rule list_ex_cong [OF refl])
    fix t assume "t \<in> set (related f' r' via)"
    then have "parseObjectKey t \<in> set (r' # all_targets f')" using related_in_targets by simp
    with assms(5) [OF that] show "rec q (parseObjectKey t) = rec' q (parseObjectKey t)" by blast
  qed
  show ?thesis
  proof (cases "p' \<in> {''admin'', ''view''}")
    case True
    have a: "arrowPermission f' rec r' via ''admin'' = arrowPermission f' rec' r' via ''admin''"
      "arrowPermission f' rec r' via ''view'' = arrowPermission f' rec' r' via ''view''" for via
      using arrow [OF True] by blast+
    show ?thesis by (simp only: assms(1-4) permission_rule_def Let_def self [OF True] a)
  next
    case False
    then have "p' \<noteq> ''admin''" "p' \<noteq> ''view''" by blast+
    then show ?thesis
      by (simp only: assms(1-4) permission_rule_def rule_keys Let_def if_False simp_thms)
  qed
qed

lemma eval_states_target: "t \<in> set (r # all_targets f) \<Longrightarrow> eval_states f s t \<subseteq> eval_states f s r"
  by (auto simp: eval_states_def)

function evaluate :: "logical_fixture \<Rightarrow> string \<Rightarrow> string \<Rightarrow> objref \<Rightarrow> string set \<Rightarrow> bool" where
  "evaluate f subjectKey permission res path =
     (let state = eval_state subjectKey permission res in
      if state \<in> path then False
      else permission_rule f subjectKey (\<lambda>p r. evaluate f subjectKey p r (insert state path)) permission res)"
  by pat_completeness auto

termination
proof (relation "measure (\<lambda>(f, s, p, r, path). card (eval_states f s r - path))", simp)
  fix f s p r path state q t
  assume st: "state = eval_state s p r" "state \<notin> path" and p: "p \<in> {''admin'', ''view''}"
    and t: "t \<in> set (r # all_targets f)"
  have "state \<in> eval_states f s r - path" using st p by (auto simp: eval_states_def)
  moreover have "eval_states f s t - insert state path \<subseteq> eval_states f s r - path - {state}"
    using eval_states_target [OF t, of s] by auto
  ultimately have "eval_states f s t - insert state path \<subset> eval_states f s r - path" by blast
  then have "card (eval_states f s t - insert state path) < card (eval_states f s r - path)"
    by (intro psubset_card_mono) (simp_all add: finite_eval_states)
  then show "((f, s, q, t, insert state path), f, s, p, r, path) \<in> measure (\<lambda>(f, s, p, r, path). card (eval_states f s r - path))"
    by simp
qed

declare evaluate.simps [simp del]

definition checkPermission :: "logical_fixture \<Rightarrow> objref \<Rightarrow> string \<Rightarrow> objref \<Rightarrow> bool" where
  "checkPermission f subject permission res \<longleftrightarrow>
     map_of (lf_objects f) (objectKey subject) \<noteq> None \<and> map_of (lf_objects f) (objectKey res) \<noteq> None
     \<and> evaluate f (objectKey subject) permission res {}"

text \<open>\<open>compareObjects\<close>, on names of lower-case letters, digits and dashes.\<close>

record lookup_query =
  q_subject :: objref
  q_permission :: string
  q_resourceType :: string
  q_filter :: "(string \<times> objref) option"

definition sort_objects :: "objref list \<Rightarrow> objref list" where
  "sort_objects = sort_key (\<lambda>x. (otype x, oid x))"

definition lookupResources :: "logical_fixture \<Rightarrow> lookup_query \<Rightarrow> objref list" where
  "lookupResources f q =
     sort_objects (filter (\<lambda>res. otype res = q_resourceType q
        \<and> (case q_filter q of None \<Rightarrow> True | Some (rel, sub) \<Rightarrow> objectKey sub \<in> set (related f res rel))
        \<and> checkPermission f (q_subject q) (q_permission q) res) (lf_resources f))"

definition lookupSubjects :: "logical_fixture \<Rightarrow> string \<Rightarrow> string \<Rightarrow> objref \<Rightarrow> objref list" where
  "lookupSubjects f subjectType permission res =
     sort_objects (filter (\<lambda>sub. checkPermission f sub permission res)
       (filter (\<lambda>sub. otype sub = subjectType) (lf_subjects f)))"

subsection \<open>The permission rules of the schema\<close>

text \<open>
  \<open>granted f s p r\<close>: subject key \<open>s\<close> has permission \<open>p\<close> on \<open>r\<close>, one clause for each term of a
  permission in the schema.
\<close>

inductive granted :: "logical_fixture \<Rightarrow> string \<Rightarrow> string \<Rightarrow> objref \<Rightarrow> bool" for f s where
  platform_view: "otype r = ''platform'' \<Longrightarrow> s \<in> set (related f r ''super_admin'') \<Longrightarrow> granted f s ''view'' r"
| account_owner: "otype r = ''account'' \<Longrightarrow> s \<in> set (related f r ''owner'') \<Longrightarrow> granted f s ''admin'' r"
| account_parent: "otype r = ''account'' \<Longrightarrow> t \<in> set (related f r ''parent'') \<Longrightarrow>
    granted f s ''admin'' (parseObjectKey t) \<Longrightarrow> granted f s ''admin'' r"
| account_platform: "otype r = ''account'' \<Longrightarrow> t \<in> set (related f r ''platform'') \<Longrightarrow>
    s \<in> set (related f (parseObjectKey t) ''super_admin'') \<Longrightarrow> granted f s ''admin'' r"
| account_view: "otype r = ''account'' \<Longrightarrow> granted f s ''admin'' r \<Longrightarrow> granted f s ''view'' r"
| account_parent_view: "otype r = ''account'' \<Longrightarrow> t \<in> set (related f r ''parent'') \<Longrightarrow>
    granted f s ''admin'' (parseObjectKey t) \<Longrightarrow> granted f s ''view'' r"
| account_arrow: "otype r \<in> {''team'', ''vpc'', ''server''} \<Longrightarrow> t \<in> set (related f r ''account'') \<Longrightarrow>
    granted f s ''admin'' (parseObjectKey t) \<Longrightarrow> granted f s ''admin'' r"
| team_leader: "otype r = ''team'' \<Longrightarrow> s \<in> set (related f r ''leader'') \<Longrightarrow> granted f s ''admin'' r"
| shared_admin: "otype r \<in> {''vpc'', ''server''} \<Longrightarrow> s \<in> set (related f r ''shared_admin'') \<Longrightarrow>
    granted f s ''admin'' r"
| admin_view: "otype r \<in> {''team'', ''vpc'', ''server''} \<Longrightarrow> granted f s ''admin'' r \<Longrightarrow> granted f s ''view'' r"
| server_arrow: "otype r = ''server'' \<Longrightarrow> via \<in> {''parent'', ''account'', ''team'', ''vpc''} \<Longrightarrow>
    t \<in> set (related f r via) \<Longrightarrow> granted f s ''view'' (parseObjectKey t) \<Longrightarrow> granted f s ''view'' r"
| server_shared: "otype r = ''server'' \<Longrightarrow> s \<in> set (related f r ''shared_admin'') \<Longrightarrow> granted f s ''view'' r"

inductive_cases granted_viewE: "granted f s ''view'' r"
inductive_cases granted_adminE: "granted f s ''admin'' r"

lemma granted_sound: "permission_rule f s (granted f s) p r \<Longrightarrow> granted f s p r"
  unfolding permission_rule_def rule_keys Let_def
  by (auto simp: direct_def arrowRelation_def arrowPermission_def list_ex_iff split: if_splits intro: granted.intros)

subsection \<open>The search decides the rules\<close>

lemma arrowPermission_mono:
  "arrowPermission f rec r via q \<Longrightarrow> (\<And>q t. rec q t \<Longrightarrow> rec' q t) \<Longrightarrow> arrowPermission f rec' r via q"
  by (auto simp: arrowPermission_def list_ex_iff)

lemma if_bool_mono: "if c then a else b \<Longrightarrow> (a \<Longrightarrow> a') \<Longrightarrow> (b \<Longrightarrow> b') \<Longrightarrow> if c then a' else b'"
  by (simp split: if_splits)

lemma permission_rule_mono:
  assumes "permission_rule f s rec p r" and "\<And>q t. rec q t \<Longrightarrow> rec' q t"
  shows "permission_rule f s rec' p r"
proof -
  note m = arrowPermission_mono [where rec = rec and rec' = rec', OF _ assms(2)]
  show ?thesis
    using assms(1) unfolding permission_rule_def Let_def
    by (elim if_bool_mono) (use m assms(2) in blast)+
qed

lemma evaluate_sound: "evaluate f s p r path \<Longrightarrow> granted f s p r"
proof (induction f s p r path rule: evaluate.induct)
  case (1 f s p r path)
  let ?state = "eval_state s p r"
  have n: "?state \<notin> path" and e: "permission_rule f s (\<lambda>p r. evaluate f s p r (insert ?state path)) p r"
    using "1.prems" by (simp_all add: evaluate.simps [of f s p r path] Let_def split: if_splits)
  have "permission_rule f s (\<lambda>q t. evaluate f s q t (insert ?state path)) p r
      = permission_rule f s (\<lambda>q t. evaluate f s q t (insert ?state path) \<and> granted f s q t) p r"
    by (rule permission_rule_cong [OF refl refl refl refl]) (use "1.IH" [OF refl n] in blast)
  with e have "permission_rule f s (granted f s) p r"
    by (auto elim: permission_rule_mono)
  then show ?case by (rule granted_sound)
qed

primrec stage :: "logical_fixture \<Rightarrow> string \<Rightarrow> nat \<Rightarrow> string \<Rightarrow> objref \<Rightarrow> bool" where
  "stage f s 0 p r = False"
| "stage f s (Suc n) p r = permission_rule f s (stage f s n) p r"

lemma stage_Suc: "stage f s n p r \<Longrightarrow> stage f s (Suc n) p r"
  by (induction n arbitrary: p r) (auto elim: permission_rule_mono)

lemma stage_mono: "m \<le> n \<Longrightarrow> stage f s m p r \<Longrightarrow> stage f s n p r"
  by (induction n rule: nat_induct_at_least) (auto intro: stage_Suc simp del: stage.simps)

lemma permission_rule_shape: "permission_rule f s rec p r \<Longrightarrow> p \<in> {''admin'', ''view''} \<and> plain_type r"
  unfolding permission_rule_def Let_def rule_keys by (auto simp: plain_type_def split: if_splits)

lemma stage_shape: "stage f s n p r \<Longrightarrow> p \<in> {''admin'', ''view''} \<and> plain_type r"
  by (cases n) (auto dest: permission_rule_shape)

lemma permission_rule_limit:
  assumes "permission_rule f s (\<lambda>q t. \<exists>n. stage f s n q t) p r"
  shows "\<exists>n. stage f s n p r"
proof -
  define rank where "rank = (\<lambda>(q, t). LEAST n. stage f s n q t)"
  define N where "N = Max (rank ` ({''admin'', ''view''} \<times> set (r # all_targets f)))"
  have "(\<exists>n. stage f s n q t) = stage f s N q t"
    if "q \<in> {''admin'', ''view''}" "t \<in> set (r # all_targets f)" for q t
  proof
    assume "\<exists>n. stage f s n q t"
    then have "stage f s (rank (q, t)) q t" unfolding rank_def prod.case by (rule LeastI_ex)
    moreover have "rank (q, t) \<le> N" unfolding N_def using that by (intro Max_ge) auto
    ultimately show "stage f s N q t" by (blast intro: stage_mono)
  qed blast
  then have "permission_rule f s (\<lambda>q t. \<exists>n. stage f s n q t) p r = permission_rule f s (stage f s N) p r"
    by (intro permission_rule_cong) auto
  with assms have "stage f s (Suc N) p r" by simp
  then show ?thesis by blast
qed

lemma granted_stage: "granted f s p r \<Longrightarrow> \<exists>n. stage f s n p r"
  by (induction rule: granted.induct; rule permission_rule_limit)
    (auto simp: permission_rule_def Let_def direct_def arrowRelation_def arrowPermission_def list_ex_iff
      simp del: stage.simps)

lemma eval_state_inj:
  assumes "stage f s n p r" and "stage f s m q t" and "eval_state s p r = eval_state s q t"
  shows "p = q \<and> r = t"
proof -
  have "p \<in> {''admin'', ''view''}" "q \<in> {''admin'', ''view''}" "plain_type r" "plain_type t"
    using assms(1,2) stage_shape by blast+
  moreover from this assms(3) have "p = q" "objectKey r = objectKey t" by (auto simp: eval_state_def)
  ultimately show ?thesis using objectKey_inj by blast
qed

lemma evaluate_complete:
  "stage f s n p r \<Longrightarrow> (\<And>m. m < n \<Longrightarrow> \<not> stage f s m p r) \<Longrightarrow>
   (\<And>q t. eval_state s q t \<in> path \<Longrightarrow> \<not> stage f s n q t) \<Longrightarrow> evaluate f s p r path"
proof (induction n arbitrary: p r path rule: less_induct)
  case (less n)
  let ?state = "eval_state s p r"
  obtain k where k: "n = Suc k" using less.prems(1) by (cases n) auto
  have n: "?state \<notin> path" using less.prems(1,3) by blast
  have sub: "evaluate f s q t (insert ?state path)" if "stage f s k q t" for q t
  proof -
    define m where "m = (LEAST m. stage f s m q t)"
    have m: "stage f s m q t" "m \<le> k" unfolding m_def by (rule LeastI, rule that, rule Least_le, rule that)
    show ?thesis
    proof (rule less.IH)
      show "m < n" using m k by simp
      show "stage f s m q t" by (rule m)
      show "\<not> stage f s l q t" if "l < m" for l using that unfolding m_def by (rule not_less_Least)
      show "\<not> stage f s m q' t'" if "eval_state s q' t' \<in> insert ?state path" for q' t'
      proof
        assume a: "stage f s m q' t'"
        then have "stage f s n q' t'" using \<open>m < n\<close> by (intro stage_mono [of m n]) simp_all
        then have "eval_state s q' t' = ?state" using that less.prems(3) by blast
        then have "q' = p" "t' = r" using eval_state_inj [OF a less.prems(1)] by blast+
        with a less.prems(2) [of m] \<open>m < n\<close> show False by blast
      qed
    qed
  qed
  have "permission_rule f s (\<lambda>p r. evaluate f s p r (insert ?state path)) p r"
    using less.prems(1) unfolding k by (auto elim!: permission_rule_mono intro: sub)
  with n show ?case by (simp add: evaluate.simps [of f s p r path] Let_def)
qed

lemma evaluate_granted: "evaluate f s p r {} \<longleftrightarrow> granted f s p r"
proof
  assume "granted f s p r"
  then have "\<exists>n. stage f s n p r" by (rule granted_stage)
  then have "stage f s (LEAST n. stage f s n p r) p r" by (rule LeastI_ex)
  then show "evaluate f s p r {}"
    by (rule evaluate_complete) (auto dest: not_less_Least simp del: stage.simps)
qed (rule evaluate_sound)

subsection \<open>The index holds the stream\<close>

fun resources_of :: "fixture_record list \<Rightarrow> objref list" where
  "resources_of (ObjectRecord ResourceRole x # rs) = x # resources_of rs"
| "resources_of (_ # rs) = resources_of rs"
| "resources_of [] = []"

fun subjects_of :: "fixture_record list \<Rightarrow> objref list" where
  "subjects_of (ObjectRecord SubjectRole x # rs) = x # subjects_of rs"
| "subjects_of (_ # rs) = subjects_of rs"
| "subjects_of [] = []"

lemma index_lists:
  "lf_resources (fold index_record rs f) = lf_resources f @ resources_of rs"
  "lf_subjects (fold index_record rs f) = lf_subjects f @ subjects_of rs"
proof (induction rs arbitrary: f)
  case (Cons r rs)
  case 1 show ?case using Cons by (cases "r # rs" rule: resources_of.cases) (auto simp: Let_def)
  case 2 show ?case using Cons by (cases "r # rs" rule: subjects_of.cases) (auto simp: Let_def)
qed simp_all

lemma index_objects:
  "map_of (lf_objects (fold index_record rs f)) k \<noteq> None
     \<longleftrightarrow> map_of (lf_objects f) k \<noteq> None \<or> k \<in> objectKey ` introduces rs"
proof (induction rs arbitrary: f)
  case (Cons r rs)
  then show ?case by (cases r) (auto simp: Let_def update_conv' split: role.splits if_splits)
qed simp

fun relates :: "fixture_record list \<Rightarrow> string \<Rightarrow> string \<Rightarrow> bool" where
  "relates (RelationshipRecord rel res sub # rs) key sk =
     (relationshipKey res rel = key \<and> objectKey sub = sk \<or> relates rs key sk)"
| "relates (_ # rs) key sk = relates rs key sk"
| "relates [] key sk = False"

lemma index_related:
  "sk \<in> set (related (fold index_record rs f) res rel)
     \<longleftrightarrow> sk \<in> set (related f res rel) \<or> relates rs (relationshipKey res rel) sk"
proof (induction rs arbitrary: f)
  case (Cons r rs)
  show ?case
  proof (cases r)
    case (ObjectRecord ro x)
    then show ?thesis using Cons by (auto simp: Let_def related_def split: role.splits)
  next
    case (RelationshipRecord l y z)
    have "sk \<in> set (related (index_record r f) res rel) \<longleftrightarrow>
        sk \<in> set (related f res rel) \<or> relationshipKey y l = relationshipKey res rel \<and> objectKey z = sk"
      by (auto simp: RelationshipRecord related_def update_conv' set_add_def Let_def split: option.splits)
    with Cons [of "index_record r f"] show ?thesis by (auto simp: RelationshipRecord simp del: index_record.simps)
  qed
qed simp

text \<open>
  \<open>buildLogicalFixture\<close> indexes exactly the stream: the resources and the subjects in
  stream order, every introduced object and no other, and under the key of a resource and a
  relation exactly the subjects some relationship record of the stream gives it.
\<close>

theorem logical_fixture_indexes_stream:
  "case buildLogicalFixture n of
     Inl _ \<Rightarrow> \<not> valid_cut_point n
   | Inr f \<Rightarrow> valid_cut_point n \<and>
       lf_resources f = resources_of (bundles_records (bundles_of n)) \<and>
       lf_subjects f = subjects_of (bundles_records (bundles_of n)) \<and>
       (\<forall>k. map_of (lf_objects f) k \<noteq> None \<longleftrightarrow> k \<in> objectKey ` introduces (bundles_records (bundles_of n))) \<and>
       (\<forall>sub rel res. hasRelationship f sub rel res \<longleftrightarrow>
          relates (bundles_records (bundles_of n)) (relationshipKey res rel) (objectKey sub))"
proof (cases "valid_cut_point n")
  case True
  have e: "related empty_fixture res rel = []" for res rel by (simp add: related_def empty_fixture_def)
  show ?thesis
    using index_objects [of "bundles_records (bundles_of n)" empty_fixture]
    by (simp add: True buildLogicalFixture_def fixtureBundles_valid bundles_records_def [symmetric] index_lists
        hasRelationship_def index_related e) (simp add: empty_fixture_def)
qed (simp add: buildLogicalFixture_def fixtureBundles_not_valid)

text \<open>
  C7 \<open>checkPermission\<close> decides the permission rules of the schema: it answers true exactly
  when both objects are known and the permission is derivable by the rules from the
  relationships, however cyclic they are; cutting the search at a state already on the path
  never loses a derivation.
\<close>

theorem checkPermission_decides_schema:
  "checkPermission f subject permission res \<longleftrightarrow>
     map_of (lf_objects f) (objectKey subject) \<noteq> None \<and> map_of (lf_objects f) (objectKey res) \<noteq> None
     \<and> granted f (objectKey subject) permission res"
  by (simp add: checkPermission_def evaluate_granted)

definition may :: "logical_fixture \<Rightarrow> objref \<Rightarrow> string \<Rightarrow> objref \<Rightarrow> bool" where
  "may f sub p res \<longleftrightarrow> map_of (lf_objects f) (objectKey sub) \<noteq> None \<and> map_of (lf_objects f) (objectKey res) \<noteq> None
     \<and> granted f (objectKey sub) p res"

lemma checkPermission_may: "checkPermission f sub p res = may f sub p res"
  by (simp add: checkPermission_def evaluate_granted may_def)

text \<open>
  C8 Discovery is exact: \<open>lookupResources\<close> returns, sorted by type and identifier and each as
  often as the fixture lists it, precisely the resources of the type that pass the
  relationship filter and on which the subject has the permission; \<open>lookupSubjects\<close> returns
  precisely the subjects of the type that have it.
\<close>

theorem lookups_exact:
  "mset (lookupResources f q) = filter_mset (\<lambda>res. otype res = q_resourceType q
      \<and> (case q_filter q of None \<Rightarrow> True | Some (rel, sub) \<Rightarrow> hasRelationship f sub rel res)
      \<and> may f (q_subject q) (q_permission q) res) (mset (lf_resources f))
   \<and> mset (lookupSubjects f t p r) = filter_mset (\<lambda>sub. otype sub = t \<and> may f sub p r) (mset (lf_subjects f))
   \<and> sorted (map (\<lambda>x. (otype x, oid x)) (lookupResources f q))
   \<and> sorted (map (\<lambda>x. (otype x, oid x)) (lookupSubjects f t p r))"
  unfolding hasRelationship_def
  by (simp add: lookupResources_def lookupSubjects_def sort_objects_def checkPermission_may
      mset_filter filter_filter_mset conj_commute)

end
