(* ===== verification/Profile_Controller.thy ===== *)
theory Profile_Controller
  imports Machine Js
begin

text \<open>
  \<open>packages/explorer-state/src/profile-controller.mjs\<close>: switching between profiles while answers
  of earlier profiles are still under way. Every call of \<open>switchProfile\<close>, \<open>request\<close> and
  \<open>close\<close> is a task; an event is the part of the code between two awaits. A transport is named
  by the task that created it, as is its abort controller.
\<close>

subsection \<open>Checks\<close>

definition assertDescriptorIdentity :: "jsval \<Rightarrow> jsval \<Rightarrow> js_error + jsval" where
  "assertDescriptorIdentity profile descriptor =
     (let actual = prop_of descriptor ''identity''; expected = prop_of profile ''deployment''; dp = prop_of descriptor ''profile'' in
      throw_if (\<not> truthy actual \<or> \<not> strict_eq (prop_of actual ''profileId'') (prop_of profile ''id''))
        (Error ''descriptor profile identity mismatch'')
      (throw_if (truthy dp \<and> (\<not> strict_eq (prop_of dp ''backend'') (prop_of profile ''backend'')
          \<or> \<not> strict_eq (prop_of dp ''storage'') (prop_of profile ''storage'')))
        (Error ''descriptor backend/storage mapping mismatch'')
      (throw_if (\<not> truthy expected \<or> \<not> list_all (\<lambda>f. strict_eq (prop_of actual f) (prop_of expected f)) [''demoSha'', ''eaclSha''])
        (Error ''descriptor deployment identity mismatch'')
      (bind_r (get_r (prop_of expected ''artifact'') ''sha256'') (\<lambda>artifact.
       throw_if (\<not> strict_eq (prop_of actual ''artifactSha256'') artifact
           \<or> \<not> list_all (\<lambda>f. strict_eq (prop_of actual f) (prop_of expected f)) [''deploymentId'', ''dataManifestSha256''])
         (Error ''descriptor deployment identity mismatch'') (Inr descriptor))))))"

definition validateEnabledProfile :: "jsval \<Rightarrow> js_error + unit" where
  "validateEnabledProfile profile =
     throw_if (\<not> truthy profile \<or> prop_of profile ''state'' \<noteq> JStr ''enabled'' \<or> \<not> truthy (prop_of profile ''deployment''))
       (error_of (nullish_or (prop_of profile ''reason'') (JStr ''profile is not enabled''))) (Inr ())"

definition sanitizePortableIntent :: "jsval \<Rightarrow> jsval" where
  "sanitizePortableIntent intent =
     JObj (map (\<lambda>k. (k, prop_of intent k))
       (filter (\<lambda>k. str_satisfies (\<lambda>s. length s \<le> 256) (prop_of intent k))
         [''subject'', ''resourceType'', ''resourceId'', ''permission'', ''relation'', ''view'']))"

subsection \<open>State\<close>

datatype status = Idle | Switching | Ready_Status | Error_Status | Closed

record view =
  view_epoch :: nat
  status :: status
  profileId :: jsval
  page :: int
  cursor :: jsval
  basis :: jsval
  pages :: "jsval list"
  cache :: jsval
  error :: "js_error option"
  descriptor :: jsval
  portableIntent :: jsval

definition initialState :: view where
  "initialState = \<lparr>view_epoch = 0, status = Idle, profileId = JNull, page = 1, cursor = JNull, basis = JNull,
     pages = [], cache = JNull, error = None, descriptor = JNull, portableIntent = JObj []\<rparr>"

datatype outcome =
    Stale
  | Ready jsval
  | Success jsval
  | Done
  | Rejected js_error

datatype task_phase =
    Releasing
  | Bootstrapping
  | Dropping_Stale bool
  | Dropping_Failed js_error
  | Release_Failed js_error
  | Requesting nat
  | Closing
  | Settled outcome

record task =
  task_epoch :: nat
  task_profile :: jsval
  task_aborted :: bool
  task_phase :: task_phase

record controller =
  epoch :: nat
  lifecycle :: "nat option"
  view :: view
  released :: "nat list"
  tasks :: "task list"

definition start_controller :: controller where
  "start_controller = \<lparr>epoch = 0, lifecycle = None, view = initialState, released = [], tasks = []\<rparr>"

subsection \<open>Steps\<close>

datatype controller_event =
    Switch jsval jsval
  | Release_Settles nat "js_error option"
  | Factory_Throws nat js_error
  | Bootstrap_Settles nat "js_error + jsval"
  | Request
  | Request_Settles nat "js_error + jsval"
  | Close

text \<open>\<open>release\<close> reaches a transport once: it is marked before its \<open>release\<close> is awaited.\<close>

definition mark_released :: "nat option \<Rightarrow> nat list \<Rightarrow> nat list" where
  "mark_released t rel = (case t of None \<Rightarrow> rel | Some k \<Rightarrow> if k \<in> set rel then rel else rel @ [k])"

definition set_phase :: "nat \<Rightarrow> task_phase \<Rightarrow> task list \<Rightarrow> task list" where
  "set_phase i p ts = ts[i := (ts ! i)\<lparr>task_phase := p\<rparr>]"

definition abort_task :: "nat option \<Rightarrow> task list \<Rightarrow> task list" where
  "abort_task t ts = (case t of None \<Rightarrow> ts | Some k \<Rightarrow> ts[k := (ts ! k)\<lparr>task_aborted := True\<rparr>])"

definition switchProfile :: "jsval \<Rightarrow> jsval \<Rightarrow> controller \<Rightarrow> controller" where
  "switchProfile profile intent c =
     (case validateEnabledProfile profile of
        Inl e \<Rightarrow> c\<lparr>tasks := tasks c @ [\<lparr>task_epoch = epoch c, task_profile = profile, task_aborted = False,
            task_phase = Settled (Rejected e)\<rparr>]\<rparr>
      | Inr _ \<Rightarrow>
          c\<lparr>epoch := epoch c + 1, lifecycle := None,
            view := (view c)\<lparr>view_epoch := epoch c + 1, status := Switching, profileId := prop_of profile ''id'', page := 1,
              cursor := JNull, basis := JNull, pages := [], cache := JNull, error := None,
              portableIntent := sanitizePortableIntent intent\<rparr>,
            released := mark_released (lifecycle c) (released c),
            tasks := abort_task (lifecycle c) (tasks c) @ [\<lparr>task_epoch = epoch c + 1, task_profile = profile,
              task_aborted = False, task_phase = Releasing\<rparr>]\<rparr>)"

text \<open>
  After an awaited \<open>release\<close>: of the previous transport, of a stale one, of a failed one, of the
  closed one. The release of a stale transport whose bootstrap resolved is awaited inside the \<open>try\<close>:
  when it rejects, the \<open>catch\<close> finds the switch still stale and its transport already released, and
  answers \<open>stale\<close>. When the bootstrap rejected, the release is awaited in the \<open>catch\<close> and its
  rejection is the call's.
\<close>

definition release_settles :: "nat \<Rightarrow> js_error option \<Rightarrow> controller \<Rightarrow> controller option" where
  "release_settles i failure c =
     (let t = tasks c ! i in
      case (task_phase t, failure) of
        (Releasing, Some e) \<Rightarrow> Some (c\<lparr>tasks := set_phase i (Settled (Rejected e)) (tasks c)\<rparr>)
      | (Dropping_Stale resolved, Some e) \<Rightarrow> Some (c\<lparr>tasks := set_phase i (Settled (if resolved then Stale else Rejected e)) (tasks c)\<rparr>)
      | (Dropping_Failed _, Some e) \<Rightarrow> Some (c\<lparr>tasks := set_phase i (Release_Failed e) (tasks c)\<rparr>)
      | (Closing, Some e) \<Rightarrow> Some (c\<lparr>tasks := set_phase i (Settled (Rejected e)) (tasks c)\<rparr>)
      | (Releasing, None) \<Rightarrow>
          if task_epoch t \<noteq> epoch c then Some (c\<lparr>tasks := set_phase i (Settled Stale) (tasks c)\<rparr>)
          else Some (c\<lparr>lifecycle := Some i, tasks := set_phase i Bootstrapping (tasks c)\<rparr>)
      | (Dropping_Stale _, None) \<Rightarrow> Some (c\<lparr>tasks := set_phase i (Settled Stale) (tasks c)\<rparr>)
      | (Dropping_Failed e, None) \<Rightarrow>
          Some (c\<lparr>lifecycle := None, view := (view c)\<lparr>status := Error_Status, descriptor := JNull, error := Some e\<rparr>,
            tasks := set_phase i (Settled (Rejected e)) (tasks c)\<rparr>)
      | (Closing, None) \<Rightarrow>
          Some (c\<lparr>view := initialState\<lparr>view_epoch := epoch c, status := Closed\<rparr>,
            tasks := set_phase i (Settled Done) (tasks c)\<rparr>)
      | _ \<Rightarrow> None)"

definition factory_throws :: "nat \<Rightarrow> js_error \<Rightarrow> controller \<Rightarrow> controller option" where
  "factory_throws i e c =
     (if task_phase (tasks c ! i) = Releasing \<and> task_epoch (tasks c ! i) = epoch c
      then Some (c\<lparr>tasks := set_phase i (Settled (Rejected e)) (tasks c)\<rparr>) else None)"

definition bootstrap_settles :: "nat \<Rightarrow> js_error + jsval \<Rightarrow> controller \<Rightarrow> controller option" where
  "bootstrap_settles i answer c =
     (let t = tasks c ! i in
      if task_phase t \<noteq> Bootstrapping then None
      else if task_aborted t \<or> task_epoch t \<noteq> epoch c then
        Some (c\<lparr>released := mark_released (Some i) (released c), tasks := set_phase i (Dropping_Stale (\<not> isl answer)) (tasks c)\<rparr>)
      else (case bind_r answer (assertDescriptorIdentity (task_profile t)) of
         Inr d \<Rightarrow> Some (c\<lparr>view := (view c)\<lparr>status := Ready_Status, descriptor := d\<rparr>, tasks := set_phase i (Settled (Ready d)) (tasks c)\<rparr>)
       | Inl e \<Rightarrow>
           Some (c\<lparr>released := mark_released (Some i) (released c), tasks := set_phase i (Dropping_Failed e) (tasks c)\<rparr>)))"

definition request :: "controller \<Rightarrow> controller" where
  "request c =
     (case lifecycle c of
        Some k \<Rightarrow>
          if status (view c) = Ready_Status then
            c\<lparr>tasks := tasks c @ [\<lparr>task_epoch = task_epoch (tasks c ! k), task_profile = JNull, task_aborted = False,
                task_phase = Requesting k\<rparr>]\<rparr>
          else c\<lparr>tasks := tasks c @ [\<lparr>task_epoch = epoch c, task_profile = JNull, task_aborted = False,
                task_phase = Settled (Rejected (Error ''profile transport is not ready''))\<rparr>]\<rparr>
      | None \<Rightarrow> c\<lparr>tasks := tasks c @ [\<lparr>task_epoch = epoch c, task_profile = JNull, task_aborted = False,
                task_phase = Settled (Rejected (Error ''profile transport is not ready''))\<rparr>]\<rparr>)"

definition request_settles :: "nat \<Rightarrow> js_error + jsval \<Rightarrow> controller \<Rightarrow> controller option" where
  "request_settles i answer c =
     (case task_phase (tasks c ! i) of
        Requesting k \<Rightarrow> Some (c\<lparr>tasks := set_phase i (Settled
            (if task_epoch (tasks c ! i) \<noteq> epoch c \<or> task_aborted (tasks c ! k) then Stale
             else case answer of Inl e \<Rightarrow> Rejected e | Inr v \<Rightarrow> Success v)) (tasks c)\<rparr>)
      | _ \<Rightarrow> None)"

definition close_controller :: "controller \<Rightarrow> controller" where
  "close_controller c =
     c\<lparr>epoch := epoch c + 1, lifecycle := None, released := mark_released (lifecycle c) (released c),
       tasks := abort_task (lifecycle c) (tasks c) @ [\<lparr>task_epoch = epoch c + 1, task_profile = JNull, task_aborted = False,
         task_phase = Closing\<rparr>]\<rparr>"

fun controller_step :: "controller_event \<Rightarrow> controller \<Rightarrow> controller option" where
  "controller_step (Switch profile intent) c = Some (switchProfile profile intent c)"
| "controller_step (Release_Settles i f) c = (if i < length (tasks c) then release_settles i f c else None)"
| "controller_step (Factory_Throws i e) c = (if i < length (tasks c) then factory_throws i e c else None)"
| "controller_step (Bootstrap_Settles i a) c = (if i < length (tasks c) then bootstrap_settles i a c else None)"
| "controller_step Request c = Some (request c)"
| "controller_step (Request_Settles i a) c = (if i < length (tasks c) then request_settles i a c else None)"
| "controller_step Close c = Some (close_controller c)"

subsection \<open>The invariant\<close>




































subsection \<open>A failure that arrives late\<close>

definition sample_profile :: "string \<Rightarrow> jsval" where
  "sample_profile i = JObj [(''id'', JStr i), (''state'', JStr ''enabled''), (''backend'', JStr ''b''), (''storage'', JStr ''s''),
     (''deployment'', JObj [(''demoSha'', JStr ''1''), (''eaclSha'', JStr ''2''), (''artifact'', JObj [(''sha256'', JStr ''3'')]),
       (''deploymentId'', JStr ''4''), (''dataManifestSha256'', JStr ''5'')])]"

definition sample_descriptor :: "string \<Rightarrow> jsval" where
  "sample_descriptor i = JObj [(''identity'', JObj [(''profileId'', JStr i), (''demoSha'', JStr ''1''), (''eaclSha'', JStr ''2''),
     (''artifactSha256'', JStr ''3''), (''deploymentId'', JStr ''4''), (''dataManifestSha256'', JStr ''5'')])]"

text \<open>
  The failure path of one switch is not guarded by its epoch after it has awaited the release of
  its transport: when a second switch happens meanwhile, the first one clears the lifecycle of the
  second. The second profile then reports ready with a verified descriptor, but every request is
  refused as not ready and its transport is never released by a later close.
\<close>

theorem late_failure_detaches_profile:
  "case run_events controller_step
      [Switch (sample_profile ''a'') (JObj []), Release_Settles 0 None, Bootstrap_Settles 0 (Inr JNull),
       Switch (sample_profile ''b'') (JObj []), Release_Settles 1 None, Release_Settles 0 None,
       Bootstrap_Settles 1 (Inr (sample_descriptor ''b'')), Request, Close] start_controller of
     None \<Rightarrow> False
   | Some c \<Rightarrow> status (view c) = Ready_Status \<and> profileId (view c) = JStr ''b''
       \<and> task_phase (tasks c ! 1) = Settled (Ready (sample_descriptor ''b''))
       \<and> task_phase (tasks c ! 2) = Settled (Rejected (Error ''profile transport is not ready''))
       \<and> 1 \<notin> set (released c)"
  by (simp add: start_controller_def switchProfile_def validateEnabledProfile_def sample_profile_def sample_descriptor_def
      prop_of_def release_settles_def bootstrap_settles_def request_def close_controller_def assertDescriptorIdentity_def
      set_phase_def abort_task_def mark_released_def get_r_def nullish_def)

end
