(* ===== verification/Explorer_Controller.thy ===== *)
theory Explorer_Controller
  imports Failures Profile_Controller Spread Regex
begin

text \<open>
  \<open>packages/explorer-state/src/explorer-controller.mjs\<close>: the state behind the explorer. Calls of
  \<open>switchProfile\<close>, \<open>runPanel\<close>, \<open>cancelStartup\<close> and \<open>close\<close> are tasks; an event is
  what runs between two awaits, at the time \<open>now\<close> of the clock. A transport and its abort controller
  are named by the task that created them, a panel's controller by the panel's task; what a transport
  answers and what the factory returns is the environment. A validator passed to \<open>runPanel\<close> is a
  function of the model.
\<close>

definition PANEL_ID :: regex where
  "PANEL_ID = Cat (cls ''az'' []) (Rep 0 (Some 63) (cls ''az09'' ''-''))"

definition PORTABLE_FIELDS :: "string list" where
  "PORTABLE_FIELDS = [''subject'', ''subjectType'', ''resourceType'', ''resourceId'', ''permission'', ''relation'', ''view'']"

definition PANEL_THEMES :: "string list" where "PANEL_THEMES = [''system'', ''light'', ''dark'']"
definition MAX_PREFERRED_PAGE :: int where "MAX_PREFERRED_PAGE = 1000"

definition DEFAULT_PREFERENCES :: jsval where
  "DEFAULT_PREFERENCES = JObj [(''theme'', JStr ''system''), (''pageSize'', JInt 20), (''cacheEnabled'', JBool True), (''consistencyMode'', JStr ''minimize''), (''expanded'', JArr [])]"

subsection \<open>Checks\<close>

definition validateDescriptorCapabilities :: "jsval \<Rightarrow> jsval \<Rightarrow> js_error + jsval" where
  "validateDescriptorCapabilities profile described =
     (let c = prop_of (prop_of described ''capabilities''); is_array = (\<lambda>v. case v of JArr _ \<Rightarrow> True | _ \<Rightarrow> False); dp = prop_of described ''profile'' in
      throw_if (\<not> truthy (prop_of described ''capabilities'') \<or> \<not> is_array (c ''operations'') \<or> \<not> is_array (c ''consistencyModes''))
        (Error ''descriptor capabilities are missing'')
      (throw_if (\<not> truthy dp \<or> \<not> strict_eq (prop_of dp ''backend'') (prop_of profile ''backend'') \<or> \<not> strict_eq (prop_of dp ''storage'') (prop_of profile ''storage''))
        (Error ''descriptor profile mapping mismatch'')
      (throw_if (\<not> includes_value (items (c ''operations'')) (JStr ''health'') \<or> \<not> includes_value (items (c ''operations'')) (JStr ''bootstrap''))
        (Error ''descriptor must advertise health and bootstrap'')
      (throw_if (items (c ''consistencyModes'') = []) (Error ''descriptor must advertise at least one consistency mode'')
      (case find (\<lambda>f. \<not> is_string (c f)) [''snapshotBehavior'', ''cacheBehavior'', ''mutationLocality''] of
        Some f \<Rightarrow> Inl (Error (''descriptor '' @ f @ '' is missing''))
      | None \<Rightarrow> throw_if (\<not> is_array (c ''limitations'')) (Error ''descriptor limitations are missing'') (Inr described))))))"

definition normalizePreferencesForDescriptor :: "jsval \<Rightarrow> jsval \<Rightarrow> jsval" where
  "normalizePreferencesForDescriptor preferences described =
     (let ms = items (prop_of (prop_of described ''capabilities'') ''consistencyModes''); m = prop_of preferences ''consistencyMode'' in
      spread [preferences, JObj [(''consistencyMode'', if includes_value ms m then m else hd ms)]])"

definition validatePreferences :: "jsval \<Rightarrow> js_error + jsval" where
  "validatePreferences preferences =
     (let p = prop_of preferences in
      throw_if (\<not> member_of PANEL_THEMES (p ''theme'')) Type_Error
      (throw_if (\<not> safe_int_between 1 MAX_PREFERRED_PAGE (p ''pageSize'')) Type_Error
      (throw_if (case p ''cacheEnabled'' of JBool _ \<Rightarrow> False | _ \<Rightarrow> True) Type_Error
      (throw_if (\<not> str_satisfies (\<lambda>s. length s \<le> 32) (p ''consistencyMode'')) Type_Error
      (throw_if (case p ''expanded'' of JArr vs \<Rightarrow> list_ex (\<lambda>v. \<not> str_satisfies (\<lambda>s. length s \<le> 64) v) vs | _ \<Rightarrow> True) Type_Error
      (Inr (spread [preferences, JObj [(''expanded'', JArr (take 32 (rev (remdups (rev (items (p ''expanded''))))))) ]])))))))"

definition portable_intent :: "jsval \<Rightarrow> jsval" where
  "portable_intent intent =
     JObj (filter (\<lambda>(k, v). k \<in> set PORTABLE_FIELDS \<and> str_satisfies (\<lambda>s. byte_length s \<le> 256) v) (props intent))"

definition publicProfile :: "jsval \<Rightarrow> jsval" where
  "publicProfile p = JObj (map (\<lambda>k. (k, prop_of p k)) [''id'', ''backend'', ''storage'', ''state''])"

definition public_failure :: "jsval \<Rightarrow> jsval \<Rightarrow> bool \<Rightarrow> jsval list \<Rightarrow> jsval" where
  "public_failure code shown again details =
     JObj [(''code'', code), (''message'', shown), (''retryable'', JBool again), (''details'', JArr details)]"

definition clipped :: "nat \<Rightarrow> jsval \<Rightarrow> string \<Rightarrow> jsval" where
  "clipped n v fallback = (case v of JStr s \<Rightarrow> JStr (take n s) | _ \<Rightarrow> JStr fallback)"

definition safeEnvelopeError :: "jsval \<Rightarrow> jsval" where
  "safeEnvelopeError e =
     public_failure (clipped 64 (prop_of e ''code'') ''internal-error'') (clipped 512 (prop_of e ''message'') ''The explorer request failed.'')
       (prop_of e ''retryable'' = JBool True) (map (\<lambda>v. clipped 256 v []) (take 32 (filter is_string (items (prop_of e ''details'')))))"

definition safeError :: "failure \<Rightarrow> string \<Rightarrow> jsval" where
  "safeError e fallback = (case e of
     Public (JStr code) (JStr shown) again \<Rightarrow> public_failure (JStr (take 64 code)) (JStr (take 512 shown)) again []
   | _ \<Rightarrow> public_failure (JStr ''internal-error'') (JStr fallback) False [])"

definition enabled_profile :: "jsval \<Rightarrow> js_error + unit" where
  "enabled_profile profile =
     throw_if (\<not> truthy profile \<or> prop_of profile ''state'' \<noteq> JStr ''enabled'' \<or> \<not> truthy (prop_of profile ''deployment''))
       (error_of (nullish_or (prop_of profile ''reason'') (JStr ''profile is not enabled'')))
     (throw_if (\<not> is_string (prop_of profile ''backend'') \<or> \<not> is_string (prop_of profile ''storage''))
       (Error ''profile backend/storage mapping is missing'') (Inr ()))"

definition validatePanelId :: "jsval \<Rightarrow> js_error + string" where
  "validatePanelId v = throw_if (\<not> str_satisfies (matches PANEL_ID) v) Type_Error (Inr (the_str v))"

definition startupKind :: "jsval \<Rightarrow> js_error + string" where
  "startupKind described =
     bind_r (get_r (prop_of described ''runtime'') ''execution'') (\<lambda>e.
     Inr (if e = JStr ''browser'' then ''browser-initialization''
       else if prop_of (prop_of described ''runtime'') ''snapStart'' = JStr ''enabled'' then ''cold-or-restore'' else ''cold-start''))"

subsection \<open>State\<close>

record panel =
  panel_phase :: string
  panel_operation :: jsval
  panel_request :: jsval
  panel_value :: jsval
  panel_error :: jsval
  panel_retryable :: bool
  panel_meta :: jsval

definition emptyPanel :: panel where
  "emptyPanel = \<lparr>panel_phase = ''idle'', panel_operation = JNull, panel_request = JNull, panel_value = JNull, panel_error = JNull,
     panel_retryable = False, panel_meta = JNull\<rparr>"

record startup =
  startup_phase :: string
  startup_kind :: string
  started_at :: int
  elapsed_ms :: int

datatype shown_status = X_Idle | X_Switching | X_Ready | X_Error | X_Canceled | X_Closed

record explorer_view =
  x_epoch :: nat
  x_status :: shown_status
  x_profile :: jsval
  x_descriptor :: jsval
  x_intent :: jsval
  x_preferences :: jsval
  x_panels :: "(string \<times> panel) list"
  x_startup :: "startup option"
  x_error :: jsval
  x_announcement :: "(nat \<times> string \<times> string) option"

definition initial_view :: "jsval \<Rightarrow> explorer_view" where
  "initial_view preferences = \<lparr>x_epoch = 0, x_status = X_Idle, x_profile = JNull, x_descriptor = JNull, x_intent = JObj [],
     x_preferences = preferences, x_panels = [], x_startup = None, x_error = JNull, x_announcement = None\<rparr>"

datatype call_outcome =
    Was_Stale
  | Became_Ready jsval
  | Panel_Success jsval
  | Panel_Failure jsval
  | Panel_Canceled
  | Finished bool
  | Failed failure

datatype call_phase =
    Releases
  | Bootstraps
  | Drops_Late
  | Drops_Stale
  | Drops_Failed failure
  | Stops
  | Cancels_Startup
  | Requests nat string string string
  | Settled_Call call_outcome

record call_task =
  call_epoch :: nat
  call_profile :: jsval
  call_aborted :: bool
  call_phase :: call_phase
  call_check :: "jsval \<Rightarrow> failure + jsval"

record explorer =
  now_epoch :: nat
  request_count :: nat
  announcement_count :: nat
  session :: "nat option"
  startup_timer :: "nat option"
  last_profile :: jsval
  last_intent :: jsval
  freed :: "nat list"
  panel_requests :: "(string \<times> nat) list"
  retry_inputs :: "(string \<times> jsval \<times> jsval \<times> (jsval \<Rightarrow> failure + jsval)) list"
  shown :: explorer_view
  calls :: "call_task list"

definition start_explorer :: "jsval \<Rightarrow> explorer" where
  "start_explorer preferences = \<lparr>now_epoch = 0, request_count = 0, announcement_count = 0, session = None, startup_timer = None, last_profile = JNull,
     last_intent = JObj [], freed = [], panel_requests = [], retry_inputs = [], shown = initial_view preferences, calls = []\<rparr>"

definition createExplorerController :: "bool \<Rightarrow> jsval \<Rightarrow> js_error + explorer" where
  "createExplorerController has_factory initialPreferences =
     throw_if (\<not> has_factory) Type_Error
     (bind_r (validatePreferences (spread [DEFAULT_PREFERENCES, initialPreferences])) (\<lambda>p. Inr (start_explorer p)))"

subsection \<open>Publishing\<close>

definition announce :: "string \<Rightarrow> string \<Rightarrow> explorer \<Rightarrow> explorer" where
  "announce politeness message c =
     c\<lparr>announcement_count := announcement_count c + 1,
       shown := (shown c)\<lparr>x_announcement := Some (announcement_count c + 1, politeness, take 256 message)\<rparr>\<rparr>"

definition panel_of :: "explorer \<Rightarrow> string \<Rightarrow> panel" where
  "panel_of c panelId = (case map_of (x_panels (shown c)) panelId of None \<Rightarrow> emptyPanel | Some p \<Rightarrow> p)"

definition publishPanel :: "string \<Rightarrow> (panel \<Rightarrow> panel) \<Rightarrow> explorer \<Rightarrow> explorer" where
  "publishPanel panelId patch c =
     c\<lparr>shown := (shown c)\<lparr>x_panels := AList.update panelId (patch (panel_of c panelId)) (x_panels (shown c))\<rparr>\<rparr>"

definition finishStartup :: "string \<Rightarrow> string option \<Rightarrow> int \<Rightarrow> explorer \<Rightarrow> explorer" where
  "finishStartup phase kind now c =
     (let previous = x_startup (shown c); begun = (case previous of None \<Rightarrow> now | Some st \<Rightarrow> started_at st) in
      c\<lparr>shown := (shown c)\<lparr>x_startup := Some \<lparr>startup_phase = phase,
        startup_kind = (case (kind, previous) of (Some k, _) \<Rightarrow> k | (None, Some st) \<Rightarrow> startup_kind st | (None, None) \<Rightarrow> ''cold-or-restore''),
        started_at = begun, elapsed_ms = max 0 (now - begun)\<rparr>\<rparr>\<rparr>)"

definition show_failure :: "jsval \<Rightarrow> string \<Rightarrow> int \<Rightarrow> explorer \<Rightarrow> explorer" where
  \<comment> \<open>the view of a profile that failed to start\<close>
  "show_failure e message now c =
     (let c' = finishStartup ''error'' None now c in
      announce ''assertive'' message (c'\<lparr>shown := (shown c')\<lparr>x_status := X_Error, x_descriptor := JNull, x_error := e\<rparr>\<rparr>))"

subsection \<open>Tasks\<close>

definition mark_freed :: "nat option \<Rightarrow> nat list \<Rightarrow> nat list" where
  "mark_freed t rel = (case t of None \<Rightarrow> rel | Some k \<Rightarrow> if k \<in> set rel then rel else rel @ [k])"

definition set_call :: "nat \<Rightarrow> call_phase \<Rightarrow> explorer \<Rightarrow> explorer" where
  "set_call i p c = c\<lparr>calls := (calls c)[i := (calls c ! i)\<lparr>call_phase := p\<rparr>]\<rparr>"

definition new_call :: "jsval \<Rightarrow> call_phase \<Rightarrow> (jsval \<Rightarrow> failure + jsval) \<Rightarrow> explorer \<Rightarrow> explorer" where
  "new_call p ph check c = c\<lparr>calls := calls c @ [\<lparr>call_epoch = now_epoch c, call_profile = p, call_aborted = False, call_phase = ph, call_check = check\<rparr>]\<rparr>"

definition listens_to :: "nat \<Rightarrow> call_task \<Rightarrow> bool" where
  \<comment> \<open>\<open>forwardAbort\<close>: a panel's controller follows the one of its session\<close>
  "listens_to k t \<longleftrightarrow> (case call_phase t of Requests s p r o' \<Rightarrow> s = k | _ \<Rightarrow> False)"

definition abort_session :: "nat option \<Rightarrow> call_task list \<Rightarrow> call_task list" where
  "abort_session s ts = (case s of
     None \<Rightarrow> ts
   | Some k \<Rightarrow> map (\<lambda>(i, t). if i = k \<or> listens_to k t then t\<lparr>call_aborted := True\<rparr> else t) (enumerate 0 ts))"

definition abort_calls :: "nat set \<Rightarrow> call_task list \<Rightarrow> call_task list" where
  "abort_calls is ts = map (\<lambda>(i, t). if i \<in> is then t\<lparr>call_aborted := True\<rparr> else t) (enumerate 0 ts)"

definition leave_session :: "explorer \<Rightarrow> explorer" where
  \<comment> \<open>what a switch, a cancellation and a close do at once: a new epoch, everything of the session aborted\<close>
  "leave_session c =
     c\<lparr>now_epoch := now_epoch c + 1, session := None, freed := mark_freed (session c) (freed c),
       calls := abort_calls (snd ` set (panel_requests c)) (abort_session (session c) (calls c)), panel_requests := []\<rparr>"

definition refused_call :: "failure \<Rightarrow> explorer \<Rightarrow> explorer" where
  "refused_call e c = new_call JNull (Settled_Call (Failed e)) Inr c"

subsection \<open>Switching\<close>

definition switch_profile :: "jsval \<Rightarrow> jsval \<Rightarrow> int \<Rightarrow> explorer \<Rightarrow> explorer" where
  "switch_profile p intent now c =
     (case enabled_profile p of
        Inl e \<Rightarrow> refused_call (Plain e) c
      | Inr _ \<Rightarrow>
          let portable = portable_intent (if intent = JUndef then x_intent (shown c) else intent);
              c' = new_call p Releases Inr ((leave_session c)\<lparr>startup_timer := Some (now_epoch c + 1), last_profile := p, last_intent := portable, retry_inputs := []\<rparr>) in
          announce ''polite'' (''Initializing '' @ the_str (prop_of p ''backend'') @ '' with '' @ the_str (prop_of p ''storage'') @ ''.'')
            (c'\<lparr>shown := (shown c')\<lparr>x_epoch := now_epoch c', x_status := X_Switching, x_profile := publicProfile p, x_descriptor := JNull,
              x_intent := portable, x_panels := [], x_error := JNull,
              x_startup := Some \<lparr>startup_phase = ''initializing'', startup_kind = ''cold-or-restore'', started_at = now, elapsed_ms = 0\<rparr>\<rparr>\<rparr>))"

text \<open>What \<open>transportFactory\<close> does: it throws, gives nothing, gives something else, or gives a transport.\<close>

datatype factory_result = Throws failure | No_Transport | Not_A_Transport | Gives_Transport

definition factory_runs :: "nat \<Rightarrow> factory_result \<Rightarrow> explorer \<Rightarrow> explorer" where
  "factory_runs i r c = (case r of
     Gives_Transport \<Rightarrow> set_call i Bootstraps (c\<lparr>session := Some i\<rparr>)
   | Throws e \<Rightarrow> set_call i (Drops_Failed e) (c\<lparr>startup_timer := None\<rparr>)
   | No_Transport \<Rightarrow> set_call i (Drops_Failed (Plain Type_Error)) (c\<lparr>startup_timer := None\<rparr>)
   | Not_A_Transport \<Rightarrow> set_call i (Drops_Failed (Plain Type_Error)) (c\<lparr>startup_timer := None, freed := mark_freed (Some i) (freed c)\<rparr>))"

definition switch_released :: "nat \<Rightarrow> failure option \<Rightarrow> factory_result \<Rightarrow> int \<Rightarrow> explorer \<Rightarrow> explorer" where
  "switch_released i problem factory now c =
     (case problem of
        Some e \<Rightarrow>
          set_call i (Settled_Call (Failed e))
            (if call_epoch (calls c ! i) = now_epoch c
             then show_failure (safeError e ''The previous profile could not be released safely.'') ''The previous profile could not be released safely.'' now
               (c\<lparr>startup_timer := None\<rparr>)
             else c)
      | None \<Rightarrow> if call_epoch (calls c ! i) \<noteq> now_epoch c then set_call i (Settled_Call Was_Stale) c else factory_runs i factory c)"

definition started_descriptor :: "jsval \<Rightarrow> failure + jsval \<Rightarrow> failure + (jsval \<times> string)" where
  "started_descriptor p answer =
     bind_r answer (\<lambda>d. plain_r (bind_r (assertDescriptorIdentity p d) (\<lambda>_. bind_r (validateDescriptorCapabilities p d) (\<lambda>_.
       bind_r (startupKind d) (\<lambda>k. Inr (d, k))))))"

definition startup_settles :: "nat \<Rightarrow> failure + jsval \<Rightarrow> int \<Rightarrow> explorer \<Rightarrow> explorer" where
  "startup_settles i answer now c =
     (let t = calls c ! i; dropped = c\<lparr>freed := mark_freed (Some i) (freed c)\<rparr> in
      if call_aborted t \<or> call_epoch t \<noteq> now_epoch c then
        (case answer of
           Inr d \<Rightarrow> set_call i Drops_Late dropped
         | Inl e \<Rightarrow> set_call i Drops_Stale (dropped\<lparr>startup_timer := None\<rparr>))
      else (case started_descriptor (call_profile t) answer of
         Inl e \<Rightarrow> set_call i (Drops_Failed e) (dropped\<lparr>startup_timer := None\<rparr>)
       | Inr (d, k) \<Rightarrow>
           let c' = finishStartup ''ready'' (Some k) now (c\<lparr>startup_timer := None\<rparr>) in
           set_call i (Settled_Call (Became_Ready d))
             (announce ''polite'' (the_str (prop_of (call_profile t) ''backend'') @ '' with '' @ the_str (prop_of (call_profile t) ''storage'') @ '' is ready.'')
               (c'\<lparr>shown := (shown c')\<lparr>x_status := X_Ready, x_descriptor := d,
                 x_preferences := normalizePreferencesForDescriptor (x_preferences (shown c)) d, x_error := JNull\<rparr>\<rparr>))))"

text \<open>After an awaited release, by what it was for.\<close>

definition release_done :: "nat \<Rightarrow> failure option \<Rightarrow> factory_result \<Rightarrow> int \<Rightarrow> explorer \<Rightarrow> explorer option" where
  "release_done i problem factory now c =
     (case (call_phase (calls c ! i), problem) of
        (Releases, _) \<Rightarrow> Some (switch_released i problem factory now c)
      | (Drops_Late, None) \<Rightarrow> Some (set_call i (Settled_Call Was_Stale) c)
      | (Drops_Late, Some e) \<Rightarrow> Some (set_call i Drops_Stale (c\<lparr>startup_timer := None\<rparr>))
      | (Drops_Stale, None) \<Rightarrow> Some (set_call i (Settled_Call Was_Stale) c)
      | (Drops_Stale, Some e) \<Rightarrow> Some (set_call i (Settled_Call (Failed e)) c)
      | (Drops_Failed e, None) \<Rightarrow>
          Some (set_call i (Settled_Call (Failed e))
            (show_failure (safeError e ''Profile initialization failed.'') ''Profile initialization failed.'' now
              (c\<lparr>session := (if session c = Some i then None else session c)\<rparr>)))
      | (Drops_Failed e, Some e') \<Rightarrow> Some (set_call i (Settled_Call (Failed e')) c)
      | (Cancels_Startup, None) \<Rightarrow>
          (let c' = finishStartup ''canceled'' None now c in
           Some (set_call i (Settled_Call (Finished True)) (announce ''polite'' ''Profile initialization canceled.''
             (c'\<lparr>shown := (shown c')\<lparr>x_epoch := now_epoch c, x_status := X_Canceled, x_descriptor := JNull, x_panels := [], x_error := JNull\<rparr>\<rparr>))))
      | (Cancels_Startup, Some e) \<Rightarrow>
          (let c' = show_failure (safeError e ''Profile cancellation cleanup failed.'') ''Profile cancellation cleanup failed.'' now c in
           Some (set_call i (Settled_Call (Failed e)) (c'\<lparr>shown := (shown c')\<lparr>x_epoch := now_epoch c, x_panels := []\<rparr>\<rparr>)))
      | (Stops, None) \<Rightarrow>
          Some (set_call i (Settled_Call (Finished True)) (c\<lparr>shown := (initial_view (x_preferences (shown c)))\<lparr>x_epoch := now_epoch c, x_status := X_Closed\<rparr>\<rparr>))
      | (Stops, Some e) \<Rightarrow> Some (set_call i (Settled_Call (Failed e)) c)
      | _ \<Rightarrow> None)"

subsection \<open>Cancelling, closing, preferences\<close>

definition cancel_startup :: "explorer \<Rightarrow> explorer" where
  "cancel_startup c =
     (if x_status (shown c) \<noteq> X_Switching then new_call JNull (Settled_Call (Finished False)) Inr c
      else new_call JNull Cancels_Startup Inr ((leave_session c)\<lparr>startup_timer := None\<rparr>))"

definition close_explorer :: "explorer \<Rightarrow> explorer" where
  "close_explorer c = new_call JNull Stops Inr ((leave_session c)\<lparr>startup_timer := None, retry_inputs := []\<rparr>)"

definition retryProfile :: "int \<Rightarrow> explorer \<Rightarrow> explorer" where
  "retryProfile now c =
     (if \<not> truthy (last_profile c) then refused_call (Plain (Error ''profile has not been selected'')) c
      else switch_profile (last_profile c) (last_intent c) now c)"

definition setPortableIntent :: "jsval \<Rightarrow> explorer \<Rightarrow> explorer" where
  "setPortableIntent intent c = c\<lparr>shown := (shown c)\<lparr>x_intent := portable_intent intent\<rparr>\<rparr>"

definition setPreferences :: "jsval \<Rightarrow> explorer \<Rightarrow> (js_error + jsval) \<times> explorer" where
  "setPreferences patch c =
     (case validatePreferences (spread [x_preferences (shown c), patch]) of
        Inl e \<Rightarrow> (Inl e, c)
      | Inr p \<Rightarrow>
          let q = (if truthy (x_descriptor (shown c)) then normalizePreferencesForDescriptor p (x_descriptor (shown c)) else p) in
          (Inr q, c\<lparr>shown := (shown c)\<lparr>x_preferences := q\<rparr>\<rparr>))"

definition startup_ticks :: "int \<Rightarrow> explorer \<Rightarrow> explorer option" where
  "startup_ticks now c = (case startup_timer c of
     None \<Rightarrow> None
   | Some n \<Rightarrow> Some (case x_startup (shown c) of
       Some st \<Rightarrow>
         if n \<noteq> now_epoch c \<or> x_status (shown c) \<noteq> X_Switching then c
         else c\<lparr>shown := (shown c)\<lparr>x_startup := Some (st\<lparr>elapsed_ms := max 0 (now - started_at st)\<rparr>)\<rparr>\<rparr>
     | None \<Rightarrow> c))"

subsection \<open>Panels\<close>

definition unsupported :: failure where
  "unsupported = public_error ''unsupported-capability'' ''This profile does not advertise that operation.'' False"

definition invalid_answer :: failure where
  "invalid_answer = public_error ''invalid-response'' ''The profile returned an invalid response.'' False"

definition explorer_failure :: string where "explorer_failure = ''The explorer request failed.''"

definition runPanel :: "jsval \<Rightarrow> jsval \<Rightarrow> jsval \<Rightarrow> (jsval \<Rightarrow> failure + jsval) \<Rightarrow> explorer \<Rightarrow> explorer" where
  "runPanel panelId operation input check c =
     (case validatePanelId panelId of
        Inl e \<Rightarrow> refused_call (Plain e) c
      | Inr p \<Rightarrow> (case session c of
          None \<Rightarrow> refused_call (Plain (Error ''profile transport is not ready'')) c
        | Some k \<Rightarrow>
            if x_status (shown c) \<noteq> X_Ready \<or> \<not> truthy (x_descriptor (shown c)) then refused_call (Plain (Error ''profile transport is not ready'')) c
            else if \<not> includes_value (items (prop_of (prop_of (x_descriptor (shown c)) ''capabilities'') ''operations'')) operation then
              refused_call unsupported (announce ''assertive'' (p @ '' is unavailable.'')
                (publishPanel p (\<lambda>v. v\<lparr>panel_phase := ''error'', panel_operation := operation, panel_error := safeError unsupported explorer_failure,
                  panel_retryable := False\<rparr>) c))
            else
              let superseded = (case map_of (panel_requests c) p of None \<Rightarrow> {} | Some i \<Rightarrow> {i});
                  requestId = nat_str (call_epoch (calls c ! k)) @ ''-'' @ nat_str (request_count c + 1);
                  c' = c\<lparr>calls := abort_calls superseded (calls c), request_count := request_count c + 1,
                    panel_requests := AList.update p (length (calls c)) (panel_requests c),
                    retry_inputs := AList.update p (operation, input, check) (retry_inputs c)\<rparr> in
              new_call JNull (Requests k p requestId (the_str operation)) check
                (publishPanel p (\<lambda>v. v\<lparr>panel_phase := ''loading'', panel_operation := operation, panel_request := JStr requestId, panel_error := JNull,
                  panel_retryable := False\<rparr>) c')))"

definition retryPanel :: "jsval \<Rightarrow> explorer \<Rightarrow> explorer" where
  "retryPanel panelId c =
     (case validatePanelId panelId of
        Inl e \<Rightarrow> refused_call (Plain e) c
      | Inr p \<Rightarrow> (case map_of (retry_inputs c) p of
          None \<Rightarrow> refused_call (Plain (Error ''panel has no request to retry'')) c
        | Some (operation, input, check) \<Rightarrow> runPanel panelId operation input check c))"

definition cancelPanel :: "jsval \<Rightarrow> explorer \<Rightarrow> (js_error + bool) \<times> explorer" where
  "cancelPanel panelId c =
     (case validatePanelId panelId of
        Inl e \<Rightarrow> (Inl e, c)
      | Inr p \<Rightarrow> (case map_of (panel_requests c) p of
          None \<Rightarrow> (Inr False, c)
        | Some i \<Rightarrow> (Inr True, c\<lparr>calls := abort_calls {i} (calls c)\<rparr>)))"

text \<open>What the code makes of an answer: data, a failure the profile reports, or an exception.\<close>

datatype panel_reading =
    Read_Data jsval jsval
  | Read_Failure jsval jsval
  | Read_Throws failure

definition read_answer :: "(jsval \<Rightarrow> failure + jsval) \<Rightarrow> jsval \<Rightarrow> panel_reading" where
  "read_answer check result =
     (let is_obj = (case result of JObj _ \<Rightarrow> True | JArr _ \<Rightarrow> True | _ \<Rightarrow> False); data = has_prop result ''data''; failed = has_prop result ''error'';
          meta = nullish_or (prop_of result ''meta'') JNull in
      if truthy result \<and> \<not> is_obj then Read_Throws (Plain Type_Error)
      else if truthy result \<and> failed \<and> \<not> data then Read_Failure (safeEnvelopeError (prop_of result ''error'')) meta
      else if \<not> truthy result \<or> \<not> data \<or> failed then Read_Throws invalid_answer
      else (case check (prop_of result ''data'') of Inl e \<Rightarrow> Read_Throws e | Inr v \<Rightarrow> Read_Data v meta))"

definition is_current :: "nat \<Rightarrow> string \<Rightarrow> explorer \<Rightarrow> bool" where
  "is_current i p c \<longleftrightarrow> map_of (panel_requests c) p = Some i"

definition end_panel :: "nat \<Rightarrow> string \<Rightarrow> call_outcome \<Rightarrow> explorer \<Rightarrow> explorer" where
  "end_panel i p r c =
     set_call i (Settled_Call r) (c\<lparr>panel_requests := (if is_current i p c then filter (\<lambda>(q, j). q \<noteq> p) (panel_requests c) else panel_requests c)\<rparr>)"

definition panel_throws :: "nat \<Rightarrow> string \<Rightarrow> string \<Rightarrow> failure \<Rightarrow> explorer \<Rightarrow> explorer" where
  "panel_throws i p requestId e c =
     (if \<not> is_current i p c \<or> call_epoch (calls c ! i) \<noteq> now_epoch c then end_panel i p Was_Stale c
      else if call_aborted (calls c ! i) then
        end_panel i p Panel_Canceled (announce ''polite'' (p @ '' canceled.'')
          (publishPanel p (\<lambda>v. v\<lparr>panel_phase := ''canceled'', panel_request := JStr requestId, panel_error := JNull, panel_retryable := True\<rparr>) c))
      else let f = safeError e explorer_failure in
        end_panel i p (Panel_Failure f) (announce ''assertive'' (p @ '' failed.'')
          (publishPanel p (\<lambda>v. v\<lparr>panel_phase := ''error'', panel_request := JStr requestId, panel_error := f,
            panel_retryable := (prop_of f ''retryable'' = JBool True)\<rparr>) c)))"

definition panel_answers :: "nat \<Rightarrow> failure + jsval \<Rightarrow> explorer \<Rightarrow> explorer option" where
  "panel_answers i answer c =
     (case call_phase (calls c ! i) of
        Requests k p requestId operation \<Rightarrow> Some (case answer of
          Inl e \<Rightarrow> panel_throws i p requestId e c
        | Inr result \<Rightarrow>
            if \<not> is_current i p c \<or> call_aborted (calls c ! i) \<or> call_epoch (calls c ! i) \<noteq> now_epoch c then end_panel i p Was_Stale c
            else (case read_answer (call_check (calls c ! i)) result of
              Read_Throws e \<Rightarrow> panel_throws i p requestId e c
            | Read_Failure f meta \<Rightarrow>
                end_panel i p (Panel_Failure f) (announce ''assertive'' (p @ '' failed.'')
                  (publishPanel p (\<lambda>v. v\<lparr>panel_phase := ''error'', panel_request := JStr requestId, panel_error := f,
                    panel_retryable := (prop_of f ''retryable'' = JBool True), panel_meta := meta\<rparr>) c))
            | Read_Data v meta \<Rightarrow>
                end_panel i p (Panel_Success v) (announce ''polite'' (p @ '' updated.'')
                  (publishPanel p (\<lambda>w. w\<lparr>panel_phase := ''ready'', panel_request := JStr requestId, panel_value := v, panel_error := JNull,
                    panel_retryable := False, panel_meta := meta\<rparr>) c))))
      | _ \<Rightarrow> None)"

subsection \<open>Events\<close>

datatype explorer_event =
    Switches jsval jsval int
  | Release_Done nat "failure option" factory_result int
  | Startup_Settles nat "failure + jsval" int
  | Runs_Panel jsval jsval jsval "jsval \<Rightarrow> failure + jsval"
  | Panel_Answers nat "failure + jsval"
  | Cancels_Panel jsval
  | Retries_Panel jsval
  | Cancels_Start
  | Retries_Profile int
  | Sets_Intent jsval
  | Sets_Preferences jsval
  | Ticks int
  | Closes_Explorer

fun explorer_step :: "explorer_event \<Rightarrow> explorer \<Rightarrow> explorer option" where
  "explorer_step (Switches p intent now) c = Some (switch_profile p intent now c)"
| "explorer_step (Release_Done i problem factory now) c = (if i < length (calls c) then release_done i problem factory now c else None)"
| "explorer_step (Startup_Settles i answer now) c =
     (if i < length (calls c) \<and> call_phase (calls c ! i) = Bootstraps then Some (startup_settles i answer now c) else None)"
| "explorer_step (Runs_Panel p operation input check) c = Some (runPanel p operation input check c)"
| "explorer_step (Panel_Answers i answer) c = (if i < length (calls c) then panel_answers i answer c else None)"
| "explorer_step (Cancels_Panel p) c = Some (snd (cancelPanel p c))"
| "explorer_step (Retries_Panel p) c = Some (retryPanel p c)"
| "explorer_step Cancels_Start c = Some (cancel_startup c)"
| "explorer_step (Retries_Profile now) c = Some (retryProfile now c)"
| "explorer_step (Sets_Intent intent) c = Some (setPortableIntent intent c)"
| "explorer_step (Sets_Preferences patch) c = Some (snd (setPreferences patch c))"
| "explorer_step (Ticks now) c = startup_ticks now c"
| "explorer_step Closes_Explorer c = Some (close_explorer c)"

subsection \<open>The invariant\<close>

text \<open>
  What matters of a state: the epoch \<open>n\<close>, the session \<open>s\<close>, the released transports \<open>fr\<close>, the
  registered panel requests \<open>pr\<close>, the calls \<open>ts\<close>, and the descriptor \<open>r\<close> the view shows as
  ready, if it does.
\<close>

definition ready_view :: "explorer_view \<Rightarrow> jsval option" where
  "ready_view v = (if x_status v = X_Ready then Some (x_descriptor v) else None)"

definition starting :: "nat \<Rightarrow> call_task \<Rightarrow> bool" where
  "starting n t \<longleftrightarrow> call_phase t = Releases \<and> call_epoch t = n"

definition verified_for :: "jsval \<Rightarrow> jsval \<Rightarrow> bool" where
  "verified_for p d \<longleftrightarrow> assertDescriptorIdentity p d = Inr d \<and> validateDescriptorCapabilities p d = Inr d"

definition call_fits :: "nat \<Rightarrow> nat option \<Rightarrow> nat list \<Rightarrow> jsval option \<Rightarrow> nat \<Rightarrow> call_task \<Rightarrow> bool" where
  "call_fits n s fr r i t \<longleftrightarrow> call_epoch t \<le> n \<and> (case call_phase t of
     Releases \<Rightarrow> i \<notin> set fr \<and> \<not> call_aborted t \<and> (call_epoch t = n \<longrightarrow> s = None \<and> r = None)
   | Bootstraps \<Rightarrow> call_epoch t = n \<longrightarrow> s = Some i
   | Settled_Call (Became_Ready d) \<Rightarrow> verified_for (call_profile t) d
   | _ \<Rightarrow> True)"

definition session_fits :: "nat \<Rightarrow> nat list \<Rightarrow> jsval option \<Rightarrow> nat \<Rightarrow> call_task \<Rightarrow> bool" where
  "session_fits n fr r k t \<longleftrightarrow> call_epoch t = n \<and> \<not> call_aborted t \<and> (case call_phase t of
     Bootstraps \<Rightarrow> k \<notin> set fr \<and> r = None
   | Settled_Call (Became_Ready d) \<Rightarrow> k \<notin> set fr \<and> (r = None \<or> r = Some d)
   | Drops_Failed e \<Rightarrow> r = None
   | Settled_Call (Failed e) \<Rightarrow> r = None
   | _ \<Rightarrow> False)"

definition panel_fits :: "nat \<Rightarrow> nat option \<Rightarrow> call_task list \<Rightarrow> string \<times> nat \<Rightarrow> bool" where
  "panel_fits n s ts e \<longleftrightarrow> snd e < length ts \<and> call_epoch (ts ! snd e) = n \<and>
     (case call_phase (ts ! snd e) of
        Requests k p requestId operation \<Rightarrow> p = fst e \<and> s = Some k \<and> k < length ts
          \<and> (case call_phase (ts ! k) of Settled_Call (Became_Ready d) \<Rightarrow> True | _ \<Rightarrow> False)
      | _ \<Rightarrow> False)"

definition core_ok :: "nat \<Rightarrow> nat option \<Rightarrow> nat list \<Rightarrow> (string \<times> nat) list \<Rightarrow> call_task list \<Rightarrow> jsval option \<Rightarrow> bool" where
  "core_ok n s fr pr ts r \<longleftrightarrow>
     distinct fr \<and> (\<forall>i\<in>set fr. i < length ts)
     \<and> (\<forall>i<length ts. call_fits n s fr r i (ts ! i))
     \<and> (\<forall>i<length ts. \<forall>j<length ts. starting n (ts ! i) \<longrightarrow> starting n (ts ! j) \<longrightarrow> i = j)
     \<and> (case s of None \<Rightarrow> True | Some k \<Rightarrow> k < length ts \<and> session_fits n fr r k (ts ! k))
     \<and> distinct (map fst pr) \<and> list_all (panel_fits n s ts) pr"

definition explorer_ok :: "explorer \<Rightarrow> bool" where
  "explorer_ok c \<longleftrightarrow> core_ok (now_epoch c) (session c) (freed c) (panel_requests c) (calls c) (ready_view (shown c))"

lemmas fits_defs = call_fits_def session_fits_def panel_fits_def starting_def

lemma fits_weaken: "call_fits n s fr r i t \<Longrightarrow> call_fits n s fr None i t" "session_fits n fr r k t \<Longrightarrow> session_fits n fr None k t"
  by (cases "call_phase t"; auto simp: call_fits_def session_fits_def split: call_outcome.splits)+

lemma core_weaken: "core_ok n s fr pr ts r \<Longrightarrow> core_ok n s fr pr ts None"
  unfolding core_ok_def using fits_weaken by (auto split: option.splits)

text \<open>A call that is over from the start, or waits for a release, changes nothing.\<close>

definition idle_phase :: "call_phase \<Rightarrow> bool" where
  "idle_phase p \<longleftrightarrow> (case p of Releases \<Rightarrow> False | Bootstraps \<Rightarrow> False | Settled_Call (Became_Ready d) \<Rightarrow> False | _ \<Rightarrow> True)"

lemma panel_fits_append: "panel_fits n s ts e \<Longrightarrow> panel_fits n s (ts @ us) e"
  by (auto simp: panel_fits_def nth_append split: call_phase.splits call_outcome.splits)

lemma core_new:
  assumes "core_ok n s fr pr ts r" "idle_phase (call_phase t)" "call_epoch t = n"
  shows "core_ok n s fr pr (ts @ [t]) r"
proof -
  have new: "call_fits n s fr r (length ts) t" "\<not> starting n t" using assms(2,3)
    by (auto simp: call_fits_def starting_def idle_phase_def split: call_phase.splits call_outcome.splits)
  have "\<forall>i<length (ts @ [t]). call_fits n s fr r i ((ts @ [t]) ! i)"
    using assms(1) new(1) by (simp add: core_ok_def nth_append less_Suc_eq)
  moreover have "\<forall>i<length (ts @ [t]). \<forall>j<length (ts @ [t]). starting n ((ts @ [t]) ! i) \<longrightarrow> starting n ((ts @ [t]) ! j) \<longrightarrow> i = j"
    using assms(1) new(2) by (auto simp: core_ok_def nth_append less_Suc_eq)
  moreover have "case s of None \<Rightarrow> True | Some k \<Rightarrow> k < length (ts @ [t]) \<and> session_fits n fr r k ((ts @ [t]) ! k)"
    using assms(1) by (auto simp: core_ok_def nth_append split: option.splits)
  moreover have "list_all (panel_fits n s (ts @ [t])) pr"
    using assms(1) by (auto simp: core_ok_def list_all_iff panel_fits_append)
  ultimately show ?thesis using assms(1) unfolding core_ok_def by (simp add: less_SucI)
qed

text \<open>Aborting changes flags only, and none of a call that waits for its turn.\<close>

lemma length_abort [simp]: "length (abort_session s ts) = length ts" "length (abort_calls A ts) = length ts"
  by (simp_all add: abort_session_def abort_calls_def split: option.split)

lemma nth_abort_session: "i < length ts \<Longrightarrow> abort_session s ts ! i
    = (if s = Some i \<or> (\<exists>k. s = Some k \<and> listens_to k (ts ! i)) then (ts ! i)\<lparr>call_aborted := True\<rparr> else ts ! i)"
  by (auto simp: abort_session_def nth_enumerate_eq split: option.split)

lemma nth_abort_calls: "i < length ts \<Longrightarrow> abort_calls A ts ! i = (if i \<in> A then (ts ! i)\<lparr>call_aborted := True\<rparr> else ts ! i)"
  by (auto simp: abort_calls_def nth_enumerate_eq)

lemma abort_keeps [simp]:
  assumes "i < length ts"
  shows "call_phase (abort_session s ts ! i) = call_phase (ts ! i)" "call_epoch (abort_session s ts ! i) = call_epoch (ts ! i)"
    "call_profile (abort_session s ts ! i) = call_profile (ts ! i)"
    "call_phase (abort_calls A ts ! i) = call_phase (ts ! i)" "call_epoch (abort_calls A ts ! i) = call_epoch (ts ! i)"
    "call_profile (abort_calls A ts ! i) = call_profile (ts ! i)"
  using assms by (simp_all add: nth_abort_session nth_abort_calls)

definition only_requests :: "nat set \<Rightarrow> call_task list \<Rightarrow> bool" where
  "only_requests A ts \<longleftrightarrow> (\<forall>i\<in>A. i < length ts \<longrightarrow> (\<exists>k p r o'. call_phase (ts ! i) = Requests k p r o'))"

lemma registered_requests: "core_ok n s fr pr ts r \<Longrightarrow> only_requests (snd ` set pr) ts"
  unfolding core_ok_def only_requests_def list_all_iff panel_fits_def by (fastforce split: call_phase.splits)

lemma call_fits_abort:
  "call_fits n s fr r i t \<Longrightarrow> call_phase t \<noteq> Releases \<Longrightarrow> call_fits n s fr r i (t\<lparr>call_aborted := b\<rparr>)"
  by (simp add: call_fits_def split: call_phase.splits call_outcome.splits)

lemma panel_fits_abort: "panel_fits n s (abort_calls A ts) e = panel_fits n s ts e"
  by (auto simp: panel_fits_def split: call_phase.splits)

lemma core_abort_calls:
  assumes "core_ok n s fr pr ts r" "only_requests A ts"
  shows "core_ok n s fr pr (abort_calls A ts) r"
proof -
  have "call_fits n s fr r i (abort_calls A ts ! i)" if "i < length ts" for i
  proof -
    have "call_fits n s fr r i (ts ! i)" using assms(1) that by (simp add: core_ok_def)
    moreover have "i \<in> A \<Longrightarrow> call_phase (ts ! i) \<noteq> Releases" using assms(2) that by (fastforce simp: only_requests_def)
    ultimately show ?thesis using that by (simp add: nth_abort_calls call_fits_abort)
  qed
  moreover have "session_fits n fr r k (abort_calls A ts ! k)" if "k < length ts" "session_fits n fr r k (ts ! k)" for k
    using assms(2) that by (fastforce simp: nth_abort_calls only_requests_def session_fits_def)
  moreover have "starting n (abort_calls A ts ! i) = starting n (ts ! i)" if "i < length ts" for i
    using that by (simp add: starting_def)
  ultimately show ?thesis using assms(1) unfolding core_ok_def
    by (simp add: panel_fits_abort [abs_def] split: option.splits)
qed

lemma mark_freed_facts: "distinct fr \<Longrightarrow> distinct (mark_freed s fr)" "set (mark_freed s fr) = set_option s \<union> set fr"
  by (auto simp: mark_freed_def split: option.split)

lemma session_not_starting: "session_fits n fr r k t \<Longrightarrow> call_phase t \<noteq> Releases"
  by (auto simp: session_fits_def)

lemma core_leave:
  assumes c: "core_ok n s fr pr ts r"
  defines "ts' \<equiv> abort_calls (snd ` set pr) (abort_session s ts)"
  shows "core_ok (Suc n) None (mark_freed s fr) [] ts' None"
    and "\<forall>i<length ts'. call_epoch (ts' ! i) \<le> n"
proof -
  have len: "length ts' = length ts" by (simp add: ts'_def)
  have le: "call_epoch (ts ! i) \<le> n" if "i < length ts" for i using c that by (simp add: core_ok_def call_fits_def)
  then show "\<forall>i<length ts'. call_epoch (ts' ! i) \<le> n" by (simp add: ts'_def)
  have "call_fits (Suc n) None (mark_freed s fr) None i (ts' ! i)" if i: "i < length ts" for i
  proof -
    have old: "call_fits n s fr r i (ts ! i)" using c i by (simp add: core_ok_def)
    show ?thesis
    proof (cases "call_phase (ts ! i) = Releases")
      case True
      have s: "s \<noteq> Some i" using c True by (auto simp: core_ok_def dest: session_not_starting)
      moreover have "i \<notin> snd ` set pr" using registered_requests [OF c] i True by (fastforce simp: only_requests_def)
      moreover have "\<not> listens_to k (ts ! i)" for k using True by (simp add: listens_to_def)
      ultimately have "ts' ! i = ts ! i" using i by (auto simp: ts'_def nth_abort_calls nth_abort_session)
      then show ?thesis using old True s le [OF i] by (auto simp: call_fits_def mark_freed_facts)
    next
      case False
      then show ?thesis using old i le [OF i]
        by (auto simp: call_fits_def ts'_def split: call_phase.splits call_outcome.splits)
    qed
  qed
  moreover have "\<not> starting (Suc n) (ts' ! i)" if "i < length ts" for i using that le [OF that] by (auto simp: starting_def ts'_def)
  ultimately show "core_ok (Suc n) None (mark_freed s fr) [] ts' None" using c len
    by (auto simp: core_ok_def mark_freed_facts split: option.splits)
qed

lemma core_start:
  assumes "core_ok (Suc n) None fr [] ts None" "\<forall>i<length ts. call_epoch (ts ! i) \<le> n"
    and "call_phase t = Releases" "call_epoch t = Suc n" "\<not> call_aborted t"
  shows "core_ok (Suc n) None fr [] (ts @ [t]) None"
proof -
  have "\<not> starting (Suc n) (ts ! i)" if "i < length ts" for i using assms(2) that by (auto simp: starting_def)
  moreover have "call_fits (Suc n) None fr None (length ts) t" using assms by (auto simp: call_fits_def core_ok_def)
  ultimately show ?thesis using assms(1) by (auto simp: core_ok_def nth_append less_Suc_eq)
qed

text \<open>A call moves on.\<close>

lemma call_fits_others:
  "call_fits n s fr r i t \<Longrightarrow> (call_phase t = Releases \<Longrightarrow> i \<notin> set fr') \<Longrightarrow> (call_phase t = Releases \<Longrightarrow> call_epoch t = n \<Longrightarrow> s' = s \<and> r' = r)
    \<Longrightarrow> (call_phase t = Bootstraps \<Longrightarrow> call_epoch t = n \<Longrightarrow> s' = s) \<Longrightarrow> call_fits n s' fr' r' i t"
  by (simp add: call_fits_def split: call_phase.splits)

lemma idle_fits: "idle_phase p \<Longrightarrow> call_epoch t \<le> n \<Longrightarrow> call_fits n s fr r i (t\<lparr>call_phase := p\<rparr>)"
  by (auto simp: call_fits_def idle_phase_def split: call_phase.splits call_outcome.splits)

lemma panel_fits_set:
  assumes "panel_fits n s ts e" "i < length ts" "snd e \<noteq> i" "s \<noteq> Some i"
  shows "panel_fits n s (ts[i := t]) e"
  using assms by (auto simp: panel_fits_def nth_list_update split: call_phase.splits)

lemma core_set_idle:
  assumes c: "core_ok n s fr pr ts r" and i: "i < length ts" "i \<notin> snd ` set pr" "s \<noteq> Some i" and p: "idle_phase p"
    and fr: "fr' = fr \<or> fr' = mark_freed (Some i) fr"
  shows "core_ok n s fr' pr (ts[i := (ts ! i)\<lparr>call_phase := p\<rparr>]) r"
proof -
  let ?ts = "ts[i := (ts ! i)\<lparr>call_phase := p\<rparr>]"
  have fr': "distinct fr'" "set fr' \<subseteq> insert i (set fr)" using fr c by (auto simp: core_ok_def mark_freed_facts)
  have "call_fits n s fr' r j (?ts ! j)" if "j < length ts" for j
  proof (cases "j = i")
    case True
    have "call_epoch (ts ! i) \<le> n" using c i(1) by (simp add: core_ok_def call_fits_def)
    with True p i(1) show ?thesis by (simp add: idle_fits)
  next
    case False
    have "call_fits n s fr r j (ts ! j)" using c that by (simp add: core_ok_def)
    moreover have "call_phase (ts ! j) = Releases \<Longrightarrow> j \<notin> set fr'" using \<open>call_fits n s fr r j (ts ! j)\<close> False fr'(2) by (auto simp: call_fits_def)
    ultimately show ?thesis using False i(1) that by (simp add: call_fits_others)
  qed
  moreover have "\<not> starting n ((ts ! i)\<lparr>call_phase := p\<rparr>)" using p by (auto simp: starting_def idle_phase_def)
  moreover have "session_fits n fr' r k (ts ! k)" if "s = Some k" for k
  proof -
    have "session_fits n fr r k (ts ! k)" "k \<noteq> i" using c that i(3) by (auto simp: core_ok_def)
    then show ?thesis using fr'(2) by (auto simp: session_fits_def split: call_phase.splits call_outcome.splits)
  qed
  moreover have "list_all (panel_fits n s ?ts) pr"
    using c i by (auto simp: core_ok_def list_all_iff intro!: panel_fits_set)
  ultimately show ?thesis using c i fr' unfolding core_ok_def
    by (auto simp: nth_list_update split: option.splits)
qed

lemma core_no_panels: "core_ok n s fr pr ts r \<Longrightarrow> (\<And>k d. s = Some k \<Longrightarrow> call_phase (ts ! k) \<noteq> Settled_Call (Became_Ready d)) \<Longrightarrow> pr = []"
  by (cases pr) (auto simp: core_ok_def panel_fits_def split: call_phase.splits call_outcome.splits)

lemma core_bootstraps:
  assumes "core_ok n s fr pr ts r" "i < length ts" "call_phase (ts ! i) = Bootstraps" "call_epoch (ts ! i) = n"
  shows "s = Some i" "r = None" "pr = []" "i \<notin> set fr" "\<not> call_aborted (ts ! i)"
proof -
  have "call_fits n s fr r i (ts ! i)" using assms(1,2) by (simp add: core_ok_def)
  then show s: "s = Some i" using assms(3,4) by (simp add: call_fits_def)
  then have "session_fits n fr r i (ts ! i)" using assms(1) by (simp add: core_ok_def)
  then show "r = None" "i \<notin> set fr" "\<not> call_aborted (ts ! i)" using assms(3) by (simp_all add: session_fits_def)
  show "pr = []" using assms(3) s by (intro core_no_panels [OF assms(1)]) auto
qed

lemma core_session_moves:
  assumes c: "core_ok n (Some i) fr [] ts r" and i: "i < length ts"
    and p: "call_phase (ts ! i) \<noteq> Releases" "p \<noteq> Releases" "p \<noteq> Bootstraps"
    and new: "call_fits n (Some i) fr' r' i ((ts ! i)\<lparr>call_phase := p\<rparr>)" "session_fits n fr' r' i ((ts ! i)\<lparr>call_phase := p\<rparr>)"
    and fr: "fr' = fr \<or> fr' = mark_freed (Some i) fr"
  shows "core_ok n (Some i) fr' [] (ts[i := (ts ! i)\<lparr>call_phase := p\<rparr>]) r'"
proof -
  have fr': "distinct fr'" "set fr' \<subseteq> insert i (set fr)" using fr c by (auto simp: core_ok_def mark_freed_facts)
  have "call_fits n (Some i) fr' r' j (ts ! j)" if "j < length ts" "j \<noteq> i" for j
  proof -
    have old: "call_fits n (Some i) fr r j (ts ! j)" using c that by (simp add: core_ok_def)
    then have "call_phase (ts ! j) = Releases \<Longrightarrow> j \<notin> set fr'" "call_phase (ts ! j) = Releases \<Longrightarrow> call_epoch (ts ! j) \<noteq> n"
      using fr'(2) that by (auto simp: call_fits_def)
    then show ?thesis by (intro call_fits_others [OF old]) auto
  qed
  moreover have "\<not> starting n ((ts ! i)\<lparr>call_phase := p\<rparr>)" using p by (simp add: starting_def)
  ultimately show ?thesis using c i new fr' unfolding core_ok_def by (auto simp: nth_list_update)
qed

lemma core_releases:
  assumes "core_ok n s fr pr ts r" "i < length ts" "starting n (ts ! i)"
  shows "s = None" "r = None" "pr = []" "i \<notin> set fr" "\<not> call_aborted (ts ! i)"
proof -
  have "call_fits n s fr r i (ts ! i)" using assms(1,2) by (simp add: core_ok_def)
  then show s: "s = None" "r = None" "i \<notin> set fr" "\<not> call_aborted (ts ! i)" using assms(3) by (simp_all add: call_fits_def starting_def)
  show "pr = []" using s(1) by (intro core_no_panels [OF assms(1)]) auto
qed

lemma core_bootstrap_starts:
  assumes c: "core_ok n None fr [] ts None" and i: "i < length ts" "starting n (ts ! i)"
  shows "core_ok n (Some i) fr [] (ts[i := (ts ! i)\<lparr>call_phase := Bootstraps\<rparr>]) None"
proof -
  have e: "call_epoch (ts ! i) = n" using i(2) by (simp add: starting_def)
  have "call_fits n (Some i) fr None j (ts ! j) \<and> \<not> starting n (ts ! j)" if "j < length ts" "j \<noteq> i" for j
  proof -
    have "call_fits n None fr None j (ts ! j)" "\<not> starting n (ts ! j)" using c i that by (auto simp: core_ok_def)
    then show ?thesis by (auto simp: call_fits_def starting_def split: call_phase.splits)
  qed
  note others = this
  let ?ts = "ts[i := (ts ! i)\<lparr>call_phase := Bootstraps\<rparr>]"
  have "call_fits n (Some i) fr None j (?ts ! j)" "\<not> starting n (?ts ! j)" if "j < length ts" for j
    using others [OF that] i(1) e that by (cases "j = i"; simp add: call_fits_def starting_def)+
  moreover have "session_fits n fr None i (?ts ! i)"
    using core_releases(4,5) [OF c i] i(1) e by (simp add: session_fits_def)
  ultimately show ?thesis using c i(1) unfolding core_ok_def by simp
qed

subsection \<open>Every event keeps it\<close>

lemma announce_keeps [simp]:
  "now_epoch (announce q m c) = now_epoch c" "session (announce q m c) = session c" "freed (announce q m c) = freed c"
  "panel_requests (announce q m c) = panel_requests c" "calls (announce q m c) = calls c" "ready_view (shown (announce q m c)) = ready_view (shown c)"
  by (simp_all add: announce_def ready_view_def)

lemma publishPanel_keeps [simp]:
  "now_epoch (publishPanel p f c) = now_epoch c" "session (publishPanel p f c) = session c" "freed (publishPanel p f c) = freed c"
  "panel_requests (publishPanel p f c) = panel_requests c" "calls (publishPanel p f c) = calls c" "ready_view (shown (publishPanel p f c)) = ready_view (shown c)"
  by (simp_all add: publishPanel_def ready_view_def)

lemma finishStartup_keeps [simp]:
  "now_epoch (finishStartup p k now c) = now_epoch c" "session (finishStartup p k now c) = session c" "freed (finishStartup p k now c) = freed c"
  "panel_requests (finishStartup p k now c) = panel_requests c" "calls (finishStartup p k now c) = calls c"
  "ready_view (shown (finishStartup p k now c)) = ready_view (shown c)"
  by (simp_all add: finishStartup_def ready_view_def Let_def)

lemma ready_view_ready [simp]:
  "ready_view (v\<lparr>x_status := X_Ready, x_descriptor := d, x_preferences := p, x_error := e\<rparr>) = Some d"
  by (simp add: ready_view_def)

lemma show_failure_keeps [simp]:
  "now_epoch (show_failure e m now c) = now_epoch c" "session (show_failure e m now c) = session c" "freed (show_failure e m now c) = freed c"
  "panel_requests (show_failure e m now c) = panel_requests c" "calls (show_failure e m now c) = calls c"
  "ready_view (shown (show_failure e m now c)) = None"
  by (simp_all add: show_failure_def Let_def) (simp add: ready_view_def)

lemma leave_keeps [simp]:
  "now_epoch (leave_session c) = Suc (now_epoch c)" "session (leave_session c) = None" "freed (leave_session c) = mark_freed (session c) (freed c)"
  "panel_requests (leave_session c) = []" "calls (leave_session c) = abort_calls (snd ` set (panel_requests c)) (abort_session (session c) (calls c))"
  "shown (leave_session c) = shown c"
  by (simp_all add: leave_session_def)

lemma set_call_keeps [simp]:
  "now_epoch (set_call i p c) = now_epoch c" "session (set_call i p c) = session c" "freed (set_call i p c) = freed c"
  "panel_requests (set_call i p c) = panel_requests c" "shown (set_call i p c) = shown c"
  "calls (set_call i p c) = (calls c)[i := (calls c ! i)\<lparr>call_phase := p\<rparr>]"
  by (simp_all add: set_call_def)

lemma new_call_keeps [simp]:
  "now_epoch (new_call p ph k c) = now_epoch c" "session (new_call p ph k c) = session c" "freed (new_call p ph k c) = freed c"
  "panel_requests (new_call p ph k c) = panel_requests c" "shown (new_call p ph k c) = shown c"
  "calls (new_call p ph k c) = calls c @ [\<lparr>call_epoch = now_epoch c, call_profile = p, call_aborted = False, call_phase = ph, call_check = k\<rparr>]"
  by (simp_all add: new_call_def)

lemma explorer_new: "explorer_ok c \<Longrightarrow> idle_phase ph \<Longrightarrow> explorer_ok (new_call p ph k c)"
  unfolding explorer_ok_def by (auto intro!: core_new)

lemma refused_ok: "explorer_ok c \<Longrightarrow> explorer_ok (refused_call e c)"
  unfolding refused_call_def by (rule explorer_new) (simp_all add: idle_phase_def)

lemma leave_ok: "explorer_ok c \<Longrightarrow> idle_phase ph \<Longrightarrow> ready_view v = None
    \<Longrightarrow> explorer_ok ((new_call p ph k ((leave_session c)\<lparr>startup_timer := t, retry_inputs := x\<rparr>))\<lparr>shown := v\<rparr>)"
  unfolding explorer_ok_def by (auto intro!: core_new dest: core_leave(1))

lemma core_no_session:
  assumes "core_ok n None fr [] ts None" "\<And>i. i < length ts \<Longrightarrow> call_epoch (ts ! i) < n"
  shows "core_ok n None fr [] ts r"
proof -
  have "call_fits n None fr r i (ts ! i)" if "i < length ts" for i
  proof -
    have old: "call_fits n None fr None i (ts ! i)" using assms(1) that by (simp add: core_ok_def)
    then show ?thesis using assms(2) [OF that] by (intro call_fits_others [OF old]) (auto simp: call_fits_def)
  qed
  then show ?thesis using assms(1) unfolding core_ok_def by simp
qed

lemma leave_unseen:
  assumes "explorer_ok c" "idle_phase ph"
  shows "explorer_ok (new_call p ph k ((leave_session c)\<lparr>startup_timer := t, retry_inputs := x\<rparr>))"
proof -
  note left = core_leave [OF assms(1) [unfolded explorer_ok_def]]
  have "core_ok (Suc (now_epoch c)) None (freed (leave_session c)) [] (calls (leave_session c)) (ready_view (shown c))"
    unfolding leave_keeps
  proof (rule core_no_session [OF left(1)])
    fix i
    assume "i < length (abort_calls (snd ` set (panel_requests c)) (abort_session (session c) (calls c)))"
    then show "call_epoch (abort_calls (snd ` set (panel_requests c)) (abort_session (session c) (calls c)) ! i) < Suc (now_epoch c)"
      using left(2) by (intro le_imp_less_Suc) blast
  qed
  from core_new [OF this] assms(2) show ?thesis unfolding explorer_ok_def by simp
qed

lemma switch_ok:
  assumes "explorer_ok c"
  shows "explorer_ok (switch_profile p intent now c)"
proof (cases "enabled_profile p")
  case (Inr u)
  note left = core_leave [OF assms [unfolded explorer_ok_def]]
  show ?thesis unfolding switch_profile_def Inr sum.case Let_def explorer_ok_def announce_keeps
    by (simp add: ready_view_def) (rule core_start [OF left], simp_all)
qed (simp add: switch_profile_def refused_ok assms)

lemma started_verified: "started_descriptor p answer = Inr (d, k) \<Longrightarrow> verified_for p d"
proof -
  have "assertDescriptorIdentity p e = Inr e' \<Longrightarrow> e' = e" "validateDescriptorCapabilities p e = Inr e' \<Longrightarrow> e' = e" for e e'
    by (auto simp: assertDescriptorIdentity_def validateDescriptorCapabilities_def Let_def split: if_splits option.splits)
  then show "started_descriptor p answer = Inr (d, k) \<Longrightarrow> ?thesis"
    by (auto simp: started_descriptor_def plain_r_Inr verified_for_def)
qed

lemma startup_settles_ok:
  assumes c: "explorer_ok c" and i: "i < length (calls c)" "call_phase (calls c ! i) = Bootstraps"
  shows "explorer_ok (startup_settles i answer now c)"
proof (cases "call_epoch (calls c ! i) = now_epoch c")
  case False
  note core = c [unfolded explorer_ok_def]
  have "session c \<noteq> Some i" using core False by (auto simp: core_ok_def session_fits_def)
  moreover have "i \<notin> snd ` set (panel_requests c)" using registered_requests [OF core] i by (fastforce simp: only_requests_def)
  ultimately have "core_ok (now_epoch c) (session c) (mark_freed (Some i) (freed c)) (panel_requests c) ((calls c)[i := (calls c ! i)\<lparr>call_phase := ph\<rparr>])
      (ready_view (shown c))" if "idle_phase ph" for ph using core_set_idle [OF core i(1) _ _ that] by blast
  then show ?thesis using False unfolding explorer_ok_def startup_settles_def Let_def
    by (simp add: idle_phase_def split: sum.split)
next
  case True
  note core = c [unfolded explorer_ok_def]
  note boot = core_bootstraps [OF core i True]
  note moves = core_session_moves [OF core [unfolded boot(1-3)] i(1)]
  show ?thesis
  proof (cases "started_descriptor (call_profile (calls c ! i)) answer")
    case (Inl e)
    have "core_ok (now_epoch c) (Some i) (mark_freed (Some i) (freed c)) [] ((calls c)[i := (calls c ! i)\<lparr>call_phase := Drops_Failed e\<rparr>]) None"
      using boot True i(2) by (intro moves) (auto simp: call_fits_def session_fits_def)
    then show ?thesis using boot True Inl unfolding explorer_ok_def startup_settles_def Let_def by simp
  next
    case (Inr dk)
    obtain d k where dk: "dk = (d, k)" by fastforce
    have "verified_for (call_profile (calls c ! i)) d" using started_verified Inr dk by blast
    then have "core_ok (now_epoch c) (Some i) (freed c) [] ((calls c)[i := (calls c ! i)\<lparr>call_phase := Settled_Call (Became_Ready d)\<rparr>]) (Some d)"
      using boot True i(2) by (intro moves) (auto simp: call_fits_def session_fits_def)
    then show ?thesis using boot True Inr dk unfolding explorer_ok_def startup_settles_def Let_def by simp
  qed
qed

lemma factory_runs_ok:
  assumes c: "explorer_ok c" and i: "i < length (calls c)" "starting (now_epoch c) (calls c ! i)"
  shows "explorer_ok (factory_runs i r c)"
proof -
  note core = c [unfolded explorer_ok_def]
  note rel = core_releases [OF core i]
  note starts = core_bootstrap_starts [OF core [unfolded rel(1-3)] i]
  have "core_ok (now_epoch c) None fr [] ((calls c)[i := (calls c ! i)\<lparr>call_phase := Drops_Failed e\<rparr>]) None"
    if "fr = freed c \<or> fr = mark_freed (Some i) (freed c)" for e fr
    using that by (intro core_set_idle [OF core [unfolded rel(1-3)] i(1)]) (simp_all add: idle_phase_def)
  then show ?thesis using starts rel unfolding explorer_ok_def factory_runs_def by (simp split: factory_result.split)
qed

lemma set_idle_ok:
  assumes c: "explorer_ok c" and i: "i < length (calls c)" "session c \<noteq> Some i" "idle_phase p"
    and ph: "\<And>k q r o'. call_phase (calls c ! i) \<noteq> Requests k q r o'"
    and same: "now_epoch c' = now_epoch c" "session c' = session c" "freed c' = freed c" "panel_requests c' = panel_requests c" "calls c' = calls c"
      "ready_view (shown c') = ready_view (shown c) \<or> ready_view (shown c') = None"
  shows "explorer_ok (set_call i p c')"
proof -
  note core = c [unfolded explorer_ok_def]
  have "i \<notin> snd ` set (panel_requests c)" using registered_requests [OF core] i(1) ph by (fastforce simp: only_requests_def)
  then have "core_ok (now_epoch c) (session c) (freed c) (panel_requests c) ((calls c)[i := (calls c ! i)\<lparr>call_phase := p\<rparr>]) (ready_view (shown c))"
    using core_set_idle [OF core i(1) _ i(2,3)] by blast
  then show ?thesis using same core_weaken unfolding explorer_ok_def by auto
qed

lemma ready_view_status [simp]: "x_status v \<noteq> X_Ready \<Longrightarrow> ready_view v = None"
  "ready_view (v\<lparr>x_epoch := n\<rparr>) = ready_view v" "ready_view (v\<lparr>x_panels := ps\<rparr>) = ready_view v" "ready_view (v\<lparr>x_error := e\<rparr>) = ready_view v"
  "ready_view (v\<lparr>x_intent := w\<rparr>) = ready_view v" "ready_view (v\<lparr>x_preferences := w\<rparr>) = ready_view v" "ready_view (v\<lparr>x_startup := st\<rparr>) = ready_view v"
  by (simp_all add: ready_view_def)

lemma session_phase:
  assumes "explorer_ok c" "session c = Some k"
  shows "k < length (calls c)" "session_fits (now_epoch c) (freed c) (ready_view (shown c)) k (calls c ! k)"
  using assms by (simp_all add: explorer_ok_def core_ok_def)

lemma switch_released_ok:
  assumes c: "explorer_ok c" and i: "i < length (calls c)" "call_phase (calls c ! i) = Releases"
  shows "explorer_ok (switch_released i problem factory now c)"
proof -
  have s: "session c \<noteq> Some i" using session_phase [OF c] i(2) by (auto simp: session_fits_def)
  have idle: "explorer_ok (set_call i (Settled_Call (Failed e)) c)" "explorer_ok (set_call i (Settled_Call Was_Stale) c)"
    "explorer_ok (set_call i (Settled_Call (Failed e)) (show_failure f m now (c\<lparr>startup_timer := None\<rparr>)))" for e f m
    by (rule set_idle_ok [OF c i(1) s]; simp add: idle_phase_def i(2))+
  show ?thesis using idle factory_runs_ok [OF c i(1)] i(2) by (simp add: switch_released_def starting_def split: option.split)
qed

lemma dropped_ok:
  assumes c: "explorer_ok c" and i: "i < length (calls c)" "call_phase (calls c ! i) = Drops_Failed e"
  shows "explorer_ok (set_call i (Settled_Call (Failed e')) c)"
    and "explorer_ok (set_call i (Settled_Call (Failed e)) (show_failure f m now (c\<lparr>session := (if session c = Some i then None else session c)\<rparr>)))"
proof -
  note core = c [unfolded explorer_ok_def]
  have idle: "idle_phase (Settled_Call (Failed x))" for x by (simp add: idle_phase_def)
  have both: "explorer_ok (set_call i (Settled_Call (Failed e')) c) \<and>
    explorer_ok (set_call i (Settled_Call (Failed e)) (show_failure f m now (c\<lparr>session := (if session c = Some i then None else session c)\<rparr>)))"
  proof (cases "session c = Some i")
    case False
    then show ?thesis using set_idle_ok [OF c i(1) False idle] i(2) by simp
  next
    case True
    have r: "ready_view (shown c) = None" using session_phase(2) [OF c True] i(2) by (simp add: session_fits_def)
    have pr: "panel_requests c = []" using True i(2) by (intro core_no_panels [OF core]) auto
    have here: "core_ok (now_epoch c) (Some i) (freed c) [] (calls c) None" using core True r pr by simp
    have "session_fits (now_epoch c) (freed c) None i (calls c ! i)" using session_phase(2) [OF c True] r by simp
    then have moved: "core_ok (now_epoch c) (Some i) (freed c) [] ((calls c)[i := (calls c ! i)\<lparr>call_phase := Settled_Call (Failed e')\<rparr>]) None"
      using i(2) by (intro core_session_moves [OF here i(1)]) (auto simp: call_fits_def session_fits_def)
    have "call_fits (now_epoch c) None (freed c) None j (calls c ! j)" if "j < length (calls c)" for j
    proof -
      have "call_fits (now_epoch c) (Some i) (freed c) None j (calls c ! j)" using here that by (simp add: core_ok_def)
      then show ?thesis using i(2) by (cases "j = i") (auto simp: call_fits_def split: call_phase.splits)
    qed
    then have "core_ok (now_epoch c) None (freed c) [] (calls c) None" using here by (simp add: core_ok_def)
    from core_set_idle [OF this i(1) _ _ idle] have "core_ok (now_epoch c) None (freed c) [] ((calls c)[i := (calls c ! i)\<lparr>call_phase := Settled_Call (Failed e)\<rparr>]) None"
      by simp
    then show ?thesis using moved True r pr by (simp add: explorer_ok_def)
  qed
  then show "explorer_ok (set_call i (Settled_Call (Failed e')) c)"
    "explorer_ok (set_call i (Settled_Call (Failed e)) (show_failure f m now (c\<lparr>session := (if session c = Some i then None else session c)\<rparr>)))"
    by blast+
qed

lemma release_done_ok:
  assumes c: "explorer_ok c" and i: "i < length (calls c)" and step: "release_done i problem factory now c = Some c'"
  shows "explorer_ok c'"
proof -
  have idle: "explorer_ok (set_call i p c'')"
    if "idle_phase p" "call_phase (calls c ! i) \<in> {Drops_Late, Drops_Stale, Cancels_Startup, Stops}"
      "now_epoch c'' = now_epoch c" "session c'' = session c" "freed c'' = freed c" "panel_requests c'' = panel_requests c" "calls c'' = calls c"
      "ready_view (shown c'') = ready_view (shown c) \<or> ready_view (shown c'') = None" for p c''
    using that session_phase [OF c] by (intro set_idle_ok [OF c i]) (auto simp: session_fits_def)
  show ?thesis
  proof (cases "call_phase (calls c ! i)")
    case Releases
    then show ?thesis using step switch_released_ok [OF c i Releases] by (auto simp: release_done_def)
  next
    case (Drops_Failed e)
    then show ?thesis using step dropped_ok [OF c i Drops_Failed] by (auto simp: release_done_def split: option.splits)
  qed (use step in \<open>auto simp: release_done_def idle_phase_def Let_def intro!: idle split: option.splits\<close>)
qed

lemma core_filter: "core_ok n s fr pr ts r \<Longrightarrow> core_ok n s fr (filter P pr) ts r"
  unfolding core_ok_def by (auto simp: list_all_iff distinct_map_filter)

lemma core_register:
  assumes c: "core_ok n (Some k) fr pr ts (Some d)" and t: "call_phase t = Requests k p requestId operation" "call_epoch t = n"
  shows "core_ok n (Some k) fr (AList.update p (length ts) pr) (ts @ [t]) (Some d)"
proof -
  have new: "core_ok n (Some k) fr pr (ts @ [t]) (Some d)" using t by (intro core_new [OF c]) (simp_all add: idle_phase_def)
  have "k < length ts" "session_fits n fr (Some d) k (ts ! k)" using c by (simp_all add: core_ok_def)
  then have "panel_fits n (Some k) (ts @ [t]) (p, length ts)" using t
    by (auto simp: panel_fits_def nth_append session_fits_def split: call_phase.splits call_outcome.splits)
  moreover have "list_all (panel_fits n (Some k) (ts @ [t])) pr" using new by (simp add: core_ok_def)
  ultimately have "list_all (panel_fits n (Some k) (ts @ [t])) (AList.update p (length ts) pr)"
    by (induction pr) auto
  then show ?thesis using new by (simp add: core_ok_def distinct_update)
qed

lemma registered_only: "core_ok n s fr pr ts r \<Longrightarrow> only_requests (case map_of pr p of None \<Rightarrow> {} | Some i \<Rightarrow> {i}) ts"
  using registered_requests by (fastforce simp: only_requests_def dest: map_of_SomeD split: option.split)

lemma runPanel_ok:
  assumes c: "explorer_ok c"
  shows "explorer_ok (runPanel panelId operation input check c)"
proof -
  note core = c [unfolded explorer_ok_def]
  have "explorer_ok (new_call JNull (Requests k p q o') check (publishPanel p f (c\<lparr>calls := abort_calls (case map_of (panel_requests c) p of None \<Rightarrow> {} | Some i \<Rightarrow> {i}) (calls c),
      request_count := m, panel_requests := AList.update p (length (calls c)) (panel_requests c), retry_inputs := w\<rparr>)))"
    if "session c = Some k" "x_status (shown c) = X_Ready" for k p q o' f m w
  proof -
    have r: "ready_view (shown c) = Some (x_descriptor (shown c))" using that(2) by (simp add: ready_view_def)
    have "core_ok (now_epoch c) (Some k) (freed c) (panel_requests c) (abort_calls (case map_of (panel_requests c) p of None \<Rightarrow> {} | Some i \<Rightarrow> {i}) (calls c))
        (Some (x_descriptor (shown c)))"
      using core_abort_calls [OF core registered_only [OF core]] that(1) r by simp
    from core_register [OF this] r that(1) show ?thesis unfolding explorer_ok_def by simp
  qed
  moreover have "explorer_ok (announce q m (publishPanel p f c))" for q m p f using c by (simp add: explorer_ok_def)
  ultimately show ?thesis
    by (simp add: runPanel_def Let_def refused_ok c split: sum.split option.split)
qed

lemma end_panel_ok:
  assumes c: "explorer_ok c" and i: "i < length (calls c)" "call_phase (calls c ! i) = Requests k p requestId operation"
    and r: "idle_phase (Settled_Call r)"
    and same: "now_epoch c' = now_epoch c" "session c' = session c" "freed c' = freed c" "panel_requests c' = panel_requests c" "calls c' = calls c"
      "ready_view (shown c') = ready_view (shown c)"
  shows "explorer_ok (end_panel i p r c')"
proof -
  note core = c [unfolded explorer_ok_def]
  let ?pr = "if is_current i p c then filter (\<lambda>(q, j). q \<noteq> p) (panel_requests c) else panel_requests c"
  have s: "session c \<noteq> Some i" using session_phase [OF c] i(2) by (auto simp: session_fits_def)
  have keys: "q = p" if "(q, i) \<in> set (panel_requests c)" for q
  proof -
    have "list_all (panel_fits (now_epoch c) (session c) (calls c)) (panel_requests c)" using core by (simp add: core_ok_def)
    then have "panel_fits (now_epoch c) (session c) (calls c) (q, i)" using that by (simp add: list_all_iff)
    then show ?thesis using i(2) by (simp add: panel_fits_def)
  qed
  have d: "distinct (map fst (panel_requests c))" using core by (simp add: core_ok_def)
  have "i \<notin> snd ` set ?pr"
  proof
    assume "i \<in> snd ` set ?pr"
    then obtain q where q: "(q, i) \<in> set ?pr" by force
    then have e: "(q, i) \<in> set (panel_requests c)" by (simp split: if_splits)
    then have "is_current i p c" using keys [OF e] map_of_is_SomeI [OF d e] by (simp add: is_current_def)
    then show False using q keys [OF e] by simp
  qed
  moreover have "core_ok (now_epoch c) (session c) (freed c) ?pr (calls c) (ready_view (shown c))" using core core_filter by simp
  ultimately have "core_ok (now_epoch c) (session c) (freed c) ?pr ((calls c)[i := (calls c ! i)\<lparr>call_phase := Settled_Call r\<rparr>]) (ready_view (shown c))"
    using core_set_idle [OF _ i(1) _ s r] by blast
  then show ?thesis using same by (cases "is_current i p c") (simp_all add: explorer_ok_def end_panel_def is_current_def)
qed

lemma panel_answers_ok:
  assumes c: "explorer_ok c" and i: "i < length (calls c)" and step: "panel_answers i answer c = Some c'"
  shows "explorer_ok c'"
proof (cases "call_phase (calls c ! i)")
  case (Requests k p requestId operation)
  note ends = end_panel_ok [OF c i Requests]
  have thrown: "explorer_ok (panel_throws i p requestId e c)" for e
    by (auto simp: panel_throws_def Let_def idle_phase_def intro!: ends)
  show ?thesis using step Requests
    by (auto simp: panel_answers_def idle_phase_def intro!: ends thrown split: sum.splits if_splits panel_reading.splits)
qed (use step in \<open>simp_all add: panel_answers_def\<close>)

lemma explorer_step_ok: "explorer_ok c \<Longrightarrow> explorer_step e c = Some c' \<Longrightarrow> explorer_ok c'"
proof (cases e)
  case (Cancels_Panel p)
  assume c: "explorer_ok c" "explorer_step e c = Some c'"
  note core = c(1) [unfolded explorer_ok_def]
  have "explorer_ok (c\<lparr>calls := abort_calls {i} (calls c)\<rparr>)" if "map_of (panel_requests c) q = Some i" for i q
    using core_abort_calls [OF core registered_only [OF core, of q]] that by (simp add: explorer_ok_def)
  then show ?thesis using c Cancels_Panel by (auto simp: cancelPanel_def split: sum.splits option.splits)
next
  case (Release_Done i problem factory now)
  assume "explorer_ok c" "explorer_step e c = Some c'"
  then show ?thesis using release_done_ok [of c i problem factory now c'] by (simp add: Release_Done split: if_splits)
next
  case (Panel_Answers i answer)
  assume "explorer_ok c" "explorer_step e c = Some c'"
  then show ?thesis using panel_answers_ok [of c i answer c'] by (simp add: Panel_Answers split: if_splits)
next
  case (Startup_Settles i answer now)
  assume "explorer_ok c" "explorer_step e c = Some c'"
  then show ?thesis using startup_settles_ok [of c i answer now] by (auto simp: Startup_Settles split: if_splits)
next
  case (Ticks now)
  assume "explorer_ok c" "explorer_step e c = Some c'"
  then show ?thesis by (auto simp: Ticks startup_ticks_def explorer_ok_def split: option.splits if_splits)
next
  case Cancels_Start
  assume c: "explorer_ok c" "explorer_step e c = Some c'"
  have "explorer_ok (new_call JNull Cancels_Startup Inr ((leave_session c)\<lparr>startup_timer := None\<rparr>))"
    using leave_unseen [OF c(1), where ph = Cancels_Startup and p = JNull and k = Inr and t = None and x = "retry_inputs c"] by (simp add: idle_phase_def explorer_ok_def)
  then show ?thesis using c by (auto simp: Cancels_Start cancel_startup_def idle_phase_def intro!: explorer_new)
next
  case Closes_Explorer
  assume c: "explorer_ok c" "explorer_step e c = Some c'"
  then show ?thesis using leave_unseen [OF c(1), where ph = Stops and p = JNull and k = Inr and t = None and x = "[]"] by (auto simp: Closes_Explorer close_explorer_def idle_phase_def)
next
  case (Sets_Intent intent)
  assume "explorer_ok c" "explorer_step e c = Some c'"
  then show ?thesis by (auto simp: Sets_Intent setPortableIntent_def explorer_ok_def)
next
  case (Sets_Preferences patch)
  assume "explorer_ok c" "explorer_step e c = Some c'"
  then show ?thesis by (auto simp: Sets_Preferences setPreferences_def Let_def explorer_ok_def split: sum.splits)
qed (auto simp: switch_ok runPanel_ok retryPanel_def retryProfile_def refused_ok split: sum.splits option.splits)

interpretation explorer: machine_invariant explorer_step "start_explorer preferences" explorer_ok
  by unfold_locales (simp add: explorer_ok_def core_ok_def start_explorer_def initial_view_def, rule explorer_step_ok)

text \<open>
  C28 Whatever is switched, asked, cancelled, closed and retried, and in whatever order transports
  answer and releases end: a transport is released once; the session belongs to the last switch and
  is not aborted; while the view is ready it shows the descriptor of that session, which was
  verified against the session's profile, and its transport is not released; and every panel request
  that may still publish is one of this session.
\<close>

theorem explorer_controller_safe:
  "case run_events explorer_step es (start_explorer preferences) of
     None \<Rightarrow> True
   | Some c \<Rightarrow>
       distinct (freed c)
       \<and> (case session c of
            None \<Rightarrow> panel_requests c = []
          | Some k \<Rightarrow> call_epoch (calls c ! k) = now_epoch c \<and> \<not> call_aborted (calls c ! k)
              \<and> (if x_status (shown c) = X_Ready
                 then k \<notin> set (freed c) \<and> verified_for (call_profile (calls c ! k)) (x_descriptor (shown c)) else True))
       \<and> list_all (\<lambda>(p, i). call_epoch (calls c ! i) = now_epoch c
            \<and> (case call_phase (calls c ! i) of Requests k q requestId operation \<Rightarrow> q = p \<and> session c = Some k | _ \<Rightarrow> False)) (panel_requests c)"
proof (cases "run_events explorer_step es (start_explorer preferences)")
  case (Some c)
  note ok = explorer.holds_run [OF Some]
  note core = ok [unfolded explorer_ok_def]
  have d: "distinct (freed c)" using core by (simp add: core_ok_def)
  have "list_all (panel_fits (now_epoch c) (session c) (calls c)) (panel_requests c)" using core by (simp add: core_ok_def)
  then have p: "list_all (\<lambda>(p, i). call_epoch (calls c ! i) = now_epoch c
      \<and> (case call_phase (calls c ! i) of Requests k q requestId operation \<Rightarrow> q = p \<and> session c = Some k | _ \<Rightarrow> False)) (panel_requests c)"
    by (rule list.pred_mono_strong) (auto simp: panel_fits_def split: call_phase.splits)
  show ?thesis
  proof (cases "session c")
    case None
    then show ?thesis using d p core_no_panels [OF core] by (simp add: Some)
  next
    case (Some k)
    have k: "k < length (calls c)" "session_fits (now_epoch c) (freed c) (ready_view (shown c)) k (calls c ! k)" using session_phase [OF ok Some] .
    have "call_fits (now_epoch c) (session c) (freed c) (ready_view (shown c)) k (calls c ! k)" using core k(1) by (simp add: core_ok_def)
    then have "x_status (shown c) = X_Ready \<Longrightarrow> k \<notin> set (freed c) \<and> verified_for (call_profile (calls c ! k)) (x_descriptor (shown c))"
      using k(2) by (auto simp: session_fits_def call_fits_def ready_view_def split: call_phase.splits call_outcome.splits)
    then show ?thesis using d p k(2) Some \<open>run_events _ _ _ = Some c\<close> by (simp add: session_fits_def)
  qed
qed simp

text \<open>
  A late answer does not reach the panels: an answer to a request that was superseded, or whose
  session has been left, leaves the whole view as it is.
\<close>

theorem late_answers_change_nothing:
  "case call_phase (calls c ! i) of
     Requests k p requestId operation \<Rightarrow>
       (if map_of (panel_requests c) p = Some i \<and> call_epoch (calls c ! i) = now_epoch c then True
        else case panel_answers i answer c of Some c' \<Rightarrow> shown c' = shown c | None \<Rightarrow> False)
   | _ \<Rightarrow> panel_answers i answer c = None"
  by (auto simp: panel_answers_def panel_throws_def end_panel_def is_current_def split: call_phase.split sum.split)

subsection \<open>Continuations that come too late\<close>

text \<open>A profile the explorer accepts, the descriptor with which it starts, and a panel it can ask for.\<close>

definition can_start :: "jsval \<Rightarrow> jsval \<Rightarrow> string \<Rightarrow> bool" where
  "can_start p d kind \<longleftrightarrow> enabled_profile p = Inr () \<and> started_descriptor p (Inr d) = Inr (d, kind) \<and> truthy d"

definition can_ask :: "jsval \<Rightarrow> jsval \<Rightarrow> string \<Rightarrow> jsval \<Rightarrow> bool" where
  "can_ask d panelId name operation \<longleftrightarrow> validatePanelId panelId = Inr name
     \<and> includes_value (items (prop_of (prop_of d ''capabilities'') ''operations'')) operation"

definition sample_started :: jsval where
  "sample_started = spread [sample_descriptor ''b'', JObj [(''profile'', JObj [(''backend'', JStr ''b''), (''storage'', JStr ''s'')]),
     (''capabilities'', JObj [(''operations'', JArr [JStr ''health'', JStr ''bootstrap'', JStr ''get-schema'']), (''consistencyModes'', JArr [JStr ''minimize'']),
       (''snapshotBehavior'', JStr ''x''), (''cacheBehavior'', JStr ''x''), (''mutationLocality'', JStr ''x''), (''limitations'', JArr [])]),
     (''runtime'', JObj [(''execution'', JStr ''browser'')])]]"

lemma sample_can_start: "enabled_profile (sample_profile ''a'') = Inr () \<and> can_start (sample_profile ''b'') sample_started ''browser-initialization''"
  by code_simp

lemma sample_can_ask: "can_ask sample_started (JStr ''schema'') ''schema'' (JStr ''get-schema'')"
  by code_simp

text \<open>A first profile begins to start; a second one is chosen, and its own start is under way.\<close>

definition second_starts :: "jsval \<Rightarrow> jsval \<Rightarrow> explorer_event list" where
  "second_starts p q = [Switches p (JObj []) 0, Release_Done 0 None Gives_Transport 1, Switches q (JObj []) 2, Release_Done 1 None Gives_Transport 3]"

text \<open>A start is cancelled; while the transport is being released another profile is chosen and becomes ready.\<close>

definition ready_after_cancel :: "jsval \<Rightarrow> jsval \<Rightarrow> jsval \<Rightarrow> explorer_event list" where
  "ready_after_cancel p q d = [Switches p (JObj []) 0, Release_Done 0 None Gives_Transport 1, Cancels_Start,
     Switches q (JObj []) 2, Release_Done 2 None Gives_Transport 3, Startup_Settles 2 (Inr d) 4]"

text \<open>A profile is ready, one of its panels asks, and the user cancels the request.\<close>

definition cancelled_request :: "jsval \<Rightarrow> jsval \<Rightarrow> jsval \<Rightarrow> jsval \<Rightarrow> explorer_event list" where
  "cancelled_request q d panelId operation = [Switches q (JObj []) 0, Release_Done 0 None Gives_Transport 1, Startup_Settles 0 (Inr d) 2,
     Runs_Panel panelId operation (JObj []) Inr, Cancels_Panel panelId]"

lemmas controller_runs = start_explorer_def switch_profile_def leave_session_def new_call_def announce_def release_done_def switch_released_def
  factory_runs_def set_call_def startup_settles_def startup_ticks_def mark_freed_def abort_session_def listens_to_def abort_calls_def Let_def enumerate_eq_zip
  cancel_startup_def finishStartup_def

lemma start_clock_stopped:
  assumes p: "enabled_profile p = Inr ()" and q: "enabled_profile q = Inr ()"
  shows "case run_events explorer_step (second_starts p q) (start_explorer prefs) of
        None \<Rightarrow> False
      | Some c \<Rightarrow> x_status (shown c) = X_Switching \<and> session c = Some 1 \<and> startup_timer c = Some 2 \<and> startup_ticks now c \<noteq> None
         \<and> (case explorer_step (Startup_Settles 0 (Inl e) now) c of
              None \<Rightarrow> False
            | Some c' \<Rightarrow> shown c' = shown c \<and> session c' = Some 1 \<and> now_epoch c' = 2 \<and> startup_timer c' = None \<and> startup_ticks now c' = None)"
  by (simp add: second_starts_def p q controller_runs)

lemma live_profile_cancelled:
  assumes p: "enabled_profile p = Inr ()" and q: "can_start q d kind" and ask: "can_ask d panelId name operation"
  shows "case run_events explorer_step (ready_after_cancel p q d) (start_explorer prefs) of
        None \<Rightarrow> False
      | Some c \<Rightarrow> x_status (shown c) = X_Ready \<and> x_descriptor (shown c) = d \<and> session c = Some 2
         \<and> (case explorer_step (Release_Done 1 None Gives_Transport now) c of
              None \<Rightarrow> False
            | Some c' \<Rightarrow> x_status (shown c') = X_Canceled \<and> x_descriptor (shown c') = JNull \<and> x_profile (shown c') = publicProfile q
               \<and> session c' = Some 2 \<and> 2 \<notin> set (freed c')
               \<and> runPanel panelId operation input check c' = refused_call (Plain (Error ''profile transport is not ready'')) c')"
  using q [unfolded can_start_def] ask [unfolded can_ask_def]
  by (simp add: ready_after_cancel_def p controller_runs runPanel_def)

lemma panel_loads_for_ever:
  assumes q: "can_start q d kind" and ask: "can_ask d panelId name operation"
  shows "case run_events explorer_step (cancelled_request q d panelId operation) (start_explorer prefs) of
        None \<Rightarrow> False
      | Some c \<Rightarrow> call_aborted (calls c ! 1)
         \<and> (case explorer_step (Panel_Answers 1 (Inr result)) c of
              None \<Rightarrow> False
            | Some c' \<Rightarrow> panel_phase (panel_of c' name) = ''loading'' \<and> panel_requests c' = [] \<and> fst (cancelPanel panelId c') = Inr False
               \<and> call_phase (calls c' ! 1) = Settled_Call Was_Stale)"
  using q [unfolded can_start_def] ask [unfolded can_ask_def]
  by (simp add: cancelled_request_def controller_runs runPanel_def cancelPanel_def panel_answers_def end_panel_def is_current_def publishPanel_def panel_of_def)

text \<open>
  C29 Three runs, from the start of the controller, for all profiles that can start and whatever the
  late answer is. In the first two a continuation of a profile that was left does not test the epoch: the
  failed start of the first profile stops the startup clock of the second, which is still starting and
  whose elapsed time no tick will advance; and the end of a cancelled start shows the profile
  chosen since, ready and with a live transport, as cancelled, so that every panel is refused. In the third a
  request that was cancelled but is answered all the same is taken for stale and forgotten: its
  panel shows loading and can no longer be cancelled.
\<close>

theorem unguarded_paths:
  "(if enabled_profile p = Inr () \<and> can_start q d kind \<and> can_ask d panelId name operation then
     (case run_events explorer_step (second_starts p q) (start_explorer prefs) of
        None \<Rightarrow> False
      | Some c \<Rightarrow> x_status (shown c) = X_Switching \<and> session c = Some 1 \<and> startup_timer c = Some 2 \<and> startup_ticks now c \<noteq> None
         \<and> (case explorer_step (Startup_Settles 0 (Inl e) now) c of
              None \<Rightarrow> False
            | Some c' \<Rightarrow> shown c' = shown c \<and> session c' = Some 1 \<and> now_epoch c' = 2 \<and> startup_timer c' = None \<and> startup_ticks now c' = None))
     \<and> (case run_events explorer_step (ready_after_cancel p q d) (start_explorer prefs) of
        None \<Rightarrow> False
      | Some c \<Rightarrow> x_status (shown c) = X_Ready \<and> x_descriptor (shown c) = d \<and> session c = Some 2
         \<and> (case explorer_step (Release_Done 1 None Gives_Transport now) c of
              None \<Rightarrow> False
            | Some c' \<Rightarrow> x_status (shown c') = X_Canceled \<and> x_descriptor (shown c') = JNull \<and> x_profile (shown c') = publicProfile q
               \<and> session c' = Some 2 \<and> 2 \<notin> set (freed c')
               \<and> runPanel panelId operation input check c' = refused_call (Plain (Error ''profile transport is not ready'')) c'))
     \<and> (case run_events explorer_step (cancelled_request q d panelId operation) (start_explorer prefs) of
        None \<Rightarrow> False
      | Some c \<Rightarrow> call_aborted (calls c ! 1)
         \<and> (case explorer_step (Panel_Answers 1 (Inr result)) c of
              None \<Rightarrow> False
            | Some c' \<Rightarrow> panel_phase (panel_of c' name) = ''loading'' \<and> panel_requests c' = [] \<and> fst (cancelPanel panelId c') = Inr False
               \<and> call_phase (calls c' ! 1) = Settled_Call Was_Stale))
   else True)"
proof (cases "enabled_profile p = Inr () \<and> can_start q d kind \<and> can_ask d panelId name operation")
  case True
  then have ready: "enabled_profile p = Inr ()" "enabled_profile q = Inr ()" "can_start q d kind" "can_ask d panelId name operation"
    by (auto simp: can_start_def)
  show ?thesis
    unfolding if_P [OF True] by (intro conjI start_clock_stopped [OF ready(1,2)] live_profile_cancelled [OF ready(1,3,4)] panel_loads_for_ever [OF ready(3,4)])
next
  case False
  then show ?thesis unfolding if_not_P [OF False] by simp
qed

end
