(* ===== verification/Explorer_Operations.thy ===== *)
theory Explorer_Operations
  imports "HOL-Library.Word" Machine Bytes Guards Selection Spread
begin

text \<open>
  \<open>packages/explorer-state/src/explorer-operations.mjs\<close>: the closed inputs of the explorer's
  operations, with the cursors and counts of one controller epoch. Every operation is split at its
  \<open>await controller.runPanel(...)\<close>: what runs before it either ends the call or issues one panel
  request, and what runs after it is the event of the request's answer. The state of the controller
  is the value \<open>explorer\<close>; \<open>literal\<close> is the engine's conversion of a text to a number.
\<close>

definition IDENTIFIER :: regex where
  "IDENTIFIER = Cat (cls ''AZaz09'' []) (star (cls ''AZaz09'' ''._:@/-''))"

definition MAX_CURSOR_BYTES :: nat where "MAX_CURSOR_BYTES = 4096"
definition MAX_PAGE_SIZE :: int where "MAX_PAGE_SIZE = 100"
definition MAX_COUNT :: int where "MAX_COUNT = 1000000"
definition COUNT_STEPS :: "int list" where "COUNT_STEPS = [1000, 10000, 100000, 1000000]"

subsection \<open>Numbers of the language\<close>

definition to_number :: "(string \<Rightarrow> jsval) \<Rightarrow> jsval \<Rightarrow> jsval" where
  "to_number literal v = (case v of
     JInt i \<Rightarrow> v | JNum s \<Rightarrow> v | JNull \<Rightarrow> JInt 0 | JBool b \<Rightarrow> JInt (if b then 1 else 0) | JUndef \<Rightarrow> JNum ''NaN''
   | _ \<Rightarrow> (case js_string v of None \<Rightarrow> JNum ''NaN'' | Some s \<Rightarrow> if trim s = [] then JInt 0 else literal (trim s)))"

definition num_min :: "jsval \<Rightarrow> jsval \<Rightarrow> jsval" where
  "num_min v w = (case (num_of v, num_of w) of
     (Some a, Some b) \<Rightarrow> if b < a then w else v
   | (Some a, None) \<Rightarrow> if w = JNum ''Infinity'' then v else w
   | (None, Some b) \<Rightarrow> if v = JNum ''Infinity'' then w else v
   | (None, None) \<Rightarrow> if v = JNum ''NaN'' \<or> w = JNum ''Infinity'' then v else w)"

subsection \<open>Checks of inputs and answers\<close>

definition identifier_r :: "jsval \<Rightarrow> js_error + jsval" where
  "identifier_r v = throw_if (\<not> str_satisfies (\<lambda>s. byte_length s \<le> 256 \<and> matches IDENTIFIER s) v) Type_Error (Inr v)"

definition boundedCursor :: "jsval \<Rightarrow> js_error + jsval" where
  "boundedCursor c = throw_if (\<not> str_satisfies (\<lambda>s. s \<noteq> [] \<and> byte_length s \<le> MAX_CURSOR_BYTES) c)
     (Error ''cursor exceeds client bounds'') (Inr c)"

definition validatePage :: "jsval \<Rightarrow> jsval \<Rightarrow> js_error + jsval" where
  "validatePage v requestedPageSize =
     (let vs = prop_of v ''items''; size = JInt (int (length (items vs))); info = prop_of v ''pageInfo'';
          more = prop_of info ''hasNextPage''; final = prop_of info ''endCursor'' in
      throw_if (\<not> truthy v \<or> (case vs of JArr _ \<Rightarrow> False | _ \<Rightarrow> True) \<or> \<not> truthy info
          \<or> num_less requestedPageSize size \<or> num_less (JInt MAX_PAGE_SIZE) size) (Error ''page response exceeds requested bounds'')
      (throw_if ((case more of JBool _ \<Rightarrow> False | _ \<Rightarrow> True) \<or> \<not> isSafeInteger (prop_of info ''pageSize'')
          \<or> num_less (prop_of info ''pageSize'') (JInt 0) \<or> num_less requestedPageSize (prop_of info ''pageSize''))
        (Error ''page metadata is invalid'')
      (throw_if (more = JBool True \<and> \<not> str_satisfies (\<lambda>s. s \<noteq> []) final \<or> more \<noteq> JBool True \<and> final \<noteq> JNull)
        (Error ''page cursor state is invalid'')
      (bind_r (if is_string final then boundedCursor final else Inr final) (\<lambda>_. Inr v)))))"

definition validateCount :: "(string \<Rightarrow> jsval) \<Rightarrow> jsval \<Rightarrow> jsval \<Rightarrow> jsval \<Rightarrow> js_error + jsval" where
  "validateCount literal v kind ceil =
     (let n = prop_of v ''value''; exact = prop_of v ''exact''; c = prop_of v ''ceiling'' in
      throw_if (\<not> truthy v \<or> \<not> strict_eq (prop_of v ''kind'') kind \<or> \<not> isSafeInteger n \<or> num_less n (JInt 0)
          \<or> num_less (to_number literal ceil) n \<or> (case exact of JBool _ \<Rightarrow> False | _ \<Rightarrow> True)) (Error ''bounded count response is invalid'')
      (throw_if (\<not> truthy exact \<and> (\<not> strict_eq c ceil \<or> \<not> strict_eq n ceil))
        (Error ''truncated count must equal its explicit ceiling'')
      (throw_if (truthy exact \<and> c \<noteq> JNull \<and> \<not> strict_eq c ceil) (Error ''exact count ceiling metadata is invalid'') (Inr v))))"

definition bounded_array :: "nat \<Rightarrow> nat \<Rightarrow> jsval \<Rightarrow> bool" where
  "bounded_array lo hi v = (case v of JArr vs \<Rightarrow> lo \<le> length vs \<and> length vs \<le> hi | _ \<Rightarrow> False)"

definition validateDecision :: "jsval \<Rightarrow> jsval \<Rightarrow> js_error + jsval" where
  "validateDecision v input =
     throw_if (list_ex (\<lambda>k. \<not> strict_eq (prop_of v k) (prop_of input k)) [''subjectType'', ''subjectId'', ''resourceType'', ''resourceId'', ''permission''])
       (Error ''authorization response does not match request scope'')
     (throw_if ((case prop_of v ''allowed'' of JBool _ \<Rightarrow> False | _ \<Rightarrow> True) \<or> \<not> bounded_array 0 64 (prop_of v ''path''))
       (Error ''authorization decision is invalid'') (Inr v))"

definition validateObjectResult :: "jsval \<Rightarrow> jsval \<Rightarrow> js_error + jsval" where
  "validateObjectResult v input =
     (let object = prop_of v ''object'' in
      throw_if (\<not> truthy object \<or> \<not> strict_eq (prop_of object ''type'') (prop_of input ''type'')
          \<or> \<not> strict_eq (prop_of object ''id'') (prop_of input ''id'') \<or> \<not> bounded_array 0 64 (prop_of object ''attributes''))
        (Error ''object response does not match request scope'') (Inr v))"

definition validateSchema :: "jsval \<Rightarrow> js_error + jsval" where
  "validateSchema v = throw_if (\<not> truthy v \<or> \<not> is_string (prop_of v ''sha256'') \<or> \<not> bounded_array 1 128 (prop_of v ''types''))
     (Error ''schema response is invalid'') (Inr v)"

definition validateCache :: "jsval \<Rightarrow> js_error + jsval" where
  "validateCache v = throw_if (\<not> truthy v \<or> \<not> is_string (prop_of v ''behavior'') \<or> \<not> is_string (prop_of v ''scope'')
     \<or> \<not> bounded_array 0 16 (prop_of v ''limitations'')) (Error ''cache response is invalid'') (Inr v)"

definition nextCountCeiling :: "(string \<Rightarrow> jsval) \<Rightarrow> jsval \<Rightarrow> jsval \<Rightarrow> jsval" where
  "nextCountCeiling literal previous maximum =
     (case find (\<lambda>s. num_less (to_number literal previous) (JInt s) \<and> num_le (JInt s) (to_number literal maximum)) COUNT_STEPS of
        Some s \<Rightarrow> JInt s | None \<Rightarrow> maximum)"

text \<open>FNV-1a over the 32-bit integers of \<open>^=\<close> and \<open>Math.imul\<close>.\<close>

unbundle bit_operations_syntax

definition fnv_step :: "nat \<Rightarrow> 32 word \<Rightarrow> 32 word" where
  "fnv_step b h = (h XOR of_nat b) * 16777619"

definition stableKey :: "string \<Rightarrow> string" where
  "stableKey s = radix_str 36 (unat (fold fnv_step (utf8 s) (2166136261 :: 32 word)))"

subsection \<open>State\<close>

record pager =
  pager_panel :: string
  pager_index :: nat
  pager_page :: nat
  pager_cursors :: "jsval list"
  pager_info :: jsval
  pager_value :: jsval

record ops_state =
  ops_epoch :: jsval
  pagers :: "(string \<times> pager) list"
  counts :: "(string \<times> jsval) list"

definition initialPager :: "string \<Rightarrow> pager" where
  "initialPager panelId = \<lparr>pager_panel = panelId, pager_index = 0, pager_page = 1, pager_cursors = [JNull], pager_info = JNull, pager_value = JNull\<rparr>"

definition initial_ops :: "jsval \<Rightarrow> ops_state" where
  "initial_ops e = \<lparr>ops_epoch = e, pagers = [], counts = []\<rparr>"

text \<open>
  What a call does up to its await: it returns at once, or it issues a panel request and keeps what
  it needs when the answer arrives.
\<close>

datatype pending =
    Page_Pending string string nat "jsval list" jsval
  | Count_Pending string jsval jsval
  | Object_Pending jsval
  | Decision_Pending jsval
  | Schema_Pending
  | Cache_Pending

datatype begun =
    Complete jsval
  | Issue string string jsval pending

fun validate_answer :: "(string \<Rightarrow> jsval) \<Rightarrow> pending \<Rightarrow> jsval \<Rightarrow> js_error + jsval" where
  "validate_answer literal (Page_Pending k panelId i cs limit) v = validatePage v limit"
| "validate_answer literal (Count_Pending k kind ceil) v = validateCount literal v kind ceil"
| "validate_answer literal (Object_Pending input) v = validateObjectResult v input"
| "validate_answer literal (Decision_Pending input) v = validateDecision v input"
| "validate_answer literal Schema_Pending v = validateSchema v"
| "validate_answer literal Cache_Pending v = validateCache v"

subsection \<open>What the controller allows\<close>

definition synchronizeEpoch :: "jsval \<Rightarrow> ops_state \<Rightarrow> ops_state" where
  "synchronizeEpoch explorer s = (if strict_eq (ops_epoch s) (prop_of explorer ''epoch'') then s else initial_ops (prop_of explorer ''epoch''))"

definition includes_r :: "jsval \<Rightarrow> jsval \<Rightarrow> js_error + bool" where
  "includes_r vs v = (case vs of
     JArr ws \<Rightarrow> Inr (includes_value ws v)
   | JStr t \<Rightarrow> bind_r (text_r v) (\<lambda>s. Inr (contains s t))
   | _ \<Rightarrow> Inl Type_Error)"

definition withConsistency :: "jsval \<Rightarrow> (string \<times> jsval) list \<Rightarrow> js_error + (string \<times> jsval) list" where
  "withConsistency explorer input =
     bind_r (get_r (prop_of explorer ''preferences'') ''consistencyMode'') (\<lambda>mode.
     bind_r (get_r (prop_of explorer ''descriptor'') ''capabilities'') (\<lambda>capabilities.
     bind_r (get_r capabilities ''consistencyModes'') (\<lambda>modes.
     bind_r (includes_r modes mode) (\<lambda>known.
     throw_if (\<not> known) (Error ''selected consistency is not advertised'') (Inr (input @ [(''consistency'', mode)]))))))"

fun find_limit :: "string \<Rightarrow> jsval list \<Rightarrow> js_error + jsval" where
  "find_limit wireName [] = Inr JUndef"
| "find_limit wireName (v # vs) =
     bind_r (get_r v ''name'') (\<lambda>n. if n = JStr wireName then Inr (prop_of v ''value'') else find_limit wireName vs)"

definition descriptorLimit :: "jsval \<Rightarrow> string \<Rightarrow> string \<Rightarrow> int \<Rightarrow> js_error + jsval" where
  "descriptorLimit explorer wireName normalizedName fallback =
     (let limits = prop_of (prop_of explorer ''descriptor'') ''limits'' in
      case limits of
        JArr vs \<Rightarrow> bind_r (find_limit wireName vs) (\<lambda>v. Inr (nullish_or v (JInt fallback)))
      | _ \<Rightarrow> Inr (nullish_or (prop_of limits normalizedName) (JInt fallback)))"

definition pageSize :: "(string \<Rightarrow> jsval) \<Rightarrow> jsval \<Rightarrow> js_error + jsval" where
  "pageSize literal explorer =
     bind_r (get_r (prop_of explorer ''preferences'') ''pageSize'') (\<lambda>preferred.
     bind_r (descriptorLimit explorer ''page-size'' ''pageSize'' MAX_PAGE_SIZE) (\<lambda>limit.
     Inr (num_min (num_min (to_number literal preferred) (to_number literal limit)) (JInt MAX_PAGE_SIZE))))"

subsection \<open>Paging\<close>

definition store_at :: "nat \<Rightarrow> jsval \<Rightarrow> jsval list \<Rightarrow> jsval list" where
  \<comment> \<open>\<open>array[i] = v\<close>, which extends the array\<close>
  "store_at i v vs = (if i < length vs then vs[i := v] else vs @ replicate (i - length vs) JUndef @ [v])"

definition fetch_at :: "nat \<Rightarrow> jsval list \<Rightarrow> jsval" where
  "fetch_at i vs = (if i < length vs then vs ! i else JUndef)"

definition page_target :: "jsval \<Rightarrow> pager \<Rightarrow> js_error + (nat \<times> jsval list) option" where
  "page_target direction p =
     (if direction = JStr ''next'' then
        if \<not> truthy (prop_of (pager_info p) ''hasNextPage'') \<or> \<not> truthy (prop_of (pager_info p) ''endCursor'') then Inr None
        else bind_r (boundedCursor (prop_of (pager_info p) ''endCursor'')) (\<lambda>c.
          Inr (Some (pager_index p + 1, store_at (pager_index p + 1) c (pager_cursors p))))
      else Inr (Some (if direction = JStr ''first'' then 0 else pager_index p - 1, pager_cursors p)))"

definition open_pager :: "string \<Rightarrow> string \<Rightarrow> ops_state \<Rightarrow> pager \<times> ops_state" where
  "open_pager k panelId s =
     (case map_of (pagers s) k of
        Some p \<Rightarrow> (p, s)
      | None \<Rightarrow> (initialPager panelId, s\<lparr>pagers := AList.update k (initialPager panelId) (pagers s)\<rparr>))"

definition runCursorPage ::
    "(string \<Rightarrow> jsval) \<Rightarrow> jsval \<Rightarrow> string \<Rightarrow> string \<Rightarrow> string \<Rightarrow> (string \<times> jsval) list \<Rightarrow> jsval \<Rightarrow> ops_state \<Rightarrow> (js_error + begun) \<times> ops_state" where
  "runCursorPage literal explorer k panelId operation base direction s =
     (let s' = synchronizeEpoch explorer s in
      if \<not> member_of [''first'', ''next'', ''previous''] direction then (Inl Type_Error, s')
      else (case open_pager k panelId s' of (p, s'') \<Rightarrow>
        (bind_r (page_target direction p) (\<lambda>target.
          case target of
            None \<Rightarrow> Inr (Complete (pager_value p))
          | Some (i, cursors) \<Rightarrow> bind_r (pageSize literal explorer) (\<lambda>limit.
              let cursor = nullish_or (fetch_at i cursors) JNull in
              Inr (Issue panelId operation (JObj (base @ [(''pageSize'', limit)] @ (if cursor = JNull then [] else [(''cursor'', cursor)])))
                (Page_Pending k panelId i cursors limit)))), s'')))"

definition page_arrives :: "string \<Rightarrow> string \<Rightarrow> nat \<Rightarrow> jsval list \<Rightarrow> jsval \<Rightarrow> ops_state \<Rightarrow> ops_state" where
  "page_arrives k panelId i cursors v s =
     s\<lparr>pagers := AList.update k \<lparr>pager_panel = panelId, pager_index = i, pager_page = i + 1, pager_cursors = take (i + 1) cursors,
         pager_info = prop_of v ''pageInfo'', pager_value = v\<rparr> (pagers s)\<rparr>"

subsection \<open>Operations\<close>

definition defaulted :: "jsval \<Rightarrow> jsval \<Rightarrow> jsval" where
  "defaulted v d = (if v = JUndef then d else v)"

definition identified :: "string \<Rightarrow> jsval \<Rightarrow> js_error + (string \<times> jsval) list" where
  "identified name v = bind_r (identifier_r v) (\<lambda>w. Inr [(name, w)])"

definition optional_identified :: "string \<Rightarrow> jsval \<Rightarrow> js_error + (string \<times> jsval) list" where
  "optional_identified name v = (if v = JNull then Inr [] else identified name v)"

definition concat_r :: "(js_error + 'a list) list \<Rightarrow> js_error + 'a list" where
  "concat_r rs = bind_r (mapM_r (\<lambda>r. r) rs) (\<lambda>xss. Inr (concat xss))"

definition or_all :: "jsval \<Rightarrow> string" where
  "or_all v = (if v = JNull then ''all'' else the_str v)"

definition listSubjects :: "(string \<Rightarrow> jsval) \<Rightarrow> jsval \<Rightarrow> jsval \<Rightarrow> jsval \<Rightarrow> ops_state \<Rightarrow> (js_error + begun) \<times> ops_state" where
  "listSubjects literal explorer type direction s =
     (let type = defaulted type JNull in
      case optional_identified ''type'' type of
        Inl e \<Rightarrow> (Inl e, s)
      | Inr base \<Rightarrow> runCursorPage literal explorer (''subjects:'' @ or_all type) ''subjects'' ''list-subjects'' base
          (defaulted direction (JStr ''first'')) s)"

definition getObject :: "jsval \<Rightarrow> jsval \<Rightarrow> jsval \<Rightarrow> ops_state \<Rightarrow> (js_error + begun) \<times> ops_state" where
  "getObject explorer type i s =
     (bind_r (concat_r [identified ''type'' type, identified ''id'' i]) (\<lambda>fs.
      bind_r (withConsistency explorer fs) (\<lambda>input.
      Inr (Issue ''object-detail'' ''get-object'' (JObj input) (Object_Pending (JObj input))))), synchronizeEpoch explorer s)"

definition COUNT_KINDS :: "string list" where "COUNT_KINDS = [''subjects'', ''objects'', ''relationships'']"

definition count_key :: "jsval \<Rightarrow> jsval \<Rightarrow> js_error + string" where
  "count_key kind type = bind_r (text_r (nullish_or type (JStr ''all''))) (\<lambda>t. Inr (the_str kind @ '':'' @ t))"

definition countObjects :: "(string \<Rightarrow> jsval) \<Rightarrow> jsval \<Rightarrow> jsval \<Rightarrow> jsval \<Rightarrow> jsval \<Rightarrow> ops_state \<Rightarrow> (js_error + begun) \<times> ops_state" where
  "countObjects literal explorer kind type escalate s =
     (let s' = synchronizeEpoch explorer s; kind = defaulted kind (JStr ''objects''); type = defaulted type JNull in
      (throw_if (\<not> member_of COUNT_KINDS kind) Type_Error
       (bind_r (count_key kind type) (\<lambda>k.
        let previous = (case map_of (counts s') k of None \<Rightarrow> JNull | Some c \<Rightarrow> c) in
        if truthy escalate \<and> truthy (prop_of previous ''exact'') then Inr (Complete previous)
        else bind_r (descriptorLimit explorer ''count-ceiling'' ''countCeiling'' MAX_COUNT) (\<lambda>descriptorCeiling.
          let ceil = (if truthy escalate then nextCountCeiling literal (nullish_or (prop_of previous ''ceiling'') (JInt 0)) descriptorCeiling
                      else num_min (JInt (hd COUNT_STEPS)) (to_number literal descriptorCeiling)) in
          bind_r (optional_identified ''type'' type) (\<lambda>fs.
          bind_r (withConsistency explorer ([(''kind'', kind)] @ fs @ [(''ceiling'', ceil)])) (\<lambda>input.
          Inr (Issue (''count-'' @ stableKey k) ''count-objects'' (JObj input) (Count_Pending k kind ceil))))))), s'))"

definition count_arrives :: "string \<Rightarrow> jsval \<Rightarrow> jsval \<Rightarrow> ops_state \<Rightarrow> ops_state" where
  "count_arrives k ceil v s = s\<lparr>counts := AList.update k (spread [v, JObj [(''ceiling'', ceil)]]) (counts s)\<rparr>"

definition relationship_page ::
    "(string \<Rightarrow> jsval) \<Rightarrow> jsval \<Rightarrow> string \<Rightarrow> string \<Rightarrow> string \<Rightarrow> string \<Rightarrow> jsval \<Rightarrow> jsval \<Rightarrow> jsval \<Rightarrow> jsval \<Rightarrow> ops_state \<Rightarrow> (js_error + begun) \<times> ops_state" where
  \<comment> \<open>\<open>listRelationships\<close> and \<open>reverseRelationships\<close>, which differ in the names of their fields\<close>
  "relationship_page literal explorer name operation typeField idField type i relation direction s =
     (let relation = defaulted relation JNull in
      case bind_r (concat_r [identified typeField type, identified idField i, optional_identified ''relation'' relation])
          (withConsistency explorer) of
        Inl e \<Rightarrow> (Inl e, s)
      | Inr base \<Rightarrow>
          let k = name @ '':'' @ the_str type @ '':'' @ the_str i @ '':'' @ or_all relation in
          runCursorPage literal explorer k (name @ ''-'' @ stableKey k) operation base (defaulted direction (JStr ''first'')) s)"

definition listRelationships :: "(string \<Rightarrow> jsval) \<Rightarrow> jsval \<Rightarrow> jsval \<Rightarrow> jsval \<Rightarrow> jsval \<Rightarrow> jsval \<Rightarrow> ops_state \<Rightarrow> (js_error + begun) \<times> ops_state" where
  "listRelationships literal explorer resourceType resourceId relation direction s =
     relationship_page literal explorer ''relationships'' ''list-relationships'' ''resourceType'' ''resourceId'' resourceType resourceId relation direction s"

definition reverseRelationships :: "(string \<Rightarrow> jsval) \<Rightarrow> jsval \<Rightarrow> jsval \<Rightarrow> jsval \<Rightarrow> jsval \<Rightarrow> jsval \<Rightarrow> ops_state \<Rightarrow> (js_error + begun) \<times> ops_state" where
  "reverseRelationships literal explorer subjectType subjectId relation direction s =
     relationship_page literal explorer ''reverse'' ''reverse-relationships'' ''subjectType'' ''subjectId'' subjectType subjectId relation direction s"

definition check_permission_call :: "jsval \<Rightarrow> jsval \<Rightarrow> jsval \<Rightarrow> jsval \<Rightarrow> jsval \<Rightarrow> jsval \<Rightarrow> ops_state \<Rightarrow> (js_error + begun) \<times> ops_state" where
  "check_permission_call explorer subjectType subjectId resourceType resourceId permission s =
     (bind_r (concat_r [identified ''subjectType'' subjectType, identified ''subjectId'' subjectId,
         identified ''resourceType'' resourceType, identified ''resourceId'' resourceId, identified ''permission'' permission]) (\<lambda>fs.
      bind_r (withConsistency explorer fs) (\<lambda>input.
      Inr (Issue (''authorization-'' @ stableKey (the_str resourceType @ '':'' @ the_str resourceId @ '':'' @ the_str permission))
        ''check-permission'' (JObj input) (Decision_Pending (JObj input))))), synchronizeEpoch explorer s)"

definition getSchema :: "jsval \<Rightarrow> ops_state \<Rightarrow> (js_error + begun) \<times> ops_state" where
  "getSchema explorer s =
     (bind_r (withConsistency explorer []) (\<lambda>input. Inr (Issue ''schema'' ''get-schema'' (JObj input) Schema_Pending)), synchronizeEpoch explorer s)"

definition getCacheInfo :: "jsval \<Rightarrow> ops_state \<Rightarrow> (js_error + begun) \<times> ops_state" where
  "getCacheInfo explorer s = (Inr (Issue ''cache'' ''get-cache-info'' (JObj []) Cache_Pending), synchronizeEpoch explorer s)"

definition reset_ops :: "jsval \<Rightarrow> ops_state" where
  "reset_ops explorer = initial_ops (prop_of explorer ''epoch'')"

text \<open>The panel a cancellation names; an inherited property of the table has no panel.\<close>

definition cancel_scope :: "jsval \<Rightarrow> jsval \<Rightarrow> ops_state \<Rightarrow> (js_error + jsval) \<times> ops_state" where
  "cancel_scope explorer scope s =
     (let s' = synchronizeEpoch explorer s in
      (if scope = JStr ''subjects'' then Inr (JStr ''subjects'')
       else bind_r (text_r scope) (\<lambda>k. Inr (case map_of (pagers s') k of
         Some p \<Rightarrow> JStr (pager_panel p) | None \<Rightarrow> if k \<in> set INHERITED then JUndef else scope)), s'))"

definition cancelCount :: "jsval \<Rightarrow> jsval \<Rightarrow> jsval \<Rightarrow> ops_state \<Rightarrow> (js_error + string) \<times> ops_state" where
  "cancelCount explorer kind type s =
     (let kind = defaulted kind (JStr ''objects'') in
      (throw_if (\<not> member_of COUNT_KINDS kind) Type_Error
        (bind_r (count_key kind (defaulted type JNull)) (\<lambda>k. Inr (''count-'' @ stableKey k))), synchronizeEpoch explorer s))"

subsection \<open>The machine of calls and answers\<close>

datatype ops_call =
    List_Subjects jsval jsval
  | Get_Object jsval jsval
  | Count_Objects jsval jsval jsval
  | List_Relationships jsval jsval jsval jsval
  | Reverse_Relationships jsval jsval jsval jsval
  | Check_Permission jsval jsval jsval jsval jsval
  | Get_Schema
  | Get_Cache_Info

fun start_call :: "(string \<Rightarrow> jsval) \<Rightarrow> jsval \<Rightarrow> ops_call \<Rightarrow> ops_state \<Rightarrow> (js_error + begun) \<times> ops_state" where
  "start_call literal explorer (List_Subjects t d) s = listSubjects literal explorer t d s"
| "start_call literal explorer (Get_Object t i) s = getObject explorer t i s"
| "start_call literal explorer (Count_Objects k t e) s = countObjects literal explorer k t e s"
| "start_call literal explorer (List_Relationships t i r d) s = listRelationships literal explorer t i r d s"
| "start_call literal explorer (Reverse_Relationships t i r d) s = reverseRelationships literal explorer t i r d s"
| "start_call literal explorer (Check_Permission st si rt ri p) s = check_permission_call explorer st si rt ri p s"
| "start_call literal explorer Get_Schema s = getSchema explorer s"
| "start_call literal explorer Get_Cache_Info s = getCacheInfo explorer s"

text \<open>
  An answer is the data the controller passes to the validator of the call, or any other outcome
  (\<open>None\<close>): a failure, a cancellation, a stale panel.
\<close>

datatype ops_event =
    Call_Starts jsval ops_call
  | Answer_Arrives nat "jsval option"
  | Cancels jsval jsval
  | Cancels_Count jsval jsval jsval
  | Resets jsval

record ops_machine =
  ops :: ops_state
  waiting :: "pending option list"
  issued :: "(string \<times> string \<times> jsval) list"

definition start_ops :: "jsval \<Rightarrow> ops_machine" where
  "start_ops e = \<lparr>ops = initial_ops e, waiting = [], issued = []\<rparr>"

fun answer_state :: "pending \<Rightarrow> jsval \<Rightarrow> ops_state \<Rightarrow> ops_state" where
  "answer_state (Page_Pending k panelId i cs limit) v s = page_arrives k panelId i cs v s"
| "answer_state (Count_Pending k kind ceil) v s = count_arrives k ceil v s"
| "answer_state _ v s = s"

fun ops_step :: "(string \<Rightarrow> jsval) \<Rightarrow> ops_event \<Rightarrow> ops_machine \<Rightarrow> ops_machine option" where
  "ops_step literal (Call_Starts explorer c) m =
     (case start_call literal explorer c (ops m) of
        (Inr (Issue panelId operation input p), s) \<Rightarrow>
          Some (m\<lparr>ops := s, waiting := waiting m @ [Some p], issued := issued m @ [(panelId, operation, input)]\<rparr>)
      | (_, s) \<Rightarrow> Some (m\<lparr>ops := s\<rparr>))"
| "ops_step literal (Answer_Arrives i answer) m =
     (if i < length (waiting m) then (case waiting m ! i of
        None \<Rightarrow> None
      | Some p \<Rightarrow> (case answer of
          None \<Rightarrow> Some (m\<lparr>waiting := (waiting m)[i := None]\<rparr>)
        | Some data \<Rightarrow> (case validate_answer literal p data of
            Inl e \<Rightarrow> None
          | Inr v \<Rightarrow> Some (m\<lparr>ops := answer_state p v (ops m), waiting := (waiting m)[i := None]\<rparr>)))) else None)"
| "ops_step literal (Cancels explorer scope) m = Some (m\<lparr>ops := snd (cancel_scope explorer scope (ops m))\<rparr>)"
| "ops_step literal (Cancels_Count explorer kind type) m = Some (m\<lparr>ops := snd (cancelCount explorer kind type (ops m))\<rparr>)"
| "ops_step literal (Resets explorer) m = Some (m\<lparr>ops := reset_ops explorer\<rparr>)"

subsection \<open>Closed requests, consistent pagers\<close>

definition cursor_ok :: "jsval \<Rightarrow> bool" where
  "cursor_ok c \<longleftrightarrow> str_satisfies (\<lambda>s. s \<noteq> [] \<and> byte_length s \<le> MAX_CURSOR_BYTES) c"

definition cursors_ok :: "nat \<Rightarrow> jsval list \<Rightarrow> bool" where
  "cursors_ok i cs \<longleftrightarrow> i < length cs \<and> hd cs = JNull \<and> list_all cursor_ok (tl cs)"

definition pager_ok :: "pager \<Rightarrow> bool" where
  "pager_ok p \<longleftrightarrow> pager_page p = pager_index p + 1 \<and> length (pager_cursors p) = pager_index p + 1
     \<and> cursors_ok (pager_index p) (pager_cursors p)"

definition ops_ok :: "ops_state \<Rightarrow> bool" where
  "ops_ok s \<longleftrightarrow> list_all (\<lambda>(k, p). pager_ok p) (pagers s)"

fun pending_ok :: "pending \<Rightarrow> bool" where
  "pending_ok (Page_Pending k panelId i cs limit) = cursors_ok i cs"
| "pending_ok _ = True"

definition IDENTIFIED :: "string list" where
  "IDENTIFIED = [''type'', ''id'', ''subjectType'', ''subjectId'', ''resourceType'', ''resourceId'', ''relation'', ''permission'']"

definition field_ok :: "string \<times> jsval \<Rightarrow> bool" where
  "field_ok f = (case f of (k, v) \<Rightarrow>
     if k \<in> set IDENTIFIED then str_satisfies (\<lambda>s. byte_length s \<le> 256 \<and> matches IDENTIFIER s) v
     else if k = ''pageSize'' then \<not> num_less (JInt 100) v
     else if k = ''cursor'' then cursor_ok v
     else if k = ''kind'' then member_of COUNT_KINDS v
     else k \<in> {''consistency'', ''ceiling''})"

definition panel_char :: "char \<Rightarrow> bool" where
  "panel_char c \<longleftrightarrow> is_lower c \<or> is_digit c \<or> c = CHR ''-''"

definition panel_ok :: "string \<Rightarrow> bool" where
  "panel_ok s \<longleftrightarrow> s \<noteq> [] \<and> is_lower (hd s) \<and> list_all panel_char s \<and> length s \<le> 64"

definition call_closed :: "string \<times> string \<times> jsval \<Rightarrow> bool" where
  "call_closed c = (case c of (panelId, operation, input) \<Rightarrow>
     panel_ok panelId \<and> is_object input \<and> list_all field_ok (props input)
     \<and> operation \<in> {''list-subjects'', ''get-object'', ''count-objects'', ''list-relationships'', ''reverse-relationships'',
          ''check-permission'', ''get-schema'', ''get-cache-info''})"

definition begun_ok :: "(js_error + begun) \<times> ops_state \<Rightarrow> bool" where
  "begun_ok r \<longleftrightarrow> ops_ok (snd r) \<and> (case fst r of
     Inr (Issue panelId operation input p) \<Rightarrow> call_closed (panelId, operation, input) \<and> pending_ok p | _ \<Rightarrow> True)"

definition machine_ok :: "ops_machine \<Rightarrow> bool" where
  "machine_ok m \<longleftrightarrow> ops_ok (ops m) \<and> list_all (case_option True pending_ok) (waiting m) \<and> list_all call_closed (issued m)"

text \<open>The hash of a key is at most seven characters of base 36.\<close>

lemma hex_digit_36: "d < 36 \<Longrightarrow> panel_char (hex_digit d)"
  by (auto simp: hex_digit_def panel_char_def is_lower_def is_digit_def less_eq_char_def)

lemma radix_str_36: "n < 36 ^ Suc k \<Longrightarrow> list_all panel_char (radix_str 36 n) \<and> length (radix_str 36 n) \<le> Suc k"
proof (induction k arbitrary: n)
  case 0
  then show ?case by (subst radix_str.simps, subst (2) radix_str.simps) (simp add: hex_digit_36)
next
  case (Suc k)
  show ?case
  proof (cases "n < 36")
    case True
    then show ?thesis by (subst radix_str.simps, subst (2) radix_str.simps) (simp add: hex_digit_36)
  next
    case False
    have "n div 36 < 36 ^ Suc k" using Suc.prems by (simp add: less_mult_imp_div_less mult.commute)
    with Suc.IH False show ?thesis by (subst radix_str.simps, subst (2) radix_str.simps) (simp add: hex_digit_36)
  qed
qed

lemma stableKey_ok: "list_all panel_char (stableKey s)" "length (stableKey s) \<le> 7"
proof -
  let ?w = "fold fnv_step (utf8 s) (2166136261 :: 32 word)"
  have "unat ?w < 36 ^ Suc 6" using unsigned_less [of ?w, where ?'a = nat] by simp
  from radix_str_36 [OF this] show "list_all panel_char (stableKey s)" "length (stableKey s) \<le> 7" by (simp_all add: stableKey_def)
qed

lemma panel_ok_key: "panel_ok name \<Longrightarrow> length name \<le> 56 \<Longrightarrow> panel_ok (name @ CHR ''-'' # stableKey k)"
  using stableKey_ok [of k] by (auto simp: panel_ok_def panel_char_def)

lemma panel_names: "panel_ok ''subjects'' \<and> panel_ok ''object-detail'' \<and> panel_ok ''count'' \<and> panel_ok ''relationships'' \<and> panel_ok ''reverse''
    \<and> panel_ok ''authorization'' \<and> panel_ok ''schema'' \<and> panel_ok ''cache''"
  by (simp add: panel_ok_def panel_char_def is_lower_def less_eq_char_def)

subsection \<open>Every call keeps the invariant\<close>

lemma identifier_r_ok: "identifier_r v = Inr w \<longleftrightarrow> w = v \<and> str_satisfies (\<lambda>s. byte_length s \<le> 256 \<and> matches IDENTIFIER s) v"
  by (auto simp: identifier_r_def)

definition fields_r :: "js_error + (string \<times> jsval) list \<Rightarrow> bool" where
  "fields_r r \<longleftrightarrow> (case r of Inr fs \<Rightarrow> list_all field_ok fs | Inl e \<Rightarrow> True)"

lemma identified_ok: "name \<in> set IDENTIFIED \<Longrightarrow> fields_r (identified name v)"
  by (simp add: identified_def identifier_r_def fields_r_def field_ok_def)

lemma optional_identified_ok: "name \<in> set IDENTIFIED \<Longrightarrow> fields_r (optional_identified name v)"
  by (simp add: optional_identified_def identified_ok) (simp add: fields_r_def)

lemma concat_r_Cons: "concat_r (r # rs) = bind_r r (\<lambda>xs. bind_r (concat_r rs) (\<lambda>ys. Inr (xs @ ys)))"
  by (cases r) (auto simp: concat_r_def bind_r_def split: sum.splits)

lemma concat_r_ok: "list_all fields_r rs \<Longrightarrow> fields_r (concat_r rs)"
proof (induction rs)
  case Nil
  show ?case by (simp add: concat_r_def fields_r_def)
next
  case (Cons r rs)
  then have "fields_r r" "fields_r (concat_r rs)" by simp_all
  then show ?case unfolding concat_r_Cons by (simp add: fields_r_def bind_r_def split: sum.splits)
qed

lemma withConsistency_ok: "list_all field_ok fs \<Longrightarrow> fields_r (withConsistency explorer fs)"
  by (simp add: withConsistency_def fields_r_def field_ok_def IDENTIFIED_def bind_r_def split: sum.split)

lemma initial_ops_ok: "ops_ok (initial_ops e)"
  by (simp add: ops_ok_def initial_ops_def)

lemma synchronizeEpoch_ok: "ops_ok s \<Longrightarrow> ops_ok (synchronizeEpoch explorer s)"
  by (simp add: synchronizeEpoch_def initial_ops_ok)

lemma list_all_update: "list_all (\<lambda>(k, v). P v) m \<Longrightarrow> P v \<Longrightarrow> list_all (\<lambda>(k, v). P v) (AList.update k v m)"
  by (induction m) auto

lemma initialPager_ok: "pager_ok (initialPager panelId)"
  by (simp add: pager_ok_def initialPager_def cursors_ok_def)

lemma open_pager_ok: "open_pager k panelId s = (p, s') \<Longrightarrow> ops_ok s \<Longrightarrow> ops_ok s' \<and> pager_ok p"
  using list_all_update [of pager_ok "pagers s" "initialPager panelId" k]
  by (auto simp: open_pager_def ops_ok_def initialPager_ok dest!: map_of_SomeD dest: list_all_iff [THEN iffD1, THEN bspec] split: option.splits)

lemma store_next: "cursors_ok i cs \<Longrightarrow> length cs = i + 1 \<Longrightarrow> cursor_ok c \<Longrightarrow> cursors_ok (i + 1) (store_at (i + 1) c cs)"
  by (cases cs) (auto simp: cursors_ok_def store_at_def)

lemma page_target_ok:
  assumes "page_target direction p = Inr (Some (i, cs))" "pager_ok p"
  shows "cursors_ok i cs"
  using assms store_next [of "pager_index p" "pager_cursors p"]
  by (auto simp: page_target_def pager_ok_def cursors_ok_def boundedCursor_def cursor_ok_def split: if_splits)

lemma num_min_100: "\<not> num_less (JInt 100) (num_min v (JInt 100))"
  by (auto simp: num_min_def num_less_def split: option.splits if_splits)

lemma fetch_ok: "cursors_ok i cs \<Longrightarrow> c = nullish_or (fetch_at i cs) JNull \<Longrightarrow> c \<noteq> JNull \<Longrightarrow> cursor_ok c"
  by (cases cs; cases i) (auto simp: cursors_ok_def fetch_at_def nullish_or_def list_all_length)

lemma runCursorPage_ok:
  assumes "ops_ok s" "list_all field_ok base" "panel_ok panelId" "operation \<in> {''list-subjects'', ''list-relationships'', ''reverse-relationships''}"
  shows "begun_ok (runCursorPage literal explorer k panelId operation base direction s)"
proof -
  obtain p s' where p: "open_pager k panelId (synchronizeEpoch explorer s) = (p, s')" by fastforce
  from open_pager_ok [OF this synchronizeEpoch_ok [OF assms(1)]] have s': "ops_ok s'" and pager: "pager_ok p" by simp_all
  have target: "page_target direction p = Inr (Some (i, cs)) \<Longrightarrow> cursors_ok i cs" for i cs
    using page_target_ok pager by blast
  have closed: "call_closed (panelId, operation, JObj (base @ [(''pageSize'', limit)] @
      (if nullish_or (fetch_at i cs) JNull = JNull then [] else [(''cursor'', nullish_or (fetch_at i cs) JNull)])))"
    if "pageSize literal explorer = Inr limit" "page_target direction p = Inr (Some (i, cs))" for limit i cs
    using assms(2-4) that fetch_ok [OF target [OF that(2)]]
    by (auto simp: call_closed_def field_ok_def IDENTIFIED_def pageSize_def num_min_100 MAX_PAGE_SIZE_def)
  show ?thesis using s' synchronizeEpoch_ok [OF assms(1)]
    by (simp add: begun_ok_def runCursorPage_def Let_def p bind_r_def target split: sum.split option.split)
       (use closed in \<open>force split: if_splits\<close>)
qed

lemma begun_fields:
  assumes "fields_r r" "ops_ok s" "\<And>fs. r = Inr fs \<Longrightarrow> list_all field_ok fs \<Longrightarrow> begun_ok (f fs, s)"
  shows "begun_ok (bind_r r f, s)"
  using assms by (cases r) (auto simp: fields_r_def begun_ok_def)

lemma begun_bind: "ops_ok s \<Longrightarrow> (\<And>x. r = Inr x \<Longrightarrow> begun_ok (f x, s)) \<Longrightarrow> begun_ok (bind_r r f, s)"
  by (cases r) (auto simp: begun_ok_def)

lemma begun_complete: "ops_ok s \<Longrightarrow> begun_ok (Inr (Complete v), s)" "ops_ok s \<Longrightarrow> begun_ok (Inl e, s)"
  by (simp_all add: begun_ok_def)

lemma begun_issue: "ops_ok s \<Longrightarrow> call_closed (panelId, operation, input) \<Longrightarrow> pending_ok p \<Longrightarrow> begun_ok (Inr (Issue panelId operation input p), s)"
  by (simp add: begun_ok_def)

lemmas call_rules = begun_complete begun_issue begun_bind synchronizeEpoch_ok concat_r_ok withConsistency_ok identified_ok optional_identified_ok

lemma listSubjects_ok: "ops_ok s \<Longrightarrow> begun_ok (listSubjects literal explorer t d s)"
  using optional_identified_ok [of "''type''" "defaulted t JNull"]
  by (auto simp: listSubjects_def Let_def fields_r_def IDENTIFIED_def panel_names call_rules intro!: runCursorPage_ok split: sum.split)

lemma getObject_ok: "ops_ok s \<Longrightarrow> begun_ok (getObject explorer t i s)"
  unfolding getObject_def
  by (rule begun_fields [OF _ _ begun_fields]) (auto intro!: call_rules simp: IDENTIFIED_def call_closed_def panel_names)

lemma countObjects_ok:
  assumes "ops_ok s"
  shows "begun_ok (countObjects literal explorer k t e s)"
proof -
  have "panel_ok (''count-'' @ stableKey x)" for x using panel_ok_key [of "''count''" x] panel_names by simp
  moreover have "list_all field_ok input"
    if "optional_identified ''type'' u = Inr fs" "member_of COUNT_KINDS kind"
      "withConsistency explorer ((''kind'', kind) # fs @ [(''ceiling'', c)]) = Inr input" for u fs kind c input
    using that optional_identified_ok [of "''type''" u] withConsistency_ok [of "(''kind'', kind) # fs @ [(''ceiling'', c)]" explorer]
    by (simp add: fields_r_def field_ok_def IDENTIFIED_def)
  ultimately show ?thesis using synchronizeEpoch_ok [OF assms, of explorer]
    by (auto simp: countObjects_def Let_def call_closed_def begun_complete intro!: begun_bind begun_issue)
qed

lemma relationship_page_ok:
  assumes "ops_ok s" "typeField \<in> set IDENTIFIED" "idField \<in> set IDENTIFIED" "panel_ok name" "length name \<le> 56"
    "operation \<in> {''list-relationships'', ''reverse-relationships''}"
  shows "begun_ok (relationship_page literal explorer name operation typeField idField t i r d s)"
proof -
  let ?r = "bind_r (concat_r [identified typeField t, identified idField i, optional_identified ''relation'' (defaulted r JNull)]) (withConsistency explorer)"
  have "fields_r (concat_r [identified typeField t, identified idField i, optional_identified ''relation'' (defaulted r JNull)])"
    using assms(2,3) by (intro concat_r_ok) (simp add: identified_ok optional_identified_ok IDENTIFIED_def)
  then have "fields_r ?r"
    by (cases "concat_r [identified typeField t, identified idField i, optional_identified ''relation'' (defaulted r JNull)]")
       (auto simp: fields_r_def dest: withConsistency_ok)
  then show ?thesis using assms
    by (auto simp: relationship_page_def Let_def fields_r_def begun_complete panel_ok_key intro!: runCursorPage_ok split: sum.split)
qed

lemma check_permission_ok: "ops_ok s \<Longrightarrow> begun_ok (check_permission_call explorer st si rt ri p s)"
  unfolding check_permission_call_def
  using panel_ok_key [of "''authorization''"] panel_names
  by (intro begun_fields [OF _ _ begun_fields]) (auto intro!: call_rules simp: IDENTIFIED_def call_closed_def)

lemma start_call_ok: "ops_ok s \<Longrightarrow> begun_ok (start_call literal explorer c s)"
proof (cases c)
  case Get_Schema
  assume "ops_ok s"
  then show ?thesis unfolding Get_Schema start_call.simps getSchema_def
    by (intro begun_fields) (auto intro!: call_rules simp: call_closed_def panel_names)
qed (auto simp: listSubjects_ok getObject_ok countObjects_ok check_permission_ok listRelationships_def reverseRelationships_def getCacheInfo_def
      IDENTIFIED_def panel_names call_closed_def intro!: relationship_page_ok begun_issue synchronizeEpoch_ok)

lemma answer_state_ok: "ops_ok s \<Longrightarrow> pending_ok p \<Longrightarrow> ops_ok (answer_state p v s)"
proof (cases p)
  case (Page_Pending k panelId i cs limit)
  assume "ops_ok s" "pending_ok p"
  moreover from this Page_Pending have "pager_ok \<lparr>pager_panel = panelId, pager_index = i, pager_page = i + 1, pager_cursors = take (i + 1) cs,
      pager_info = prop_of v ''pageInfo'', pager_value = v\<rparr>"
    by (cases cs) (auto simp: pager_ok_def cursors_ok_def list_all_iff dest: in_set_takeD)
  ultimately show ?thesis using Page_Pending by (simp add: page_arrives_def ops_ok_def list_all_update)
qed (simp_all add: count_arrives_def ops_ok_def)

lemma list_all_set_None: "list_all (case_option True P) ps \<Longrightarrow> list_all (case_option True P) (ps[i := None])"
  by (auto simp: list_all_iff dest!: subsetD [OF set_update_subset_insert] split: option.splits)

lemma ops_step_ok: "machine_ok m \<Longrightarrow> ops_step literal e m = Some m' \<Longrightarrow> machine_ok m'"
proof (cases e)
  case (Call_Starts explorer c)
  assume "machine_ok m" "ops_step literal e m = Some m'"
  moreover from this have "begun_ok (start_call literal explorer c (ops m))" by (simp add: start_call_ok machine_ok_def)
  ultimately show ?thesis using Call_Starts
    by (cases "start_call literal explorer c (ops m)") (auto simp: begun_ok_def machine_ok_def split: sum.splits begun.splits)
next
  case (Answer_Arrives i answer)
  assume m: "machine_ok m" "ops_step literal e m = Some m'"
  have "pending_ok p" if "i < length (waiting m)" "waiting m ! i = Some p" for p
    using m(1) that by (auto simp: machine_ok_def list_all_length split: option.splits)
  with m show ?thesis using Answer_Arrives answer_state_ok [of "ops m"]
    by (auto simp: machine_ok_def list_all_set_None split: if_splits option.splits sum.splits)
qed (auto simp: machine_ok_def cancel_scope_def cancelCount_def reset_ops_def Let_def synchronizeEpoch_ok initial_ops_ok)

interpretation ops: machine_invariant "ops_step literal" "start_ops e" machine_ok
  by unfold_locales (simp add: machine_ok_def start_ops_def initial_ops_ok, rule ops_step_ok)

text \<open>
  C30 Whatever the calls, answers, cancellations and resets and however they interleave, every request
  the explorer issues is inside the closed contract (one of eight operations, a panel name the
  controller accepts, valid identifiers, a bounded cursor, at most 100 items per page), and every
  pager is consistent: its cursors are those of the pages up to the one shown, the first without one.
\<close>

theorem explorer_requests_closed:
  "case run_events (ops_step literal) es (start_ops e) of
     None \<Rightarrow> True
   | Some m \<Rightarrow> list_all call_closed (issued m) \<and> list_all (\<lambda>(k, p). pager_ok p) (pagers (ops m))"
  using ops.holds_run [of literal es e] by (simp add: machine_ok_def ops_ok_def split: option.split)

subsection \<open>Escalated counts\<close>

lemma nextCountCeiling_int:
  "nextCountCeiling literal (JInt c) (JInt m) =
     JInt (if c < 1000 \<and> 1000 \<le> m then 1000 else if c < 10000 \<and> 10000 \<le> m then 10000
       else if c < 100000 \<and> 100000 \<le> m then 100000 else if c < 1000000 \<and> 1000000 \<le> m then 1000000 else m)"
proof -
  have "num_less (to_number literal (JInt c)) (JInt s) \<longleftrightarrow> c < s" "num_le (JInt s) (to_number literal (JInt m)) \<longleftrightarrow> s \<le> m" for s
    by (simp_all add: num_less_def num_le_def to_number_def)
  then show ?thesis by (simp add: nextCountCeiling_def COUNT_STEPS_def)
qed

lemma nextCountCeiling_climbs:
  assumes "c \<le> m" "c = m \<or> low \<le> c" "(low, high) \<in> {(c, 1000), (1000, 10000), (10000, 100000), (100000, 1000000), (1000000, m)}"
  shows "\<exists>d. nextCountCeiling literal (JInt c) (JInt m) = JInt d \<and> d \<le> m \<and> (d = m \<or> high \<le> d)"
  using assms by (auto simp: nextCountCeiling_int)

text \<open>
  C13 Escalating a count ends: from any ceiling below the descriptor's limit the next one is strictly
  larger and within the limit, and after at most five escalations it is the limit, where it stays.
\<close>

theorem count_escalation_ends:
  "(if c < m then (case nextCountCeiling literal (JInt c) (JInt m) of JInt d \<Rightarrow> c < d \<and> d \<le> m | _ \<Rightarrow> False) else True)
   \<and> (if c \<le> m then ((\<lambda>previous. nextCountCeiling literal previous (JInt m)) ^^ (5 + k)) (JInt c) = JInt m else True)"
proof -
  let ?next = "\<lambda>previous. nextCountCeiling literal previous (JInt m)"
  have stays: "(?next ^^ k) (JInt m) = JInt m"
    by (induction k) (auto simp: nextCountCeiling_int)
  have "(?next ^^ 5) (JInt c) = JInt m" if below: "c \<le> m"
  proof -
    obtain d1 where 1: "?next (JInt c) = JInt d1" "d1 \<le> m" "d1 = m \<or> 1000 \<le> d1" using nextCountCeiling_climbs [OF below, of c] by blast
    obtain d2 where 2: "?next (JInt d1) = JInt d2" "d2 \<le> m" "d2 = m \<or> 10000 \<le> d2" using nextCountCeiling_climbs [OF 1(2,3)] by blast
    obtain d3 where 3: "?next (JInt d2) = JInt d3" "d3 \<le> m" "d3 = m \<or> 100000 \<le> d3" using nextCountCeiling_climbs [OF 2(2,3)] by blast
    obtain d4 where 4: "?next (JInt d3) = JInt d4" "d4 \<le> m" "d4 = m \<or> 1000000 \<le> d4" using nextCountCeiling_climbs [OF 3(2,3)] by blast
    have "?next (JInt d4) = JInt m" using 4(2,3) by (auto simp: nextCountCeiling_int)
    with 1(1) 2(1) 3(1) 4(1) show ?thesis by (simp add: numeral_eq_Suc)
  qed
  with stays show ?thesis by (simp add: nextCountCeiling_int funpow_add add.commute [of 5])
qed

end
