(* ===== verification/Fixture_Batching.thy ===== *)
theory Fixture_Batching
  imports Fixture_Sizes
begin

text \<open>
  \<open>packages/fixture-generator/batching.mjs\<close>: the stream cut into bounded batches
  (\<open>fixtureBatches\<close>), the resumable seeding loop over them (\<open>seedFixtureBatches\<close>), the
  bounded in-memory fixture and the NDJSON writer. A generator that may throw after having
  yielded is the list of what it yields and, if it throws, the error. An abort signal is a
  function of the number of earlier looks at it. The callback \<open>applyBatch\<close> works on a state
  of its own; \<open>hash\<close> is the hexadecimal SHA-256 of \<open>node:crypto\<close>.
\<close>

subsection \<open>Limits\<close>

datatype batch_error =
    BatchCutPoint generator_error
  | LimitField string
  | BundleExceeds nat
  | MemoryResources nat nat
  | MemoryRecords
  | MemoryBytes
  | NotAFunction
  | NotAWritable
  | ResumeOutside
  | ResumeNotBoundary nat
  | Aborted
  | ApplyFailed

record limits =
  maxResources :: nat
  maxRecords :: nat
  maxCanonicalBytes :: nat

definition limits_json :: "nat \<Rightarrow> nat \<Rightarrow> nat \<Rightarrow> jsval" where
  "limits_json a b c = JObj [(''maxResources'', JInt (int a)), (''maxRecords'', JInt (int b)),
     (''maxCanonicalBytes'', JInt (int c))]"

definition DEFAULT_DURABLE_BATCH_LIMITS :: jsval where
  "DEFAULT_DURABLE_BATCH_LIMITS = limits_json 250 1250 1048576"

definition DEFAULT_IN_MEMORY_LIMITS :: jsval where
  "DEFAULT_IN_MEMORY_LIMITS = limits_json 10000 50000 8388608"

definition limit_field :: "jsval \<Rightarrow> string \<Rightarrow> batch_error + nat" where
  "limit_field v f =
     (if isSafeInteger (prop_of v f) \<and> \<not> the_int (prop_of v f) < 1
      then Inr (nat (the_int (prop_of v f))) else Inl (LimitField f))"

definition validateLimits :: "jsval \<Rightarrow> batch_error + limits" where
  "validateLimits v =
     bind_r (limit_field v ''maxResources'') (\<lambda>a.
     bind_r (limit_field v ''maxRecords'') (\<lambda>b.
     bind_r (limit_field v ''maxCanonicalBytes'') (\<lambda>c.
     Inr \<lparr>maxResources = a, maxRecords = b, maxCanonicalBytes = c\<rparr>)))"

subsection \<open>Batches\<close>

record batch =
  firstResourceOrdinal :: nat
  lastResourceOrdinal :: int
  resourceCount :: nat
  records :: "fixture_record list"
  canonicalBytes :: nat

record finished_batch = batch +
  digest :: string
  idempotencyKey :: string

definition emptyBatch :: "nat \<Rightarrow> batch" where
  "emptyBatch ordinal = \<lparr>firstResourceOrdinal = ordinal, lastResourceOrdinal = int ordinal - 1,
     resourceCount = 0, records = [], canonicalBytes = 0\<rparr>"

definition finishBatch :: "(string \<Rightarrow> string) \<Rightarrow> batch \<Rightarrow> finished_batch" where
  "finishBatch hash b = batch.extend b
     \<lparr>digest = ''sha256:'' @ hash (concat (map record_line (records b))),
      idempotencyKey = ''eacl-demo-fixture-v1:'' @ nat_str (firstResourceOrdinal b) @ ''-''
        @ int_str (lastResourceOrdinal b)\<rparr>"

definition wouldExceed :: "batch \<Rightarrow> nat \<Rightarrow> nat \<Rightarrow> limits \<Rightarrow> bool" where
  "wouldExceed b additionalRecords additionalBytes lim \<longleftrightarrow>
     resourceCount b + 1 > maxResources lim
     \<or> length (records b) + additionalRecords > maxRecords lim
     \<or> canonicalBytes b + additionalBytes > maxCanonicalBytes lim"

definition bundle_bytes :: "resource_bundle \<Rightarrow> nat" where
  "bundle_bytes b = sum_list (map byte_length (bundle_lines b))"

definition add_bundle :: "nat \<Rightarrow> resource_bundle \<Rightarrow> batch \<Rightarrow> batch" where
  "add_bundle ordinal b bt =
     bt\<lparr>resourceCount := resourceCount bt + 1,
        records := records bt @ bundle_records b,
        canonicalBytes := canonicalBytes bt + bundle_bytes b,
        lastResourceOrdinal := int ordinal\<rparr>"

definition oversized :: "limits \<Rightarrow> resource_bundle \<Rightarrow> bool" where
  "oversized lim b \<longleftrightarrow> length (bundle_records b) > maxRecords lim \<or> bundle_bytes b > maxCanonicalBytes lim"

type_synonym batch_stream = "finished_batch list \<times> batch_error option"

fun batch_loop :: "(string \<Rightarrow> string) \<Rightarrow> limits \<Rightarrow> nat \<Rightarrow> batch \<Rightarrow> resource_bundle list \<Rightarrow> batch_stream" where
  "batch_loop hash lim ordinal bt [] =
     (if resourceCount bt > 0 then [finishBatch hash bt] else [], None)"
| "batch_loop hash lim ordinal bt (b # bs) =
     (if oversized lim b then ([], Some (BundleExceeds ordinal))
      else if resourceCount bt > 0 \<and> wouldExceed bt (length (bundle_records b)) (bundle_bytes b) lim then
        (case batch_loop hash lim (Suc ordinal) (add_bundle ordinal b (emptyBatch ordinal)) bs of
           (ys, e) \<Rightarrow> (finishBatch hash bt # ys, e))
      else batch_loop hash lim (Suc ordinal) (add_bundle ordinal b bt) bs)"

definition fixtureBatches :: "(string \<Rightarrow> string) \<Rightarrow> nat \<Rightarrow> jsval \<Rightarrow> batch_stream" where
  "fixtureBatches hash cutPoint lims =
     (case validateCutPoint (int cutPoint) of
        Inl e \<Rightarrow> ([], Some (BatchCutPoint e))
      | Inr _ \<Rightarrow>
         (case validateLimits lims of
            Inl e \<Rightarrow> ([], Some e)
          | Inr lim \<Rightarrow>
             (case fixtureBundles cutPoint of
                Inl e \<Rightarrow> ([], Some (BatchCutPoint e))
              | Inr bs \<Rightarrow> batch_loop hash lim 0 (emptyBatch 0) bs)))"

subsection \<open>Resumable seeding\<close>

record 's seed_state =
  applied :: 's
  completed :: nat
  progress :: "(nat \<times> nat \<times> string) list"

record seed_result =
  completedResources :: nat
  totalResources :: nat
  readyToVerify :: bool

type_synonym 's applier = "'s \<Rightarrow> finished_batch \<Rightarrow> 's \<times> bool"

fun seed_loop :: "'s applier \<Rightarrow> (nat \<Rightarrow> bool) \<Rightarrow> nat \<Rightarrow> nat \<Rightarrow> batch_error option \<Rightarrow> nat \<Rightarrow>
    finished_batch list \<Rightarrow> 's seed_state \<Rightarrow> 's seed_state \<times> batch_error option" where
  "seed_loop applyBatch aborted cutPoint resume err look [] st = (st, err)"
| "seed_loop applyBatch aborted cutPoint resume err look (b # bs) st =
     (if aborted look then (st, Some Aborted)
      else if lastResourceOrdinal b < int resume then
        seed_loop applyBatch aborted cutPoint resume err (Suc look) bs st
      else if firstResourceOrdinal b < resume then (st, Some (ResumeNotBoundary resume))
      else (case applyBatch (applied st) b of
         (s, False) \<Rightarrow> (st\<lparr>applied := s\<rparr>, Some ApplyFailed)
       | (s, True) \<Rightarrow>
           (let upto = nat (lastResourceOrdinal b + 1)
            in seed_loop applyBatch aborted cutPoint resume err (Suc look) bs
                 (st\<lparr>applied := s, completed := upto,
                     progress := progress st @ [(upto, cutPoint, digest b)]\<rparr>))))"

definition seedFixtureBatches :: "(string \<Rightarrow> string) \<Rightarrow> 's applier option \<Rightarrow> nat \<Rightarrow> jsval \<Rightarrow> jsval \<Rightarrow>
    (nat \<Rightarrow> bool) \<Rightarrow> 's \<Rightarrow> 's seed_state \<times> (batch_error + seed_result)" where
  "seedFixtureBatches hash applyBatch cutPoint lims nextResourceOrdinal aborted s =
     (let resume = nat (the_int nextResourceOrdinal);
          start = \<lparr>applied = s, completed = resume, progress = []\<rparr> in
      case applyBatch of
        None \<Rightarrow> (start, Inl NotAFunction)
      | Some f \<Rightarrow>
         (case validateCutPoint (int cutPoint) of
            Inl e \<Rightarrow> (start, Inl (BatchCutPoint e))
          | Inr _ \<Rightarrow>
             if \<not> isSafeInteger nextResourceOrdinal \<or> the_int nextResourceOrdinal < 0
               \<or> the_int nextResourceOrdinal > int cutPoint then (start, Inl ResumeOutside)
             else
               (case fixtureBatches hash cutPoint lims of (bs, err) \<Rightarrow>
                 (case seed_loop f aborted cutPoint resume err 0 bs start of
                    (st, Some e) \<Rightarrow> (st, Inl e)
                  | (st, None) \<Rightarrow>
                      (st, Inr \<lparr>completedResources = completed st, totalResources = cutPoint,
                                readyToVerify = (completed st = cutPoint)\<rparr>)))))"

subsection \<open>The bounded in-memory fixture and the writer\<close>

record memory_fixture =
  mem_cutPoint :: nat
  mem_records :: "fixture_record list"
  mem_bytes :: nat

fun materialize_records :: "limits \<Rightarrow> fixture_record list \<Rightarrow> fixture_record list \<times> nat \<Rightarrow>
    batch_error + fixture_record list \<times> nat" where
  "materialize_records lim [] acc = Inr acc"
| "materialize_records lim (r # rs) (out, bytes) =
     (let bytes' = bytes + byte_length (record_line r)
      in throw_if (bytes' > maxCanonicalBytes lim) MemoryBytes
           (materialize_records lim rs (out @ [r], bytes')))"

fun materialize_bundles :: "limits \<Rightarrow> resource_bundle list \<Rightarrow> fixture_record list \<times> nat \<Rightarrow>
    batch_error + fixture_record list \<times> nat" where
  "materialize_bundles lim [] acc = Inr acc"
| "materialize_bundles lim (b # bs) acc =
     throw_if (length (fst acc) + length (bundle_records b) > maxRecords lim) MemoryRecords
       (bind_r (materialize_records lim (bundle_records b) acc) (materialize_bundles lim bs))"

definition materializeBoundedFixture :: "nat \<Rightarrow> jsval \<Rightarrow> batch_error + memory_fixture" where
  "materializeBoundedFixture cutPoint lims =
     (case validateCutPoint (int cutPoint) of
        Inl e \<Rightarrow> Inl (BatchCutPoint e)
      | Inr _ \<Rightarrow>
         bind_r (validateLimits lims) (\<lambda>lim.
           throw_if (cutPoint > maxResources lim) (MemoryResources cutPoint (maxResources lim))
             (case fixtureBundles cutPoint of
                Inl e \<Rightarrow> Inl (BatchCutPoint e)
              | Inr bs \<Rightarrow>
                  bind_r (materialize_bundles lim bs ([], 0)) (\<lambda>(rs, bytes).
                    Inr \<lparr>mem_cutPoint = cutPoint, mem_records = rs, mem_bytes = bytes\<rparr>))))"

text \<open>The stream written so far, with the two counters; waiting for \<open>drain\<close> changes nothing.\<close>

record written =
  out_lines :: "string list"
  w_lines :: nat
  w_bytes :: nat

fun write_lines :: "(nat \<Rightarrow> bool) \<Rightarrow> nat \<Rightarrow> string list \<Rightarrow> written \<Rightarrow> written \<times> batch_error option" where
  "write_lines aborted look [] w = (w, None)"
| "write_lines aborted look (l # ls) w =
     (if aborted look then (w, Some Aborted)
      else write_lines aborted (Suc look) ls
        \<lparr>out_lines = out_lines w @ [l], w_lines = w_lines w + 1, w_bytes = w_bytes w + byte_length l\<rparr>)"

definition writeFixtureNdjson :: "fixture_context \<Rightarrow> nat \<Rightarrow> bool \<Rightarrow> (nat \<Rightarrow> bool) \<Rightarrow> written \<times> batch_error option" where
  "writeFixtureNdjson ctx cutPoint isWritable aborted =
     (let w = \<lparr>out_lines = [], w_lines = 0, w_bytes = 0\<rparr> in
      case validateCutPoint (int cutPoint) of
        Inl e \<Rightarrow> (w, Some (BatchCutPoint e))
      | Inr _ \<Rightarrow>
         if \<not> isWritable then (w, Some NotAWritable)
         else (case fixtureHeader cutPoint ctx of
            Inl e \<Rightarrow> (w, Some (BatchCutPoint e))
          | Inr h \<Rightarrow>
             (case fixtureBundles cutPoint of
                Inl e \<Rightarrow> write_lines aborted 0 [canonical_line h] w
              | Inr bs \<Rightarrow> write_lines aborted 0 (canonical_line h # stream_lines bs) w)))"

subsection \<open>What a batch stream promises\<close>

text \<open>
  \<open>slice_of all b\<close>: the batch holds the records of the bundles of \<open>all\<close> from its first
  ordinal on, as many as it counts. \<open>tiles\<close>: the batches lie end to end, none is empty, each
  is signed with the hash of its own lines and fits the limits, and each but the last of the
  whole stream was closed because the next bundle no longer fitted.
\<close>

definition slice_of :: "resource_bundle list \<Rightarrow> 'a batch_scheme \<Rightarrow> bool" where
  "slice_of all b \<longleftrightarrow>
     (let bs = take (resourceCount b) (drop (firstResourceOrdinal b) all) in
      firstResourceOrdinal b + resourceCount b \<le> length all
      \<and> lastResourceOrdinal b = int (firstResourceOrdinal b) + int (resourceCount b) - 1
      \<and> records b = concat (map bundle_records bs)
      \<and> canonicalBytes b = sum_list (map bundle_bytes bs))"

definition fits :: "limits \<Rightarrow> 'a batch_scheme \<Rightarrow> bool" where
  "fits lim b \<longleftrightarrow> resourceCount b \<le> maxResources lim \<and> length (records b) \<le> maxRecords lim
     \<and> canonicalBytes b \<le> maxCanonicalBytes lim"

definition signed :: "(string \<Rightarrow> string) \<Rightarrow> finished_batch \<Rightarrow> bool" where
  "signed hash b \<longleftrightarrow> digest b = ''sha256:'' @ hash (concat (map record_line (records b)))
     \<and> idempotencyKey b = ''eacl-demo-fixture-v1:'' @ nat_str (firstResourceOrdinal b) @ ''-''
          @ int_str (lastResourceOrdinal b)"

fun tiles :: "(string \<Rightarrow> string) \<Rightarrow> limits \<Rightarrow> resource_bundle list \<Rightarrow> nat \<Rightarrow> finished_batch list \<Rightarrow> nat \<Rightarrow> bool" where
  "tiles hash lim all k [] m = (k = m)"
| "tiles hash lim all k (y # ys) m =
     (firstResourceOrdinal y = k \<and> resourceCount y > 0 \<and> slice_of all y \<and> fits lim y \<and> signed hash y
      \<and> (k + resourceCount y < length all \<longrightarrow>
           wouldExceed (batch.truncate y) (length (bundle_records (all ! (k + resourceCount y))))
             (bundle_bytes (all ! (k + resourceCount y))) lim)
      \<and> tiles hash lim all (k + resourceCount y) ys m)"

lemma finishBatch_simps [simp]:
  "firstResourceOrdinal (finishBatch hash b) = firstResourceOrdinal b"
  "lastResourceOrdinal (finishBatch hash b) = lastResourceOrdinal b"
  "resourceCount (finishBatch hash b) = resourceCount b"
  "records (finishBatch hash b) = records b"
  "canonicalBytes (finishBatch hash b) = canonicalBytes b"
  "batch.truncate (finishBatch hash b) = b"
  by (simp_all add: finishBatch_def batch.defs)

lemma finishBatch_signed [simp]: "signed hash (finishBatch hash b)"
  by (simp add: signed_def) (simp add: finishBatch_def batch.defs)

lemma finishBatch_shape [simp]:
  "slice_of all (finishBatch hash b) = slice_of all b" "fits lim (finishBatch hash b) = fits lim b"
  by (simp_all add: slice_of_def fits_def)

lemma slice_of_empty: "k \<le> length all \<Longrightarrow> slice_of all (emptyBatch k)"
  by (simp add: slice_of_def emptyBatch_def)

lemma fits_empty: "fits lim (emptyBatch k)"
  by (simp add: fits_def emptyBatch_def)

lemma slice_of_add:
  assumes "slice_of all b" and "k = firstResourceOrdinal b + resourceCount b" and "k < length all"
  shows "slice_of all (add_bundle k (all ! k) b)"
  using assms by (simp add: slice_of_def add_bundle_def Let_def take_Suc_conv_app_nth)

lemma fits_add:
  "\<not> wouldExceed b (length (bundle_records x)) (bundle_bytes x) lim \<Longrightarrow> fits lim (add_bundle k x b)"
  by (simp add: fits_def wouldExceed_def add_bundle_def)

lemma fits_first:
  assumes "slice_of all b" and "resourceCount b = 0" and "\<not> oversized lim x" and "0 < maxResources lim"
  shows "fits lim (add_bundle k x b)"
  using assms by (simp add: fits_def oversized_def add_bundle_def slice_of_def)

lemma add_bundle_simps [simp]:
  "firstResourceOrdinal (add_bundle k x b) = firstResourceOrdinal b"
  "resourceCount (add_bundle k x b) = Suc (resourceCount b)"
  by (simp_all add: add_bundle_def)

lemma emptyBatch_simps [simp]:
  "firstResourceOrdinal (emptyBatch k) = k" "resourceCount (emptyBatch k) = 0"
  by (simp_all add: emptyBatch_def)

text \<open>
  The outcome of the loop: either it ran to the end and tiles the rest of the stream, or it
  stopped at the first bundle that no batch can hold, having tiled an initial part.
\<close>

fun loop_outcome :: "(string \<Rightarrow> string) \<Rightarrow> limits \<Rightarrow> resource_bundle list \<Rightarrow> nat \<Rightarrow> nat \<Rightarrow> batch_stream \<Rightarrow> bool" where
  "loop_outcome hash lim all first k (ys, None) =
     (list_all (\<lambda>b. \<not> oversized lim b) (drop k all) \<and> tiles hash lim all first ys (length all))"
| "loop_outcome hash lim all first k (ys, Some (BundleExceeds j)) =
     (k \<le> j \<and> j < length all \<and> oversized lim (all ! j)
      \<and> list_all (\<lambda>b. \<not> oversized lim b) (take (j - k) (drop k all))
      \<and> list_ex (tiles hash lim all first ys) [0..<Suc j])"
| "loop_outcome hash lim all first k (ys, Some _) = False"

lemma loop_outcome_step:
  assumes o: "loop_outcome hash lim all f (Suc k) s" and k: "k < length all" and n: "\<not> oversized lim (all ! k)"
  shows "loop_outcome hash lim all f k s"
proof -
  obtain ys e where s: "s = (ys, e)" by (cases s)
  have d: "drop k all = all ! k # drop (Suc k) all" using k by (simp add: Cons_nth_drop_Suc)
  show ?thesis
  proof (cases e)
    case None
    with o n show ?thesis by (simp add: s d)
  next
    case (Some err)
    with o s obtain j where j: "err = BundleExceeds j" by (cases err) auto
    with o s Some have "Suc k \<le> j" by simp
    then have "j - k = Suc (j - Suc k)" by simp
    with o n show ?thesis by (simp add: s Some j d)
  qed
qed

lemma loop_outcome_close:
  assumes o: "loop_outcome hash lim all k' k (ys, e)"
    and b: "firstResourceOrdinal b + resourceCount b = k'" "resourceCount b > 0" "slice_of all b" "fits lim b"
    and w: "k' < length all \<Longrightarrow>
      wouldExceed b (length (bundle_records (all ! k'))) (bundle_bytes (all ! k')) lim"
  shows "loop_outcome hash lim all (firstResourceOrdinal b) k (finishBatch hash b # ys, e)"
proof -
  have t: "tiles hash lim all (firstResourceOrdinal b) (finishBatch hash b # ys) m = tiles hash lim all k' ys m" for m
    using b w by auto
  show ?thesis
  proof (cases e)
    case None
    with o t show ?thesis by simp
  next
    case (Some err)
    with o obtain j where "err = BundleExceeds j" by (cases err) auto
    with o Some show ?thesis by (simp add: list_ex_iff t del: tiles.simps)
  qed
qed

lemma batch_loop_outcome:
  assumes "slice_of all b" and "fits lim b" and "0 < maxResources lim"
    and "k = firstResourceOrdinal b + resourceCount b" and "bs = drop k all"
  shows "loop_outcome hash lim all (firstResourceOrdinal b) k (batch_loop hash lim k b bs)"
  using assms
proof (induction bs arbitrary: k b)
  case Nil
  then have k: "k = length all" by (simp add: slice_of_def Let_def)
  have n: "loop_outcome hash lim all k k ([], None)" by (simp add: k)
  show ?case
  proof (cases "resourceCount b > 0")
    case True
    from loop_outcome_close [OF n] True Nil k show ?thesis by simp
  next
    case False
    with Nil k show ?thesis by simp
  qed
next
  case (Cons x bs)
  have k: "k < length all" using Cons.prems(5) by (metis drop_eq_Nil leI list.distinct(1))
  with Cons.prems(5) have x: "x = all ! k" and bs: "bs = drop (Suc k) all"
    by (simp_all add: Cons_nth_drop_Suc [symmetric])
  show ?case
  proof (cases "oversized lim x")
    case True
    have "tiles hash lim all (firstResourceOrdinal b) [] (firstResourceOrdinal b)" by simp
    moreover have "firstResourceOrdinal b \<in> set [0..<Suc k]" using Cons.prems(4) by auto
    ultimately show ?thesis using True k x by (auto simp: list_ex_iff)
  next
    case small: False
    show ?thesis
    proof (cases "resourceCount b > 0 \<and> wouldExceed b (length (bundle_records x)) (bundle_bytes x) lim")
      case True
      let ?b = "add_bundle k x (emptyBatch k)"
      obtain ys e where r: "batch_loop hash lim (Suc k) ?b bs = (ys, e)" by fastforce
      have "loop_outcome hash lim all (firstResourceOrdinal ?b) (Suc k) (batch_loop hash lim (Suc k) ?b bs)"
        using k x bs Cons.prems(3) small
        by (intro Cons.IH slice_of_add fits_first [of all]) (simp_all add: slice_of_empty slice_of_add)
      then have "loop_outcome hash lim all k k (ys, e)"
        using k small x r by (simp add: loop_outcome_step)
      then have "loop_outcome hash lim all (firstResourceOrdinal b) k (finishBatch hash b # ys, e)"
        using True Cons.prems(1,2) Cons.prems(4) [symmetric] unfolding x
        by (intro loop_outcome_close) blast+
      with True small r show ?thesis by simp
    next
      case False
      have "loop_outcome hash lim all (firstResourceOrdinal (add_bundle k x b)) (Suc k)
          (batch_loop hash lim (Suc k) (add_bundle k x b) bs)"
      proof (rule Cons.IH)
        show "slice_of all (add_bundle k x b)" using Cons.prems k x by (simp add: slice_of_add)
        show "fits lim (add_bundle k x b)"
          using False Cons.prems small fits_first [of all b lim x k] fits_add [of b x lim k] by blast
      qed (use Cons.prems bs in simp_all)
      then have "loop_outcome hash lim all (firstResourceOrdinal b) k
          (batch_loop hash lim (Suc k) (add_bundle k x b) bs)"
        using k small x by (simp add: loop_outcome_step)
      with small False show ?thesis by (cases "resourceCount b > 0") (simp_all del: loop_outcome.simps)
    qed
  qed
qed

lemma validateLimits_positive: "validateLimits v = Inr lim \<Longrightarrow> 0 < maxResources lim"
  by (auto simp: validateLimits_def limit_field_def split: if_splits)

lemma fixtureBatches_outcome:
  "case fixtureBatches hash n lims of (ys, e) \<Rightarrow>
     if \<not> valid_cut_point n then ys = [] \<and> e = Some (BatchCutPoint CutPointRange)
     else (case validateLimits lims of
        Inl err \<Rightarrow> ys = [] \<and> e = Some err
      | Inr lim \<Rightarrow> loop_outcome hash lim (bundles_of n) 0 0 (ys, e))"
proof (cases "valid_cut_point n")
  case False
  then have "validateCutPoint (int n) = Inl CutPointRange"
    by (auto simp: validateCutPoint_def valid_cut_point_def is_safe_integer_def)
  with False show ?thesis by (simp add: fixtureBatches_def)
next
  case True
  then have v: "validateCutPoint (int n) = Inr ()"
    by (auto simp: validateCutPoint_def valid_cut_point_def is_safe_integer_def)
  have "loop_outcome hash lim (bundles_of n) 0 0 (batch_loop hash lim 0 (emptyBatch 0) (bundles_of n))"
    if "validateLimits lims = Inr lim" for lim
    using batch_loop_outcome [of "bundles_of n" "emptyBatch 0" lim 0 "bundles_of n" hash]
      validateLimits_positive [OF that] by (simp add: slice_of_empty fits_empty)
  with True v show ?thesis
    by (auto simp: fixtureBatches_def fixtureBundles_valid split: sum.splits prod.splits)
qed

text \<open>
  C2 Given valid limits, \<open>fixtureBatches\<close> cuts the stream of a valid cut point into batches
  that lie end to end from bundle 0, each with exactly the records of its bundles, its byte
  count, its digest and its key, within all three limits, and closed only when the next
  bundle would break one. It throws exactly when some bundle alone exceeds the limits, names
  the first such bundle, and the batches yielded before tile an initial part of the stream.
\<close>

theorem fixtureBatches_tile_stream:
  "case fixtureBatches hash n lims of (ys, e) \<Rightarrow>
     if \<not> valid_cut_point n then ys = [] \<and> e = Some (BatchCutPoint CutPointRange)
     else (case validateLimits lims of
        Inl err \<Rightarrow> ys = [] \<and> e = Some err
      | Inr lim \<Rightarrow> loop_outcome hash lim (bundles_of n) 0 0 (ys, e))"
  by (rule fixtureBatches_outcome)

lemma default_limits:
  "validateLimits DEFAULT_DURABLE_BATCH_LIMITS
     = Inr \<lparr>maxResources = 250, maxRecords = 1250, maxCanonicalBytes = 1048576\<rparr>"
  by (simp add: validateLimits_def limit_field_def DEFAULT_DURABLE_BATCH_LIMITS_def limits_json_def
      prop_of_def is_safe_integer_def MAX_SAFE_INTEGER_def)

text \<open>
  With the default durable limits \<open>fixtureBatches\<close> never throws for a valid cut point: no
  generated bundle is too large for a batch. An invalid cut point is refused before anything
  is yielded.
\<close>

theorem default_batches_never_fail:
  "snd (fixtureBatches hash n DEFAULT_DURABLE_BATCH_LIMITS)
     = (if valid_cut_point n then None else Some (BatchCutPoint CutPointRange))"
proof (cases "valid_cut_point n")
  case False
  then show ?thesis
    using fixtureBatches_outcome [where hash = hash and n = n and lims = DEFAULT_DURABLE_BATCH_LIMITS]
    by (auto split: prod.splits)
next
  case True
  let ?lim = "\<lparr>maxResources = 250, maxRecords = 1250, maxCanonicalBytes = 1048576\<rparr>"
  obtain ys e where r: "fixtureBatches hash n DEFAULT_DURABLE_BATCH_LIMITS = (ys, e)" by fastforce
  have o: "loop_outcome hash ?lim (bundles_of n) 0 0 (ys, e)"
    using fixtureBatches_outcome [where hash = hash and n = n and lims = DEFAULT_DURABLE_BATCH_LIMITS] True r
    by (simp add: default_limits)
  have small: "\<not> oversized ?lim b" if "b \<in> set (bundles_of n)" for b
    using small_bundle_lines [OF bundles_of_small [OF True that]]
    by (simp add: oversized_def bundle_bytes_def bundle_lines_def)
  show ?thesis
  proof (cases e)
    case None
    with r True show ?thesis by simp
  next
    case (Some err)
    with o obtain j where "err = BundleExceeds j" by (cases err) auto
    with o Some have "j < length (bundles_of n)" "oversized ?lim (bundles_of n ! j)" by simp_all
    with small [of "bundles_of n ! j"] show ?thesis by (metis nth_mem)
  qed
qed

subsection \<open>Interrupted and resumed seeding\<close>

text \<open>What a run leaves behind once the batches \<open>bs\<close> have been applied to it.\<close>

definition seed_after :: "('s \<Rightarrow> finished_batch \<Rightarrow> 's) \<Rightarrow> nat \<Rightarrow> finished_batch list \<Rightarrow> 's seed_state \<Rightarrow> 's seed_state" where
  "seed_after f n bs st = foldl (\<lambda>st b. st\<lparr>applied := f (applied st) b,
     completed := nat (lastResourceOrdinal b + 1),
     progress := progress st @ [(nat (lastResourceOrdinal b + 1), n, digest b)]\<rparr>) st bs"

definition always :: "('s \<Rightarrow> finished_batch \<Rightarrow> 's) \<Rightarrow> 's applier" where
  "always f s b = (f s b, True)"

definition never :: "nat \<Rightarrow> bool" where
  "never look = False"

lemma seed_loop_skip:
  "list_all (\<lambda>b. lastResourceOrdinal b < int r) pre \<Longrightarrow>
   seed_loop g never n r e look (pre @ bs) st = seed_loop g never n r e (look + length pre) bs st"
  by (induction pre arbitrary: look) (auto simp: never_def)

lemma seed_loop_run:
  assumes "list_all (\<lambda>b. r \<le> firstResourceOrdinal b \<and> int (firstResourceOrdinal b) \<le> lastResourceOrdinal b) bs"
  shows "seed_loop (always f) never n r e look bs st = (seed_after f n bs st, e)"
  using assms by (induction bs arbitrary: look st) (auto simp: never_def always_def seed_after_def Let_def)

lemma seed_loop_split:
  assumes "list_all (\<lambda>b. r \<le> firstResourceOrdinal b \<and> int (firstResourceOrdinal b) \<le> lastResourceOrdinal b) bs"
  obtains pre post e' where "bs = pre @ post" "seed_loop (always f) aborted n r e look bs st = (seed_after f n pre st, e')"
    "e' = (if post = [] then e else Some Aborted)"
  using assms
proof (induction bs arbitrary: look st thesis)
  case Nil
  then show ?case by (simp add: seed_after_def)
next
  case (Cons b bs)
  show ?case
  proof (cases "aborted look")
    case True
    then show ?thesis by (intro Cons.prems(1) [of "[]" "b # bs"]) (simp_all add: seed_after_def)
  next
    case False
    let ?st = "st\<lparr>applied := f (applied st) b, completed := nat (lastResourceOrdinal b + 1),
      progress := progress st @ [(nat (lastResourceOrdinal b + 1), n, digest b)]\<rparr>"
    obtain pre post e' where "bs = pre @ post"
      "seed_loop (always f) aborted n r e (Suc look) bs ?st = (seed_after f n pre ?st, e')"
      "e' = (if post = [] then e else Some Aborted)"
      using Cons.IH [of "Suc look" ?st] Cons.prems(2) by auto
    then show ?thesis using False Cons.prems(2)
      by (intro Cons.prems(1) [of "b # pre" post e']) (auto simp: seed_after_def always_def [of f "applied st" b] Let_def)
  qed
qed

lemma tiles_range:
  "tiles hash lim all k ys m \<Longrightarrow> list_all (\<lambda>b. k \<le> firstResourceOrdinal b
     \<and> int (firstResourceOrdinal b) \<le> lastResourceOrdinal b \<and> lastResourceOrdinal b < int m) ys \<and> k \<le> m"
proof (induction ys arbitrary: k)
  case (Cons y ys)
  then have "tiles hash lim all (k + resourceCount y) ys m" and y: "firstResourceOrdinal y = k" "resourceCount y > 0"
    "lastResourceOrdinal y = int k + int (resourceCount y) - 1"
    by (simp_all add: slice_of_def Let_def)
  with Cons.IH [of "k + resourceCount y"] show ?case by (auto simp: list_all_iff)
qed simp

lemma tiles_append:
  "tiles hash lim all k (xs @ ys) m \<longleftrightarrow>
     (\<exists>j. tiles hash lim all k xs j \<and> tiles hash lim all j ys m)"
  by (induction xs arbitrary: k) auto

lemma tiles_completed:
  assumes "tiles hash lim all k xs j" and "completed st = k"
  shows "completed (seed_after f n xs st) = j"
  using assms
proof (induction xs arbitrary: k st)
  case (Cons x xs)
  then have t: "tiles hash lim all (k + resourceCount x) xs j"
    and x: "lastResourceOrdinal x = int k + int (resourceCount x) - 1"
    by (simp_all add: slice_of_def Let_def)
  have "seed_after f n (x # xs) st = seed_after f n xs (seed_after f n [x] st)"
    by (simp add: seed_after_def)
  moreover have "completed (seed_after f n [x] st) = k + resourceCount x"
    using x by (simp add: seed_after_def nat_add_distrib)
  ultimately show ?case using Cons.IH [OF t, of "seed_after f n [x] st"] by simp
qed (simp add: seed_after_def)

lemma seed_after_append: "seed_after f n (xs @ ys) st = seed_after f n ys (seed_after f n xs st)"
  by (simp add: seed_after_def)

text \<open>What a run reports to its caller for its final state and its error.\<close>

definition seed_report :: "nat \<Rightarrow> 's seed_state \<times> batch_error option \<Rightarrow> 's seed_state \<times> (batch_error + seed_result)" where
  "seed_report n r = (case r of (st, Some e) \<Rightarrow> (st, Inl e)
     | (st, None) \<Rightarrow> (st, Inr \<lparr>completedResources = completed st, totalResources = n,
                              readyToVerify = (completed st = n)\<rparr>))"

lemma seedFixtureBatches_run:
  assumes "valid_cut_point n" and "r \<le> n" and "fixtureBatches hash n lims = (bs, e)"
  shows "seedFixtureBatches hash (Some g) n lims (JInt (int r)) aborted s =
     seed_report n (seed_loop g aborted n r e 0 bs \<lparr>applied = s, completed = r, progress = []\<rparr>)"
proof -
  have v: "validateCutPoint (int n) = Inr ()" and s: "is_safe_integer (int r)"
    using assms by (auto simp: validateCutPoint_def valid_cut_point_def is_safe_integer_def)
  show ?thesis using v s assms
    by (auto simp: seedFixtureBatches_def seed_report_def Let_def split: prod.splits option.splits)
qed

lemma fixtureBatches_tiles:
  assumes "valid_cut_point n" and "fixtureBatches hash n lims = (bs, e)"
  obtains lim m where "tiles hash lim (bundles_of n) 0 bs m" "m \<le> n" "e = None \<Longrightarrow> m = n"
proof (cases "validateLimits lims")
  case (Inl err)
  then have "bs = []" "e \<noteq> None"
    using assms fixtureBatches_outcome [where hash = hash and n = n and lims = lims] by auto
  then show ?thesis using that [of undefined 0] by auto
next
  case (Inr lim)
  then have o: "loop_outcome hash lim (bundles_of n) 0 0 (bs, e)"
    using assms fixtureBatches_outcome [where hash = hash and n = n and lims = lims] by simp
  show ?thesis
  proof (cases e)
    case None
    with o that [of lim n] show ?thesis by simp
  next
    case (Some err)
    with o obtain j where "err = BundleExceeds j" by (cases err) auto
    with o Some have "\<exists>m. m \<le> n \<and> tiles hash lim (bundles_of n) 0 bs m"
      by (auto simp: list_ex_iff intro: less_imp_le) (meson less_imp_le less_trans)
    then obtain m where "m \<le> n" "tiles hash lim (bundles_of n) 0 bs m" by blast
    with that [of lim m] Some show ?thesis by simp
  qed
qed

lemma seed_interrupted:
  assumes "tiles hash lim all 0 bs m" and "m \<le> n" and "completed st = 0"
  shows "\<exists>pre post e'. bs = pre @ post \<and> seed_loop (always f) aborted n 0 e 0 bs st = (seed_after f n pre st, e')
    \<and> completed (seed_after f n pre st) \<le> n
    \<and> (\<forall>st'. seed_loop (always f) never n (completed (seed_after f n pre st)) e 0 bs st'
        = (seed_after f n post st', e))"
proof -
  have "list_all (\<lambda>b. 0 \<le> firstResourceOrdinal b \<and> int (firstResourceOrdinal b) \<le> lastResourceOrdinal b) bs"
    using tiles_range [OF assms(1)] by (simp add: list_all_iff)
  from seed_loop_split [OF this] obtain pre post e' where bs: "bs = pre @ post"
    and run: "seed_loop (always f) aborted n 0 e 0 bs st = (seed_after f n pre st, e')" by metis
  obtain j where pre: "tiles hash lim all 0 pre j" and post: "tiles hash lim all j post m"
    using assms(1) by (auto simp: bs tiles_append)
  have c: "completed (seed_after f n pre st) = j" by (rule tiles_completed [OF pre assms(3)])
  have "list_all (\<lambda>b. lastResourceOrdinal b < int j) pre"
    using tiles_range [OF pre] by (simp add: list_all_iff)
  then have skip: "\<And>st'. seed_loop (always f) never n j e 0 (pre @ post) st'
      = seed_loop (always f) never n j e (0 + length pre) post st'"
    by (rule seed_loop_skip)
  have "list_all (\<lambda>b. j \<le> firstResourceOrdinal b \<and> int (firstResourceOrdinal b) \<le> lastResourceOrdinal b) post"
    using tiles_range [OF post] by (simp add: list_all_iff)
  then have "\<And>st'. seed_loop (always f) never n j e (length pre) post st' = (seed_after f n post st', e)"
    by (rule seed_loop_run)
  moreover have "j \<le> n" using tiles_range [OF post] assms(2) by simp
  ultimately show ?thesis using bs run skip c by auto
qed

lemma seed_after_start:
  "seed_after f n bs st = \<lparr>applied = foldl f (applied st) bs, completed = completed (seed_after f n bs st),
     progress = progress st @ map (\<lambda>b. (nat (lastResourceOrdinal b + 1), n, digest b)) bs\<rparr>"
proof (induction bs arbitrary: st)
  case Nil
  show ?case by (simp add: seed_after_def)
next
  case (Cons b bs)
  have "seed_after f n (b # bs) st = seed_after f n bs (seed_after f n [b] st)"
    by (simp add: seed_after_def)
  then show ?case using Cons.IH [of "seed_after f n [b] st"] by (simp add: seed_after_def)
qed

definition run_applied :: "'s seed_state \<times> 'r \<Rightarrow> 's" where
  "run_applied r = applied (fst r)"

lemma completed_after_cong:
  "completed st = completed st' \<Longrightarrow> completed (seed_after f n bs st) = completed (seed_after f n bs st')"
  by (induction bs arbitrary: st st') (simp_all add: seed_after_def)

lemma seed_never_from_zero:
  assumes "tiles hash lim all 0 bs m"
  shows "seed_loop (always f) never n 0 e 0 bs st = (seed_after f n bs st, e)"
  using tiles_range [OF assms] by (intro seed_loop_run) (simp add: list_all_iff)

text \<open>
  C1 An interrupted seeding can be resumed. Whatever the abort signal did to a first run
  that started at ordinal 0, a second run started at the ordinal the first had completed,
  on the state the first left behind, ends in the state, the report and (together) the
  progress events of one run that was never interrupted: nothing is applied twice, nothing
  is left out, and the resume ordinal is always a batch boundary.
\<close>

theorem seed_resume_completes:
  "(let first = seedFixtureBatches hash (Some (always f)) n lims (JInt 0) aborted s;
        second = seedFixtureBatches hash (Some (always f)) n lims (JInt (int (completed (fst first)))) never
                   (applied (fst first));
        whole = seedFixtureBatches hash (Some (always f)) n lims (JInt 0) never s
    in applied (fst second) = applied (fst whole) \<and> snd second = snd whole
       \<and> progress (fst first) @ progress (fst second) = progress (fst whole))"
proof (cases "valid_cut_point n")
  case False
  then have "validateCutPoint (int n) = Inl CutPointRange"
    by (auto simp: validateCutPoint_def valid_cut_point_def is_safe_integer_def)
  then show ?thesis by (simp add: seedFixtureBatches_def Let_def)
next
  case True
  obtain bs e where b: "fixtureBatches hash n lims = (bs, e)" by fastforce
  obtain lim m where t: "tiles hash lim (bundles_of n) 0 bs m" "m \<le> n"
    using fixtureBatches_tiles [OF True b] by metis
  let ?st = "\<lparr>applied = s, completed = 0, progress = []\<rparr> :: 'a seed_state"
  obtain pre post e' where bs: "bs = pre @ post"
    and first: "seed_loop (always f) aborted n 0 e 0 bs ?st = (seed_after f n pre ?st, e')"
    and c_le: "completed (seed_after f n pre ?st) \<le> n"
    and second: "\<And>st'. seed_loop (always f) never n (completed (seed_after f n pre ?st)) e 0 bs st'
        = (seed_after f n post st', e)"
    using seed_interrupted [OF t, of ?st f aborted e] by auto
  define c where "c = completed (seed_after f n pre ?st)"
  have one: "seedFixtureBatches hash (Some (always f)) n lims (JInt 0) aborted s
      = seed_report n (seed_after f n pre ?st, e')"
    using seedFixtureBatches_run [OF True _ b, of 0 "always f" aborted s] first by simp
  have whole: "seedFixtureBatches hash (Some (always f)) n lims (JInt 0) never s
      = seed_report n (seed_after f n (pre @ post) ?st, e)"
    using seedFixtureBatches_run [OF True _ b, of 0 "always f" never s] seed_never_from_zero [OF t(1), of f n e ?st] bs by simp
  have fst_report [simp]: "fst (seed_report n (st, x)) = st" for st :: "'a seed_state" and x
    by (simp add: seed_report_def split: option.split)
  let ?st2 = "\<lparr>applied = applied (seed_after f n pre ?st), completed = c, progress = []\<rparr> :: 'a seed_state"
  have two: "seedFixtureBatches hash (Some (always f)) n lims (JInt (int c)) never (applied (seed_after f n pre ?st))
      = seed_report n (seed_after f n post ?st2, e)"
    using seedFixtureBatches_run [OF True _ b, of c "always f" never] second c_le by (simp add: c_def)
  have "completed (seed_after f n post ?st2) = completed (seed_after f n (pre @ post) ?st)"
    unfolding seed_after_append by (rule completed_after_cong) (simp add: c_def)
  moreover have parts: "applied (seed_after f n xs st) = foldl f (applied st) xs"
    "progress (seed_after f n xs st) = progress st @ map (\<lambda>b. (nat (lastResourceOrdinal b + 1), n, digest b)) xs"
    for xs and st :: "'a seed_state"
    by (subst seed_after_start, simp)+
  have app: "applied (seed_after f n post ?st2) = applied (seed_after f n (pre @ post) ?st)"
    by (simp only: parts foldl_append seed_state.select_convs)
  have prog: "progress (seed_after f n pre ?st) @ progress (seed_after f n post ?st2)
      = progress (seed_after f n (pre @ post) ?st)"
    by (simp only: parts map_append seed_state.select_convs append_Nil)
  have "snd (seed_report n (st, e)) = snd (seed_report n (st', e))" if "completed st = completed st'"
    for st st' :: "'a seed_state"
    using that by (simp add: seed_report_def split: option.split)
  with app prog calculation show ?thesis
    unfolding Let_def one fst_report c_def [symmetric] two whole by blast
qed

subsection \<open>Bounded fixtures and written files\<close>

abbreviation lines_bytes :: "string list \<Rightarrow> nat" where
  "lines_bytes ls \<equiv> sum_list (map byte_length ls)"

lemma validateCutPoint_valid:
  "validateCutPoint (int n) = (if valid_cut_point n then Inr () else Inl CutPointRange)"
  by (auto simp: validateCutPoint_def valid_cut_point_def is_safe_integer_def)

lemma materialize_records_eq:
  "bytes \<le> maxCanonicalBytes lim \<Longrightarrow> materialize_records lim rs (out, bytes) =
     (let total = bytes + lines_bytes (map record_line rs)
      in if total \<le> maxCanonicalBytes lim then Inr (out @ rs, total) else Inl MemoryBytes)"
  by (induction rs arbitrary: out bytes) (auto simp: Let_def)

fun materialize_outcome :: "limits \<Rightarrow> fixture_record list \<Rightarrow> batch_error + fixture_record list \<times> nat \<Rightarrow> bool" where
  "materialize_outcome lim all (Inr (out, bytes)) =
     (out = all \<and> bytes = lines_bytes (map record_line all)
      \<and> length out \<le> maxRecords lim \<and> bytes \<le> maxCanonicalBytes lim)"
| "materialize_outcome lim all (Inl e) =
     (e = MemoryRecords \<and> length all > maxRecords lim
      \<or> e = MemoryBytes \<and> lines_bytes (map record_line all) > maxCanonicalBytes lim)"

lemma materialize_bundles_outcome:
  assumes "length out \<le> maxRecords lim" and "lines_bytes (map record_line out) \<le> maxCanonicalBytes lim"
  shows "materialize_outcome lim (out @ concat (map bundle_records bs))
    (materialize_bundles lim bs (out, lines_bytes (map record_line out)))"
  using assms
proof (induction bs arbitrary: out)
  case Nil
  then show ?case by simp
next
  case (Cons b bs)
  show ?case
  proof (cases "length (out @ bundle_records b) > maxRecords lim")
    case True
    then show ?thesis by simp
  next
    case small: False
    show ?thesis
    proof (cases "lines_bytes (map record_line (out @ bundle_records b)) \<le> maxCanonicalBytes lim")
      case True
      with Cons.IH [of "out @ bundle_records b"] small show ?thesis
        by (simp add: materialize_records_eq [OF Cons.prems(2)] del: materialize_outcome.simps map_map)
    next
      case False
      with small show ?thesis by (simp add: materialize_records_eq [OF Cons.prems(2)] del: map_map)
    qed
  qed
qed

text \<open>
  \<open>materializeBoundedFixture\<close> returns every record of the fixture, in order, with their
  canonical byte count, exactly when the three limits hold for the whole fixture; it never
  returns more than a limit allows, and each refusal names a limit that is really exceeded.
\<close>

theorem materialize_within_limits:
  "case materializeBoundedFixture n lims of
     Inr m \<Rightarrow>
       (case validateLimits lims of
          Inl _ \<Rightarrow> False
        | Inr lim \<Rightarrow> valid_cut_point n \<and> n \<le> maxResources lim \<and> mem_cutPoint m = n
            \<and> materialize_outcome lim (concat (map bundle_records (bundles_of n))) (Inr (mem_records m, mem_bytes m)))
   | Inl e \<Rightarrow>
       if \<not> valid_cut_point n then e = BatchCutPoint CutPointRange
       else (case validateLimits lims of
          Inl err \<Rightarrow> e = err
        | Inr lim \<Rightarrow> if n > maxResources lim then e = MemoryResources n (maxResources lim)
            else materialize_outcome lim (concat (map bundle_records (bundles_of n))) (Inl e))"
proof (cases "valid_cut_point n")
  case False
  then show ?thesis by (simp add: materializeBoundedFixture_def validateCutPoint_valid)
next
  case True
  have o: "materialize_outcome lim (concat (map bundle_records (bundles_of n)))
      (materialize_bundles lim (bundles_of n) ([], 0))" for lim
    using materialize_bundles_outcome [of "[]" lim "bundles_of n"] by simp
  show ?thesis
  proof (cases "validateLimits lims")
    case (Inl e)
    with True show ?thesis by (simp add: materializeBoundedFixture_def validateCutPoint_valid)
  next
    case (Inr lim)
    show ?thesis
    proof (cases "materialize_bundles lim (bundles_of n) ([], 0)")
      case (Inl e)
      with True Inr o [of lim] show ?thesis
        by (auto simp: materializeBoundedFixture_def validateCutPoint_valid fixtureBundles_valid)
    next
      case (Inr r)
      obtain out bytes where r: "r = (out, bytes)" by (cases r)
      show ?thesis using True \<open>validateLimits lims = Inr lim\<close> Inr o [of lim]
        by (auto simp: materializeBoundedFixture_def validateCutPoint_valid fixtureBundles_valid r)
    qed
  qed
qed

lemma write_lines_outcome:
  "write_lines aborted look ls w = (w', e) \<Longrightarrow>
     \<exists>k \<le> length ls. out_lines w' = out_lines w @ take k ls \<and> w_lines w' = w_lines w + k
       \<and> w_bytes w' = w_bytes w + lines_bytes (take k ls)
       \<and> (if k = length ls then e = None else e = Some Aborted \<and> aborted (look + k))"
proof (induction ls arbitrary: look w)
  case Nil
  then show ?case by auto
next
  case (Cons l ls)
  show ?case
  proof (cases "aborted look")
    case True
    with Cons.prems show ?thesis by (intro exI [of _ 0]) auto
  next
    case False
    with Cons.prems Cons.IH obtain k where "k \<le> length ls"
      "out_lines w' = out_lines w @ [l] @ take k ls" "w_lines w' = w_lines w + 1 + k"
      "w_bytes w' = w_bytes w + byte_length l + lines_bytes (take k ls)"
      "if k = length ls then e = None else e = Some Aborted \<and> aborted (Suc look + k)"
      by fastforce
    then show ?thesis by (intro exI [of _ "Suc k"]) auto
  qed
qed

text \<open>
  \<open>writeFixtureNdjson\<close> writes the header and the lines of the stream in order and counts
  the lines and bytes it wrote. It ends without an error only when all of them are written;
  an abort leaves an initial part of them, cut at the line where the signal was seen; an
  invalid cut point or a missing stream writes nothing.
\<close>

theorem writer_output:
  "case writeFixtureNdjson ctx n isWritable aborted of (w, e) \<Rightarrow>
     let ls = canonical_line (header_json n ctx) # stream_lines (bundles_of n) in
     out_lines w = take (w_lines w) ls \<and> w_bytes w = lines_bytes (out_lines w) \<and>
     (if \<not> valid_cut_point n then e = Some (BatchCutPoint CutPointRange) \<and> w_lines w = 0
      else if \<not> isWritable then e = Some NotAWritable \<and> w_lines w = 0
      else if w_lines w = length ls then e = None
      else e = Some Aborted \<and> w_lines w < length ls \<and> aborted (w_lines w))"
proof (cases "valid_cut_point n \<and> isWritable")
  case False
  then show ?thesis by (auto simp: writeFixtureNdjson_def validateCutPoint_valid)
next
  case True
  define ls where "ls = canonical_line (header_json n ctx) # stream_lines (bundles_of n)"
  let ?w = "\<lparr>out_lines = [], w_lines = 0, w_bytes = 0\<rparr>"
  obtain w e where r: "write_lines aborted 0 ls ?w = (w, e)" by fastforce
  with True have run: "writeFixtureNdjson ctx n isWritable aborted = (w, e)"
    by (simp add: writeFixtureNdjson_def validateCutPoint_valid fixtureHeader_def fixtureBundles_valid
        ls_def Let_def del: write_lines.simps)
  obtain k where "k \<le> length ls" "out_lines w = take k ls" "w_lines w = k"
    "w_bytes w = lines_bytes (take k ls)" "if k = length ls then e = None else e = Some Aborted \<and> aborted (0 + k)"
    using write_lines_outcome [OF r] by (auto split del: if_split)
  then show ?thesis using True unfolding run by (simp add: Let_def ls_def [symmetric] split: if_splits)
qed

end
