(* ===== verification/Focus_Management.thy ===== *)
theory Focus_Management
  imports Guards Machine Selection
begin

text \<open>
  \<open>packages/explorer-state/src/focus-management.mjs\<close>: late answers must not move the focus after the
  user has gone on. A settled request queues a microtask; the document, which says which elements can
  be focused when it runs, is the environment.
\<close>

definition FOCUS_KEY :: regex where
  "FOCUS_KEY = Cat (cls ''az'' []) (Rep 0 (Some 63) (cls ''az09'' ''-''))"

definition natural_epoch :: "jsval \<Rightarrow> bool" where
  "natural_epoch v \<longleftrightarrow> isSafeInteger v \<and> \<not> num_less v (JInt 0)"

definition short_text :: "jsval \<Rightarrow> bool" where
  "short_text v \<longleftrightarrow> str_satisfies (\<lambda>s. 1 \<le> length s \<and> length s \<le> 128) v"

definition validate_focus :: "jsval \<Rightarrow> jsval \<Rightarrow> jsval \<Rightarrow> jsval \<Rightarrow> js_error + unit" where
  "validate_focus k e requestId targetId =
     reject_with [mismatch (matches FOCUS_KEY) k, Inr (\<not> natural_epoch e), Inr (\<not> short_text requestId), Inr (\<not> short_text targetId)] Type_Error"

record expectation =
  expected_epoch :: jsval
  expected_request :: jsval
  target_id :: jsval

record microtask =
  task_epoch :: jsval
  task_target :: jsval
  task_fallback :: jsval

text \<open>A focus move is logged with the epoch of its request and the epoch active when it happened.\<close>

record focus_manager =
  active_epoch :: jsval
  pending :: "(jsval \<times> expectation option) list"
  queue :: "microtask list"
  moves :: "(jsval \<times> jsval \<times> jsval) list"

definition start_focus :: focus_manager where
  "start_focus = \<lparr>active_epoch = JInt 0, pending = [], queue = [], moves = []\<rparr>"

definition expectation_of :: "(jsval \<times> expectation option) list \<Rightarrow> jsval \<Rightarrow> expectation option" where
  \<comment> \<open>the map keeps one entry per key; a deleted one is \<open>None\<close>\<close>
  "expectation_of m k = (case find (\<lambda>(l, _). same_key l k) m of None \<Rightarrow> None | Some (_, e) \<Rightarrow> e)"

definition put_expectation :: "jsval \<Rightarrow> expectation option \<Rightarrow> (jsval \<times> expectation option) list \<Rightarrow> (jsval \<times> expectation option) list" where
  "put_expectation k e m = (k, e) # filter (\<lambda>(l, _). \<not> same_key l k) m"

definition reset_focus :: "jsval \<Rightarrow> focus_manager \<Rightarrow> (js_error + unit) \<times> focus_manager" where
  "reset_focus e m =
     (if \<not> natural_epoch e then (Inl Type_Error, m) else (Inr (), m\<lparr>active_epoch := e, pending := []\<rparr>))"

definition expect_focus :: "jsval \<Rightarrow> jsval \<Rightarrow> jsval \<Rightarrow> jsval \<Rightarrow> focus_manager \<Rightarrow> (js_error + bool) \<times> focus_manager" where
  "expect_focus k e requestId targetId m =
     (case validate_focus k e requestId targetId of
        Inl err \<Rightarrow> (Inl err, m)
      | Inr _ \<Rightarrow>
          if \<not> strict_eq e (active_epoch m) then (Inr False, m)
          else (Inr True, m\<lparr>pending := put_expectation k (Some \<lparr>expected_epoch = e, expected_request = requestId, target_id = targetId\<rparr>) (pending m)\<rparr>))"

definition settle_focus :: "jsval \<Rightarrow> jsval \<Rightarrow> jsval \<Rightarrow> jsval \<Rightarrow> focus_manager \<Rightarrow> (js_error + bool) \<times> focus_manager" where
  "settle_focus k e requestId fallbackId m =
     (case reject_with [mismatch (matches FOCUS_KEY) k] Type_Error of
        Inl err \<Rightarrow> (Inl err, m)
      | Inr _ \<Rightarrow> (case expectation_of (pending m) k of
          None \<Rightarrow> (Inr False, m)
        | Some x \<Rightarrow>
            if \<not> strict_eq e (active_epoch m) \<or> \<not> strict_eq (expected_epoch x) e \<or> \<not> strict_eq (expected_request x) requestId then (Inr False, m)
            else (Inr True, m\<lparr>pending := put_expectation k None (pending m),
              queue := queue m @ [\<lparr>task_epoch = e, task_target = target_id x, task_fallback = (if fallbackId = JUndef then JNull else fallbackId)\<rparr>]\<rparr>)))"

definition cancel_focus :: "jsval \<Rightarrow> focus_manager \<Rightarrow> bool \<times> focus_manager" where
  "cancel_focus k m = (expectation_of (pending m) k \<noteq> None, m\<lparr>pending := put_expectation k None (pending m)\<rparr>)"

definition run_microtask :: "(jsval \<Rightarrow> bool) \<Rightarrow> focus_manager \<Rightarrow> focus_manager option" where
  \<comment> \<open>\<open>focusable(document.getElementById(id))\<close> is \<open>can i\<close>\<close>
  "run_microtask can m = (case queue m of
     [] \<Rightarrow> None
   | t # ts \<Rightarrow>
       let m' = m\<lparr>queue := ts\<rparr>; move = (\<lambda>i. Some (m'\<lparr>moves := moves m @ [(task_epoch t, active_epoch m, i)]\<rparr>)) in
       if \<not> strict_eq (task_epoch t) (active_epoch m) then Some m'
       else if can (task_target t) then move (task_target t)
       else if task_fallback t \<noteq> JNull \<and> can (task_fallback t) then move (task_fallback t)
       else Some m')"

datatype focus_event =
    Resets jsval
  | Expects jsval jsval jsval jsval
  | Settles jsval jsval jsval jsval
  | Cancels jsval
  | Runs "jsval \<Rightarrow> bool"

fun focus_step :: "focus_event \<Rightarrow> focus_manager \<Rightarrow> focus_manager option" where
  "focus_step (Resets e) m = Some (snd (reset_focus e m))"
| "focus_step (Expects k e r t) m = Some (snd (expect_focus k e r t m))"
| "focus_step (Settles k e r f) m = Some (snd (settle_focus k e r f m))"
| "focus_step (Cancels k) m = Some (snd (cancel_focus k m))"
| "focus_step (Runs can) m = run_microtask can m"

subsection \<open>Focus stays in its epoch\<close>

definition waits_in :: "jsval \<Rightarrow> jsval \<times> expectation option \<Rightarrow> bool" where
  "waits_in active w \<longleftrightarrow> (case snd w of None \<Rightarrow> True | Some e \<Rightarrow> strict_eq (expected_epoch e) active \<and> short_text (target_id e))"

definition moved_in :: "jsval \<times> jsval \<times> jsval \<Rightarrow> bool" where
  "moved_in v \<longleftrightarrow> strict_eq (fst v) (fst (snd v))"

definition focus_ok :: "focus_manager \<Rightarrow> bool" where
  "focus_ok m \<longleftrightarrow> list_all (waits_in (active_epoch m)) (pending m)
     \<and> list_all (\<lambda>t. short_text (task_target t)) (queue m) \<and> list_all moved_in (moves m)"

lemma put_expectation_all: "list_all P m \<Longrightarrow> P (k, e) \<Longrightarrow> list_all P (put_expectation k e m)"
  by (simp add: put_expectation_def list_all_iff)

lemma expectation_all: "list_all (waits_in a) m \<Longrightarrow> expectation_of m k = Some x \<Longrightarrow> strict_eq (expected_epoch x) a \<and> short_text (target_id x)"
  by (induction m) (auto simp: expectation_of_def waits_in_def split: if_splits)

lemma waits_in_None [simp]: "waits_in a (k, None)"
  by (simp add: waits_in_def)

lemma settle_focus_ok: "focus_ok m \<Longrightarrow> focus_ok (snd (settle_focus k e r f m))"
  by (auto simp: focus_ok_def settle_focus_def intro!: put_expectation_all dest: expectation_all split: sum.split option.split)

lemma run_microtask_ok: "focus_ok m \<Longrightarrow> run_microtask can m = Some m' \<Longrightarrow> focus_ok m'"
  by (auto simp: focus_ok_def run_microtask_def moved_in_def Let_def split: list.splits if_splits)

lemma expect_focus_ok: "focus_ok m \<Longrightarrow> focus_ok (snd (expect_focus k e r t m))"
  by (auto simp: focus_ok_def expect_focus_def validate_focus_def waits_in_def guard_facts intro!: put_expectation_all split: sum.split)

lemma focus_step_ok: "focus_ok m \<Longrightarrow> focus_step e m = Some m' \<Longrightarrow> focus_ok m'"
proof (cases e)
  case (Runs can)
  assume "focus_ok m" "focus_step e m = Some m'"
  then show ?thesis using run_microtask_ok [of m can m'] by (simp add: Runs)
qed (auto simp: settle_focus_ok expect_focus_ok, auto simp: focus_ok_def reset_focus_def cancel_focus_def intro!: put_expectation_all)

interpretation focus: machine_invariant focus_step start_focus focus_ok
  by unfold_locales (simp add: focus_ok_def start_focus_def, rule focus_step_ok)

text \<open>
  However requests settle and epochs change, the focus only ever moves for a request of the epoch
  that is active when it moves, and whatever still waits was expected in the active epoch.
\<close>

theorem focus_stays_in_epoch:
  "case run_events focus_step es start_focus of
     None \<Rightarrow> True
   | Some m \<Rightarrow> list_all moved_in (moves m) \<and> list_all (waits_in (active_epoch m)) (pending m)"
  using focus.holds_run [of es] by (simp add: focus_ok_def split: option.split)

end
