(* ===== verification/Http_Boundary.thy ===== *)
theory Http_Boundary
  imports Contracts_Base
begin

text \<open>
  \<open>packages/contracts/src/routes.mjs\<close> and \<open>http-boundary.mjs\<close>: which HTTP requests become
  operations. \<open>num\<close> reads a JSON number that is no safe integer and \<open>date_ok\<close> says whether
  \<open>Date.parse\<close> finds a finite time in a text (its fallback formats are the engine's own).
\<close>

subsection \<open>Routes\<close>

datatype api_route = RouteOk string | RouteNotFound | MethodNotAllowed string

definition parseApiRoute :: "jsval \<Rightarrow> jsval \<Rightarrow> api_route" where
  "parseApiRoute pathname method =
     (case (pathname, method) of
        (JStr p, JStr m) \<Rightarrow>
          (case p of
             c # operation \<Rightarrow>
               if c \<noteq> CHR ''/'' \<or> \<not> kebab operation then RouteNotFound
               else (case map_of OPERATION_ROUTES operation of
                 None \<Rightarrow> RouteNotFound
               | Some expectedMethod \<Rightarrow>
                   if to_upper m \<noteq> expectedMethod then MethodNotAllowed expectedMethod else RouteOk operation)
           | [] \<Rightarrow> RouteNotFound)
      | _ \<Rightarrow> RouteNotFound)"

subsection \<open>Request fields\<close>

definition CONSISTENCY :: "string list" where
  "CONSISTENCY = [''minimize'', ''authoritative'', ''at-least'', ''exact'', ''historical-date'']"

definition CONSISTENCY_FIELDS :: "string list" where
  "CONSISTENCY_FIELDS = [''consistency'', ''atLeastAsFreshAs'', ''atLeastAsFreshBasisId'',
     ''atLeastAsFreshBasisCapturedAt'', ''atExactSnapshotAt'']"

text \<open>Required and optional fields; a missing \<open>required\<close> is the empty list.\<close>

definition BODY_FIELDS :: "(string \<times> string list \<times> string list) list" where
  "BODY_FIELDS =
    [(''list-subjects'', [], [''type'', ''pageSize'', ''cursor'']),
     (''get-object'', [''type'', ''id''], CONSISTENCY_FIELDS),
     (''list-relationships'', [''resourceType'', ''resourceId''],
        [''relation'', ''pageSize'', ''cursor'', ''cache'', ''populateCache''] @ CONSISTENCY_FIELDS),
     (''reverse-relationships'', [''subjectType'', ''subjectId''],
        [''resourceType'', ''authorizationSubjectType'', ''authorizationSubjectId'', ''permission'', ''relation'',
         ''pageSize'', ''cursor'', ''cache'', ''populateCache''] @ CONSISTENCY_FIELDS),
     (''check-permission'', [''subjectType'', ''subjectId'', ''resourceType'', ''resourceId'', ''permission''],
        [''cache'', ''populateCache''] @ CONSISTENCY_FIELDS),
     (''lookup-resources'', [''subjectType'', ''subjectId'', ''resourceType'', ''permission''],
        [''relationshipSubjectType'', ''relationshipSubjectId'', ''relationshipRelation'', ''pageSize'', ''cursor'',
         ''cache'', ''populateCache''] @ CONSISTENCY_FIELDS),
     (''lookup-subjects'', [''resourceType'', ''resourceId'', ''subjectType'', ''permission''],
        [''pageSize'', ''cursor'', ''cache'', ''populateCache''] @ CONSISTENCY_FIELDS),
     (''count-resources'', [''subjectType'', ''subjectId'', ''resourceType'', ''permission''],
        [''ceiling'', ''cache'', ''populateCache''] @ CONSISTENCY_FIELDS),
     (''get-schema'', [], CONSISTENCY_FIELDS),
     (''get-cache-info'', [], []),
     (''count-objects'', [''kind''], [''type'', ''ceiling''] @ CONSISTENCY_FIELDS)]"

definition validKeys :: "jsval \<Rightarrow> string list \<Rightarrow> string list \<Rightarrow> bool" where
  "validKeys input required optional \<longleftrightarrow>
     (let ks = map fst (props input) in
      list_all (has_prop input) required \<and> list_all (\<lambda>k. k \<in> set (required @ optional)) ks \<and> length ks \<le> arrayItems)"

definition bounded_text :: "nat \<Rightarrow> (string \<Rightarrow> bool) \<Rightarrow> jsval \<Rightarrow> bool" where
  "bounded_text limit P v = str_satisfies (\<lambda>s. byte_length s \<le> limit \<and> P s) v"

definition date_fields :: "string list" where
  "date_fields = [''atLeastAsFreshAs'', ''atLeastAsFreshBasisCapturedAt'', ''atExactSnapshotAt'']"

text \<open>One round of the loop over the entries; the keys the tests name are all different.\<close>

definition validField :: "(string \<Rightarrow> bool) \<Rightarrow> string \<Rightarrow> jsval \<Rightarrow> bool" where
  "validField date_ok k v =
     (if k = ''pageSize'' then safe_int_between 1 maximumPageSize v
      else if k = ''ceiling'' then safe_int_between 1 countCeiling v
      else if k = ''cursor'' then bounded_text cursorBytes (\<lambda>_. True) v
      else if k \<in> {''cache'', ''populateCache''} then (case v of JBool _ \<Rightarrow> True | _ \<Rightarrow> False)
      else if k = ''consistency'' then str_satisfies (\<lambda>s. s \<in> set CONSISTENCY) v
      else if k \<in> set date_fields then str_satisfies (\<lambda>s. length s \<le> 64 \<and> date_ok s) v
      else bounded_text identifierBytes identifier_text v)"

definition filterKeys :: "string list" where
  "filterKeys = [''relationshipSubjectType'', ''relationshipSubjectId'', ''relationshipRelation'']"

definition validValues :: "(string \<Rightarrow> bool) \<Rightarrow> jsval \<Rightarrow> bool" where
  "validValues date_ok input \<longleftrightarrow>
     (has_prop input ''authorizationSubjectType'' \<or> has_prop input ''authorizationSubjectId'' \<longrightarrow>
        list_all (has_prop input) [''authorizationSubjectType'', ''authorizationSubjectId'', ''permission''])
     \<and> length (filter (has_prop input) filterKeys) \<in> {0, 3}
     \<and> list_all (\<lambda>(k, v). validField date_ok k v) (props input)"

text \<open>The five tests on the freshness fields that follow \<open>validValues\<close>.\<close>

definition freshness_consistent :: "jsval \<Rightarrow> bool" where
  "freshness_consistent input \<longleftrightarrow>
     (list_ex (has_prop input) [''atLeastAsFreshAs'', ''atLeastAsFreshBasisId'', ''atLeastAsFreshBasisCapturedAt'']
        \<longrightarrow> prop_of input ''consistency'' = JStr ''at-least'')
     \<and> (has_prop input ''atLeastAsFreshBasisId'' \<longrightarrow> has_prop input ''atLeastAsFreshAs'')
     \<and> (has_prop input ''atLeastAsFreshBasisCapturedAt'' \<longrightarrow>
          has_prop input ''atLeastAsFreshAs'' \<and> has_prop input ''atLeastAsFreshBasisId'')
     \<and> (has_prop input ''atExactSnapshotAt'' \<longrightarrow> prop_of input ''consistency'' = JStr ''historical-date'')
     \<and> (prop_of input ''consistency'' = JStr ''historical-date'' \<longrightarrow> has_prop input ''atExactSnapshotAt'')"

subsection \<open>The request\<close>

datatype http_result =
    HttpThrew
  | HttpRejected string "string list"
  | HttpAccepted string string jsval

abbreviation reject :: "string \<Rightarrow> http_result" where
  "reject code \<equiv> HttpRejected code []"

text \<open>A destructured property with a default: the default stands in for undefined only.\<close>

definition prop_or :: "jsval \<Rightarrow> string \<Rightarrow> jsval \<Rightarrow> jsval" where
  "prop_or v k d = (if prop_of v k = JUndef then d else prop_of v k)"

definition bad_path :: "jsval \<Rightarrow> bool" where
  "bad_path path = (case path of
     JStr p \<Rightarrow> contains ''%'' p \<or> contains ''//'' p \<or> ends_with ''/'' p
   | _ \<Rightarrow> True)"

definition json_media_types :: "string list" where
  "json_media_types = [''application/json'', ''application/json; charset=utf-8'']"

definition validateBody :: "(string \<Rightarrow> jsval) \<Rightarrow> (string \<Rightarrow> bool) \<Rightarrow> string \<Rightarrow> string \<Rightarrow> jsval \<Rightarrow> http_result" where
  "validateBody num date_ok operation requestId body =
     (case body of
        JStr b \<Rightarrow>
          if byte_length b > requestBodyBytes then reject ''request-too-large''
          else (case json_parse num b of
             None \<Rightarrow> reject ''validation-error''
           | Some input \<Rightarrow>
               if \<not> is_object input then reject ''validation-error''
               else (case map_of BODY_FIELDS operation of
                  None \<Rightarrow> reject ''validation-error''
                | Some (required, optional) \<Rightarrow>
                    if \<not> validKeys input required optional then reject ''validation-error''
                    else if operation = ''reverse-relationships'' \<and> has_prop input ''permission''
                         \<and> \<not> has_prop input ''authorizationSubjectId'' then reject ''validation-error''
                    else if \<not> validValues date_ok input then reject ''validation-error''
                    else if \<not> freshness_consistent input then reject ''validation-error''
                    else HttpAccepted operation requestId input))
      | _ \<Rightarrow> reject ''request-too-large'')"

definition validateHttpRequest :: "(string \<Rightarrow> jsval) \<Rightarrow> (string \<Rightarrow> bool) \<Rightarrow> jsval \<Rightarrow> http_result" where
  "validateHttpRequest num date_ok request =
     (if \<not> is_object request then reject ''validation-error''
      else
        let path = prop_of request ''path''; method = prop_of request ''method'';
            contentType = prop_or request ''contentType'' JNull; query = prop_or request ''query'' (JStr []);
            body = prop_or request ''body'' JNull; requestId = prop_of request ''requestId'' in
        if bad_path path then reject ''route-not-found''
        else if query \<noteq> JStr [] then reject ''validation-error''
        else (case parseApiRoute path method of
           RouteNotFound \<Rightarrow> reject ''route-not-found''
         | MethodNotAllowed expected \<Rightarrow> HttpRejected ''method-not-allowed'' [expected]
         | RouteOk operation \<Rightarrow>
             if \<not> str_satisfies (\<lambda>s. 1 \<le> length s \<and> length s \<le> 128) requestId then reject ''validation-error''
             else if to_upper (the_str method) = ''GET'' then
               if contentType \<noteq> JNull \<or> body \<notin> {JNull, JStr []} then reject ''unsupported-media-type''
               else HttpAccepted operation (the_str requestId) (JObj [])
             else (case contentType of
                JStr t \<Rightarrow>
                  if to_lower t \<notin> set json_media_types then reject ''unsupported-media-type''
                  else validateBody num date_ok operation (the_str requestId) body
              | JNull \<Rightarrow> reject ''unsupported-media-type''
              | _ \<Rightarrow> HttpThrew)))"

subsection \<open>What gets through\<close>

lemma safe_int_betweenD: "safe_int_between lo hi v \<Longrightarrow> \<exists>i. v = JInt i \<and> lo \<le> i \<and> i \<le> hi"
  by (cases v) (auto simp: safe_int_between_def)

lemma str_satisfiesD: "str_satisfies P v \<Longrightarrow> \<exists>s. v = JStr s \<and> P s"
  by (cases v) (auto simp: str_satisfies_def)

lemma parseApiRoute_ok:
  "parseApiRoute p m = RouteOk operation \<longleftrightarrow>
     (\<exists>t. p = JStr (CHR ''/'' # operation) \<and> m = JStr t \<and> (operation, to_upper t) \<in> set OPERATION_ROUTES)"
proof -
  have "(operation, u) \<in> set OPERATION_ROUTES \<longleftrightarrow> map_of OPERATION_ROUTES operation = Some u" for u
    using routes.keys_distinct by (auto simp: logicalOperations_def intro: map_of_is_SomeI dest: map_of_SomeD)
  moreover have "kebab operation" if "map_of OPERATION_ROUTES operation = Some u" for u
    using map_of_SomeD [OF that] by (auto simp: OPERATION_ROUTES_def kebab_def is_lower_digit_def is_lower_def)
  ultimately show ?thesis
    by (cases p; cases m) (auto simp: parseApiRoute_def split: list.split option.split)
qed

text \<open>Whatever an accepted body holds is a truth value, a small number or a short text.\<close>

definition bounded_value :: "jsval \<Rightarrow> bool" where
  "bounded_value v = (case v of
     JBool _ \<Rightarrow> True | JInt i \<Rightarrow> 1 \<le> i \<and> i \<le> 1000000 | JStr s \<Rightarrow> length s \<le> 4096 | _ \<Rightarrow> False)"

lemma validField_bounded: "validField date_ok k v \<Longrightarrow> bounded_value v"
proof -
  have len: "byte_length s \<le> n \<Longrightarrow> length s \<le> n" for s n using length_le_byte_length order_trans by blast
  have con: "s \<in> set CONSISTENCY \<Longrightarrow> length s \<le> 4096" for s by (auto simp: CONSISTENCY_def)
  assume "validField date_ok k v"
  then show ?thesis
    using len [of _ 4096] len [of _ 256] con
    by (fastforce simp: validField_def bounded_value_def bounded_text_def limit_defs
        split: if_splits jsval.splits dest!: safe_int_betweenD str_satisfiesD)
qed

fun method_of :: "string \<Rightarrow> string" where
  "method_of operation = the (map_of OPERATION_ROUTES operation)"

lemma validateBody_cases:
  "case validateBody num date_ok operation requestId body of
     HttpThrew \<Rightarrow> False
   | HttpRejected code allowed \<Rightarrow> code \<in> {''validation-error'', ''request-too-large''} \<and> allowed = []
   | HttpAccepted op rid input \<Rightarrow> op = operation \<and> rid = requestId \<and> is_object input
       \<and> byte_length (the_str body) \<le> requestBodyBytes \<and> json_parse num (the_str body) = Some input
       \<and> (\<exists>required optional. map_of BODY_FIELDS op = Some (required, optional) \<and> validKeys input required optional)
       \<and> list_all (\<lambda>(k, v). validField date_ok k v) (props input) \<and> freshness_consistent input"
  by (auto simp: validateBody_def validValues_def Let_def split: jsval.split option.split)

lemma http_boundary_outcome:
  "case validateHttpRequest num date_ok request of
     HttpThrew \<Rightarrow> \<not> is_string (prop_of request ''contentType'') \<and> prop_of request ''contentType'' \<noteq> JNull
   | HttpRejected code allowed \<Rightarrow>
       (case map_of error_catalog code of
          None \<Rightarrow> False
        | Some d \<Rightarrow> 400 \<le> httpStatus d \<and> httpStatus d < 500 \<and> \<not> retryable d)
       \<and> (allowed \<noteq> [] \<longleftrightarrow> code = ''method-not-allowed'')
   | HttpAccepted operation requestId input \<Rightarrow>
       (operation, to_upper (the_str (prop_of request ''method''))) \<in> set OPERATION_ROUTES
       \<and> prop_of request ''path'' = JStr (CHR ''/'' # operation)
       \<and> prop_of request ''requestId'' = JStr requestId \<and> 1 \<le> length requestId \<and> length requestId \<le> 128
       \<and> (if to_upper (the_str (prop_of request ''method'')) = ''GET'' then input = JObj []
          else byte_length (the_str (prop_of request ''body'')) \<le> 65536
            \<and> json_parse num (the_str (prop_of request ''body'')) = Some input \<and> is_object input
            \<and> (case map_of BODY_FIELDS operation of
                 None \<Rightarrow> False | Some (required, optional) \<Rightarrow> validKeys input required optional)
            \<and> list_all (\<lambda>(k, v). bounded_value v) (props input) \<and> freshness_consistent input)"
proof -
  have codes: "map_of error_catalog ''validation-error'' = Some \<lparr>httpStatus = 400, retryable = False, message = ''The request is invalid.''\<rparr>"
    "map_of error_catalog ''request-too-large'' = Some \<lparr>httpStatus = 413, retryable = False, message = ''The request exceeds a public limit.''\<rparr>"
    "map_of error_catalog ''route-not-found'' = Some \<lparr>httpStatus = 404, retryable = False, message = ''The route is not available.''\<rparr>"
    "map_of error_catalog ''method-not-allowed'' = Some \<lparr>httpStatus = 405, retryable = False, message = ''The HTTP method is not allowed.''\<rparr>"
    "map_of error_catalog ''unsupported-media-type'' = Some \<lparr>httpStatus = 415, retryable = False, message = ''The content type is not supported.''\<rparr>"
    by (simp_all add: error_catalog_def error_entry_def)
  let ?path = "prop_of request ''path''" and ?verb = "prop_of request ''method''"
  note v = validateHttpRequest_def Let_def
  consider (bad) "\<not> is_object request \<or> bad_path ?path \<or> prop_or request ''query'' (JStr []) \<noteq> JStr []
      \<or> parseApiRoute ?path ?verb = RouteNotFound"
    | (wrong) expected where "is_object request" "\<not> bad_path ?path" "prop_or request ''query'' (JStr []) = JStr []"
      "parseApiRoute ?path ?verb = MethodNotAllowed expected"
    | (ok) operation where "is_object request" "\<not> bad_path ?path" "prop_or request ''query'' (JStr []) = JStr []"
      "parseApiRoute ?path ?verb = RouteOk operation"
    by (cases "parseApiRoute ?path ?verb") blast+
  then show ?thesis
  proof cases
    case bad
    then show ?thesis by (auto simp: v codes)
  next
    case wrong
    then show ?thesis by (simp add: v codes)
  next
    case ok
    from ok(4) obtain m where p: "?path = JStr (CHR ''/'' # operation)" and m: "?verb = JStr m"
      and r: "(operation, to_upper m) \<in> set OPERATION_ROUTES"
      by (auto simp: parseApiRoute_ok)
    show ?thesis
    proof (cases "str_satisfies (\<lambda>s. 1 \<le> length s \<and> length s \<le> 128) (prop_of request ''requestId'')")
      case False
      with ok show ?thesis by (simp add: v codes)
    next
      case rid: True
      then obtain q where q: "prop_of request ''requestId'' = JStr q" "1 \<le> length q" "length q \<le> 128"
        by (auto dest: str_satisfiesD)
      show ?thesis
      proof (cases "to_upper m = ''GET''")
        case True
        with ok p m r q rid show ?thesis by (simp add: v codes)
      next
        case post: False
        let ?ct = "prop_or request ''contentType'' JNull"
        let ?body = "prop_or request ''body'' JNull"
        consider (threw) "\<not> is_string ?ct" "?ct \<noteq> JNull" | (media) "?ct = JNull \<or> (\<exists>t. ?ct = JStr t \<and> to_lower t \<notin> set json_media_types)"
          | (body) t where "?ct = JStr t" "to_lower t \<in> set json_media_types"
          by (cases ?ct) auto
        then show ?thesis
        proof cases
          case threw
          then have "\<not> is_string (prop_of request ''contentType'')" "prop_of request ''contentType'' \<noteq> JNull"
            by (auto simp: prop_or_def split: if_splits)
          with threw ok p m r q rid post show ?thesis
            by (cases ?ct) (simp_all add: v)
        next
          case media
          with ok p m r q rid post show ?thesis
            by (auto simp: v codes)
        next
          case body
          have run: "validateHttpRequest num date_ok request = validateBody num date_ok operation q ?body"
            using body ok p m r q rid post by (simp add: v)
          have b: "the_str ?body = the_str (prop_of request ''body'')" by (simp add: prop_or_def)
          show ?thesis
            using validateBody_cases [where num = num and date_ok = date_ok and operation = operation
                and requestId = q and body = ?body] p m r q post
            by (auto simp: run b codes requestBodyBytes_def validField_bounded list_all_iff split: http_result.splits)
        qed
      qed
    qed
  qed
qed

text \<open>
  C10 The HTTP boundary is closed. An accepted request names one of the thirteen operations,
  with that operation's own method, on the path that spells it, and carries a request id of 1
  to 128 characters; a GET carries no input, and the input of a POST is the parsed body of at
  most 64 KiB, its fields only those of the operation, all the required ones present, every
  value bounded, the freshness fields consistent. Every refusal has a catalogued code that
  answers with a client error and is not retryable, and only a wrong method lists the allowed
  one. The code itself fails only on a content type that is neither text nor null.
\<close>

theorem http_boundary_closed:
  "case validateHttpRequest num date_ok request of
     HttpThrew \<Rightarrow> \<not> is_string (prop_of request ''contentType'') \<and> prop_of request ''contentType'' \<noteq> JNull
   | HttpRejected code allowed \<Rightarrow>
       (case map_of error_catalog code of
          None \<Rightarrow> False
        | Some d \<Rightarrow> 400 \<le> httpStatus d \<and> httpStatus d < 500 \<and> \<not> retryable d)
       \<and> (allowed \<noteq> [] \<longleftrightarrow> code = ''method-not-allowed'')
   | HttpAccepted operation requestId input \<Rightarrow>
       (operation, to_upper (the_str (prop_of request ''method''))) \<in> set OPERATION_ROUTES
       \<and> prop_of request ''path'' = JStr (CHR ''/'' # operation)
       \<and> prop_of request ''requestId'' = JStr requestId \<and> 1 \<le> length requestId \<and> length requestId \<le> 128
       \<and> (if to_upper (the_str (prop_of request ''method'')) = ''GET'' then input = JObj []
          else byte_length (the_str (prop_of request ''body'')) \<le> 65536
            \<and> json_parse num (the_str (prop_of request ''body'')) = Some input \<and> is_object input
            \<and> (case map_of BODY_FIELDS operation of
                 None \<Rightarrow> False | Some (required, optional) \<Rightarrow> validKeys input required optional)
            \<and> list_all (\<lambda>(k, v). bounded_value v) (props input) \<and> freshness_consistent input)"
  by (rule http_boundary_outcome)

end
