(* ===== verification/Envelopes.thy ===== *)
theory Envelopes
  imports Contracts_Base
begin

text \<open>
  \<open>packages/contracts/src/envelopes.mjs\<close> and \<open>redaction.mjs\<close>: the success and failure
  envelopes of every response, and what may be written to a log or a diagnostic. A thrown
  error is a value of \<open>envelope_error\<close>.
\<close>

datatype envelope_error =
    UnknownErrorCode
  | UnknownOrMissingFields string
  | InvalidRequestId
  | InvalidOperation
  | InvalidProfileIdentity
  | InvalidSourceIdentity
  | InvalidArtifactIdentity
  | InvalidDeploymentIdentity
  | InvalidRevision
  | EnvelopeTypeError

subsection \<open>Identity and metadata\<close>

text \<open>\<open>regex.test(v)\<close> converts its argument to text first.\<close>

definition regex_test :: "(string \<Rightarrow> bool) \<Rightarrow> jsval \<Rightarrow> envelope_error + bool" where
  "regex_test P v = (case js_string v of None \<Rightarrow> Inl EnvelopeTypeError | Some s \<Rightarrow> Inr (P s))"

definition require_match :: "(string \<Rightarrow> bool) \<Rightarrow> jsval \<Rightarrow> envelope_error \<Rightarrow> envelope_error + unit" where
  "require_match P v e = bind_r (regex_test P v) (\<lambda>ok. throw_if (\<not> ok) e (Inr ()))"

definition text_within :: "nat \<Rightarrow> jsval \<Rightarrow> bool" where
  "text_within n v \<longleftrightarrow> str_satisfies (\<lambda>s. 1 \<le> length s \<and> length s \<le> n) v"

definition IDENTITY_KEYS :: "string list" where
  "IDENTITY_KEYS = [''profileId'', ''demoSha'', ''eaclSha'', ''artifactSha256'', ''deploymentId'', ''dataManifestSha256'']"

definition validateIdentity :: "jsval \<Rightarrow> envelope_error + jsval" where
  "validateIdentity identity =
     throw_if (\<not> exact_keys identity IDENTITY_KEYS) (UnknownOrMissingFields ''response identity'')
     (bind_r (require_match kebab (prop_of identity ''profileId'') InvalidProfileIdentity) (\<lambda>_.
      bind_r (require_match (lower_hex 40) (prop_of identity ''demoSha'') InvalidSourceIdentity) (\<lambda>_.
      bind_r (require_match (lower_hex 40) (prop_of identity ''eaclSha'') InvalidSourceIdentity) (\<lambda>_.
      bind_r (require_match (lower_hex 64) (prop_of identity ''artifactSha256'') InvalidArtifactIdentity) (\<lambda>_.
      bind_r (require_match (lower_hex 64) (prop_of identity ''dataManifestSha256'') InvalidArtifactIdentity) (\<lambda>_.
      throw_if (\<not> text_within 256 (prop_of identity ''deploymentId'')) InvalidDeploymentIdentity
        (Inr identity)))))))"

definition createMeta :: "jsval \<Rightarrow> envelope_error + jsval" where
  "createMeta ctx =
     throw_if (\<not> exact_keys ctx [''requestId'', ''operation'', ''identity'', ''basis''])
       (UnknownOrMissingFields ''response context'')
     (throw_if (\<not> text_within 128 (prop_of ctx ''requestId'')) InvalidRequestId
     (throw_if (\<not> str_satisfies (\<lambda>s. s \<in> set logicalOperations) (prop_of ctx ''operation'')) InvalidOperation
     (bind_r (validateIdentity (prop_of ctx ''identity'')) (\<lambda>identity.
      let revision = nullish_or (prop_of (prop_of ctx ''basis'') ''id'') (prop_of identity ''deploymentId'') in
      throw_if (\<not> text_within 256 revision) InvalidRevision
        (Inr (JObj [(''revision'', revision), (''requestId'', prop_of ctx ''requestId'')]))))))"

subsection \<open>Envelopes\<close>

definition createSuccess :: "jsval \<Rightarrow> jsval \<Rightarrow> envelope_error + jsval" where
  "createSuccess ctx d = bind_r (createMeta ctx) (\<lambda>meta. Inr (JObj [(''data'', d), (''meta'', meta)]))"

definition find_error :: "jsval \<Rightarrow> error_definition option" where
  "find_error code = (case code of JStr c \<Rightarrow> map_of error_catalog c | _ \<Rightarrow> None)"

definition error_json :: "jsval \<Rightarrow> error_definition \<Rightarrow> jsval" where
  "error_json code d = JObj [(''code'', code), (''message'', JStr (message d))]"

definition createFailure :: "jsval \<Rightarrow> jsval \<Rightarrow> envelope_error + jsval" where
  "createFailure ctx code =
     (case find_error code of
        None \<Rightarrow> Inl UnknownErrorCode
      | Some d \<Rightarrow> bind_r (createMeta ctx) (\<lambda>meta. Inr (JObj [(''meta'', meta), (''error'', error_json code d)])))"

definition httpStatusForError :: "jsval \<Rightarrow> envelope_error + nat" where
  "httpStatusForError code = (case find_error code of None \<Rightarrow> Inl UnknownErrorCode | Some d \<Rightarrow> Inr (httpStatus d))"

subsection \<open>Redaction\<close>

text \<open>What the code may be asked to log: data, errors (their name and code) and anything else.\<close>

datatype logval =
    LUndef
  | LNull
  | LBool bool
  | LNum string
  | LStr string
  | LArr "logval list"
  | LError string jsval
  | LObj "(string \<times> logval) list"
  | LOther

definition STABLE_CODES :: "string list" where
  "STABLE_CODES = [''validation-error'', ''request-too-large'', ''method-not-allowed'', ''route-not-found'',
     ''unsupported-media-type'', ''cursor-invalid'', ''cursor-expired'', ''cursor-scope-mismatch'',
     ''unsupported-consistency'', ''freshness-unavailable'', ''cancelled'', ''deadline-exceeded'', ''overloaded'',
     ''throttled'', ''dependency-unavailable'', ''storage-missing'', ''storage-corrupt'', ''identity-mismatch'',
     ''response-too-large'', ''internal-error'']"

text \<open>The alternatives of \<open>SENSITIVE_KEY\<close>: a word, or two words with at most one character between.\<close>

definition sensitive_words :: "(string \<times> string) list" where
  "sensitive_words = [(''secret'', ''''), (''token'', ''''), (''password'', ''''), (''passwd'', ''''),
     (''credential'', ''''), (''authorization'', ''''), (''cookie'', ''''), (''signing'', ''''),
     (''private'', ''key''), (''access'', ''key''), (''connection'', ''string''), (''database'', ''url''),
     (''datomic'', ''uri'')]"

definition line_end :: "char \<Rightarrow> bool" where
  "line_end c \<longleftrightarrow> c = CHR 0x0A \<or> c = CHR 0x0D"

definition word_at :: "string \<times> string \<Rightarrow> string \<Rightarrow> bool" where
  "word_at w s \<longleftrightarrow> starts_with (fst w) s \<and>
     (let r = drop (length (fst w)) s in
      starts_with (snd w) r \<or> (case r of [] \<Rightarrow> False | c # cs \<Rightarrow> \<not> line_end c \<and> starts_with (snd w) cs))"

fun sensitive_in :: "string \<Rightarrow> bool" where
  "sensitive_in [] = False"
| "sensitive_in (c # cs) = (list_ex (\<lambda>w. word_at w (c # cs)) sensitive_words \<or> sensitive_in cs)"

definition sensitive_key :: "string \<Rightarrow> bool" where
  "sensitive_key k = sensitive_in (to_lower k)"

definition stable_code :: "jsval \<Rightarrow> string" where
  "stable_code code = (case code of
     JStr c \<Rightarrow> if c \<in> set STABLE_CODES then c else ''internal-error'' | _ \<Rightarrow> ''internal-error'')"

fun redactRecord :: "nat \<Rightarrow> logval \<Rightarrow> logval" where
  "redactRecord depth v =
     (if depth > 8 then LStr ''[TRUNCATED]''
      else (case v of
         LNull \<Rightarrow> LNull
       | LNum n \<Rightarrow> LNum n
       | LBool b \<Rightarrow> LBool b
       | LStr s \<Rightarrow> if length s > 256 then LStr (take 253 s @ ''...'') else LStr s
       | LArr vs \<Rightarrow> LArr (take 32 (map (redactRecord (Suc depth)) vs))
       | LError name code \<Rightarrow> LObj [(''name'', LStr name), (''code'', LStr (stable_code code))]
       | LObj kvs \<Rightarrow> LObj (from_entries (take 64 (map (\<lambda>(k, x).
             (k, if sensitive_key k then LStr ''[REDACTED]'' else redactRecord (Suc depth) x)) kvs)))
       | LUndef \<Rightarrow> LStr ''[UNSUPPORTED]''
       | LOther \<Rightarrow> LStr ''[UNSUPPORTED]''))"

declare redactRecord.simps [simp del]

definition createSafeFailure :: "jsval \<Rightarrow> jsval \<Rightarrow> envelope_error + jsval" where
  "createSafeFailure ctx err =
     (let code = JStr (stable_code (prop_of err ''code'')) in
      bind_r (createFailure ctx code) (\<lambda>envelope.
        if byte_length (json (prop_of envelope ''error'')) > diagnosticBytes
        then createFailure ctx (JStr ''internal-error'') else Inr envelope))"

subsection \<open>What redaction guarantees\<close>

text \<open>The same value with everything under a sensitive key wiped out.\<close>

fun mask :: "logval \<Rightarrow> logval" where
  "mask (LArr vs) = LArr (map mask vs)"
| "mask (LObj kvs) = LObj (map (\<lambda>(k, x). (k, if sensitive_key k then LNull else mask x)) kvs)"
| "mask v = v"

fun is_LStr :: "logval \<Rightarrow> bool" where
  "is_LStr (LStr _) = True"
| "is_LStr _ = False"

text \<open>
  At most \<open>n\<close> levels deep, with short texts, arrays of at most 32 items and objects of at most
  64 properties, and the marker under every sensitive key. The name of an error is copied as
  it is, so a text under the key \<open>name\<close> may be long.
\<close>

fun log_bounded :: "nat \<Rightarrow> logval \<Rightarrow> bool" where
  "log_bounded n (LStr s) = (length s \<le> 256)"
| "log_bounded 0 v = False"
| "log_bounded (Suc n) (LArr vs) = (length vs \<le> 32 \<and> list_all (log_bounded n) vs)"
| "log_bounded (Suc n) (LObj kvs) = (length kvs \<le> 64 \<and> list_all (\<lambda>(k, x).
     if sensitive_key k then x = LStr ''[REDACTED]''
     else if k = ''name'' \<and> is_LStr x then True else log_bounded n x) kvs)"
| "log_bounded (Suc n) LNull = True"
| "log_bounded (Suc n) (LBool b) = True"
| "log_bounded (Suc n) (LNum s) = True"
| "log_bounded (Suc n) _ = False"

lemma redact_mask: "redactRecord depth (mask v) = redactRecord depth v"
proof (induction depth v rule: redactRecord.induct)
  case (1 depth v)
  show ?case
  proof (cases "depth > 8")
    case True
    then show ?thesis by (simp add: redactRecord.simps [of depth])
  next
    case False
    then show ?thesis
    proof (cases v)
      case (LArr vs)
      have "map (redactRecord (Suc depth)) (map mask vs) = map (redactRecord (Suc depth)) vs"
        using "1.IH" False LArr by simp
      with False LArr show ?thesis by (simp add: redactRecord.simps [of depth] del: map_map)
    next
      case (LObj kvs)
      have "map (\<lambda>(k, x). (k, if sensitive_key k then LStr ''[REDACTED]'' else redactRecord (Suc depth) x))
          (map (\<lambda>(k, x). (k, if sensitive_key k then LNull else mask x)) kvs)
        = map (\<lambda>(k, x). (k, if sensitive_key k then LStr ''[REDACTED]'' else redactRecord (Suc depth) x)) kvs"
        using "1.IH" False LObj by fastforce
      with False LObj show ?thesis by (simp add: redactRecord.simps [of depth] del: map_map)
    qed (simp_all add: redactRecord.simps [of depth])
  qed
qed

lemma stable_code_short: "length (stable_code v) \<le> 256"
proof -
  have "c \<in> set STABLE_CODES \<Longrightarrow> length c \<le> 256" for c by (auto simp: STABLE_CODES_def)
  then show ?thesis by (auto simp: stable_code_def split: jsval.split)
qed

lemma key_tests: "\<not> sensitive_key ''code''" "\<not> sensitive_key ''name''"
  by (simp_all add: sensitive_key_def to_lower_def lower_char_def Let_def sensitive_words_def word_at_def char_of_def)

lemma redact_bounded: "depth + n = 9 \<Longrightarrow> log_bounded n (redactRecord depth v)"
proof (induction depth v arbitrary: n rule: redactRecord.induct)
  case (1 depth v)
  show ?case
  proof (cases "depth > 8")
    case True
    then show ?thesis by (simp add: redactRecord.simps [of depth])
  next
    case False
    then obtain m where n: "n = Suc m" "Suc depth + m = 9" using "1.prems" by (cases n) auto
    show ?thesis
    proof (cases v)
      case (LArr vs)
      have "log_bounded m x" if "x \<in> set (take 32 (map (redactRecord (Suc depth)) vs))" for x
        using in_set_takeD [OF that] "1.IH"(1) [OF False LArr _ n(2)] by auto
      with False LArr n(1) show ?thesis by (simp add: redactRecord.simps [of depth] list_all_iff)
    next
      case (LObj kvs)
      let ?f = "\<lambda>(k, x). (k, if sensitive_key k then LStr ''[REDACTED]'' else redactRecord (Suc depth) x)"
      have "if sensitive_key (fst e) then snd e = LStr ''[REDACTED]''
          else if fst e = ''name'' \<and> is_LStr (snd e) then True else log_bounded m (snd e)"
        if "e \<in> set (from_entries (take 64 (map ?f kvs)))" for e
        using from_entries_subset [THEN subsetD, OF that, THEN in_set_takeD] "1.IH"(2) [OF False LObj _ _ _ n(2)]
        by (auto split: if_splits)
      then have "list_all (\<lambda>(k, x). if sensitive_key k then x = LStr ''[REDACTED]''
          else if k = ''name'' \<and> is_LStr x then True else log_bounded m x) (from_entries (take 64 (map ?f kvs)))"
        unfolding list_all_iff split_beta by (rule ballI)
      moreover have "length (from_entries (take 64 (map ?f kvs))) \<le> 64"
        using length_from_entries [of "take 64 (map ?f kvs)"] by simp
      ultimately show ?thesis using False LObj n(1)
        by (simp add: redactRecord.simps [of depth] split del: if_split)
    next
      case (LError name code)
      with False n(1) stable_code_short [of code] show ?thesis
        by (cases m) (simp_all add: redactRecord.simps [of depth] key_tests)
    qed (use False n(1) in \<open>simp_all add: redactRecord.simps [of depth]\<close>)
  qed
qed

text \<open>
  C11 Redaction does not leak: the redacted record does not depend on anything stored under a
  sensitive key, at any depth, and it is bounded: at most ten levels, arrays of at most 32
  items, objects of at most 64 properties, texts of at most 256 characters (the copied name of
  an error apart), with the marker in place of every sensitive value.
\<close>

theorem redaction_hides_and_bounds:
  "redactRecord 0 (mask v) = redactRecord 0 v \<and> log_bounded 9 (redactRecord 0 v)"
  by (intro conjI redact_mask redact_bounded) simp

lemma STABLE_CODES_catalogued: "STABLE_CODES = error_codes"
  by (simp add: STABLE_CODES_def error_codes_def)

lemma stable_code_catalogued: "stable_code v \<in> set error_codes"
  by (auto simp: stable_code_def STABLE_CODES_catalogued error_codes_def split: jsval.split)

lemma stable_code_found: "\<exists>d. find_error (JStr (stable_code v)) = Some d"
  using errors.found [OF stable_code_catalogued] by (simp add: find_error_def)

lemma catalog_diagnostic_small:
  "(c, d) \<in> set error_catalog \<Longrightarrow> byte_length (json (error_json (JStr c) d)) \<le> diagnosticBytes"
  by (auto simp: error_catalog_def error_entry_def error_json_def diagnosticBytes_def json_str_def json_char_def byte_length_def)

text \<open>
  A safe failure never fails itself: for any thrown value and any context whose metadata
  can be made, \<open>createSafeFailure\<close> answers with the metadata and the catalogue's message for
  the error's own code when that is stable, and for \<open>internal-error\<close> otherwise; nothing else of
  the error is passed on, and the diagnostic always fits its limit.
\<close>

theorem createSafeFailure_total:
  "createSafeFailure ctx err =
     bind_r (createMeta ctx) (\<lambda>meta.
       Inr (JObj [(''meta'', meta),
                  (''error'', error_json (JStr (stable_code (prop_of err ''code'')))
                     (the (map_of error_catalog (stable_code (prop_of err ''code'')))))]))"
proof -
  define c where "c = stable_code (prop_of err ''code'')"
  obtain d where d: "map_of error_catalog c = Some d"
    using errors.found [OF stable_code_catalogued] unfolding c_def by blast
  then have small: "byte_length (json (error_json (JStr c) d)) \<le> diagnosticBytes"
    by (intro catalog_diagnostic_small map_of_SomeD)
  have error: "prop_of (JObj [(''meta'', m), (''error'', e)]) ''error'' = e" for m e
    by (simp add: prop_of_def)
  show ?thesis
    using small unfolding createSafeFailure_def c_def [symmetric]
    by (cases "createMeta ctx") (simp_all add: createFailure_def find_error_def d error)
qed

text \<open>The metadata of a response: bounded texts, taken from the context.\<close>

lemma createMeta_ok:
  "createMeta ctx = Inr meta \<Longrightarrow>
     \<exists>rev rid. meta = JObj [(''revision'', JStr rev), (''requestId'', JStr rid)]
       \<and> 1 \<le> length rev \<and> length rev \<le> 256 \<and> 1 \<le> length rid \<and> length rid \<le> 128
       \<and> prop_of ctx ''requestId'' = JStr rid"
  by (auto simp: createMeta_def text_within_def str_satisfies_def Let_def split: if_splits jsval.splits)

end
