(* ===== verification/Function_Url.thy ===== *)
theory Function_Url
  imports Http_Boundary Envelopes Bytes
begin

text \<open>
  \<open>packages/contracts/src/function-url.mjs\<close>: a Lambda function URL event becomes an HTTP
  request, an envelope becomes a response. \<open>decode\<close> is \<open>TextDecoder\<close>.
\<close>

subsection \<open>Events\<close>

definition EVENT_KEYS :: "string list" where
  "EVENT_KEYS = [''version'', ''routeKey'', ''rawPath'', ''rawQueryString'', ''headers'', ''requestContext'',
     ''isBase64Encoded'', ''body'', ''cookies'']"

definition lower_headers :: "jsval \<Rightarrow> jsval" where
  "lower_headers hs = JObj (from_entries (map (\<lambda>(k, v). (to_lower k, v)) (props hs)))"

text \<open>The body in clear, or \<open>None\<close> when the event is rejected.\<close>

definition event_body :: "(nat list \<Rightarrow> string) \<Rightarrow> jsval \<Rightarrow> jsval option" where
  "event_body decode event =
     (let body = nullish_or (prop_of event ''body'') JNull; flag = prop_of event ''isBase64Encoded'' in
      if flag = JBool True \<and> is_string body then map_option (\<lambda>bs. JStr (decode bs)) (fromBase64 (the_str body))
      else if flag \<noteq> JBool False then None else Some body)"

definition normalizeFunctionUrlEvent ::
  "(string \<Rightarrow> jsval) \<Rightarrow> (string \<Rightarrow> bool) \<Rightarrow> (nat list \<Rightarrow> string) \<Rightarrow> jsval \<Rightarrow> http_result" where
  "normalizeFunctionUrlEvent num date_ok decode event =
     (if \<not> is_object event \<or> prop_of event ''version'' \<noteq> JStr ''2.0''
         \<or> list_ex (\<lambda>(k, _). k \<notin> set EVENT_KEYS) (props event) then reject ''validation-error''
      else
        let http = prop_of (prop_of event ''requestContext'') ''http'';
            requestId = prop_of (prop_of event ''requestContext'') ''requestId'' in
        if \<not> truthy http \<or> \<not> is_string (prop_of http ''method'') \<or> \<not> is_string requestId
           \<or> \<not> is_object (prop_of event ''headers'') then reject ''validation-error''
        else (case event_body decode event of
           None \<Rightarrow> reject ''validation-error''
         | Some body \<Rightarrow>
             validateHttpRequest num date_ok
               (JObj [(''path'', prop_of event ''rawPath''), (''method'', prop_of http ''method''),
                      (''contentType'', nullish_or (prop_of (lower_headers (prop_of event ''headers'')) ''content-type'') JNull),
                      (''query'', nullish_or (prop_of event ''rawQueryString'') (JStr [])),
                      (''body'', body), (''requestId'', requestId)])))"

subsection \<open>Responses\<close>

record function_response =
  statusCode :: nat
  response_headers :: "(string \<times> string) list"
  response_body :: string

definition createFunctionUrlResponse :: "jsval \<Rightarrow> string list \<Rightarrow> envelope_error + function_response" where
  "createFunctionUrlResponse envelope allowedMethods =
     (if \<not> is_object envelope then Inl EnvelopeTypeError
      else bind_r
        (if has_prop envelope ''data'' \<and> \<not> has_prop envelope ''error'' then Inr 200
         else if prop_of envelope ''error'' \<in> {JUndef, JNull} then Inl EnvelopeTypeError
         else httpStatusForError (prop_of (prop_of envelope ''error'') ''code''))
        (\<lambda>status. Inr \<lparr>statusCode = status,
           response_headers = [(''content-type'', ''application/json; charset=utf-8''), (''cache-control'', ''no-store''),
             (''x-content-type-options'', ''nosniff'')]
             @ (if status = 405 \<and> allowedMethods \<noteq> [] then [(''allow'', join '', '' (sort allowedMethods))] else []),
           response_body = json envelope\<rparr>))"

definition rejectionResponse :: "jsval \<Rightarrow> string \<Rightarrow> string list \<Rightarrow> envelope_error + function_response" where
  "rejectionResponse ctx code allowedMethods =
     bind_r (createFailure ctx (JStr code)) (\<lambda>envelope. createFunctionUrlResponse envelope allowedMethods)"

text \<open>The contract suite: which cases the adapter answers differently.\<close>

definition suite_failures :: "(jsval \<Rightarrow> jsval) \<Rightarrow> (string \<times> jsval \<times> jsval) list \<Rightarrow> (string \<times> jsval \<times> jsval) list" where
  "suite_failures normalizeEvent cases =
     map (\<lambda>(i, event, expected). (i, expected, normalizeEvent event))
       (filter (\<lambda>(i, event, expected). json (normalizeEvent event) \<noteq> json expected) cases)"

definition runFunctionUrlContractSuite :: "string \<Rightarrow> (jsval \<Rightarrow> jsval) \<Rightarrow> (string \<times> jsval \<times> jsval) list \<Rightarrow> jsval" where
  "runFunctionUrlContractSuite name normalizeEvent cases =
     (let failures = suite_failures normalizeEvent cases in
      JObj [(''schema'', JStr ''eacl-demo.function-url-suite-result.v1''), (''adapter'', JStr name),
            (''total'', JInt (int (length cases))),
            (''passed'', JInt (int (length cases) - int (length failures))),
            (''failures'', JArr (map (\<lambda>(i, e, a). JObj [(''id'', JStr i), (''expected'', e), (''actual'', a)]) failures))])"

subsection \<open>A body may come in base 64\<close>

lemma padding_count: "(3 - length bs mod 3) mod 3 = (4 - length (sextets bs) mod 4) mod 4"
proof (induction bs rule: sextets.induct)
  case (4 a b c bs)
  have "Suc (Suc (Suc n)) mod 3 = n mod 3" "Suc (Suc (Suc (Suc n))) mod 4 = n mod 4" for n by presburger+
  with 4 show ?case by simp
qed simp_all

lemma while_padding:
  "(\<And>x. x \<in> set xs \<Longrightarrow> P x) \<Longrightarrow> \<not> P c \<Longrightarrow>
   takeWhile P (xs @ replicate n c) = xs \<and> dropWhile P (xs @ replicate n c) = replicate n c"
  by (induction xs) (cases n, auto)

lemma fromBase64_btoa:
  assumes b: "\<And>b. b \<in> set bs \<Longrightarrow> b < 256"
  shows "fromBase64 (btoa bs) = Some bs"
proof -
  have val: "b64_value c \<noteq> None" if "c \<in> set (map b64_char (sextets bs))" for c
    using that sextets_bound [OF b] b64_value_char by auto
  have "takeWhile (\<lambda>c. b64_value c \<noteq> None) (btoa bs) = map b64_char (sextets bs)"
    "dropWhile (\<lambda>c. b64_value c \<noteq> None) (btoa bs) = replicate ((3 - length bs mod 3) mod 3) (CHR ''='')"
    unfolding btoa_def using while_padding [where P = "\<lambda>c. b64_value c \<noteq> None", OF val] b64_value_special(1) by blast+
  moreover have "(3 - length bs mod 3) mod 3 \<le> 2" by (simp add: less_Suc_eq_le [symmetric])
  ultimately have "b64_shaped (btoa bs)" by (simp add: b64_shaped_def list_all_iff)
  then show ?thesis
    using atob_padded [OF b] by (simp add: fromBase64_def btoa_def padding_count)
qed

definition with_body :: "(string \<times> jsval) list \<Rightarrow> string \<Rightarrow> bool \<Rightarrow> jsval" where
  "with_body event body flag =
     JObj (AList.update ''body'' (JStr body) (AList.update ''isBase64Encoded'' (JBool flag) event))"

lemma with_body_props:
  "prop_of (with_body event body flag) k =
     (if k = ''body'' then JStr body else if k = ''isBase64Encoded'' then JBool flag else prop_of (JObj event) k)"
  by (simp add: with_body_def prop_of_def update_conv')

lemma list_ex_update: "list_ex (\<lambda>(k, _). P k) (AList.update k v kvs) \<longleftrightarrow> P k \<or> list_ex (\<lambda>(k, _). P k) kvs"
  by (induction kvs) auto

text \<open>
  A function URL event may carry its body in clear or in base 64: for every event and every
  text the two ways give the same request, the same rejection or the same failure.
\<close>

theorem base64_body_equivalent:
  assumes "\<And>s. decode (utf8 s) = s"
  shows "normalizeFunctionUrlEvent num date_ok decode (with_body event (btoa (utf8 text)) True)
       = normalizeFunctionUrlEvent num date_ok decode (with_body event text False)"
proof -
  have "fromBase64 (btoa (utf8 text)) = Some (utf8 text)" by (rule fromBase64_btoa) (rule utf8_bytes)
  then have "event_body decode (with_body event (btoa (utf8 text)) True) = event_body decode (with_body event text False)"
    using assms by (simp add: event_body_def with_body_props nullish_or_def)
  moreover have "list_ex (\<lambda>(k, _). k \<notin> set EVENT_KEYS) (props (with_body event b f)) = list_ex (\<lambda>(k, _). k \<notin> set EVENT_KEYS) event" for b f
    by (simp add: with_body_def list_ex_update) (simp add: EVENT_KEYS_def)
  moreover have "prop_of (with_body event b f) k = prop_of (JObj event) k"
    if "k \<in> {''version'', ''requestContext'', ''headers'', ''rawPath'', ''rawQueryString''}" for b f k
    using that by (auto simp: with_body_props)
  note this [of "''version''", simplified] this [of "''requestContext''", simplified] this [of "''headers''", simplified]
    this [of "''rawPath''", simplified] this [of "''rawQueryString''", simplified]
  moreover have "is_object (with_body event b f)" for b f by (simp add: with_body_def)
  ultimately show ?thesis unfolding normalizeFunctionUrlEvent_def by (simp only:)
qed

theorem base64_body_equivalent_witness:
  "normalizeFunctionUrlEvent (\<lambda>_. JNull) (\<lambda>_. True) latin_decode (with_body [(''version'', JStr ''2.0'')] (btoa (utf8 ''hi'')) True)
     = normalizeFunctionUrlEvent (\<lambda>_. JNull) (\<lambda>_. True) latin_decode (with_body [(''version'', JStr ''2.0'')] ''hi'' False)"
  by (rule base64_body_equivalent) (rule latin.decode_utf8)

subsection \<open>Refusals answer with a client error\<close>

lemma catalog_405: "list_all (\<lambda>(c, d). httpStatus d = 405 \<longleftrightarrow> c = ''method-not-allowed'') error_catalog"
  by (simp add: error_catalog_def error_entry_def)

text \<open>
  Whatever the boundary refuses is answered in the open contract: the response to a
  rejection has the catalogue's client error status, is never cached, names the allowed method
  exactly when the status is 405, and its body is the failure envelope; building it can only
  fail if the metadata of the context itself is invalid.
\<close>

theorem rejection_is_client_error:
  "case validateHttpRequest num date_ok request of
     HttpRejected code allowed \<Rightarrow>
       (case rejectionResponse ctx code allowed of
          Inl e \<Rightarrow> createMeta ctx = Inl e
        | Inr r \<Rightarrow> 400 \<le> statusCode r \<and> statusCode r < 500
            \<and> map_of (response_headers r) ''cache-control'' = Some ''no-store''
            \<and> (map_of (response_headers r) ''allow'' \<noteq> None \<longleftrightarrow> statusCode r = 405)
            \<and> createFailure ctx (JStr code) \<in> {Inr e | e. response_body r = json e})
   | _ \<Rightarrow> True"
proof (cases "validateHttpRequest num date_ok request")
  case (HttpRejected code allowed)
  have o: "(case map_of error_catalog code of None \<Rightarrow> False
      | Some d \<Rightarrow> 400 \<le> httpStatus d \<and> httpStatus d < 500 \<and> \<not> retryable d)"
    "allowed \<noteq> [] \<longleftrightarrow> code = ''method-not-allowed''"
    using http_boundary_outcome [where num = num and date_ok = date_ok and request = request] by (simp_all only: HttpRejected http_result.case)
  then obtain d where d: "map_of error_catalog code = Some d" "400 \<le> httpStatus d" "httpStatus d < 500"
    by (auto split: option.splits)
  have status: "httpStatus d = 405 \<longleftrightarrow> code = ''method-not-allowed''"
    using catalog_405 map_of_SomeD [OF d(1)] by (auto simp: list_all_iff)
  have envelope: "\<not> has_prop (JObj [(''meta'', m), (''error'', e)]) ''data''" "prop_of (JObj [(''meta'', m), (''error'', error_json c d)]) ''error'' = error_json c d"
    "prop_of (error_json c d) ''code'' = c" "error_json c d \<noteq> JUndef" "error_json c d \<noteq> JNull" for m e c
    by (simp_all add: has_prop_def prop_of_def error_json_def)
  show ?thesis
  proof (cases "createMeta ctx")
    case (Inl e)
    then show ?thesis by (simp add: HttpRejected rejectionResponse_def createFailure_def find_error_def d(1))
  next
    case (Inr m)
    then show ?thesis using d(2,3) o(2)
      by (simp add: HttpRejected rejectionResponse_def createFailure_def find_error_def d(1)
          createFunctionUrlResponse_def envelope httpStatusForError_def status)
  qed
qed simp_all

end
