(* ===== verification/Oidc_Policy.thy ===== *)
theory Oidc_Policy
  imports Release_Manifests
begin

text \<open>
  \<open>scripts/github-oidc-policy.mjs\<close>: the table of deployment authorities, the trust policies generated
  from it, and which claims of a workflow a policy allows. Reading and writing the two files of the
  command is not modelled.
\<close>

subsection \<open>Subjects\<close>

definition repository_of :: "jsval \<Rightarrow> string \<Rightarrow> jsval" where
  "repository_of manifest k = prop_of (prop_of manifest ''repository'') k"

definition workflowRef :: "jsval \<Rightarrow> jsval \<Rightarrow> string" where
  "workflowRef manifest authority =
     the_text (repository_of manifest ''fullName'') @ ''/'' @ the_text (prop_of authority ''workflowFile'') @ ''@'' @ the_text (repository_of manifest ''deploymentRef'')"

definition join_item :: "jsval \<Rightarrow> string" where
  \<comment> \<open>an item of \<open>join\<close>\<close>
  "join_item v = (if nullish v then [] else the_text v)"

definition customSubject :: "jsval \<Rightarrow> jsval \<Rightarrow> string" where
  "customSubject manifest authority = join '':''
     [join_item (repository_of manifest ''immutableSubjectPrefix''), ''ref'', join_item (repository_of manifest ''deploymentRef''),
      ''workflow_ref'', workflowRef manifest authority, ''environment'', join_item (prop_of authority ''environment''),
      ''event_name'', join_item (prop_of authority ''eventName''), ''runner_environment'', join_item (prop_of authority ''runnerEnvironment'')]"

definition defaultEnvironmentSubject :: "jsval \<Rightarrow> jsval \<Rightarrow> string" where
  "defaultEnvironmentSubject manifest authority =
     the_text (repository_of manifest ''immutableSubjectPrefix'') @ '':environment:'' @ the_text (prop_of authority ''environment'')"

subsection \<open>Validation\<close>

definition AUTHORITY_ID :: regex where "AUTHORITY_ID = Cat (cls ''az09'' []) (plus_of (cls ''az09'' ''-''))"
definition WORKFLOW_FILE :: regex where "WORKFLOW_FILE = cats [lit ''.github/workflows/'', plus_of (cls ''az09'' ''-''), lit ''.yml'']"
definition ENVIRONMENT :: regex where "ENVIRONMENT = cats [lit ''demo-'', plus_of (cls ''az09'' ''-'')]"
definition ROLE_VARIABLE :: regex where "ROLE_VARIABLE = cats [lit ''AWS_'', plus_of (cls ''AZ09'' ''_''), lit ''_ROLE_ARN'']"
definition ACTIVE_DEPLOYMENT_ACTIVATION :: string where "ACTIVE_DEPLOYMENT_ACTIVATION = ''every-production-push''"

fun mentions :: "string \<Rightarrow> string \<Rightarrow> bool" where
  \<comment> \<open>an unanchored pattern of plain characters\<close>
  "mentions w [] = (w = [])"
| "mentions w (c # cs) = (take (length w) (c # cs) = w \<or> mentions w cs)"

definition ends_with :: "string \<Rightarrow> string \<Rightarrow> bool" where
  "ends_with w s \<longleftrightarrow> length w \<le> length s \<and> drop (length s - length w) s = w"

definition unique_values :: "jsval list \<Rightarrow> string \<Rightarrow> string \<Rightarrow> js_error + unit" where
  \<comment> \<open>\<open>unique(authorities.map(({ k }) => k), label)\<close>\<close>
  "unique_values authorities k label =
     throw_if (list_ex nullish authorities) Type_Error (need (Inr (no_repeats (map (\<lambda>a. prop_of a k) authorities))) (label @ '' must be unique''))"

definition check_authority :: "jsval \<Rightarrow> jsval \<Rightarrow> js_error + unit" where
  "check_authority manifest a =
     (let says = (\<lambda>m. m @ '': '' @ the_text (prop_of a ''id'')); p = prop_of a in
      guards ([need (passes (matches AUTHORITY_ID) (p ''id'')) (says ''invalid authority ID''),
        need (Inr (member_of [''ordinary-deployment'', ''manual-qualification'', ''manual-transition'', ''stateful-maintenance''] (p ''authorityClass''))) (says ''invalid authority class''),
        need (Inr (member_of [ACTIVE_DEPLOYMENT_ACTIVATION, ''manual-only-after-workflow-publication''] (p ''activation''))) (says ''invalid activation''),
        need (passes (matches WORKFLOW_FILE) (p ''workflowFile'')) (says ''invalid workflow file''),
        need (Inr (str_satisfies (\<lambda>s. s \<noteq> []) (p ''workflowName''))) (says ''workflow name missing''),
        need (Inr (member_of [''push'', ''workflow_dispatch''] (p ''eventName''))) (says ''invalid event name''),
        need (Inr (p ''runnerEnvironment'' = JStr ''github-hosted'')) (says ''runner environment must be github-hosted''),
        need (passes (matches ENVIRONMENT) (p ''environment'')) (says ''invalid environment''),
        need (passes (matches ROLE_VARIABLE) (p ''roleVariable'')) (says ''invalid role variable''),
        need (Inr (str_satisfies (ends_with ''only'') (p ''permissionScope''))) (says ''permission scope must be closed''),
        need (Inr (\<not> list_ex (\<lambda>c. c \<in> set ''?*'') (customSubject manifest a))) (says ''wildcard subject is forbidden'')]
       @ (if p ''authorityClass'' = JStr ''ordinary-deployment''
          then [need (Inr (p ''workflowFile'' = JStr ''.github/workflows/deploy-demos.yml'')) (says ''ordinary authority uses another workflow''),
            need (Inr (p ''eventName'' = JStr ''push'')) (says ''ordinary authority is not push-only''),
            need (Inr (p ''activation'' = JStr ACTIVE_DEPLOYMENT_ACTIVATION)) (says ''ordinary authority is not active on every production push''),
            need (Inr (\<not> list_ex (\<lambda>w. mentions w (the_text (p ''roleVariable'') @ '':'' @ the_text (p ''permissionScope''))) [''STATEFUL'', ''SEED'', ''MAINTENANCE'']))
              (says ''ordinary authority crosses stateful boundary'')]
          else [need (Inr (p ''activation'' = JStr ''manual-only-after-workflow-publication'')) (says ''nonordinary authority is not manual-only''),
            need (Inr (p ''eventName'' = JStr ''workflow_dispatch'')) (says ''nonordinary authority is not dispatch-only'')])))"

definition SUBJECT_CUSTOMIZATION :: jsval where
  "SUBJECT_CUSTOMIZATION = JObj [(''use_default'', JBool False), (''use_immutable_subject'', JBool True),
     (''include_claim_keys'', JArr (map JStr [''repo'', ''ref'', ''workflow_ref'', ''environment'', ''event_name'', ''runner_environment'']))]"

definition validateManifest :: "jsval \<Rightarrow> js_error + jsval" where
  "validateManifest m =
     (let p = prop_of m; r = repository_of m; as = items (p ''authorities'') in
      bind_r (guards ([need (Inr (p ''schema'' = JStr ''eacl-demo.github-oidc-authorities.v1'')) ''unexpected OIDC authority schema'',
        need (passes (\<lambda>s. length s = 12 \<and> list_all is_digit s) (p ''accountId'')) ''accountId must be exact'',
        need (Inr (p ''providerArn'' = JStr (''arn:aws:iam::'' @ the_text (p ''accountId'') @ '':oidc-provider/token.actions.githubusercontent.com''))) ''provider ARN does not match the account'',
        need (Inr (p ''issuer'' = JStr ''https://token.actions.githubusercontent.com'')) ''issuer must be GitHub Actions'',
        need (Inr (p ''audience'' = JStr ''sts.amazonaws.com'')) ''audience must be AWS STS'',
        need (Inr (r ''owner'' = JStr ''theronic'')) ''repository owner changed'',
        need (Inr (r ''ownerId'' = JStr ''1011676'')) ''repository owner ID changed'',
        need (Inr (r ''name'' = JStr ''eacl-demo'')) ''repository name changed'',
        need (Inr (r ''repositoryId'' = JStr ''1345904214'')) ''repository ID changed'',
        need (Inr (r ''fullName'' = JStr (the_text (r ''owner'') @ ''/'' @ the_text (r ''name'')))) ''repository full name is inconsistent'',
        need (Inr (r ''deploymentRef'' = JStr ''refs/heads/production'')) ''deployment ref must be exactly the production branch'',
        need (Inr (r ''immutableSubjectPrefix'' = JStr (''repo:'' @ the_text (r ''owner'') @ ''@'' @ the_text (r ''ownerId'') @ ''/'' @ the_text (r ''name'') @ ''@'' @ the_text (r ''repositoryId''))))
          ''immutable subject prefix is inconsistent'',
        need (Inr (json (p ''subjectCustomization'') = json SUBJECT_CUSTOMIZATION))
          ''subject customization must bind immutable repo, ref, workflow_ref, environment, event, and runner in order'',
        need (Inr (is_list (p ''authorities'') \<and> as \<noteq> [])) ''authorities are required'',
        unique_values as ''id'' ''authority IDs'', unique_values as ''environment'' ''authority environments'', unique_values as ''roleVariable'' ''authority role variables'']
       @ map (check_authority m) as)) (\<lambda>_. Inr m))"

subsection \<open>Policies\<close>

definition claim_key :: "string \<Rightarrow> string" where "claim_key k = ''token.actions.githubusercontent.com:'' @ k"

definition EXACT_CONDITION_KEYS :: "string list" where
  "EXACT_CONDITION_KEYS = sort (map claim_key [''aud'', ''environment'', ''ref'', ''repository'', ''repository_id'', ''repository_owner_id'', ''sub'', ''workflow''])"

definition conditions_of :: "jsval \<Rightarrow> jsval \<Rightarrow> (string \<times> jsval) list" where
  "conditions_of manifest authority =
     [(claim_key ''aud'', prop_of manifest ''audience''), (claim_key ''environment'', prop_of authority ''environment''),
      (claim_key ''ref'', repository_of manifest ''deploymentRef''), (claim_key ''repository'', repository_of manifest ''fullName''),
      (claim_key ''repository_id'', repository_of manifest ''repositoryId''), (claim_key ''repository_owner_id'', repository_of manifest ''ownerId''),
      (claim_key ''sub'', JStr (customSubject manifest authority)), (claim_key ''workflow'', prop_of authority ''workflowName'')]"

definition trustPolicy :: "jsval \<Rightarrow> jsval \<Rightarrow> js_error + jsval" where
  "trustPolicy manifest authority =
     bind_r (need (Inr (sort (map fst (conditions_of manifest authority)) = EXACT_CONDITION_KEYS)) ''trust condition set drifted'') (\<lambda>_.
     Inr (JObj [(''Version'', JStr ''2012-10-17''), (''Statement'', JArr [JObj [(''Sid'', JStr ''ExactGitHubOidcAuthority''), (''Effect'', JStr ''Allow''),
       (''Principal'', JObj [(''Federated'', prop_of manifest ''providerArn'')]), (''Action'', JStr ''sts:AssumeRoleWithWebIdentity''),
       (''Condition'', JObj [(''StringEquals'', JObj (conditions_of manifest authority))])]])]))"

definition last_part :: "string \<Rightarrow> string" where
  \<comment> \<open>\<open>key.split(":").at(-1)\<close>\<close>
  "last_part k = rev (takeWhile (\<lambda>c. c \<noteq> CHR '':'') (rev k))"

definition claimsAllowed :: "jsval \<Rightarrow> jsval \<Rightarrow> js_error + bool" where
  "claimsAllowed policy claims =
     (case items (prop_of policy ''Statement'') of
        [] \<Rightarrow> Inl Type_Error
      | st # sts \<Rightarrow> let expected = props (prop_of (prop_of st ''Condition'') ''StringEquals'') in
          throw_if (nullish claims \<and> expected \<noteq> []) Type_Error
            (Inr (list_all (\<lambda>(k, v). strict_eq (prop_of claims (last_part k)) v) expected)))"

definition bundle_entry :: "jsval \<Rightarrow> jsval \<Rightarrow> js_error + (string \<times> jsval)" where
  "bundle_entry m a = bind_r (trustPolicy m a) (\<lambda>policy. let p = prop_of a in
     Inr (the_text (p ''id''), JObj [(''authorityClass'', p ''authorityClass''), (''activation'', p ''activation''), (''workflowFile'', p ''workflowFile''),
       (''workflowRef'', JStr (workflowRef m a)), (''eventName'', p ''eventName''), (''runnerEnvironment'', p ''runnerEnvironment''),
       (''environment'', p ''environment''), (''roleVariable'', p ''roleVariable''), (''permissionScope'', p ''permissionScope''),
       (''defaultEnvironmentSubjectDuringMigration'', JStr (defaultEnvironmentSubject m a)), (''requiredCustomSubject'', JStr (customSubject m a)),
       (''assumeRolePolicyDocument'', policy)]))"

fun all_r :: "('e + 'a) list \<Rightarrow> 'e + 'a list" where
  "all_r [] = Inr []"
| "all_r (r # rs) = bind_r r (\<lambda>x. bind_r (all_r rs) (\<lambda>xs. Inr (x # xs)))"

definition generatedBundle :: "jsval \<Rightarrow> js_error + jsval" where
  "generatedBundle manifest = bind_r (validateManifest manifest) (\<lambda>m. bind_r (all_r (map (bundle_entry m) (items (prop_of m ''authorities'')))) (\<lambda>entries.
     Inr (JObj [(''schema'', JStr ''eacl-demo.github-oidc-trust-policies.v1''), (''sourceSchema'', prop_of m ''schema''),
       (''subjectCustomization'', prop_of m ''subjectCustomization''), (''policies'', JObj (from_entries entries))])))"

subsection \<open>One authority for a workflow\<close>

definition admits :: "jsval \<Rightarrow> jsval \<Rightarrow> jsval \<Rightarrow> bool" where
  "admits m claims a \<longleftrightarrow> (case trustPolicy m a of Inl e \<Rightarrow> False | Inr policy \<Rightarrow> claimsAllowed policy claims = Inr True)"

lemma last_part_key: "CHR '':'' \<notin> set k \<Longrightarrow> last_part (claim_key k) = k"
proof -
  assume "CHR '':'' \<notin> set k"
  then have "takeWhile (\<lambda>c. c \<noteq> CHR '':'') (rev k @ ys) = rev k @ takeWhile (\<lambda>c. c \<noteq> CHR '':'') ys" for ys by (intro takeWhile_append2) auto
  then show ?thesis by (simp add: last_part_def claim_key_def)
qed

lemma strict_eq_shared: "strict_eq v x \<Longrightarrow> strict_eq v y \<Longrightarrow> strict_eq x y"
  by (auto simp: strict_eq_def split: jsval.splits if_splits)

lemma one_of_distinct:
  "no_repeats (map f as) \<Longrightarrow> (\<And>a. a \<in> set as \<Longrightarrow> P a \<Longrightarrow> strict_eq v (f a)) \<Longrightarrow> length (filter P as) \<le> 1"
proof (induction as)
  case (Cons a as)
  then have IH: "length (filter P as) \<le> 1" by simp
  show ?case
  proof (cases "P a")
    case True
    have "\<not> P b" if "b \<in> set as" for b
      using strict_eq_shared [of v "f a" "f b"] Cons.prems(1,2) True that by (auto simp: list_ex_iff)
    then have "filter P as = []" by (simp add: filter_empty_conv)
    with True show ?thesis by simp
  qed (use IH in simp)
qed simp

lemma trustPolicy_ok: "\<exists>policy. trustPolicy m a = Inr policy \<and> (claimsAllowed policy claims = Inr True \<longleftrightarrow> \<not> nullish claims
    \<and> list_all (\<lambda>(k, v). strict_eq (prop_of claims (last_part k)) v) (conditions_of m a))"
proof -
  have "map fst (conditions_of m a) = map claim_key [''aud'', ''environment'', ''ref'', ''repository'', ''repository_id'', ''repository_owner_id'', ''sub'', ''workflow'']"
    by (simp add: conditions_of_def)
  then have "sort (map fst (conditions_of m a)) = EXACT_CONDITION_KEYS" unfolding EXACT_CONDITION_KEYS_def by (simp only:)
  moreover have "conditions_of m a \<noteq> []" by (simp add: conditions_of_def)
  ultimately show ?thesis by (simp add: trustPolicy_def claimsAllowed_def prop_of_def [of "JObj _"])
qed

lemma admits_iff:
  "admits m claims a \<longleftrightarrow> \<not> nullish claims \<and> strict_eq (prop_of claims ''aud'') (prop_of m ''audience'') \<and> strict_eq (prop_of claims ''environment'') (prop_of a ''environment'')
     \<and> strict_eq (prop_of claims ''ref'') (repository_of m ''deploymentRef'') \<and> strict_eq (prop_of claims ''repository'') (repository_of m ''fullName'')
     \<and> strict_eq (prop_of claims ''repository_id'') (repository_of m ''repositoryId'') \<and> strict_eq (prop_of claims ''repository_owner_id'') (repository_of m ''ownerId'')
     \<and> prop_of claims ''sub'' = JStr (customSubject m a) \<and> strict_eq (prop_of claims ''workflow'') (prop_of a ''workflowName'')"
proof -
  obtain policy where "trustPolicy m a = Inr policy" "claimsAllowed policy claims = Inr True \<longleftrightarrow> \<not> nullish claims
      \<and> list_all (\<lambda>(k, v). strict_eq (prop_of claims (last_part k)) v) (conditions_of m a)" using trustPolicy_ok [of m a claims] by blast
  then show ?thesis by (simp add: admits_def conditions_of_def last_part_key)
qed

lemma validated_manifest:
  assumes "validateManifest manifest = Inr m"
  shows "m = manifest" "prop_of m ''audience'' = JStr ''sts.amazonaws.com''" "repository_of m ''deploymentRef'' = JStr ''refs/heads/production''"
    "repository_of m ''fullName'' = JStr ''theronic/eacl-demo''" "repository_of m ''repositoryId'' = JStr ''1345904214''" "repository_of m ''ownerId'' = JStr ''1011676''"
    "no_repeats (map (\<lambda>a. prop_of a ''environment'') (items (prop_of m ''authorities'')))"
    "a \<in> set (items (prop_of m ''authorities'')) \<Longrightarrow> check_authority m a = Inr ()"
proof -
  have fields: "m = manifest \<and> prop_of m ''audience'' = JStr ''sts.amazonaws.com'' \<and> repository_of m ''owner'' = JStr ''theronic'' \<and> repository_of m ''name'' = JStr ''eacl-demo''
     \<and> repository_of m ''deploymentRef'' = JStr ''refs/heads/production'' \<and> repository_of m ''repositoryId'' = JStr ''1345904214'' \<and> repository_of m ''ownerId'' = JStr ''1011676''
     \<and> repository_of m ''fullName'' = JStr (the_text (repository_of m ''owner'') @ ''/'' @ the_text (repository_of m ''name''))
     \<and> unique_values (items (prop_of m ''authorities'')) ''environment'' ''authority environments'' = Inr ()
     \<and> (\<forall>a \<in> set (items (prop_of m ''authorities'')). check_authority m a = Inr ())"
    using assms by (clarsimp simp: validateManifest_def Let_def guards_ok list_all_iff)
  then show "m = manifest" "prop_of m ''audience'' = JStr ''sts.amazonaws.com''" "repository_of m ''deploymentRef'' = JStr ''refs/heads/production''"
    "repository_of m ''repositoryId'' = JStr ''1345904214''" "repository_of m ''ownerId'' = JStr ''1011676''"
    "a \<in> set (items (prop_of m ''authorities'')) \<Longrightarrow> check_authority m a = Inr ()" by blast+
  from fields have "repository_of m ''fullName'' = JStr (the_text (JStr ''theronic'') @ ''/'' @ the_text (JStr ''eacl-demo''))" by metis
  then show "repository_of m ''fullName'' = JStr ''theronic/eacl-demo''" by (simp add: the_text_def)
  from fields show "no_repeats (map (\<lambda>a. prop_of a ''environment'') (items (prop_of m ''authorities'')))" by (auto simp: unique_values_def split: if_splits)
qed

text \<open>
  C25 Whatever claims a workflow presents: at most one authority of a valid table admits them, and then
  they are for the token service, of the repository by its names and numbers, of the production branch, with the
  authority's own subject, which has no wildcard.
\<close>

theorem oidc_authorities_disjoint:
  "case validateManifest manifest of
     Inl e \<Rightarrow> True
   | Inr m \<Rightarrow> let admitting = filter (admits m claims) (items (prop_of m ''authorities'')) in
       length admitting \<le> 1
       \<and> list_all (\<lambda>a. prop_of claims ''aud'' = JStr ''sts.amazonaws.com'' \<and> prop_of claims ''ref'' = JStr ''refs/heads/production''
           \<and> prop_of claims ''repository'' = JStr ''theronic/eacl-demo'' \<and> prop_of claims ''repository_id'' = JStr ''1345904214''
           \<and> prop_of claims ''repository_owner_id'' = JStr ''1011676'' \<and> prop_of claims ''sub'' = JStr (customSubject m a)
           \<and> \<not> list_ex (\<lambda>c. c \<in> set ''?*'') (customSubject m a) \<and> is_string (prop_of claims ''workflow'')) admitting"
proof (cases "validateManifest manifest")
  case (Inr m)
  note valid = validated_manifest [OF Inr]
  have "length (filter (admits m claims) (items (prop_of m ''authorities''))) \<le> 1"
    by (rule one_of_distinct [OF valid(7), where v = "prop_of claims ''environment''"]) (simp add: admits_iff)
  moreover have "\<not> list_ex (\<lambda>c. c \<in> set ''?*'') (customSubject m a) \<and> (\<exists>w. prop_of a ''workflowName'' = JStr w)" if "a \<in> set (items (prop_of m ''authorities''))" for a
    using valid(8) [OF that] by (auto simp: check_authority_def Let_def guards_ok str_satisfies_def split: jsval.splits)
  then have "list_all (\<lambda>a. prop_of claims ''aud'' = JStr ''sts.amazonaws.com'' \<and> prop_of claims ''ref'' = JStr ''refs/heads/production''
           \<and> prop_of claims ''repository'' = JStr ''theronic/eacl-demo'' \<and> prop_of claims ''repository_id'' = JStr ''1345904214''
           \<and> prop_of claims ''repository_owner_id'' = JStr ''1011676'' \<and> prop_of claims ''sub'' = JStr (customSubject m a)
           \<and> \<not> list_ex (\<lambda>c. c \<in> set ''?*'') (customSubject m a) \<and> is_string (prop_of claims ''workflow'')) (filter (admits m claims) (items (prop_of m ''authorities'')))"
    by (fastforce simp: list_all_iff admits_iff valid(2-6))
  ultimately show ?thesis by (simp add: Inr Let_def)
qed simp

end
