(* ===== verification/Api_Client.thy ===== *)
theory Api_Client
  imports Json_Text Regex Spread Machine
begin

text \<open>
  \<open>apps/explorer-main/src/api.ts\<close> and \<open>apps/explorer-main/src/preferences.ts\<close>: the request of the
  explorer's panels, the rule that only the latest request of a panel counts, and the stored
  preferences. The server, the clock and local storage are the environment.
\<close>

subsection \<open>One request\<close>

datatype client_error =
    Api_Error jsval jsval jsval jsval
  | Type_Thrown
  | Abort_Thrown
  | Other_Thrown string

definition ApiError :: "jsval \<Rightarrow> jsval \<Rightarrow> client_error" where
  \<comment> \<open>status, code, message and details of a failure\<close>
  "ApiError status failure =
     (let e = prop_of failure ''error'' in Api_Error status (prop_of e ''code'') (prop_of e ''message'') (prop_of e ''details''))"

definition own_failure :: "string \<Rightarrow> string \<Rightarrow> jsval" where
  "own_failure c m = JObj [(''error'', JObj [(''code'', JStr c), (''message'', JStr m)])]"

definition OPERATION_PATH :: regex where
  "OPERATION_PATH = cats [lit ''/'', plus_of (cls ''az09'' []), star (Cat (lit ''-'') (plus_of (cls ''az09'' []))),
     optional (Cat (lit ''?'') (star (Chars (\<lambda>c. c \<noteq> CHR 0x0A \<and> c \<noteq> CHR 0x0D))))]"

definition apiPath :: "string \<Rightarrow> client_error + string" where
  "apiPath path = throw_if (\<not> matches OPERATION_PATH path) Type_Thrown (Inr path)"

definition isSuccess :: "jsval \<Rightarrow> bool" where
  "isSuccess v \<longleftrightarrow> has_prop v ''data'' \<and> has_prop v ''meta'' \<and> is_string (prop_of (prop_of v ''meta'') ''revision'')"

definition isFailure :: "jsval \<Rightarrow> bool" where
  "isFailure v \<longleftrightarrow> has_prop v ''error'' \<and> is_string (prop_of (prop_of v ''error'') ''code'') \<and> is_string (prop_of (prop_of v ''error'') ''message'')"

definition request_headers :: "jsval \<Rightarrow> jsval" where
  "request_headers options = spread ([JObj [(''accept'', JStr ''application/json'')]]
     @ (if truthy (prop_of options ''body'') then [JObj [(''content-type'', JStr ''application/json'')]] else []) @ [prop_of options ''headers''])"

record answer =
  http_status :: int
  parsed :: "client_error + jsval"

record exchange =
  \<comment> \<open>what came back, and the two flags when it is looked at\<close>
  fetched :: "client_error + answer"
  timed_out :: bool
  caller_aborted :: bool

definition read_answer :: "exchange \<Rightarrow> answer \<Rightarrow> client_error + jsval" where
  "read_answer x a = (case parsed a of
     Inl e \<Rightarrow> Inl (if timed_out x \<or> caller_aborted x \<or> e = Type_Thrown \<or> e = Abort_Thrown then e
       else ApiError (JInt (if http_status a = 0 then 500 else http_status a)) (own_failure ''invalid-json-response'' ''The server returned an invalid JSON response.''))
   | Inr payload \<Rightarrow>
       if \<not> (200 \<le> http_status a \<and> http_status a \<le> 299)
       then Inl (ApiError (JInt (http_status a)) (if isFailure payload then payload
         else own_failure ''unexpected-api-response'' ''The server returned an unexpected error response.''))
       else if \<not> isSuccess payload then Inl (ApiError (JInt 500) (own_failure ''invalid-api-envelope'' ''The server returned an invalid success envelope.''))
       else Inr payload)"

definition timeout_text :: "nat \<Rightarrow> string" where
  "timeout_text ms = ''The request did not finish within '' @ nat_str (max 1 ((ms + 999) div 1000)) @ '' seconds.''"

definition apiRequest :: "nat \<Rightarrow> string \<Rightarrow> exchange \<Rightarrow> client_error + jsval" where
  "apiRequest ms path x =
     (case bind_r (apiPath path) (\<lambda>_. bind_r (fetched x) (read_answer x)) of
        Inr v \<Rightarrow> Inr v
      | Inl (Api_Error st c m d) \<Rightarrow> Inl (Api_Error st c m d)
      | Inl e \<Rightarrow> Inl (if timed_out x then ApiError (JInt 408) (own_failure ''client-timeout'' (timeout_text ms))
          else if caller_aborted x then e
          else ApiError (JInt 0) (own_failure ''network-error'' ''The request could not reach the server. Check the connection and retry.'')))"

text \<open>\<open>own_errors\<close> says that the environment throws no \<open>ApiError\<close>.\<close>

definition own_errors :: "exchange \<Rightarrow> bool" where
  "own_errors x \<longleftrightarrow> (case fetched x of Inl (Api_Error st c m d) \<Rightarrow> False | Inl e \<Rightarrow> True
     | Inr a \<Rightarrow> (case parsed a of Inl (Api_Error st c m d) \<Rightarrow> False | _ \<Rightarrow> True))"

lemma ApiError_own: "ApiError st (own_failure c m) = Api_Error st (JStr c) (JStr m) JUndef"
  by (simp add: ApiError_def own_failure_def prop_of_def)

lemma read_answer_Inr: "read_answer x a = Inr v \<longleftrightarrow> parsed a = Inr v \<and> 200 \<le> http_status a \<and> http_status a \<le> 299 \<and> isSuccess v"
  by (auto simp: read_answer_def split: sum.splits if_splits)

lemma ApiError_strings:
  "ApiError st p = Api_Error st' c m d \<Longrightarrow> (\<exists>x y. p = own_failure x y) \<or> isFailure p \<Longrightarrow> is_string c \<and> is_string m"
  by (auto simp: ApiError_own) (auto simp: ApiError_def Let_def isFailure_def)

lemma read_answer_Api:
  assumes "read_answer x a = Inl (Api_Error st c m d)" "fetched x = Inr a" "own_errors x"
  shows "is_string c \<and> is_string m"
  using assms by (cases "parsed a") (auto simp: read_answer_def own_errors_def dest!: ApiError_strings split: if_splits)

definition sent_r :: "string \<Rightarrow> exchange \<Rightarrow> client_error + jsval" where
  "sent_r path x = bind_r (apiPath path) (\<lambda>_. bind_r (fetched x) (read_answer x))"

lemma sent_r_Inr: "sent_r path x = Inr v \<Longrightarrow> matches OPERATION_PATH path \<and> (\<exists>a. fetched x = Inr a \<and> read_answer x a = Inr v)"
  by (auto simp: sent_r_def apiPath_def split: if_splits)

lemma sent_r_Api: "sent_r path x = Inl (Api_Error st c m d) \<Longrightarrow> own_errors x \<Longrightarrow> is_string c \<and> is_string m"
  using read_answer_Api [of x _ st c m d] by (cases "fetched x") (auto simp: sent_r_def apiPath_def own_errors_def bind_r_def split: if_splits)

text \<open>
  What a panel gets: a payload that is a success envelope of a successful response, an \<open>ApiError\<close> with
  a code and a message that are texts, or the error of its own cancellation.
\<close>

theorem apiRequest_outcomes:
  "case apiRequest ms path x of
     Inr v \<Rightarrow> (\<exists>a. fetched x = Inr a \<and> parsed a = Inr v \<and> 200 \<le> http_status a \<and> http_status a \<le> 299) \<and> isSuccess v \<and> matches OPERATION_PATH path
   | Inl (Api_Error st c m d) \<Rightarrow> (if own_errors x then is_string c \<and> is_string m else True)
   | Inl e \<Rightarrow> caller_aborted x \<and> \<not> timed_out x"
proof (cases "sent_r path x")
  case (Inr v)
  with sent_r_Inr [OF this] show ?thesis by (auto simp: apiRequest_def read_answer_Inr sent_r_def [symmetric])
next
  case (Inl e)
  with sent_r_Api [of path x] show ?thesis
    by (cases e) (auto simp: apiRequest_def ApiError_own sent_r_def [symmetric])
qed

subsection \<open>Only the latest\<close>

record latest_call =
  order_no :: nat
  was_aborted :: bool
  was_settled :: bool

record latest =
  sequence :: nat
  controller :: "nat option"
  latest_calls :: "latest_call list"
  delivered :: "(nat \<times> jsval) list"

definition start_latest :: latest where
  "start_latest = \<lparr>sequence = 0, controller = None, latest_calls = [], delivered = []\<rparr>"

definition abort_current :: "latest \<Rightarrow> latest" where
  \<comment> \<open>\<open>this.controller?.abort()\<close>\<close>
  "abort_current s = (case controller s of None \<Rightarrow> s
     | Some i \<Rightarrow> s\<lparr>latest_calls := (latest_calls s)[i := (latest_calls s ! i)\<lparr>was_aborted := True\<rparr>]\<rparr>)"

definition begin_run :: "latest \<Rightarrow> latest" where
  "begin_run s =
     (let t = abort_current s in
      t\<lparr>sequence := Suc (sequence t), controller := Some (length (latest_calls t)),
        latest_calls := latest_calls t @ [\<lparr>order_no = Suc (sequence t), was_aborted = False, was_settled = False\<rparr>]\<rparr>)"

definition run_settles :: "nat \<Rightarrow> client_error + jsval \<Rightarrow> latest \<Rightarrow> latest" where
  \<comment> \<open>a result that is not the latest's is thrown away as an \<open>AbortError\<close>\<close>
  "run_settles i r s =
     (let mine = order_no (latest_calls s ! i) = sequence s;
          t = s\<lparr>latest_calls := (latest_calls s)[i := (latest_calls s ! i)\<lparr>was_settled := True\<rparr>],
            delivered := (case r of Inr v \<Rightarrow> if mine then delivered s @ [(i, v)] else delivered s | Inl e \<Rightarrow> delivered s)\<rparr> in
      if mine then t\<lparr>controller := None\<rparr> else t)"

definition abort_latest :: "latest \<Rightarrow> latest" where
  "abort_latest s = (abort_current s)\<lparr>controller := None, sequence := Suc (sequence s)\<rparr>"

datatype latest_event = Run | Run_Settles nat "client_error + jsval" | Abort

fun latest_step :: "latest_event \<Rightarrow> latest \<Rightarrow> latest option" where
  "latest_step Run s = Some (begin_run s)"
| "latest_step (Run_Settles i r) s =
     (if i < length (latest_calls s) \<and> \<not> was_settled (latest_calls s ! i) then Some (run_settles i r s) else None)"
| "latest_step Abort s = Some (abort_latest s)"

text \<open>
  A call that is not settled is the current one or has been aborted; the current one is the last.
\<close>

definition latest_call_ok :: "latest \<Rightarrow> nat \<Rightarrow> bool" where
  "latest_call_ok s i \<longleftrightarrow> (let c = latest_calls s ! i in
     order_no c \<le> sequence s \<and> (order_no c = sequence s \<longrightarrow> Suc i = length (latest_calls s))
     \<and> (if was_settled c then controller s \<noteq> Some i
        else if controller s = Some i then order_no c = sequence s \<and> \<not> was_aborted c else was_aborted c \<and> order_no c < sequence s))"

definition latest_ok :: "latest \<Rightarrow> bool" where
  "latest_ok s \<longleftrightarrow> (\<forall>i < length (latest_calls s). latest_call_ok s i) \<and> (case controller s of None \<Rightarrow> True | Some i \<Rightarrow> i < length (latest_calls s))
     \<and> sorted_wrt (<) (map fst (delivered s))
     \<and> (\<forall>d \<in> set (delivered s). fst d < length (latest_calls s) \<and> was_settled (latest_calls s ! fst d))"

lemma latest_ok_call: "latest_ok s \<Longrightarrow> i < length (latest_calls s) \<Longrightarrow> latest_call_ok s i"
  by (simp add: latest_ok_def)

lemma latest_okI:
  "(\<And>i. i < length (latest_calls s) \<Longrightarrow> latest_call_ok s i) \<Longrightarrow> (case controller s of None \<Rightarrow> True | Some i \<Rightarrow> i < length (latest_calls s))
   \<Longrightarrow> sorted_wrt (<) (map fst (delivered s)) \<Longrightarrow> (\<And>d. d \<in> set (delivered s) \<Longrightarrow> fst d < length (latest_calls s) \<and> was_settled (latest_calls s ! fst d))
   \<Longrightarrow> latest_ok s"
  by (simp add: latest_ok_def)

lemma abort_fields [simp]:
  "sequence (abort_current s) = sequence s" "delivered (abort_current s) = delivered s" "length (latest_calls (abort_current s)) = length (latest_calls s)"
  by (simp_all add: abort_current_def split: option.split)

lemma abort_nth:
  "i < length (latest_calls s) \<Longrightarrow> latest_calls (abort_current s) ! i
     = (if controller s = Some i then (latest_calls s ! i)\<lparr>was_aborted := True\<rparr> else latest_calls s ! i)"
  by (auto simp: abort_current_def nth_list_update split: option.split)

lemma abort_latest_fields [simp]:
  "sequence (abort_latest s) = Suc (sequence s)" "controller (abort_latest s) = None" "delivered (abort_latest s) = delivered s"
  "latest_calls (abort_latest s) = latest_calls (abort_current s)"
  by (simp_all add: abort_latest_def)

lemma abort_latest_ok:
  assumes ok: "latest_ok s"
  shows "latest_ok (abort_latest s)" and "i < length (latest_calls s) \<Longrightarrow> order_no (latest_calls (abort_latest s) ! i) < sequence (abort_latest s)"
proof -
  show "latest_ok (abort_latest s)"
  proof (rule latest_okI)
    fix i assume "i < length (latest_calls (abort_latest s))"
    then have i: "i < length (latest_calls s)" by simp
    from latest_ok_call [OF ok i] show "latest_call_ok (abort_latest s) i"
      by (auto simp: latest_call_ok_def Let_def abort_nth [OF i] split: if_splits)
  next
    fix d assume "d \<in> set (delivered (abort_latest s))"
    with ok have "fst d < length (latest_calls s) \<and> was_settled (latest_calls s ! fst d)" by (simp add: latest_ok_def)
    then show "fst d < length (latest_calls (abort_latest s)) \<and> was_settled (latest_calls (abort_latest s) ! fst d)" by (simp add: abort_nth)
  qed (use ok in \<open>simp_all add: latest_ok_def\<close>)
  show "i < length (latest_calls s) \<Longrightarrow> order_no (latest_calls (abort_latest s) ! i) < sequence (abort_latest s)"
    using latest_ok_call [OF ok, of i] by (auto simp: latest_call_ok_def Let_def abort_nth)
qed

lemma begin_run_ok:
  assumes ok: "latest_ok s" shows "latest_ok (begin_run s)"
proof -
  define t where "t = abort_latest s"
  have run: "begin_run s = t\<lparr>controller := Some (length (latest_calls t)), latest_calls := latest_calls t @ [\<lparr>order_no = sequence t, was_aborted = False, was_settled = False\<rparr>]\<rparr>"
    by (simp add: begin_run_def Let_def t_def abort_latest_def abort_current_def split: option.split)
  have t: "latest_ok t" "controller t = None" "\<And>i. i < length (latest_calls t) \<Longrightarrow> order_no (latest_calls t ! i) < sequence t"
    using abort_latest_ok [OF ok] by (simp_all add: t_def)
  show ?thesis unfolding run
  proof (rule latest_okI)
    fix i let ?r = "t\<lparr>controller := Some (length (latest_calls t)), latest_calls := latest_calls t @ [\<lparr>order_no = sequence t, was_aborted = False, was_settled = False\<rparr>]\<rparr>"
    assume "i < length (latest_calls ?r)"
    then consider "i = length (latest_calls t)" | "i < length (latest_calls t)" by (auto simp: less_Suc_eq)
    then show "latest_call_ok ?r i"
    proof cases
      case 2
      with latest_ok_call [OF t(1) 2] t(2,3) show ?thesis by (fastforce simp: latest_call_ok_def Let_def nth_append split: if_splits)
    qed (simp add: latest_call_ok_def)
  qed (use t(1) in \<open>auto simp: latest_ok_def nth_append\<close>)
qed

lemma run_settles_ok:
  assumes ok: "latest_ok s" and i: "i < length (latest_calls s)" "\<not> was_settled (latest_calls s ! i)"
  shows "latest_ok (run_settles i r s)"
proof -
  let ?c = "(latest_calls s ! i)\<lparr>was_settled := True\<rparr>"
  have call: "latest_call_ok s i" by (rule latest_ok_call [OF ok i(1)])
  have mine: "controller s = Some i \<longleftrightarrow> order_no (latest_calls s ! i) = sequence s"
    using call i(2) by (auto simp: latest_call_ok_def Let_def split: if_splits)
  define out where "out = (case r of Inr v \<Rightarrow> if controller s = Some i then [(i, v)] else [] | Inl e \<Rightarrow> [])"
  have t: "run_settles i r s = s\<lparr>latest_calls := (latest_calls s)[i := ?c], delivered := delivered s @ out,
      controller := (if controller s = Some i then None else controller s)\<rparr>"
    by (auto simp: run_settles_def Let_def mine out_def split: sum.split)
  have last: "Suc i = length (latest_calls s)" if "out \<noteq> []"
    using call i(2) that by (auto simp: out_def latest_call_ok_def Let_def split: sum.splits if_splits)
  have before: "fst d < i" if "d \<in> set (delivered s)" "out \<noteq> []" for d
  proof -
    from that(1) ok have "fst d < length (latest_calls s)" "was_settled (latest_calls s ! fst d)" by (simp_all add: latest_ok_def)
    with last [OF that(2)] i(2) show ?thesis by (metis less_Suc_eq)
  qed
  show ?thesis unfolding t
  proof (rule latest_okI)
    let ?t = "s\<lparr>latest_calls := (latest_calls s)[i := ?c], delivered := delivered s @ out, controller := (if controller s = Some i then None else controller s)\<rparr>"
    show "latest_call_ok ?t j" if "j < length (latest_calls ?t)" for j
    proof (cases "j = i")
      case True
      with call i show ?thesis by (auto simp: latest_call_ok_def Let_def)
    next
      case False
      from that have j: "j < length (latest_calls s)" by simp
      show ?thesis using latest_ok_call [OF ok j] False by (auto simp: latest_call_ok_def Let_def split: if_splits)
    qed
    show "case controller ?t of None \<Rightarrow> True | Some k \<Rightarrow> k < length (latest_calls ?t)" using ok by (auto simp: latest_ok_def split: option.split)
    have "sorted_wrt (<) (map fst (delivered s))" using ok by (simp add: latest_ok_def)
    with before show "sorted_wrt (<) (map fst (delivered ?t))" by (auto simp: sorted_wrt_append out_def split: sum.split)
    show "fst d < length (latest_calls ?t) \<and> was_settled (latest_calls ?t ! fst d)" if "d \<in> set (delivered ?t)" for d
      using that ok i by (auto simp: latest_ok_def nth_list_update out_def split: sum.splits if_splits)
  qed
qed

interpretation latest_request: machine_invariant latest_step start_latest latest_ok
proof
  show "latest_ok start_latest" by (simp add: latest_ok_def start_latest_def)
  show "latest_ok t" if "latest_ok s" "latest_step e s = Some t" for s e t
    using that by (cases e) (auto simp: begin_run_ok run_settles_ok abort_latest_ok split: if_splits)
qed

text \<open>
  C32 Whatever the order in which the dispatcher answers, results reach the panel in the order of their
  requests, each at most once, and every request still under way but the last has been aborted.
\<close>

theorem latest_results_in_order:
  "case run_events latest_step es start_latest of
     None \<Rightarrow> True
   | Some s \<Rightarrow> sorted_wrt (<) (map fst (delivered s))
       \<and> list_all (\<lambda>c. was_settled c \<or> was_aborted c) (butlast (latest_calls s))
       \<and> list_all (\<lambda>c. was_settled c \<or> was_aborted c \<or> controller s = Some (length (latest_calls s) - 1)) (latest_calls s)"
proof (cases "run_events latest_step es start_latest")
  case (Some s)
  from latest_request.holds_run [OF this] have ok: "latest_ok s" .
  have "was_settled (latest_calls s ! i) \<or> was_aborted (latest_calls s ! i) \<or> controller s = Some i \<and> Suc i = length (latest_calls s)"
    if "i < length (latest_calls s)" for i
    using latest_ok_call [OF ok that] by (auto simp: latest_call_ok_def Let_def split: if_splits)
  note under_way = this
  have "was_settled (butlast (latest_calls s) ! i) \<or> was_aborted (butlast (latest_calls s) ! i)" if "i < length (latest_calls s) - 1" for i
  proof -
    from that have "i < length (latest_calls s)" "Suc i \<noteq> length (latest_calls s)" by linarith+
    with under_way [OF this(1)] that show ?thesis by (simp add: nth_butlast)
  qed
  then have "list_all (\<lambda>c. was_settled c \<or> was_aborted c) (butlast (latest_calls s))" by (simp add: list_all_length)
  moreover have "list_all (\<lambda>c. was_settled c \<or> was_aborted c \<or> controller s = Some (length (latest_calls s) - 1)) (latest_calls s)"
    unfolding list_all_length using under_way by (metis diff_Suc_1)
  ultimately show ?thesis using Some ok by (simp add: latest_ok_def)
qed simp

subsection \<open>Stored preferences\<close>

definition PAGE_SIZE_OPTIONS :: "int list" where "PAGE_SIZE_OPTIONS = [5, 10, 20, 25, 50, 100, 250, 500, 1000]"

definition DEFAULT_PREFERENCES :: jsval where
  "DEFAULT_PREFERENCES = JObj [(''subjectType'', JStr ''user''), (''subjectId'', JStr ''user-1''), (''permission'', JStr ''view''), (''pageSize'', JInt 20),
     (''cacheEnabled'', JBool True), (''populateCache'', JBool True), (''theme'', JStr ''light''),
     (''expanded'', JArr [JStr ''resource-type:account'', JStr ''resource-type:server'', JStr ''segment:read-basis'', JStr ''segment:schema''])]"

definition pageSize :: "jsval \<Rightarrow> jsval" where
  "pageSize v = (if v \<in> JInt ` set PAGE_SIZE_OPTIONS then v else JInt 20)"

definition theme_of :: "jsval \<Rightarrow> jsval" where
  "theme_of v = (if v = JStr ''dark'' then v else JStr ''light'')"

definition text_or :: "string \<Rightarrow> jsval \<Rightarrow> jsval" where
  \<comment> \<open>\<open>typeof v === "string" && v ? v : d\<close>\<close>
  "text_or d v = (if is_string v \<and> truthy v then v else JStr d)"

definition flag_or :: "bool \<Rightarrow> jsval \<Rightarrow> jsval" where
  "flag_or d v = (case v of JBool b \<Rightarrow> v | _ \<Rightarrow> JBool d)"

definition read_fields :: "bool \<Rightarrow> jsval \<Rightarrow> jsval" where
  \<comment> \<open>the flag says that the text is the legacy entry's\<close>
  "read_fields legacy v =
     JObj [(''subjectType'', text_or ''user'' (prop_of v ''subjectType'')),
       (''subjectId'', if legacy \<and> prop_of v ''subjectId'' = JStr ''super-user'' then JStr ''user-1'' else text_or ''user-1'' (prop_of v ''subjectId'')),
       (''permission'', text_or ''view'' (prop_of v ''permission'')), (''pageSize'', pageSize (prop_of v ''pageSize'')),
       (''cacheEnabled'', flag_or True (prop_of v ''cacheEnabled'')), (''populateCache'', flag_or True (prop_of v ''populateCache'')),
       (''theme'', theme_of (prop_of v ''theme'')),
       (''expanded'', JArr (case prop_of v ''expanded'' of JArr vs \<Rightarrow> filter is_string vs | _ \<Rightarrow> []))]"

definition readPreferences :: "(string \<Rightarrow> jsval) \<Rightarrow> (string option \<times> string option) option \<Rightarrow> jsval" where
  \<comment> \<open>the current and the legacy entry of the storage, or no storage that can be read\<close>
  "readPreferences num store = (case store of
     None \<Rightarrow> DEFAULT_PREFERENCES
   | Some (current, legacy) \<Rightarrow>
       (case (if current = None then legacy else current) of
          None \<Rightarrow> DEFAULT_PREFERENCES
        | Some raw \<Rightarrow> if raw = [] then DEFAULT_PREFERENCES
            else (case json_parse num raw of
              None \<Rightarrow> DEFAULT_PREFERENCES
            | Some v \<Rightarrow> if nullish v then DEFAULT_PREFERENCES else read_fields (current = None) v)))"

definition writePreferences :: "bool \<Rightarrow> jsval \<Rightarrow> (string option \<times> string option) option \<Rightarrow> (string option \<times> string option) option" where
  "writePreferences writable p store = map_option (\<lambda>(current, legacy). (if writable then Some (json p) else current, legacy)) store"

definition stored_fields :: "string \<Rightarrow> string \<Rightarrow> string \<Rightarrow> int \<Rightarrow> bool \<Rightarrow> bool \<Rightarrow> string \<Rightarrow> string list \<Rightarrow> jsval" where
  "stored_fields t i m n c q th xs = JObj [(''subjectType'', JStr t), (''subjectId'', JStr i), (''permission'', JStr m), (''pageSize'', JInt n),
     (''cacheEnabled'', JBool c), (''populateCache'', JBool q), (''theme'', JStr th), (''expanded'', JArr (map JStr xs))]"

definition preferences_ok :: "jsval \<Rightarrow> bool" where
  "preferences_ok p \<longleftrightarrow> (\<exists>t i m n c q th xs. p = stored_fields t i m n c q th xs
     \<and> t \<noteq> [] \<and> i \<noteq> [] \<and> m \<noteq> [] \<and> n \<in> set PAGE_SIZE_OPTIONS \<and> (th = ''light'' \<or> th = ''dark''))"

lemma preferences_okI: "t \<noteq> [] \<Longrightarrow> i \<noteq> [] \<Longrightarrow> m \<noteq> [] \<Longrightarrow> n \<in> set PAGE_SIZE_OPTIONS \<Longrightarrow> th = ''light'' \<or> th = ''dark''
    \<Longrightarrow> preferences_ok (stored_fields t i m n c q th xs)"
  unfolding preferences_ok_def by blast

lemma preferences_okE:
  assumes "preferences_ok p"
  obtains t i m n c q th xs where "p = stored_fields t i m n c q th xs" "t \<noteq> []" "i \<noteq> []" "m \<noteq> []" "n \<in> set PAGE_SIZE_OPTIONS" "th = ''light'' \<or> th = ''dark''"
  using assms unfolding preferences_ok_def by (elim exE conjE)

lemma read_fields_ok: "preferences_ok (read_fields legacy v)"
proof -
  have "\<exists>t. text_or d v = JStr t \<and> t \<noteq> []" if "d \<noteq> []" for d v using that by (cases v) (auto simp: text_or_def)
  then obtain t i m where tim: "text_or ''user'' (prop_of v ''subjectType'') = JStr t" "t \<noteq> []" "text_or ''user-1'' (prop_of v ''subjectId'') = JStr i" "i \<noteq> []"
    "text_or ''view'' (prop_of v ''permission'') = JStr m" "m \<noteq> []" by (metis list.distinct(1))
  have "(20 :: int) \<in> set PAGE_SIZE_OPTIONS" by (simp add: PAGE_SIZE_OPTIONS_def)
  then have "pageSize w \<in> JInt ` set PAGE_SIZE_OPTIONS" for w
    unfolding pageSize_def by (cases "w \<in> JInt ` set PAGE_SIZE_OPTIONS") (simp_all only: if_True if_False, simp only: image_eqI)
  from this [of "prop_of v ''pageSize''"] obtain n where n: "pageSize (prop_of v ''pageSize'') = JInt n" "n \<in> set PAGE_SIZE_OPTIONS" by (elim imageE)
  have "\<exists>c. flag_or True w = JBool c" for w by (cases w) (auto simp: flag_or_def)
  then obtain c q where flags: "flag_or True (prop_of v ''cacheEnabled'') = JBool c" "flag_or True (prop_of v ''populateCache'') = JBool q" by metis
  have "theme_of w = JStr ''light'' \<or> theme_of w = JStr ''dark''" for w by (simp add: theme_of_def)
  then obtain th where th: "theme_of (prop_of v ''theme'') = JStr th" "th = ''light'' \<or> th = ''dark''" by blast
  have str: "is_string w \<Longrightarrow> JStr (the_str w) = w" for w by (cases w) simp_all
  have strs: "map JStr (map the_str (filter is_string vs)) = filter is_string vs" for vs by (induction vs) (simp_all add: str)
  define xs where "xs = (case prop_of v ''expanded'' of JArr vs \<Rightarrow> map the_str (filter is_string vs) | _ \<Rightarrow> [])"
  have "(case prop_of v ''expanded'' of JArr vs \<Rightarrow> filter is_string vs | _ \<Rightarrow> []) = map JStr xs"
    unfolding xs_def by (cases "prop_of v ''expanded''") (simp_all only: jsval.case list.map strs)
  note xs = this
  have "\<exists>j. j \<noteq> [] \<and> read_fields legacy v = stored_fields t j m n c q th xs"
  proof (cases "legacy \<and> prop_of v ''subjectId'' = JStr ''super-user''")
    case True
    then have "read_fields legacy v = stored_fields t ''user-1'' m n c q th xs"
      by (simp only: read_fields_def stored_fields_def if_True tim n flags th xs simp_thms)
    then show ?thesis by blast
  next
    case False
    then have "read_fields legacy v = stored_fields t i m n c q th xs"
      by (simp only: read_fields_def stored_fields_def if_False tim n flags th xs simp_thms)
    with tim(4) show ?thesis by blast
  qed
  with tim n th show ?thesis by (metis preferences_okI)
qed

lemma default_ok: "preferences_ok DEFAULT_PREFERENCES"
proof -
  have eq: "DEFAULT_PREFERENCES = stored_fields ''user'' ''user-1'' ''view'' 20 True True ''light''
      [''resource-type:account'', ''resource-type:server'', ''segment:read-basis'', ''segment:schema'']" by (simp add: DEFAULT_PREFERENCES_def stored_fields_def)
  show ?thesis unfolding eq by (rule preferences_okI, simp_all add: PAGE_SIZE_OPTIONS_def)
qed

lemma field_lookup:
  "prop_of (stored_fields t i m n c q th xs) ''subjectType'' = JStr t" "prop_of (stored_fields t i m n c q th xs) ''subjectId'' = JStr i"
  "prop_of (stored_fields t i m n c q th xs) ''permission'' = JStr m" "prop_of (stored_fields t i m n c q th xs) ''pageSize'' = JInt n"
  "prop_of (stored_fields t i m n c q th xs) ''cacheEnabled'' = JBool c" "prop_of (stored_fields t i m n c q th xs) ''populateCache'' = JBool q"
  "prop_of (stored_fields t i m n c q th xs) ''theme'' = JStr th" "prop_of (stored_fields t i m n c q th xs) ''expanded'' = JArr (map JStr xs)"
  by (simp_all add: stored_fields_def prop_of_def)

lemma ok_read_fields: "preferences_ok p \<Longrightarrow> read_fields False p = p"
proof (elim preferences_okE)
  fix t i m n c q th xs
  assume p: "p = stored_fields t i m n c q th xs" and ok: "t \<noteq> []" "i \<noteq> []" "m \<noteq> []" "n \<in> set PAGE_SIZE_OPTIONS" "th = ''light'' \<or> th = ''dark''"
  have "filter is_string (map JStr xs) = map JStr xs" by (simp add: filter_map comp_def)
  moreover have "pageSize (JInt n) = JInt n" using ok(4) by (simp only: pageSize_def image_eqI if_True)
  moreover have "theme_of (JStr th) = JStr th" using ok(5) by (auto simp: theme_of_def)
  moreover have "text_or d (JStr s) = JStr s" if "s \<noteq> []" for d s using that by (simp add: text_or_def)
  ultimately show "read_fields False p = p" using ok(1-3) unfolding p read_fields_def field_lookup by (simp add: flag_or_def stored_fields_def)
qed

lemma ok_plain: "preferences_ok p \<Longrightarrow> json_plain p \<and> \<not> nullish p \<and> json p \<noteq> []"
proof (elim preferences_okE)
  fix t i m n c q th xs
  assume p: "p = stored_fields t i m n c q th xs" and n: "n \<in> set PAGE_SIZE_OPTIONS"
  from n have "is_safe_integer n" by (auto simp: PAGE_SIZE_OPTIONS_def is_safe_integer_def MAX_SAFE_INTEGER_def)
  then show "json_plain p \<and> \<not> nullish p \<and> json p \<noteq> []" unfolding p
    by (simp add: stored_fields_def from_entries_def own_order_def is_array_index_def is_digit_def less_eq_char_def list_all_iff nullish_def)
qed

text \<open>
  Whatever the storage holds, reading gives well-formed preferences, and well-formed preferences
  that were written are read back as they are.
\<close>

theorem stored_preferences_read_back:
  "preferences_ok (readPreferences num store)
   \<and> (if preferences_ok p then readPreferences num (writePreferences True p (Some store')) = p else True)"
proof
  show "preferences_ok (readPreferences num store)"
    by (simp add: readPreferences_def default_ok read_fields_ok split: option.split)
  show "if preferences_ok p then readPreferences num (writePreferences True p (Some store')) = p else True"
    using ok_plain [of p] ok_read_fields [of p] by (cases store') (simp add: readPreferences_def writePreferences_def json_parse_json)
qed

end
