(* ===== verification/Profile_Present.thy ===== *)
theory Profile_Present
  imports Api_Client
begin

text \<open>
  The pure functions of \<open>apps/explorer-main/src/profile-api.ts\<close>: reading a panel's request, and
  presenting what the transport answers. A value of another shape than the code reads is a
  \<open>TypeError\<close>. \<open>number_of\<close> is \<open>Number\<close> of a text, \<open>collate\<close> the collation key by which
  \<open>localeCompare\<close> orders two texts, \<open>now\<close> the clock's ISO text.
\<close>

subsection \<open>Reading requests\<close>

definition field :: "jsval \<Rightarrow> string \<Rightarrow> client_error + jsval" where
  "field v k = throw_if (nullish v) Type_Thrown (Inr (prop_of v k))"

definition list_r :: "jsval \<Rightarrow> client_error + jsval list" where
  "list_r v = (case v of JArr vs \<Rightarrow> Inr vs | _ \<Rightarrow> Inl Type_Thrown)"

fun each_r :: "('a \<Rightarrow> 'e + 'b) \<Rightarrow> 'a list \<Rightarrow> 'e + 'b list" where
  "each_r f [] = Inr []"
| "each_r f (x # xs) = bind_r (f x) (\<lambda>y. bind_r (each_r f xs) (\<lambda>ys. Inr (y # ys)))"

definition filled :: "jsval \<Rightarrow> bool" where
  "filled v \<longleftrightarrow> is_string v \<and> truthy v"

definition identifier_of :: "jsval \<Rightarrow> client_error + jsval" where
  "identifier_of v = throw_if (\<not> filled v) Type_Thrown (Inr v)"

definition nestedIdentifier :: "jsval \<Rightarrow> string \<Rightarrow> string \<Rightarrow> client_error + jsval" where
  "nestedIdentifier v key child =
     throw_if (\<not> is_object (prop_of v key)) Type_Thrown (identifier_of (prop_of (prop_of v key) child))"

definition number_or :: "jsval \<Rightarrow> int \<Rightarrow> jsval" where
  "number_or v fallback = (if safe_int_between 1 MAX_SAFE_INTEGER v then v else JInt fallback)"

definition positiveInteger :: "(string \<Rightarrow> jsval) \<Rightarrow> string option \<Rightarrow> int \<Rightarrow> int" where
  "positiveInteger number_of v fallback = (case v of None \<Rightarrow> fallback
     | Some t \<Rightarrow> if isSafeInteger (number_of t) \<and> 0 \<le> the_int (number_of t) then the_int (number_of t) else fallback)"

definition parseBody :: "(string \<Rightarrow> jsval) \<Rightarrow> jsval \<Rightarrow> client_error + jsval" where
  "parseBody num v =
     (if v = JUndef \<or> v = JNull \<or> v = JStr [] then Inr (JObj [])
      else (case v of
        JStr s \<Rightarrow> (case json_parse num s of
            None \<Rightarrow> Inl (Other_Thrown ''SyntaxError'')
          | Some w \<Rightarrow> throw_if (\<not> is_object w) Type_Thrown (Inr w))
      | _ \<Rightarrow> Inl Type_Thrown))"

subsection \<open>Consistency\<close>

definition presentConsistency :: "jsval \<Rightarrow> jsval" where
  "presentConsistency v =
     (if v = JStr ''minimize'' then JStr ''minimize-latency'' else if v = JStr ''at-least'' then JStr ''at-least-as-fresh''
      else if v = JStr ''exact'' then JStr ''at-exact-snapshot'' else if v = JStr ''authoritative'' then JStr ''fully-consistent'' else JNull)"

definition consistencyMode :: "jsval \<Rightarrow> client_error + jsval" where
  "consistencyMode v = (if has_prop v ''mode'' then identifier_of (prop_of v ''mode'') else Inr (JStr ''minimize-latency''))"

definition keep_filled :: "jsval \<Rightarrow> string list \<Rightarrow> jsval" where
  \<comment> \<open>the properties of \<open>v\<close> that are texts and not empty\<close>
  "keep_filled v ks = JObj (map (\<lambda>k. (k, prop_of v k)) (filter (\<lambda>k. filled (prop_of v k)) ks))"

definition freshnessFloor :: "jsval \<Rightarrow> jsval" where
  "freshnessFloor v = keep_filled v [''atLeastAsFreshAs'', ''atLeastAsFreshBasisId'', ''atLeastAsFreshBasisCapturedAt'']"

definition exactSnapshot :: "jsval \<Rightarrow> jsval" where
  "exactSnapshot v = keep_filled v [''atExactSnapshotAt'']"

definition modes_r :: "jsval \<Rightarrow> client_error + jsval list" where
  "modes_r descriptor = bind_r (field descriptor ''capabilities'') (\<lambda>c. bind_r (field c ''consistencyModes'') list_r)"

definition requested_mode :: "jsval list \<Rightarrow> jsval \<Rightarrow> bool \<Rightarrow> jsval" where
  "requested_mode modes mode historicalDate =
     (if mode = JStr ''minimize-latency'' then JStr ''minimize'' else if mode = JStr ''at-least-as-fresh'' then JStr ''at-least''
      else if mode = JStr ''at-exact-snapshot'' then (if historicalDate \<and> includes_value modes (JStr ''historical-date'') then JStr ''historical-date'' else JStr ''exact'')
      else JStr ''authoritative'')"

definition preferredConsistency :: "jsval \<Rightarrow> jsval \<Rightarrow> bool \<Rightarrow> client_error + jsval" where
  "preferredConsistency descriptor mode historicalDate =
     bind_r (modes_r descriptor) (\<lambda>modes. Inr (let requested = requested_mode modes mode historicalDate in
       if includes_value modes requested then requested else (case modes of [] \<Rightarrow> JUndef | m # ms \<Rightarrow> m)))"

subsection \<open>Pages\<close>

definition object_of :: "jsval \<Rightarrow> client_error + jsval" where
  "object_of v = bind_r (field v ''type'') (\<lambda>t. Inr (JObj [(''type'', t), (''id'', prop_of v ''id'')]))"

definition page_items :: "jsval \<Rightarrow> client_error + jsval list" where
  "page_items page = bind_r (field page ''items'') (\<lambda>vs. bind_r (list_r vs) (each_r object_of))"

definition objectPage :: "jsval \<Rightarrow> client_error + jsval" where
  "objectPage page =
     bind_r (page_items page) (\<lambda>os. bind_r (field (prop_of page ''pageInfo'') ''hasNextPage'') (\<lambda>more_pages.
     Inr (JObj [(''items'', JArr os), (''pageInfo'', JObj [(''hasNextPage'', more_pages), (''hasPreviousPage'', JBool False),
       (''endCursor'', prop_of (prop_of page ''pageInfo'') ''endCursor'')])])))"

definition presentLocalSeed :: "jsval \<Rightarrow> client_error + jsval" where
  "presentLocalSeed progress =
     bind_r (field progress ''status'') (\<lambda>st. Inr (JObj [(''status'', st), (''serversAdded'', prop_of progress ''resourcesAdded''),
       (''serversCompleted'', prop_of progress ''resourcesCompleted''), (''serversTarget'', prop_of progress ''resourcesTarget''),
       (''totalServers'', prop_of progress ''totalServers''), (''totalResources'', prop_of progress ''totalResources''),
       (''unit'', JStr ''resources''), (''error'', prop_of progress ''error''), (''label'', JStr ''Adding browser-local resources'')]))"

definition presentCacheSnapshot :: "string \<Rightarrow> jsval \<Rightarrow> client_error + jsval" where
  "presentCacheSnapshot now v =
     throw_if (nullish v) Type_Thrown (Inr (
       if is_object (prop_of v ''provider'') \<and> is_object (prop_of v ''operations'') \<and> filled (prop_of v ''capturedAt'')
       then JObj [(''provider'', prop_of v ''provider''), (''operations'', prop_of v ''operations''), (''capturedAt'', prop_of v ''capturedAt'')]
       else JObj [(''provider'', v), (''operations'', JObj []), (''capturedAt'', JStr now)]))"

subsection \<open>Meta data\<close>

fun lines_of :: "string \<Rightarrow> string list" where
  "lines_of [] = [[]]"
| "lines_of (c # cs) = (if c = CHR 0x0A \<or> c = CHR 0x0D then [] # lines_of cs
     else (case lines_of cs of [] \<Rightarrow> [[c]] | l # ls \<Rightarrow> (c # l) # ls))"

definition last_digits :: "string \<Rightarrow> string" where
  "last_digits l = rev (takeWhile is_digit (dropWhile (\<lambda>c. \<not> is_digit c) (rev l)))"

definition numericRevision :: "(string \<Rightarrow> jsval) \<Rightarrow> string \<Rightarrow> jsval" where
  \<comment> \<open>the match of \<open>/(\d+)(?!.*\d)/u\<close>: the last digits of the first line that has some\<close>
  "numericRevision number_of s = (case find (list_ex is_digit) (lines_of s) of None \<Rightarrow> JInt 0 | Some l \<Rightarrow> number_of (last_digits l))"

definition optional_field :: "string \<Rightarrow> jsval \<Rightarrow> (string \<times> jsval) list" where
  \<comment> \<open>\<open>...(v === undefined ? {} : { k: v })\<close>\<close>
  "optional_field k v = (if v = JUndef then [] else [(k, v)])"

definition presentMeta :: "(string \<Rightarrow> jsval) \<Rightarrow> jsval \<Rightarrow> jsval \<Rightarrow> jsval \<Rightarrow> jsval \<Rightarrow> jsval \<Rightarrow> jsval" where
  "presentMeta number_of profile requestId basis elapsedMs cacheStatus =
     (let d = prop_of profile ''deployment'';
          active = nullish_or basis (JObj [(''id'', prop_of d ''deploymentId''), (''capturedAt'', prop_of d ''deployedAt''),
            (''behavior'', JStr ''fixed-environment''), (''fixedForEnvironment'', JBool True)]);
          i = prop_of active ''id'' in
      JObj ([(''revision'', i), (''requestId'', requestId)] @ optional_field ''elapsedMs'' elapsedMs @ optional_field ''cacheStatus'' cacheStatus
        @ [(''basis'', JObj [(''id'', i), (''backend'', prop_of profile ''backend''), (''sourceId'', i), (''revision'', numericRevision number_of (the_text i)),
            (''exactLocator'', if truthy (prop_of active ''fixedForEnvironment'') then i else JNull), (''kind'', prop_of active ''behavior''),
            (''capturedAt'', prop_of active ''capturedAt''), (''sourceLifecycle'', prop_of active ''behavior'')])]))"

definition envelope :: "(string \<Rightarrow> jsval) \<Rightarrow> jsval \<Rightarrow> jsval \<Rightarrow> string \<Rightarrow> jsval \<Rightarrow> jsval" where
  "envelope number_of profile data requestId basis =
     JObj [(''data'', data), (''meta'', presentMeta number_of profile (JStr requestId) basis JUndef JUndef)]"

definition wireEnvelope :: "jsval \<Rightarrow> jsval \<Rightarrow> client_error + jsval" where
  "wireEnvelope data result =
     bind_r (field (prop_of result ''meta'') ''revision'') (\<lambda>rev. let m = prop_of result ''meta'' in
     Inr (JObj [(''data'', data), (''meta'', JObj ([(''revision'', rev), (''requestId'', prop_of m ''requestId'')]
       @ optional_field ''elapsedMs'' (prop_of m ''elapsedMs'') @ optional_field ''cacheStatus'' (prop_of m ''cacheStatus'')))]))"

subsection \<open>The schema\<close>

definition lists_of :: "jsval \<Rightarrow> (jsval list \<times> jsval list) option" where
  \<comment> \<open>relations and permissions of a type, if the code can go through both\<close>
  "lists_of ty = (case (prop_of ty ''relations'', prop_of ty ''permissions'') of
     (JArr rs, JArr ps) \<Rightarrow> if list_all (\<lambda>r. \<not> nullish r \<and> (case prop_of r ''subjectTypes'' of JArr ss \<Rightarrow> True | _ \<Rightarrow> False)) rs \<and> \<not> list_ex nullish ps
       then Some (rs, ps) else None
   | _ \<Rightarrow> None)"

definition name_of :: "jsval \<Rightarrow> jsval" where "name_of v = prop_of v ''name''"
definition relations_of :: "jsval \<Rightarrow> jsval list" where "relations_of ty = items (prop_of ty ''relations'')"
definition permissions_of :: "jsval \<Rightarrow> jsval list" where "permissions_of ty = items (prop_of ty ''permissions'')"
definition subjects_of :: "jsval \<Rightarrow> jsval list" where "subjects_of relation = items (prop_of relation ''subjectTypes'')"

definition sorted_texts :: "jsval list \<Rightarrow> jsval list" where "sorted_texts = sort_key the_text"

definition links_of :: "jsval list \<Rightarrow> (jsval \<times> jsval \<times> jsval) list" where
  \<comment> \<open>the type of the resource, the type of the subject and the relation\<close>
  "links_of types = concat (map (\<lambda>ty. concat (map (\<lambda>r. map (\<lambda>st. (name_of ty, st, name_of r)) (subjects_of r)) (relations_of ty))) types)"

definition add_child :: "jsval \<times> jsval \<times> jsval \<Rightarrow> (string \<times> jsval list) list \<Rightarrow> (string \<times> jsval list) list" where
  "add_child l m = (case l of (ty, st, r) \<Rightarrow>
     AList.update (the_text st) ((case map_of m (the_text st) of None \<Rightarrow> [] | Some ps \<Rightarrow> ps) @ [JObj [(''resourceType'', ty), (''relation'', r)]]) m)"

definition child_paths :: "(string \<Rightarrow> string) \<Rightarrow> jsval list \<Rightarrow> client_error + (string \<times> jsval list) list" where
  \<comment> \<open>\<open>(childPaths[subjectType] ??= []).push(...)\<close> of an object literal: an inherited name is no array\<close>
  "child_paths collate types =
     throw_if (list_ex (\<lambda>(ty, st, r). the_text st \<in> set INHERITED) (links_of types)) Type_Thrown
       (Inr (map (\<lambda>(st, ps). (st, sort_key (\<lambda>p. collate (the_text (prop_of p ''resourceType'') @ '':'' @ the_text (prop_of p ''relation''))) ps))
         (own_order (fold add_child (links_of types) []))))"

definition source_lines :: "jsval \<Rightarrow> string list" where
  "source_lines ty =
     [''definition '' @ the_text (name_of ty) @ '' {'']
     @ map (\<lambda>r. ''  relation '' @ the_text (name_of r) @ '': '' @ join '' | '' (map the_text (subjects_of r))) (relations_of ty)
     @ (if relations_of ty \<noteq> [] \<and> permissions_of ty \<noteq> [] then [[]] else [])
     @ map (\<lambda>p. ''  permission '' @ the_text (name_of p) @ '' = '' @ the_text (prop_of p ''expression'')) (permissions_of ty)
     @ [''}'']"

definition source_of :: "jsval list \<Rightarrow> string" where
  "source_of types = join [CHR 0x0A, CHR 0x0A] (map (\<lambda>ty. join [CHR 0x0A] (source_lines ty)) types)"

definition permissions_by_type :: "jsval list \<Rightarrow> (string \<times> jsval) list" where
  "permissions_by_type types = from_entries (map (\<lambda>ty. (the_text (name_of ty), JArr (sorted_texts (map name_of (permissions_of ty))))) types)"

definition presentSchema :: "(string \<Rightarrow> string) \<Rightarrow> jsval \<Rightarrow> client_error + jsval" where
  "presentSchema collate v =
     bind_r (field v ''types'') (\<lambda>ts. bind_r (list_r ts) (\<lambda>types.
     throw_if (list_ex (\<lambda>ty. nullish ty \<or> lists_of ty = None) types) Type_Thrown
     (bind_r (child_paths collate types) (\<lambda>paths.
      let byType = permissions_by_type types; source = JStr (source_of types) in
      Inr (JObj [(''source'', source),
        (''resourceTypes'', JArr (sorted_texts (map name_of (filter (\<lambda>ty. permissions_of ty \<noteq> []) types)))),
        (''permissionsByType'', JObj byType),
        (''childPaths'', JObj (map (\<lambda>(st, ps). (st, JArr ps)) paths)),
        (''nodes'', JArr (map (\<lambda>ty. JObj [(''id'', name_of ty), (''permissions'', nullish_or (prop_of (JObj byType) (the_text (name_of ty))) (JArr []))]) types)),
        (''links'', JArr (map (\<lambda>(ty, st, r). JObj [(''source'', ty), (''target'', st), (''label'', r)]) (links_of types))),
        (''resourceCount'', JInt (int (length types))),
        (''relationCount'', JInt (int (sum_list (map (length \<circ> relations_of) types)))),
        (''permissionCount'', JInt (int (sum_list (map (length \<circ> permissions_of) types)))),
        (''presets'', JArr [JObj [(''id'', prop_of v ''sha256''), (''label'', JStr ''Published''), (''schema'', source)]])])))))"

subsection \<open>The bootstrap of the panels\<close>

definition fullyConsistentReason :: "jsval \<Rightarrow> client_error + string" where
  "fullyConsistentReason descriptor =
     bind_r (field (prop_of descriptor ''profile'') ''backend'') (\<lambda>backend. Inr (
       if backend = JStr ''datascript'' then []
       else if backend = JStr ''datahike'' then
         ''Fully consistent is disabled in this cost-controlled demo because refreshing Datahike for every query may issue ''
         @ (if prop_of (prop_of descriptor ''profile'') ''storage'' = JStr ''s3'' then ''S3 GETs'' else ''DynamoDB reads'')
         @ ''. Use Refresh Snapshot when you need a newer basis.''
       else ''This read-only deployment does not advertise an authoritative-head synchronization operation.''))"

definition supported_modes :: "jsval list \<Rightarrow> jsval list" where
  \<comment> \<open>in the order of their first occurrence\<close>
  "supported_modes modes = rev (remdups (rev (filter (\<lambda>m. m \<noteq> JNull) (map presentConsistency modes))))"

definition presentBootstrap :: "jsval \<Rightarrow> jsval \<Rightarrow> client_error + jsval" where
  "presentBootstrap descriptor schema =
     bind_r (modes_r descriptor) (\<lambda>modes.
     let supported = supported_modes modes; full = includes_value supported (JStr ''fully-consistent''); seed = prop_of descriptor ''localSeed'';
         dataset = prop_of descriptor ''dataset'' in
     bind_r (if truthy seed then bind_r (field seed ''progress'') presentLocalSeed
       else bind_r (field dataset ''serverCount'') (\<lambda>n. Inr (JObj [(''status'', JStr ''ready''), (''serversAdded'', JInt 0), (''serversCompleted'', JInt 0),
         (''serversTarget'', JInt 0), (''totalServers'', n)]))) (\<lambda>progress.
     bind_r (field dataset ''serverCount'') (\<lambda>servers.
     bind_r (if full then Inr ''The immutable deployed database value is authoritative for this read-only profile.'' else fullyConsistentReason descriptor) (\<lambda>reason.
     bind_r (field (prop_of descriptor ''profile'') ''backend'') (\<lambda>backend.
     Inr (JObj ([(''status'', JStr ''ready''), (''seed'', progress),
        (''totals'', JObj [(''servers'', servers), (''resources'', prop_of dataset ''logicalResourceCount'')])]
       @ (if truthy seed then [(''localSeed'', seed)] else [])
       @ [(''schema'', schema),
        (''quickSubjects'', JArr [JObj [(''id'', JStr ''super-user''), (''label'', JStr ''Super user'')], JObj [(''id'', JStr ''user-1''), (''label'', JStr ''User 1'')],
           JObj [(''id'', JStr ''user-2''), (''label'', JStr ''User 2'')]]),
        (''pageSizeOptions'', JArr (map JInt PAGE_SIZE_OPTIONS)), (''defaultPageSize'', JInt 20),
        (''consistency'', JObj [(''default'', (case supported of [] \<Rightarrow> JStr ''minimize-latency'' | m # ms \<Rightarrow> m)), (''supported'', JArr supported),
           (''fullyConsistent'', JBool full), (''fullyConsistentReason'', JStr reason),
           (''atExactSnapshotDateSelection'', JBool (includes_value modes (JStr ''historical-date''))),
           (''atExactSnapshotDateSelectionReason'', JStr ''Historical date selection is not advertised by this profile.'')]),
        (''capabilities'', JObj [(''schemaWrite'', JBool False), (''seedWrite'', JBool (backend = JStr ''datascript'' \<and> truthy seed)), (''cacheEvict'', JBool False)])])))))))"

end
