(* ===== verification/App_State.thy ===== *)
theory App_State
  imports Profile_Present Machine "HOL-Library.Multiset"
begin

text \<open>
  \<open>apps/explorer-main/src/state.tsx\<close>: the signals of the explorer page, their setters, the values
  derived from them, and the polling of a seeding. A signal is a field, a setter a function of the
  state; rendering and the library's effects are not modelled, except the effect that polls. Envelopes
  are those of the profile API. \<open>date_parse\<close> is \<open>Date.parse\<close> where it is finite, \<open>iso_text\<close> is
  \<open>toISOString\<close>, \<open>collate\<close> the collation key of \<open>localeCompare\<close>.
\<close>

subsection \<open>Signals\<close>

record app_state =
  bootstrap_data :: "jsval option"
  subject_type :: string
  subject_id :: string
  chosen_permission :: jsval
  selected_resource :: "jsval option"
  known_subjects :: "jsval list"
  known_resources :: "jsval list"
  consistency_mode :: jsval
  floor_relative :: bool
  seconds_ago :: int
  absolute_at :: string
  exact_at :: string
  snapshot_refreshing :: bool
  snapshot_error :: "client_error option"
  mutation_revision :: string
  basis_generation :: nat
  query_generation :: nat
  seed_progress :: "jsval option"
  expanded_keys :: "string list"

definition meta_of :: "jsval \<Rightarrow> jsval" where "meta_of ev = prop_of ev ''meta''"

definition basis_of :: "jsval \<Rightarrow> jsval" where
  \<comment> \<open>\<open>ev.meta.basis?.id ?? ev.meta.revision\<close>\<close>
  "basis_of ev = nullish_or (prop_of (prop_of (meta_of ev) ''basis'') ''id'') (prop_of (meta_of ev) ''revision'')"

definition activeQueryBasis :: "app_state \<Rightarrow> jsval" where
  "activeQueryBasis s = (case bootstrap_data s of None \<Rightarrow> JStr ''pending'' | Some e \<Rightarrow> nullish_or (basis_of e) (JStr ''pending''))"

definition captured_at :: "app_state \<Rightarrow> jsval" where
  "captured_at s = (case bootstrap_data s of None \<Rightarrow> JStr [] | Some e \<Rightarrow> nullish_or (prop_of (prop_of (meta_of e) ''basis'') ''capturedAt'') (JStr []))"

definition atLeastAsFreshAs :: "(string \<Rightarrow> int option) \<Rightarrow> (int \<Rightarrow> string) \<Rightarrow> app_state \<Rightarrow> string" where
  "atLeastAsFreshAs date_parse iso_text s =
     (if \<not> floor_relative s then absolute_at s
      else (case date_parse (the_text (captured_at s)) of None \<Rightarrow> [] | Some t \<Rightarrow> iso_text (t - max 0 (seconds_ago s) * 1000)))"

definition consistency :: "(string \<Rightarrow> int option) \<Rightarrow> (int \<Rightarrow> string) \<Rightarrow> app_state \<Rightarrow> jsval" where
  "consistency date_parse iso_text s =
     (let at = atLeastAsFreshAs date_parse iso_text s; basis = activeQueryBasis s in
      JObj ([(''mode'', consistency_mode s)]
        @ (if consistency_mode s = JStr ''at-least-as-fresh'' \<and> at \<noteq> []
           then [(''atLeastAsFreshAs'', JStr at)]
             @ (if basis = JStr ''pending'' then [] else [(''atLeastAsFreshBasisId'', basis)]
                 @ (if truthy (captured_at s) then [(''atLeastAsFreshBasisCapturedAt'', captured_at s)] else []))
           else [])
        @ (if consistency_mode s = JStr ''at-exact-snapshot'' \<and> exact_at s \<noteq> [] then [(''atExactSnapshotAt'', JStr (exact_at s))] else [])))"

subsection \<open>Setters\<close>

definition setSubjectId :: "string \<Rightarrow> app_state \<Rightarrow> app_state" where
  "setSubjectId v s = (if v \<noteq> subject_id s then s\<lparr>selected_resource := None, subject_id := v\<rparr> else s\<lparr>subject_id := v\<rparr>)"

definition setAtLeastSecondsAgo :: "int option \<Rightarrow> app_state \<Rightarrow> app_state" where
  \<comment> \<open>the floor of a finite number; nothing for another\<close>
  "setAtLeastSecondsAgo v s = (case v of None \<Rightarrow> s | Some n \<Rightarrow> s\<lparr>seconds_ago := max 0 n\<rparr>)"

definition object_key :: "jsval \<Rightarrow> string" where
  "object_key v = the_text (prop_of v ''type'') @ [CHR 0x00] @ the_text (prop_of v ''id'')"

definition remember :: "(string \<Rightarrow> string) \<Rightarrow> jsval list \<Rightarrow> jsval list \<Rightarrow> jsval list" where
  "remember collate current vs =
     sort_key (\<lambda>v. collate (the_text (prop_of v ''type'') @ '':'' @ the_text (prop_of v ''id'')))
       (map snd (fold (\<lambda>v m. AList.update (object_key v) v m) vs (fold (\<lambda>v m. AList.update (object_key v) v m) current [])))"

definition rememberSubjects :: "(string \<Rightarrow> string) \<Rightarrow> jsval list \<Rightarrow> app_state \<Rightarrow> app_state" where
  "rememberSubjects collate vs s = s\<lparr>known_subjects := remember collate (known_subjects s) vs\<rparr>"

definition selectResource :: "(string \<Rightarrow> string) \<Rightarrow> jsval option \<Rightarrow> app_state \<Rightarrow> app_state" where
  "selectResource collate v s =
     (case v of None \<Rightarrow> s\<lparr>selected_resource := None\<rparr>
      | Some r \<Rightarrow> s\<lparr>known_resources := remember collate (known_resources s) [r], selected_resource := Some r\<rparr>)"

definition toggleExpanded :: "string \<Rightarrow> app_state \<Rightarrow> app_state" where
  "toggleExpanded key s = s\<lparr>expanded_keys := (if key \<in> set (expanded_keys s) then removeAll key (expanded_keys s) else expanded_keys s @ [key])\<rparr>"

definition requery :: "app_state \<Rightarrow> app_state" where "requery s = s\<lparr>query_generation := Suc (query_generation s)\<rparr>"

subsection \<open>A new bootstrap\<close>

definition offered_permissions :: "jsval \<Rightarrow> jsval list" where
  "offered_permissions data = concat (map (items \<circ> snd) (props (prop_of (prop_of data ''schema'') ''permissionsByType'')))"

definition quick_subjects :: "jsval \<Rightarrow> jsval list" where
  "quick_subjects data = map (\<lambda>v. JObj [(''type'', JStr ''user''), (''id'', prop_of v ''id'')]) (items (prop_of data ''quickSubjects''))"

definition replaces_queries :: "jsval \<Rightarrow> bool \<Rightarrow> app_state \<Rightarrow> bool" where
  "replaces_queries ev refreshed s \<longleftrightarrow> refreshed \<or> (case bootstrap_data s of None \<Rightarrow> False | Some previous \<Rightarrow> \<not> strict_eq (basis_of previous) (basis_of ev))"

definition installBootstrap :: "(string \<Rightarrow> string) \<Rightarrow> jsval \<Rightarrow> bool \<Rightarrow> app_state \<Rightarrow> app_state" where
  "installBootstrap collate ev refreshed s =
     (let data = prop_of ev ''data''; at = prop_of (prop_of (meta_of ev) ''basis'') ''capturedAt'';
          permissions = offered_permissions data; offered = prop_of data ''consistency'' in
      rememberSubjects collate (quick_subjects data) (s\<lparr>bootstrap_data := Some ev, mutation_revision := the_text (prop_of (meta_of ev) ''revision''),
        seed_progress := Some (prop_of data ''seed''),
        absolute_at := (if (refreshed \<or> absolute_at s = []) \<and> truthy at then the_text at else absolute_at s),
        exact_at := (if (refreshed \<or> exact_at s = []) \<and> truthy at then the_text at else exact_at s),
        chosen_permission := (if includes_value permissions (chosen_permission s) then chosen_permission s
          else (case permissions of [] \<Rightarrow> JStr [] | v # vs \<Rightarrow> nullish_or v (JStr []))),
        consistency_mode := (if includes_value (items (prop_of offered ''supported'')) (consistency_mode s) then consistency_mode s else prop_of offered ''default''),
        basis_generation := (if replaces_queries ev refreshed s then Suc (basis_generation s) else basis_generation s)\<rparr>))"

definition refresh_begins :: "app_state \<Rightarrow> app_state" where
  "refresh_begins s = s\<lparr>snapshot_error := None, snapshot_refreshing := True\<rparr>"

definition refresh_settles :: "(string \<Rightarrow> string) \<Rightarrow> client_error + jsval \<Rightarrow> app_state \<Rightarrow> app_state" where
  "refresh_settles collate r s =
     (case r of Inl e \<Rightarrow> s\<lparr>snapshot_error := Some e, snapshot_refreshing := False\<rparr>
      | Inr ev \<Rightarrow> (installBootstrap collate ev True s)\<lparr>snapshot_refreshing := False\<rparr>)"

subsection \<open>What stays true\<close>

lemma fold_update_keys: "(\<And>x. x \<in> set m \<Longrightarrow> fst x = f (snd x)) \<Longrightarrow> x \<in> set (fold (\<lambda>v m. AList.update (f v) v m) vs m) \<Longrightarrow> fst x = f (snd x)"
proof (induction vs arbitrary: m)
  case (Cons v vs)
  have "fst y = f (snd y)" if "y \<in> set (AList.update (f v) v m)" for y
    using set_update_subset [of "f v" v m] that Cons.prems(1) by auto
  from Cons.IH [OF this] Cons.prems(2) show ?case by simp
qed simp

lemma map_of_fold_last:
  "map_of (fold (\<lambda>v m. AList.update (f v) v m) vs m) k = (case find (\<lambda>v. f v = k) (rev vs) of Some v \<Rightarrow> Some v | None \<Rightarrow> map_of m k)"
proof (induction vs rule: rev_induct)
  case (snoc v vs)
  then show ?case by (cases "f v = k") (simp_all add: update_conv')
qed simp

lemma remembered_keys: "x \<in> set (fold (\<lambda>v m. AList.update (f v) v m) vs (fold (\<lambda>v m. AList.update (f v) v m) cur [])) \<Longrightarrow> fst x = f (snd x)"
  by (rule fold_update_keys [OF fold_update_keys]) simp_all

lemma distinct_fold_keys: "distinct (map fst m) \<Longrightarrow> distinct (map fst (fold (\<lambda>v m. AList.update (f v) v m) vs m))"
  by (induction vs arbitrary: m) (simp_all add: distinct_update)

lemma find_unique: "distinct (map f xs) \<Longrightarrow> x \<in> set xs \<Longrightarrow> find (\<lambda>v. f v = f x) xs = Some x"
  by (induction xs) auto

lemma find_perm: "distinct (map f xs) \<Longrightarrow> mset xs = mset ys \<Longrightarrow> find (\<lambda>v. f v = k) xs = find (\<lambda>v. f v = k) ys"
proof -
  assume d: "distinct (map f xs)" and m: "mset xs = mset ys"
  have same: "set xs = set ys" by (rule mset_eq_setD [OF m])
  have "mset (map f xs) = mset (map f ys)" using m by (metis mset_map)
  with d have d': "distinct (map f ys)" by (metis mset_eq_imp_distinct_iff)
  show ?thesis
  proof (cases "\<exists>x \<in> set xs. f x = k")
    case True
    then obtain x where "x \<in> set xs" "f x = k" by blast
    with d d' same find_unique [of f xs x] find_unique [of f ys x] show ?thesis by simp
  next
    case False
    then have "find (\<lambda>v. f v = k) xs = None" "find (\<lambda>v. f v = k) ys = None" using same by (auto simp: find_None_iff)
    then show ?thesis by simp
  qed
qed

lemma find_values: "(\<And>x. x \<in> set m \<Longrightarrow> fst x = f (snd x)) \<Longrightarrow> find (\<lambda>v. f v = k) (map snd m) = map_of m k"
proof (induction m)
  case (Cons kv m)
  have "fst kv = f (snd kv)" by (rule Cons.prems) simp
  moreover have "find (\<lambda>v. f v = k) (map snd m) = map_of m k" by (rule Cons.IH) (rule Cons.prems, simp)
  ultimately show ?case by simp
qed simp

lemma find_append: "find P (xs @ ys) = (case find P xs of None \<Rightarrow> find P ys | Some x \<Rightarrow> Some x)"
  by (induction xs) auto

text \<open>
  The objects a page remembers: one for each type and identifier that was given, the one given last, in
  the order of the collation.
\<close>

theorem remembers_latest_of_each:
  "distinct (map object_key (remember collate current vs))
   \<and> sorted (map (\<lambda>v. collate (the_text (prop_of v ''type'') @ '':'' @ the_text (prop_of v ''id''))) (remember collate current vs))
   \<and> find (\<lambda>v. object_key v = k) (remember collate current vs) = find (\<lambda>v. object_key v = k) (rev vs @ rev current)"
proof -
  define m where "m = fold (\<lambda>v m. AList.update (object_key v) v m) vs (fold (\<lambda>v m. AList.update (object_key v) v m) current [])"
  have keys: "fst x = object_key (snd x)" if "x \<in> set m" for x using that unfolding m_def by (rule remembered_keys)
  then have "map object_key (map snd m) = map fst m" by simp
  moreover have "distinct (map fst m)" unfolding m_def by (intro distinct_fold_keys) simp
  ultimately have d: "distinct (map object_key (map snd m))" by (simp only:)
  have r: "remember collate current vs = sort_key (\<lambda>v. collate (the_text (prop_of v ''type'') @ '':'' @ the_text (prop_of v ''id''))) (map snd m)"
    by (simp add: remember_def m_def)
  have p: "mset (remember collate current vs) = mset (map snd m)" by (simp add: r)
  then have "mset (map object_key (remember collate current vs)) = mset (map object_key (map snd m))" by (metis mset_map)
  with d have "distinct (map object_key (remember collate current vs))" by (metis mset_eq_imp_distinct_iff)
  moreover from this have "find (\<lambda>v. object_key v = k) (remember collate current vs) = map_of m k"
    using find_perm [OF _ p] find_values [of m object_key, OF keys] by metis
  moreover have "map_of m k = find (\<lambda>v. object_key v = k) (rev vs @ rev current)"
    by (simp add: m_def map_of_fold_last find_append split: option.split)
  moreover have "sorted (map (\<lambda>v. collate (the_text (prop_of v ''type'') @ '':'' @ the_text (prop_of v ''id''))) (remember collate current vs))"
    by (simp add: r)
  ultimately show ?thesis by simp
qed

lemma modes_are_texts: "m \<in> set (supported_modes modes) \<Longrightarrow> is_string m"
  by (auto simp: supported_modes_def) (simp add: presentConsistency_def split: if_splits)

lemma includes_text: "is_string v \<Longrightarrow> includes_value vs v \<longleftrightarrow> v \<in> set vs"
  by (cases v) (auto simp: includes_value_def list_ex_iff)

lemma bootstrap_modes:
  "presentBootstrap d sch = Inr data \<Longrightarrow> \<exists>modes. modes_r d = Inr modes \<and> items (prop_of (prop_of data ''consistency'') ''supported'') = supported_modes modes
     \<and> prop_of (prop_of data ''consistency'') ''default'' = (case supported_modes modes of [] \<Rightarrow> JStr ''minimize-latency'' | m # ms \<Rightarrow> m)"
  by (cases "truthy (prop_of d ''localSeed'')") (clarsimp simp: presentBootstrap_def Let_def prop_of_def [of "JObj _"])+

text \<open>
  After a new bootstrap is installed the page's permission is one the schema offers, or none if it
  offers none, and its consistency mode is one that the bootstrap the profile API presented offers.
\<close>

theorem installed_choices_are_offered:
  "(let s' = installBootstrap collate ev refreshed s; data = prop_of ev ''data''; permissions = offered_permissions data in
     (if permissions = [] then chosen_permission s' = JStr []
      else if list_all is_string permissions then includes_value permissions (chosen_permission s') else True)
     \<and> (case presentBootstrap d sch of
          Inl e \<Rightarrow> True
        | Inr presented \<Rightarrow> let supported = items (prop_of (prop_of presented ''consistency'') ''supported'') in
            if data = presented \<and> supported \<noteq> [] then includes_value supported (consistency_mode s') else True)
     \<and> bootstrap_data s' = Some ev \<and> subject_id s' = subject_id s)"
proof -
  let ?s = "installBootstrap collate ev refreshed s" and ?ps = "offered_permissions (prop_of ev ''data'')"
  have fields: "chosen_permission ?s = (if includes_value ?ps (chosen_permission s) then chosen_permission s else (case ?ps of [] \<Rightarrow> JStr [] | v # vs \<Rightarrow> nullish_or v (JStr [])))"
    "consistency_mode ?s = (let offered = prop_of (prop_of ev ''data'') ''consistency'' in
       if includes_value (items (prop_of offered ''supported'')) (consistency_mode s) then consistency_mode s else prop_of offered ''default'')"
    "bootstrap_data ?s = Some ev" "subject_id ?s = subject_id s"
    by (simp_all add: installBootstrap_def Let_def rememberSubjects_def)
  have "includes_value ?ps (chosen_permission ?s)" if "?ps \<noteq> []" "list_all is_string ?ps"
  proof -
    from that obtain v vs where ps: "?ps = v # vs" "is_string v" by (cases ?ps) auto
    then have "nullish_or v (JStr []) = v" by (cases v) (simp_all add: nullish_or_def)
    then show ?thesis using ps by (simp add: fields(1)) (simp add: includes_text)
  qed
  moreover have "chosen_permission ?s = JStr []" if "?ps = []" using that by (simp add: fields(1) includes_value_def)
  moreover have "includes_value (items (prop_of (prop_of presented ''consistency'') ''supported'')) (consistency_mode ?s)"
    if p: "presentBootstrap d sch = Inr presented" and same: "prop_of ev ''data'' = presented" and some: "items (prop_of (prop_of presented ''consistency'') ''supported'') \<noteq> []" for presented
  proof -
    from bootstrap_modes [OF p] obtain modes where modes: "items (prop_of (prop_of presented ''consistency'') ''supported'') = supported_modes modes"
      "prop_of (prop_of presented ''consistency'') ''default'' = (case supported_modes modes of [] \<Rightarrow> JStr ''minimize-latency'' | m # ms \<Rightarrow> m)" by blast
    with some obtain m ms where m: "supported_modes modes = m # ms" by (cases "supported_modes modes") simp_all
    then have "is_string m" using modes_are_texts [of m modes] by simp
    then show ?thesis by (simp add: fields(2) same Let_def modes m includes_text)
  qed
  ultimately show ?thesis by (simp add: fields(3,4) Let_def split: sum.split)
qed

subsection \<open>Polling a seeding\<close>

text \<open>
  The effect runs again whenever \<open>seeding\<close> changes: what it did before is cleaned up, and while a
  seeding is under way it starts a poller. A poller waits for its timer, for the answer to its request
  or for the refresh after the end.
\<close>

datatype poll_point = On_Timer | On_Request | On_Refresh | Poll_Over

record poller =
  poll_active :: bool
  poll_point :: poll_point

record polling =
  seeding :: bool
  pollers :: "poller list"
  progress_log :: "(nat \<times> bool) list"

definition start_polling :: polling where "start_polling = \<lparr>seeding = False, pollers = [], progress_log = []\<rparr>"

definition clean_up :: "poller \<Rightarrow> poller" where
  "clean_up c = c\<lparr>poll_active := False, poll_point := (if poll_point c = On_Timer then Poll_Over else poll_point c)\<rparr>"

definition set_seeding :: "bool \<Rightarrow> polling \<Rightarrow> polling" where
  \<comment> \<open>\<open>setSeedProgress\<close>, and the effect if the derived flag changes\<close>
  "set_seeding b s =
     (if b = seeding s then s
      else if b then s\<lparr>seeding := True, pollers := pollers s @ [\<lparr>poll_active = True, poll_point = On_Timer\<rparr>]\<rparr>
      else s\<lparr>seeding := False, pollers := butlast (pollers s) @ map clean_up (drop (length (pollers s) - 1) (pollers s))\<rparr>)"

definition poller_at :: "nat \<Rightarrow> poll_point \<Rightarrow> polling \<Rightarrow> polling" where
  "poller_at i x s = s\<lparr>pollers := (pollers s)[i := (pollers s ! i)\<lparr>poll_point := x\<rparr>]\<rparr>"

definition poll_answers :: "nat \<Rightarrow> bool option \<Rightarrow> polling \<Rightarrow> polling" where
  \<comment> \<open>the answer says whether the seeding goes on; a rejection shows the error status\<close>
  "poll_answers i r s =
     (if \<not> poll_active (pollers s ! i) then poller_at i Poll_Over s
      else (let t = s\<lparr>progress_log := progress_log s @ [(i, r = Some True)]\<rparr> in
        case r of
          Some True \<Rightarrow> poller_at i On_Timer (set_seeding True t)
        | Some False \<Rightarrow> poller_at i On_Refresh (set_seeding False t)
        | None \<Rightarrow> poller_at i Poll_Over (set_seeding False t)))"

datatype poll_event = Progress_Set bool | Poll_Timer nat | Poll_Answers nat "bool option" | Refresh_Ends nat

definition poller_is :: "polling \<Rightarrow> nat \<Rightarrow> poll_point \<Rightarrow> bool" where
  "poller_is s i x \<longleftrightarrow> i < length (pollers s) \<and> poll_point (pollers s ! i) = x"

fun poll_step :: "poll_event \<Rightarrow> polling \<Rightarrow> polling option" where
  "poll_step (Progress_Set b) s = Some (set_seeding b s)"
| "poll_step (Poll_Timer i) s = (if poller_is s i On_Timer then Some (poller_at i On_Request s) else None)"
| "poll_step (Poll_Answers i r) s = (if poller_is s i On_Request then Some (poll_answers i r s) else None)"
| "poll_step (Refresh_Ends i) s = (if poller_is s i On_Refresh then Some (poller_at i Poll_Over s) else None)"

definition retired :: "poller \<Rightarrow> bool" where "retired c \<longleftrightarrow> \<not> poll_active c \<and> poll_point c \<noteq> On_Timer"

definition poll_ok :: "polling \<Rightarrow> bool" where
  "poll_ok s \<longleftrightarrow> (if seeding s then \<exists>ps c. pollers s = ps @ [c] \<and> poll_active c \<and> (poll_point c = On_Timer \<or> poll_point c = On_Request) \<and> list_all retired ps
     else list_all retired (pollers s))"

lemma retired_update: "list_all retired ps \<Longrightarrow> i < length ps \<Longrightarrow> x \<noteq> On_Timer \<Longrightarrow> list_all retired (ps[i := (ps ! i)\<lparr>poll_point := x\<rparr>])"
  by (auto simp: list_all_length nth_list_update retired_def)

lemma set_seeding_ok: "poll_ok s \<Longrightarrow> poll_ok (set_seeding b s)"
  by (auto simp: poll_ok_def set_seeding_def clean_up_def retired_def)

lemma poller_at_ok:
  assumes ok: "poll_ok s" and i: "i < length (pollers s)" and x: "x \<noteq> On_Timer" "poll_active (pollers s ! i) \<Longrightarrow> x = On_Request"
  shows "poll_ok (poller_at i x s)"
proof (cases "seeding s")
  case True
  with ok obtain ps c where s: "pollers s = ps @ [c]" "poll_active c" "poll_point c = On_Timer \<or> poll_point c = On_Request" "list_all retired ps"
    by (auto simp: poll_ok_def)
  show ?thesis
  proof (cases "i < length ps")
    case i: True
    then have "(ps @ [c])[i := ((ps @ [c]) ! i)\<lparr>poll_point := x\<rparr>] = ps[i := (ps ! i)\<lparr>poll_point := x\<rparr>] @ [c]" by (simp add: list_update_append nth_append)
    with retired_update [OF s(4) i x(1)] s True show ?thesis by (simp add: poll_ok_def poller_at_def)
  next
    case False
    with i s(1) have "i = length ps" by simp
    with s x True show ?thesis by (simp add: poll_ok_def poller_at_def)
  qed
next
  case False
  with ok i x(1) retired_update [of "pollers s" i x] show ?thesis by (simp add: poll_ok_def poller_at_def)
qed

lemma active_is_last:
  assumes "poll_ok s" "i < length (pollers s)" "poll_active (pollers s ! i)"
  shows "seeding s \<and> Suc i = length (pollers s)"
proof (cases "seeding s")
  case True
  with assms(1) obtain ps c where s: "pollers s = ps @ [c]" "list_all retired ps" by (auto simp: poll_ok_def)
  then have "\<not> i < length ps" using assms(3) by (auto simp: list_all_length retired_def nth_append)
  with s(1) assms(2) True show ?thesis by simp
next
  case False
  with assms show ?thesis by (auto simp: poll_ok_def list_all_length retired_def)
qed

lemma poll_answers_ok:
  assumes ok: "poll_ok s" and i: "i < length (pollers s)" "poll_point (pollers s ! i) = On_Request"
  shows "poll_ok (poll_answers i r s)"
proof (cases "poll_active (pollers s ! i)")
  case False
  then show ?thesis using poller_at_ok [OF ok i(1), of Poll_Over] by (simp add: poll_answers_def)
next
  case True
  from active_is_last [OF ok i(1) True] have last: "seeding s" "Suc i = length (pollers s)" by simp_all
  with ok obtain ps c where s: "pollers s = ps @ [c]" "poll_active c" "list_all retired ps" "i = length ps" by (auto simp: poll_ok_def)
  then show ?thesis using last(1) True
    by (auto simp: poll_answers_def Let_def set_seeding_def poller_at_def poll_ok_def clean_up_def retired_def split: option.split bool.split)
qed

lemma refresher_is_idle:
  assumes "poll_ok s" "i < length (pollers s)" "poll_point (pollers s ! i) = On_Refresh" shows "\<not> poll_active (pollers s ! i)"
proof
  assume "poll_active (pollers s ! i)"
  from active_is_last [OF assms(1,2) this] have last: "seeding s" "Suc i = length (pollers s)" by simp_all
  with assms(1) obtain ps c where s: "pollers s = ps @ [c]" "poll_point c = On_Timer \<or> poll_point c = On_Request" by (auto simp: poll_ok_def)
  with last(2) assms(3) show False by auto
qed

lemma poll_step_ok: "poll_ok s \<Longrightarrow> poll_step e s = Some t \<Longrightarrow> poll_ok t"
proof (cases e)
  case (Refresh_Ends i)
  assume ok: "poll_ok s" and t: "poll_step e s = Some t"
  with Refresh_Ends have i: "i < length (pollers s)" "poll_point (pollers s ! i) = On_Refresh" "t = poller_at i Poll_Over s" by (auto simp: poller_is_def split: if_splits)
  with refresher_is_idle [OF ok i(1,2)] poller_at_ok [OF ok i(1), of Poll_Over] show ?thesis by simp
next
  case (Poll_Timer i)
  assume ok: "poll_ok s" and t: "poll_step e s = Some t"
  with Poll_Timer have "i < length (pollers s)" "t = poller_at i On_Request s" by (auto simp: poller_is_def split: if_splits)
  then show ?thesis by (simp add: poller_at_ok [OF ok])
qed (auto simp: set_seeding_ok poll_answers_ok poller_is_def split: if_splits)

interpretation seed_polling: machine_invariant poll_step start_polling poll_ok
  by unfold_locales (simp add: poll_ok_def start_polling_def, rule poll_step_ok)

text \<open>
  However progress, timers and answers interleave, a page polls with at most one timer and one live
  request at a time, and only while a seeding is under way.
\<close>

theorem one_poll_at_a_time:
  "case run_events poll_step es start_polling of
     None \<Rightarrow> True
   | Some s \<Rightarrow> length (filter (\<lambda>c. poll_active c \<or> poll_point c = On_Timer) (pollers s)) = (if seeding s then 1 else 0)"
proof (cases "run_events poll_step es start_polling")
  case (Some s)
  from seed_polling.holds_run [OF this] have ok: "poll_ok s" .
  have none: "list_all retired ps \<Longrightarrow> filter (\<lambda>c. poll_active c \<or> poll_point c = On_Timer) ps = []" for ps
    by (auto simp: filter_empty_conv list_all_iff retired_def)
  from ok none show ?thesis by (auto simp: Some poll_ok_def split: if_splits)
qed simp

end
