(* ===== verification/Coroutines.thy ===== *)
theory Coroutines
  imports Machine
begin

text \<open>
  Asynchronous functions over shared variables as resumptions. A coroutine has returned, or waits for
  the outcome of a call \<open>'w\<close> it made; what it does on an outcome may read and change the shared
  state \<open>'s\<close>. A pool runs many of them: an event starts one or delivers one outcome, so every
  interleaving of the awaits is a schedule.
\<close>

datatype ('w, 'o, 's, 'a) coroutine =
    Return 'a
  | Wait 'w "'o \<Rightarrow> 's \<Rightarrow> ('w, 'o, 's, 'a) coroutine \<times> 's"

type_synonym ('w, 'o, 's, 'a) async = "'s \<Rightarrow> ('w, 'o, 's, 'a) coroutine \<times> 's"

primrec resume_with :: "('w, 'o, 's, 'e + 'a) coroutine \<Rightarrow> ('a \<Rightarrow> ('w, 'o, 's, 'e + 'b) async) \<Rightarrow> ('w, 'o, 's, 'e + 'b) async" where
  "resume_with (Return r) = (\<lambda>f s. case r of Inl e \<Rightarrow> (Return (Inl e), s) | Inr x \<Rightarrow> f x s)"
| "resume_with (Wait w k) = (\<lambda>f s. (Wait w (\<lambda>r t. case map_prod resume_with id (k r t) of (g, u) \<Rightarrow> g f u), s))"

lemma resume_with_Wait [simp]: "resume_with (Wait w k) f s = (Wait w (\<lambda>r t. resume_with (fst (k r t)) f (snd (k r t))), s)"
  by (simp add: case_prod_beta)

declare resume_with.simps(2) [simp del]

definition awaiting :: "('w, 'o, 's, 'e + 'a) async \<Rightarrow> ('a \<Rightarrow> ('w, 'o, 's, 'e + 'b) async) \<Rightarrow> ('w, 'o, 's, 'e + 'b) async" where
  \<comment> \<open>\<open>const x = await m; f(x)\<close>; an error leaves the function\<close>
  "awaiting m f s = (case m s of (c, t) \<Rightarrow> resume_with c f t)"

definition returns :: "'e + 'a \<Rightarrow> ('w, 'o, 's, 'e + 'a) async" where "returns r s = (Return r, s)"
definition reads :: "('s \<Rightarrow> ('w, 'o, 's, 'a) async) \<Rightarrow> ('w, 'o, 's, 'a) async" where "reads f s = f s s"
definition writes :: "('s \<Rightarrow> 's) \<Rightarrow> ('w, 'o, 's, 'a) async \<Rightarrow> ('w, 'o, 's, 'a) async" where "writes g m s = m (g s)"
definition asks :: "'w \<Rightarrow> ('w, 'o, 's, 'o) async" where "asks w s = (Wait w (\<lambda>r t. (Return r, t)), s)"

subsection \<open>One at a time\<close>

fun alone :: "('w, 'o, 's, 'a) coroutine \<times> 's \<Rightarrow> 'o list \<Rightarrow> ('w list \<times> 'a option) \<times> 's" where
  \<comment> \<open>a run to its end on the given outcomes: the calls it made, and its value\<close>
  "alone (Return x, s) outcomes = (([], Some x), s)"
| "alone (Wait w k, s) [] = (([w], None), s)"
| "alone (Wait w k, s) (r # rs) = (case alone (k r s) rs of ((ws, x), t) \<Rightarrow> ((w # ws, x), t))"

subsection \<open>All together\<close>

record ('w, 'o, 's, 'a) pool =
  shared :: 's
  running :: "('w, 'o, 's, 'a) coroutine list"
  called :: "'w list"

definition noted :: "('w, 'o, 's, 'a) coroutine \<Rightarrow> 'w list" where
  "noted c = (case c of Return x \<Rightarrow> [] | Wait w k \<Rightarrow> [w])"

definition empty_pool :: "'s \<Rightarrow> ('w, 'o, 's, 'a) pool" where
  "empty_pool s = \<lparr>shared = s, running = [], called = []\<rparr>"

datatype ('i, 'o) pool_event = Start 'i | Deliver nat 'o

fun pool_step :: "('i \<Rightarrow> ('w, 'o, 's, 'a) async) \<Rightarrow> ('i, 'o) pool_event \<Rightarrow> ('w, 'o, 's, 'a) pool \<Rightarrow> ('w, 'o, 's, 'a) pool option" where
  "pool_step f (Start i) p = (case f i (shared p) of (c, s) \<Rightarrow>
     Some \<lparr>shared = s, running = running p @ [c], called = called p @ noted c\<rparr>)"
| "pool_step f (Deliver n r) p =
     (if n < length (running p) then (case running p ! n of
        Return x \<Rightarrow> None
      | Wait w k \<Rightarrow> (case k r (shared p) of (c, s) \<Rightarrow>
          Some \<lparr>shared = s, running = (running p)[n := c], called = called p @ noted c\<rparr>))
      else None)"

subsection \<open>What every coroutine keeps\<close>

inductive keeps :: "('s \<Rightarrow> bool) \<Rightarrow> ('w \<Rightarrow> bool) \<Rightarrow> ('w, 'o, 's, 'a) coroutine \<Rightarrow> bool" for I W where
  keeps_Return [intro, simp]: "keeps I W (Return x)"
| keeps_Wait: "W w \<Longrightarrow> (\<And>r s. I s \<Longrightarrow> I (snd (k r s)) \<and> keeps I W (fst (k r s))) \<Longrightarrow> keeps I W (Wait w k)"

inductive_simps keeps_Wait_iff: "keeps I W (Wait w k)"

definition sound :: "('s \<Rightarrow> bool) \<Rightarrow> ('w \<Rightarrow> bool) \<Rightarrow> ('w, 'o, 's, 'a) async \<Rightarrow> bool" where
  "sound I W m \<longleftrightarrow> (\<forall>s. I s \<longrightarrow> I (snd (m s)) \<and> keeps I W (fst (m s)))"

lemma sound_resume:
  assumes f: "\<And>x. sound I W (f x)"
  shows "keeps I W c \<Longrightarrow> I s \<Longrightarrow> I (snd (resume_with c f s)) \<and> keeps I W (fst (resume_with c f s))"
proof (induction arbitrary: s rule: keeps.induct)
  case (keeps_Return x)
  with f show ?case by (auto simp: sound_def split: sum.split)
next
  case (keeps_Wait w k)
  have "I (snd (resume_with (fst (k r t)) f (snd (k r t)))) \<and> keeps I W (fst (resume_with (fst (k r t)) f (snd (k r t))))" if "I t" for r t
    using keeps_Wait.IH [OF that, of r] by blast
  with keeps_Wait.hyps(1) keeps_Wait.prems show ?case by (auto intro: keeps.keeps_Wait)
qed

lemma sound_awaiting: "sound I W m \<Longrightarrow> (\<And>x. sound I W (f x)) \<Longrightarrow> sound I W (awaiting m f)"
  using sound_resume [of I W f] unfolding sound_def awaiting_def by (auto simp: case_prod_beta)

lemma sound_returns [intro]: "sound I W (returns r)"
  by (simp add: sound_def returns_def)

lemma sound_awaiting_returns: "(\<And>x. r = Inr x \<Longrightarrow> sound I W (f x)) \<Longrightarrow> sound I W (awaiting (returns r) f)"
  by (cases r) (auto simp: sound_def awaiting_def returns_def)

lemma sound_if: "(b \<Longrightarrow> sound I W m) \<Longrightarrow> (\<not> b \<Longrightarrow> sound I W n) \<Longrightarrow> sound I W (if b then m else n)"
  by simp

lemma sound_option: "(v = None \<Longrightarrow> sound I W m) \<Longrightarrow> (\<And>x. v = Some x \<Longrightarrow> sound I W (f x)) \<Longrightarrow> sound I W (case v of None \<Rightarrow> m | Some x \<Rightarrow> f x)"
  by (simp split: option.split)

lemma sound_reads: "(\<And>s. I s \<Longrightarrow> sound I W (f s)) \<Longrightarrow> sound I W (reads f)"
  by (auto simp: sound_def reads_def)

lemma sound_writes: "(\<And>s. I s \<Longrightarrow> I (g s)) \<Longrightarrow> sound I W m \<Longrightarrow> sound I W (writes g m)"
  by (auto simp: sound_def writes_def)

lemma sound_asks: "W w \<Longrightarrow> sound I W (asks w)"
  by (auto simp: sound_def asks_def intro: keeps_Wait)

definition pool_ok :: "('s \<Rightarrow> bool) \<Rightarrow> ('w \<Rightarrow> bool) \<Rightarrow> ('w, 'o, 's, 'a) pool \<Rightarrow> bool" where
  "pool_ok I W p \<longleftrightarrow> I (shared p) \<and> (\<forall>c \<in> set (running p). keeps I W c) \<and> list_all W (called p)"

lemma keeps_noted: "keeps I W c \<Longrightarrow> list_all W (noted c)"
  by (auto simp: noted_def elim: keeps.cases split: coroutine.split)

text \<open>Functions each of which is sound alone are sound under every interleaving.\<close>

locale sound_functions =
  fixes f :: "'i \<Rightarrow> ('w, 'o, 's, 'a) async" and I :: "'s \<Rightarrow> bool" and W :: "'w \<Rightarrow> bool" and start :: 's
  assumes start_ok: "I start" and each_sound: "sound I W (f i)"
begin

lemma pool_step_ok:
  assumes ok: "pool_ok I W p" and step: "pool_step f e p = Some q"
  shows "pool_ok I W q"
proof (cases e)
  case (Start i)
  with each_sound [of i] ok step show ?thesis
    by (auto simp: pool_ok_def sound_def case_prod_beta keeps_noted)
next
  case (Deliver n r)
  with step obtain w k where n: "n < length (running p)" "running p ! n = Wait w k"
    and q: "q = \<lparr>shared = snd (k r (shared p)), running = (running p)[n := fst (k r (shared p))], called = called p @ noted (fst (k r (shared p)))\<rparr>"
    by (auto simp: case_prod_beta split: if_splits coroutine.splits)
  from n ok have "keeps I W (Wait w k)" unfolding pool_ok_def by (metis nth_mem)
  with ok have "I (snd (k r (shared p))) \<and> keeps I W (fst (k r (shared p)))" by (simp add: keeps_Wait_iff pool_ok_def)
  with ok q show ?thesis by (auto simp: pool_ok_def keeps_noted dest: subsetD [OF set_update_subset_insert])
qed

end

sublocale sound_functions \<subseteq> pooled: machine_invariant "pool_step f" "empty_pool start" "pool_ok I W"
proof
  show "pool_ok I W (empty_pool start)" using start_ok by (simp add: pool_ok_def empty_pool_def)
  show "pool_ok I W q" if "pool_ok I W p" "pool_step f e p = Some q" for p e q using that by (rule pool_step_ok)
qed

end
