(* ===== verification/Profile_Api.thy ===== *)
theory Profile_Api
  imports Profile_Present Coroutines
begin

text \<open>
  \<open>createProfileApi\<close> of \<open>apps/explorer-main/src/profile-api.ts\<close>: the dispatcher by which the panels
  reach the transport of their profile, as coroutines over its variables. The transport is the
  environment: what each of its promises settles with. A \<open>Turn\<close> is an await of a value that is there.
  The maps of cursors are objects that a request keeps while they may be dropped from the table, so
  the table holds addresses. \<open>parse_url\<close> gives the path and the query of a URL.
\<close>

subsection \<open>The variables\<close>

datatype wire_call = Bootstrap_Call | Request_Call string jsval | Turn

record api_state =
  descriptor :: "jsval option"
  schema :: "jsval option"
  subject_cursors :: "string \<rightharpoonup> nat"
  cursor_maps :: "(int \<rightharpoonup> jsval) list"

type_synonym 'a api_async = "(wire_call, client_error + jsval, api_state, client_error + 'a) async"

record api_env =
  profile_value :: jsval
  number_of_text :: "string \<Rightarrow> jsval"
  json_number :: "string \<Rightarrow> jsval"
  collate_text :: "string \<Rightarrow> string"
  clock_text :: string
  parse_url :: "string \<Rightarrow> (string \<times> (string \<times> string) list) option"

definition start_api :: api_state where
  "start_api = \<lparr>descriptor = None, schema = None, subject_cursors = Map.empty, cursor_maps = []\<rparr>"

definition refused :: "int \<Rightarrow> string \<Rightarrow> string \<Rightarrow> client_error" where
  "refused status c m = ApiError (JInt status) (own_failure c m)"

definition settles :: "client_error + 'a \<Rightarrow> 'a api_async" where
  \<comment> \<open>what an asynchronous function returns or throws reaches the caller that awaits it in a later turn\<close>
  "settles r s = (Wait Turn (\<lambda>_ t. (Return r, t)), s)"

definition wire :: "string \<Rightarrow> jsval \<Rightarrow> jsval api_async" where
  "wire operation input =
     awaiting (asks (Request_Call operation input)) (\<lambda>result. settles (
       bind_r (field result ''error'') (\<lambda>e.
       throw_if (truthy e \<or> prop_of result ''data'' = JUndef)
         (ApiError (JInt 400) (JObj [(''error'', JObj [(''code'', nullish_or (prop_of e ''code'') (JStr ''unexpected-api-response'')),
           (''message'', nullish_or (prop_of e ''message'') (JStr ''The profile request failed.''))])]))
         (Inr result))))"

definition new_descriptor :: "jsval \<Rightarrow> api_state \<Rightarrow> api_state" where
  "new_descriptor d s = s\<lparr>descriptor := Some d, schema := None, subject_cursors := Map.empty\<rparr>"

definition cached :: "jsval option \<Rightarrow> bool" where
  "cached v \<longleftrightarrow> (case v of None \<Rightarrow> False | Some d \<Rightarrow> truthy d)"

definition loadDescriptor :: "bool \<Rightarrow> jsval api_async" where
  \<comment> \<open>what it returns is the variable as it is then\<close>
  "loadDescriptor refresh = reads (\<lambda>s.
     if \<not> cached (descriptor s) \<or> refresh
     then awaiting (asks Bootstrap_Call) (\<lambda>d. writes (new_descriptor d) (settles (Inr d)))
     else settles (Inr (the (descriptor s))))"

definition loadSchema :: "api_env \<Rightarrow> jsval api_async" where
  "loadSchema env = reads (\<lambda>s. if cached (schema s) then settles (Inr (the (schema s))) else
     awaiting (loadDescriptor False) (\<lambda>active.
     awaiting (returns (preferredConsistency active (JStr ''minimize-latency'') False)) (\<lambda>mode.
     awaiting (wire ''get-schema'' (JObj [(''consistency'', mode)])) (\<lambda>result.
     awaiting (returns (presentSchema (collate_text env) (prop_of result ''data''))) (\<lambda>sch.
     writes (\<lambda>s. s\<lparr>schema := Some sch\<rparr>) (settles (Inr sch)))))))"

definition enveloped :: "api_env \<Rightarrow> jsval \<Rightarrow> string \<Rightarrow> jsval \<Rightarrow> jsval api_async" where
  "enveloped env data requestId active = returns (Inr (envelope (number_of_text env) (profile_value env) data requestId (prop_of active ''basis'')))"

subsection \<open>Health, bootstrap and seeding\<close>

definition health_route :: "api_env \<Rightarrow> jsval api_async" where
  "health_route env =
     awaiting (loadDescriptor False) (\<lambda>active.
     awaiting (returns (field active ''identity'')) (\<lambda>identity.
     enveloped env (JObj ([(''status'', JStr ''ready''), (''ready'', JBool True), (''identity'', identity)]
       @ (if truthy (prop_of active ''identityWarning'') then [(''identityWarning'', prop_of active ''identityWarning'')] else [])
       @ [(''basis'', prop_of active ''basis'')])) ''bootstrap-health'' active))"

definition bootstrap_route :: "api_env \<Rightarrow> bool \<Rightarrow> jsval api_async" where
  "bootstrap_route env refresh =
     awaiting (loadDescriptor refresh) (\<lambda>active.
     awaiting (loadSchema env) (\<lambda>activeSchema.
     awaiting (returns (presentBootstrap active activeSchema)) (\<lambda>b. enveloped env b ''bootstrap'' active)))"

definition seed_operation :: "jsval \<Rightarrow> jsval \<Rightarrow> string" where
  "seed_operation options body =
     (if prop_of options ''method'' = JStr ''POST'' then (if prop_of body ''retry'' = JBool True then ''seed-retry'' else ''seed-start'') else ''seed-status'')"

definition seed_route :: "api_env \<Rightarrow> jsval \<Rightarrow> jsval \<Rightarrow> jsval \<Rightarrow> jsval api_async" where
  "seed_route env options body active =
     awaiting (returns (if prop_of (profile_value env) ''backend'' = JStr ''datascript'' then field active ''localSeed'' else Inr JUndef)) (\<lambda>seed.
      if \<not> truthy seed then returns (Inl (refused 403 ''unsupported-operation'' ''This profile is read-only.''))
      else let operation = seed_operation options body in
        awaiting (wire operation (if operation = ''seed-start'' then JObj [(''resourceCount'', prop_of body ''resourceCount'')] else JObj [])) (\<lambda>result.
        awaiting (returns (field (prop_of result ''data'') ''status'')) (\<lambda>st.
        writes (\<lambda>s. if st \<noteq> JStr ''seeding'' then s\<lparr>descriptor := None, subject_cursors := Map.empty\<rparr> else s)
          (awaiting (returns (presentLocalSeed (prop_of result ''data''))) (\<lambda>progress. returns (wireEnvelope progress result))))))"

subsection \<open>Consistency of a request\<close>

definition consistency_input :: "jsval \<Rightarrow> jsval \<Rightarrow> client_error + jsval" where
  "consistency_input active body =
     bind_r (consistencyMode (prop_of body ''consistency'')) (\<lambda>selected.
     bind_r (modes_r active) (\<lambda>modes.
     let exact = if selected = JStr ''at-exact-snapshot'' \<and> includes_value modes (JStr ''historical-date'') then exactSnapshot (prop_of body ''consistency'') else JObj [] in
     bind_r (preferredConsistency active selected (has_prop exact ''atExactSnapshotAt'')) (\<lambda>mode.
     Inr (spread ([JObj [(''consistency'', mode)]]
       @ (if selected = JStr ''at-least-as-fresh'' then [freshnessFloor (prop_of body ''consistency'')] else []) @ [exact])))))"

subsection \<open>Pages of subjects\<close>

definition cursors_for :: "string \<Rightarrow> api_state \<Rightarrow> nat \<times> api_state" where
  \<comment> \<open>the map of a page size, a new one with the first page's null cursor if there is none\<close>
  "cursors_for limit s = (case subject_cursors s limit of
     Some a \<Rightarrow> (a, s)
   | None \<Rightarrow> (length (cursor_maps s), s\<lparr>cursor_maps := cursor_maps s @ [[0 \<mapsto> JNull]], subject_cursors := (subject_cursors s)(limit \<mapsto> length (cursor_maps s))\<rparr>))"

definition note_cursor :: "nat \<Rightarrow> int \<Rightarrow> jsval \<Rightarrow> api_state \<Rightarrow> api_state" where
  "note_cursor a offset c s = s\<lparr>cursor_maps := (cursor_maps s)[a := (cursor_maps s ! a)(offset \<mapsto> c)]\<rparr>"

definition subjects_page :: "int \<Rightarrow> jsval list \<Rightarrow> jsval \<Rightarrow> client_error + jsval" where
  "subjects_page offset vs info =
     bind_r (each_r object_of vs) (\<lambda>os. let more_pages = prop_of info ''hasNextPage'' in
     Inr (JObj [(''data'', JArr os), (''pageInfo'', JObj [(''hasNextPage'', more_pages), (''hasPreviousPage'', JBool (0 < offset)),
       (''offset'', JInt offset), (''nextOffset'', if truthy more_pages then JInt (offset + int (length vs)) else JNull)])]))"

definition subjects_answer :: "nat \<Rightarrow> int \<Rightarrow> jsval \<Rightarrow> jsval api_async" where
  "subjects_answer a offset result =
     awaiting (returns (bind_r (field (prop_of result ''data'') ''items'') list_r)) (\<lambda>vs.
     awaiting (returns (bind_r (field (prop_of (prop_of result ''data'') ''pageInfo'') ''hasNextPage'') (\<lambda>_. Inr (prop_of (prop_of result ''data'') ''pageInfo'')))) (\<lambda>info.
     writes (if truthy (prop_of info ''hasNextPage'') \<and> truthy (prop_of info ''endCursor'') then note_cursor a (offset + int (length vs)) (prop_of info ''endCursor'') else id)
       (awaiting (returns (subjects_page offset vs info)) (\<lambda>page. returns (wireEnvelope page result)))))"

definition subjects_route :: "api_env \<Rightarrow> (string \<times> string) list \<Rightarrow> jsval api_async" where
  "subjects_route env query =
     (let offset = positiveInteger (number_of_text env) (map_of query ''offset'') 0; limit = positiveInteger (number_of_text env) (map_of query ''limit'') 20 in
      reads (\<lambda>s. case cursors_for (int_str limit) s of (a, t) \<Rightarrow> writes (\<lambda>_. t)
        (case (cursor_maps t ! a) offset of
           None \<Rightarrow> returns (Inl (refused 400 ''invalid-cursor'' ''Return to the first subjects page.''))
         | Some c \<Rightarrow> awaiting (wire ''list-subjects'' (JObj ([(''type'', JStr ''user''), (''pageSize'', JInt limit)] @ (if truthy c then [(''cursor'', c)] else [])))) (subjects_answer a offset))))"

subsection \<open>The other operations\<close>

definition cache_fields :: "jsval \<Rightarrow> (string \<times> jsval) list" where
  "cache_fields body = [(''cache'', JBool (prop_of body ''cache'' \<noteq> JBool False)), (''populateCache'', JBool (prop_of body ''populateCache'' \<noteq> JBool False))]"

definition after_field :: "jsval \<Rightarrow> client_error + (string \<times> jsval) list" where
  "after_field body = (if truthy (prop_of body ''after'') then bind_r (identifier_of (prop_of body ''after'')) (\<lambda>c. Inr [(''cursor'', c)]) else Inr [])"

definition pair_fields :: "jsval \<Rightarrow> string \<Rightarrow> string \<Rightarrow> string \<Rightarrow> client_error + (string \<times> jsval) list" where
  \<comment> \<open>type and identifier of an object of the body, under these names\<close>
  "pair_fields body key type_key id_key =
     bind_r (nestedIdentifier body key ''type'') (\<lambda>t. bind_r (nestedIdentifier body key ''id'') (\<lambda>i. Inr [(type_key, t), (id_key, i)]))"

definition named_field :: "jsval \<Rightarrow> string \<Rightarrow> client_error + (string \<times> jsval) list" where
  "named_field body k = bind_r (identifier_of (prop_of body k)) (\<lambda>v. Inr [(k, v)])"

fun fields_r :: "(client_error + (string \<times> jsval) list) list \<Rightarrow> client_error + (string \<times> jsval) list" where
  "fields_r [] = Inr []"
| "fields_r (r # rs) = bind_r r (\<lambda>kvs. bind_r (fields_r rs) (\<lambda>kws. Inr (kvs @ kws)))"

definition input_of :: "jsval \<Rightarrow> (client_error + (string \<times> jsval) list) list \<Rightarrow> client_error + jsval" where
  "input_of consistency rs = bind_r (fields_r rs) (\<lambda>kvs. Inr (JObj (kvs @ props consistency)))"

definition page_size :: "jsval \<Rightarrow> (string \<times> jsval) list" where "page_size body = [(''pageSize'', number_or (prop_of body ''pageSize'') 20)]"

definition lookup_resources_input :: "jsval \<Rightarrow> jsval \<Rightarrow> client_error + jsval" where
  "lookup_resources_input body c = input_of c [pair_fields body ''subject'' ''subjectType'' ''subjectId'', named_field body ''resourceType'',
     named_field body ''permission'', Inr (page_size body), Inr (cache_fields body), after_field body]"

definition count_resources_input :: "jsval \<Rightarrow> jsval \<Rightarrow> client_error + jsval" where
  "count_resources_input body c = input_of c [pair_fields body ''subject'' ''subjectType'' ''subjectId'', named_field body ''resourceType'',
     named_field body ''permission'', Inr [(''ceiling'', number_or (prop_of body ''countLimit'') 1000)], Inr (cache_fields body)]"

definition lookup_subjects_input :: "jsval \<Rightarrow> jsval \<Rightarrow> client_error + jsval" where
  "lookup_subjects_input body c = input_of c [pair_fields body ''resource'' ''resourceType'' ''resourceId'', named_field body ''subjectType'',
     named_field body ''permission'', Inr (page_size body), Inr (cache_fields body), after_field body]"

definition check_permission_input :: "jsval \<Rightarrow> jsval \<Rightarrow> client_error + jsval" where
  "check_permission_input body c = input_of c [pair_fields body ''subject'' ''subjectType'' ''subjectId'',
     pair_fields body ''resource'' ''resourceType'' ''resourceId'', named_field body ''permission'', Inr (cache_fields body)]"

definition relationships_input :: "jsval \<Rightarrow> jsval \<Rightarrow> client_error + jsval" where
  "relationships_input body c = input_of c [pair_fields body ''authorizationSubject'' ''authorizationSubjectType'' ''authorizationSubjectId'',
     named_field body ''permission'', named_field body ''resourceType'', pair_fields body ''subject'' ''subjectType'' ''subjectId'',
     named_field body ''relation'', Inr (page_size body), Inr (cache_fields body), after_field body]"

definition present_count :: "jsval \<Rightarrow> client_error + jsval" where
  "present_count data = bind_r (field data ''value'') (\<lambda>v. Inr (JObj [(''count'', v), (''limit'', prop_of data ''ceiling''), (''truncated'', JBool (\<not> truthy (prop_of data ''exact'')))]))"

definition present_decision :: "jsval \<Rightarrow> client_error + jsval" where
  "present_decision data = bind_r (field data ''allowed'') (\<lambda>v. Inr (JObj [(''allowed'', v)]))"

definition present_relationships :: "jsval \<Rightarrow> jsval \<Rightarrow> client_error + jsval" where
  "present_relationships body data =
     bind_r (object_of (prop_of body ''subject'')) (\<lambda>parent. bind_r (page_items data) (\<lambda>os.
     bind_r (identifier_of (prop_of body ''relation'')) (\<lambda>rel. bind_r (field (prop_of data ''pageInfo'') ''hasNextPage'') (\<lambda>more_pages.
     Inr (JObj [(''items'', JArr (map (\<lambda>x. JObj [(''subject'', parent), (''relation'', rel), (''resource'', x)]) os)),
       (''pageInfo'', JObj [(''hasNextPage'', more_pages), (''hasPreviousPage'', JBool (truthy (prop_of body ''after''))),
         (''endCursor'', prop_of (prop_of data ''pageInfo'') ''endCursor'')])])))))"

definition wired :: "string \<Rightarrow> client_error + jsval \<Rightarrow> (jsval \<Rightarrow> client_error + jsval) \<Rightarrow> jsval api_async" where
  "wired operation input present_data =
     awaiting (returns input) (\<lambda>i. awaiting (wire operation i) (\<lambda>result.
     returns (bind_r (present_data (prop_of result ''data'')) (\<lambda>d. wireEnvelope d result))))"

definition other_route :: "api_env \<Rightarrow> string \<Rightarrow> (string \<times> string) list \<Rightarrow> jsval \<Rightarrow> jsval \<Rightarrow> jsval \<Rightarrow> jsval api_async" where
  "other_route env path query body active c =
     (if path = ''/get-schema'' then awaiting (loadSchema env) (\<lambda>sch. enveloped env sch ''schema'' active)
      else if path = ''/count-objects'' then wired ''count-objects'' (Inr (JObj [(''kind'', JStr ''relationships''), (''ceiling'', JInt 1000000)])) Inr
      else if path = ''/get-cache-info'' then wired ''get-cache-info'' (Inr (JObj [])) (presentCacheSnapshot (clock_text env))
      else if path = ''/list-subjects'' then subjects_route env query
      else if path = ''/lookup-resources'' then wired ''lookup-resources'' (lookup_resources_input body c) objectPage
      else if path = ''/count-resources'' then wired ''count-resources'' (count_resources_input body c) present_count
      else if path = ''/lookup-subjects'' then wired ''lookup-subjects'' (lookup_subjects_input body c) objectPage
      else if path = ''/check-permission'' then wired ''check-permission'' (check_permission_input body c) present_decision
      else if path = ''/list-relationships'' then wired ''reverse-relationships'' (relationships_input body c) (present_relationships body)
      else returns (Inl (refused 404 ''route-not-found'' ''The Explorer operation is not available.'')))"

definition dispatcher :: "api_env \<Rightarrow> string \<times> jsval \<Rightarrow> jsval api_async" where
  "dispatcher env = (\<lambda>(path, options).
     case parse_url env path of
       None \<Rightarrow> returns (Inl Type_Thrown)
     | Some (pathname, query) \<Rightarrow>
         awaiting (returns (parseBody (json_number env) (prop_of options ''body''))) (\<lambda>body.
         if pathname = ''/health'' then health_route env
         else if pathname = ''/bootstrap'' \<or> pathname = ''/refresh-snapshot'' then bootstrap_route env (pathname = ''/refresh-snapshot'')
         else awaiting (loadDescriptor False) (\<lambda>active.
           if pathname = ''/seed'' then seed_route env options body active
           else awaiting (returns (consistency_input active body)) (\<lambda>c. other_route env pathname query body active c))))"

subsection \<open>Only closed requests\<close>

definition TEXT_FIELDS :: "string list" where
  "TEXT_FIELDS = [''type'', ''subjectType'', ''subjectId'', ''resourceType'', ''resourceId'', ''permission'', ''relation'', ''authorizationSubjectType'',
     ''authorizationSubjectId'', ''kind'', ''atLeastAsFreshAs'', ''atLeastAsFreshBasisId'', ''atLeastAsFreshBasisCapturedAt'', ''atExactSnapshotAt'']"

definition field_ok :: "string \<times> jsval \<Rightarrow> bool" where
  "field_ok kv = (case kv of (k, v) \<Rightarrow>
     if k \<in> set TEXT_FIELDS then filled v
     else if k = ''cursor'' then truthy v
     else if k = ''cache'' \<or> k = ''populateCache'' then v = JBool True \<or> v = JBool False
     else if k = ''pageSize'' \<or> k = ''ceiling'' then isSafeInteger v \<and> 0 \<le> the_int v
     else k = ''consistency'' \<or> k = ''resourceCount'')"

definition REQUIRED_FIELDS :: "(string \<times> string list) list" where
  "REQUIRED_FIELDS = [(''get-schema'', [''consistency'']), (''count-objects'', [''kind'', ''ceiling'']), (''get-cache-info'', []),
     (''list-subjects'', [''type'', ''pageSize'']), (''seed-start'', [''resourceCount'']), (''seed-retry'', []), (''seed-status'', []),
     (''lookup-resources'', [''subjectType'', ''subjectId'', ''resourceType'', ''permission'', ''pageSize'', ''cache'', ''populateCache'']),
     (''count-resources'', [''subjectType'', ''subjectId'', ''resourceType'', ''permission'', ''ceiling'', ''cache'', ''populateCache'']),
     (''lookup-subjects'', [''resourceType'', ''resourceId'', ''subjectType'', ''permission'', ''pageSize'', ''cache'', ''populateCache'']),
     (''check-permission'', [''subjectType'', ''subjectId'', ''resourceType'', ''resourceId'', ''permission'', ''cache'', ''populateCache'']),
     (''reverse-relationships'', [''authorizationSubjectType'', ''authorizationSubjectId'', ''permission'', ''resourceType'', ''subjectType'', ''subjectId'',
        ''relation'', ''pageSize'', ''cache'', ''populateCache''])]"

definition closed_input :: "string \<Rightarrow> jsval \<Rightarrow> bool" where
  "closed_input operation input \<longleftrightarrow> is_object input \<and> list_all field_ok (props input)
     \<and> (case map_of REQUIRED_FIELDS operation of None \<Rightarrow> False | Some ks \<Rightarrow> list_all (\<lambda>k. k \<in> fst ` set (props input)) ks)"

definition closed_call :: "wire_call \<Rightarrow> bool" where
  "closed_call w = (case w of Request_Call operation input \<Rightarrow> closed_input operation input | _ \<Rightarrow> True)"

text \<open>The table of cursors holds addresses of maps, and no map is shared by two page sizes.\<close>

definition api_ok :: "api_state \<Rightarrow> bool" where
  "api_ok s \<longleftrightarrow> (\<forall>a \<in> ran (subject_cursors s). a < length (cursor_maps s)) \<and> inj_on (subject_cursors s) (dom (subject_cursors s))"

abbreviation api_sound :: "'a api_async \<Rightarrow> bool" where "api_sound \<equiv> sound api_ok closed_call"

lemma api_ok_cleared [simp]: "api_ok (new_descriptor d s)" "api_ok (s\<lparr>descriptor := None, subject_cursors := Map.empty\<rparr>)"
  by (simp_all add: api_ok_def new_descriptor_def)

lemma api_ok_fields [simp]:
  "api_ok (s\<lparr>schema := v\<rparr>) = api_ok s" "api_ok (note_cursor a i c s) = api_ok s"
  by (simp_all add: api_ok_def note_cursor_def)

lemma api_ok_cursors: "api_ok s \<Longrightarrow> api_ok (snd (cursors_for limit s))"
  by (fastforce simp: api_ok_def cursors_for_def ran_def inj_on_def dom_def split: option.split)

lemma sound_settles: "api_sound (settles r)"
  by (auto simp: sound_def settles_def closed_call_def intro: keeps_Wait)

lemma sound_wire: "closed_input operation input \<Longrightarrow> api_sound (wire operation input)"
  unfolding wire_def by (intro sound_awaiting sound_asks sound_settles) (simp add: closed_call_def)

lemma sound_loadDescriptor: "api_sound (loadDescriptor refresh)"
  unfolding loadDescriptor_def
  by (intro sound_reads) (auto intro!: sound_awaiting sound_asks sound_settles sound_writes simp: closed_call_def)

lemma sound_enveloped: "api_sound (enveloped env data requestId active)"
  by (simp add: enveloped_def sound_returns)

lemma closed_schema_request: "closed_input ''get-schema'' (JObj [(''consistency'', mode)])"
  by (simp add: closed_input_def field_ok_def TEXT_FIELDS_def REQUIRED_FIELDS_def)

lemma sound_loadSchema: "api_sound (loadSchema env)"
  unfolding loadSchema_def
  by (intro sound_reads) (auto intro!: sound_awaiting sound_loadDescriptor sound_returns sound_wire closed_schema_request sound_settles sound_writes)

lemmas sound_parts = sound_awaiting sound_returns sound_loadDescriptor sound_loadSchema sound_enveloped sound_settles

lemma sound_health: "api_sound (health_route env)"
  unfolding health_route_def by (intro sound_parts)

lemma sound_bootstrap: "api_sound (bootstrap_route env refresh)"
  unfolding bootstrap_route_def by (intro sound_parts)

lemma sound_seed: "api_sound (seed_route env options body active)"
proof -
  have "closed_input (seed_operation options body) (if seed_operation options body = ''seed-start'' then JObj [(''resourceCount'', v)] else JObj [])" for v
    by (simp add: seed_operation_def closed_input_def field_ok_def TEXT_FIELDS_def REQUIRED_FIELDS_def)
  then show ?thesis unfolding seed_route_def Let_def
    by (intro sound_parts) (auto intro!: sound_parts sound_wire sound_writes)
qed

lemma sound_subjects: "api_sound (subjects_route env query)"
proof -
  have limit: "isSafeInteger (JInt (positiveInteger n v d)) \<and> 0 \<le> positiveInteger n v d" if "isSafeInteger (JInt d)" "0 \<le> d" for n v d
  proof -
    have "isSafeInteger w \<Longrightarrow> is_safe_integer (the_int w)" for w by (cases w) (simp_all add: is_safe_integer_def MAX_SAFE_INTEGER_def)
    with that show ?thesis by (simp add: positiveInteger_def split: option.split)
  qed
  have closed: "closed_input ''list-subjects'' (JObj ([(''type'', JStr ''user''), (''pageSize'', JInt (positiveInteger n v 20))] @ (if truthy c then [(''cursor'', c)] else [])))" for n v c
  proof -
    have "isSafeInteger (JInt (positiveInteger n v 20)) \<and> 0 \<le> positiveInteger n v 20" by (rule limit) (simp_all add: is_safe_integer_def MAX_SAFE_INTEGER_def)
    then show ?thesis by (simp add: closed_input_def field_ok_def TEXT_FIELDS_def REQUIRED_FIELDS_def filled_def)
  qed
  have answered: "api_sound (subjects_answer a offset result)" for a offset result
    unfolding subjects_answer_def by (intro sound_parts sound_writes) simp
  show ?thesis unfolding subjects_route_def Let_def case_prod_beta
    by (intro sound_reads sound_writes api_ok_cursors)
       (simp_all only: split: option.split, intro conjI impI allI sound_parts sound_wire closed answered)
qed

definition part_ok :: "client_error + (string \<times> jsval) list \<Rightarrow> string list \<Rightarrow> bool" where
  "part_ok r ks \<longleftrightarrow> (case r of Inl e \<Rightarrow> True | Inr kvs \<Rightarrow> list_all field_ok kvs \<and> set ks \<subseteq> fst ` set kvs)"

lemma part_okD: "part_ok r ks \<Longrightarrow> r = Inr kvs \<Longrightarrow> list_all field_ok kvs \<and> set ks \<subseteq> fst ` set kvs"
  by (simp add: part_ok_def)

lemma fields_r_ok: "list_all2 part_ok rs kss \<Longrightarrow> part_ok (fields_r rs) (concat kss)"
proof (induction rs kss rule: list_all2_induct)
  case (Cons r rs ks kss)
  show ?case
  proof (cases "fields_r (r # rs)")
    case (Inr kvs)
    then obtain xs ys where "r = Inr xs" "fields_r rs = Inr ys" "kvs = xs @ ys" by auto
    with Cons part_okD [of r ks xs] part_okD [of "fields_r rs" "concat kss" ys] show ?thesis
      unfolding Inr part_ok_def sum.case by (simp only: list_all_append set_append image_Un concat.simps) blast
  qed (simp add: part_ok_def)
qed (simp add: part_ok_def)

lemma input_of_closed:
  assumes "list_all2 part_ok rs kss" "list_all field_ok (props c)" "map_of REQUIRED_FIELDS operation = Some ks" "set ks \<subseteq> set (concat kss)"
    "input_of c rs = Inr i"
  shows "closed_input operation i"
proof -
  from assms(5) obtain kvs where kvs: "fields_r rs = Inr kvs" "i = JObj (kvs @ props c)" by (auto simp: input_of_def)
  from part_okD [OF fields_r_ok [OF assms(1)] kvs(1)] have "list_all field_ok kvs" "set ks \<subseteq> fst ` set kvs" using assms(4) by blast+
  with assms(2,3) kvs(2) show ?thesis by (auto simp: closed_input_def list_all_iff)
qed

lemma identifier_of_ok: "identifier_of v = Inr w \<Longrightarrow> w = v \<and> filled v"
  by (auto simp: identifier_of_def split: if_splits)

lemma pair_ok:
  assumes "tk \<in> set TEXT_FIELDS" "ik \<in> set TEXT_FIELDS"
  shows "part_ok (pair_fields body key tk ik) [tk, ik]"
  using assms by (auto simp: part_ok_def pair_fields_def nestedIdentifier_def field_ok_def bind_r_def dest!: identifier_of_ok split: sum.splits if_splits)

lemma named_ok: "k \<in> set TEXT_FIELDS \<Longrightarrow> part_ok (named_field body k) [k]"
  by (auto simp: part_ok_def named_field_def field_ok_def bind_r_def dest!: identifier_of_ok split: sum.splits)

lemma number_or_ok: "0 \<le> d \<Longrightarrow> is_safe_integer d \<Longrightarrow> isSafeInteger (number_or v d) \<and> 0 \<le> the_int (number_or v d)"
  by (auto simp: number_or_def safe_int_between_def split: jsval.splits)

lemma size_ok: "part_ok (Inr (page_size body)) [''pageSize'']"
  using number_or_ok [of 20] by (simp add: part_ok_def page_size_def field_ok_def TEXT_FIELDS_def is_safe_integer_def MAX_SAFE_INTEGER_def)

lemma ceiling_ok: "part_ok (Inr [(''ceiling'', number_or v 1000)]) [''ceiling'']"
  using number_or_ok [of 1000] by (simp add: part_ok_def field_ok_def TEXT_FIELDS_def is_safe_integer_def MAX_SAFE_INTEGER_def)

lemma cache_ok: "part_ok (Inr (cache_fields body)) [''cache'', ''populateCache'']"
  by (simp add: part_ok_def cache_fields_def field_ok_def TEXT_FIELDS_def)

lemma after_ok: "part_ok (after_field body) []"
  by (auto simp: part_ok_def after_field_def field_ok_def TEXT_FIELDS_def filled_def bind_r_def dest!: identifier_of_ok split: sum.split)

lemmas parts_ok = pair_ok named_ok size_ok ceiling_ok cache_ok after_ok

lemma keep_filled_ok: "set ks \<subseteq> set TEXT_FIELDS \<Longrightarrow> list_all field_ok (props (keep_filled v ks))"
proof -
  assume ks: "set ks \<subseteq> set TEXT_FIELDS"
  have "field_ok (k, v)" if "k \<in> set TEXT_FIELDS" "filled v" for k v using that by (simp add: field_ok_def)
  with ks show ?thesis by (auto simp: keep_filled_def list_all_iff)
qed

lemma spread_ok: "list_all (\<lambda>v. list_all field_ok (props v)) vs \<Longrightarrow> list_all field_ok (props (spread vs))"
proof -
  assume "list_all (\<lambda>v. list_all field_ok (props v)) vs"
  then have ok: "list_all field_ok (concat (map props vs))" by (auto simp: list_all_iff)
  have "set (props (spread vs)) \<subseteq> set (concat (map props vs))"
    using fold_update_entries [of "concat (map props vs)" "[]"] by (auto simp: spread_def from_entries_def own_order_def)
  with ok show ?thesis by (auto simp: list_all_iff)
qed

lemma consistency_input_ok: "consistency_input active body = Inr c \<Longrightarrow> list_all field_ok (props c)"
proof -
  have own: "list_all field_ok (props (freshnessFloor v))" "list_all field_ok (props (exactSnapshot v))" for v
    unfolding freshnessFloor_def exactSnapshot_def by (simp_all add: keep_filled_ok TEXT_FIELDS_def)
  have mode: "field_ok (''consistency'', m)" for m by (simp add: field_ok_def TEXT_FIELDS_def)
  assume "consistency_input active body = Inr c"
  then obtain selected modes m where "c = spread ([JObj [(''consistency'', m)]]
      @ (if selected = JStr ''at-least-as-fresh'' then [freshnessFloor (prop_of body ''consistency'')] else [])
      @ [if selected = JStr ''at-exact-snapshot'' \<and> includes_value modes (JStr ''historical-date'') then exactSnapshot (prop_of body ''consistency'') else JObj []])"
    unfolding consistency_input_def Let_def bind_r_Inr_iff sum.inject by blast
  with own mode show "list_all field_ok (props c)" by (simp only:) (intro spread_ok, simp)
qed

lemma sound_wired: "(\<And>i. input = Inr i \<Longrightarrow> closed_input operation i) \<Longrightarrow> api_sound (wired operation input f)"
  unfolding wired_def by (intro sound_awaiting_returns sound_awaiting sound_wire sound_returns)

lemma text_names: "''subjectType'' \<in> set TEXT_FIELDS" "''subjectId'' \<in> set TEXT_FIELDS" "''resourceType'' \<in> set TEXT_FIELDS" "''resourceId'' \<in> set TEXT_FIELDS"
  "''permission'' \<in> set TEXT_FIELDS" "''relation'' \<in> set TEXT_FIELDS" "''authorizationSubjectType'' \<in> set TEXT_FIELDS" "''authorizationSubjectId'' \<in> set TEXT_FIELDS"
  by (simp_all add: TEXT_FIELDS_def)

lemma inputs_closed:
  assumes "list_all field_ok (props c)"
  shows "lookup_resources_input body c = Inr i \<Longrightarrow> closed_input ''lookup-resources'' i" "count_resources_input body c = Inr i \<Longrightarrow> closed_input ''count-resources'' i"
    "lookup_subjects_input body c = Inr i \<Longrightarrow> closed_input ''lookup-subjects'' i" "check_permission_input body c = Inr i \<Longrightarrow> closed_input ''check-permission'' i"
    "relationships_input body c = Inr i \<Longrightarrow> closed_input ''reverse-relationships'' i"
  subgoal unfolding lookup_resources_input_def by (erule input_of_closed [rotated 4], (rule list.rel_intros parts_ok text_names)+, rule assms, simp add: REQUIRED_FIELDS_def, simp)
  subgoal unfolding count_resources_input_def by (erule input_of_closed [rotated 4], (rule list.rel_intros parts_ok text_names)+, rule assms, simp add: REQUIRED_FIELDS_def, simp)
  subgoal unfolding lookup_subjects_input_def by (erule input_of_closed [rotated 4], (rule list.rel_intros parts_ok text_names)+, rule assms, simp add: REQUIRED_FIELDS_def, simp)
  subgoal unfolding check_permission_input_def by (erule input_of_closed [rotated 4], (rule list.rel_intros parts_ok text_names)+, rule assms, simp add: REQUIRED_FIELDS_def, simp)
  subgoal unfolding relationships_input_def by (erule input_of_closed [rotated 4], (rule list.rel_intros parts_ok text_names)+, rule assms, simp add: REQUIRED_FIELDS_def, simp)
  done

lemma sound_other:
  assumes "list_all field_ok (props c)" shows "api_sound (other_route env path query body active c)"
proof -
  have fixed: "closed_input ''count-objects'' (JObj [(''kind'', JStr ''relationships''), (''ceiling'', JInt 1000000)])" "closed_input ''get-cache-info'' (JObj [])"
    by (simp_all add: closed_input_def field_ok_def TEXT_FIELDS_def REQUIRED_FIELDS_def filled_def is_safe_integer_def MAX_SAFE_INTEGER_def)
  show ?thesis unfolding other_route_def
    by (intro sound_if sound_parts sound_subjects sound_wired inputs_closed [OF assms]) (auto simp: fixed)
qed

lemma sound_dispatcher: "api_sound (dispatcher env request)"
  unfolding dispatcher_def case_prod_beta
  by (intro sound_option sound_if sound_returns sound_awaiting_returns sound_health sound_bootstrap sound_seed sound_awaiting sound_loadDescriptor sound_other)
     (rule consistency_input_ok)

interpretation profile_api: sound_functions "dispatcher env" api_ok closed_call start_api for env
  by unfold_locales (simp add: api_ok_def start_api_def, rule sound_dispatcher)

text \<open>
  C31 Whatever the panels ask for and in whichever order the answers arrive, the profile's transport is
  asked only for operations of the closed table, with every field they need and every text filled, and the
  table of cursors never names a map that is not there or belongs to another page size.
\<close>

theorem profile_api_requests_closed:
  "case run_events (pool_step (dispatcher env)) es (empty_pool start_api) of
     None \<Rightarrow> True
   | Some p \<Rightarrow> list_all closed_call (called p) \<and> api_ok (shared p)"
  using profile_api.pooled.holds_run [of env es] by (simp add: pool_ok_def split: option.split)

end
