(* ===== verification/Page_Contract.thy ===== *)
theory Page_Contract
  imports App_State Profile_Api Http_Boundary
begin

text \<open>
  Three components and one agreement: the consistency the page of \<open>state.tsx\<close> puts into a request, what
  the profile API of \<open>profile-api.ts\<close> makes of it, and what the boundary of \<open>http-boundary.mjs\<close> admits.
  The page knows the modes of the bootstrap under other names than the contract does.
\<close>

subsection \<open>The modes of a page\<close>

lemma includes_text_mem: "includes_value ms (JStr x) \<longleftrightarrow> JStr x \<in> set ms"
  by (auto simp: includes_value_def list_ex_iff)

lemma offered_mode:
  assumes "m \<in> set (supported_modes modes)"
  obtains "m = JStr ''minimize-latency''" "JStr ''minimize'' \<in> set modes" | "m = JStr ''at-least-as-fresh''" "JStr ''at-least'' \<in> set modes"
    | "m = JStr ''at-exact-snapshot''" "JStr ''exact'' \<in> set modes" | "m = JStr ''fully-consistent''" "JStr ''authoritative'' \<in> set modes"
proof -
  from assms obtain v where "v \<in> set modes" "presentConsistency v = m" "m \<noteq> JNull" by (auto simp: supported_modes_def)
  with that show ?thesis by (auto simp: presentConsistency_def split: if_splits)
qed

lemma freshness_alone [simp]:
  "freshness_consistent (JObj [(''consistency'', JStr m)]) \<longleftrightarrow> m \<noteq> ''historical-date''"
  by (auto simp: freshness_consistent_def has_prop_def prop_of_def)

lemma floor_of_chosen:
  fixes date_parse iso_text and s :: app_state
  assumes mode: "consistency_mode s = JStr ''at-least-as-fresh''" and basis: "activeQueryBasis s = JStr b" "b \<noteq> []"
  defines "at \<equiv> atLeastAsFreshAs date_parse iso_text s"
  shows "freshnessFloor (consistency date_parse iso_text s) \<in>
    {JObj [], JObj [(''atLeastAsFreshAs'', JStr at)], JObj [(''atLeastAsFreshAs'', JStr at), (''atLeastAsFreshBasisId'', JStr b)],
     JObj [(''atLeastAsFreshAs'', JStr at), (''atLeastAsFreshBasisId'', JStr b), (''atLeastAsFreshBasisCapturedAt'', captured_at s)]}"
proof -
  let ?m = "(''mode'', JStr ''at-least-as-fresh'')" and ?a = "(''atLeastAsFreshAs'', JStr at)" and ?i = "(''atLeastAsFreshBasisId'', JStr b)"
    and ?c = "(''atLeastAsFreshBasisCapturedAt'', captured_at s)"
  have "consistency date_parse iso_text s = JObj [?m] \<or> (at \<noteq> [] \<and> consistency date_parse iso_text s \<in> {JObj [?m, ?a], JObj [?m, ?a, ?i], JObj [?m, ?a, ?i, ?c]})"
    by (simp add: consistency_def Let_def mode basis at_def [symmetric])
  moreover have "freshnessFloor (JObj [?m]) = JObj []" by (simp add: freshnessFloor_def keep_filled_def filled_def prop_of_def)
  moreover have "freshnessFloor (JObj [?m, ?a]) = JObj [?a]" if "at \<noteq> []" using that by (simp add: freshnessFloor_def keep_filled_def filled_def prop_of_def)
  moreover have "freshnessFloor (JObj [?m, ?a, ?i]) = JObj [?a, ?i]" if "at \<noteq> []" using that basis(2) by (simp add: freshnessFloor_def keep_filled_def filled_def prop_of_def)
  moreover have "freshnessFloor (JObj [?m, ?a, ?i, ?c]) \<in> {JObj [?a, ?i], JObj [?a, ?i, ?c]}" if "at \<noteq> []" using that basis(2)
    by (cases "filled (captured_at s)") (simp_all add: freshnessFloor_def keep_filled_def filled_def prop_of_def)
  ultimately show ?thesis by (elim disjE conjE insertE emptyE; simp only: insert_iff simp_thms; blast)
qed

lemma exact_of_chosen:
  "consistency_mode s = JStr ''at-exact-snapshot'' \<Longrightarrow>
     exactSnapshot (consistency date_parse iso_text s) = JObj [] \<or> exactSnapshot (consistency date_parse iso_text s) = JObj [(''atExactSnapshotAt'', JStr (exact_at s))]"
  by (cases "exact_at s = []") (auto simp: exactSnapshot_def keep_filled_def filled_def consistency_def Let_def prop_of_def)

subsection \<open>What the profile API makes of them\<close>

lemmas input_rules = consistency_input_def consistencyMode_def identifier_of_def filled_def Let_def preferredConsistency_def requested_mode_def includes_text_mem
  has_prop_def spread_def from_entries_def own_order_def is_array_index_def is_digit_def less_eq_char_def freshness_consistent_def prop_of_def [of "JObj _"]

lemma offered_consistency_accepted:
  assumes modes: "modes_r active = Inr modes" and offered: "consistency_mode s \<in> set (supported_modes modes)"
    and basis: "filled (activeQueryBasis s)" and body: "prop_of body ''consistency'' = consistency date_parse iso_text s"
  shows "case consistency_input active body of Inl e \<Rightarrow> False | Inr c \<Rightarrow> freshness_consistent c \<and> includes_value modes (prop_of c ''consistency'')"
proof -
  let ?v = "consistency date_parse iso_text s"
  have mode: "prop_of ?v ''mode'' = consistency_mode s" "has_prop ?v ''mode''" by (simp_all add: consistency_def Let_def prop_of_def has_prop_def)
  from offered show ?thesis
  proof (cases rule: offered_mode)
    case 1
    then show ?thesis using mode modes by (simp add: body input_rules)
  next
    case 2
    obtain b where b: "activeQueryBasis s = JStr b" "b \<noteq> []" using basis by (cases "activeQueryBasis s") (auto simp: filled_def)
    from floor_of_chosen [OF 2(1) b, of date_parse iso_text] show ?thesis
      unfolding insert_iff empty_iff by (elim disjE) (use 2 mode modes in \<open>simp_all add: body input_rules\<close>)
  next
    case 3
    from exact_of_chosen [OF 3(1), of date_parse iso_text] show ?thesis
      by (elim disjE; cases "JStr ''historical-date'' \<in> set modes") (use 3 mode modes in \<open>simp_all add: body input_rules\<close>)
  next
    case 4
    then show ?thesis using mode modes by (simp add: body input_rules)
  qed
qed

text \<open>
  C12 The page, its API and the boundary agree on consistency. A bootstrap the API
  presents from a descriptor leaves the page on one of the modes it offers, and in whatever state the
  page is while it shows that bootstrap with an offered mode, the API turns the consistency of its
  requests into an input whose freshness fields the boundary accepts as consistent and whose mode
  the descriptor advertises.
\<close>

theorem page_consistency_is_accepted:
  "case presentBootstrap descr sch of
     Inl e \<Rightarrow> True
   | Inr presented \<Rightarrow>
       let supported = items (prop_of (prop_of presented ''consistency'') ''supported''); s' = installBootstrap collate ev refreshed s in
       if prop_of ev ''data'' = presented \<and> supported \<noteq> [] \<and> filled (basis_of ev)
       then bootstrap_data s' = Some ev \<and> includes_value supported (consistency_mode s')
         \<and> (if bootstrap_data t = Some ev \<and> includes_value supported (consistency_mode t)
            then (case consistency_input descr (JObj [(''consistency'', consistency date_parse iso_text t)]) of
                    Inl e \<Rightarrow> False
                  | Inr c \<Rightarrow> freshness_consistent c \<and> includes_value (items (prop_of (prop_of descr ''capabilities'') ''consistencyModes'')) (prop_of c ''consistency''))
            else True)
       else True"
proof (cases "presentBootstrap descr sch")
  case (Inr presented)
  then obtain modes where modes: "modes_r descr = Inr modes" "items (prop_of (prop_of presented ''consistency'') ''supported'') = supported_modes modes"
    using bootstrap_modes by blast
  have advertised: "items (prop_of (prop_of descr ''capabilities'') ''consistencyModes'') = modes"
    using modes(1) by (auto simp: modes_r_def bind_r_Inr_iff field_def list_r_def split: if_splits jsval.splits)
  have basis: "filled (activeQueryBasis t)" if "filled (basis_of ev)" "bootstrap_data t = Some ev"
    using that by (cases "basis_of ev") (simp_all add: activeQueryBasis_def nullish_or_def filled_def)
  have "m \<in> set (supported_modes modes)" if "includes_value (supported_modes modes) m" for m
  proof -
    from that obtain v where v: "v \<in> set (supported_modes modes)" "strict_eq v m" by (auto simp: includes_value_def list_ex_iff)
    then have "v = m" using modes_are_texts [OF v(1)] by (cases v rule: jsval.exhaust) simp_all
    with v show ?thesis by simp
  qed
  then have "case consistency_input descr (JObj [(''consistency'', consistency date_parse iso_text t)]) of Inl e \<Rightarrow> False
      | Inr c \<Rightarrow> freshness_consistent c \<and> includes_value modes (prop_of c ''consistency'')"
    if "includes_value (supported_modes modes) (consistency_mode t)" "filled (basis_of ev)" "bootstrap_data t = Some ev"
    using that basis by (intro offered_consistency_accepted [OF modes(1), of t]) (simp_all add: prop_of_def [of "JObj _"])
  then show ?thesis
    unfolding Inr sum.case Let_def advertised modes(2)
    using installed_choices_are_offered [of collate ev refreshed s descr sch] by (simp add: Inr Let_def modes(2))
qed simp

end
