(* ===== verification/Authorization.thy ===== *)
theory Authorization
  imports Stable_Json
begin

text \<open>
  \<open>packages/data-lifecycle/authorization.mjs\<close>: the closed policy under which stateful operations
  and temporary machines may be started, the preview that binds one request to the policy, and the
  execution of a confirmed preview. The clock is an argument, \<open>None\<close> when it gives no valid time.
\<close>

subsection \<open>Patterns and fixed identities\<close>

definition ACCOUNT :: regex where "ACCOUNT = times 12 (cls ''09'' [])"
definition REGION :: regex where
  "REGION = cats [times 2 (cls ''az'' []), plus_of (Cat (lit ''-'') (plus_of (cls ''az09'' []))), lit ''-'', cls ''09'' []]"
definition PROFILE :: regex where
  "PROFILE = Cat (plus_of (cls ''az09'' [])) (star (Cat (lit ''-'') (plus_of (cls ''az09'' []))))"
definition GENERATION :: regex where "GENERATION = Rep 3 (Some 80) (cls ''az09'' ''-'')"
definition S3_VERSION :: regex where "S3_VERSION = Rep 1 (Some 1024) (cls ''AZaz09'' ''._~+/=-'')"
definition TABLE :: regex where
  "TABLE = cats [lit ''eacl-demo-'', Either (lit ''datahike'') (lit ''datomic''), lit ''-'', Rep 3 (Some 80) (cls ''az09'' ''-'')]"

definition hex_id :: "string \<Rightarrow> regex" where
  \<comment> \<open>\<open>/^<prefix>[0-9a-f]{8,32}$/u\<close>\<close>
  "hex_id prefix = Cat (lit prefix) (Rep 8 (Some 32) (cls ''09af'' []))"

definition INSTANCE_TYPE :: regex where "INSTANCE_TYPE = plus_of (cls ''az09'' ''.'')"
definition BUCKET :: regex where
  "BUCKET = cats [cls ''az09'' [], Rep 1 (Some 61) (cls ''az09'' ''.-''), cls ''az09'' []]"
definition instance_profile_arn :: "string \<Rightarrow> regex" where
  "instance_profile_arn account = cats [lit ''arn:'', plus_of (cls ''az09'' ''-''), lit '':iam::'', lit account,
     lit '':instance-profile/'', plus_of (cls ''AZaz09'' ''+=,.@_/-'')]"
definition SNS_ARN :: regex where
  "SNS_ARN = cats [lit ''arn:'', plus_of (cls ''az09'' ''-''), lit '':sns:'', plus_of (cls ''az09'' ''-''), lit '':'',
     times 12 (cls ''09'' []), lit '':'', plus_of (cls ''AZaz09'' ''_-'')]"

definition AUTHORIZED_ACCOUNT_ID :: string where "AUTHORIZED_ACCOUNT_ID = ''843761893873''"
definition AUTHORIZED_REGION :: string where "AUTHORIZED_REGION = ''us-east-1''"
definition AUTHORIZED_REPOSITORY_ID :: string where "AUTHORIZED_REPOSITORY_ID = ''1345904214''"
definition AUTHORIZED_REF :: string where "AUTHORIZED_REF = ''refs/heads/production''"

definition AUTHORIZED_DURABLE_TARGETS :: "(string \<times> string \<times> string) list" where
  "AUTHORIZED_DURABLE_TARGETS =
     [(''datahike-dynamodb'', ''eacl-demo-datahike-fixture-v1-green'', ''fixture-v1-green''),
      (''datomic-dynamodb'', ''eacl-demo-datomic-fixture-v1-green'', ''fixture-v1-green'')]"

definition durable_target :: "jsval \<Rightarrow> (string \<times> string) option" where
  "durable_target i = (case i of JStr s \<Rightarrow> map_of AUTHORIZED_DURABLE_TARGETS s | _ \<Rightarrow> None)"

subsection \<open>The policy\<close>

text \<open>\<open>v.join(",") !== t\<close> and \<open>!v.endsWith(w)\<close>: both are methods the value may not have.\<close>

definition join_differs :: "jsval \<Rightarrow> string \<Rightarrow> js_error + bool" where
  "join_differs v t = (case v of JArr _ \<Rightarrow> mismatch (\<lambda>s. s = t) v | _ \<Rightarrow> Inl Type_Error)"

definition not_ends_with :: "jsval \<Rightarrow> jsval \<Rightarrow> js_error + bool" where
  "not_ends_with v w = (case v of JStr s \<Rightarrow> mismatch (\<lambda>t. ends_with t s) w | _ \<Rightarrow> Inl Type_Error)"

definition is_array :: "jsval \<Rightarrow> bool" where
  "is_array v \<longleftrightarrow> (case v of JArr _ \<Rightarrow> True | _ \<Rightarrow> False)"

definition validateGeneration :: "jsval list \<Rightarrow> jsval \<Rightarrow> js_error + unit" where
  "validateGeneration seen g =
     (let p = prop_of g in
      guards [
        exactKeys g [''profileId'', ''tableName'', ''generationId'', ''maximumNewGenerations'', ''logicalResourceCount'', ''operations'']
          ''durable generation authorization'',
        reject_if [mismatch (matches PROFILE) (p ''profileId''), Inr (includes_value seen (p ''profileId''))]
          ''durable profile authorization is invalid'',
        reject_if [differs (p ''maximumNewGenerations'') (JInt 1), differs (p ''logicalResourceCount'') (JInt 1000000),
            Inr (\<not> is_array (p ''operations'')), join_differs (p ''operations'') ''create-table,seed,verify,backup,publish'']
          ''durable generation scope expanded'',
        reject_if [mismatch (matches TABLE) (p ''tableName''), mismatch (matches GENERATION) (p ''generationId''),
            not_ends_with (p ''tableName'') (p ''generationId'')] ''durable generation target is invalid'',
        reject_if [Inr (case durable_target (p ''profileId'') of None \<Rightarrow> True
            | Some (t, n) \<Rightarrow> p ''tableName'' \<noteq> JStr t \<or> p ''generationId'' \<noteq> JStr n)]
          ''durable generation differs from the approved target''])"

fun validateGenerations :: "jsval list \<Rightarrow> jsval list \<Rightarrow> js_error + jsval list" where
  "validateGenerations seen [] = Inr seen"
| "validateGenerations seen (g # gs) =
     bind_r (validateGeneration seen g) (\<lambda>_. validateGenerations (seen @ [prop_of g ''profileId'']) gs)"

definition BOUND_FIELDS :: "string list" where
  "BOUND_FIELDS = [''maximumConcurrentInstances'', ''maximumVcpus'', ''maximumMemoryGiB'', ''maximumRuntimeMinutes'',
     ''maximumRootVolumeGiB'', ''maximumForecastUsdPerRun'']"
definition SAFETY_FIELDS :: "string list" where
  "SAFETY_FIELDS = [''requireNoInboundRules'', ''requireImdsV2'', ''requireNoElasticIp'', ''requireTerminationByExactInstanceId'']"

definition validateTemporaryComputePolicy :: "jsval \<Rightarrow> js_error + unit" where
  "validateTemporaryComputePolicy v =
     (let p = prop_of v; purposes = prop_of (p ''profilePurposes'') in
      guards ([
        exactKeys v ([''purposes'', ''profilePurposes'', ''standalonePurposes''] @ BOUND_FIELDS @ SAFETY_FIELDS) ''temporary compute policy'',
        reject_if [Inr (\<not> is_array (p ''purposes'')), join_differs (p ''purposes'') ''datahike-seed,datomic-seed,datomic-transactor,jank-build'']
          ''temporary compute purposes expanded'',
        exactKeys (p ''profilePurposes'') [''datahike-dynamodb'', ''datomic-dynamodb'', ''jank-memory''] ''temporary compute profile purposes'',
        reject_if [join_differs (purposes ''datahike-dynamodb'') ''datahike-seed'',
            join_differs (purposes ''datomic-dynamodb'') ''datomic-seed,datomic-transactor'', join_differs (purposes ''jank-memory'') ''jank-build'']
          ''temporary compute profile purposes expanded'',
        reject_if [Inr (\<not> is_array (p ''standalonePurposes'')), join_differs (p ''standalonePurposes'') ''jank-build'']
          ''standalone temporary compute purposes expanded'']
      @ map (\<lambda>f. reject_if [Inr (num_of (p f) = None), Inr (num_le (p f) (JInt 0))] ''temporary compute bound is invalid'') BOUND_FIELDS
      @ [reject_if [differs (p ''maximumConcurrentInstances'') (JInt 1), Inr (num_less (JInt 8) (p ''maximumVcpus'')),
            Inr (num_less (JInt 32) (p ''maximumMemoryGiB'')), Inr (num_less (JInt 360) (p ''maximumRuntimeMinutes'')),
            Inr (num_less (JInt 80) (p ''maximumRootVolumeGiB'')), Inr (num_less (JInt 15) (p ''maximumForecastUsdPerRun''))]
          ''temporary compute policy exceeds authorization'']
      @ map (\<lambda>f. reject_if [differs (p f) (JBool True)] ''temporary compute safety requirement is disabled'') SAFETY_FIELDS))"

definition validateInitialStatefulAuthorization :: "jsval \<Rightarrow> js_error + jsval" where
  "validateInitialStatefulAuthorization policy =
     (let p = prop_of policy; scope = prop_of (p ''scope'') in
      bind_r (guards [
        exactKeys policy [''schema'', ''authorizationStatus'', ''authorizedAccountId'', ''authorizedRegion'', ''authorizedRepositoryId'',
          ''authorizedRef'', ''scope'', ''requiredBeforeExecution'', ''requiredAfterTemporaryCompute'', ''explicitlyExcluded''] ''authorization policy'',
        reject_if [differs (p ''schema'') (JStr ''eacl-demo.initial-stateful-authorization.v1''), differs (p ''authorizationStatus'') (JStr ''user-approved'')]
          ''stateful authorization is not active'',
        reject_if [mismatch (matches ACCOUNT) (p ''authorizedAccountId''), mismatch (matches REGION) (p ''authorizedRegion''),
            differs (p ''authorizedAccountId'') (JStr AUTHORIZED_ACCOUNT_ID), differs (p ''authorizedRegion'') (JStr AUTHORIZED_REGION),
            differs (p ''authorizedRepositoryId'') (JStr AUTHORIZED_REPOSITORY_ID), differs (p ''authorizedRef'') (JStr AUTHORIZED_REF)]
          ''stateful authorization identity is invalid'',
        exactKeys (p ''scope'') [''durableGenerations'', ''temporaryCompute''] ''authorization scope'',
        reject_if [Inr (\<not> is_array (scope ''durableGenerations'')), Inr (length (items (scope ''durableGenerations'')) \<noteq> 2)]
          ''authorization must name exactly two durable profiles'']) (\<lambda>_.
      bind_r (validateGenerations [] (items (scope ''durableGenerations''))) (\<lambda>profiles.
      bind_r (guards ([
        reject_if [Inr (length profiles \<noteq> 2), Inr (\<not> includes_value profiles (JStr ''datahike-dynamodb'')),
          Inr (\<not> includes_value profiles (JStr ''datomic-dynamodb''))] ''unexpected durable profile authorization'',
        validateTemporaryComputePolicy (scope ''temporaryCompute'')]
        @ map (\<lambda>f. reject_if [Inr (\<not> is_array (p f)), Inr (length (items (p f)) < 1),
            Inr (list_ex (\<lambda>v. \<not> str_satisfies (\<lambda>s. s \<noteq> []) v) (items (p f)))] (f @ '' is invalid''))
          [''requiredBeforeExecution'', ''requiredAfterTemporaryCompute'', ''explicitlyExcluded''])) (\<lambda>_.
      Inr policy))))"

subsection \<open>Gates of a request\<close>

definition validateSafetyGate :: "(string \<Rightarrow> int option) \<Rightarrow> jsval \<Rightarrow> string \<Rightarrow> int \<Rightarrow> js_error + unit" where
  "validateSafetyGate engine v name now =
     bind_r (date_r engine (prop_of v ''verifiedAt'')) (\<lambda>verified.
       reject_if [differs (prop_of v ''verified'') (JBool True), mismatch sha256_ref (prop_of v ''evidenceId''),
           Inr (\<not> validTimestamp engine (prop_of v ''verifiedAt'')),
           Inr (case verified of None \<Rightarrow> True | Some t \<Rightarrow> now - t < 0 \<or> 30 * 60 * 1000 < now - t)]
         (name @ '' is not freshly verified''))"

definition validateCostControlGate :: "(string \<Rightarrow> int option) \<Rightarrow> jsval \<Rightarrow> int \<Rightarrow> js_error + unit" where
  "validateCostControlGate engine v now = guards [
     exactKeys v [''verified'', ''evidenceId'', ''verifiedAt'', ''capPolicyDigest''] ''cost controls'',
     reject_if [mismatch sha256_ref (prop_of v ''capPolicyDigest'')] ''cost controls are not bound to a cap policy'',
     validateSafetyGate engine v ''cost controls'' now]"

text \<open>The groups of \<open>SNS_ARN\<close> are the fourth and fifth pieces between colons.\<close>

definition arn_piece :: "nat \<Rightarrow> string \<Rightarrow> string" where
  "arn_piece n s = split_on (CHR '':'') s ! n"

definition topic_outside :: "jsval \<Rightarrow> jsval \<Rightarrow> jsval \<Rightarrow> js_error + bool" where
  "topic_outside arn region account = (case js_string arn of
     None \<Rightarrow> Inl Type_Error
   | Some s \<Rightarrow> any_r [Inr (\<not> matches SNS_ARN s), differs (JStr (arn_piece 3 s)) region, differs (JStr (arn_piece 4 s)) account])"

definition validateTelegramGate :: "(string \<Rightarrow> int option) \<Rightarrow> jsval \<Rightarrow> jsval \<Rightarrow> jsval \<Rightarrow> int \<Rightarrow> js_error + unit" where
  "validateTelegramGate engine v account region now = guards [
     exactKeys v [''verified'', ''evidenceId'', ''verifiedAt'', ''notificationTopicArn''] ''Telegram gate'',
     reject_if [topic_outside (prop_of v ''notificationTopicArn'') region account]
       ''Telegram gate notification topic is outside authorization'',
     validateSafetyGate engine v ''Telegram gate'' now]"

definition outside_purposes :: "jsval \<Rightarrow> jsval \<Rightarrow> jsval \<Rightarrow> js_error + bool" where
  \<comment> \<open>\<open>!policy.profilePurposes[profileId]?.includes(purpose)\<close>\<close>
  "outside_purposes policy i purpose = (case js_string i of
     None \<Rightarrow> Inl Type_Error
   | Some k \<Rightarrow> Inr (\<not> includes_value (items (prop_of (prop_of policy ''profilePurposes'') k)) purpose))"

definition validateTemporaryComputeRequest :: "(string \<Rightarrow> int option) \<Rightarrow> jsval \<Rightarrow> jsval \<Rightarrow> jsval \<Rightarrow> jsval \<Rightarrow> int \<Rightarrow> js_error + unit" where
  "validateTemporaryComputeRequest engine policy v i account now =
     (let p = prop_of v; q = prop_of policy in
      bind_r (guards [
        exactKeys v [''purpose'', ''amiId'', ''instanceType'', ''vcpus'', ''memoryGiB'', ''runtimeMinutes'', ''rootVolumeGiB'', ''forecastUsd'',
          ''subnetId'', ''securityGroupId'', ''instanceProfileArn'', ''inboundRules'', ''metadataTokens'', ''associatePublicIpAddress'',
          ''elasticIpAllocationId'', ''expiresAtTag''] ''temporary compute request'',
        reject_if [Inr (\<not> includes_value (items (q ''purposes'')) (p ''purpose'')), outside_purposes policy i (p ''purpose'')]
          ''temporary compute purpose is outside the profile authorization'',
        reject_if [mismatch (matches (hex_id ''ami-'')) (p ''amiId''), mismatch (matches INSTANCE_TYPE) (p ''instanceType''),
            mismatch (matches (hex_id ''subnet-'')) (p ''subnetId''), mismatch (matches (hex_id ''sg-'')) (p ''securityGroupId''),
            mismatch (matches (instance_profile_arn (the_text account))) (p ''instanceProfileArn'')]
          ''temporary compute target is invalid'',
        reject_if [Inr (\<not> isSafeInteger (p ''vcpus'')), Inr (num_less (p ''vcpus'') (JInt 1)), Inr (num_less (q ''maximumVcpus'') (p ''vcpus'')),
            Inr (num_of (p ''memoryGiB'') = None), Inr (num_le (p ''memoryGiB'') (JInt 0)), Inr (num_less (q ''maximumMemoryGiB'') (p ''memoryGiB'')),
            Inr (\<not> isSafeInteger (p ''runtimeMinutes'')), Inr (num_less (p ''runtimeMinutes'') (JInt 1)),
            Inr (num_less (q ''maximumRuntimeMinutes'') (p ''runtimeMinutes'')),
            Inr (\<not> isSafeInteger (p ''rootVolumeGiB'')), Inr (num_less (p ''rootVolumeGiB'') (JInt 8)),
            Inr (num_less (q ''maximumRootVolumeGiB'') (p ''rootVolumeGiB'')),
            Inr (num_of (p ''forecastUsd'') = None), Inr (num_less (p ''forecastUsd'') (JInt 0)),
            Inr (num_less (q ''maximumForecastUsdPerRun'') (p ''forecastUsd''))] ''temporary compute request exceeds a bound'']) (\<lambda>_.
      bind_r (date_r engine (p ''expiresAtTag'')) (\<lambda>expiry.
        reject_if [Inr (\<not> is_array (p ''inboundRules'')), Inr (items (p ''inboundRules'') \<noteq> []),
            differs (p ''metadataTokens'') (JStr ''required''), differs (p ''associatePublicIpAddress'') (JBool False),
            differs (p ''elasticIpAllocationId'') JNull, mismatch iso_millis (p ''expiresAtTag''),
            Inr (case expiry of None \<Rightarrow> True | Some t \<Rightarrow> t \<le> now \<or> now + the_int (p ''runtimeMinutes'') * 60 * 1000 < t)]
          ''temporary compute safety topology is invalid'')))"

definition digest_between :: "string \<Rightarrow> string \<Rightarrow> string \<Rightarrow> bool" where
  \<comment> \<open>\<open>/^<prefix>([a-f0-9]{64})<suffix>$/u\<close>\<close>
  "digest_between prefix suffix s = matches (cats [lit prefix, times 64 (cls ''af09'' []), lit suffix]) s"

definition digest_after :: "string \<Rightarrow> string \<Rightarrow> string" where
  "digest_after prefix s = take 64 (drop (length prefix) s)"

definition SEED_PREFIX :: string where "SEED_PREFIX = ''artifacts/datomic-dynamodb/seed/''"
definition STREAM_PREFIX :: string where "STREAM_PREFIX = ''artifacts/datomic-dynamodb/fixtures/''"

definition validateExecutionArtifacts :: "jsval \<Rightarrow> jsval \<Rightarrow> jsval \<Rightarrow> jsval \<Rightarrow> js_error + unit" where
  "validateExecutionArtifacts v i operation generationId =
     (if i \<noteq> JStr ''datomic-dynamodb'' \<or> operation \<noteq> JStr ''seed'' then
        reject_if [differs v JNull] ''stateful execution artifacts are outside authorization''
      else
        let p = prop_of v in
        bind_r (exactKeys v [''artifactBucket'', ''seedArtifactKey'', ''seedArtifactVersion'', ''seedArtifactSha256'', ''fixtureStreamKey'',
          ''fixtureStreamVersion'', ''fixtureStreamSha256'', ''seedEvidenceKey'', ''datomicDistributionUrl'', ''datomicDistributionSha256'',
          ''datomicDistributionBytes'', ''datomicDistributionRoot''] ''Datomic seed execution artifacts'') (\<lambda>_.
        case (js_string (p ''seedArtifactKey''), js_string (p ''fixtureStreamKey'')) of
          (Some seed, Some stream) \<Rightarrow> guards [
            reject_if [mismatch (matches BUCKET) (p ''artifactBucket''),
                Inr (\<not> digest_between SEED_PREFIX ''/seed.jar'' seed), differs (JStr (digest_after SEED_PREFIX seed)) (p ''seedArtifactSha256''),
                Inr (\<not> digest_between STREAM_PREFIX ''/fixture-1000000.batches.jsonl.gz'' stream),
                differs (JStr (digest_after STREAM_PREFIX stream)) (p ''fixtureStreamSha256''),
                mismatch (matches S3_VERSION) (p ''seedArtifactVersion''), mismatch (matches S3_VERSION) (p ''fixtureStreamVersion'')]
              ''Datomic seed S3 artifacts are invalid'',
            reject_if [differs (p ''seedEvidenceKey'') (JStr (''evidence/datomic-dynamodb/'' @ the_text generationId @ ''/seed-evidence.jsonl''))]
              ''Datomic seed evidence target is invalid'',
            reject_if [differs (p ''datomicDistributionUrl'') (JStr ''https://datomic-pro-downloads.s3.amazonaws.com/1.0.7705/datomic-pro-1.0.7705.zip''),
                differs (p ''datomicDistributionSha256'') (JStr ''a17c2603b893dfb0d998a35a032a7295736d234d32937222c8ec21d81a1b8c7e''),
                differs (p ''datomicDistributionBytes'') (JInt 272642957), differs (p ''datomicDistributionRoot'') (JStr ''datomic-pro-1.0.7705'')]
              ''Datomic distribution identity changed'']
        | _ \<Rightarrow> Inl Type_Error))"

subsection \<open>Previews\<close>

definition STATEFUL_KEYS :: "string list" where
  "STATEFUL_KEYS = [''accountId'', ''region'', ''repositoryId'', ''ref'', ''profileId'', ''operation'', ''tableName'', ''generationId'',
     ''fixtureManifestDigest'', ''logicalResourceCount'', ''costControls'', ''telegramGate'', ''temporaryCompute'', ''executionArtifacts'']"

definition COMPUTE_KEYS :: "string list" where
  "COMPUTE_KEYS = [''accountId'', ''region'', ''repositoryId'', ''ref'', ''profileId'', ''operation'', ''workloadDigest'', ''costControls'',
     ''telegramGate'', ''temporaryCompute'']"

definition identity_outside :: "jsval \<Rightarrow> (string \<Rightarrow> jsval) \<Rightarrow> (js_error + bool) list" where
  "identity_outside policy r =
     [differs (r ''accountId'') (prop_of policy ''authorizedAccountId''), differs (r ''region'') (prop_of policy ''authorizedRegion''),
      differs (r ''repositoryId'') (prop_of policy ''authorizedRepositoryId''), differs (r ''ref'') (prop_of policy ''authorizedRef'')]"

definition find_durable :: "jsval \<Rightarrow> jsval \<Rightarrow> jsval option" where
  "find_durable policy i =
     find (\<lambda>g. strict_eq (prop_of g ''profileId'') i) (items (prop_of (prop_of policy ''scope'') ''durableGenerations''))"

definition SEED_INSTANCE_PROFILE :: "jsval \<Rightarrow> string" where
  "SEED_INSTANCE_PROFILE policy =
     ''arn:aws:iam::'' @ the_text (prop_of policy ''authorizedAccountId'') @ '':instance-profile/eacl-demo-datomic-seed-fixture-v1-green''"

text \<open>Everything \<open>createAuthorizedPreview\<close> demands of a request, whose properties are \<open>r\<close>.\<close>

definition stateful_guards :: "(string \<Rightarrow> int option) \<Rightarrow> jsval \<Rightarrow> (string \<Rightarrow> jsval) \<Rightarrow> int \<Rightarrow> js_error + unit" where
  "stateful_guards engine policy r now =
     bind_r (reject_if (identity_outside policy r) ''stateful request identity is outside authorization'') (\<lambda>_.
     case find_durable policy (r ''profileId'') of
       None \<Rightarrow> Inl (Error ''stateful operation is outside authorization'')
     | Some durable \<Rightarrow>
         guards [
           reject_if [Inr (\<not> includes_value (items (prop_of durable ''operations'')) (r ''operation''))] ''stateful operation is outside authorization'',
           reject_if [differs (r ''tableName'') (prop_of durable ''tableName''), differs (r ''generationId'') (prop_of durable ''generationId'')]
             ''stateful target is outside authorization'',
           reject_if [mismatch sha256_ref (r ''fixtureManifestDigest''), differs (r ''logicalResourceCount'') (prop_of durable ''logicalResourceCount'')]
             ''fixture target is outside authorization'',
           validateCostControlGate engine (r ''costControls'') now,
           validateTelegramGate engine (r ''telegramGate'') (prop_of policy ''authorizedAccountId'') (prop_of policy ''authorizedRegion'') now,
           validateExecutionArtifacts (r ''executionArtifacts'') (r ''profileId'') (r ''operation'') (r ''generationId''),
           (if r ''temporaryCompute'' = JNull then
              reject_if [Inr (r ''operation'' = JStr ''seed'' \<and> r ''profileId'' = JStr ''datomic-dynamodb'')]
                ''Datomic seed preview must resolve its temporary compute topology''
            else guards [
              validateTemporaryComputeRequest engine (prop_of (prop_of policy ''scope'') ''temporaryCompute'') (r ''temporaryCompute'')
                (r ''profileId'') (prop_of policy ''authorizedAccountId'') now,
              reject_if [Inr (r ''profileId'' = JStr ''datomic-dynamodb'' \<and> r ''operation'' = JStr ''seed''
                  \<and> prop_of (r ''temporaryCompute'') ''instanceProfileArn'' \<noteq> JStr (SEED_INSTANCE_PROFILE policy))]
                ''Datomic seed instance profile is outside authorization''])])"

definition preview_payload :: "(string \<Rightarrow> string) \<Rightarrow> jsval \<Rightarrow> jsval \<Rightarrow> string \<Rightarrow> jsval \<Rightarrow> jsval" where
  "preview_payload sha policy request createdAt expiresAt =
     spread [request, JObj [(''authorizationPolicyDigest'', JStr (stable_digest sha policy)), (''createdAt'', JStr createdAt), (''expiresAt'', expiresAt)]]"

definition cleanup_plan :: "jsval \<Rightarrow> jsval" where
  "cleanup_plan policy = JObj [(''terminateBy'', JStr ''launch-result-instance-id''), (''noninteractive'', JBool True),
     (''verify'', prop_of policy ''requiredAfterTemporaryCompute'')]"

definition sealed_preview :: "(string \<Rightarrow> string) \<Rightarrow> string \<Rightarrow> jsval \<Rightarrow> string list \<Rightarrow> jsval \<Rightarrow> jsval" where
  "sealed_preview sha schema payload bound cleanup =
     (let previewId = stable_digest sha payload in
      spread [JObj [(''schema'', JStr schema), (''previewId'', JStr previewId)], payload,
        JObj [(''confirmation'', JStr (join '':'' (''EXECUTE'' # map (\<lambda>k. the_text (prop_of payload k)) bound @ [previewId]))),
          (''cleanup'', cleanup)]])"

definition expiry_text :: "(string \<Rightarrow> int option) \<Rightarrow> string \<Rightarrow> js_error + string" where
  \<comment> \<open>\<open>new Date(Date.parse(createdAt) + 30 * 60 * 1000).toISOString()\<close>\<close>
  "expiry_text engine createdAt = (case date_parse engine createdAt of
     None \<Rightarrow> Inl (Error ''Invalid time value'') | Some t \<Rightarrow> iso_r (t + 30 * 60 * 1000))"

definition STATEFUL_PREVIEW :: string where "STATEFUL_PREVIEW = ''eacl-demo.stateful-execution-preview.v1''"
definition COMPUTE_PREVIEW :: string where "COMPUTE_PREVIEW = ''eacl-demo.temporary-compute-execution-preview.v1''"

definition createAuthorizedPreview ::
    "(string \<Rightarrow> int option) \<Rightarrow> (string \<Rightarrow> string) \<Rightarrow> jsval \<Rightarrow> jsval \<Rightarrow> int option \<Rightarrow> js_error + jsval" where
  "createAuthorizedPreview engine sha policy request clock =
     bind_r (validateInitialStatefulAuthorization policy) (\<lambda>_.
     case clock of
       None \<Rightarrow> Inl Type_Error
     | Some now \<Rightarrow>
         bind_r (exactKeys request STATEFUL_KEYS ''stateful request'') (\<lambda>_.
         bind_r (stateful_guards engine policy (prop_of request) now) (\<lambda>_.
         bind_r (iso_r now) (\<lambda>createdAt. bind_r (expiry_text engine createdAt) (\<lambda>expiresAt.
         Inr (sealed_preview sha STATEFUL_PREVIEW (preview_payload sha policy request createdAt (JStr expiresAt))
           [''operation'', ''tableName'', ''generationId'']
           (if prop_of request ''temporaryCompute'' = JNull then JNull else cleanup_plan policy)))))))"

definition compute_guards :: "(string \<Rightarrow> int option) \<Rightarrow> jsval \<Rightarrow> (string \<Rightarrow> jsval) \<Rightarrow> int \<Rightarrow> js_error + unit" where
  "compute_guards engine policy r now =
     (let compute = prop_of (prop_of policy ''scope'') ''temporaryCompute'' in
      guards [
        reject_if (identity_outside policy r) ''temporary compute identity is outside authorization'',
        reject_if [differs (r ''operation'') (JStr ''launch-temporary-compute''), mismatch sha256_ref (r ''workloadDigest'')]
          ''temporary compute target is outside authorization'',
        reject_if [Inr (\<not> includes_value (items (prop_of compute ''standalonePurposes'')) (prop_of (r ''temporaryCompute'') ''purpose''))]
          ''temporary compute purpose requires a durable generation preview'',
        validateCostControlGate engine (r ''costControls'') now,
        validateTelegramGate engine (r ''telegramGate'') (prop_of policy ''authorizedAccountId'') (prop_of policy ''authorizedRegion'') now,
        validateTemporaryComputeRequest engine compute (r ''temporaryCompute'') (r ''profileId'') (prop_of policy ''authorizedAccountId'') now])"

definition createAuthorizedComputePreview ::
    "(string \<Rightarrow> int option) \<Rightarrow> (string \<Rightarrow> string) \<Rightarrow> jsval \<Rightarrow> jsval \<Rightarrow> int option \<Rightarrow> js_error + jsval" where
  "createAuthorizedComputePreview engine sha policy request clock =
     bind_r (validateInitialStatefulAuthorization policy) (\<lambda>_.
     case clock of
       None \<Rightarrow> Inl Type_Error
     | Some now \<Rightarrow>
         bind_r (exactKeys request COMPUTE_KEYS ''temporary compute request'') (\<lambda>_.
         bind_r (compute_guards engine policy (prop_of request) now) (\<lambda>_.
         bind_r (iso_r now) (\<lambda>createdAt. bind_r (expiry_text engine createdAt) (\<lambda>expiresAt.
         Inr (sealed_preview sha COMPUTE_PREVIEW (preview_payload sha policy request createdAt (JStr expiresAt))
           [''operation'', ''profileId'', ''workloadDigest''] (cleanup_plan policy)))))))"

subsection \<open>Execution\<close>

definition without :: "string list \<Rightarrow> jsval \<Rightarrow> jsval" where
  \<comment> \<open>\<open>const { a, b, ...rest } = v\<close>\<close>
  "without ks v = JObj (filter (\<lambda>(k, _). k \<notin> set ks) (props v))"

definition pick :: "jsval \<Rightarrow> string list \<Rightarrow> jsval" where
  "pick v ks = JObj (map (\<lambda>k. (k, prop_of v k)) ks)"

definition requestFromPreview :: "jsval \<Rightarrow> jsval" where
  "requestFromPreview preview = pick preview STATEFUL_KEYS"

definition computeRequestFromPreview :: "jsval \<Rightarrow> jsval" where
  "computeRequestFromPreview preview = pick preview COMPUTE_KEYS"

definition SEAL :: "string list" where
  "SEAL = [''schema'', ''previewId'', ''confirmation'', ''cleanup'']"

definition execution_guards ::
    "(string \<Rightarrow> int option) \<Rightarrow> (string \<Rightarrow> string) \<Rightarrow> string \<Rightarrow> string \<Rightarrow> jsval \<Rightarrow> jsval \<Rightarrow> jsval \<Rightarrow> int \<Rightarrow> js_error + unit" where
  "execution_guards engine sha kind schema policy preview confirmation now =
     bind_r (guards [
       reject_if [Inr (\<not> truthy preview), differs (prop_of preview ''schema'') (JStr schema), mismatch sha256_ref (prop_of preview ''previewId'')]
         (kind @ '' preview is invalid''),
       reject_if [differs (prop_of preview ''authorizationPolicyDigest'') (JStr (stable_digest sha policy))]
         (kind @ '' preview authorization policy changed''),
       reject_if [differs (JStr (stable_digest sha (without SEAL preview))) (prop_of preview ''previewId'')]
         (kind @ '' preview was modified'')]) (\<lambda>_.
     bind_r (date_r engine (prop_of preview ''expiresAt'')) (\<lambda>expiry. guards [
       reject_if [Inr (case expiry of None \<Rightarrow> False | Some t \<Rightarrow> t \<le> now)] (kind @ '' preview expired''),
       reject_if [differs confirmation (prop_of preview ''confirmation'')] (kind @ '' execution confirmation does not match the exact preview'')]))"

definition granted_execution :: "jsval \<Rightarrow> string list \<Rightarrow> jsval" where
  "granted_execution preview ks = JObj ((''authorized'', JBool True) # map (\<lambda>k. (k, prop_of preview k)) ks)"

definition EXECUTION_KEYS :: "string list" where
  "EXECUTION_KEYS = [''previewId'', ''accountId'', ''region'', ''profileId'', ''operation'', ''tableName'', ''generationId'', ''cleanup'']"

definition authorizePreviewExecution ::
    "(string \<Rightarrow> int option) \<Rightarrow> (string \<Rightarrow> string) \<Rightarrow> jsval \<Rightarrow> jsval \<Rightarrow> jsval \<Rightarrow> int \<Rightarrow> js_error + jsval" where
  "authorizePreviewExecution engine sha policy preview confirmation now =
     bind_r (validateInitialStatefulAuthorization policy) (\<lambda>_.
     bind_r (execution_guards engine sha ''stateful'' STATEFUL_PREVIEW policy preview confirmation now) (\<lambda>_.
     bind_r (createAuthorizedPreview engine sha policy (requestFromPreview preview) (new_date engine (prop_of preview ''createdAt''))) (\<lambda>_.
     Inr (granted_execution preview EXECUTION_KEYS))))"

definition authorizeComputePreviewExecution ::
    "(string \<Rightarrow> int option) \<Rightarrow> (string \<Rightarrow> string) \<Rightarrow> jsval \<Rightarrow> jsval \<Rightarrow> jsval \<Rightarrow> int \<Rightarrow> js_error + jsval" where
  "authorizeComputePreviewExecution engine sha policy preview confirmation now =
     bind_r (validateInitialStatefulAuthorization policy) (\<lambda>_.
     bind_r (execution_guards engine sha ''temporary compute'' COMPUTE_PREVIEW policy preview confirmation now) (\<lambda>_.
     bind_r (createAuthorizedComputePreview engine sha policy (computeRequestFromPreview preview) (new_date engine (prop_of preview ''createdAt''))) (\<lambda>_.
     Inr (granted_execution preview
       [''previewId'', ''accountId'', ''region'', ''profileId'', ''operation'', ''workloadDigest'', ''cleanup'']))))"

subsection \<open>The seal of a preview\<close>

text \<open>The fields the code adds to a request are none of its own keys, and no key is an array index.\<close>

definition seal_fits :: "string list \<Rightarrow> bool" where
  "seal_fits ks \<longleftrightarrow> distinct (ks @ [''authorizationPolicyDigest'', ''createdAt'', ''expiresAt''] @ SEAL)
     \<and> list_all (\<lambda>k. \<not> is_array_index k) ks"

lemma keys_fit: "seal_fits STATEFUL_KEYS" "seal_fits COMPUTE_KEYS"
  by (simp_all add: seal_fits_def STATEFUL_KEYS_def COMPUTE_KEYS_def SEAL_def is_array_index_def is_digit_def)

lemma seal_not_index: "k \<in> set [''authorizationPolicyDigest'', ''createdAt'', ''expiresAt'', ''schema'', ''previewId'', ''confirmation'', ''cleanup'']
    \<Longrightarrow> \<not> is_array_index k"
  by (auto simp: is_array_index_def is_digit_def)

lemma exact_keys_fit:
  assumes "exact_keys request ks" and "seal_fits ks"
  shows "distinct (map fst (props request))" "fst ` set (props request) = set ks"
    "\<And>k. k \<in> fst ` set (props request) \<Longrightarrow> \<not> is_array_index k"
proof -
  show keys: "fst ` set (props request) = set ks" using assms(1) by (rule exact_keys_set)
  have "distinct (sort (map fst (props request)))"
    using assms by (simp add: exact_keys_def seal_fits_def)
  then show "distinct (map fst (props request))" by simp
  show "\<And>k. k \<in> fst ` set (props request) \<Longrightarrow> \<not> is_array_index k"
    using assms(2) keys by (auto simp: seal_fits_def list_all_iff)
qed

lemma payload_props:
  assumes "exact_keys request ks" and "seal_fits ks"
  shows "preview_payload sha policy request c e = JObj (props request @
     [(''authorizationPolicyDigest'', JStr (stable_digest sha policy)), (''createdAt'', JStr c), (''expiresAt'', e)])"
proof -
  note keys = exact_keys_fit [OF assms]
  have "set ks \<inter> {''authorizationPolicyDigest'', ''createdAt'', ''expiresAt''} = {}"
    using assms(2) by (auto simp: seal_fits_def)
  then show ?thesis
    unfolding preview_payload_def spread_def
    by (subst from_entries_distinct) (use keys seal_not_index in auto)
qed

lemma sealed_props:
  assumes "exact_keys request ks" and "seal_fits ks" and "payload = preview_payload sha policy request c e"
  shows "sealed_preview sha schema payload bound cl = JObj ([(''schema'', JStr schema), (''previewId'', JStr (stable_digest sha payload))]
     @ props payload @ [(''confirmation'', JStr (join '':'' (''EXECUTE'' # map (\<lambda>k. the_text (prop_of payload k)) bound @ [stable_digest sha payload]))),
       (''cleanup'', cl)])"
proof -
  note keys = exact_keys_fit [OF assms(1,2)] payload_props [OF assms(1,2), of sha policy c e]
  have "set ks \<inter> {''schema'', ''previewId'', ''confirmation'', ''cleanup''} = {}" "set ks \<inter> {''authorizationPolicyDigest'', ''createdAt'', ''expiresAt''} = {}"
    using assms(2) by (auto simp: seal_fits_def SEAL_def)
  then show ?thesis
    unfolding sealed_preview_def spread_def Let_def
    by (subst from_entries_distinct) (use keys seal_not_index assms(3) in auto)
qed

lemma prop_of_append:
  "prop_of (JObj (a @ b)) k = (if k \<in> fst ` set a then prop_of (JObj a) k else prop_of (JObj b) k)"
proof (cases "k \<in> fst ` set a")
  case True
  then obtain v where "map_of a k = Some v" by (metis domD dom_map_of_conv_image_fst)
  with True show ?thesis by (simp add: prop_of_def map_add_def)
next
  case False
  then have "map_of a k = None" by (simp add: map_of_eq_None_iff)
  with False show ?thesis by (simp add: prop_of_def map_add_def split: option.split)
qed

lemma prop_of_Cons: "prop_of (JObj ((l, v) # b)) k = (if k = l then v else prop_of (JObj b) k)"
  by (simp add: prop_of_def)

lemma sealed_facts:
  assumes "exact_keys request ks" and "seal_fits ks" and "payload = preview_payload sha policy request c e"
    and "preview = sealed_preview sha schema payload bound cl"
  shows "without SEAL preview = payload" "truthy preview" "prop_of preview ''schema'' = JStr schema"
    "prop_of preview ''previewId'' = JStr (stable_digest sha payload)"
    "prop_of preview ''authorizationPolicyDigest'' = JStr (stable_digest sha policy)"
    "prop_of preview ''createdAt'' = JStr c" "prop_of preview ''expiresAt'' = e"
    "k \<in> set ks \<Longrightarrow> prop_of preview k = prop_of request k" "is_string (prop_of preview ''confirmation'')"
    "prop_of preview ''cleanup'' = cl"
proof -
  note keys = exact_keys_fit [OF assms(1,2)]
  note pay = payload_props [OF assms(1,2), of sha policy c e, folded assms(3)]
  obtain conf i where i: "i = stable_digest sha payload" and seal: "preview = JObj ((''schema'', JStr schema) # (''previewId'', JStr i) # props request
      @ [(''authorizationPolicyDigest'', JStr (stable_digest sha policy)), (''createdAt'', JStr c), (''expiresAt'', e),
         (''confirmation'', JStr conf), (''cleanup'', cl)])"
    using sealed_props [OF assms(1,2,3), of schema bound cl, folded assms(4)] by (simp add: pay)
  have names: "''schema'' \<notin> set ks" "''previewId'' \<notin> set ks" "''confirmation'' \<notin> set ks" "''cleanup'' \<notin> set ks"
      "''authorizationPolicyDigest'' \<notin> set ks" "''createdAt'' \<notin> set ks" "''expiresAt'' \<notin> set ks"
    using assms(2) by (simp_all add: seal_fits_def SEAL_def)
  have "k \<notin> set SEAL" if "(k, v) \<in> set (props request)" for k v
  proof -
    have "k \<in> set ks" using that keys(2) by force
    with names show ?thesis by (auto simp: SEAL_def)
  qed
  then have "filter (\<lambda>(k, _). k \<notin> set SEAL) (props request) = props request"
    by (intro filter_True) auto
  then show "without SEAL preview = payload" by (simp add: without_def seal pay SEAL_def)
  show "truthy preview" by (simp add: seal)
  note reads = seal prop_of_Cons prop_of_append keys(2) names
  show "prop_of preview ''schema'' = JStr schema" by (simp add: reads)
  show "prop_of preview ''previewId'' = JStr (stable_digest sha payload)" by (simp add: reads i)
  show "prop_of preview ''authorizationPolicyDigest'' = JStr (stable_digest sha policy)" by (simp add: reads)
  show "prop_of preview ''createdAt'' = JStr c" by (simp add: reads)
  show "prop_of preview ''expiresAt'' = e" by (simp add: reads)
  show "is_string (prop_of preview ''confirmation'')" by (simp add: reads)
  show "prop_of preview ''cleanup'' = cl" by (simp add: reads)
  show "k \<in> set ks \<Longrightarrow> prop_of preview k = prop_of request k"
  proof -
    assume k: "k \<in> set ks"
    then have "k \<noteq> ''schema''" "k \<noteq> ''previewId''" using names by auto
    with k show ?thesis by (simp add: reads) (cases request; simp add: prop_of_def)
  qed
qed

lemma picked_request:
  assumes "exact_keys request ks" and "seal_fits ks" and "\<And>k. k \<in> set ks \<Longrightarrow> prop_of preview k = prop_of request k"
  shows "exact_keys (pick preview ks) ks" "prop_of (pick preview ks) = prop_of request"
proof -
  show "exact_keys (pick preview ks) ks" by (simp add: exact_keys_def pick_def comp_def)
  have "map_of (map (\<lambda>k. (k, prop_of preview k)) ks) k = (if k \<in> set ks then Some (prop_of preview k) else None)" for k
    by (simp add: map_of_map_restrict restrict_map_def)
  moreover have "k \<notin> set ks \<Longrightarrow> map_of (props request) k = None" for k
    using exact_keys_fit(2) [OF assms(1,2)] by (simp add: map_of_eq_None_iff)
  ultimately show "prop_of (pick preview ks) = prop_of request"
    using assms(3) by (auto simp: fun_eq_iff pick_def prop_of_def)
qed

lemma created_preview:
  "createAuthorizedPreview engine sha policy request (Some now) = Inr preview \<longleftrightarrow>
     validateInitialStatefulAuthorization policy = Inr policy \<and> exact_keys request STATEFUL_KEYS
     \<and> stateful_guards engine policy (prop_of request) now = Inr () \<and> \<bar>now\<bar> \<le> 8640000000000000
     \<and> (\<exists>e. expiry_text engine (iso_text now) = Inr e
         \<and> preview = sealed_preview sha STATEFUL_PREVIEW (preview_payload sha policy request (iso_text now) (JStr e))
             [''operation'', ''tableName'', ''generationId'']
             (if prop_of request ''temporaryCompute'' = JNull then JNull else cleanup_plan policy))"
  by (auto simp: createAuthorizedPreview_def guard_facts iso_r_ok validateInitialStatefulAuthorization_def Let_def)

lemma date_parse_iso: "four_digit_year t \<Longrightarrow> date_parse engine (iso_text t) = Some t"
  using iso_parse_text(1) [of t] by (simp add: date_parse_def)

lemma sealed_execution:
  assumes genuine: "createAuthorizedPreview engine sha policy request (Some now) = Inr genuine" and year: "four_digit_year now"
    and payload: "payload = preview_payload sha policy request (iso_text now) (JStr es)"
    and preview: "preview = sealed_preview sha STATEFUL_PREVIEW payload bound cl"
    and hex: "lower_hex 64 (sha (stable_json payload @ [CHR 0x0A]))"
  shows "authorizePreviewExecution engine sha policy preview confirmation later =
    (if (case date_parse engine es of None \<Rightarrow> False | Some t \<Rightarrow> t \<le> later) then Inl (Error ''stateful preview expired'')
     else if confirmation \<noteq> prop_of preview ''confirmation'' then Inl (Error ''stateful execution confirmation does not match the exact preview'')
     else Inr (granted_execution preview EXECUTION_KEYS))"
proof -
  have ok: "validateInitialStatefulAuthorization policy = Inr policy" and keys: "exact_keys request STATEFUL_KEYS"
    using genuine by (simp_all add: created_preview)
  note facts = sealed_facts [OF keys keys_fit(1) payload preview]
  have picked: "exact_keys (requestFromPreview preview) STATEFUL_KEYS" "prop_of (requestFromPreview preview) = prop_of request"
    unfolding requestFromPreview_def by (rule picked_request [OF keys keys_fit(1)], rule facts(8), assumption)+
  have "\<exists>p. createAuthorizedPreview engine sha policy (requestFromPreview preview) (Some now) = Inr p"
    using genuine by (auto simp: created_preview picked)
  then obtain p where again: "createAuthorizedPreview engine sha policy (requestFromPreview preview)
      (new_date engine (prop_of preview ''createdAt'')) = Inr p"
    using date_parse_iso [OF year] by (auto simp: facts new_date_def dateParse_def)
  have "sha256_ref (stable_digest sha payload)"
    using hex by (simp add: stable_digest_def sha256_ref_def)
  then have "execution_guards engine sha ''stateful'' STATEFUL_PREVIEW policy preview confirmation later =
      (if (case date_parse engine es of None \<Rightarrow> False | Some t \<Rightarrow> t \<le> later) then Inl (Error ''stateful preview expired'')
       else if confirmation \<noteq> prop_of preview ''confirmation'' then Inl (Error ''stateful execution confirmation does not match the exact preview'')
       else Inr ())"
    using facts(9) by (cases "prop_of preview ''confirmation''")
      (simp_all add: execution_guards_def facts reject_if_def differs_def date_r_def)
  then show ?thesis by (simp add: authorizePreviewExecution_def ok again)
qed

text \<open>
  C22 A preview that was created can be executed with its own confirmation for thirty minutes and with
  nothing else: from its expiry on it is refused as expired, before that with any other confirmation
  it is refused as not matching, and otherwise exactly its target is authorised. (The times have
  four-digit years and SHA-256 prints 64 hexadecimal digits.)
\<close>

theorem preview_executes_until_expiry:
  "case createAuthorizedPreview engine sha policy request (Some now) of
     Inl e \<Rightarrow> True
   | Inr preview \<Rightarrow>
       if four_digit_year now \<and> four_digit_year (now + 30 * 60 * 1000)
         \<and> lower_hex 64 (sha (stable_json (without SEAL preview) @ [CHR 0x0A]))
       then authorizePreviewExecution engine sha policy preview confirmation later =
         (if now + 30 * 60 * 1000 \<le> later then Inl (Error ''stateful preview expired'')
          else if confirmation \<noteq> prop_of preview ''confirmation'' then Inl (Error ''stateful execution confirmation does not match the exact preview'')
          else Inr (granted_execution preview EXECUTION_KEYS))
       else True"
proof (cases "createAuthorizedPreview engine sha policy request (Some now)")
  case (Inr preview)
  then obtain e where e: "expiry_text engine (iso_text now) = Inr e" and keys: "exact_keys request STATEFUL_KEYS"
    and preview: "preview = sealed_preview sha STATEFUL_PREVIEW (preview_payload sha policy request (iso_text now) (JStr e))
      [''operation'', ''tableName'', ''generationId''] (if prop_of request ''temporaryCompute'' = JNull then JNull else cleanup_plan policy)"
    by (auto simp: created_preview)
  show ?thesis
  proof (cases "four_digit_year now \<and> four_digit_year (now + 30 * 60 * 1000)
      \<and> lower_hex 64 (sha (stable_json (without SEAL preview) @ [CHR 0x0A]))")
    case True
    then have hex: "lower_hex 64 (sha (stable_json (preview_payload sha policy request (iso_text now) (JStr e)) @ [CHR 0x0A]))"
      using sealed_facts(1) [OF keys keys_fit(1) refl preview] by simp
    have "date_parse engine e = Some (now + 30 * 60 * 1000)"
      using e True date_parse_iso [of now] date_parse_iso [of "now + 30 * 60 * 1000"] by (simp add: expiry_text_def iso_r_ok)
    with sealed_execution [OF Inr _ refl preview hex, of confirmation later] True show ?thesis by (simp add: Inr)
  next
    case False
    then show ?thesis by (simp only: Inr sum.case if_False)
  qed
qed simp

text \<open>
  C23 The expiry of a preview is not bound to its creation: whoever holds the request of a preview can
  seal it again with any expiry text, and the execution is authorised with that preview's own
  confirmation, as long as the text names a later time, and for ever when it names no time at all.
\<close>

theorem preview_expiry_is_not_bound:
  "case createAuthorizedPreview engine sha policy request (Some now) of
     Inl e \<Rightarrow> True
   | Inr genuine \<Rightarrow>
       let payload = preview_payload sha policy request (iso_text now) (JStr forged);
           preview = sealed_preview sha STATEFUL_PREVIEW payload [''operation'', ''tableName'', ''generationId''] (prop_of genuine ''cleanup'')
       in if four_digit_year now \<and> lower_hex 64 (sha (stable_json payload @ [CHR 0x0A]))
          then prop_of preview ''expiresAt'' = JStr forged
            \<and> (authorizePreviewExecution engine sha policy preview (prop_of preview ''confirmation'') later
                 = Inr (granted_execution preview EXECUTION_KEYS) \<longleftrightarrow>
               (case date_parse engine forged of None \<Rightarrow> True | Some t \<Rightarrow> later < t))
          else True"
proof (cases "createAuthorizedPreview engine sha policy request (Some now)")
  case (Inr genuine)
  then have keys: "exact_keys request STATEFUL_KEYS" by (simp add: created_preview)
  show ?thesis
    using sealed_execution [OF Inr _ refl refl, of forged] sealed_facts(7) [OF keys keys_fit(1) refl refl]
    by (auto simp: Inr Let_def split: option.split)
qed simp

subsection \<open>The scope of an authorisation\<close>

definition approved_generation :: "jsval \<Rightarrow> bool" where
  "approved_generation g \<longleftrightarrow> (case durable_target (prop_of g ''profileId'') of
     None \<Rightarrow> False | Some (t, n) \<Rightarrow> prop_of g ''tableName'' = JStr t \<and> prop_of g ''generationId'' = JStr n)"

lemma validateGenerations_approved:
  "validateGenerations seen gs = Inr ps \<Longrightarrow> list_all approved_generation gs"
  by (induction seen gs rule: validateGenerations.induct)
    (auto simp: validateGeneration_def Let_def guard_facts approved_generation_def split: option.splits)

lemma valid_policy:
  assumes "validateInitialStatefulAuthorization policy = Inr q"
  shows "prop_of policy ''authorizedAccountId'' = JStr AUTHORIZED_ACCOUNT_ID" "prop_of policy ''authorizedRegion'' = JStr AUTHORIZED_REGION"
    "list_all approved_generation (items (prop_of (prop_of policy ''scope'') ''durableGenerations''))"
  using assms by (auto simp: validateInitialStatefulAuthorization_def Let_def guard_facts guards_append dest: validateGenerations_approved)

lemma durable_found:
  assumes "find_durable policy i = Some d" and "validateInitialStatefulAuthorization policy = Inr q"
  shows "approved_generation d" "prop_of d ''profileId'' = i"
proof -
  have "d \<in> set (items (prop_of (prop_of policy ''scope'') ''durableGenerations''))" and same: "strict_eq (prop_of d ''profileId'') i"
    using assms(1) by (auto simp: find_durable_def find_Some_iff)
  then show appr: "approved_generation d" using valid_policy(3) [OF assms(2)] by (simp add: list_all_iff)
  then obtain s where "prop_of d ''profileId'' = JStr s"
    by (auto simp: approved_generation_def durable_target_def split: jsval.splits option.splits)
  with same show "prop_of d ''profileId'' = i" by simp
qed

lemma stateful_scope:
  assumes "stateful_guards engine policy r now = Inr ()" and "validateInitialStatefulAuthorization policy = Inr q"
  shows "r ''accountId'' = JStr AUTHORIZED_ACCOUNT_ID" "r ''region'' = JStr AUTHORIZED_REGION"
    "\<exists>t n. durable_target (r ''profileId'') = Some (t, n) \<and> r ''tableName'' = JStr t \<and> r ''generationId'' = JStr n"
    "prop_of (r ''costControls'') ''verified'' = JBool True" "prop_of (r ''telegramGate'') ''verified'' = JBool True"
proof -
  note pol = valid_policy [OF assms(2)]
  show "r ''accountId'' = JStr AUTHORIZED_ACCOUNT_ID" "r ''region'' = JStr AUTHORIZED_REGION"
    using assms(1) pol by (auto simp: stateful_guards_def identity_outside_def guard_facts)
  obtain d where d: "find_durable policy (r ''profileId'') = Some d"
    using assms(1) by (auto simp: stateful_guards_def split: option.splits)
  note found = durable_found [OF d assms(2)]
  then obtain t n where tn: "durable_target (r ''profileId'') = Some (t, n)" "prop_of d ''tableName'' = JStr t" "prop_of d ''generationId'' = JStr n"
    by (auto simp: approved_generation_def split: option.splits)
  then show "\<exists>t n. durable_target (r ''profileId'') = Some (t, n) \<and> r ''tableName'' = JStr t \<and> r ''generationId'' = JStr n"
    using assms(1) d by (auto simp: stateful_guards_def guard_facts)
  show "prop_of (r ''costControls'') ''verified'' = JBool True" "prop_of (r ''telegramGate'') ''verified'' = JBool True"
    using assms(1) d by (auto simp: stateful_guards_def validateCostControlGate_def validateTelegramGate_def validateSafetyGate_def guard_facts)
qed

text \<open>
  C24 No stateful execution is authorised outside the approved scope. Whatever policy and preview are
  presented, an authorised execution runs in the one approved account and region, on a profile whose
  table and generation are the ones of the closed table of durable targets, after both safety gates
  were recorded as verified, for a preview that carries the digests of its own content and of the
  policy, confirmed by its exact confirmation text.
\<close>

theorem authorized_execution_in_scope:
  "case authorizePreviewExecution engine sha policy preview confirmation later of
     Inl e \<Rightarrow> True
   | Inr granted \<Rightarrow>
       prop_of granted ''accountId'' = JStr AUTHORIZED_ACCOUNT_ID \<and> prop_of granted ''region'' = JStr AUTHORIZED_REGION
       \<and> (case durable_target (prop_of granted ''profileId'') of
            None \<Rightarrow> False
          | Some (t, n) \<Rightarrow> prop_of granted ''tableName'' = JStr t \<and> prop_of granted ''generationId'' = JStr n)
       \<and> prop_of (prop_of preview ''costControls'') ''verified'' = JBool True
       \<and> prop_of (prop_of preview ''telegramGate'') ''verified'' = JBool True
       \<and> prop_of granted ''previewId'' = JStr (stable_digest sha (without SEAL preview))
       \<and> prop_of preview ''authorizationPolicyDigest'' = JStr (stable_digest sha policy)
       \<and> strict_eq confirmation (prop_of preview ''confirmation'')"
proof (cases "authorizePreviewExecution engine sha policy preview confirmation later")
  case (Inr granted)
  then obtain q p where valid: "validateInitialStatefulAuthorization policy = Inr q"
    and exec: "execution_guards engine sha ''stateful'' STATEFUL_PREVIEW policy preview confirmation later = Inr ()"
    and again: "createAuthorizedPreview engine sha policy (requestFromPreview preview) (new_date engine (prop_of preview ''createdAt'')) = Inr p"
    and granted: "granted = granted_execution preview EXECUTION_KEYS"
    by (auto simp: authorizePreviewExecution_def)
  from again obtain now where "createAuthorizedPreview engine sha policy (requestFromPreview preview) (Some now) = Inr p"
    by (cases "new_date engine (prop_of preview ''createdAt'')") (auto simp: createAuthorizedPreview_def)
  then have "stateful_guards engine policy (prop_of (requestFromPreview preview)) now = Inr ()" by (simp add: created_preview)
  note scope = stateful_scope [OF this valid]
  have same: "prop_of (requestFromPreview preview) k = prop_of preview k" if "k \<in> set STATEFUL_KEYS" for k
    using that by (simp add: requestFromPreview_def pick_def prop_of_def map_of_map_restrict restrict_map_def)
  have keys: "set [''accountId'', ''region'', ''profileId'', ''tableName'', ''generationId'', ''costControls'', ''telegramGate''] \<subseteq> set STATEFUL_KEYS"
    by (simp add: STATEFUL_KEYS_def)
  have result: "prop_of granted k = prop_of preview k" if "k \<in> set EXECUTION_KEYS" for k
    using that by (auto simp: granted granted_execution_def prop_of_def EXECUTION_KEYS_def)
  have exec_keys: "set [''previewId'', ''accountId'', ''region'', ''profileId'', ''tableName'', ''generationId''] \<subseteq> set EXECUTION_KEYS"
    by (simp add: EXECUTION_KEYS_def)
  have seals: "prop_of preview ''previewId'' = JStr (stable_digest sha (without SEAL preview))"
    "prop_of preview ''authorizationPolicyDigest'' = JStr (stable_digest sha policy)" "strict_eq confirmation (prop_of preview ''confirmation'')"
    using exec by (auto simp: execution_guards_def guard_facts)
  show ?thesis
    using scope seals keys exec_keys by (auto simp: Inr same result split: option.split)
qed simp

end
