(* ===== verification/Post_Compute.thy ===== *)
theory Post_Compute
  imports Authorization
begin

text \<open>
  \<open>packages/data-lifecycle/post-compute.mjs\<close>: the verification after a temporary machine ran. The
  preview is re-created and compared, the launch result, the evidence and the cleanup are checked
  against it, and the result names the machine and the digest of the evidence.
\<close>

definition ROLE_ARN :: regex where
  "ROLE_ARN = cats [lit ''arn:'', plus_of (cls ''az09'' ''-''), lit '':iam::'', times 12 (cls ''09'' []), lit '':role/'', plus_of (cls ''AZaz09'' ''+=,.@_/-'')]"
definition INSTANCE_PROFILE_ARN :: regex where
  "INSTANCE_PROFILE_ARN = cats [lit ''arn:'', plus_of (cls ''az09'' ''-''), lit '':iam::'', times 12 (cls ''09'' []), lit '':instance-profile/'',
     plus_of (cls ''AZaz09'' ''+=,.@_/-'')]"
definition REQUIRED_SEED_ALARMS :: "string list" where
  "REQUIRED_SEED_ALARMS = [''read-cap-70'', ''read-cap-90'', ''write-cap-70'', ''write-cap-90'', ''read-throttle'', ''write-throttle'',
     ''read-cap-drift'', ''write-cap-drift'']"

definition arn_leaf :: "string \<Rightarrow> string" where
  \<comment> \<open>\<open>value.slice(value.lastIndexOf("/") + 1)\<close>\<close>
  "arn_leaf s = last (split_on (CHR ''/'') s)"

text \<open>\<open>regex.exec(v)[1]\<close> of an ARN is its account, the fifth piece; methods need a string.\<close>

definition account_differs :: "jsval \<Rightarrow> jsval \<Rightarrow> js_error + bool" where
  "account_differs v account = (case js_string v of None \<Rightarrow> Inl Type_Error | Some s \<Rightarrow> differs (JStr (arn_piece 4 s)) account)"

definition leaves_differ :: "jsval \<Rightarrow> jsval \<Rightarrow> js_error + bool" where
  "leaves_differ v w = (case (v, w) of (JStr s, JStr t) \<Rightarrow> Inr (arn_leaf s \<noteq> arn_leaf t) | _ \<Rightarrow> Inl Type_Error)"

subsection \<open>The preview\<close>

definition expected_confirmation :: "jsval \<Rightarrow> string" where
  "expected_confirmation preview =
     join '':'' (''EXECUTE'' # map (\<lambda>k. the_text (prop_of preview k))
       ((if prop_of preview ''schema'' = JStr STATEFUL_PREVIEW then [''operation'', ''tableName'', ''generationId'']
         else [''operation'', ''profileId'', ''workloadDigest'']) @ [''previewId'']))"

definition recreated_preview :: "(string \<Rightarrow> int option) \<Rightarrow> (string \<Rightarrow> string) \<Rightarrow> jsval \<Rightarrow> jsval \<Rightarrow> js_error + jsval" where
  "recreated_preview engine sha policy preview =
     (let created = new_date engine (prop_of preview ''createdAt'') in
      if prop_of preview ''schema'' = JStr STATEFUL_PREVIEW
      then createAuthorizedPreview engine sha policy (pick preview STATEFUL_KEYS) created
      else createAuthorizedComputePreview engine sha policy (pick preview COMPUTE_KEYS) created)"

definition validatePreview :: "(string \<Rightarrow> int option) \<Rightarrow> (string \<Rightarrow> string) \<Rightarrow> jsval \<Rightarrow> jsval \<Rightarrow> js_error + unit" where
  "validatePreview engine sha policy preview =
     (let p = prop_of preview; cleanup = p ''cleanup'' in
      bind_r (guards [
        reject_if [Inr (\<not> truthy preview), Inr (\<not> member_of [STATEFUL_PREVIEW, COMPUTE_PREVIEW] (p ''schema'')), mismatch sha256_ref (p ''previewId'')]
          ''temporary-compute preview is invalid'',
        reject_if [differs (p ''authorizationPolicyDigest'') (JStr (stable_digest sha policy))] ''temporary-compute preview authorization policy changed'',
        reject_if [differs (JStr (stable_digest sha (without SEAL preview))) (p ''previewId'')] ''temporary-compute preview was modified'',
        reject_if [differs (p ''confirmation'') (JStr (expected_confirmation preview))] ''temporary-compute confirmation binding is invalid'',
        reject_if [Inr (\<not> truthy cleanup), differs (prop_of cleanup ''terminateBy'') (JStr ''launch-result-instance-id''),
            differs (prop_of cleanup ''noninteractive'') (JBool True),
            Inr (json (prop_of cleanup ''verify'') \<noteq> json (prop_of policy ''requiredAfterTemporaryCompute''))]
          ''temporary-compute cleanup contract changed'']) (\<lambda>_.
      bind_r (recreated_preview engine sha policy preview) (\<lambda>recreated.
        reject_if [Inr (stable_json recreated \<noteq> stable_json preview)]
          ''temporary-compute preview was not produced by the authorization policy'')))"

subsection \<open>The launch and the evidence\<close>

definition TAG_KEYS :: "string list" where
  "TAG_KEYS = [''Project'', ''Lifecycle'', ''ManagedBy'', ''Owner'', ''Purpose'', ''AuthorizationId'', ''ExpiresAt'']"

definition time_order :: "(string \<Rightarrow> int option) \<Rightarrow> jsval \<Rightarrow> jsval \<Rightarrow> bool" where
  \<comment> \<open>\<open>Date.parse(v) < Date.parse(w)\<close>, false when one is no date\<close>
  "time_order engine v w = (case (dateParse engine v, dateParse engine w) of (Some s, Some t) \<Rightarrow> s < t | _ \<Rightarrow> False)"

definition validateLaunchResult :: "(string \<Rightarrow> int option) \<Rightarrow> jsval \<Rightarrow> jsval \<Rightarrow> jsval \<Rightarrow> js_error + unit" where
  "validateLaunchResult engine policy preview v =
     (let p = prop_of v; q = prop_of preview; compute = prop_of (q ''temporaryCompute''); account = prop_of policy ''authorizedAccountId'';
          tags = prop_of (p ''tags'') in
      guards [
        exactKeys v [''schema'', ''previewId'', ''accountId'', ''region'', ''instanceId'', ''rootVolumeId'', ''elasticIpAllocationId'', ''temporaryRoleArn'',
          ''instanceProfileArn'', ''launchedAt'', ''tags''] ''temporary-compute launch result'',
        reject_if [differs (p ''schema'') (JStr ''eacl-demo.temporary-compute-launch-result.v1''), differs (p ''previewId'') (q ''previewId''),
            differs (p ''accountId'') (q ''accountId''), differs (p ''region'') (q ''region'')] ''temporary-compute launch identity mismatch'',
        reject_if [mismatch (matches (hex_id ''i-'')) (p ''instanceId''), mismatch (matches (hex_id ''vol-'')) (p ''rootVolumeId''),
            differs (p ''elasticIpAllocationId'') JNull] ''temporary-compute launch resources are invalid'',
        reject_if [mismatch (matches ROLE_ARN) (p ''temporaryRoleArn''), account_differs (p ''temporaryRoleArn'') account,
            differs (p ''instanceProfileArn'') (compute ''instanceProfileArn''), mismatch (matches INSTANCE_PROFILE_ARN) (p ''instanceProfileArn''),
            account_differs (p ''instanceProfileArn'') account, leaves_differ (p ''temporaryRoleArn'') (p ''instanceProfileArn'')]
          ''temporary-compute launch role is invalid'',
        exactKeys (p ''tags'') TAG_KEYS ''temporary-compute launch tags'',
        reject_if [differs (tags ''Project'') (JStr ''eacl-demo''), differs (tags ''Lifecycle'') (JStr ''temporary''),
            differs (tags ''ManagedBy'') (JStr ''eacl-demo-temp-watchdog''), differs (tags ''Owner'') (JStr ''theronic/eacl-demo''),
            differs (tags ''Purpose'') (compute ''purpose''), differs (tags ''AuthorizationId'') (q ''previewId''),
            differs (tags ''ExpiresAt'') (compute ''expiresAtTag'')] ''temporary-compute launch tags are invalid'',
        reject_if [Inr (\<not> validTimestamp engine (p ''launchedAt'')), Inr (time_order engine (p ''launchedAt'') (q ''createdAt'')),
            Inr (time_order engine (compute ''expiresAtTag'') (p ''launchedAt''))] ''temporary-compute launch time is invalid''])"

definition validateEvidenceEnvelope :: "(string \<Rightarrow> int option) \<Rightarrow> jsval \<Rightarrow> jsval \<Rightarrow> jsval \<Rightarrow> jsval \<Rightarrow> int \<Rightarrow> js_error + unit" where
  "validateEvidenceEnvelope engine policy preview launch evidence now =
     (let p = prop_of evidence in
      guards [
        exactKeys evidence [''schema'', ''previewId'', ''accountId'', ''region'', ''collectedAt'', ''tableCostControls'', ''cleanup''] ''post-compute evidence'',
        reject_if [differs (p ''schema'') (JStr ''eacl-demo.post-temporary-compute-evidence.v1''), differs (p ''previewId'') (prop_of preview ''previewId''),
            differs (p ''accountId'') (prop_of policy ''authorizedAccountId''), differs (p ''region'') (prop_of policy ''authorizedRegion'')]
          ''post-compute evidence identity mismatch'',
        reject_if [Inr (\<not> validTimestamp engine (p ''collectedAt''))] ''post-compute evidence time is invalid'',
        reject_if [Inr (time_order engine (p ''collectedAt'') (prop_of launch ''launchedAt'')),
            Inr (case dateParse engine (p ''collectedAt'') of None \<Rightarrow> False | Some t \<Rightarrow> now < t \<or> 15 * 60 * 1000 < now - t)]
          ''post-compute evidence is stale or out of sequence'',
        reject_if [Inr (\<not> is_array (p ''tableCostControls'')), Inr (1 < length (items (p ''tableCostControls'')))]
          ''post-compute table evidence scope is invalid''])"

definition required_alarms :: "jsval \<Rightarrow> string list" where
  "required_alarms phase = REQUIRED_SEED_ALARMS @ (if phase = JStr ''serving'' then [''unexpected-serving-write''] else [])"

definition validateAlarm :: "jsval \<Rightarrow> jsval \<Rightarrow> js_error + unit" where
  "validateAlarm table alarm =
     (let a = prop_of alarm; topic = prop_of table ''alarmTopicArn'' in
      guards [
        exactKeys alarm [''kind'', ''alarmName'', ''stateValue'', ''actionsEnabled'', ''alarmActions'', ''okActions''] ''DynamoDB alarm evidence'',
        reject_if [Inr (\<not> member_of (required_alarms (prop_of table ''phase'')) (a ''kind'')),
            differs (a ''alarmName'') (JStr (the_text (prop_of table ''tableName'') @ ''-'' @ the_text (a ''kind''))), differs (a ''stateValue'') (JStr ''OK''),
            differs (a ''actionsEnabled'') (JBool True), Inr (json (a ''alarmActions'') \<noteq> json (JArr [topic])), Inr (json (a ''okActions'') \<noteq> ''[]'')]
          ''DynamoDB alarm is missing, unhealthy, noisy, or misrouted''])"

definition validateTableEvidence :: "jsval \<Rightarrow> jsval \<Rightarrow> jsval \<Rightarrow> jsval list \<Rightarrow> js_error + unit" where
  "validateTableEvidence capPolicy durable topic tables =
     throw_if (length tables \<noteq> 1) (Error ''applicable DynamoDB table evidence is missing'')
     (let v = hd tables; p = prop_of v; phase = p ''phase''; i = prop_of durable ''profileId'';
          caps = prop_of (prop_of (prop_of (prop_of capPolicy ''profiles'') (the_text i)) (the_text phase));
          required = required_alarms phase; kinds = map (\<lambda>a. prop_of a ''kind'') (items (p ''alarms'')) in
      guards ([
        exactKeys v [''profileId'', ''tableName'', ''phase'', ''billingMode'', ''tableStatus'', ''maxReadRequestUnits'', ''maxWriteRequestUnits'',
          ''deletionProtectionEnabled'', ''pointInTimeRecoveryStatus'', ''alarmTopicArn'', ''alarms''] ''DynamoDB table cost-control evidence'',
        reject_if [differs (p ''profileId'') i, differs (p ''tableName'') (prop_of durable ''tableName''), Inr (\<not> member_of [''seed'', ''serving''] phase),
            differs (p ''billingMode'') (JStr ''PAY_PER_REQUEST''), differs (p ''tableStatus'') (JStr ''ACTIVE''),
            differs (p ''deletionProtectionEnabled'') (JBool True), differs (p ''pointInTimeRecoveryStatus'') (JStr ''ENABLED'')]
          ''DynamoDB table controls are not active on the authorized target'',
        reject_if [differs (p ''maxReadRequestUnits'') (caps ''maxReadRequestUnits''), differs (p ''maxWriteRequestUnits'') (caps ''maxWriteRequestUnits'')]
          ''DynamoDB table cap differs from the reviewed policy'',
        reject_if [mismatch (matches SNS_ARN) (p ''alarmTopicArn''), differs (p ''alarmTopicArn'') topic]
          ''DynamoDB alarms are not routed through the verified Telegram topic'',
        reject_if [Inr (\<not> is_array (p ''alarms'')), Inr (length (items (p ''alarms'')) \<noteq> length required)] ''DynamoDB alarm evidence is incomplete'']
      @ map (validateAlarm v) (items (p ''alarms''))
      @ [reject_if [Inr (sort (map the_str kinds) \<noteq> sort required), Inr (\<not> distinct kinds)] ''DynamoDB alarm kinds are not exact'']))"

definition requireEmptyIdentifiers :: "jsval \<Rightarrow> (string \<Rightarrow> bool) \<Rightarrow> string \<Rightarrow> js_error + unit" where
  "requireEmptyIdentifiers v P name =
     reject_if [Inr (\<not> is_array v), Inr (list_ex (\<lambda>x. \<not> str_satisfies P x) (items v)), Inr (items v \<noteq> [])] (name @ '' is not empty'')"

definition CLEANUP_KEYS :: "string list" where
  "CLEANUP_KEYS = [''terminationRequestedForInstanceId'', ''terminationRequestedAt'', ''instanceState'', ''instanceStateObservedAt'',
     ''matchingNonterminatedInstanceIds'', ''rootVolumeId'', ''rootVolumeState'', ''matchingBillableVolumeIds'', ''matchingElasticAddressAllocationIds'',
     ''temporaryRoleArn'', ''instanceProfileArn'', ''roleSessionsRevokedAt'', ''temporaryRoleExists'', ''instanceProfileExists'',
     ''temporaryRoleAttachedPolicyCount'', ''temporaryRoleInlinePolicyCount'']"

definition validateCleanupEvidence :: "(string \<Rightarrow> int option) \<Rightarrow> jsval \<Rightarrow> jsval \<Rightarrow> jsval \<Rightarrow> jsval \<Rightarrow> js_error + unit" where
  "validateCleanupEvidence engine preview launch v collectedAt =
     (let p = prop_of v; l = prop_of launch; times = map p [''terminationRequestedAt'', ''instanceStateObservedAt'', ''roleSessionsRevokedAt''] in
      guards ([
        exactKeys v CLEANUP_KEYS ''temporary-compute cleanup evidence'',
        reject_if [differs (p ''terminationRequestedForInstanceId'') (l ''instanceId''), differs (p ''rootVolumeId'') (l ''rootVolumeId''),
            Inr (\<not> member_of [''terminated'', ''absent''] (p ''instanceState'')), Inr (\<not> member_of [''deleted'', ''absent''] (p ''rootVolumeState''))]
          ''exact temporary instance or root volume remains billable'']
      @ map (\<lambda>t. reject_if [Inr (\<not> validTimestamp engine t), Inr (time_order engine t (l ''launchedAt''))] ''temporary-compute cleanup time is invalid'') times
      @ [reject_if [Inr (time_order engine (p ''instanceStateObservedAt'') (p ''terminationRequestedAt'')),
            Inr (time_order engine (p ''roleSessionsRevokedAt'') (p ''terminationRequestedAt''))] ''temporary-compute cleanup ordering is invalid'',
        reject_if [Inr (list_ex (time_order engine collectedAt) times)] ''temporary-compute cleanup evidence claims a future action'',
        requireEmptyIdentifiers (p ''matchingNonterminatedInstanceIds'') (matches (hex_id ''i-'')) ''matchingNonterminatedInstanceIds'',
        requireEmptyIdentifiers (p ''matchingBillableVolumeIds'') (matches (hex_id ''vol-'')) ''matchingBillableVolumeIds'',
        requireEmptyIdentifiers (p ''matchingElasticAddressAllocationIds'') (matches (hex_id ''eipalloc-'')) ''matchingElasticAddressAllocationIds'',
        reject_if [differs (p ''temporaryRoleArn'') (l ''temporaryRoleArn''), differs (p ''instanceProfileArn'') (l ''instanceProfileArn''),
            differs (p ''temporaryRoleExists'') (JBool False), differs (p ''instanceProfileExists'') (JBool False),
            differs (p ''temporaryRoleAttachedPolicyCount'') (JInt 0), differs (p ''temporaryRoleInlinePolicyCount'') (JInt 0)]
          ''temporary compute role or instance profile remains active'',
        reject_if [differs (l ''elasticIpAllocationId'') JNull, differs (prop_of (prop_of preview ''temporaryCompute'') ''elasticIpAllocationId'') JNull]
          ''temporary compute unexpectedly used an Elastic IP'']))"

definition validateCapPhase :: "jsval \<Rightarrow> js_error + unit" where
  "validateCapPhase phase = guards [
     exactKeys phase [''maxReadRequestUnits'', ''maxWriteRequestUnits''] ''DynamoDB cap phase'',
     reject_if [Inr (\<not> safe_int_between 1 250 (prop_of phase ''maxReadRequestUnits'')), Inr (\<not> safe_int_between 1 200 (prop_of phase ''maxWriteRequestUnits''))]
       ''DynamoDB cap exceeds the reviewed safety ceiling'']"

definition validateCapPolicy :: "jsval \<Rightarrow> js_error + unit" where
  "validateCapPolicy v =
     (let p = prop_of v in
      guards ([
        exactKeys v [''schemaVersion'', ''units'', ''profiles'', ''alarmThresholdPercent'', ''metricPeriodSeconds'', ''notes''] ''DynamoDB cap policy'',
        reject_if [differs (p ''schemaVersion'') (JInt 1), differs (p ''units'') (JStr ''request-units-per-second''),
            Inr (json (p ''alarmThresholdPercent'') \<noteq> ''[70,90]''), differs (p ''metricPeriodSeconds'') (JInt 60)] ''DynamoDB cap policy metadata changed'',
        exactKeys (p ''profiles'') [''datahike-dynamodb'', ''datomic-dynamodb''] ''DynamoDB cap profiles'']
      @ concat (map (\<lambda>(_, profile). exactKeys profile [''seed'', ''serving''] ''DynamoDB cap phases'' # map (\<lambda>(_, phase). validateCapPhase phase) (props profile))
          (props (p ''profiles'')))
      @ [reject_if [Inr (\<not> is_array (p ''notes'')), Inr (list_ex (\<lambda>x. \<not> is_string x) (items (p ''notes'')))] ''DynamoDB cap policy notes are invalid'']))"

definition verifyPostTemporaryComputeEvidence ::
    "(string \<Rightarrow> int option) \<Rightarrow> (string \<Rightarrow> string) \<Rightarrow> jsval \<Rightarrow> jsval \<Rightarrow> jsval \<Rightarrow> jsval \<Rightarrow> jsval \<Rightarrow> int option \<Rightarrow> js_error + jsval" where
  "verifyPostTemporaryComputeEvidence engine sha policy capPolicy preview launch evidence clock =
     bind_r (validateInitialStatefulAuthorization policy) (\<lambda>_. bind_r (validateCapPolicy capPolicy) (\<lambda>_.
     bind_r (validatePreview engine sha policy preview) (\<lambda>_.
     throw_if (\<not> truthy (prop_of preview ''temporaryCompute'')) (Error ''post-compute verification requires a temporary-compute preview'')
     (bind_r (validateLaunchResult engine policy preview launch) (\<lambda>_.
     case clock of
       None \<Rightarrow> Inl Type_Error
     | Some now \<Rightarrow>
         bind_r (validateEvidenceEnvelope engine policy preview launch evidence now) (\<lambda>_.
         bind_r (reject_if [differs (prop_of (prop_of preview ''costControls'') ''capPolicyDigest'') (JStr (stable_digest sha capPolicy))]
           ''post-compute cap policy differs from the authorized preflight policy'') (\<lambda>_.
         bind_r (case find_durable policy (prop_of preview ''profileId'') of
             Some durable \<Rightarrow> validateTableEvidence capPolicy durable (prop_of (prop_of preview ''telegramGate'') ''notificationTopicArn'')
               (items (prop_of evidence ''tableCostControls''))
           | None \<Rightarrow> reject_if [Inr (items (prop_of evidence ''tableCostControls'') \<noteq> [])] ''standalone compute evidence contains an unrelated table'') (\<lambda>_.
         bind_r (validateCleanupEvidence engine preview launch (prop_of evidence ''cleanup'') (prop_of evidence ''collectedAt'')) (\<lambda>_.
         Inr (JObj [(''schema'', JStr ''eacl-demo.post-temporary-compute-verification.v1''), (''verified'', JBool True),
           (''previewId'', prop_of preview ''previewId''), (''instanceId'', prop_of launch ''instanceId''),
           (''evidenceDigest'', JStr (stable_digest sha evidence)), (''verifiedAt'', prop_of evidence ''collectedAt'')]))))))))))"

subsection \<open>What a verification shows\<close>

lemma validTimestamp_time: "validTimestamp engine v \<Longrightarrow> \<exists>t. dateParse engine v = Some t"
  by (auto simp: validTimestamp_def dateParse_def split: jsval.splits option.splits)

text \<open>The times of the values are known and none is before the one it follows.\<close>

fun timeline :: "(string \<Rightarrow> int option) \<Rightarrow> jsval list \<Rightarrow> bool" where
  "timeline engine [] = True"
| "timeline engine [v] = (dateParse engine v \<noteq> None)"
| "timeline engine (v # w # vs) = (dateParse engine v \<noteq> None \<and> \<not> time_order engine w v \<and> timeline engine (w # vs))"

lemma cleanup_shown:
  assumes "validateCleanupEvidence engine preview launch v collectedAt = Inr ()" and "validTimestamp engine collectedAt"
    and "validTimestamp engine (prop_of launch ''launchedAt'')"
  shows "prop_of v ''instanceState'' \<in> {JStr ''terminated'', JStr ''absent''}" "prop_of v ''rootVolumeState'' \<in> {JStr ''deleted'', JStr ''absent''}"
    "strict_eq (prop_of v ''terminationRequestedForInstanceId'') (prop_of launch ''instanceId'')"
    "list_all (\<lambda>k. prop_of v k = JArr []) [''matchingNonterminatedInstanceIds'', ''matchingBillableVolumeIds'', ''matchingElasticAddressAllocationIds'']"
    "list_all (\<lambda>k. prop_of v k = JBool False) [''temporaryRoleExists'', ''instanceProfileExists'']"
    "timeline engine [prop_of launch ''launchedAt'', prop_of v ''terminationRequestedAt'', prop_of v ''instanceStateObservedAt'', collectedAt]"
    "timeline engine [prop_of v ''terminationRequestedAt'', prop_of v ''roleSessionsRevokedAt'', collectedAt]"
proof -
  have empty: "requireEmptyIdentifiers w P name = Inr () \<Longrightarrow> w = JArr []" for w P name
    by (cases w) (auto simp: requireEmptyIdentifiers_def guard_facts is_array_def)
  have "member_of [''terminated'', ''absent''] (prop_of v ''instanceState'')" "member_of [''deleted'', ''absent''] (prop_of v ''rootVolumeState'')"
    using assms(1) by (simp_all add: validateCleanupEvidence_def Let_def guard_facts)
  then show "prop_of v ''instanceState'' \<in> {JStr ''terminated'', JStr ''absent''}" "prop_of v ''rootVolumeState'' \<in> {JStr ''deleted'', JStr ''absent''}"
    by (auto simp: member_of_def str_satisfies_def split: jsval.splits)
  show "strict_eq (prop_of v ''terminationRequestedForInstanceId'') (prop_of launch ''instanceId'')"
    using assms(1) by (simp add: validateCleanupEvidence_def Let_def guard_facts)
  show "list_all (\<lambda>k. prop_of v k = JArr []) [''matchingNonterminatedInstanceIds'', ''matchingBillableVolumeIds'', ''matchingElasticAddressAllocationIds'']"
  proof -
    have "requireEmptyIdentifiers (prop_of v ''matchingNonterminatedInstanceIds'') (matches (hex_id ''i-'')) ''matchingNonterminatedInstanceIds'' = Inr ()"
      "requireEmptyIdentifiers (prop_of v ''matchingBillableVolumeIds'') (matches (hex_id ''vol-'')) ''matchingBillableVolumeIds'' = Inr ()"
      "requireEmptyIdentifiers (prop_of v ''matchingElasticAddressAllocationIds'') (matches (hex_id ''eipalloc-'')) ''matchingElasticAddressAllocationIds'' = Inr ()"
      using assms(1) by (simp_all add: validateCleanupEvidence_def Let_def guard_facts)
    from this [THEN empty] show ?thesis by simp
  qed
  show "list_all (\<lambda>k. prop_of v k = JBool False) [''temporaryRoleExists'', ''instanceProfileExists'']"
    using assms(1) by (simp add: validateCleanupEvidence_def Let_def guard_facts)
  have times: "list_all (\<lambda>k. validTimestamp engine (prop_of v k) \<and> \<not> time_order engine (prop_of v k) (prop_of launch ''launchedAt'')
        \<and> \<not> time_order engine collectedAt (prop_of v k)) [''terminationRequestedAt'', ''instanceStateObservedAt'', ''roleSessionsRevokedAt'']"
    "\<not> time_order engine (prop_of v ''instanceStateObservedAt'') (prop_of v ''terminationRequestedAt'')"
    "\<not> time_order engine (prop_of v ''roleSessionsRevokedAt'') (prop_of v ''terminationRequestedAt'')"
    using assms(1) by (simp_all add: validateCleanupEvidence_def Let_def guard_facts)
  show "timeline engine [prop_of launch ''launchedAt'', prop_of v ''terminationRequestedAt'', prop_of v ''instanceStateObservedAt'', collectedAt]"
    "timeline engine [prop_of v ''terminationRequestedAt'', prop_of v ''roleSessionsRevokedAt'', collectedAt]"
    using times assms(2,3) by (auto dest!: validTimestamp_time)
qed

text \<open>
  What ties a launch to the preview it was authorised by, and the evidence to both: the identifier of
  the preview, the account and the region, the tags of the machine and the window the preview opens.
\<close>

lemma launch_shown:
  assumes "validateLaunchResult engine policy preview launch = Inr ()"
  shows "validTimestamp engine (prop_of launch ''launchedAt'')"
    "list_all (\<lambda>k. strict_eq (prop_of launch k) (prop_of preview k)) [''previewId'', ''accountId'', ''region'']"
    "strict_eq (prop_of (prop_of launch ''tags'') ''AuthorizationId'') (prop_of preview ''previewId'')"
    "\<not> time_order engine (prop_of launch ''launchedAt'') (prop_of preview ''createdAt'')"
    "\<not> time_order engine (prop_of (prop_of preview ''temporaryCompute'') ''expiresAtTag'') (prop_of launch ''launchedAt'')"
  using assms by (simp_all add: validateLaunchResult_def Let_def guard_facts)

lemma evidence_shown:
  assumes "validateEvidenceEnvelope engine policy preview launch evidence now = Inr ()"
  shows "validTimestamp engine (prop_of evidence ''collectedAt'')"
    "strict_eq (prop_of evidence ''previewId'') (prop_of preview ''previewId'')"
    "strict_eq (prop_of evidence ''accountId'') (prop_of policy ''authorizedAccountId'')"
    "strict_eq (prop_of evidence ''region'') (prop_of policy ''authorizedRegion'')"
    "case dateParse engine (prop_of evidence ''collectedAt'') of None \<Rightarrow> True | Some t \<Rightarrow> t \<le> now \<and> now - t \<le> 15 * 60 * 1000"
  using assms by (auto simp: validateEvidenceEnvelope_def Let_def guard_facts split: option.splits)

lemma identities_shown:
  assumes "validateCleanupEvidence engine preview launch v collectedAt = Inr ()"
  shows "list_all (\<lambda>k. strict_eq (prop_of v k) (prop_of launch k)) [''rootVolumeId'', ''temporaryRoleArn'', ''instanceProfileArn'']"
    "list_all (\<lambda>k. strict_eq (prop_of v k) (JInt 0)) [''temporaryRoleAttachedPolicyCount'', ''temporaryRoleInlinePolicyCount'']"
  using assms by (simp_all add: validateCleanupEvidence_def Let_def guard_facts)

text \<open>
  C40 A passed verification is about exactly the authorised run. The preview prints like the one the
  policy produces from its request at its creation time (so its expiry cannot be forged here), and its
  identifier is the digest of its content. The launch result carries that identifier, its account and
  its region, in its tags too, and lies between the preview's creation and the expiry of the machine;
  the evidence carries the same identifier and the policy's account and region. The evidence was
  collected at most fifteen minutes ago and after the machine was launched, asked to terminate and
  seen terminated, in that order, and after its role's sessions were revoked; the machine it was asked
  to terminate and the root volume are the launched ones, the machine is terminated and the volume
  deleted, nothing billable is left, the launched role and instance profile are gone with no policy
  left on them, and the result names the preview, the launched machine and the digest of the evidence.
\<close>

theorem verified_run_is_cleaned_up:
  "case verifyPostTemporaryComputeEvidence engine sha policy capPolicy preview launch evidence (Some now) of
     Inl e \<Rightarrow> True
   | Inr result \<Rightarrow>
       let cleanup = prop_of evidence ''cleanup''; collected = prop_of evidence ''collectedAt''; id = prop_of preview ''previewId'' in
       (case recreated_preview engine sha policy preview of Inl e \<Rightarrow> False | Inr genuine \<Rightarrow> stable_json preview = stable_json genuine)
       \<and> strict_eq (JStr (stable_digest sha (without SEAL preview))) id
       \<and> list_all (\<lambda>k. strict_eq (prop_of launch k) (prop_of preview k)) [''previewId'', ''accountId'', ''region'']
       \<and> strict_eq (prop_of (prop_of launch ''tags'') ''AuthorizationId'') id
       \<and> \<not> time_order engine (prop_of launch ''launchedAt'') (prop_of preview ''createdAt'')
       \<and> \<not> time_order engine (prop_of (prop_of preview ''temporaryCompute'') ''expiresAtTag'') (prop_of launch ''launchedAt'')
       \<and> strict_eq (prop_of evidence ''previewId'') id
       \<and> strict_eq (prop_of evidence ''accountId'') (prop_of policy ''authorizedAccountId'')
       \<and> strict_eq (prop_of evidence ''region'') (prop_of policy ''authorizedRegion'')
       \<and> timeline engine [prop_of launch ''launchedAt'', prop_of cleanup ''terminationRequestedAt'', prop_of cleanup ''instanceStateObservedAt'', collected]
       \<and> timeline engine [prop_of cleanup ''terminationRequestedAt'', prop_of cleanup ''roleSessionsRevokedAt'', collected]
       \<and> (case dateParse engine collected of None \<Rightarrow> False | Some t \<Rightarrow> t \<le> now \<and> now \<le> t + 15 * 60 * 1000)
       \<and> strict_eq (prop_of cleanup ''terminationRequestedForInstanceId'') (prop_of launch ''instanceId'')
       \<and> list_all (\<lambda>k. strict_eq (prop_of cleanup k) (prop_of launch k)) [''rootVolumeId'', ''temporaryRoleArn'', ''instanceProfileArn'']
       \<and> prop_of cleanup ''instanceState'' \<in> {JStr ''terminated'', JStr ''absent''}
       \<and> prop_of cleanup ''rootVolumeState'' \<in> {JStr ''deleted'', JStr ''absent''}
       \<and> list_all (\<lambda>k. prop_of cleanup k = JArr []) [''matchingNonterminatedInstanceIds'', ''matchingBillableVolumeIds'', ''matchingElasticAddressAllocationIds'']
       \<and> list_all (\<lambda>k. prop_of cleanup k = JBool False) [''temporaryRoleExists'', ''instanceProfileExists'']
       \<and> list_all (\<lambda>k. strict_eq (prop_of cleanup k) (JInt 0)) [''temporaryRoleAttachedPolicyCount'', ''temporaryRoleInlinePolicyCount'']
       \<and> prop_of result ''previewId'' = id \<and> prop_of result ''instanceId'' = prop_of launch ''instanceId''
       \<and> prop_of result ''evidenceDigest'' = JStr (stable_digest sha evidence)"
proof (cases "verifyPostTemporaryComputeEvidence engine sha policy capPolicy preview launch evidence (Some now)")
  case (Inr result)
  then have pre: "validatePreview engine sha policy preview = Inr ()" and launched: "validateLaunchResult engine policy preview launch = Inr ()"
    and env: "validateEvidenceEnvelope engine policy preview launch evidence now = Inr ()"
    and clean: "validateCleanupEvidence engine preview launch (prop_of evidence ''cleanup'') (prop_of evidence ''collectedAt'') = Inr ()"
    and result: "result = JObj [(''schema'', JStr ''eacl-demo.post-temporary-compute-verification.v1''), (''verified'', JBool True),
           (''previewId'', prop_of preview ''previewId''), (''instanceId'', prop_of launch ''instanceId''),
           (''evidenceDigest'', JStr (stable_digest sha evidence)), (''verifiedAt'', prop_of evidence ''collectedAt'')]"
    by (auto simp: verifyPostTemporaryComputeEvidence_def split: if_splits)
  note collected = evidence_shown(1) [OF env] and age = evidence_shown(5) [OF env]
  note shown = launch_shown(2-) [OF launched] evidence_shown(2-4) [OF env] identities_shown [OF clean]
    cleanup_shown [OF clean collected launch_shown(1) [OF launched]]
  obtain t where "dateParse engine (prop_of evidence ''collectedAt'') = Some t" using validTimestamp_time [OF collected] by blast
  moreover obtain genuine where "recreated_preview engine sha policy preview = Inr genuine" "stable_json preview = stable_json genuine"
    using pre by (auto simp: validatePreview_def Let_def guard_facts)
  moreover have "strict_eq (JStr (stable_digest sha (without SEAL preview))) (prop_of preview ''previewId'')"
    using pre by (simp add: validatePreview_def Let_def guard_facts)
  ultimately show ?thesis
    using shown age by (simp add: Inr Let_def) (simp add: result prop_of_def)
qed simp

end
