(* ===== verification/Post_Compute_Run.thy ===== *)
theory Post_Compute_Run
  imports Post_Compute
begin

text \<open>
  A run that is verified: the repository's own policy and caps (\<open>infra/data\<close>, the notes of the caps
  shortened), the standalone build of its test (\<open>post-compute.test.mjs\<close>), and a hash that is constant. The preview is created, the machine
  launched a minute later and gone eight minutes later, and the verification ten minutes after the
  creation passes; so the properties of the verification are not about rejections only.
\<close>

definition sample_policy :: jsval where
  "sample_policy =
     JObj [(''schema'', JStr ''eacl-demo.initial-stateful-authorization.v1''), (''authorizationStatus'', JStr ''user-approved''),
     (''authorizedAccountId'', JStr ''843761893873''), (''authorizedRegion'', JStr ''us-east-1''), (''authorizedRepositoryId'', JStr ''1345904214''),
     (''authorizedRef'', JStr ''refs/heads/production''), (''scope'', JObj [(''durableGenerations'', JArr [JObj [(''profileId'', JStr
     ''datahike-dynamodb''), (''tableName'', JStr ''eacl-demo-datahike-fixture-v1-green''), (''generationId'', JStr ''fixture-v1-green''),
     (''maximumNewGenerations'', JInt 1), (''logicalResourceCount'', JInt 1000000), (''operations'', JArr [JStr ''create-table'', JStr ''seed'', JStr
     ''verify'', JStr ''backup'', JStr ''publish''])], JObj [(''profileId'', JStr ''datomic-dynamodb''), (''tableName'', JStr
     ''eacl-demo-datomic-fixture-v1-green''), (''generationId'', JStr ''fixture-v1-green''), (''maximumNewGenerations'', JInt 1),
     (''logicalResourceCount'', JInt 1000000), (''operations'', JArr [JStr ''create-table'', JStr ''seed'', JStr ''verify'', JStr ''backup'', JStr
     ''publish''])]]), (''temporaryCompute'', JObj [(''purposes'', JArr [JStr ''datahike-seed'', JStr ''datomic-seed'', JStr ''datomic-transactor'',
     JStr ''jank-build'']), (''profilePurposes'', JObj [(''datahike-dynamodb'', JArr [JStr ''datahike-seed'']), (''datomic-dynamodb'', JArr [JStr
     ''datomic-seed'', JStr ''datomic-transactor'']), (''jank-memory'', JArr [JStr ''jank-build''])]), (''standalonePurposes'', JArr [JStr
     ''jank-build'']), (''maximumConcurrentInstances'', JInt 1), (''maximumVcpus'', JInt 8), (''maximumMemoryGiB'', JInt 32),
     (''maximumRuntimeMinutes'', JInt 360), (''maximumRootVolumeGiB'', JInt 80), (''maximumForecastUsdPerRun'', JInt 15), (''requireNoInboundRules'',
     JBool True), (''requireImdsV2'', JBool True), (''requireNoElasticIp'', JBool True), (''requireTerminationByExactInstanceId'', JBool True)])]),
     (''requiredBeforeExecution'', JArr [JStr ''fresh-exact-target-preview'', JStr ''exact-account-and-region-match'', JStr ''cost-controls-active'',
     JStr ''telegram-path-healthy'', JStr ''typed-confirmation'']), (''requiredAfterTemporaryCompute'', JArr [JStr
     ''terminate-launch-result-instance-id-noninteractively'', JStr ''verify-no-active-instance'', JStr ''verify-no-orphan-volume'', JStr
     ''verify-no-elastic-address'', JStr ''verify-temporary-role-inactive'']), (''explicitlyExcluded'', JArr [JStr
     ''ordinary-main-branch-deployment'', JStr ''additional-durable-generations'', JStr ''active-dataset-mutation'', JStr ''resource-deletion'', JStr
     ''legacy-retirement'', JStr ''production-dns-cutover'', JStr ''customer-managed-kms''])]"

definition sample_caps :: jsval where
  "sample_caps =
     JObj [(''schemaVersion'', JInt 1), (''units'', JStr ''request-units-per-second''), (''profiles'', JObj [(''datahike-dynamodb'', JObj [(''seed'',
     JObj [(''maxReadRequestUnits'', JInt 250), (''maxWriteRequestUnits'', JInt 200)]), (''serving'', JObj [(''maxReadRequestUnits'', JInt 250),
     (''maxWriteRequestUnits'', JInt 1)])]), (''datomic-dynamodb'', JObj [(''seed'', JObj [(''maxReadRequestUnits'', JInt 250),
     (''maxWriteRequestUnits'', JInt 200)]), (''serving'', JObj [(''maxReadRequestUnits'', JInt 250), (''maxWriteRequestUnits'', JInt 1)])])]),
     (''alarmThresholdPercent'', JArr [JInt 70, JInt 90]), (''metricPeriodSeconds'', JInt 60), (''notes'', JArr [JStr ''n''])]"

definition sample_request :: jsval where
  "sample_request =
     JObj [(''accountId'', JStr ''843761893873''), (''region'', JStr ''us-east-1''), (''repositoryId'', JStr ''1345904214''), (''ref'', JStr
     ''refs/heads/production''), (''profileId'', JStr ''jank-memory''), (''operation'', JStr ''launch-temporary-compute''), (''workloadDigest'', JStr
     ''sha256:aaaaaaaaaaaaaaaaaaaaaaaaaaaaaaaaaaaaaaaaaaaaaaaaaaaaaaaaaaaaaaaa''), (''costControls'', JObj [(''verified'', JBool True),
     (''evidenceId'', JStr ''sha256:aaaaaaaaaaaaaaaaaaaaaaaaaaaaaaaaaaaaaaaaaaaaaaaaaaaaaaaaaaaaaaaa''), (''verifiedAt'', JStr
     ''2026-08-25T11:55:00Z''), (''capPolicyDigest'', JStr ''sha256:aaaaaaaaaaaaaaaaaaaaaaaaaaaaaaaaaaaaaaaaaaaaaaaaaaaaaaaaaaaaaaaa'')]),
     (''telegramGate'', JObj [(''verified'', JBool True), (''evidenceId'', JStr
     ''sha256:aaaaaaaaaaaaaaaaaaaaaaaaaaaaaaaaaaaaaaaaaaaaaaaaaaaaaaaaaaaaaaaa''), (''verifiedAt'', JStr ''2026-08-25T11:55:00Z''),
     (''notificationTopicArn'', JStr ''arn:aws:sns:us-east-1:843761893873:eacl-demo-alerts'')]), (''temporaryCompute'', JObj [(''purpose'', JStr
     ''jank-build''), (''amiId'', JStr ''ami-0123456789abcdef0''), (''instanceType'', JStr ''m7i.2xlarge''), (''vcpus'', JInt 8), (''memoryGiB'', JInt
     32), (''runtimeMinutes'', JInt 180), (''rootVolumeGiB'', JInt 40), (''forecastUsd'', JNum ''4.5''), (''subnetId'', JStr
     ''subnet-0123456789abcdef0''), (''securityGroupId'', JStr ''sg-0123456789abcdef0''), (''instanceProfileArn'', JStr
     ''arn:aws:iam::843761893873:instance-profile/eacl-demo-jank-build''), (''inboundRules'', JArr []), (''metadataTokens'', JStr ''required''),
     (''associatePublicIpAddress'', JBool False), (''elasticIpAllocationId'', JNull), (''expiresAtTag'', JStr ''2026-08-25T14:00:00.000Z'')])]"

definition sample_launch :: jsval where
  "sample_launch =
     JObj [(''schema'', JStr ''eacl-demo.temporary-compute-launch-result.v1''), (''previewId'', JStr
     ''sha256:aaaaaaaaaaaaaaaaaaaaaaaaaaaaaaaaaaaaaaaaaaaaaaaaaaaaaaaaaaaaaaaa''), (''accountId'', JStr ''843761893873''), (''region'', JStr
     ''us-east-1''), (''instanceId'', JStr ''i-0123456789abcdef0''), (''rootVolumeId'', JStr ''vol-0123456789abcdef0''), (''elasticIpAllocationId'',
     JNull), (''temporaryRoleArn'', JStr ''arn:aws:iam::843761893873:role/eacl-demo-jank-build''), (''instanceProfileArn'', JStr
     ''arn:aws:iam::843761893873:instance-profile/eacl-demo-jank-build''), (''launchedAt'', JStr ''2026-08-25T12:01:00.000Z''), (''tags'', JObj
     [(''Project'', JStr ''eacl-demo''), (''Lifecycle'', JStr ''temporary''), (''ManagedBy'', JStr ''eacl-demo-temp-watchdog''), (''Owner'', JStr
     ''theronic/eacl-demo''), (''Purpose'', JStr ''jank-build''), (''AuthorizationId'', JStr
     ''sha256:aaaaaaaaaaaaaaaaaaaaaaaaaaaaaaaaaaaaaaaaaaaaaaaaaaaaaaaaaaaaaaaa''), (''ExpiresAt'', JStr ''2026-08-25T14:00:00.000Z'')])]"

definition sample_evidence :: jsval where
  "sample_evidence =
     JObj [(''schema'', JStr ''eacl-demo.post-temporary-compute-evidence.v1''), (''previewId'', JStr
     ''sha256:aaaaaaaaaaaaaaaaaaaaaaaaaaaaaaaaaaaaaaaaaaaaaaaaaaaaaaaaaaaaaaaa''), (''accountId'', JStr ''843761893873''), (''region'', JStr
     ''us-east-1''), (''collectedAt'', JStr ''2026-08-25T12:09:00.000Z''), (''tableCostControls'', JArr []), (''cleanup'', JObj
     [(''terminationRequestedForInstanceId'', JStr ''i-0123456789abcdef0''), (''terminationRequestedAt'', JStr ''2026-08-25T12:05:00.000Z''),
     (''instanceState'', JStr ''terminated''), (''instanceStateObservedAt'', JStr ''2026-08-25T12:08:00.000Z''),
     (''matchingNonterminatedInstanceIds'', JArr []), (''rootVolumeId'', JStr ''vol-0123456789abcdef0''), (''rootVolumeState'', JStr ''deleted''),
     (''matchingBillableVolumeIds'', JArr []), (''matchingElasticAddressAllocationIds'', JArr []), (''temporaryRoleArn'', JStr
     ''arn:aws:iam::843761893873:role/eacl-demo-jank-build''), (''instanceProfileArn'', JStr
     ''arn:aws:iam::843761893873:instance-profile/eacl-demo-jank-build''), (''roleSessionsRevokedAt'', JStr ''2026-08-25T12:06:00.000Z''),
     (''temporaryRoleExists'', JBool False), (''instanceProfileExists'', JBool False), (''temporaryRoleAttachedPolicyCount'', JInt 0),
     (''temporaryRoleInlinePolicyCount'', JInt 0)])]"

definition sample_preview :: jsval where
  "sample_preview =
     JObj [(''schema'', JStr ''eacl-demo.temporary-compute-execution-preview.v1''), (''previewId'', JStr
     ''sha256:aaaaaaaaaaaaaaaaaaaaaaaaaaaaaaaaaaaaaaaaaaaaaaaaaaaaaaaaaaaaaaaa''), (''accountId'', JStr ''843761893873''), (''region'', JStr
     ''us-east-1''), (''repositoryId'', JStr ''1345904214''), (''ref'', JStr ''refs/heads/production''), (''profileId'', JStr ''jank-memory''),
     (''operation'', JStr ''launch-temporary-compute''), (''workloadDigest'', JStr
     ''sha256:aaaaaaaaaaaaaaaaaaaaaaaaaaaaaaaaaaaaaaaaaaaaaaaaaaaaaaaaaaaaaaaa''), (''costControls'', JObj [(''verified'', JBool True),
     (''evidenceId'', JStr ''sha256:aaaaaaaaaaaaaaaaaaaaaaaaaaaaaaaaaaaaaaaaaaaaaaaaaaaaaaaaaaaaaaaa''), (''verifiedAt'', JStr
     ''2026-08-25T11:55:00Z''), (''capPolicyDigest'', JStr ''sha256:aaaaaaaaaaaaaaaaaaaaaaaaaaaaaaaaaaaaaaaaaaaaaaaaaaaaaaaaaaaaaaaa'')]),
     (''telegramGate'', JObj [(''verified'', JBool True), (''evidenceId'', JStr
     ''sha256:aaaaaaaaaaaaaaaaaaaaaaaaaaaaaaaaaaaaaaaaaaaaaaaaaaaaaaaaaaaaaaaa''), (''verifiedAt'', JStr ''2026-08-25T11:55:00Z''),
     (''notificationTopicArn'', JStr ''arn:aws:sns:us-east-1:843761893873:eacl-demo-alerts'')]), (''temporaryCompute'', JObj [(''purpose'', JStr
     ''jank-build''), (''amiId'', JStr ''ami-0123456789abcdef0''), (''instanceType'', JStr ''m7i.2xlarge''), (''vcpus'', JInt 8), (''memoryGiB'', JInt
     32), (''runtimeMinutes'', JInt 180), (''rootVolumeGiB'', JInt 40), (''forecastUsd'', JNum ''4.5''), (''subnetId'', JStr
     ''subnet-0123456789abcdef0''), (''securityGroupId'', JStr ''sg-0123456789abcdef0''), (''instanceProfileArn'', JStr
     ''arn:aws:iam::843761893873:instance-profile/eacl-demo-jank-build''), (''inboundRules'', JArr []), (''metadataTokens'', JStr ''required''),
     (''associatePublicIpAddress'', JBool False), (''elasticIpAllocationId'', JNull), (''expiresAtTag'', JStr ''2026-08-25T14:00:00.000Z'')]),
     (''authorizationPolicyDigest'', JStr ''sha256:aaaaaaaaaaaaaaaaaaaaaaaaaaaaaaaaaaaaaaaaaaaaaaaaaaaaaaaaaaaaaaaa''), (''createdAt'', JStr
     ''2026-08-25T12:00:00.000Z''), (''expiresAt'', JStr ''2026-08-25T12:30:00.000Z''), (''confirmation'', JStr
     ''EXECUTE:launch-temporary-compute:jank-memory:sha256:aaaaaaaaaaaaaaaaaaaaaaaaaaaaaaaaaaaaaaaaaaaaaaaaaaaaaaaaaaaaaaaa:sha256:aaaaaaaaaaaaaaaaaaaaaaaaaaaaaaaaaaaaaaaaaaaaaaaaaaaaaaaaaaaaaaaa''),
     (''cleanup'', JObj [(''terminateBy'', JStr ''launch-result-instance-id''), (''noninteractive'', JBool True), (''verify'', JArr [JStr
     ''terminate-launch-result-instance-id-noninteractively'', JStr ''verify-no-active-instance'', JStr ''verify-no-orphan-volume'', JStr
     ''verify-no-elastic-address'', JStr ''verify-temporary-role-inactive''])])]"

definition sample_hash :: "string \<Rightarrow> string" where
  "sample_hash s = replicate 64 (CHR ''a'')"

definition sample_digest :: string where
  "sample_digest = ''sha256:'' @ replicate 64 (CHR ''a'')"

lemma sample_digest_eq: "stable_digest sample_hash v = sample_digest" by (simp add: stable_digest_def sample_hash_def sample_digest_def)

lemma sample_policy_valid: "validateInitialStatefulAuthorization sample_policy = Inr sample_policy"
  by code_simp

lemma sample_request_keys: "exactKeys sample_request COMPUTE_KEYS ''temporary compute request'' = Inr ()"
  by code_simp

lemma sample_compute_guards: "compute_guards (\<lambda>_. None) sample_policy (prop_of sample_request) 1787659200000 = Inr ()"
  by code_simp

lemma sample_created: "iso_r 1787659200000 = Inr ''2026-08-25T12:00:00.000Z''"
  by code_simp

lemma sample_expiry: "expiry_text (\<lambda>_. None) ''2026-08-25T12:00:00.000Z'' = Inr ''2026-08-25T12:30:00.000Z''"
  by code_simp

definition sample_sealed :: "string \<Rightarrow> jsval" where
  "sample_sealed d = (let request = sample_request; payload = spread [request, JObj [(''authorizationPolicyDigest'', JStr d), (''createdAt'',
    JStr ''2026-08-25T12:00:00.000Z''), (''expiresAt'', JStr ''2026-08-25T12:30:00.000Z'')]] in
     spread [JObj [(''schema'', JStr COMPUTE_PREVIEW), (''previewId'', JStr d)], payload,
        JObj [(''confirmation'', JStr (join '':'' (''EXECUTE'' # map (\<lambda>k. the_text (prop_of payload k)) [''operation'', ''profileId'',
    ''workloadDigest''] @ [d]))),
          (''cleanup'', cleanup_plan sample_policy)]])"

lemma sample_sealed_eq: "sample_sealed sample_digest = sample_preview"
  by code_simp

lemma sample_preview_created: "createAuthorizedComputePreview (\<lambda>_. None) sample_hash sample_policy sample_request (Some 1787659200000) =
    Inr sample_preview"
  unfolding sample_sealed_eq [symmetric] sample_sealed_def
  by (simp only: createAuthorizedComputePreview_def sample_policy_valid sample_request_keys sample_compute_guards sample_created sample_expiry
    bind_r_simps option.case sealed_preview_def preview_payload_def sample_digest_eq Let_def list.map append.simps)

lemma sample_request_picked: "pick sample_preview COMPUTE_KEYS = sample_request"
  by code_simp

lemma sample_created_at: "new_date (\<lambda>_. None) (prop_of sample_preview ''createdAt'') = Some 1787659200000"
  by code_simp

lemma sample_not_stateful: "prop_of sample_preview ''schema'' = JStr STATEFUL_PREVIEW \<longleftrightarrow> False"
  by code_simp

lemma sample_preview_recreated: "recreated_preview (\<lambda>_. None) sample_hash sample_policy sample_preview = Inr sample_preview"
  by (simp only: recreated_preview_def sample_request_picked sample_created_at sample_not_stateful sample_preview_created Let_def if_False)

lemma sample_preview_guards: "guards [
        reject_if [Inr (\<not> truthy sample_preview), Inr (\<not> member_of [STATEFUL_PREVIEW, COMPUTE_PREVIEW] (prop_of sample_preview
    ''schema'')), mismatch sha256_ref (prop_of sample_preview ''previewId'')]
          ''temporary-compute preview is invalid'',
        reject_if [differs (prop_of sample_preview ''authorizationPolicyDigest'') (JStr sample_digest)]
    ''temporary-compute preview authorization policy changed'',
        reject_if [differs (JStr sample_digest) (prop_of sample_preview ''previewId'')] ''temporary-compute preview was modified'',
        reject_if [differs (prop_of sample_preview ''confirmation'') (JStr (expected_confirmation sample_preview))]
    ''temporary-compute confirmation binding is invalid'',
        reject_if [Inr (\<not> truthy (prop_of sample_preview ''cleanup'')), differs (prop_of (prop_of sample_preview ''cleanup'')
    ''terminateBy'') (JStr ''launch-result-instance-id''),
            differs (prop_of (prop_of sample_preview ''cleanup'') ''noninteractive'') (JBool True),
            Inr (json (prop_of (prop_of sample_preview ''cleanup'') ''verify'') \<noteq> json (prop_of sample_policy
    ''requiredAfterTemporaryCompute''))]
          ''temporary-compute cleanup contract changed''] = Inr ()"
  by code_simp

lemma sample_preview_valid: "validatePreview (\<lambda>_. None) sample_hash sample_policy sample_preview = Inr ()"
  by (simp only: validatePreview_def sample_digest_eq Let_def sample_preview_guards bind_r_simps sample_preview_recreated) (simp add: guard_facts)

lemma sample_caps_valid: "validateCapPolicy sample_caps = Inr ()"
  by code_simp

lemma sample_launch_valid: "validateLaunchResult (\<lambda>_. None) sample_policy sample_preview sample_launch = Inr ()"
  by code_simp

lemma sample_evidence_valid: "validateEvidenceEnvelope (\<lambda>_. None) sample_policy sample_preview sample_launch sample_evidence
    1787659800000 = Inr ()"
  by code_simp

lemma sample_cleanup_valid: "validateCleanupEvidence (\<lambda>_. None) sample_preview sample_launch (prop_of sample_evidence ''cleanup'')
    (prop_of sample_evidence ''collectedAt'') = Inr ()"
  by code_simp

lemma sample_no_table: "find_durable sample_policy (prop_of sample_preview ''profileId'') = None"
  by code_simp

lemma sample_compute_only: "truthy (prop_of sample_preview ''temporaryCompute'')" "items (prop_of sample_evidence ''tableCostControls'') = []"
  by code_simp+

lemma sample_caps_digest: "reject_if [differs (prop_of (prop_of sample_preview ''costControls'') ''capPolicyDigest'') (JStr sample_digest)]
    ''post-compute cap policy differs from the authorized preflight policy'' = Inr ()"
  by code_simp

lemma sample_run_verified: "\<exists>result. verifyPostTemporaryComputeEvidence (\<lambda>_. None) sample_hash sample_policy sample_caps
    sample_preview sample_launch sample_evidence (Some 1787659800000) = Inr result"
  by (simp add: verifyPostTemporaryComputeEvidence_def sample_policy_valid sample_caps_valid sample_preview_valid sample_launch_valid
    sample_evidence_valid sample_cleanup_valid sample_no_table sample_compute_only sample_caps_digest sample_digest_eq) (simp add: guard_facts)

end
