(* ===== verification/Profile_Api_Facts.thy ===== *)
theory Profile_Api_Facts
  imports Profile_Api "HOL-Library.Multiset"
begin

text \<open>
  What the presentation of \<open>profile-api.ts\<close> promises: consistency modes a panel is offered are
  advertised ones, the paths to children are those of the schema, pages of subjects follow one another;
  and what a refresh does not: a schema asked for before it may come back after it.
\<close>

subsection \<open>Consistency and schema\<close>

lemma includes_mem: "includes_value ms (JStr s) \<longleftrightarrow> JStr s \<in> set ms"
  by (auto simp: includes_value_def list_ex_iff)

text \<open>
  Every mode a panel is offered is sent to the server as a mode its descriptor advertises, and the one
  that is presented so; with a date it may be the historical one.
\<close>

theorem offered_consistency_is_advertised:
  "case modes_r d of
     Inl e \<Rightarrow> True
   | Inr modes \<Rightarrow> list_all (\<lambda>m. case preferredConsistency d m historicalDate of
         Inl e \<Rightarrow> False
       | Inr w \<Rightarrow> includes_value modes w \<and> (presentConsistency w = m \<or> w = JStr ''historical-date'' \<and> historicalDate \<and> m = JStr ''at-exact-snapshot'')) (supported_modes modes)"
proof (cases "modes_r d")
  case (Inr modes)
  have "case preferredConsistency d m historicalDate of Inl e \<Rightarrow> False
       | Inr w \<Rightarrow> includes_value modes w \<and> (presentConsistency w = m \<or> w = JStr ''historical-date'' \<and> historicalDate \<and> m = JStr ''at-exact-snapshot'')"
    if "m \<in> set (supported_modes modes)" for m
  proof -
    from that obtain v where v: "v \<in> set modes" "presentConsistency v = m" "m \<noteq> JNull" by (auto simp: supported_modes_def)
    then consider "v = JStr ''minimize''" "m = JStr ''minimize-latency''" | "v = JStr ''at-least''" "m = JStr ''at-least-as-fresh''"
      | "v = JStr ''exact''" "m = JStr ''at-exact-snapshot''" | "v = JStr ''authoritative''" "m = JStr ''fully-consistent''"
      by (auto simp: presentConsistency_def split: if_splits)
    then show ?thesis using v(1)
      by cases (simp_all add: preferredConsistency_def Inr requested_mode_def Let_def includes_mem presentConsistency_def)
  qed
  then show ?thesis by (simp add: Inr list_all_iff)
qed simp

lemma map_of_add_child:
  "map_of (add_child l m) k = (if the_text (fst (snd l)) = k
     then Some ((case map_of m k of None \<Rightarrow> [] | Some ps \<Rightarrow> ps) @ [JObj [(''resourceType'', fst l), (''relation'', snd (snd l))]]) else map_of m k)"
  by (cases l) (simp add: add_child_def update_conv')

definition child_objects :: "string \<Rightarrow> (jsval \<times> jsval \<times> jsval) list \<Rightarrow> jsval list" where
  "child_objects k ls = map (\<lambda>(ty, st, r). JObj [(''resourceType'', ty), (''relation'', r)]) (filter (\<lambda>(ty, st, r). the_text st = k) ls)"

lemma child_objects_simps [simp]:
  "child_objects k [] = []"
  "child_objects k ((ty, st, r) # ls) = (if the_text st = k then JObj [(''resourceType'', ty), (''relation'', r)] # child_objects k ls else child_objects k ls)"
  by (simp_all add: child_objects_def)

lemma map_of_add_children:
  "map_of (fold add_child ls m) k = (if child_objects k ls = [] then map_of m k
     else Some ((case map_of m k of None \<Rightarrow> [] | Some ps \<Rightarrow> ps) @ child_objects k ls))"
proof (induction ls arbitrary: m)
  case (Cons l ls)
  obtain ty st r where l: "l = (ty, st, r)" by (cases l) auto
  show ?case by (cases "the_text st = k") (simp_all add: l Cons.IH map_of_add_child)
qed simp

lemma distinct_add_children: "distinct (map fst m) \<Longrightarrow> distinct (map fst (fold add_child ls m))"
  by (induction ls arbitrary: m) (simp_all add: add_child_def distinct_update split: prod.split)

text \<open>
  The children of a type are exactly the relations of the schema whose subjects it can be, each as often
  as the schema names it; only a name every object inherits makes the presentation fail.
\<close>

theorem child_paths_complete:
  "case child_paths collate types of
     Inl e \<Rightarrow> list_ex (\<lambda>(ty, st, r). the_text st \<in> set INHERITED) (links_of types)
   | Inr paths \<Rightarrow> mset (case map_of paths k of None \<Rightarrow> [] | Some ps \<Rightarrow> ps) = mset (child_objects k (links_of types))
       \<and> (map_of paths k = None \<longleftrightarrow> child_objects k (links_of types) = [])"
proof (cases "list_ex (\<lambda>(ty, st, r). the_text st \<in> set INHERITED) (links_of types)")
  case False
  have "map_of (own_order (fold add_child (links_of types) [])) k
      = (if child_objects k (links_of types) = [] then None else Some (child_objects k (links_of types)))"
    by (simp add: map_of_own_order distinct_add_children map_of_add_children)
  with False show ?thesis by (simp add: child_paths_def map_of_map)
qed (simp add: child_paths_def)

subsection \<open>Pages of subjects\<close>

lemma cursors_for_again: "cursors_for limit s = (a, t) \<Longrightarrow> cursors_for limit t = (a, t) \<and> cursors_for limit (note_cursor a i c t) = (a, note_cursor a i c t)"
  by (auto simp: cursors_for_def note_cursor_def split: option.splits)

lemma cursors_for_valid: "cursors_for limit s = (a, t) \<Longrightarrow> api_ok s \<Longrightarrow> a < length (cursor_maps t)"
  by (auto simp: cursors_for_def api_ok_def ran_def split: option.splits)

lemma alone_wire:
  assumes "alone (awaiting (wire operation input) f s) [Inr result, turn] = ((calls, Some (Inr e)), t)"
  shows "\<exists>ws. alone (f result s) [] = ((ws, Some (Inr e)), t)"
  using assms
  by (auto simp: wire_def awaiting_def asks_def settles_def case_prod_beta prod_eq_iff split: sum.splits if_splits)

lemma subjects_answer_run:
  assumes "alone (subjects_answer a offset result s) [] = ((ws, Some (Inr e)), t)"
    "prop_of (prop_of result ''data'') ''pageInfo'' = info" "truthy (prop_of info ''hasNextPage'')" "truthy (prop_of info ''endCursor'')"
  shows "t = note_cursor a (offset + int (length (items (prop_of (prop_of result ''data'') ''items'')))) (prop_of info ''endCursor'') s"
  using assms
  by (auto simp: subjects_answer_def awaiting_def returns_def writes_def field_def list_r_def split: sum.splits if_splits jsval.splits)

text \<open>
  After a page that has a next one, a request at the offset the page announced, with the same page
  size, continues at that page's cursor.
\<close>

theorem next_page_continues:
  "case alone (subjects_route env q s) [Inr result, turn] of
     ((calls, Some (Inr e)), t) \<Rightarrow>
       let data = prop_of result ''data''; info = prop_of data ''pageInfo''; limit = positiveInteger (number_of_text env) (map_of q ''limit'') 20 in
       if api_ok s \<and> truthy (prop_of info ''hasNextPage'') \<and> truthy (prop_of info ''endCursor'')
         \<and> positiveInteger (number_of_text env) (map_of q' ''offset'') 0
             = positiveInteger (number_of_text env) (map_of q ''offset'') 0 + int (length (items (prop_of data ''items'')))
         \<and> positiveInteger (number_of_text env) (map_of q' ''limit'') 20 = limit
       then fst (fst (alone (subjects_route env q' t) []))
         = [Request_Call ''list-subjects'' (JObj [(''type'', JStr ''user''), (''pageSize'', JInt limit), (''cursor'', prop_of info ''endCursor'')])]
       else True
   | _ \<Rightarrow> True"
proof (cases "alone (subjects_route env q s) [Inr result, turn]")
  case (Pair x t)
  let ?limit = "positiveInteger (number_of_text env) (map_of q ''limit'') 20" and ?offset = "positiveInteger (number_of_text env) (map_of q ''offset'') 0"
  obtain a u where a: "cursors_for (int_str ?limit) s = (a, u)" by (cases "cursors_for (int_str ?limit) s")
  define info where "info = prop_of (prop_of result ''data'') ''pageInfo''"
  have next_call: "fst (fst (alone (subjects_route env q' t) [])) = [Request_Call ''list-subjects'' (JObj [(''type'', JStr ''user''), (''pageSize'', JInt ?limit), (''cursor'', prop_of info ''endCursor'')])]"
    if x: "x = (calls, Some (Inr e))" and ok: "api_ok s" and more_pages: "truthy (prop_of info ''hasNextPage'')" "truthy (prop_of info ''endCursor'')"
      and q': "positiveInteger (number_of_text env) (map_of q' ''offset'') 0 = ?offset + int (length (items (prop_of (prop_of result ''data'') ''items'')))"
        "positiveInteger (number_of_text env) (map_of q' ''limit'') 20 = ?limit" for calls e
  proof -
    have run: "alone (subjects_route env q s) [Inr result, turn] = ((calls, Some (Inr e)), t)" using Pair x by simp
    obtain c where c: "(cursor_maps u ! a) ?offset = Some c"
      using run by (cases "(cursor_maps u ! a) ?offset") (simp_all add: subjects_route_def Let_def reads_def writes_def a returns_def)
    have "\<exists>ws. alone (subjects_answer a ?offset result u) [] = ((ws, Some (Inr e)), t)"
      using run alone_wire by (simp add: subjects_route_def Let_def reads_def writes_def a c)
    then have t: "t = note_cursor a (?offset + int (length (items (prop_of (prop_of result ''data'') ''items'')))) (prop_of info ''endCursor'') u"
      using subjects_answer_run info_def more_pages by blast
    have again: "cursors_for (int_str ?limit) t = (a, t)" using cursors_for_again [OF a] t by simp
    have "(cursor_maps t ! a) (?offset + int (length (items (prop_of (prop_of result ''data'') ''items'')))) = Some (prop_of info ''endCursor'')"
      using cursors_for_valid [OF a ok] by (simp add: t note_cursor_def)
    then show ?thesis
      using more_pages(2) by (simp add: subjects_route_def Let_def reads_def writes_def q' again wire_def awaiting_def asks_def)
  qed
  show ?thesis
    using next_call by (auto simp: Pair Let_def info_def [symmetric] split: prod.split option.split sum.split)
qed

subsection \<open>A late schema\<close>

definition probe_env :: api_env where
  "probe_env = \<lparr>profile_value = JObj [(''backend'', JStr ''datahike'')], number_of_text = (\<lambda>_. JInt 0), json_number = (\<lambda>_. JInt 0), collate_text = id,
     clock_text = [], parse_url = (\<lambda>p. Some (p, []))\<rparr>"

definition probe_descriptor :: "string \<Rightarrow> jsval" where
  "probe_descriptor basis = JObj [(''capabilities'', JObj [(''consistencyModes'', JArr [JStr ''minimize''])]), (''profile'', JObj [(''backend'', JStr ''datahike'')]),
     (''dataset'', JObj [(''serverCount'', JInt 1)]), (''basis'', JObj [(''id'', JStr basis)])]"

definition probe_schema :: "string \<Rightarrow> jsval" where
  "probe_schema sha = JObj [(''types'', JArr []), (''sha256'', JStr sha)]"

definition probe_reply :: "string \<Rightarrow> jsval" where
  "probe_reply sha = JObj [(''data'', probe_schema sha), (''meta'', JObj [(''revision'', JStr sha)])]"

definition stale_schedule :: "(string \<times> jsval, client_error + jsval) pool_event list" where
  "stale_schedule = (let turn = Inr JUndef in
     [Start (''/get-schema'', JObj []), Deliver 0 (Inr (probe_descriptor ''old'')), Deliver 0 turn, Deliver 0 turn,
      Start (''/refresh-snapshot'', JObj []), Deliver 1 (Inr (probe_descriptor ''new'')), Deliver 1 turn, Deliver 1 turn,
      Deliver 1 (Inr (probe_reply ''new'')), Deliver 1 turn, Deliver 1 turn,
      Deliver 0 (Inr (probe_reply ''old'')), Deliver 0 turn])"

text \<open>
  A request for the schema that was under way when a snapshot is refreshed, and is answered after the
  refresh has loaded the new schema, puts the old schema back, beside the new descriptor.
\<close>

theorem refresh_keeps_stale_schema:
  "case run_events (pool_step (dispatcher probe_env)) stale_schedule (empty_pool start_api) of
     None \<Rightarrow> False
   | Some p \<Rightarrow> descriptor (shared p) = Some (probe_descriptor ''new'') \<and> map_option Inr (schema (shared p)) = Some (presentSchema id (probe_schema ''old''))"
  by code_simp

end
