(* ===== verification/Qualification_Targets.thy ===== *)
theory Qualification_Targets
  imports Http_Transport
begin

text \<open>
  \<open>packages/qualification/src/targets.mjs\<close>: the deployment a qualification may talk to and the
  transport it talks through. A call is split at its \<open>fetch\<close>: what it sends, and what its answer
  becomes. Parameters: the platform's URL parser \<open>parse\<close> and the decoder of the bounded reader.
\<close>

subsection \<open>Targets\<close>

definition PROFILE :: regex where
  "PROFILE = Cat (plus_of (cls ''az09'' [])) (star (Cat (lit ''-'') (plus_of (cls ''az09'' []))))"

definition LOCAL_HOSTS :: "string list" where "LOCAL_HOSTS = [''127.0.0.1'', ''localhost'', ''[::1]'']"

definition LAMBDA_HOST :: regex where
  "LAMBDA_HOST = cats [plus_of (cls ''az09'' []), lit ''.lambda-url.'', plus_of (cls ''az09'' ''-''), lit ''.on.aws'']"

definition SERVER_PROFILE_IDS :: "string list" where
  "SERVER_PROFILE_IDS = [''datahike-s3'', ''datahike-dynamodb'', ''datomic-dynamodb'', ''datalevin-memory'', ''jank-memory'']"

definition new_url :: "(string \<Rightarrow> string option \<Rightarrow> parsed_url option) \<Rightarrow> jsval \<Rightarrow> js_error + parsed_url" where
  "new_url parse v = bind_r (text_r v) (\<lambda>s. case parse s None of None \<Rightarrow> Inl Type_Error | Some url \<Rightarrow> Inr url)"

definition drop_last_slash :: "string \<Rightarrow> string" where
  "drop_last_slash s = (if s \<noteq> [] \<and> last s = CHR ''/'' then butlast s else s)"

definition qualificationTarget :: "(string \<Rightarrow> string option \<Rightarrow> parsed_url option) \<Rightarrow> jsval \<Rightarrow> jsval \<Rightarrow> jsval \<Rightarrow> js_error + jsval" where
  "qualificationTarget parse kind baseUrl profileId =
     throw_if (\<not> member_of [''local'', ''direct-function-url''] kind) (Error ''qualification target kind is invalid'')
     (throw_if (\<not> str_satisfies (matches PROFILE) profileId \<or> \<not> member_of SERVER_PROFILE_IDS profileId)
       (Error ''qualification profile ID is not a registered server profile'')
     (bind_r (new_url parse baseUrl) (\<lambda>url.
      throw_if (username url \<noteq> [] \<or> password url \<noteq> [] \<or> search url \<noteq> [] \<or> hash url \<noteq> [])
        (Error ''qualification URL cannot contain credentials, query, or fragment'')
      (throw_if (kind = JStr ''local'' \<and> (hostname url \<notin> set LOCAL_HOSTS \<or> protocol url \<notin> {''http:'', ''https:''}))
        (Error ''local qualification is restricted to loopback'')
      (throw_if (kind \<noteq> JStr ''local'' \<and> protocol url \<noteq> ''https:'') (Error ''direct qualification requires HTTPS'')
      (throw_if (kind = JStr ''direct-function-url'' \<and> (\<not> matches LAMBDA_HOST (hostname url) \<or> port url \<noteq> []))
        (Error ''direct qualification requires an exact Lambda Function URL host'')
      (throw_if (pathname url \<noteq> ''/'') (Error ''qualification URL must be the exact profile Function URL origin'')
      (Inr (JObj [(''kind'', kind), (''baseUrl'', JStr (drop_last_slash (url_href url))), (''profileId'', profileId)])))))))))"

definition reportableTarget :: "(string \<Rightarrow> string option \<Rightarrow> parsed_url option) \<Rightarrow> jsval \<Rightarrow> js_error + jsval" where
  "reportableTarget parse target =
     bind_r (bind_r (get_r target ''baseUrl'') (new_url parse)) (\<lambda>url.
     Inr (JObj [(''kind'', prop_of target ''kind''), (''origin'', JStr (origin url)), (''path'', JStr (pathname url)),
       (''profileId'', prop_of target ''profileId'')]))"

definition assertTrustedFunctionUrlOrigin ::
    "(string \<Rightarrow> string option \<Rightarrow> parsed_url option) \<Rightarrow> jsval \<Rightarrow> jsval \<Rightarrow> js_error + bool" where
  "assertTrustedFunctionUrlOrigin parse target expectedOrigin =
     throw_if (prop_of target ''kind'' \<noteq> JStr ''direct-function-url'') (Error ''trusted-origin binding requires a direct Function URL target'')
     (bind_r (new_url parse expectedOrigin) (\<lambda>expected.
      throw_if (protocol expected \<noteq> ''https:'' \<or> username expected \<noteq> [] \<or> password expected \<noteq> [] \<or> pathname expected \<noteq> ''/''
          \<or> search expected \<noteq> [] \<or> hash expected \<noteq> [] \<or> port expected \<noteq> [] \<or> \<not> matches LAMBDA_HOST (hostname expected))
        (Error ''trusted Function URL origin is invalid'')
      (bind_r (new_url parse (nullish_or (prop_of target ''baseUrl'') (prop_of target ''origin''))) (\<lambda>actual.
       throw_if (origin actual \<noteq> origin expected) (Error ''qualification target does not match the trusted Function URL origin'') (Inr True)))))"

subsection \<open>The transport\<close>

definition REQUEST_ID_PREFIX :: regex where
  "REQUEST_ID_PREFIX = Cat (cls ''AZaz09'' []) (Rep 0 (Some 95) (cls ''AZaz09'' ''._:@/-''))"

record qualifier =
  base_url :: string
  id_prefix :: string
  request_limit_ms :: int
  q_released :: bool
  q_sequence :: nat

definition createHttpQualificationTransport :: "string \<Rightarrow> bool \<Rightarrow> jsval \<Rightarrow> jsval \<Rightarrow> js_error + qualifier" where
  "createHttpQualificationTransport baseUrl has_fetch requestIdPrefix requestTimeoutMs =
     throw_if (\<not> has_fetch) (Error ''fetch implementation is required'')
     (throw_if (\<not> str_satisfies (matches REQUEST_ID_PREFIX) requestIdPrefix) (Error ''qualification request ID prefix is invalid'')
     (throw_if (\<not> safe_int_between 100 30000 requestTimeoutMs) (Error ''qualification request timeout is invalid'')
     (Inr \<lparr>base_url = baseUrl, id_prefix = the_str requestIdPrefix, request_limit_ms = the_int requestTimeoutMs,
           q_released = False, q_sequence = 0\<rparr>)))"

text \<open>
  The signal a caller passes to a request, the signals the request ends up listening to, and what
  is sent.
\<close>

datatype caller_signal = No_Signal | Abort_Signal | Not_A_Signal
datatype listened = Deadline_Of int | Callers_Signal

definition bounded_signal_of :: "caller_signal \<Rightarrow> int \<Rightarrow> js_error + listened list" where
  "bounded_signal_of s timeoutMs = (case s of
     No_Signal \<Rightarrow> Inr [Deadline_Of timeoutMs]
   | Abort_Signal \<Rightarrow> Inr [Callers_Signal, Deadline_Of timeoutMs]
   | Not_A_Signal \<Rightarrow> Inl (Error ''qualification request signal is invalid''))"

record probe =
  probe_id :: string
  probe_method :: string
  probe_url :: string
  probe_headers :: "(string \<times> string) list"
  probe_body :: "string option"
  probe_signals :: "listened list"

definition JSON_TYPE :: string where "JSON_TYPE = ''application/json; charset=utf-8''"

definition next_id :: "qualifier \<Rightarrow> string" where
  "next_id t = id_prefix t @ ''-'' @ nat_str (q_sequence t + 1)"

definition advanced :: "qualifier \<Rightarrow> qualifier" where
  "advanced t = t\<lparr>q_sequence := q_sequence t + 1\<rparr>"

definition qualification_request :: "string \<Rightarrow> jsval \<Rightarrow> caller_signal \<Rightarrow> qualifier \<Rightarrow> (js_error + probe) \<times> qualifier" where
  "qualification_request operation input s t =
     (if q_released t then (Inl (Error ''qualification transport is released''), t)
      else let post = operation \<notin> {''health'', ''bootstrap''} in
        (bind_r (bounded_signal_of s (request_limit_ms t)) (\<lambda>ls.
           Inr \<lparr>probe_id = next_id t, probe_method = (if post then ''POST'' else ''GET''), probe_url = base_url t @ ''/'' @ operation,
             probe_headers = (''x-eacl-request-id'', next_id t) # (if post then [(''content-type'', JSON_TYPE)] else []),
             probe_body = (if post then Some (json input) else None), probe_signals = ls\<rparr>), advanced t))"

definition correlated_answer :: "'d text_stream \<Rightarrow> (string \<Rightarrow> jsval) \<Rightarrow> string \<Rightarrow> string \<Rightarrow> js_error + http_response \<Rightarrow> js_error + jsval" where
  "correlated_answer d num complaint i answer =
     bind_r answer (\<lambda>r. bind_r (readBoundedJsonResponse d num (JInt MAXIMUM_RESPONSE_BYTES) r) (\<lambda>envelope.
     throw_if (prop_of (prop_of envelope ''meta'') ''requestId'' \<noteq> JStr i) (Error complaint) (Inr envelope)))"

subsection \<open>Fault probes\<close>

datatype fault =
    Sent probe
  | Cancelled_Client probe

definition fault_request :: "string \<Rightarrow> string \<Rightarrow> string \<Rightarrow> string option \<Rightarrow> string option \<Rightarrow> int \<Rightarrow> probe" where
  "fault_request i verb url ctype body ms =
     \<lparr>probe_id = i, probe_method = verb, probe_url = url,
      probe_headers = (''x-eacl-request-id'', i) # (case ctype of None \<Rightarrow> [] | Some c \<Rightarrow> [(''content-type'', c)]),
      probe_body = body, probe_signals = [Deadline_Of ms]\<rparr>"

definition faultProbe :: "string \<Rightarrow> string \<Rightarrow> string \<Rightarrow> int \<Rightarrow> js_error + fault" where
  "faultProbe kind baseUrl i ms =
     (let check = baseUrl @ ''/check-permission'' in
      if kind = ''invalid-json'' then Inr (Sent (fault_request i ''POST'' check (Some JSON_TYPE) (Some ''{'') ms))
      else if kind = ''oversized-body'' then
        Inr (Sent (fault_request i ''POST'' check (Some JSON_TYPE)
          (Some (''{'' @ json_str ''padding'' @ '':'' @ json_str (replicate 65536 (CHR ''a'')) @ ''}'')) ms))
      else if kind = ''unsupported-media-type'' then Inr (Sent (fault_request i ''POST'' check (Some ''text/plain'') (Some ''{}'') ms))
      else if kind = ''wrong-method'' then Inr (Sent (fault_request i ''GET'' check None None ms))
      else if kind = ''mutation-route'' then Inr (Sent (fault_request i ''POST'' (baseUrl @ ''/seed'') (Some JSON_TYPE) (Some ''{}'') ms))
      else if kind = ''client-cancel'' then
        Inr (Cancelled_Client ((fault_request i ''GET'' (baseUrl @ ''/health'') None None ms)\<lparr>probe_signals := [Callers_Signal]\<rparr>))
      else Inl (Error ''fault probe kind is invalid''))"

definition probe_fault :: "string \<Rightarrow> qualifier \<Rightarrow> (js_error + fault) \<times> qualifier" where
  "probe_fault kind t =
     (if q_released t then (Inl (Error ''qualification transport is released''), t)
      else (faultProbe kind (base_url t) (next_id t) (request_limit_ms t), advanced t))"

text \<open>
  What a probe reports: a cancelled one must reject with an abort error while its own controller is
  aborted (the two flags); another one carries the status and the envelope of its own request.
\<close>

datatype cancelled_fetch = Answers | Rejects_With bool bool js_error

definition cancelled_report :: "string \<Rightarrow> cancelled_fetch \<Rightarrow> js_error + jsval" where
  "cancelled_report kind a = (case a of
     Answers \<Rightarrow> Inl (Error ''cancelled fault probe unexpectedly reached a response'')
   | Rejects_With own_abort abort_error e \<Rightarrow>
       if own_abort \<and> abort_error then Inr (JObj [(''kind'', JStr kind), (''aborted'', JBool True)]) else Inl e)"

definition fault_report ::
    "'d text_stream \<Rightarrow> (string \<Rightarrow> jsval) \<Rightarrow> string \<Rightarrow> string \<Rightarrow> jsval \<Rightarrow> js_error + http_response \<Rightarrow> js_error + jsval" where
  "fault_report d num kind i code answer =
     bind_r (correlated_answer d num ''fault-probe response correlation mismatch'' i answer) (\<lambda>envelope.
     Inr (JObj [(''kind'', JStr kind), (''aborted'', JBool False), (''status'', code), (''envelope'', envelope)]))"

definition release_qualifier :: "qualifier \<Rightarrow> bool \<times> qualifier" where
  "release_qualifier t = (if q_released t then (False, t) else (True, t\<lparr>q_released := True\<rparr>))"

subsection \<open>A transport in use\<close>

text \<open>Any sequence of calls: the identifiers that were sent, in order, and what \<open>release\<close> answered.\<close>

datatype qualifier_call = Requests string jsval caller_signal | Probes string | Releases_It

record qualifier_run =
  transport :: qualifier
  sent_ids :: "string list"
  answered :: "bool list"

definition sent_of :: "js_error + fault \<Rightarrow> string list" where
  "sent_of r = (case r of Inl e \<Rightarrow> [] | Inr (Sent p) \<Rightarrow> [probe_id p] | Inr (Cancelled_Client p) \<Rightarrow> [probe_id p])"

fun qualifier_step :: "qualifier_call \<Rightarrow> qualifier_run \<Rightarrow> qualifier_run" where
  "qualifier_step (Requests operation input s) q =
     (case qualification_request operation input s (transport q) of
        (Inl e, t) \<Rightarrow> q\<lparr>transport := t\<rparr>
      | (Inr p, t) \<Rightarrow> q\<lparr>transport := t, sent_ids := sent_ids q @ [probe_id p]\<rparr>)"
| "qualifier_step (Probes kind) q =
     (case probe_fault kind (transport q) of (r, t) \<Rightarrow> q\<lparr>transport := t, sent_ids := sent_ids q @ sent_of r\<rparr>)"
| "qualifier_step Releases_It q =
     (case release_qualifier (transport q) of (b, t) \<Rightarrow> q\<lparr>transport := t, answered := answered q @ [b]\<rparr>)"

definition new_qualifier :: "string \<Rightarrow> string \<Rightarrow> int \<Rightarrow> qualifier_run" where
  "new_qualifier base prefix ms =
     \<lparr>transport = \<lparr>base_url = base, id_prefix = prefix, request_limit_ms = ms, q_released = False, q_sequence = 0\<rparr>,
      sent_ids = [], answered = []\<rparr>"

text \<open>
  The invariant: the identifiers sent carry increasing numbers up to the transport's counter, and
  \<open>release\<close> has answered true once if the transport is released and never before.
\<close>

definition numbered :: "qualifier \<Rightarrow> string list \<Rightarrow> bool" where
  "numbered t ids \<longleftrightarrow>
     (\<exists>ks. sorted_wrt (<) ks \<and> (\<forall>k \<in> set ks. k \<le> q_sequence t) \<and> ids = map (\<lambda>k. id_prefix t @ ''-'' @ nat_str k) ks)"

definition qualifier_ok :: "qualifier_run \<Rightarrow> bool" where
  "qualifier_ok q \<longleftrightarrow> numbered (transport q) (sent_ids q)
     \<and> count_list (answered q) True = (if q_released (transport q) then 1 else 0)"

lemma fault_id: "faultProbe kind b i ms = Inr f \<Longrightarrow> sent_of (Inr f) = [i]"
  by (auto simp: faultProbe_def fault_request_def sent_of_def Let_def split: if_splits)

lemma numbered_next: "numbered t ids \<Longrightarrow> numbered (advanced t) (ids @ [next_id t])"
proof -
  assume "numbered t ids"
  then obtain ks where "sorted_wrt (<) ks" "\<forall>k \<in> set ks. k \<le> q_sequence t" "ids = map (\<lambda>k. id_prefix t @ ''-'' @ nat_str k) ks"
    by (auto simp: numbered_def)
  then show ?thesis unfolding numbered_def advanced_def next_id_def
    by (intro exI [of _ "ks @ [q_sequence t + 1]"]) (auto simp: sorted_wrt_append less_Suc_eq_le)
qed

lemma numbered_skip: "numbered t ids \<Longrightarrow> numbered (advanced t) ids"
  unfolding numbered_def advanced_def by (auto intro: le_SucI)

lemma advanced_released [simp]: "q_released (advanced t) = q_released t"
  by (simp add: advanced_def)

lemma numbered_released [simp]: "numbered (t\<lparr>q_released := b\<rparr>) ids = numbered t ids"
  by (simp add: numbered_def)

lemma numbered_distinct: "numbered t ids \<Longrightarrow> distinct ids"
  unfolding numbered_def by (auto simp: distinct_map inj_on_def strict_sorted_iff)

lemma qualifier_step_ok: "qualifier_ok q \<Longrightarrow> qualifier_ok (qualifier_step e q)"
proof (cases e)
  case (Requests operation input s)
  then show "qualifier_ok q \<Longrightarrow> ?thesis"
    by (cases "bounded_signal_of s (request_limit_ms (transport q))")
      (simp_all add: qualifier_ok_def qualification_request_def Let_def numbered_next numbered_skip)
next
  case (Probes kind)
  show "qualifier_ok q \<Longrightarrow> ?thesis"
  proof (cases "faultProbe kind (base_url (transport q)) (next_id (transport q)) (request_limit_ms (transport q))")
    case (Inr f)
    with fault_id [OF this] show "qualifier_ok q \<Longrightarrow> ?thesis"
      by (simp add: qualifier_ok_def Probes probe_fault_def numbered_next) (simp add: sent_of_def)
  qed (simp add: qualifier_ok_def Probes probe_fault_def sent_of_def numbered_skip)
next
  case Releases_It
  then show "qualifier_ok q \<Longrightarrow> ?thesis" by (simp add: qualifier_ok_def release_qualifier_def)
qed

lemma fold_ok: "qualifier_ok q \<Longrightarrow> qualifier_ok (fold qualifier_step es q)"
  by (induction es arbitrary: q) (simp_all add: qualifier_step_ok)

lemma released_sends_nothing:
  "q_released (transport q) \<Longrightarrow>
     q_released (transport (fold qualifier_step es q)) \<and> sent_ids (fold qualifier_step es q) = sent_ids q"
proof (induction es arbitrary: q)
  case (Cons e es)
  have "q_released (transport (qualifier_step e q)) \<and> sent_ids (qualifier_step e q) = sent_ids q"
    using Cons.prems by (cases e) (simp_all add: qualification_request_def probe_fault_def release_qualifier_def sent_of_def)
  with Cons.IH [of "qualifier_step e q"] show ?case by simp
qed simp

text \<open>
  Whatever a qualification does with its transport, every request and every fault probe it sends has
  an identifier of its own; once it has released the transport nothing more is sent, and of all its
  calls of release exactly one reports that it released something.
\<close>

theorem qualification_calls_identified:
  "(let before = fold qualifier_step es (new_qualifier base prefix ms);
        after = fold qualifier_step (es @ Releases_It # es') (new_qualifier base prefix ms) in
    distinct (sent_ids before) \<and> sent_ids after = sent_ids before \<and> count_list (answered after) True = 1)"
proof -
  have start: "qualifier_ok (new_qualifier base prefix ms)" by (simp add: qualifier_ok_def numbered_def new_qualifier_def)
  let ?b = "fold qualifier_step es (new_qualifier base prefix ms)"
  have r: "q_released (transport (qualifier_step Releases_It ?b))" "sent_ids (qualifier_step Releases_It ?b) = sent_ids ?b"
    by (simp_all add: release_qualifier_def)
  have "qualifier_ok ?b" "qualifier_ok (fold qualifier_step (es @ Releases_It # es') (new_qualifier base prefix ms))"
    using start by (rule fold_ok)+
  moreover have "distinct (sent_ids ?b)" using \<open>qualifier_ok ?b\<close> by (auto simp: qualifier_ok_def intro: numbered_distinct)
  ultimately show ?thesis using released_sends_nothing [OF r(1), of es'] r(2)
    by (simp add: qualifier_ok_def Let_def del: qualifier_step.simps)
qed

end
