(* ===== verification/Sensitive_Text.thy ===== *)
theory Sensitive_Text
  imports Js
begin

text \<open>
  The replacement of sensitive text that the qualification reports apply: the regular expression
  \<open>https?:\/\/\S+|\b(?:token|secret|password|authorization)\b\s*[:=]\s*\S+|\/(?:Users|home|var|tmp)\/\S+\<close>
  under the flags g, i and u, written out as a scanner, and the proof that nothing it matches is left.
\<close>

subsection \<open>The scanner\<close>

definition is_word :: "char \<Rightarrow> bool" where
  "is_word c \<longleftrightarrow> is_digit c \<or> is_lower c \<or> is_upper c \<or> c = CHR ''_''"

fun after_literal :: "string \<Rightarrow> string \<Rightarrow> string option" where
  \<comment> \<open>what follows a literal in lower case, matched without regard to case\<close>
  "after_literal [] s = Some s"
| "after_literal (p # ps) [] = None"
| "after_literal (p # ps) (c # cs) = (if lower_char c = p then after_literal ps cs else None)"

definition after_nonspaces :: "string \<Rightarrow> string option" where
  \<comment> \<open>\<open>\S+\<close>\<close>
  "after_nonspaces s = (if s = [] \<or> is_space (hd s) then None else Some (dropWhile (Not \<circ> is_space) s))"

definition after_assignment :: "string \<Rightarrow> string option" where
  \<comment> \<open>\<open>\b\s*[:=]\s*\S+\<close> after a word\<close>
  "after_assignment s =
     (if s \<noteq> [] \<and> is_word (hd s) then None
      else (case dropWhile is_space s of
         [] \<Rightarrow> None
       | c # cs \<Rightarrow> if c \<in> {CHR '':'', CHR ''=''} then after_nonspaces (dropWhile is_space cs) else None))"

fun first_match :: "('a \<Rightarrow> 'b option) list \<Rightarrow> 'a \<Rightarrow> 'b option" where
  "first_match [] s = None"
| "first_match (f # fs) s = (case f s of None \<Rightarrow> first_match fs s | Some t \<Rightarrow> Some t)"

definition literal_then :: "(string \<Rightarrow> string option) \<Rightarrow> string \<Rightarrow> string \<Rightarrow> string option" where
  "literal_then k l s = Option.bind (after_literal l s) k"

definition URL_HEADS :: "string list" where "URL_HEADS = [''https://'', ''http://'']"
definition SECRET_WORDS :: "string list" where "SECRET_WORDS = [''token'', ''secret'', ''password'', ''authorization'']"
definition PATH_HEADS :: "string list" where "PATH_HEADS = [''/users/'', ''/home/'', ''/var/'', ''/tmp/'']"

definition sensitive_at :: "bool \<Rightarrow> bool \<Rightarrow> string \<Rightarrow> string option" where
  \<comment> \<open>what follows the match at the head of the text; \<open>words\<close> says whether the expression has the middle
    alternative, \<open>inside\<close> whether a word character precedes\<close>
  "sensitive_at words inside s =
     first_match (map (literal_then after_nonspaces) URL_HEADS
       @ (if words \<and> \<not> inside then map (literal_then after_assignment) SECRET_WORDS else [])
       @ map (literal_then after_nonspaces) PATH_HEADS) s"

lemma dropWhile_shorter: "length (dropWhile P s) \<le> length s" by (induction s) auto

lemma after_literal_shorter: "after_literal l s = Some t \<Longrightarrow> length t + length l = length s"
  by (induction l s rule: after_literal.induct) (auto split: if_splits)

lemma after_nonspaces_shorter: "after_nonspaces s = Some t \<Longrightarrow> length t < length s"
  using dropWhile_shorter [of _ "tl s"] by (cases s) (auto simp: after_nonspaces_def less_Suc_eq_le split: if_splits)

lemma after_assignment_shorter: "after_assignment s = Some t \<Longrightarrow> length t < length s"
proof -
  assume "after_assignment s = Some t"
  then obtain c cs where s: "dropWhile is_space s = c # cs" and t: "after_nonspaces (dropWhile is_space cs) = Some t"
    by (auto simp: after_assignment_def split: if_splits list.splits)
  have "length (c # cs) \<le> length s" unfolding s [symmetric] by (rule dropWhile_shorter)
  with after_nonspaces_shorter [OF t] dropWhile_shorter [of is_space cs] show ?thesis by simp
qed

lemma first_match_Some: "first_match fs s = Some t \<Longrightarrow> \<exists>f \<in> set fs. f s = Some t"
  by (induction fs) (auto split: option.splits)

lemma first_match_None: "first_match fs s = None \<longleftrightarrow> (\<forall>f \<in> set fs. f s = None)"
  by (induction fs) (auto split: option.splits)

lemma sensitive_at_shorter: "sensitive_at words inside s = Some t \<Longrightarrow> length t < length s"
  by (auto simp: sensitive_at_def literal_then_def bind_eq_Some_conv dest!: first_match_Some after_literal_shorter
      after_nonspaces_shorter after_assignment_shorter split: if_splits)

function replace_sensitive :: "bool \<Rightarrow> bool \<Rightarrow> string \<Rightarrow> string" where
  "replace_sensitive words inside s =
     (case s of [] \<Rightarrow> []
      | c # cs \<Rightarrow> (case sensitive_at words inside s of
          Some rest \<Rightarrow> ''[redacted]'' @ replace_sensitive words False rest
        | None \<Rightarrow> c # replace_sensitive words (is_word c) cs))"
  by pat_completeness auto
termination by (relation "measure (\<lambda>(words, inside, s). length s)") (auto dest: sensitive_at_shorter)

declare replace_sensitive.simps [simp del]

fun untouched :: "bool \<Rightarrow> bool \<Rightarrow> string \<Rightarrow> bool" where
  \<comment> \<open>the expression matches nowhere\<close>
  "untouched words inside [] = True"
| "untouched words inside (c # cs) = (sensitive_at words inside (c # cs) = None \<and> untouched words (is_word c) cs)"

subsection \<open>Nothing sensitive is left\<close>

lemmas literal_sets = URL_HEADS_def SECRET_WORDS_def PATH_HEADS_def

lemma bracket_stops [simp]: "lower_char (CHR ''['') = CHR ''[''" "\<not> is_space (CHR ''['')" "\<not> is_word (CHR ''['')"
  by (simp_all add: lower_char_def is_space_def is_word_def is_digit_def is_lower_def is_upper_def)

lemma replaced_cases:
  obtains (Empty) "s = []" "replace_sensitive words inside s = []"
  | (Match) rest x where "sensitive_at words inside s = Some rest" "s \<noteq> []" "replace_sensitive words inside s = CHR ''['' # x"
  | (Keep) c cs where "s = c # cs" "sensitive_at words inside s = None"
      "replace_sensitive words inside s = c # replace_sensitive words (is_word c) cs"
  using replace_sensitive.simps [of words inside s] by (cases s; cases "sensitive_at words inside s") auto

lemma literal_survives:
  assumes "CHR ''['' \<notin> set l" "after_literal l (replace_sensitive words inside s) = Some t"
  shows "\<exists>t' inside'. after_literal l s = Some t' \<and> t = replace_sensitive words inside' t'"
  using assms
proof (induction l arbitrary: s inside)
  case (Cons p l)
  show ?case
  proof (cases rule: replaced_cases [of s words inside])
    case (Keep c cs)
    with Cons.prems have "lower_char c = p" "after_literal l (replace_sensitive words (is_word c) cs) = Some t" by (auto split: if_splits)
    with Cons.IH [of "is_word c" cs] Cons.prems(1) Keep(1) show ?thesis by auto
  qed (use Cons.prems in \<open>auto split: if_splits\<close>)
qed auto

lemma matched_head: "sensitive_at words inside (c # cs) = Some t \<Longrightarrow> \<not> is_space c"
  by (auto simp: sensitive_at_def literal_sets literal_then_def bind_eq_Some_conv is_space_def lower_char_def Let_def
      dest!: first_match_Some split: if_splits)

lemma spaces_survive: "\<exists>inside'. dropWhile is_space (replace_sensitive words inside s) = replace_sensitive words inside' (dropWhile is_space s)"
proof (induction s arbitrary: inside)
  case (Cons a s)
  show ?case
  proof (cases rule: replaced_cases [of "a # s" words inside])
    case (Match rest x)
    with matched_head [OF Match(1)] show ?thesis by (metis bracket_stops(2) dropWhile.simps(2))
  next
    case (Keep c cs)
    then show ?thesis using Cons.IH [of "is_word a"] by (metis dropWhile.simps(2) list.inject)
  qed simp
qed (simp add: replace_sensitive.simps)

lemma nonspaces_survive: "after_nonspaces (replace_sensitive words inside s) \<noteq> None \<Longrightarrow> after_nonspaces s \<noteq> None"
  by (cases rule: replaced_cases [of s words inside]; cases s)
    (auto simp: after_nonspaces_def dest: matched_head split: if_splits)

lemma no_assignment: "dropWhile is_space s = [] \<or> hd (dropWhile is_space s) = CHR ''['' \<Longrightarrow> after_assignment s = None"
  by (auto simp: after_assignment_def simp del: dropWhile_eq_Nil_conv split: list.splits)

lemma assignment_survives:
  assumes some: "after_assignment (replace_sensitive words inside s) \<noteq> None"
  shows "after_assignment s \<noteq> None"
proof -
  let ?r = "replace_sensitive words inside s"
  obtain i where i: "dropWhile is_space ?r = replace_sensitive words i (dropWhile is_space s)"
    using spaces_survive by blast
  have head: "s \<noteq> []" "\<not> is_word (hd s)"
    using some no_assignment [of ?r] by (cases rule: replaced_cases [of s words inside]; auto simp: after_assignment_def split: if_splits)+
  show ?thesis
  proof (cases rule: replaced_cases [of "dropWhile is_space s" words i])
    case (Keep d ds)
    obtain j where j: "dropWhile is_space (replace_sensitive words (is_word d) ds) = replace_sensitive words j (dropWhile is_space ds)"
      using spaces_survive by blast
    from some have "d \<in> {CHR '':'', CHR ''=''} \<and> after_nonspaces (replace_sensitive words j (dropWhile is_space ds)) \<noteq> None"
      unfolding after_assignment_def i Keep(3) list.case j by (simp split: if_splits)
    moreover from this have "after_nonspaces (dropWhile is_space ds) \<noteq> None" using nonspaces_survive by blast
    ultimately show ?thesis using head unfolding after_assignment_def Keep(1) list.case by auto
  qed (use some i no_assignment [of ?r] in \<open>simp_all del: dropWhile_eq_Nil_conv\<close>)
qed

lemma sensitive_at_iff:
  "sensitive_at words p s \<noteq> None \<longleftrightarrow>
     (\<exists>l \<in> set (URL_HEADS @ PATH_HEADS). literal_then after_nonspaces l s \<noteq> None)
     \<or> words \<and> \<not> p \<and> (\<exists>l \<in> set SECRET_WORDS. literal_then after_assignment l s \<noteq> None)"
  unfolding sensitive_at_def first_match_None by (simp add: bex_Un ball_Un del: not_None_eq) blast

lemma literal_then_survives:
  assumes "literal_then k l (replace_sensitive words inside s) \<noteq> None" "CHR ''['' \<notin> set l"
    and "\<And>i t. k (replace_sensitive words i t) \<noteq> None \<Longrightarrow> k t \<noteq> None"
  shows "literal_then k l s \<noteq> None"
proof -
  from assms(1) obtain t where t: "after_literal l (replace_sensitive words inside s) = Some t" "k t \<noteq> None"
    by (auto simp: literal_then_def bind_eq_Some_conv)
  from literal_survives [OF assms(2) t(1)] obtain t' i where "after_literal l s = Some t'" "t = replace_sensitive words i t'" by blast
  with t(2) assms(3) show ?thesis by (simp add: literal_then_def)
qed

lemma match_survives:
  assumes "sensitive_at words p (replace_sensitive words inside s) \<noteq> None"
  shows "sensitive_at words p s \<noteq> None"
proof -
  have no_bracket: "CHR ''['' \<notin> set l" if "l \<in> set (URL_HEADS @ PATH_HEADS @ SECRET_WORDS)" for l
    using that by (auto simp: literal_sets)
  have "literal_then after_nonspaces l s \<noteq> None"
    if "literal_then after_nonspaces l (replace_sensitive words inside s) \<noteq> None" "l \<in> set (URL_HEADS @ PATH_HEADS)" for l
    by (rule literal_then_survives [OF that(1) no_bracket]) (use that(2) in \<open>force\<close>, erule nonspaces_survive)
  moreover have "literal_then after_assignment l s \<noteq> None"
    if "literal_then after_assignment l (replace_sensitive words inside s) \<noteq> None" "l \<in> set SECRET_WORDS" for l
    by (rule literal_then_survives [OF that(1) no_bracket]) (use that(2) in \<open>force\<close>, erule assignment_survives)
  ultimately show ?thesis using assms unfolding sensitive_at_iff by blast
qed

lemma space_matches_nothing: "s = [] \<or> is_space (hd s) \<Longrightarrow> untouched words False s \<Longrightarrow> untouched words inside s"
  using matched_head [of words inside] by (cases s) (auto intro: ccontr)

lemma redacted_untouched:
  assumes "untouched words False s" "s = [] \<or> is_space (hd s)"
  shows "untouched words inside (''[redacted]'' @ s)"
  using space_matches_nothing [OF assms(2,1)]
  by (simp add: sensitive_at_def literal_sets literal_then_def lower_char_def)

lemma after_nonspaces_rest: "after_nonspaces s = Some t \<Longrightarrow> t = [] \<or> is_space (hd t)"
  using hd_dropWhile [of "Not \<circ> is_space" s] by (auto simp: after_nonspaces_def simp del: dropWhile_eq_Nil_conv split: if_splits)

lemma matched_rest:
  assumes "sensitive_at words inside s = Some t"
  shows "t = [] \<or> is_space (hd t)"
proof -
  from assms obtain k l where "literal_then k l s = Some t" "k = after_nonspaces \<or> k = after_assignment"
    by (auto simp: sensitive_at_def dest!: first_match_Some split: if_splits)
  then show ?thesis by (auto simp: literal_then_def bind_eq_Some_conv after_assignment_def dest: after_nonspaces_rest split: if_splits list.splits)
qed

lemma spaces_kept: "s = [] \<or> is_space (hd s) \<Longrightarrow> replace_sensitive words inside s = [] \<or> is_space (hd (replace_sensitive words inside s))"
  by (cases rule: replaced_cases [of s words inside]; cases s) (auto dest: matched_head)

theorem replaced_untouched: "untouched words inside (replace_sensitive words inside s)"
proof (induction words inside s rule: replace_sensitive.induct)
  case (1 words inside s)
  show ?case
  proof (cases s)
    case (Cons c cs)
    show ?thesis
    proof (cases "sensitive_at words inside s")
      case None
      moreover from this have "sensitive_at words inside (replace_sensitive words inside s) = None" using match_survives by blast
      moreover from None have "replace_sensitive words inside s = c # replace_sensitive words (is_word c) cs"
        by (subst replace_sensitive.simps) (simp add: Cons)
      ultimately show ?thesis using "1.IH"(1) [OF Cons \<open>sensitive_at words inside s = None\<close>] by (simp add: Cons)
    next
      case (Some rest)
      have "replace_sensitive words inside s = ''[redacted]'' @ replace_sensitive words False rest"
        using Some by (subst replace_sensitive.simps) (simp add: Cons)
      then show ?thesis using redacted_untouched [OF "1.IH"(2) [OF Cons Some] spaces_kept [OF matched_rest [OF Some]]] by metis
    qed
  qed (simp add: replace_sensitive.simps)
qed

lemma literal_longer: "after_literal l (take n s) = Some t \<Longrightarrow> \<exists>m u. after_literal l s = Some u \<and> t = take m u"
proof (induction l s arbitrary: n rule: after_literal.induct)
  case (3 p ps c cs)
  then show ?case by (cases n) (auto split: if_splits)
qed auto

lemma spaces_longer: "dropWhile is_space (take n s) \<noteq> [] \<Longrightarrow> \<exists>m. dropWhile is_space (take n s) = take m (dropWhile is_space s)"
proof (induction s arbitrary: n)
  case (Cons a s)
  then show ?case by (cases n) (auto simp del: dropWhile_eq_Nil_conv, metis take_Suc_Cons)
qed simp

lemma nonspaces_longer: "after_nonspaces (take n s) \<noteq> None \<Longrightarrow> after_nonspaces s \<noteq> None"
  by (cases s; cases n) (auto simp: after_nonspaces_def split: if_splits)

lemma assignment_longer: "after_assignment (take n s) \<noteq> None \<Longrightarrow> after_assignment s \<noteq> None"
proof -
  assume some: "after_assignment (take n s) \<noteq> None"
  then obtain c cs where d: "dropWhile is_space (take n s) = c # cs" and c: "c \<in> {CHR '':'', CHR ''=''}"
    and t: "after_nonspaces (dropWhile is_space cs) \<noteq> None" and w: "take n s = [] \<or> \<not> is_word (hd (take n s))"
    by (auto simp: after_assignment_def split: if_splits list.splits)
  from d spaces_longer [of n s] obtain m where m: "c # cs = take m (dropWhile is_space s)" by auto
  then obtain ds where ds: "dropWhile is_space s = c # ds" "cs = take (m - 1) ds" by (cases "dropWhile is_space s"; cases m) (auto simp del: dropWhile_eq_Nil_conv)
  have "dropWhile is_space cs \<noteq> []" using t by (auto simp: after_nonspaces_def split: if_splits)
  with spaces_longer ds(2) obtain k where "dropWhile is_space cs = take k (dropWhile is_space ds)" by blast
  with t nonspaces_longer have "after_nonspaces (dropWhile is_space ds) \<noteq> None" by metis
  moreover have "\<not> is_word (hd s)" using w d by (cases s; cases n) auto
  ultimately show ?thesis using c by (auto simp: after_assignment_def ds(1))
qed

lemma literal_then_longer:
  assumes "literal_then k l (take n s) \<noteq> None" "\<And>m t. k (take m t) \<noteq> None \<Longrightarrow> k t \<noteq> None"
  shows "literal_then k l s \<noteq> None"
proof -
  from assms(1) obtain t where t: "after_literal l (take n s) = Some t" "k t \<noteq> None" by (auto simp: literal_then_def bind_eq_Some_conv)
  from literal_longer [OF t(1)] obtain m u where "after_literal l s = Some u" "t = take m u" by blast
  with t(2) assms(2) [of m u] show ?thesis by (simp add: literal_then_def)
qed

lemma match_longer: "sensitive_at words p (take n s) \<noteq> None \<Longrightarrow> sensitive_at words p s \<noteq> None"
proof -
  assume "sensitive_at words p (take n s) \<noteq> None"
  moreover have "literal_then after_nonspaces l s \<noteq> None" if "literal_then after_nonspaces l (take n s) \<noteq> None" for l
    by (rule literal_then_longer [OF that]) (erule nonspaces_longer)
  moreover have "literal_then after_assignment l s \<noteq> None" if "literal_then after_assignment l (take n s) \<noteq> None" for l
    by (rule literal_then_longer [OF that]) (erule assignment_longer)
  ultimately show "sensitive_at words p s \<noteq> None" unfolding sensitive_at_iff by blast
qed

lemma untouched_take: "untouched words inside s \<Longrightarrow> untouched words inside (take n s)"
proof (induction words inside s arbitrary: n rule: untouched.induct)
  case (2 words inside c cs)
  have "sensitive_at words inside (take n (c # cs)) = None"
    using 2(2) match_longer [of words inside n "c # cs"] by (cases "sensitive_at words inside (take n (c # cs))") simp_all
  with 2 show ?case by (cases n) auto
qed simp

end
