(* ===== verification/Awaits.thy ===== *)
theory Awaits
  imports Guards
begin

text \<open>
  Sequential asynchronous code as actions on a state: an \<open>await\<close> is a call into the state of the
  network, a rejected promise or a thrown error is the \<open>Inl\<close> of its result. What is thrown is an
  object with a code, a message and a message for the public; \<open>say\<close> gives the words of the
  errors the language and the shared readers throw themselves.
\<close>

record thrown =
  thrown_code :: jsval
  thrown_message :: jsval
  thrown_public :: jsval

definition raised :: "string \<Rightarrow> thrown" where
  "raised m = \<lparr>thrown_code = JUndef, thrown_message = JStr m, thrown_public = JUndef\<rparr>"

definition raised_by :: "(js_error \<Rightarrow> string) \<Rightarrow> js_error \<Rightarrow> thrown" where
  "raised_by say e = (case e of
     Error m \<Rightarrow> raised m
   | Coded c \<Rightarrow> (raised (say e))\<lparr>thrown_code := JStr c\<rparr>
   | Type_Error \<Rightarrow> raised (say e))"

definition thrown_r :: "(js_error \<Rightarrow> string) \<Rightarrow> js_error + 'a \<Rightarrow> thrown + 'a" where
  "thrown_r say r = (case r of Inl e \<Rightarrow> Inl (raised_by say e) | Inr x \<Rightarrow> Inr x)"

type_synonym ('s, 'a) action = "'s \<Rightarrow> (thrown + 'a) \<times> 's"

definition await :: "('s, 'a) action \<Rightarrow> ('a \<Rightarrow> ('s, 'b) action) \<Rightarrow> ('s, 'b) action" where
  "await m f s = (case m s of (Inl e, t) \<Rightarrow> (Inl e, t) | (Inr x, t) \<Rightarrow> f x t)"

definition done_with :: "thrown + 'a \<Rightarrow> ('s, 'a) action" where
  "done_with r s = (r, s)"

abbreviation pure :: "'a \<Rightarrow> ('s, 'a) action" where "pure x \<equiv> done_with (Inr x)"
abbreviation throw :: "string \<Rightarrow> ('s, 'a) action" where "throw m \<equiv> done_with (Inl (raised m))"

lemma await_Inr: "await m f s = (Inr y, u) \<longleftrightarrow> (\<exists>x t. m s = (Inr x, t) \<and> f x t = (Inr y, u))"
  by (auto simp: await_def split: prod.splits sum.splits)

lemma done_with_Inr [simp]: "done_with r s = (Inr x, t) \<longleftrightarrow> r = Inr x \<and> t = s"
  by (auto simp: done_with_def)

lemma thrown_r_Inr [simp]: "thrown_r say r = Inr x \<longleftrightarrow> r = Inr x"
  by (simp add: thrown_r_def split: sum.split)

end
