(* ===== verification/Qualification_Runner.thy ===== *)
theory Qualification_Runner
  imports Qualification_Targets Sensitive_Text Awaits
begin

text \<open>
  \<open>packages/qualification/src/runner.mjs\<close>: one qualification of one deployment. The transport, the
  cases and the clock are the environment: \<open>elapsed k\<close> is the rounded duration of the \<open>k\<close>-th
  result, \<open>say\<close> the words of the language's own errors.
\<close>

subsection \<open>Checks on identities and envelopes\<close>

definition IDENTITY_KEYS :: "string list" where
  "IDENTITY_KEYS = [''profileId'', ''demoSha'', ''eaclSha'', ''artifactSha256'', ''deploymentId'', ''dataManifestSha256'']"

definition hex_of :: "nat \<Rightarrow> string \<Rightarrow> bool" where
  "hex_of n = matches (times n (cls ''09af'' []))"

definition validateIdentity :: "jsval \<Rightarrow> js_error + unit" where
  "validateIdentity identity =
     reject_if [Inr (case identity of JObj _ \<Rightarrow> False | JArr _ \<Rightarrow> False | _ \<Rightarrow> True), mismatch (matches PROFILE) (prop_of identity ''profileId''),
       mismatch (hex_of 40) (prop_of identity ''demoSha''), mismatch (hex_of 40) (prop_of identity ''eaclSha''),
       mismatch (hex_of 64) (prop_of identity ''artifactSha256''), mismatch (hex_of 64) (prop_of identity ''dataManifestSha256''),
       Inr (\<not> str_satisfies (\<lambda>s. 1 \<le> length s \<and> length s \<le> 256) (prop_of identity ''deploymentId''))]
     ''qualification identity is invalid''"

definition assertIdentity :: "jsval \<Rightarrow> jsval \<Rightarrow> js_error + bool" where
  "assertIdentity actual expected =
     bind_r (validateIdentity actual) (\<lambda>_.
     case find (\<lambda>k. \<not> strict_eq (prop_of actual k) (prop_of expected k)) IDENTITY_KEYS of
       Some k \<Rightarrow> Inl (Error (''qualification '' @ k @ '' identity mismatch''))
     | None \<Rightarrow> Inr True)"

definition assertEnvelope :: "jsval \<Rightarrow> string \<Rightarrow> js_error + jsval" where
  "assertEnvelope response operation =
     throw_if (\<not> truthy response \<or> \<not> truthy (prop_of response ''meta'') \<or> \<not> is_string (prop_of (prop_of response ''meta'') ''requestId''))
       (Error (''qualification '' @ operation @ '' response correlation mismatch'')) (Inr response)"

definition successfulData :: "jsval \<Rightarrow> string \<Rightarrow> js_error + jsval" where
  "successfulData response operation =
     (if \<not> truthy response \<or> \<not> has_prop response ''data'' \<or> has_prop response ''error''
      then bind_r (text_r (nullish_or (prop_of (prop_of response ''error'') ''code'') (JStr ''invalid-envelope''))) (\<lambda>code.
        Inl (Error (operation @ '' qualification request failed: '' @ code)))
      else Inr (prop_of response ''data''))"

subsection \<open>Transports and cases\<close>

record 's raw_transport =
  raw_request :: "string \<Rightarrow> jsval \<Rightarrow> ('s, jsval) action"
  raw_probe :: "('s, jsval) action option"
  raw_release :: "('s, jsval) action option"

record 's checked_transport =
  ask :: "string \<Rightarrow> jsval \<Rightarrow> ('s, jsval) action"
  probeCancellationCleanup :: "('s, jsval) action option"

definition identityCheckedTransport :: "(js_error \<Rightarrow> string) \<Rightarrow> 's raw_transport \<Rightarrow> 's checked_transport" where
  "identityCheckedTransport say t =
     \<lparr>ask = (\<lambda>operation input. await (raw_request t operation input) (\<lambda>r. done_with (thrown_r say (assertEnvelope r operation)))),
      probeCancellationCleanup = raw_probe t\<rparr>"

record 's qualification_case =
  case_id :: string
  category :: string
  applies :: "(jsval \<Rightarrow> thrown + jsval) option"
  run_case :: "'s checked_transport \<Rightarrow> jsval \<Rightarrow> jsval \<Rightarrow> ('s, jsval) action"

datatype 's case_source =
    Case_List "'s qualification_case list"
  | Case_Factory "jsval \<Rightarrow> thrown + 's qualification_case list option"
  | No_Case_Source

definition unsupportedResult :: "jsval \<Rightarrow> jsval" where
  "unsupportedResult reason = JObj [(''qualificationStatus'', JStr ''unsupported''), (''reason'', reason)]"

subsection \<open>Results\<close>

definition publicText :: "string \<Rightarrow> string" where
  "publicText s = take 320 (replace_sensitive True False s)"

definition safeCode :: "jsval \<Rightarrow> string" where
  "safeCode v = (if str_satisfies (matches (Rep 1 (Some 64) (cls ''az09'' ''-''))) v then the_str v else ''qualification-failed'')"

definition boundedDetails :: "jsval \<Rightarrow> jsval" where
  \<comment> \<open>of an object; \<open>Object.entries\<close> of a missing value has none\<close>
  "boundedDetails v = JObj (from_entries (map (\<lambda>(k, x). (take 64 k, case x of JStr s \<Rightarrow> JStr (take 256 s) | _ \<Rightarrow> x)) (take 16 (props v))))"

definition result_of :: "string \<Rightarrow> string \<Rightarrow> string \<Rightarrow> jsval \<Rightarrow> jsval \<Rightarrow> jsval \<Rightarrow> jsval" where
  "result_of i kind outcome ms why details =
     JObj [(''id'', JStr i), (''category'', JStr kind), (''status'', JStr outcome), (''durationMs'', ms), (''reason'', why), (''details'', details)]"

definition passed :: "string \<Rightarrow> string \<Rightarrow> jsval \<Rightarrow> jsval \<Rightarrow> jsval" where
  "passed i kind ms details = result_of i kind ''passed'' ms JNull (boundedDetails details)"

definition unsupported :: "'s qualification_case \<Rightarrow> jsval \<Rightarrow> jsval" where
  "unsupported c reason = result_of (case_id c) (category c) ''unsupported'' (JInt 0)
     (JStr (publicText (the_text (nullish_or reason (JStr ''The descriptor does not advertise this capability.''))))) (JObj [])"

definition failed :: "string \<Rightarrow> string \<Rightarrow> jsval \<Rightarrow> thrown \<Rightarrow> jsval" where
  "failed i kind ms e = result_of i kind ''failed'' ms
     (JStr (publicText (the_text (nullish_or (thrown_public e) (nullish_or (thrown_message e) (JStr ''Qualification failed.''))))))
     (JObj [(''code'', JStr (safeCode (thrown_code e)))])"

subsection \<open>The run\<close>

text \<open>
  The loop over the cases returns the results so far and the error that left it, if one did: a
  predicate \<open>applies\<close> that throws is not caught case by case.
\<close>

definition applicability :: "'s qualification_case \<Rightarrow> jsval \<Rightarrow> thrown + jsval" where
  "applicability c descriptor =
     bind_r (case applies c of None \<Rightarrow> Inr JUndef | Some f \<Rightarrow> f descriptor) (\<lambda>a. Inr (nullish_or a (JObj [(''supported'', JBool True)])))"

definition case_result :: "'s qualification_case \<Rightarrow> jsval \<Rightarrow> thrown + jsval \<Rightarrow> jsval" where
  "case_result c ms outcome = (case outcome of
     Inl e \<Rightarrow> failed (case_id c) (category c) ms e
   | Inr details \<Rightarrow>
       if prop_of details ''qualificationStatus'' = JStr ''unsupported'' then unsupported c (prop_of details ''reason'')
       else passed (case_id c) (category c) ms details)"

fun run_cases ::
    "(nat \<Rightarrow> jsval) \<Rightarrow> 's checked_transport \<Rightarrow> jsval \<Rightarrow> jsval \<Rightarrow> 's qualification_case list \<Rightarrow> jsval list \<Rightarrow> 's
      \<Rightarrow> (jsval list \<times> thrown option) \<times> 's" where
  "run_cases elapsed t descriptor expected [] results s = ((results, None), s)"
| "run_cases elapsed t descriptor expected (c # cs) results s =
     (case applicability c descriptor of
        Inl e \<Rightarrow> ((results, Some e), s)
      | Inr a \<Rightarrow>
          if \<not> truthy (prop_of a ''supported'') then run_cases elapsed t descriptor expected cs (results @ [unsupported c (prop_of a ''reason'')]) s
          else (case run_case c t descriptor expected s of
            (outcome, s') \<Rightarrow>
              run_cases elapsed t descriptor expected cs (results @ [case_result c (elapsed (length results)) outcome]) s'))"

definition bootstrap_result :: "jsval \<Rightarrow> jsval \<Rightarrow> jsval \<Rightarrow> js_error + jsval" where
  "bootstrap_result expected ms descriptor =
     bind_r (get_r descriptor ''identity'') (\<lambda>identity.
     bind_r (assertIdentity identity expected) (\<lambda>_.
     bind_r (get_r (prop_of descriptor ''contract'') ''revision'') (\<lambda>revision.
     Inr (passed ''bootstrap-identity'' ''identity'' ms (JObj [(''contractRevision'', revision),
       (''fixtureId'', nullish_or (prop_of (prop_of descriptor ''dataset'') ''fixtureId'') JNull)])))))"

definition selected_cases :: "'s case_source \<Rightarrow> jsval \<Rightarrow> thrown + 's qualification_case list" where
  "selected_cases source descriptor = (case source of
     Case_List cs \<Rightarrow> Inr cs
   | Case_Factory f \<Rightarrow> bind_r (f descriptor) (\<lambda>r. case r of
       None \<Rightarrow> Inl (raised ''qualification case factory must return an array'') | Some cs \<Rightarrow> Inr cs)
   | No_Case_Source \<Rightarrow> Inr [])"

definition qualify ::
    "(js_error \<Rightarrow> string) \<Rightarrow> (nat \<Rightarrow> jsval) \<Rightarrow> 's checked_transport \<Rightarrow> jsval \<Rightarrow> 's case_source \<Rightarrow> 's \<Rightarrow> (jsval \<times> jsval list) \<times> 's" where
  \<comment> \<open>the \<open>try\<close> block and its handler: the descriptor and the results\<close>
  "qualify say elapsed t expected source s =
     (case await (ask t ''bootstrap'' (JObj [])) (\<lambda>r. done_with (thrown_r say (successfulData r ''bootstrap''))) s of
        (Inl e, s1) \<Rightarrow> ((JNull, [failed ''bootstrap-identity'' ''identity'' (JInt 0) e]), s1)
      | (Inr descriptor, s1) \<Rightarrow>
          (case bootstrap_result expected (elapsed 0) descriptor of
             Inl e \<Rightarrow> ((descriptor, [failed ''bootstrap-identity'' ''identity'' (JInt 0) (raised_by say e)]), s1)
           | Inr first \<Rightarrow>
               (case selected_cases source descriptor of
                  Inl e \<Rightarrow> ((descriptor, [first, failed ''qualification-runner'' ''harness'' (JInt 0) e]), s1)
                | Inr cs \<Rightarrow>
                    (case run_cases elapsed t descriptor expected cs [first] s1 of
                       ((results, None), s2) \<Rightarrow> ((descriptor, results), s2)
                     | ((results, Some e), s2) \<Rightarrow>
                         ((descriptor, results @ [failed ''qualification-runner'' ''harness'' (JInt 0) e]), s2)))))"

definition bump_status :: "string \<Rightarrow> (string \<times> jsval) list \<Rightarrow> (string \<times> jsval) list" where
  "bump_status k acc = AList.update k (JInt (the_int (prop_of (JObj acc) k) + 1)) acc"

definition NO_RESULTS :: "(string \<times> jsval) list" where
  "NO_RESULTS = [(''passed'', JInt 0), (''failed'', JInt 0), (''unsupported'', JInt 0)]"

definition count_results :: "jsval list \<Rightarrow> (string \<times> jsval) list" where
  "count_results results = fold (\<lambda>r. bump_status (the_str (prop_of r ''status''))) results NO_RESULTS"

definition runQualification ::
    "(js_error \<Rightarrow> string) \<Rightarrow> (nat \<Rightarrow> jsval) \<Rightarrow> (string \<Rightarrow> string option \<Rightarrow> parsed_url option) \<Rightarrow> jsval \<Rightarrow> jsval \<Rightarrow> jsval
      \<Rightarrow> ('s, 's raw_transport) action option \<Rightarrow> jsval \<Rightarrow> 's case_source \<Rightarrow> ('s, jsval) action" where
  "runQualification say elapsed parse startedAt completedAt target createTransport expected source s =
     (case validateIdentity expected of
        Inl e \<Rightarrow> (Inl (raised_by say e), s)
      | Inr _ \<Rightarrow>
     (case createTransport of
        None \<Rightarrow> (Inl (raised ''createTransport is required''), s)
      | Some create \<Rightarrow>
     (case source of
        No_Case_Source \<Rightarrow> (Inl (raised ''qualification cases must be an array or descriptor-bound factory''), s)
      | _ \<Rightarrow> await create (\<lambda>transport s1.
       (case qualify say elapsed (identityCheckedTransport say transport) expected source s1 of
          ((descriptor, results), s2) \<Rightarrow>
            await (case raw_release transport of
                None \<Rightarrow> pure ''not-created''
              | Some release \<Rightarrow> await release (\<lambda>b. pure (if b = JBool False then ''already-released'' else ''released'')))
              (\<lambda>releaseOutcome. await (done_with (thrown_r say (reportableTarget parse target))) (\<lambda>shown. pure (JObj
                 [(''schema'', JStr ''eacl-demo.qualification-report.v1''),
                  (''result'', JStr (if prop_of (JObj (count_results results)) ''failed'' = JInt 0 then ''pass'' else ''fail'')),
                  (''startedAt'', startedAt), (''completedAt'', completedAt), (''target'', shown),
                  (''identity'', spread [expected]), (''descriptorIdentity'', nullish_or (prop_of descriptor ''identity'') JNull),
                  (''releaseOutcome'', JStr releaseOutcome), (''counts'', JObj (count_results results)), (''cases'', JArr results)])))
              s2)) s)))"

subsection \<open>Results are well formed\<close>

definition STATUSES :: "string list" where "STATUSES = [''passed'', ''failed'', ''unsupported'']"

definition presentable :: "jsval \<Rightarrow> bool" where
  "presentable r \<longleftrightarrow> is_object r \<and> member_of STATUSES (prop_of r ''status'')
     \<and> (case prop_of r ''reason'' of JNull \<Rightarrow> True | JStr s \<Rightarrow> length s \<le> 320 \<and> untouched True False s | _ \<Rightarrow> False)"

lemma presentable_results [simp]:
  "presentable (passed i kind ms details)" "presentable (unsupported c reason)" "presentable (failed i kind ms e)"
  by (simp_all add: presentable_def passed_def unsupported_def failed_def result_of_def prop_of_def STATUSES_def member_of_def
      str_satisfies_def publicText_def untouched_take replaced_untouched)

lemma presentable_case: "presentable (case_result c ms outcome)"
  by (simp add: case_result_def split: sum.split)

lemma run_cases_presentable:
  "list_all presentable results \<Longrightarrow> list_all presentable (fst (fst (run_cases elapsed t descriptor expected cs results s)))"
  by (induction cs arbitrary: results s) (auto simp: presentable_case split: sum.split prod.split)

lemma run_cases_keeps: "\<exists>more. fst (fst (run_cases elapsed t descriptor expected cs results s)) = results @ more"
proof (induction cs arbitrary: results s)
  case (Cons c cs)
  then show ?case by (auto split: sum.split prod.split) (metis append.assoc fst_conv)+
qed simp

definition has_status :: "string \<Rightarrow> jsval \<Rightarrow> bool" where
  "has_status k r \<longleftrightarrow> prop_of r ''status'' = JStr k"

lemma failed_status [simp]: "has_status ''failed'' (failed i kind ms e)"
  by (simp add: has_status_def failed_def result_of_def prop_of_def)

text \<open>The outcomes of \<open>qualify\<close>: a start-up that failed, or results that begin with the verified identity.\<close>

lemma qualify_cases:
  assumes "qualify say elapsed t expected source s = ((descriptor, results), s')"
  obtains (Unverified) e where "results = [failed ''bootstrap-identity'' ''identity'' (JInt 0) e]"
  | (Verified) first where "bootstrap_result expected (elapsed 0) descriptor = Inr first" "list_all presentable results"
proof -
  have first: "bootstrap_result expected (elapsed 0) d = Inr r \<Longrightarrow> presentable r" for r d
    by (auto simp: bootstrap_result_def)
  have loop: "presentable r \<Longrightarrow> list_all presentable (fst (fst (run_cases elapsed t d expected cs [r] u)))" for r d cs u
    by (rule run_cases_presentable) simp
  obtain r1 s1 where 1: "await (ask t ''bootstrap'' (JObj [])) (\<lambda>r. done_with (thrown_r say (successfulData r ''bootstrap''))) s = (r1, s1)"
    by (metis surj_pair)
  show thesis
  proof (cases r1)
    case (Inl e)
    with assms 1 have "results = [failed ''bootstrap-identity'' ''identity'' (JInt 0) e]" by (auto simp: qualify_def)
    then show thesis by (rule Unverified)
  next
    case (Inr d)
    note started = 1 [unfolded Inr]
    show thesis
    proof (cases "bootstrap_result expected (elapsed 0) d")
      case (Inl e)
      with assms started have "results = [failed ''bootstrap-identity'' ''identity'' (JInt 0) (raised_by say e)]" by (auto simp: qualify_def)
      then show thesis by (rule Unverified)
    next
      case f: (Inr f)
      have "descriptor = d \<and> list_all presentable results"
      proof (cases "selected_cases source d")
        case (Inl e)
        with assms started f first [OF f] show ?thesis by (auto simp: qualify_def)
      next
        case cs: (Inr cs)
        obtain rs e s2 where 2: "run_cases elapsed t d expected cs [f] s1 = ((rs, e), s2)" by (metis surj_pair)
        have "list_all presentable rs" using loop [OF first [OF f], of d cs s1] by (simp add: 2)
        with assms started f cs 2 show ?thesis by (cases e) (auto simp: qualify_def)
      qed
      with f Verified show thesis by blast
    qed
  qed
qed

lemma qualify_presentable: "list_all presentable (snd (fst (qualify say elapsed t expected source s)))"
proof -
  obtain descriptor results s' where q: "qualify say elapsed t expected source s = ((descriptor, results), s')" by (metis surj_pair)
  then show ?thesis by (cases rule: qualify_cases) (simp_all add: q)
qed

lemma qualify_pass:
  assumes "qualify say elapsed t expected source s = ((descriptor, results), s')" "list_all (\<lambda>r. \<not> has_status ''failed'' r) results"
  shows "assertIdentity (prop_of descriptor ''identity'') expected = Inr True"
  using assms(1)
proof (cases rule: qualify_cases)
  case (Verified first)
  then show ?thesis by (auto simp: bootstrap_result_def get_r_def assertIdentity_def split: option.splits if_splits)
qed (use assms(2) in simp)

text \<open>The counts are those of the results.\<close>

definition counts_of :: "jsval list \<Rightarrow> (string \<times> jsval) list" where
  "counts_of rs = map (\<lambda>k. (k, JInt (int (length (filter (has_status k) rs))))) STATUSES"

lemma presentable_status: "presentable r \<Longrightarrow> \<exists>k \<in> set STATUSES. prop_of r ''status'' = JStr k"
  by (auto simp: presentable_def member_of_def str_satisfies_def split: jsval.splits)

lemma bump_counts: "presentable r \<Longrightarrow> bump_status (the_str (prop_of r ''status'')) (counts_of rs) = counts_of (rs @ [r])"
  by (drule presentable_status) (auto simp: bump_status_def counts_of_def STATUSES_def has_status_def prop_of_def)

lemma count_results_counts: "list_all presentable results \<Longrightarrow> count_results results = counts_of results"
proof (induction results rule: rev_induct)
  case Nil
  show ?case by (simp add: count_results_def counts_of_def NO_RESULTS_def STATUSES_def)
next
  case (snoc r rs)
  then have "fold (\<lambda>r. bump_status (the_str (prop_of r ''status''))) rs NO_RESULTS = counts_of rs" by (simp add: count_results_def)
  with snoc.prems bump_counts show ?case by (simp add: count_results_def)
qed

lemma no_failures: "prop_of (JObj (counts_of rs)) ''failed'' = JInt 0 \<longleftrightarrow> list_all (\<lambda>r. \<not> has_status ''failed'' r) rs"
  by (auto simp: counts_of_def STATUSES_def prop_of_def list_all_iff filter_empty_conv)

end
