(* ===== verification/Qualification_Cases.thy ===== *)
theory Qualification_Cases
  imports Qualification_Runner
begin

text \<open>
  \<open>packages/qualification/src/cases.mjs\<close>: the cases every deployment has to pass. Each is an action on
  the checked transport; the exemplars are the JSON of the fixture package, whose counts are integers
  and whose page sizes are positive. \<open>say\<close> gives the words of the language's own errors,
  \<open>date_ok\<close> is a finite \<open>Date.parse\<close>.
\<close>

definition CONSISTENCY_MODES :: "string list" where
  "CONSISTENCY_MODES = [''minimize'', ''authoritative'', ''at-least'', ''exact'', ''historical-date'']"

fun path_r :: "jsval \<Rightarrow> string list \<Rightarrow> js_error + jsval" where
  \<comment> \<open>\<open>v.a.b\<close>\<close>
  "path_r v [] = Inr v"
| "path_r v (k # ks) = bind_r (get_r v k) (\<lambda>w. path_r w ks)"

subsection \<open>Shared steps\<close>

definition request_data :: "(js_error \<Rightarrow> string) \<Rightarrow> 's checked_transport \<Rightarrow> string \<Rightarrow> jsval \<Rightarrow> ('s, jsval) action" where
  "request_data say t operation input = await (ask t operation input) (\<lambda>r. done_with (thrown_r say (successfulData r operation)))"

definition advertisedConsistency :: "jsval \<Rightarrow> js_error + jsval" where
  "advertisedConsistency descriptor =
     (let mode = (case items (prop_of (prop_of descriptor ''capabilities'') ''consistencyModes'') of [] \<Rightarrow> JUndef | m # ms \<Rightarrow> m) in
      throw_if (\<not> member_of CONSISTENCY_MODES mode) (Error ''descriptor has no advertised consistency mode'') (Inr mode))"

definition demandInput :: "jsval \<Rightarrow> jsval \<Rightarrow> js_error + jsval" where
  "demandInput demand descriptor =
     bind_r (path_r demand [''subject'', ''type'']) (\<lambda>st. bind_r (path_r demand [''subject'', ''id'']) (\<lambda>si.
     bind_r (path_r demand [''resource'', ''type'']) (\<lambda>rt. bind_r (path_r demand [''resource'', ''id'']) (\<lambda>ri.
     bind_r (advertisedConsistency descriptor) (\<lambda>mode.
     Inr (JObj [(''subjectType'', st), (''subjectId'', si), (''resourceType'', rt), (''resourceId'', ri),
       (''permission'', prop_of demand ''permission''), (''consistency'', mode)]))))))"

definition assertPage :: "jsval \<Rightarrow> int \<Rightarrow> js_error + unit" where
  "assertPage page maximum =
     throw_if (\<not> truthy page \<or> (case prop_of page ''items'' of JArr vs \<Rightarrow> int (length vs) > maximum | _ \<Rightarrow> True)
         \<or> \<not> truthy (prop_of page ''pageInfo'') \<or> num_less (JInt maximum) (prop_of (prop_of page ''pageInfo'') ''pageSize''))
       (Error ''bounded page shape is invalid'')
     (throw_if (prop_of (prop_of page ''pageInfo'') ''hasNextPage'' \<noteq> JBool (str_satisfies (\<lambda>s. 1 \<le> length s) (prop_of (prop_of page ''pageInfo'') ''endCursor'')))
       (Error ''page cursor state is inconsistent'') (Inr ()))"

definition item_key :: "jsval \<Rightarrow> string" where
  "item_key item = the_text (prop_of item ''type'') @ '':'' @ the_text (prop_of item ''id'')"

definition some_item :: "(jsval \<Rightarrow> bool) \<Rightarrow> jsval \<Rightarrow> js_error + bool" where
  \<comment> \<open>\<open>page.items.some(({ ... }) => ...)\<close>\<close>
  "some_item P page = any_r (map (\<lambda>x. if nullish x then Inl Type_Error else Inr (P x)) (items (prop_of page ''items'')))"

definition mutateCursor :: "string \<Rightarrow> string" where
  "mutateCursor s = butlast s @ (if s \<noteq> [] \<and> last s = CHR ''a'' then ''b'' else ''a'')"

definition captureFailure :: "('s, jsval) action \<Rightarrow> 's \<Rightarrow> (jsval \<times> jsval) \<times> 's" where
  \<comment> \<open>the code and what the public sees; this never throws\<close>
  "captureFailure call s = (case call s of
     (Inr r, s') \<Rightarrow> ((if truthy r \<and> has_prop r ''error'' \<and> \<not> has_prop r ''data'' then prop_of (prop_of r ''error'') ''code'' else JNull, r), s')
   | (Inl e, s') \<Rightarrow> ((thrown_code e, JObj [(''code'', thrown_code e), (''message'', thrown_message e)]), s'))"

definition expectFailure :: "('s, jsval) action \<Rightarrow> string \<Rightarrow> ('s, unit) action" where
  "expectFailure call code s = (case captureFailure call s of
     ((c, seen), s') \<Rightarrow>
       (if c = JStr code then Inr () else Inl (raised (''expected '' @ code @ '', received '' @ the_text (nullish_or c (JStr ''success'')))), s'))"

definition operationCase ::
    "(js_error \<Rightarrow> string) \<Rightarrow> string \<Rightarrow> string \<Rightarrow> string list \<Rightarrow> ('s checked_transport \<Rightarrow> jsval \<Rightarrow> ('s, jsval) action) \<Rightarrow> 's qualification_case" where
  "operationCase say i kind required run =
     \<lparr>case_id = i, category = kind,
      applies = Some (\<lambda>descriptor.
        if required \<noteq> [] \<and> (nullish descriptor \<or> nullish (prop_of descriptor ''capabilities'') \<or> nullish (prop_of (prop_of descriptor ''capabilities'') ''operations''))
        then Inl (raised_by say Type_Error)
        else let missing = filter (\<lambda>op. \<not> includes_value (items (prop_of (prop_of descriptor ''capabilities'') ''operations'')) (JStr op)) required in
          Inr (if missing = [] then JObj [(''supported'', JBool True)]
               else JObj [(''supported'', JBool False), (''reason'', JStr (''Descriptor omits: '' @ join '', '' missing @ ''.''))])),
      run_case = (\<lambda>t descriptor expected. run t descriptor)\<rparr>"

subsection \<open>Health and authorization\<close>

definition healthCase :: "(js_error \<Rightarrow> string) \<Rightarrow> 's qualification_case" where
  "healthCase say = operationCase say ''health-ready'' ''contract'' [''health''] (\<lambda>t descriptor.
     await (request_data say t ''health'' (JObj [])) (\<lambda>health. done_with
       (if nullish health then Inl (raised_by say Type_Error)
        else if \<not> truthy (prop_of health ''ready'') \<or> prop_of health ''status'' \<noteq> JStr ''ready'' then Inl (raised ''profile health is not ready'')
        else thrown_r say (
          bind_r (path_r health [''identity'', ''profileId'']) (\<lambda>hp. bind_r (path_r descriptor [''identity'', ''profileId'']) (\<lambda>dp.
          if \<not> strict_eq hp dp then Inl (Error ''health identity or basis differs from bootstrap'')
          else bind_r (path_r descriptor [''basis'', ''id'']) (\<lambda>db.
            throw_if (\<not> strict_eq (prop_of (prop_of health ''basis'') ''id'') db) (Error ''health identity or basis differs from bootstrap'')
            (bind_r (path_r health [''basis'', ''id'']) (\<lambda>hb.
             Inr (JObj [(''status'', prop_of health ''status''), (''basisId'', hb)]))))))))))"

definition decision_r :: "(js_error \<Rightarrow> string) \<Rightarrow> jsval \<Rightarrow> thrown + jsval" where
  "decision_r say decision = thrown_r say (get_r decision ''allowed'')"

definition authorizationCase :: "(js_error \<Rightarrow> string) \<Rightarrow> jsval \<Rightarrow> 's qualification_case" where
  "authorizationCase say exemplar = operationCase say (''authorization-'' @ the_text (prop_of exemplar ''id'')) ''authorization'' [''check-permission''] (\<lambda>t descriptor.
     await (done_with (thrown_r say (demandInput (prop_of exemplar ''demand'') descriptor))) (\<lambda>input.
     await (request_data say t ''check-permission'' input) (\<lambda>decision.
     await (done_with (decision_r say decision)) (\<lambda>allowed.
     await (done_with (thrown_r say (path_r exemplar [''expected'', ''allowed'']))) (\<lambda>expected.
     if \<not> strict_eq allowed expected then throw (''authorization exemplar '' @ the_text (prop_of exemplar ''id'') @ '' disagrees'')
     else pure (JObj [(''allowed'', allowed)]))))))"

subsection \<open>Relationships\<close>

definition page_of :: "(js_error \<Rightarrow> string) \<Rightarrow> 's checked_transport \<Rightarrow> string \<Rightarrow> int \<Rightarrow> jsval \<Rightarrow> ('s, jsval) action" where
  "page_of say t operation maximum input =
     await (request_data say t operation input) (\<lambda>page. await (done_with (thrown_r say (assertPage page maximum))) (\<lambda>_. pure page))"

definition relationshipCase :: "(js_error \<Rightarrow> string) \<Rightarrow> 's qualification_case" where
  "relationshipCase say = operationCase say ''relationship-filter-and-shape'' ''relationship'' [''list-relationships''] (\<lambda>t descriptor.
     await (done_with (thrown_r say (advertisedConsistency descriptor))) (\<lambda>mode.
     await (page_of say t ''list-relationships'' 25 (JObj [(''resourceType'', JStr ''account''), (''resourceId'', JStr ''account-0''),
       (''relation'', JStr ''owner''), (''pageSize'', JInt 25), (''consistency'', mode)])) (\<lambda>page.
     await (done_with (thrown_r say (some_item (\<lambda>x. prop_of x ''relation'' \<noteq> JStr ''owner'' \<or> prop_of x ''resourceType'' \<noteq> JStr ''account''
         \<or> prop_of x ''resourceId'' \<noteq> JStr ''account-0'') page))) (\<lambda>outside.
     if outside then throw ''relationship filter returned an out-of-scope item''
     else pure (JObj [(''items'', JInt (int (length (items (prop_of page ''items'')))))])))))"

definition reverseRelationshipCase :: "(js_error \<Rightarrow> string) \<Rightarrow> 's qualification_case" where
  "reverseRelationshipCase say = operationCase say ''reverse-relationship-discovery'' ''relationship'' [''reverse-relationships''] (\<lambda>t descriptor.
     await (done_with (thrown_r say (advertisedConsistency descriptor))) (\<lambda>mode.
     await (page_of say t ''reverse-relationships'' 25 (JObj [(''subjectType'', JStr ''user''), (''subjectId'', JStr ''user-1''),
       (''relation'', JStr ''owner''), (''pageSize'', JInt 25), (''consistency'', mode)])) (\<lambda>page.
     if list_ex nullish (items (prop_of page ''items'')) then done_with (Inl (raised_by say Type_Error))
     else if \<not> distinct (map item_key (items (prop_of page ''items''))) then throw ''reverse relationship discovery returned duplicates''
     else pure (JObj [(''items'', JInt (int (length (items (prop_of page ''items'')))))]))))"

subsection \<open>Pages and cursors\<close>

definition subjects_input :: "jsval option \<Rightarrow> jsval" where
  "subjects_input cursor = JObj ([(''type'', JStr ''user''), (''pageSize'', JInt 1)] @ (case cursor of None \<Rightarrow> [] | Some c \<Rightarrow> [(''cursor'', c)]))"

definition paginationAndCursorCase :: "(js_error \<Rightarrow> string) \<Rightarrow> 's qualification_case" where
  "paginationAndCursorCase say = operationCase say ''pagination-cursor-scope'' ''pagination-cursor'' [''list-subjects''] (\<lambda>t descriptor.
     await (page_of say t ''list-subjects'' 1 (subjects_input None)) (\<lambda>first.
     let next_cursor = prop_of (prop_of first ''pageInfo'') ''endCursor'' in
     if \<not> truthy (prop_of (prop_of first ''pageInfo'') ''hasNextPage'') then throw ''canonical user fixture did not expose a second bounded page''
     else await (page_of say t ''list-subjects'' 1 (subjects_input (Some next_cursor))) (\<lambda>second.
     await (done_with (thrown_r say (bind_r (some_item (\<lambda>x. False) first) (\<lambda>_.
       some_item (\<lambda>x. item_key x \<in> item_key ` set (items (prop_of first ''items''))) second)))) (\<lambda>repeated.
     if repeated then throw ''cursor pagination returned a duplicate across pages''
     else await (expectFailure (ask t ''list-subjects'' (subjects_input (Some (JStr (mutateCursor (the_str next_cursor)))))) ''cursor-invalid'') (\<lambda>_.
     pure (JObj [(''firstItems'', JInt (int (length (items (prop_of first ''items''))))), (''secondItems'', JInt (int (length (items (prop_of second ''items''))))),
       (''tamperRejected'', JBool True)]))))))"

fun add_keys :: "string list \<Rightarrow> jsval list \<Rightarrow> js_error + string list" where
  "add_keys seen [] = Inr seen"
| "add_keys seen (x # xs) =
     throw_if (nullish x) Type_Error
     (throw_if (item_key x \<in> set seen) (Error ''resource cursor repeated an item across HTTP requests'') (add_keys (seen @ [item_key x]) xs))"

definition lookup_input :: "jsval \<Rightarrow> jsval \<Rightarrow> int \<Rightarrow> jsval \<Rightarrow> jsval option \<Rightarrow> jsval" where
  "lookup_input subject query pageSize mode cursor =
     JObj ([(''subjectType'', prop_of subject ''type''), (''subjectId'', prop_of subject ''id''), (''permission'', prop_of query ''permission''),
       (''resourceType'', prop_of query ''resourceType''), (''pageSize'', JInt pageSize), (''consistency'', mode)]
       @ (case cursor of None \<Rightarrow> [] | Some c \<Rightarrow> [(''cursor'', c)]))"

fun page_loop ::
    "(js_error \<Rightarrow> string) \<Rightarrow> 's checked_transport \<Rightarrow> (jsval option \<Rightarrow> jsval) \<Rightarrow> int \<Rightarrow> int \<Rightarrow> nat \<Rightarrow> nat \<Rightarrow> jsval option \<Rightarrow> string list \<Rightarrow> ('s, jsval) action" where
  "page_loop say t input pageSize expectedCount 0 pageNumber cursor seen s =
     throw ''resource cursor did not terminate within the fixture page bound'' s"
| "page_loop say t input pageSize expectedCount (Suc n) pageNumber cursor seen s =
     await (page_of say t ''lookup-resources'' pageSize (input cursor)) (\<lambda>page.
       await (done_with (thrown_r say (add_keys seen (items (prop_of page ''items''))))) (\<lambda>found.
       if \<not> truthy (prop_of (prop_of page ''pageInfo'') ''hasNextPage'') then
         if int (length found) \<noteq> expectedCount then throw ''resource cursor did not enumerate the expected fixture grants''
         else pure (JObj [(''items'', JInt (int (length found))), (''pages'', JInt (int pageNumber + 1))])
       else page_loop say t input pageSize expectedCount n (Suc pageNumber) (Some (prop_of (prop_of page ''pageInfo'') ''endCursor'')) found)) s"

definition maximum_pages :: "int \<Rightarrow> int \<Rightarrow> nat" where
  "maximum_pages expectedCount pageSize = nat (\<lceil>of_int expectedCount / (of_int pageSize :: rat)\<rceil> + 1)"

definition resourcePaginationCase :: "(js_error \<Rightarrow> string) \<Rightarrow> jsval \<Rightarrow> 's qualification_case" where
  "resourcePaginationCase say exemplar =
     operationCase say (''resource-pagination-'' @ the_text (prop_of exemplar ''id'')) ''pagination-cursor'' [''lookup-resources''] (\<lambda>t descriptor.
       let query = prop_of exemplar ''query''; pageSize = the_int (prop_of query ''pageSize'');
           expectedCount = the_int (prop_of (prop_of exemplar ''expected'') ''concatenatedCount'') in
       await (done_with (thrown_r say (advertisedConsistency descriptor))) (\<lambda>mode.
       page_loop say t (lookup_input (prop_of query ''subject'') query pageSize mode) pageSize expectedCount (maximum_pages expectedCount pageSize) 0 None []))"

subsection \<open>Cache and consistency\<close>

definition plain_object :: "jsval \<Rightarrow> bool" where
  "plain_object v \<longleftrightarrow> (case v of JObj _ \<Rightarrow> True | _ \<Rightarrow> False)"

definition cacheCase :: "(js_error \<Rightarrow> string) \<Rightarrow> (string \<Rightarrow> bool) \<Rightarrow> jsval \<Rightarrow> 's qualification_case" where
  "cacheCase say date_ok exemplar =
     operationCase say ''cache-semantic-equivalence'' ''cache'' [''check-permission'', ''get-cache-info''] (\<lambda>t descriptor.
       if prop_of (prop_of descriptor ''capabilities'') ''cacheBehavior'' = JStr ''none'' then pure (unsupportedResult (JStr ''The profile descriptor advertises no cache.''))
       else await (done_with (thrown_r say (bind_r (path_r exemplar [''demand'']) (\<lambda>d. demandInput d descriptor)))) (\<lambda>input.
         await (request_data say t ''check-permission'' input) (\<lambda>first.
         await (request_data say t ''check-permission'' input) (\<lambda>second.
         await (done_with (decision_r say first)) (\<lambda>a. await (done_with (decision_r say second)) (\<lambda>b.
         if \<not> strict_eq a b then throw ''cached and uncached authorization semantics differ''
         else await (request_data say t ''get-cache-info'' (JObj [])) (\<lambda>cache.
           if nullish cache then done_with (Inl (raised_by say Type_Error))
           else if \<not> plain_object (prop_of cache ''provider'') \<or> \<not> plain_object (prop_of cache ''operations'') \<or> \<not> str_satisfies date_ok (prop_of cache ''capturedAt'')
           then throw ''cache metrics payload is incomplete''
           else pure (JObj [(''providerMetrics'', JInt (int (length (props (prop_of cache ''provider''))))),
             (''measuredOperations'', JInt (int (length (props (prop_of cache ''operations''))))), (''stableDecision'', a)]))))))))"

fun each_mode ::
    "(js_error \<Rightarrow> string) \<Rightarrow> 's checked_transport \<Rightarrow> jsval \<Rightarrow> jsval \<Rightarrow> jsval list \<Rightarrow> jsval list \<Rightarrow> ('s, jsval) action" where
  "each_mode say t exemplar descriptor [] outcomes s = pure (JObj [(''modes'', JStr (the_text (JArr outcomes)))]) s"
| "each_mode say t exemplar descriptor (mode # modes) outcomes s =
     await (done_with (thrown_r say (bind_r (path_r exemplar [''demand'']) (\<lambda>d. bind_r (demandInput d descriptor) (\<lambda>input.
         if mode = JStr ''historical-date''
         then bind_r (path_r descriptor [''basis'', ''capturedAt'']) (\<lambda>instant. Inr (spread [input, JObj [(''consistency'', mode), (''atExactSnapshotAt'', instant)]]))
         else Inr (spread [input, JObj [(''consistency'', mode)]]))))))
       (\<lambda>input. await (request_data say t ''check-permission'' input) (\<lambda>decision. await (done_with (decision_r say decision)) (\<lambda>allowed.
        await (done_with (thrown_r say (path_r exemplar [''expected'', ''allowed'']))) (\<lambda>expected.
        if \<not> strict_eq allowed expected then throw (''advertised consistency '' @ the_text mode @ '' changed semantics'')
        else each_mode say t exemplar descriptor modes (outcomes @ [mode]))))) s"

definition modes_r :: "jsval \<Rightarrow> js_error + jsval list" where
  "modes_r descriptor = bind_r (path_r descriptor [''capabilities'', ''consistencyModes'']) (\<lambda>v. case v of JArr ms \<Rightarrow> Inr ms | _ \<Rightarrow> Inl Type_Error)"

definition consistencyCase :: "(js_error \<Rightarrow> string) \<Rightarrow> jsval \<Rightarrow> 's qualification_case" where
  "consistencyCase say exemplar = operationCase say ''advertised-consistency-modes'' ''consistency'' [''check-permission''] (\<lambda>t descriptor.
     await (done_with (thrown_r say (modes_r descriptor))) (\<lambda>modes. each_mode say t exemplar descriptor modes []))"

definition unsupportedConsistencyCase :: "(js_error \<Rightarrow> string) \<Rightarrow> jsval \<Rightarrow> 's qualification_case" where
  "unsupportedConsistencyCase say exemplar =
     operationCase say ''unsupported-consistency-rejection'' ''consistency-failure'' [''check-permission''] (\<lambda>t descriptor.
       await (done_with (thrown_r say (modes_r descriptor))) (\<lambda>modes.
       case find (\<lambda>m. \<not> includes_value modes (JStr m)) CONSISTENCY_MODES of
         None \<Rightarrow> pure (unsupportedResult (JStr ''The profile advertises every closed consistency mode.''))
       | Some m \<Rightarrow>
           await (expectFailure (await (done_with (thrown_r say (bind_r (path_r exemplar [''demand'']) (\<lambda>d. demandInput d descriptor))))
               (\<lambda>input. ask t ''check-permission'' (spread [input, JObj [(''consistency'', JStr m)]]))) ''unsupported-consistency'')
             (\<lambda>_. pure (JObj [(''rejectedMode'', JStr m)]))))"

subsection \<open>Failures and cleanup\<close>

definition secret_like :: string where
  "secret_like = concat [''https'', ''://'', ''user'', '':'', ''password'', ''@example.invalid/token'', ''?secret'', ''=value'']"

definition failureAndRedactionCase :: "(js_error \<Rightarrow> string) \<Rightarrow> 's qualification_case" where
  "failureAndRedactionCase say = operationCase say ''validation-failure-redaction'' ''failure-redaction'' [''check-permission''] (\<lambda>t descriptor s.
     (case captureFailure (ask t ''check-permission'' (JObj [(''subjectType'', JStr ''user''), (''subjectId'', JStr secret_like)])) s of
        ((code, seen), s') \<Rightarrow>
          (if code \<noteq> JStr ''validation-error'' then Inl (raised (''malformed authorization returned '' @ the_text (nullish_or code (JStr ''no stable code''))))
           else if contains secret_like (json seen) \<or> contains ''password'' (json seen) then Inl (raised ''validation failure reflected secret-like input'')
           else Inr (JObj [(''code'', code), (''reflectedInput'', JBool False)]), s')))"

definition cleanupCase :: "'s qualification_case" where
  "cleanupCase =
     \<lparr>case_id = ''cancellation-cleanup'', category = ''cleanup'', applies = Some (\<lambda>descriptor. Inr (JObj [(''supported'', JBool True)])),
      run_case = (\<lambda>t descriptor expected. case probeCancellationCleanup t of
          None \<Rightarrow> pure (unsupportedResult (JStr ''This transport does not expose an initial-qualification cleanup probe.''))
        | Some probe \<Rightarrow> await probe (\<lambda>result.
            if prop_of result ''releasedExactlyOnce'' \<noteq> JBool True \<or> prop_of result ''lateReplySuppressed'' \<noteq> JBool True
            then throw ''cancellation cleanup probe failed'' else pure result))\<rparr>"

definition of_kind :: "string \<Rightarrow> jsval \<Rightarrow> jsval list" where
  "of_kind k exemplars = filter (\<lambda>x. prop_of x ''kind'' = JStr k) (items (prop_of exemplars ''cases''))"

definition commonQualificationCases :: "(js_error \<Rightarrow> string) \<Rightarrow> (string \<Rightarrow> bool) \<Rightarrow> jsval \<Rightarrow> 's qualification_case list" where
  "commonQualificationCases say date_ok exemplars =
     (let decisions = of_kind ''decision'' exemplars; first = (case decisions of [] \<Rightarrow> JUndef | d # ds \<Rightarrow> d) in
      [healthCase say] @ map (authorizationCase say) decisions @ [relationshipCase say, reverseRelationshipCase say, paginationAndCursorCase say]
      @ map (resourcePaginationCase say) (of_kind ''pagination'' exemplars)
      @ [cacheCase say date_ok first, consistencyCase say first, unsupportedConsistencyCase say first, failureAndRedactionCase say, cleanupCase])"

subsection \<open>The page bound suffices\<close>

text \<open>
  A server that pages a list: the cursor is the offset of the next page, and the last page has none.
\<close>

definition served_page :: "jsval list \<Rightarrow> nat \<Rightarrow> nat \<Rightarrow> jsval" where
  "served_page l p off =
     JObj [(''items'', JArr (take p (drop off l))),
       (''pageInfo'', JObj [(''pageSize'', JInt (int p)), (''hasNextPage'', JBool (off + p < length l)),
         (''endCursor'', if off + p < length l then JStr (nat_str (off + p)) else JNull)])]"

definition offset_of :: "jsval \<Rightarrow> nat" where
  "offset_of input = (case prop_of input ''cursor'' of JStr c \<Rightarrow> index_value c | _ \<Rightarrow> 0)"

definition paging_server :: "jsval list \<Rightarrow> nat \<Rightarrow> 's checked_transport" where
  "paging_server l p = \<lparr>ask = (\<lambda>operation input s. (Inr (JObj [(''data'', served_page l p (offset_of input))]), s)), probeCancellationCleanup = None\<rparr>"

definition cursor_at :: "nat \<Rightarrow> jsval option" where
  "cursor_at off = (if off = 0 then None else Some (JStr (nat_str off)))"

lemma served_page_of:
  "page_of say (paging_server l p) ''lookup-resources'' (int p) (lookup_input subject query (int p) mode (cursor_at off)) s
     = (Inr (served_page l p off), s)"
proof -
  have "assertPage (served_page l p off) (int p) = Inr ()"
    by (simp add: assertPage_def served_page_def prop_of_def num_less_def str_satisfies_def Suc_le_eq)
  moreover have "offset_of (lookup_input subject query (int p) mode (cursor_at off)) = off"
    by (cases "off = 0") (simp_all add: offset_of_def lookup_input_def cursor_at_def prop_of_def index_value_nat_str)
  ultimately show ?thesis
    by (simp add: page_of_def request_data_def await_def done_with_def paging_server_def successfulData_def has_prop_def prop_of_def [of "JObj (_ # _)"] thrown_r_def)
qed

lemma add_keys_fresh:
  "list_all (\<lambda>x. \<not> nullish x) xs \<Longrightarrow> distinct (seen @ map item_key xs) \<Longrightarrow> add_keys seen xs = Inr (seen @ map item_key xs)"
  by (induction seen xs rule: add_keys.induct) auto

definition distinct_items :: "jsval list \<Rightarrow> bool" where
  "distinct_items l \<longleftrightarrow> list_all (\<lambda>x. \<not> nullish x) l \<and> distinct (map item_key l)"

lemma add_page:
  assumes "distinct_items l"
  shows "add_keys (map item_key (take off l)) (take p (drop off l)) = Inr (map item_key (take (off + p) l))"
proof -
  have t: "take (off + p) l = take off l @ take p (drop off l)" by (rule take_add)
  have "list_all (\<lambda>x. \<not> nullish x) (take p (drop off l))" using assms by (auto simp: distinct_items_def list_all_iff dest: in_set_takeD in_set_dropD)
  moreover have "distinct (map item_key (take off l) @ map item_key (take p (drop off l)))"
    using assms unfolding distinct_items_def map_append [symmetric] t [symmetric] by (metis distinct_take take_map)
  ultimately show ?thesis by (simp add: add_keys_fresh t)
qed

lemma page_loop_step:
  assumes "distinct_items l"
  shows "page_loop say (paging_server l p) (lookup_input subject query (int p) mode) (int p) expectedCount (Suc n) k (cursor_at off) (map item_key (take off l)) s
    = (if off + p < length l
       then page_loop say (paging_server l p) (lookup_input subject query (int p) mode) (int p) expectedCount n (Suc k) (Some (JStr (nat_str (off + p))))
         (map item_key (take (off + p) l)) s
       else if int (length l) \<noteq> expectedCount then throw ''resource cursor did not enumerate the expected fixture grants'' s
       else pure (JObj [(''items'', JInt (int (length l))), (''pages'', JInt (int k + 1))]) s)"
proof -
  have "items (prop_of (served_page l p off) ''items'') = take p (drop off l)"
    "prop_of (prop_of (served_page l p off) ''pageInfo'') ''hasNextPage'' = JBool (off + p < length l)"
    "off + p < length l \<Longrightarrow> prop_of (prop_of (served_page l p off) ''pageInfo'') ''endCursor'' = JStr (nat_str (off + p))"
    by (simp_all add: served_page_def prop_of_def)
  with add_page [OF assms, of off p] show ?thesis
    by (simp add: await_def served_page_of done_with_def thrown_r_def del: take_add)
qed

lemma page_loop_served:
  assumes l: "distinct_items l" and p: "0 < p"
  shows "case page_loop say (paging_server l p) (lookup_input subject query (int p) mode) (int p) expectedCount n k (cursor_at off) (map item_key (take off l)) s of
     (Inl e, s') \<Rightarrow> \<not> (expectedCount = int (length l) \<and> 0 < n \<and> length l \<le> off + n * p)
   | (Inr d, s') \<Rightarrow> expectedCount = int (length l) \<and> prop_of d ''items'' = JInt expectedCount"
proof (induction n arbitrary: k off)
  case (Suc n)
  show ?case
  proof (cases "off + p < length l")
    case True
    then have "cursor_at (off + p) = Some (JStr (nat_str (off + p)))" using p by (simp add: cursor_at_def)
    moreover have "0 < Suc n \<and> length l \<le> off + Suc n * p \<longleftrightarrow> 0 < n \<and> length l \<le> off + p + n * p" using True by (cases n) auto
    ultimately show ?thesis using Suc [of "off + p" "Suc k"] True unfolding page_loop_step [OF l] by (simp only: if_True)
  next
    case False
    then show ?thesis unfolding page_loop_step [OF l] by (simp add: done_with_def prop_of_def)
  qed
qed (simp add: done_with_def)

lemma page_bound: "0 < p \<Longrightarrow> 0 < maximum_pages (int n) (int p) \<and> n \<le> maximum_pages (int n) (int p) * p"
proof -
  assume p: "0 < p"
  let ?c = "\<lceil>of_int (int n) / (of_int (int p) :: rat)\<rceil>"
  have "(0 :: rat) \<le> of_int (int n) / of_int (int p)" by simp
  then have "0 \<le> ?c" by linarith
  moreover have "(of_nat n :: rat) \<le> of_int ?c * of_nat p"
    using le_of_int_ceiling [of "of_nat n / (of_nat p :: rat)"] p
    by (simp add: pos_divide_le_eq [of "of_nat p"] del: le_of_int_ceiling)
  then have "int n \<le> ?c * int p" by (metis (mono_tags, lifting) of_int_le_iff of_int_mult of_int_of_nat_eq)
  ultimately show ?thesis using p by (simp add: maximum_pages_def) (smt (verit) int_nat_eq mult_right_mono nat_le_iff of_nat_0_le_iff of_nat_mult zle_int)
qed

text \<open>
  C34 The pagination case is a fair judge: against a server that pages a list of distinct items and
  advertises a consistency mode it passes exactly when the list has the expected length, so the bound
  on the number of pages never cuts off a server that behaves, whatever the page size.
\<close>

theorem pagination_case_decides:
  "(let exemplar = JObj [(''id'', i), (''query'', JObj [(''subject'', subject), (''permission'', permission), (''resourceType'', kind), (''pageSize'', JInt (int p))]),
                         (''expected'', JObj [(''concatenatedCount'', JInt (int expectedCount))])] in
    if distinct_items l \<and> 0 < p \<and> (case advertisedConsistency descriptor of Inl e \<Rightarrow> False | Inr mode \<Rightarrow> True)
    then (case run_case (resourcePaginationCase say exemplar) (paging_server l p) descriptor expected s of
            (Inl e, s') \<Rightarrow> expectedCount \<noteq> length l
          | (Inr d, s') \<Rightarrow> expectedCount = length l \<and> prop_of d ''items'' = JInt (int expectedCount))
    else True)"
proof (cases "advertisedConsistency descriptor")
  case (Inr mode)
  show ?thesis
  proof (cases "distinct_items l \<and> 0 < p")
    case True
    let ?q = "JObj [(''subject'', subject), (''permission'', permission), (''resourceType'', kind), (''pageSize'', JInt (int p))]"
    have "run_case (resourcePaginationCase say (JObj [(''id'', i), (''query'', ?q), (''expected'', JObj [(''concatenatedCount'', JInt (int expectedCount))])]))
        (paging_server l p) descriptor expected s
      = page_loop say (paging_server l p) (lookup_input subject ?q (int p) mode) (int p) (int expectedCount) (maximum_pages (int expectedCount) (int p)) 0
          (cursor_at 0) (map item_key (take 0 l)) s"
      by (simp add: resourcePaginationCase_def operationCase_def Let_def Inr await_def done_with_def thrown_r_def cursor_at_def prop_of_def [of "JObj (_ # _)"])
    moreover note page_loop_served [where off = 0 and k = 0 and l = l and p = p and n = "maximum_pages (int expectedCount) (int p)" and say = say
        and subject = subject and query = ?q and mode = mode and expectedCount = "int expectedCount" and s = s]
    ultimately show ?thesis using True page_bound [of p expectedCount] unfolding Let_def
      by (auto simp: Inr split: prod.splits sum.splits)
  qed (auto simp: Let_def)
qed (auto simp: Let_def)

end
