(* ===== verification/Qualification_Reports.thy ===== *)
theory Qualification_Reports
  imports Qualification_Runner
begin

text \<open>
  \<open>packages/qualification/src/reports.mjs\<close>: the validation of a report, its redaction and its two
  printed forms. The em dash, outside the code units of the model, is the parameter \<open>dash\<close>; the
  platform's URL parser and \<open>node:path\<close> are parameters.
\<close>

definition REPORT_SCHEMA :: string where "REPORT_SCHEMA = ''eacl-demo.qualification-report.v1''"

subsection \<open>Validation\<close>

fun tally :: "jsval list \<Rightarrow> (string \<times> jsval) list \<Rightarrow> js_error + (string \<times> jsval) list" where
  "tally [] counts = Inr counts"
| "tally (entry # es) counts =
     bind_r (get_r entry ''status'') (\<lambda>k.
     throw_if (\<not> member_of STATUSES k) (Error ''qualification case status is invalid'')
     (tally es (bump_status (the_str k) counts)))"

definition validateQualification :: "jsval \<Rightarrow> js_error + unit" where
  "validateQualification report =
     throw_if (\<not> truthy report \<or> prop_of report ''schema'' \<noteq> JStr REPORT_SCHEMA \<or> \<not> truthy (prop_of report ''identity'')
         \<or> (case prop_of report ''cases'' of JArr _ \<Rightarrow> False | _ \<Rightarrow> True) \<or> \<not> truthy (prop_of report ''counts'')
         \<or> \<not> member_of [''pass'', ''fail''] (prop_of report ''result''))
       (Error ''qualification report is invalid'')
     (bind_r (tally (items (prop_of report ''cases'')) NO_RESULTS) (\<lambda>actual.
      throw_if (list_ex (\<lambda>(k, n). \<not> strict_eq (prop_of (prop_of report ''counts'') k) n) actual)
        (Error ''qualification report counts are inconsistent'')
      (throw_if (JStr (if prop_of (JObj actual) ''failed'' = JInt 0 then ''pass'' else ''fail'') \<noteq> prop_of report ''result'')
        (Error ''qualification report result is inconsistent'') (Inr ()))))"

definition validateWorkload :: "jsval \<Rightarrow> jsval \<Rightarrow> js_error + unit" where
  "validateWorkload workload profileId =
     throw_if (\<not> truthy workload \<or> prop_of workload ''schema'' \<noteq> JStr ''eacl-demo.qualification-workload.v1''
         \<or> \<not> strict_eq (prop_of workload ''profileId'') profileId
         \<or> (case prop_of workload ''phases'' of JArr _ \<Rightarrow> False | _ \<Rightarrow> True) \<or> \<not> member_of [''pass'', ''fail''] (prop_of workload ''result''))
       (Error ''qualification workload report is invalid'')
     (bind_r (mapM_r (\<lambda>phase. bind_r (get_r phase ''status'') (\<lambda>k.
         throw_if (\<not> member_of STATUSES k) (Error ''qualification workload phase status is invalid'') (Inr ()))) (items (prop_of workload ''phases'')))
       (\<lambda>_. Inr ()))"

subsection \<open>Redaction\<close>

definition secret_key :: "string \<Rightarrow> bool" where
  "secret_key k \<longleftrightarrow> list_ex (\<lambda>w. contains w (to_lower k)) [''authorization'', ''credential'', ''password'', ''secret'', ''token'']"

definition validatedPublicOrigin :: "(string \<Rightarrow> string option \<Rightarrow> parsed_url option) \<Rightarrow> string \<Rightarrow> string" where
  "validatedPublicOrigin parse s = (case parse s None of
     None \<Rightarrow> ''[redacted]''
   | Some url \<Rightarrow>
       if protocol url \<notin> {''http:'', ''https:''} \<or> username url \<noteq> [] \<or> password url \<noteq> [] \<or> search url \<noteq> [] \<or> hash url \<noteq> [] \<or> pathname url \<noteq> ''/''
       then ''[redacted]'' else origin url)"

definition ORIGIN_PATH :: string where "ORIGIN_PATH = ''qualification.target.origin''"

fun redactDeep :: "(string \<Rightarrow> string option \<Rightarrow> parsed_url option) \<Rightarrow> string \<Rightarrow> string list \<Rightarrow> jsval \<Rightarrow> jsval" where
  "redactDeep parse key path (JArr vs) = JArr (map (redactDeep parse key path) vs)"
| "redactDeep parse key path (JObj kvs) = JObj (from_entries (map (\<lambda>(k, v). (k, redactDeep parse k (path @ [k]) v)) kvs))"
| "redactDeep parse key path v =
     (if secret_key key then JStr ''[redacted]''
      else (case v of
         JStr s \<Rightarrow> JStr (if join ''.'' path = ORIGIN_PATH then validatedPublicOrigin parse s else replace_sensitive True False s)
       | _ \<Rightarrow> v))"

subsection \<open>The printed forms\<close>

fun sortDeep :: "jsval \<Rightarrow> jsval" where
  "sortDeep (JArr vs) = JArr (map sortDeep vs)"
| "sortDeep (JObj kvs) = JObj (from_entries (map (\<lambda>(k, v). (k, sortDeep v)) (sort_key fst kvs)))"
| "sortDeep v = v"

fun indented :: "string \<Rightarrow> jsval \<Rightarrow> string" where
  \<comment> \<open>\<open>JSON.stringify(v, null, 2)\<close> below the given indentation\<close>
  "indented pad (JArr vs) =
     (if vs = [] then ''[]'' else ''['' @ [CHR 10] @ join ('','' @ [CHR 10]) (map (\<lambda>v. pad @ ''  '' @ (if v = JUndef then ''null'' else indented (pad @ ''  '') v)) vs)
        @ [CHR 10] @ pad @ '']'')"
| "indented pad (JObj kvs) =
     (if list_all (\<lambda>(k, v). v = JUndef) kvs then ''{}''
      else ''{'' @ [CHR 10] @ join ('','' @ [CHR 10]) (map (\<lambda>(k, v). pad @ ''  '' @ json_str k @ '': '' @ indented (pad @ ''  '') v) (filter (\<lambda>(k, v). v \<noteq> JUndef) kvs))
        @ [CHR 10] @ pad @ ''}'')"
| "indented pad v = json v"

fun escape_text :: "string \<Rightarrow> string" where
  "escape_text [] = []"
| "escape_text (c # cs) =
     (if c = CHR ''|'' then CHR 92 # CHR ''|'' # escape_text cs
      else if c = CHR 10 then CHR '' '' # escape_text cs
      else if c = CHR 13 \<and> cs \<noteq> [] \<and> hd cs = CHR 10 then CHR '' '' # escape_text (tl cs)
      else c # escape_text cs)"

definition escapeCell :: "jsval \<Rightarrow> string" where
  "escapeCell v = escape_text (the_text v)"

definition case_row :: "string \<Rightarrow> jsval \<Rightarrow> string" where
  "case_row dash entry = ''| '' @ the_text (prop_of entry ''status'') @ '' | '' @ escapeCell (prop_of entry ''category'') @ '' | ''
     @ escapeCell (prop_of entry ''id'') @ '' | '' @ the_text (prop_of entry ''durationMs'') @ '' | ''
     @ escapeCell (nullish_or (prop_of entry ''reason'') (JStr dash)) @ '' |''"

definition phase_row :: "string \<Rightarrow> jsval \<Rightarrow> string" where
  "phase_row dash phase =
     (let latency = prop_of phase ''latencyMs''; memory = prop_of phase ''memory'' in
      ''| '' @ the_text (prop_of phase ''phase'') @ '' | '' @ the_text (prop_of phase ''status'') @ '' | '' @ the_text (prop_of phase ''samples'') @ '' | ''
      @ the_text (prop_of phase ''errors'') @ '' | '' @ the_text (nullish_or (prop_of latency ''p50'') (JStr dash)) @ '' | ''
      @ the_text (nullish_or (prop_of latency ''p95'') (JStr dash)) @ '' | '' @ the_text (nullish_or (prop_of memory ''minimumHeadroomPercent'') (JStr dash))
      @ ''% | '' @ escapeCell (nullish_or (prop_of phase ''reason'') (JStr dash)) @ '' |'')"

definition DOT :: string where "DOT = '' '' @ [CHR 0xB7] @ '' ''"

definition report_lines :: "string \<Rightarrow> jsval \<Rightarrow> string list" where
  "report_lines dash q =
     (let counts = prop_of q ''counts'' in
      [''# EACL demo qualification report'', [], ''Overall result: **'' @ to_upper (the_text (prop_of q ''result'')) @ ''**'', [],
       ''## Identity'', [], ''| Field | Value |'', ''| --- | --- |'']
      @ map (\<lambda>(k, v). ''| '' @ escapeCell (JStr k) @ '' | `'' @ escapeCell v @ ''` |'') (props (prop_of q ''identity''))
      @ [[], ''## Contract cases'', [],
         ''Passed: **'' @ the_text (prop_of counts ''passed'') @ ''**'' @ DOT @ ''Failed: **'' @ the_text (prop_of counts ''failed'') @ ''**'' @ DOT
           @ ''Unsupported: **'' @ the_text (prop_of counts ''unsupported'') @ ''**'', [],
         ''> Unsupported means the profile did not advertise the capability. It is not a failed behavior check.'', [],
         ''| Status | Category | Case | Duration (ms) | Reason |'', ''| --- | --- | --- | ---: | --- |'']
      @ map (case_row dash) (items (prop_of q ''cases'')))"

definition workload_lines :: "string \<Rightarrow> jsval \<Rightarrow> string list" where
  "workload_lines dash w =
     [[], ''## Representative workloads'', [],
      ''Workload result: **'' @ to_upper (the_text (prop_of w ''result'')) @ ''**'' @ DOT @ ''Dataset: `'' @ escapeCell (prop_of (prop_of w ''dataset'') ''fixtureId'')
        @ ''`'' @ DOT @ ''Concurrency: **'' @ the_text (prop_of w ''concurrency'') @ ''**'', [],
      ''| Phase | Status | Samples | Errors | p50 (ms) | p95 (ms) | Minimum headroom | Reason |'',
      ''| --- | --- | ---: | ---: | ---: | ---: | ---: | --- |'']
     @ map (phase_row dash) (items (prop_of w ''phases''))"

definition renderMarkdown :: "string \<Rightarrow> jsval \<Rightarrow> string" where
  "renderMarkdown dash machine =
     (let w = prop_of machine ''workload'' in
      join [CHR 10] (report_lines dash (prop_of machine ''qualification'') @ (if truthy w then workload_lines dash w else []) @ [[]]) @ [CHR 10])"

record rendered =
  machine_form :: jsval
  json_form :: string
  markdown_form :: string

definition renderQualificationReports ::
    "(string \<Rightarrow> string option \<Rightarrow> parsed_url option) \<Rightarrow> string \<Rightarrow> jsval \<Rightarrow> jsval \<Rightarrow> js_error + rendered" where
  "renderQualificationReports parse dash qualification workload =
     bind_r (validateQualification qualification) (\<lambda>_.
     bind_r (if workload = JNull then Inr () else validateWorkload workload (prop_of (prop_of qualification ''identity'') ''profileId'')) (\<lambda>_.
     let machine = redactDeep parse [] [] (JObj [(''qualification'', qualification), (''workload'', workload)]) in
     Inr \<lparr>machine_form = machine, json_form = indented [] (sortDeep machine) @ [CHR 10], markdown_form = renderMarkdown dash machine\<rparr>))"

subsection \<open>Writing\<close>

text \<open>The two files are written under a temporary name and renamed; \<open>pid\<close> is the process.\<close>

datatype file_step = Make_Directory string | Write_Private string string | Rename_File string string

definition atomicWrite :: "(string \<Rightarrow> string) \<Rightarrow> string \<Rightarrow> string \<Rightarrow> string \<Rightarrow> file_step list" where
  "atomicWrite dirname pid path contents =
     (let temporary = path @ ''.tmp-'' @ pid in [Make_Directory (dirname path), Write_Private temporary contents, Rename_File temporary path])"

definition BASENAME :: regex where
  "BASENAME = Cat (plus_of (cls ''az09'' [])) (star (Cat (cls [] ''-_.'') (plus_of (cls ''az09'' []))))"

definition writeQualificationReports ::
    "(string \<Rightarrow> string option \<Rightarrow> parsed_url option) \<Rightarrow> string \<Rightarrow> (string \<Rightarrow> string) \<Rightarrow> (string \<Rightarrow> string \<Rightarrow> string) \<Rightarrow> string \<Rightarrow> jsval \<Rightarrow> jsval \<Rightarrow> jsval \<Rightarrow> jsval
      \<Rightarrow> js_error + (file_step list \<times> file_step list \<times> file_step list)" where
  \<comment> \<open>the directory, then the steps of the two concurrent writes\<close>
  "writeQualificationReports parse dash dirname join_path pid qualification workload outputDirectory basename =
     throw_if (\<not> str_satisfies (\<lambda>s. 1 \<le> length s) outputDirectory) (Error ''report outputDirectory is required'')
     (bind_r (reject_if [mismatch (matches BASENAME) basename] ''report basename is invalid'') (\<lambda>_.
      bind_r (renderQualificationReports parse dash qualification workload) (\<lambda>r.
      let file = (\<lambda>ext. join_path (the_str outputDirectory) (the_text basename @ ext)) in
      Inr ([Make_Directory (the_str outputDirectory)], atomicWrite dirname pid (file ''.json'') (json_form r), atomicWrite dirname pid (file ''.md'') (markdown_form r)))))"

subsection \<open>What a run reports is rendered\<close>

lemma tally_presentable:
  "list_all presentable rs \<Longrightarrow> tally rs acc = Inr (fold (\<lambda>r. bump_status (the_str (prop_of r ''status''))) rs acc)"
proof (induction rs arbitrary: acc)
  case (Cons r rs)
  then have "\<not> nullish r" "member_of STATUSES (prop_of r ''status'')" by (auto simp: presentable_def nullish_def)
  with Cons show ?case by (simp add: get_r_def)
qed simp

lemma valid_report:
  assumes "list_all presentable results"
  shows "validateQualification (JObj [(''schema'', JStr REPORT_SCHEMA),
      (''result'', JStr (if prop_of (JObj (count_results results)) ''failed'' = JInt 0 then ''pass'' else ''fail'')),
      (''startedAt'', a), (''completedAt'', b), (''target'', c), (''identity'', spread vs), (''descriptorIdentity'', d),
      (''releaseOutcome'', f), (''counts'', JObj (count_results results)), (''cases'', JArr results)]) = Inr ()"
proof -
  have t: "tally results NO_RESULTS = Inr (count_results results)"
    using tally_presentable [OF assms] by (simp add: count_results_def)
  have "list_all (\<lambda>(k, n). strict_eq (prop_of (JObj (count_results results)) k) n) (count_results results)"
    unfolding count_results_counts [OF assms] by (simp add: counts_of_def STATUSES_def prop_of_def strict_eq_def)
  then show ?thesis
    by (simp add: validateQualification_def prop_of_def [of "JObj (_ # _)"] spread_def member_of_def str_satisfies_def t list_ex_iff list_all_iff split_beta)
qed

fun scrubbed :: "string \<Rightarrow> string list \<Rightarrow> jsval \<Rightarrow> bool" where
  \<comment> \<open>no sensitive text outside the public origin, no plain value under a secret key\<close>
  "scrubbed key path (JArr vs) = list_all (scrubbed key path) vs"
| "scrubbed key path (JObj kvs) = list_all (\<lambda>(k, v). scrubbed k (path @ [k]) v) kvs"
| "scrubbed key path v =
     (if secret_key key then v = JStr ''[redacted]''
      else (case v of JStr s \<Rightarrow> (if join ''.'' path = ORIGIN_PATH then True else untouched True False s) | _ \<Rightarrow> True))"

lemma redactDeep_scrubbed: "scrubbed key path (redactDeep parse key path v)"
proof (induction parse key path v rule: redactDeep.induct)
  case (2 parse key path kvs)
  have "scrubbed k (path @ [k]) v" if "(k, v) \<in> set (from_entries (map (\<lambda>(k, v). (k, redactDeep parse k (path @ [k]) v)) kvs))" for k v
    using that from_entries_subset [of "map (\<lambda>(k, v). (k, redactDeep parse k (path @ [k]) v)) kvs"] 2 by fastforce
  then show ?case by (auto simp: list_all_iff)
qed (simp_all add: list_all_iff replaced_untouched)

lemma run_report:
  assumes "runQualification say elapsed parse startedAt completedAt target createTransport expected source s = (Inr report, s')"
  obtains t s1 descriptor results s2 shown outcome where
    "qualify say elapsed (identityCheckedTransport say t) expected source s1 = ((descriptor, results), s2)"
    "report = JObj [(''schema'', JStr REPORT_SCHEMA),
      (''result'', JStr (if prop_of (JObj (count_results results)) ''failed'' = JInt 0 then ''pass'' else ''fail'')),
      (''startedAt'', startedAt), (''completedAt'', completedAt), (''target'', shown), (''identity'', spread [expected]),
      (''descriptorIdentity'', nullish_or (prop_of descriptor ''identity'') JNull),
      (''releaseOutcome'', JStr outcome), (''counts'', JObj (count_results results)), (''cases'', JArr results)]"
proof -
  obtain create t s1 where "createTransport = Some create" "create s = (Inr t, s1)"
    and body: "(case qualify say elapsed (identityCheckedTransport say t) expected source s1 of
          ((descriptor, results), s2) \<Rightarrow>
            await (case raw_release t of
                None \<Rightarrow> pure ''not-created''
              | Some release \<Rightarrow> await release (\<lambda>b. pure (if b = JBool False then ''already-released'' else ''released'')))
              (\<lambda>releaseOutcome. await (done_with (thrown_r say (reportableTarget parse target))) (\<lambda>shown. pure (JObj
                 [(''schema'', JStr ''eacl-demo.qualification-report.v1''),
                  (''result'', JStr (if prop_of (JObj (count_results results)) ''failed'' = JInt 0 then ''pass'' else ''fail'')),
                  (''startedAt'', startedAt), (''completedAt'', completedAt), (''target'', shown),
                  (''identity'', spread [expected]), (''descriptorIdentity'', nullish_or (prop_of descriptor ''identity'') JNull),
                  (''releaseOutcome'', JStr releaseOutcome), (''counts'', JObj (count_results results)), (''cases'', JArr results)])))
              s2) = (Inr report, s')"
    using assms unfolding runQualification_def by (auto simp: await_Inr split: sum.splits option.splits case_source.splits)
  obtain descriptor results s2 where q: "qualify say elapsed (identityCheckedTransport say t) expected source s1 = ((descriptor, results), s2)"
    by (metis surj_pair)
  from body show thesis unfolding q prod.case await_Inr by (auto simp: REPORT_SCHEMA_def intro: that [OF q])
qed

lemma identity_present: "assertIdentity v expected = Inr True \<Longrightarrow> nullish_or v JNull = v"
  by (auto simp: assertIdentity_def validateIdentity_def nullish_or_def guard_facts)

text \<open>
  C33 A report that the runner returns is one the renderer accepts: the counts are those of its cases and
  its result is pass exactly when no case failed. A passing report has seen the deployment identify
  itself with every expected field, and no reason in a report carries a URL, a credential or a home path.
  What the renderer shows has no such text anywhere except the public origin of the target, and no plain
  value under a secret name.
\<close>

theorem qualification_reports_sound:
  "case runQualification say elapsed parse startedAt completedAt target createTransport expected source s of
     (Inl e, s') \<Rightarrow> True
   | (Inr report, s') \<Rightarrow>
       (if list_ex (has_status ''failed'') (items (prop_of report ''cases'')) then prop_of report ''result'' = JStr ''fail''
        else prop_of report ''result'' = JStr ''pass'' \<and> assertIdentity (prop_of report ''descriptorIdentity'') expected = Inr True)
       \<and> list_all presentable (items (prop_of report ''cases''))
       \<and> (case renderQualificationReports parse' dash report JNull of
            Inl e \<Rightarrow> False | Inr r \<Rightarrow> scrubbed [] [] (machine_form r))"
proof (cases "runQualification say elapsed parse startedAt completedAt target createTransport expected source s")
  case (Pair r s')
  show ?thesis
  proof (cases r)
    case (Inr report)
    from Pair [unfolded Inr] show ?thesis
    proof (cases rule: run_report)
      case (1 t s1 descriptor results s2 shown outcome)
      have ok: "list_all presentable results" using qualify_presentable [of say elapsed "identityCheckedTransport say t" expected source s1] by (simp add: 1(1))
      have shape: "prop_of report ''cases'' = JArr results" "prop_of report ''descriptorIdentity'' = nullish_or (prop_of descriptor ''identity'') JNull"
        "prop_of report ''result'' = JStr (if list_all (\<lambda>r. \<not> has_status ''failed'' r) results then ''pass'' else ''fail'')"
        unfolding 1(2) count_results_counts [OF ok] no_failures by (simp_all add: prop_of_def)
      have valid: "validateQualification report = Inr ()" unfolding 1(2) by (rule valid_report [OF ok])
      show ?thesis unfolding Pair Inr prod.case sum.case shape items.simps
        using ok qualify_pass [OF 1(1)] identity_present [of "prop_of descriptor ''identity''" expected]
        by (simp add: renderQualificationReports_def valid Let_def redactDeep_scrubbed list_ex_iff list_all_iff del: redactDeep.simps)
    qed
  qed (simp add: Pair)
qed

end
