(* ===== verification/Qualification_Workloads.thy ===== *)
theory Qualification_Workloads
  imports Qualification_Reports Machine "HOL-Library.Multiset"
begin

text \<open>
  \<open>packages/qualification/src/workloads.mjs\<close>: representative workloads in three phases. Latencies are
  rationals; \<open>since s t\<close> is the duration the clock measures between two states of the network. What
  floating point rounds is a parameter: \<open>quotient\<close> for a division, \<open>headroom_of\<close> for a percentage,
  \<open>rounded\<close> and \<open>printed\<close> for the numbers of the report. The products of \<open>percentile\<close> are exact:
  a count times 0.95 is at least 0.05 away from every integer it does not equal, and where it is one
  the double nearest to the product is that integer.
\<close>

definition PHASES :: "string list" where "PHASES = [''cold'', ''restore'', ''warm'']"

subsection \<open>Configuration\<close>

definition at_least_one :: "jsval \<Rightarrow> bool" where
  "at_least_one v \<longleftrightarrow> (case v of JInt i \<Rightarrow> is_safe_integer i \<and> 1 \<le> i | _ \<Rightarrow> False)"

definition finite_between :: "rat \<Rightarrow> rat option \<Rightarrow> jsval \<Rightarrow> bool" where
  "finite_between lo hi v \<longleftrightarrow> (case num_of v of None \<Rightarrow> False | Some q \<Rightarrow> lo \<le> q \<and> (case hi of None \<Rightarrow> True | Some h \<Rightarrow> q \<le> h))"

definition any_object :: "jsval \<Rightarrow> bool" where
  \<comment> \<open>\<open>v && typeof v === "object"\<close>\<close>
  "any_object v \<longleftrightarrow> (case v of JObj _ \<Rightarrow> True | JArr _ \<Rightarrow> True | _ \<Rightarrow> False)"

definition mix_entry_bad :: "jsval \<Rightarrow> js_error + bool" where
  "mix_entry_bad entry =
     (if nullish entry then Inl Type_Error
      else Inr (\<not> is_string (prop_of entry ''operation'') \<or> \<not> any_object (prop_of entry ''input'') \<or> \<not> at_least_one (prop_of entry ''weight'')
        \<or> \<not> member_of [''cold'', ''warm'', ''bypass''] (prop_of entry ''cacheState'')))"

definition is_array :: "jsval \<Rightarrow> bool" where
  "is_array v \<longleftrightarrow> (case v of JArr _ \<Rightarrow> True | _ \<Rightarrow> False)"

definition phase_criteria :: "jsval \<Rightarrow> string \<Rightarrow> js_error + unit" where
  "phase_criteria criteria phase =
     throw_if (\<not> at_least_one (prop_of (prop_of criteria ''repetitions'') phase) \<or> \<not> at_least_one (prop_of (prop_of criteria ''minimumSamples'') phase)
         \<or> \<not> finite_between 0 None (prop_of (prop_of criteria ''maximumP95Ms'') phase) \<or> num_val (prop_of (prop_of criteria ''maximumP95Ms'') phase) = 0)
       (Error (''workload '' @ phase @ '' criteria are invalid'')) (Inr ())"

definition validateConfiguration :: "jsval \<Rightarrow> jsval \<Rightarrow> jsval \<Rightarrow> jsval \<Rightarrow> bool \<Rightarrow> js_error + unit" where
  "validateConfiguration profileId dataset operationMix criteria has_factory = guards ([
     reject_if [Inr (\<not> str_satisfies (\<lambda>s. s \<noteq> []) profileId)] ''workload profileId is required'',
     reject_if [Inr (\<not> truthy dataset), Inr (\<not> is_string (prop_of dataset ''fixtureId'')), Inr (\<not> at_least_one (prop_of dataset ''logicalResourceCount'')),
       mismatch (hex_of 64) (prop_of dataset ''manifestSha256'')] ''workload dataset identity is invalid'',
     reject_if ([Inr (\<not> is_array operationMix), Inr (items operationMix = [])] @ map mix_entry_bad (items operationMix)) ''workload operation mix is invalid'',
     reject_if [Inr (\<not> has_factory \<or> \<not> truthy criteria \<or> \<not> at_least_one (prop_of criteria ''concurrency'')
         \<or> \<not> finite_between 0 (Some 1) (prop_of criteria ''maximumErrorRate'') \<or> \<not> finite_between 20 None (prop_of criteria ''minimumMemoryHeadroomPercent'')
         \<or> \<not> is_array (prop_of criteria ''requiredPhases''))] ''workload criteria are invalid'']
     @ map (phase_criteria criteria) PHASES
     @ [reject_if [Inr (list_ex (\<lambda>p. \<not> member_of PHASES p) (items (prop_of criteria ''requiredPhases'')))] ''workload required phase is invalid''])"

definition weightedSchedule :: "jsval list \<Rightarrow> jsval list" where
  "weightedSchedule operationMix = concat (map (\<lambda>entry. replicate (nat (the_int (prop_of entry ''weight''))) entry) operationMix)"

subsection \<open>Observations\<close>

record memory_use =
  peak_bytes :: int
  limit_bytes :: int
  headroom :: rat

record observation =
  latency :: "rat option"
  complaint :: "thrown option"
  memory :: "memory_use option"

record 's load_transport =
  load_request :: "string \<Rightarrow> jsval \<Rightarrow> jsval \<Rightarrow> ('s, jsval) action"
  load_metrics :: "('s, jsval) action option"
  load_release :: "('s, unit) action option"

record 's load_environment =
  since :: "'s \<Rightarrow> 's \<Rightarrow> rat"
  headroom_of :: "int \<Rightarrow> int \<Rightarrow> rat"
  engine_text :: "js_error \<Rightarrow> string"

definition requireSuccess :: "(js_error \<Rightarrow> string) \<Rightarrow> jsval \<Rightarrow> thrown + jsval" where
  "requireSuccess say response =
     (let code = nullish_or (prop_of (prop_of response ''error'') ''code'') (JStr ''invalid-envelope'') in
      if \<not> truthy response \<or> \<not> has_prop response ''data'' \<or> has_prop response ''error''
      then bind_r (thrown_r say (text_r code)) (\<lambda>c. Inl ((raised (''workload request failed: '' @ c))\<lparr>thrown_code := code\<rparr>))
      else Inr response)"

definition runOperation :: "'s load_environment \<Rightarrow> 's load_transport \<Rightarrow> jsval \<Rightarrow> ('s, jsval) action" where
  "runOperation env t entry =
     await (load_request t (the_str (prop_of entry ''operation'')) (spread [prop_of entry ''input'']) (JObj [(''cacheState'', prop_of entry ''cacheState'')]))
       (\<lambda>r. done_with (requireSuccess (engine_text env) r))"

definition metrics :: "'s load_environment \<Rightarrow> 's load_transport \<Rightarrow> ('s, memory_use option) action" where
  "metrics env t = (case load_metrics t of
     None \<Rightarrow> pure None
   | Some m \<Rightarrow> await m (\<lambda>v.
       if \<not> truthy v then pure None
       else (case (prop_of v ''peakBytes'', prop_of v ''memoryLimitBytes'') of
          (JInt peak, JInt limit) \<Rightarrow>
            if is_safe_integer peak \<and> 0 \<le> peak \<and> is_safe_integer limit \<and> 1 \<le> limit \<and> peak \<le> limit
            then pure (Some \<lparr>peak_bytes = peak, limit_bytes = limit, headroom = headroom_of env peak limit\<rparr>)
            else throw ''workload memory metrics are invalid''
        | _ \<Rightarrow> throw ''workload memory metrics are invalid'')))"

definition measured :: "'s load_environment \<Rightarrow> 's load_transport \<Rightarrow> ('s, jsval) action \<Rightarrow> ('s, observation) action" where
  \<comment> \<open>the \<open>try\<close> block and its handler, which reads the metrics in both ways\<close>
  "measured env t body s =
     (case await body (\<lambda>_ s1. await (metrics env t) (\<lambda>m. pure \<lparr>latency = Some (since env s s1), complaint = None, memory = m\<rparr>) s1) s of
        (Inr observed, s2) \<Rightarrow> (Inr observed, s2)
      | (Inl e, s2) \<Rightarrow> await (metrics env t) (\<lambda>m. pure \<lparr>latency = None, complaint = Some e, memory = m\<rparr>) s2)"

definition finally_release :: "'s load_transport \<Rightarrow> ('s, 'a) action \<Rightarrow> ('s, 'a) action" where
  "finally_release t body s =
     (case body s of (r, s1) \<Rightarrow>
        (case load_release t of
           None \<Rightarrow> (r, s1)
         | Some release \<Rightarrow> (case release s1 of (Inl e, s2) \<Rightarrow> (Inl e, s2) | (Inr _, s2) \<Rightarrow> (r, s2))))"

text \<open>A sample of the cold and restore phases has a transport of its own.\<close>

definition started_operation :: "'s load_environment \<Rightarrow> 's load_transport \<Rightarrow> jsval \<Rightarrow> ('s, jsval) action" where
  "started_operation env t entry =
     await (await (load_request t ''bootstrap'' (JObj []) JUndef) (\<lambda>r. done_with (requireSuccess (engine_text env) r))) (\<lambda>_. runOperation env t entry)"

fun runLifecycle ::
    "'s load_environment \<Rightarrow> (nat \<Rightarrow> ('s, 's load_transport) action) \<Rightarrow> jsval list \<Rightarrow> nat \<Rightarrow> nat \<Rightarrow> observation list \<Rightarrow> ('s, observation list) action" where
  "runLifecycle env create schedule i 0 observations s = (Inr observations, s)"
| "runLifecycle env create schedule i (Suc n) observations s =
     (case await (create i) (\<lambda>t. finally_release t (measured env t (started_operation env t (schedule ! (i mod length schedule))))) s of
        (Inl e, s1) \<Rightarrow> (Inl e, s1)
      | (Inr observed, s1) \<Rightarrow> runLifecycle env create schedule (Suc i) n (observations @ [observed]) s1)"

subsection \<open>Concurrent workers of the warm phase\<close>

text \<open>
  The workers share the cursor and the array of observations. An event is what runs between two
  awaits: a worker takes the next index or stops, it stores an observation, or it fails.
\<close>

datatype worker = Looking | Working nat | Stopped | Broken nat thrown

record warm_run =
  cursor :: nat
  workers :: "worker list"
  observed :: "observation option list"
  stores :: "nat list"

datatype warm_event = Takes nat | Stores nat observation | Breaks nat thrown

definition start_warm :: "nat \<Rightarrow> nat \<Rightarrow> warm_run" where
  "start_warm concurrency repetitions =
     \<lparr>cursor = 0, workers = replicate (min concurrency repetitions) Looking, observed = replicate repetitions None, stores = []\<rparr>"

fun warm_step :: "nat \<Rightarrow> warm_event \<Rightarrow> warm_run \<Rightarrow> warm_run option" where
  "warm_step repetitions (Takes w) r =
     (if w < length (workers r) \<and> workers r ! w = Looking
      then Some (r\<lparr>cursor := cursor r + 1, workers := (workers r)[w := if cursor r \<ge> repetitions then Stopped else Working (cursor r)]\<rparr>)
      else None)"
| "warm_step repetitions (Stores w x) r =
     (case if w < length (workers r) then workers r ! w else Looking of
        Working i \<Rightarrow> Some (r\<lparr>workers := (workers r)[w := Looking], observed := (observed r)[i := Some x], stores := stores r @ [i]\<rparr>)
      | _ \<Rightarrow> None)"
| "warm_step repetitions (Breaks w e) r =
     (case if w < length (workers r) then workers r ! w else Looking of
        Working i \<Rightarrow> Some (r\<lparr>workers := (workers r)[w := Broken i e]\<rparr>)
      | _ \<Rightarrow> None)"

fun failure_of :: "worker \<Rightarrow> thrown option" where
  "failure_of (Broken i e) = Some e"
| "failure_of _ = None"

definition joined :: "warm_run \<Rightarrow> bool" where
  \<comment> \<open>\<open>Promise.all\<close> has resolved\<close>
  "joined r \<longleftrightarrow> list_all (\<lambda>w. w = Stopped) (workers r)"

definition warm_result :: "warm_run \<Rightarrow> (thrown + observation list) option" where
  \<comment> \<open>what \<open>Promise.all\<close> settles to, if it has: a worker that fails rejects it at once\<close>
  "warm_result r = (case List.map_filter failure_of (workers r) of
     e # es \<Rightarrow> Some (Inl e)
   | [] \<Rightarrow> if joined r then Some (Inr (List.map_filter (\<lambda>x. x) (observed r))) else None)"

definition runWarm ::
    "'s load_environment \<Rightarrow> (nat \<Rightarrow> ('s, 's load_transport) action) \<Rightarrow> ('s load_transport \<Rightarrow> ('s, observation list) action) \<Rightarrow> ('s, observation list) action" where
  \<comment> \<open>\<open>race t\<close> is the race of the workers over the transport \<open>t\<close>, a \<open>warm_result\<close> of the machine\<close>
  "runWarm env create race = await (create 0) (\<lambda>t. finally_release t
     (await (await (load_request t ''bootstrap'' (JObj []) JUndef) (\<lambda>r. done_with (requireSuccess (engine_text env) r))) (\<lambda>_. race t)))"

subsection \<open>Summaries\<close>

definition percentile :: "rat list \<Rightarrow> rat \<Rightarrow> rat option" where
  "percentile values fraction =
     (if values = [] then None else Some (values ! nat (max 0 (\<lceil>of_nat (length values) * fraction\<rceil> - 1))))"

record phase_report =
  rp_phase :: string
  rp_status :: string
  rp_reason :: "string option"
  rp_samples :: nat
  rp_errors :: nat
  rp_rate :: "rat option"
  rp_latency :: "(rat option \<times> rat option) option"
  rp_headroom :: "rat option"

record number_words =
  quotient :: "nat \<Rightarrow> nat \<Rightarrow> rat"
  printed :: "rat \<Rightarrow> string"
  thousandths :: "rat \<Rightarrow> rat"

definition latencies_of :: "observation list \<Rightarrow> rat list" where
  "latencies_of observations = sort (List.map_filter latency observations)"

definition shortfalls :: "number_words \<Rightarrow> jsval \<Rightarrow> string \<Rightarrow> nat \<Rightarrow> rat \<Rightarrow> rat option \<Rightarrow> rat option \<Rightarrow> string list" where
  "shortfalls words criteria phase samples rate p95 minimumHeadroom =
     (let required = num_val (prop_of (prop_of criteria ''minimumSamples'') phase); most = num_val (prop_of criteria ''maximumErrorRate'');
          slowest = num_val (prop_of (prop_of criteria ''maximumP95Ms'') phase); least = num_val (prop_of criteria ''minimumMemoryHeadroomPercent'') in
      (if of_nat samples < required then [''only '' @ nat_str samples @ '' of '' @ printed words required @ '' required samples ran''] else [])
      @ (if rate > most then [''error rate '' @ printed words rate @ '' exceeds '' @ printed words most] else [])
      @ (case p95 of
           None \<Rightarrow> [''p95 unavailablems exceeds '' @ printed words slowest @ ''ms'']
         | Some p \<Rightarrow> if p > slowest then [''p95 '' @ printed words p @ ''ms exceeds '' @ printed words slowest @ ''ms''] else [])
      @ (case minimumHeadroom of
           None \<Rightarrow> [''memory headroom is unavailable'']
         | Some h \<Rightarrow> if h < least then [''memory headroom '' @ printed words h @ ''% is below '' @ printed words least @ ''%''] else []))"

definition summarize :: "number_words \<Rightarrow> jsval \<Rightarrow> string \<Rightarrow> observation list \<Rightarrow> phase_report" where
  "summarize words criteria phase observations =
     (let errors = length (filter (\<lambda>x. complaint x \<noteq> None) observations);
          latencies = latencies_of observations;
          rooms = map headroom (List.map_filter memory observations);
          rate = (if observations = [] then 1 else quotient words errors (length observations));
          p50 = percentile latencies (1 / 2); p95 = percentile latencies (95 / 100);
          minimumHeadroom = (if rooms = [] then None else Some (Min (set rooms)));
          reasons = shortfalls words criteria phase (length observations) rate p95 minimumHeadroom in
      \<lparr>rp_phase = phase, rp_status = (if reasons = [] then ''passed'' else ''failed''),
       rp_reason = (if reasons = [] then None else Some (join ''; '' reasons)), rp_samples = length observations, rp_errors = errors,
       rp_rate = Some rate, rp_latency = Some (map_option (thousandths words) p50, map_option (thousandths words) p95), rp_headroom = minimumHeadroom\<rparr>)"

definition safeMessage :: "thrown \<Rightarrow> string" where
  "safeMessage e = take 320 (replace_sensitive False False (the_text (nullish_or (thrown_message e) (JStr ''workload failed''))))"

text \<open>
  How a phase ends: with its observations, or with an error, which \<open>instance\<close> tells from an
  \<open>UnsupportedWorkloadPhaseError\<close>.
\<close>

definition runPhase :: "(thrown \<Rightarrow> bool) \<Rightarrow> number_words \<Rightarrow> jsval \<Rightarrow> string \<Rightarrow> thrown + observation list \<Rightarrow> phase_report" where
  "runPhase instance words criteria phase r = (case r of
     Inr observations \<Rightarrow> summarize words criteria phase observations
   | Inl e \<Rightarrow>
       let report = \<lparr>rp_phase = phase, rp_status = ''failed'', rp_reason = Some (safeMessage e), rp_samples = 0, rp_errors = 1,
         rp_rate = None, rp_latency = None, rp_headroom = None\<rparr> in
       if instance e then report\<lparr>rp_status := ''unsupported'', rp_reason := Some (the_text (thrown_message e)), rp_errors := 0\<rparr> else report)"

record workload_report =
  wl_result :: string
  wl_caches :: "string list"
  wl_phases :: "phase_report list"

definition repetitions_of :: "jsval \<Rightarrow> string \<Rightarrow> nat" where
  "repetitions_of criteria phase = nat (the_int (prop_of (prop_of criteria ''repetitions'') phase))"

definition run_phases ::
    "'s load_environment \<Rightarrow> (string \<Rightarrow> nat \<Rightarrow> ('s, 's load_transport) action) \<Rightarrow> (jsval list \<Rightarrow> 's load_transport \<Rightarrow> ('s, observation list) action) \<Rightarrow> jsval \<Rightarrow> jsval list
      \<Rightarrow> 's \<Rightarrow> (thrown + observation list) list \<times> 's" where
  "run_phases env create race criteria schedule s =
     (case runLifecycle env (create ''cold'') schedule 0 (repetitions_of criteria ''cold'') [] s of (c, s1) \<Rightarrow>
     (case runLifecycle env (create ''restore'') schedule 0 (repetitions_of criteria ''restore'') [] s1 of (r, s2) \<Rightarrow>
     (case runWarm env (create ''warm'') (race schedule) s2 of (w, s3) \<Rightarrow> ([c, r, w], s3))))"

definition workload_result :: "jsval \<Rightarrow> jsval \<Rightarrow> phase_report list \<Rightarrow> workload_report" where
  "workload_result operationMix criteria phases =
     (let failures = filter (\<lambda>p. rp_status p = ''failed'') phases;
          missing = filter (\<lambda>p. rp_status p = ''unsupported'' \<and> includes_value (items (prop_of criteria ''requiredPhases'')) (JStr (rp_phase p))) phases in
      \<lparr>wl_result = (if failures = [] \<and> missing = [] then ''pass'' else ''fail''),
       wl_caches = sort (remdups (map (\<lambda>entry. the_str (prop_of entry ''cacheState'')) (items operationMix))), wl_phases = phases\<rparr>)"

definition runRepresentativeWorkloads ::
    "(thrown \<Rightarrow> bool) \<Rightarrow> number_words \<Rightarrow> 's load_environment \<Rightarrow> (string \<Rightarrow> nat \<Rightarrow> ('s, 's load_transport) action) option
      \<Rightarrow> (jsval list \<Rightarrow> 's load_transport \<Rightarrow> ('s, observation list) action) \<Rightarrow> jsval \<Rightarrow> jsval \<Rightarrow> jsval \<Rightarrow> jsval \<Rightarrow> 's \<Rightarrow> (js_error + workload_report) \<times> 's" where
  "runRepresentativeWorkloads instance words env createTransport race profileId dataset operationMix criteria s =
     (case (validateConfiguration profileId dataset operationMix criteria (createTransport \<noteq> None), createTransport) of
        (Inr _, Some create) \<Rightarrow>
          (case run_phases env create race criteria (weightedSchedule (items operationMix)) s of
             (outcomes, s') \<Rightarrow> (Inr (workload_result operationMix criteria (map2 (runPhase instance words criteria) PHASES outcomes)), s'))
      | (Inl e, _) \<Rightarrow> (Inl e, s)
      | (_, None) \<Rightarrow> (Inl (Error ''workload criteria are invalid''), s))"

subsection \<open>Percentiles\<close>

lemma sorted_counts:
  assumes "sorted l" "k < length l"
  shows "Suc k \<le> length (filter (\<lambda>x. x \<le> l ! k) l)" "length (filter (\<lambda>x. x < l ! k) l) \<le> k"
proof -
  have split: "length (filter P l) = length (filter P (take m l)) + length (filter P (drop m l))" for P m
    by (metis append_take_drop_id filter_append length_append)
  have "filter (\<lambda>x. x \<le> l ! k) (take (Suc k) l) = take (Suc k) l"
    using assms by (auto simp: filter_id_conv in_set_conv_nth sorted_iff_nth_mono)
  then show "Suc k \<le> length (filter (\<lambda>x. x \<le> l ! k) l)" using assms(2) by (simp add: split [of _ "Suc k"])
  have "filter (\<lambda>x. x < l ! k) (drop k l) = []"
    using assms by (auto simp: filter_empty_conv in_set_conv_nth sorted_iff_nth_mono not_less)
  then show "length (filter (\<lambda>x. x < l ! k) l) \<le> k" using length_filter_le [of _ "take k l"] by (auto simp: split [of _ k] intro: le_trans)
qed

lemma percentile_rank:
  assumes "percentile l f = Some p" "sorted l" "0 < f" "f \<le> 1"
  shows "p \<in> set l" "of_nat (length l) * f \<le> of_nat (length (filter (\<lambda>x. x \<le> p) l))"
    "of_nat (length (filter (\<lambda>x. x < p) l)) < of_nat (length l) * f"
proof -
  let ?c = "\<lceil>of_nat (length l) * f\<rceil>"
  have l: "l \<noteq> []" and p: "p = l ! nat (?c - 1)" using assms(1) by (auto simp: percentile_def max_def split: if_splits)
  have "0 < of_nat (length l) * f" using l assms(3) by simp
  then have c: "1 \<le> ?c" by (simp add: one_le_ceiling)
  have "of_nat (length l) * f \<le> of_nat (length l)" using assms(3,4) by (simp add: mult_left_le)
  then have "?c \<le> int (length l)" by (simp add: ceiling_le_iff)
  with c have k: "nat (?c - 1) < length l" by linarith
  have up: "of_nat (length l) * f \<le> of_nat (Suc (nat (?c - 1)))" and down: "of_nat (nat (?c - 1)) < of_nat (length l) * f"
    using c le_of_int_ceiling [of "of_nat (length l) * f"] ceiling_correct [of "of_nat (length l) * f"] by (simp_all add: of_nat_nat)
  from sorted_counts [OF assms(2) k] show "of_nat (length l) * f \<le> of_nat (length (filter (\<lambda>x. x \<le> p) l))"
    "of_nat (length (filter (\<lambda>x. x < p) l)) < of_nat (length l) * f"
    unfolding p using up down by (meson of_nat_le_iff order_trans, meson of_nat_le_iff le_less_trans)
  show "p \<in> set l" using k p by simp
qed

subsection \<open>The warm phase loses no sample\<close>

fun index_held :: "worker \<Rightarrow> nat list" where
  "index_held (Working i) = [i]"
| "index_held (Broken i e) = [i]"
| "index_held _ = []"

definition warm_ok :: "nat \<Rightarrow> nat \<Rightarrow> warm_run \<Rightarrow> bool" where
  "warm_ok concurrency repetitions r \<longleftrightarrow>
     length (workers r) = min concurrency repetitions \<and> length (observed r) = repetitions
     \<and> mset (stores r) + mset (concat (map index_held (workers r))) = mset [0..<min (cursor r) repetitions]
     \<and> (\<forall>i < repetitions. observed r ! i \<noteq> None \<longleftrightarrow> i \<in> set (stores r))
     \<and> (Stopped \<in> set (workers r) \<longrightarrow> repetitions \<le> cursor r)"

lemma held_update:
  assumes "w < length ws"
  shows "mset (concat (map index_held (ws[w := x]))) + mset (index_held (ws ! w)) = mset (concat (map index_held ws)) + mset (index_held x)"
proof -
  have "ws = take w ws @ ws ! w # drop (Suc w) ws" using assms by (simp add: id_take_nth_drop)
  then obtain a b where ab: "ws = a @ ws ! w # b" "length a = w" using assms by fastforce
  then have "ws[w := x] = a @ x # b" by (metis list_update_length)
  moreover have "concat (map index_held ws) = concat (map index_held a) @ index_held (ws ! w) @ concat (map index_held b)"
    by (subst ab(1)) simp
  ultimately show ?thesis by simp
qed

lemma stopped_update: "Stopped \<in> set (ws[w := x]) \<Longrightarrow> Stopped \<in> set ws \<or> x = Stopped"
  using set_update_subset_insert [of ws w x] by blast

lemma held_index:
  assumes "warm_ok concurrency repetitions r" "w < length (workers r)" "workers r ! w = Working i"
  shows "i < repetitions"
proof -
  have "i \<in># mset (concat (map index_held (workers r)))" using assms(2,3) nth_mem [OF assms(2)] by (auto intro!: bexI [of _ "workers r ! w"])
  then have "i \<in># mset [0..<min (cursor r) repetitions]" using assms(1) by (metis warm_ok_def union_iff)
  then show ?thesis by simp
qed

lemma warm_step_ok:
  assumes ok: "warm_ok concurrency repetitions r" and step: "warm_step repetitions e r = Some r'"
  shows "warm_ok concurrency repetitions r'"
proof (cases e)
  case (Takes w)
  let ?x = "if cursor r \<ge> repetitions then Stopped else Working (cursor r)"
  from step Takes have w: "w < length (workers r)" "workers r ! w = Looking"
    and r': "r' = r\<lparr>cursor := cursor r + 1, workers := (workers r)[w := ?x]\<rparr>" by (auto split: if_splits)
  have "mset [0..<min (Suc (cursor r)) repetitions] = mset [0..<min (cursor r) repetitions] + mset (index_held ?x)"
    by (cases "cursor r \<ge> repetitions") (simp_all add: min_def atLeastLessThanSuc)
  moreover have "mset (concat (map index_held ((workers r)[w := ?x]))) = mset (concat (map index_held (workers r))) + mset (index_held ?x)"
    using held_update [OF w(1), of ?x] by (simp add: w(2))
  ultimately show ?thesis using ok stopped_update [of "workers r" w ?x] unfolding warm_ok_def r' by (auto simp: add.assoc)
next
  case (Stores w x)
  from step Stores obtain i where w: "w < length (workers r)" "workers r ! w = Working i"
    and r': "r' = r\<lparr>workers := (workers r)[w := Looking], observed := (observed r)[i := Some x], stores := stores r @ [i]\<rparr>"
    by (auto split: if_splits worker.splits)
  let ?r = "r\<lparr>workers := (workers r)[w := Looking], observed := (observed r)[i := Some x], stores := stores r @ [i]\<rparr>"
  have "mset (concat (map index_held ((workers r)[w := Looking]))) + {#i#} = mset (concat (map index_held (workers r)))"
    using held_update [OF w(1), of Looking] by (simp add: w(2))
  then have "mset (stores ?r) + mset (concat (map index_held (workers ?r))) = mset (stores r) + mset (concat (map index_held (workers r)))"
    by (simp add: ac_simps)
  moreover have "i < repetitions" by (rule held_index [OF ok w])
  ultimately show ?thesis using ok stopped_update [of "workers r" w Looking] unfolding warm_ok_def r'
    by (auto simp: nth_list_update simp del: mset_upt)
next
  case (Breaks w t)
  from step Breaks obtain i where w: "w < length (workers r)" "workers r ! w = Working i" and r': "r' = r\<lparr>workers := (workers r)[w := Broken i t]\<rparr>"
    by (auto split: if_splits worker.splits)
  have "mset (concat (map index_held ((workers r)[w := Broken i t]))) = mset (concat (map index_held (workers r)))"
    using held_update [OF w(1), of "Broken i t"] by (simp add: w(2))
  then show ?thesis using ok stopped_update [of "workers r" w "Broken i t"] unfolding warm_ok_def r' by auto
qed

interpretation warm: machine_invariant "warm_step repetitions" "start_warm concurrency repetitions" "warm_ok concurrency repetitions"
  for concurrency repetitions
proof (unfold_locales, goal_cases)
  case 1
  have "concat (map index_held (replicate n Looking)) = []" for n by (induction n) simp_all
  then show ?case by (simp add: warm_ok_def start_warm_def)
qed (rule warm_step_ok)

lemma settled_result: "joined r \<Longrightarrow> list_all (\<lambda>x. x \<noteq> None) (observed r) \<Longrightarrow> warm_result r = Some (Inr (map the (observed r)))"
proof -
  have "list_all (\<lambda>x. x \<noteq> None) xs \<Longrightarrow> List.map_filter (\<lambda>x. x) xs = map the xs" for xs :: "observation option list"
    by (induction xs) (auto simp: List.map_filter_simps)
  moreover have "list_all (\<lambda>w. w = Stopped) ws \<Longrightarrow> List.map_filter failure_of ws = []" for ws
    by (induction ws) (auto simp: List.map_filter_simps)
  ultimately show "joined r \<Longrightarrow> list_all (\<lambda>x. x \<noteq> None) (observed r) \<Longrightarrow> ?thesis" by (simp add: warm_result_def joined_def)
qed

text \<open>
  C35 The workers of the warm phase share one cursor and one array. However their requests interleave,
  no index is measured twice and there are never more of them than the configured concurrency; when
  they have all stopped, the phase is summarised over one observation for each of the configured repetitions.
\<close>

theorem warm_samples_complete:
  "case run_events (warm_step repetitions) es (start_warm concurrency repetitions) of
     None \<Rightarrow> True
   | Some r \<Rightarrow>
       distinct (stores r @ concat (map index_held (workers r))) \<and> length (workers r) \<le> concurrency
       \<and> (if joined r \<and> 0 < concurrency
          then mset (stores r) = mset [0..<repetitions] \<and> warm_result r = Some (Inr (map the (observed r))) \<and> length (observed r) = repetitions
            \<and> list_all (\<lambda>x. x \<noteq> None) (observed r)
          else True)"
proof (cases "run_events (warm_step repetitions) es (start_warm concurrency repetitions)")
  case (Some r)
  from warm.holds_run [OF Some] have ok: "warm_ok concurrency repetitions r" .
  then have m: "mset (stores r @ concat (map index_held (workers r))) = mset [0..<min (cursor r) repetitions]" by (simp add: warm_ok_def)
  have d: "distinct (stores r @ concat (map index_held (workers r)))" using mset_eq_imp_distinct_iff [OF m] by simp
  have "mset (stores r) = mset [0..<repetitions] \<and> list_all (\<lambda>x. x \<noteq> None) (observed r)" if j: "joined r" "0 < concurrency"
  proof -
    have "concat (map index_held (workers r)) = []" using j(1) by (auto simp: joined_def list_all_iff)
    moreover have "min (cursor r) repetitions = repetitions"
      using ok j by (cases "workers r") (auto simp: warm_ok_def joined_def min_def split: if_splits)
    ultimately have s: "mset (stores r) = mset [0..<repetitions]" using m by (metis append_Nil2)
    then have "set (stores r) = {0..<repetitions}" using mset_eq_setD by fastforce
    with ok s show ?thesis by (auto simp: warm_ok_def list_all_length)
  qed
  moreover have "warm_result r = Some (Inr (map the (observed r)))" if j: "joined r" "0 < concurrency"
    using calculation [OF j] j(1) by (simp add: settled_result)
  ultimately show ?thesis using d ok by (simp add: Some warm_ok_def)
qed simp

subsection \<open>What a passing workload means\<close>

text \<open>
  C37 The 95th percentile that a phase is judged by is one of its latencies; at least 95 percent of them
  are not above it and fewer than 95 percent are below it. It is missing only when there is no latency.
\<close>

theorem p95_covers:
  "case percentile (latencies_of observations) (95 / 100) of
     None \<Rightarrow> latencies_of observations = []
   | Some p \<Rightarrow>
       (let l = latencies_of observations in
        p \<in> set l \<and> 95 * length l \<le> 100 * length (filter (\<lambda>x. x \<le> p) l) \<and> 100 * length (filter (\<lambda>x. x < p) l) < 95 * length l)"
proof (cases "percentile (latencies_of observations) (95 / 100)")
  case (Some p)
  let ?l = "latencies_of observations"
  have "sorted ?l" by (simp add: latencies_of_def)
  from percentile_rank [OF Some this] have "p \<in> set ?l" "(of_nat (95 * length ?l) :: rat) \<le> of_nat (100 * length (filter (\<lambda>x. x \<le> p) ?l))"
    "(of_nat (100 * length (filter (\<lambda>x. x < p) ?l)) :: rat) < of_nat (95 * length ?l)" by simp_all
  then show ?thesis unfolding Some option.case Let_def of_nat_le_iff of_nat_less_iff by simp
qed (simp add: percentile_def split: if_splits)

text \<open>
  The criteria, stated on what a phase observed: the number of observations, the rate of those that failed,
  how many of the latencies exceed the limit, and the headroom of every observation that reported its memory.
\<close>

definition within_criteria :: "number_words \<Rightarrow> jsval \<Rightarrow> string \<Rightarrow> observation list \<Rightarrow> bool" where
  "within_criteria words criteria phase observations \<longleftrightarrow>
     (let limit = (\<lambda>k. num_val (prop_of (prop_of criteria k) phase)); l = List.map_filter latency observations;
          rooms = map headroom (List.map_filter memory observations);
          failures = length (filter (\<lambda>x. complaint x \<noteq> None) observations) in
      limit ''minimumSamples'' \<le> of_nat (length observations)
      \<and> (if observations = [] then 1 else quotient words failures (length observations)) \<le> num_val (prop_of criteria ''maximumErrorRate'')
      \<and> l \<noteq> [] \<and> 95 * length l \<le> 100 * length (filter (\<lambda>x. x \<le> limit ''maximumP95Ms'') l)
      \<and> rooms \<noteq> [] \<and> list_all (\<lambda>h. num_val (prop_of criteria ''minimumMemoryHeadroomPercent'') \<le> h) rooms)"

definition verdict :: "(thrown \<Rightarrow> bool) \<Rightarrow> number_words \<Rightarrow> jsval \<Rightarrow> string \<Rightarrow> thrown + observation list \<Rightarrow> string" where
  "verdict instance words criteria phase r = (case r of
     Inl e \<Rightarrow> if instance e then ''unsupported'' else ''failed''
   | Inr observations \<Rightarrow> if within_criteria words criteria phase observations then ''passed'' else ''failed'')"

definition acceptable :: "(thrown \<Rightarrow> bool) \<Rightarrow> number_words \<Rightarrow> jsval \<Rightarrow> string \<Rightarrow> thrown + observation list \<Rightarrow> bool" where
  "acceptable instance words criteria phase r = (case r of
     Inl e \<Rightarrow> instance e \<and> \<not> includes_value (items (prop_of criteria ''requiredPhases'')) (JStr phase)
   | Inr observations \<Rightarrow> within_criteria words criteria phase observations)"

text \<open>A limit holds for the 95th percentile exactly when at least 95 percent of the latencies are within it.\<close>

lemma p95_within:
  "(case percentile (sort l) (95 / 100) of None \<Rightarrow> False | Some p \<Rightarrow> p \<le> m) \<longleftrightarrow> l \<noteq> [] \<and> 95 * length l \<le> 100 * length (filter (\<lambda>x. x \<le> m) l)"
proof (cases "percentile (sort l) (95 / 100)")
  case None
  then have "sort l = []" by (simp add: percentile_def split: if_splits)
  then have "l = []" by (metis set_empty set_sort)
  with None show ?thesis by simp
next
  case (Some p)
  have count: "length (filter P (sort l)) = length (filter P l)" for P by (metis filter_sort length_sort)
  from percentile_rank [OF Some sorted_sort] have rank: "(of_nat (95 * length l) :: rat) \<le> of_nat (100 * length (filter (\<lambda>x. x \<le> p) l))"
    "(of_nat (100 * length (filter (\<lambda>x. x < p) l)) :: rat) < of_nat (95 * length l)" by (simp_all add: count)
  then have rank: "95 * length l \<le> 100 * length (filter (\<lambda>x. x \<le> p) l)" "100 * length (filter (\<lambda>x. x < p) l) < 95 * length l"
    unfolding of_nat_le_iff of_nat_less_iff .
  have mono: "length (filter P l) \<le> length (filter Q l)" if "\<And>x. P x \<Longrightarrow> Q x" for P Q
    using that by (induction l) auto
  have "95 * length l \<le> 100 * length (filter (\<lambda>x. x \<le> m) l) \<longleftrightarrow> p \<le> m"
  proof (cases "p \<le> m")
    case True
    then show ?thesis using rank(1) mono [of "\<lambda>x. x \<le> p" "\<lambda>x. x \<le> m"] by auto
  next
    case False
    then show ?thesis using rank(2) mono [of "\<lambda>x. x \<le> m" "\<lambda>x. x < p"] by auto
  qed
  moreover have "l \<noteq> []" using Some by (auto simp: percentile_def)
  ultimately show ?thesis unfolding Some option.case by simp
qed

lemma no_shortfalls:
  "shortfalls words criteria phase samples rate p95 room = [] \<longleftrightarrow>
     num_val (prop_of (prop_of criteria ''minimumSamples'') phase) \<le> of_nat samples \<and> rate \<le> num_val (prop_of criteria ''maximumErrorRate'')
     \<and> (case p95 of None \<Rightarrow> False | Some p \<Rightarrow> p \<le> num_val (prop_of (prop_of criteria ''maximumP95Ms'') phase))
     \<and> (case room of None \<Rightarrow> False | Some h \<Rightarrow> num_val (prop_of criteria ''minimumMemoryHeadroomPercent'') \<le> h)"
  by (auto simp: shortfalls_def Let_def not_less split: option.splits)

lemma least_room: "(case (if hs = [] then None else Some (Min (set hs))) of None \<Rightarrow> False | Some h \<Rightarrow> q \<le> h) \<longleftrightarrow> hs \<noteq> [] \<and> list_all (\<lambda>h. q \<le> h) hs"
  for hs :: "rat list"
  by (auto simp: list_all_iff)

lemma summary_status:
  "rp_status (summarize words criteria phase observations) = (if within_criteria words criteria phase observations then ''passed'' else ''failed'')"
  unfolding summarize_def Let_def phase_report.select_convs no_shortfalls latencies_of_def p95_within least_room within_criteria_def conj_assoc ..

lemma phase_status:
  "rp_phase (runPhase instance words criteria phase r) = phase"
  "rp_status (runPhase instance words criteria phase r) = verdict instance words criteria phase r"
  by (simp_all add: runPhase_def verdict_def summary_status Let_def split: sum.split) (simp add: summarize_def Let_def)

lemma workload_phases: "wl_phases (workload_result operationMix criteria phases) = phases"
  by (simp add: workload_result_def Let_def)

lemma result_pass:
  assumes "length rs = length ps"
  shows "wl_result (workload_result operationMix criteria (map2 (runPhase instance words criteria) ps rs)) = ''pass''
     \<longleftrightarrow> list_all2 (acceptable instance words criteria) ps rs"
proof -
  have "(verdict instance words criteria p r \<noteq> ''failed'' \<and>
      \<not> (verdict instance words criteria p r = ''unsupported'' \<and> includes_value (items (prop_of criteria ''requiredPhases'')) (JStr p)))
      \<longleftrightarrow> acceptable instance words criteria p r" for p r
    by (auto simp: verdict_def acceptable_def split: sum.split)
  with assms show ?thesis
    by (simp add: workload_result_def Let_def filter_empty_conv list_all2_iff phase_status split_def) blast
qed

lemma run_phases_three: "\<exists>c r w s'. run_phases env create race criteria schedule s = ([c, r, w], s')"
  by (simp add: run_phases_def split_def)

text \<open>
  C36 What a workload decides, in terms of what its phases observed. A phase that ran has passed exactly
  when it is within the criteria: enough samples, the error rate within its limit, at least 95 percent of
  the latencies within theirs, and the memory headroom known and sufficient; a phase that threw is unsupported
  exactly for an \<open>UnsupportedWorkloadPhaseError\<close> and failed otherwise. The workload passes exactly when
  each of the three phases is within the criteria, or is unsupported and not required. A configuration that is
  refused has run nothing.
\<close>

theorem workload_passes_within_criteria:
  "case runRepresentativeWorkloads instance words env createTransport race profileId dataset operationMix criteria s of
     (Inl e, s') \<Rightarrow> s' = s \<and> (validateConfiguration profileId dataset operationMix criteria (createTransport \<noteq> None) = Inl e \<or> createTransport = None)
   | (Inr report, s') \<Rightarrow>
       (case createTransport of
          None \<Rightarrow> False
        | Some create \<Rightarrow>
            let ran = run_phases env create race criteria (weightedSchedule (items operationMix)) s in
            s' = snd ran \<and> map rp_phase (wl_phases report) = PHASES
            \<and> map rp_status (wl_phases report) = map2 (verdict instance words criteria) PHASES (fst ran)
            \<and> (wl_result report = ''pass'' \<longleftrightarrow> list_all2 (acceptable instance words criteria) PHASES (fst ran)))"
proof (cases "validateConfiguration profileId dataset operationMix criteria (createTransport \<noteq> None)")
  case (Inl e)
  then show ?thesis by (simp add: runRepresentativeWorkloads_def split: option.split)
next
  case (Inr u)
  show ?thesis
  proof (cases createTransport)
    case None
    then show ?thesis using Inr by (simp add: runRepresentativeWorkloads_def)
  next
    case (Some create)
    obtain c r w s' where ran: "run_phases env create race criteria (weightedSchedule (items operationMix)) s = ([c, r, w], s')"
      using run_phases_three [of env create race criteria "weightedSchedule (items operationMix)" s] by blast
    have "map rp_phase (map2 (runPhase instance words criteria) PHASES [c, r, w]) = PHASES"
      "map rp_status (map2 (runPhase instance words criteria) PHASES [c, r, w]) = map2 (verdict instance words criteria) PHASES [c, r, w]"
      by (simp_all add: PHASES_def phase_status)
    moreover have "length [c, r, w] = length PHASES" by (simp add: PHASES_def)
    note result_pass [OF this, of operationMix criteria "instance" words]
    moreover have "runRepresentativeWorkloads instance words env createTransport race profileId dataset operationMix criteria s
        = (Inr (workload_result operationMix criteria (map2 (runPhase instance words criteria) PHASES [c, r, w])), s')"
      using Inr by (simp add: runRepresentativeWorkloads_def Some ran)
    ultimately show ?thesis by (simp only: Some ran workload_phases Let_def prod.case sum.case option.case fst_conv snd_conv simp_thms)
  qed
qed

end
