(* ===== verification/Service_Contract.thy ===== *)
theory Service_Contract
  imports Http_Boundary
begin

text \<open>
  Three small modules of \<open>packages/contracts/src\<close> that hold a service to its contract:
  \<open>compatibility.mjs\<close> (which client and profile revisions may talk), \<open>read-only-dispatcher.mjs\<close>
  (the closed table of handlers) and \<open>runtime-validation.mjs\<close> (validators by schema id; the
  generated validators themselves are a parameter).
\<close>

subsection \<open>Contract revisions\<close>

definition routeMajor :: "jsval \<Rightarrow> int" where
  "routeMajor v = the_int (prop_of v ''routeMajor'')"

definition revision :: "jsval \<Rightarrow> int" where
  "revision v = the_int (prop_of v ''revision'')"

definition safe_at_least :: "int \<Rightarrow> jsval \<Rightarrow> bool" where
  "safe_at_least lo v \<longleftrightarrow> isSafeInteger v \<and> lo \<le> the_int v"

definition validateIdentity :: "jsval \<Rightarrow> js_error + unit" where
  "validateIdentity v =
     throw_if (\<not> truthy v) (Error ''contract identity is invalid'')
     (case js_string (prop_of v ''routeMajor'') of
        None \<Rightarrow> Inl Type_Error
      | Some major \<Rightarrow>
          throw_if (prop_of v ''contract'' \<noteq> JStr (''explorer.v'' @ major)
              \<or> \<not> safe_at_least 1 (prop_of v ''routeMajor'') \<or> \<not> safe_at_least 0 (prop_of v ''revision''))
            (Error ''contract identity is invalid'') (Inr ()))"

datatype negotiation =
    Incompatible string
  | Compatible string

definition negotiateContract :: "jsval \<Rightarrow> jsval \<Rightarrow> js_error + negotiation" where
  "negotiateContract client profile =
     bind_r (validateIdentity client) (\<lambda>_. bind_r (validateIdentity profile) (\<lambda>_. Inr
       (if routeMajor client \<noteq> routeMajor profile \<or> prop_of client ''contract'' \<noteq> prop_of profile ''contract''
          then Incompatible ''route-major-mismatch''
        else if revision profile > revision client then Incompatible ''profile-newer-than-client''
        else if revision profile < revision client - 1 then Incompatible ''profile-outside-n-minus-one-window''
        else Compatible (if revision profile = revision client then ''N'' else ''N-1''))))"

definition requireCompatibleEvolution :: "jsval \<Rightarrow> jsval \<Rightarrow> jsval \<Rightarrow> js_error + bool" where
  "requireCompatibleEvolution from to semantics =
     bind_r (validateIdentity from) (\<lambda>_. bind_r (validateIdentity to) (\<lambda>_.
       throw_if (semantics \<notin> {JStr ''additive'', JStr ''incompatible''})
         (Error ''change semantics must be additive or incompatible'')
       (throw_if (semantics = JStr ''incompatible'' \<and> routeMajor from = routeMajor to)
         (Error ''incompatible changes require a new API route major'')
       (throw_if (semantics = JStr ''additive'' \<and> routeMajor from = routeMajor to \<and> revision to \<noteq> revision from + 1)
         (Error ''additive same-major changes increment contract revision by one'')
         (Inr True)))))"

lemma validateIdentity_ok:
  "validateIdentity v = Inr () \<longleftrightarrow>
     1 \<le> routeMajor v \<and> routeMajor v \<le> MAX_SAFE_INTEGER \<and> 0 \<le> revision v \<and> isSafeInteger (prop_of v ''revision'')
     \<and> prop_of v ''routeMajor'' = JInt (routeMajor v)
     \<and> prop_of v ''contract'' = JStr (''explorer.v'' @ nat_str (nat (routeMajor v)))"
proof -
  have falsy: "\<not> truthy v \<Longrightarrow> props v = []" by (cases v) auto
  show ?thesis
  proof (cases "truthy v")
    case False
    with falsy show ?thesis by (simp add: validateIdentity_def routeMajor_def prop_of_def)
  next
    case True
    then show ?thesis
      by (cases "prop_of v ''routeMajor''")
        (auto simp: validateIdentity_def routeMajor_def revision_def safe_at_least_def is_safe_integer_def int_str_def split: option.split)
  qed
qed

lemma negotiate_ok:
  "negotiateContract c p = Inr r \<longleftrightarrow> validateIdentity c = Inr () \<and> validateIdentity p = Inr () \<and>
     r = (if routeMajor c \<noteq> routeMajor p then Incompatible ''route-major-mismatch''
          else if revision p > revision c then Incompatible ''profile-newer-than-client''
          else if revision p < revision c - 1 then Incompatible ''profile-outside-n-minus-one-window''
          else Compatible (if revision p = revision c then ''N'' else ''N-1''))"
  by (auto simp: negotiateContract_def validateIdentity_ok)

text \<open>
  An evolution step the contract allows within one route major moves the window by exactly one
  revision: a client at the new revision still talks to a profile at the old one, in N-1 mode,
  while a client at the old revision refuses a profile at the new one. Negotiation succeeds
  exactly for a profile at the client's revision or the one before it.
\<close>

theorem evolution_keeps_window:
  "(negotiateContract c p = Inr (Compatible m) \<longleftrightarrow>
      validateIdentity c = Inr () \<and> validateIdentity p = Inr () \<and> routeMajor c = routeMajor p
      \<and> (m, revision c - revision p) \<in> {(''N'', 0), (''N-1'', 1)})
   \<and> (if requireCompatibleEvolution from to s = Inr True \<and> routeMajor from = routeMajor to
      then s = JStr ''additive'' \<and> negotiateContract to from = Inr (Compatible ''N-1'')
        \<and> negotiateContract from to = Inr (Incompatible ''profile-newer-than-client'')
      else True)"
  by (auto simp: negotiate_ok requireCompatibleEvolution_def split: if_splits)

subsection \<open>The dispatcher\<close>

text \<open>
  A handler table of the service: the own properties of the object, \<open>None\<close> for a value that
  is not a function.
\<close>

type_synonym 'r handler = "jsval \<Rightarrow> jsval \<Rightarrow> 'r"

record 'r dispatcher =
  operations :: "string list"
  dispatchTable :: "(string \<times> 'r handler) list"

definition createReadOnlyDispatcher :: "(string \<times> 'r handler option) list \<Rightarrow> js_error + 'r dispatcher" where
  "createReadOnlyDispatcher handlers =
     throw_if (sort (map fst handlers) \<noteq> sort logicalOperations)
       (Error ''public handlers must be exactly the closed read-only operation set'')
     (throw_if (list_ex (\<lambda>(operation, h). operation \<notin> set logicalOperations \<or> h = None) handlers)
       (Error ''invalid public handler'')
     (Inr \<lparr>operations = logicalOperations,
           dispatchTable = map (\<lambda>operation. (operation, the (the (map_of handlers operation)))) logicalOperations\<rparr>))"

text \<open>A request is what the HTTP boundary produced, so it has a boolean \<open>ok\<close>.\<close>

definition dispatch :: "'r dispatcher \<Rightarrow> http_result \<Rightarrow> jsval \<Rightarrow> string + 'r" where
  "dispatch d request ctx = (case request of
     HttpAccepted operation requestId input \<Rightarrow>
       (case map_of (dispatchTable d) operation of
          None \<Rightarrow> Inl ''route-not-found''
        | Some h \<Rightarrow> Inr (h input ctx))
   | _ \<Rightarrow> Inl ''route-not-found'')"

lemma dispatcher_table:
  assumes "createReadOnlyDispatcher handlers = Inr d"
  shows "map fst (dispatchTable d) = logicalOperations" "set (map fst handlers) = set logicalOperations"
    and "distinct (map fst handlers)"
    and "operation \<in> set logicalOperations \<Longrightarrow>
      \<exists>h. map_of handlers operation = Some (Some h) \<and> map_of (dispatchTable d) operation = Some h"
proof -
  have sorted: "sort (map fst handlers) = sort logicalOperations"
    and fns: "list_all (\<lambda>(operation, h). h \<noteq> None) handlers"
    and d: "dispatchTable d = map (\<lambda>operation. (operation, the (the (map_of handlers operation)))) logicalOperations"
    using assms by (auto simp: createReadOnlyDispatcher_def list_ex_iff list_all_iff split: if_splits)
  show keys: "map fst (dispatchTable d) = logicalOperations" by (simp add: d comp_def)
  show set: "set (map fst handlers) = set logicalOperations" using sorted by (metis set_sort)
  show "distinct (map fst handlers)" using sorted routes.keys_distinct by (metis distinct_sort)
  show "\<exists>h. map_of handlers operation = Some (Some h) \<and> map_of (dispatchTable d) operation = Some h"
    if "operation \<in> set logicalOperations"
  proof -
    from that set obtain v where v: "map_of handlers operation = Some v"
      by (metis map_of_eq_None_iff list.set_map not_None_eq)
    then have "(operation, v) \<in> set handlers" by (rule map_of_SomeD)
    with fns obtain h where "v = Some h" by (auto simp: list_all_iff)
    with v that show ?thesis by (simp add: d map_of_map_restrict)
  qed
qed

text \<open>
  A dispatcher exists only over exactly the read-only operations, every one a function, and then
  every request the HTTP boundary accepts reaches the handler of its own operation with the
  validated input; a rejected request reaches none.
\<close>

theorem accepted_requests_dispatched:
  "case createReadOnlyDispatcher handlers of
     Inl e \<Rightarrow> if sort (map fst handlers) = sort logicalOperations then \<exists>operation. (operation, None) \<in> set handlers else True
   | Inr d \<Rightarrow> set (map fst handlers) = set logicalOperations \<and> distinct (map fst handlers) \<and>
       (case validateHttpRequest num date_ok request of
          HttpAccepted operation requestId input \<Rightarrow>
            (case map_of handlers operation of
               Some (Some h) \<Rightarrow> dispatch d (validateHttpRequest num date_ok request) ctx = Inr (h input ctx)
             | _ \<Rightarrow> False)
        | result \<Rightarrow> dispatch d result ctx = Inl ''route-not-found'')"
proof (cases "createReadOnlyDispatcher handlers")
  case (Inl e)
  have "operation \<in> set logicalOperations"
    if "sort (map fst handlers) = sort logicalOperations" "(operation, h) \<in> set handlers" for operation h
    using that by (metis fst_conv image_eqI list.set_map set_sort)
  with Inl show ?thesis by (auto simp: createReadOnlyDispatcher_def list_ex_iff split: if_splits)
next
  case (Inr d)
  note table = dispatcher_table [OF Inr]
  have "operation \<in> set logicalOperations"
    if "validateHttpRequest num date_ok request = HttpAccepted operation requestId input" for operation requestId input
    using http_boundary_outcome [where num = num and date_ok = date_ok and request = request] that
    by (force simp: logicalOperations_def)
  then show ?thesis
    using Inr table(2,3) by (auto simp: dispatch_def split: http_result.split dest!: table(4))
qed

subsection \<open>Runtime validators\<close>

text \<open>
  A generated validator accepts a value (\<open>None\<close>) or leaves the list of its errors, each an
  object of which three fields are copied out.
\<close>

type_synonym validator = "jsval \<Rightarrow> jsval list option"

record boundary_failure =
  boundary :: string
  validationErrors :: "jsval list"

definition validatorIds :: "(string \<times> string) list" where
  "validatorIds =
    [(''client'', ''https://demo.eacl.dev/schemas/explorer-client-request.v1.schema.json''),
     (''server'', ''https://demo.eacl.dev/schemas/explorer-response.v1.schema.json''),
     (''fixture'', ''https://demo.eacl.dev/schemas/fixture-manifest-boundary.v1.schema.json''),
     (''descriptor'', ''https://demo.eacl.dev/schemas/explorer-descriptor.v1.schema.json''),
     (''registry'', ''https://demo.eacl.dev/schemas/profile-registry.v1.schema.json''),
     (''profilePublication'', ''https://demo.eacl.dev/schemas/profile-publication.v1.schema.json''),
     (''benchmarkIndex'', ''https://demo.eacl.dev/schemas/benchmark-evidence-index.v1.schema.json''),
     (''fastestEvidence'', ''https://demo.eacl.dev/schemas/fastest-storage-evidence.v1.schema.json''),
     (''release'', ''https://demo.eacl.dev/schemas/release-manifest.v1.schema.json'')]"

definition validatorsById :: "(string \<Rightarrow> validator) \<Rightarrow> (string \<times> validator) list" where
  "validatorsById generated = map (\<lambda>(name, i). (i, generated name)) validatorIds"

definition assertSchemasAvailable :: "jsval \<Rightarrow> string list \<Rightarrow> js_error + unit" where
  "assertSchemasAvailable schemas requiredIds =
     throw_if (\<not> is_object schemas) Type_Error
     (throw_if (list_ex (\<lambda>i. JStr i \<notin> (\<lambda>(_, schema). prop_of schema ''$id'') ` set (props schemas)) requiredIds)
       (Error ''required runtime schema is unavailable'') (Inr ()))"

definition error_fields :: "jsval \<Rightarrow> jsval" where
  "error_fields e = JObj (map (\<lambda>k. (k, prop_of e k)) [''instancePath'', ''schemaPath'', ''keyword''])"

definition checkedValidator :: "validator \<Rightarrow> string \<Rightarrow> jsval \<Rightarrow> boundary_failure + jsval" where
  "checkedValidator validate name v = (case validate v of
     None \<Rightarrow> Inr v
   | Some errors \<Rightarrow> Inl \<lparr>boundary = name, validationErrors = map error_fields (take 16 errors)\<rparr>)"

definition createRuntimeValidators ::
  "(string \<Rightarrow> validator) \<Rightarrow> jsval \<Rightarrow> js_error + (string \<times> (jsval \<Rightarrow> boundary_failure + jsval)) list" where
  "createRuntimeValidators generated schemas =
     bind_r (assertSchemasAvailable schemas (map snd validatorIds)) (\<lambda>_.
       Inr (map (\<lambda>(name, i). (name, checkedValidator (the (map_of (validatorsById generated) i)) name)) validatorIds))"

definition createRuntimeBoundaryValidator ::
  "(string \<Rightarrow> validator) \<Rightarrow> jsval \<Rightarrow> jsval \<Rightarrow> jsval \<Rightarrow> js_error + (jsval \<Rightarrow> boundary_failure + jsval)" where
  "createRuntimeBoundaryValidator generated schemas i boundary_name =
     throw_if (\<not> is_string i \<or> \<not> is_string boundary_name) Type_Error
     (bind_r (assertSchemasAvailable schemas [the_str i]) (\<lambda>_.
      case map_of (validatorsById generated) (the_str i) of
        None \<Rightarrow> Inl (Error ''no precompiled runtime validator for schema id'')
      | Some validate \<Rightarrow> Inr (checkedValidator validate (the_str boundary_name))))"

lemma list_all_pairs: "(\<And>a b. (a, b) \<in> set xs \<Longrightarrow> P a b) \<Longrightarrow> list_all (\<lambda>(a, b). P a b) xs"
  by (auto simp: list_all_iff)

lemma schemas_available_iff:
  "assertSchemasAvailable schemas (map snd ids) = Inr () \<longleftrightarrow>
     is_object schemas \<and> list_all (\<lambda>(_, i). JStr i \<in> (\<lambda>(_, s). prop_of s ''$id'') ` set (props schemas)) ids"
  by (simp add: assertSchemasAvailable_def list_ex_iff list_all_iff case_prod_beta)

lemma distinct_validator_ids: "distinct (map snd validatorIds)" "distinct (map fst validatorIds)"
  by (simp_all add: validatorIds_def)

interpretation validators: closed_table "map snd validatorIds" "map_of (validatorsById generated)"
  for generated
proof -
  have keys: "map fst (validatorsById generated) = map snd validatorIds"
    by (auto simp: validatorsById_def)
  show "closed_table (map snd validatorIds) (map_of (validatorsById generated))"
    using closed_table_map_of [of "validatorsById generated"] distinct_validator_ids(1) by (simp only: keys)
qed

lemma validator_of_name:
  assumes "(name, i) \<in> set validatorIds"
  shows "map_of (validatorsById generated) i = Some (generated name)"
  using assms distinct_validator_ids(1)
  by (intro map_of_is_SomeI) (auto simp: validatorsById_def comp_def case_prod_beta image_iff intro: bexI [of _ "(name, i)"])

text \<open>
  Every runtime validator the schemas allow is the generated one of its own schema id: it returns
  the value itself when that accepts it, and otherwise throws a failure that names the boundary
  and copies at most sixteen errors, three fields of each. None is created when a schema is missing.
\<close>

theorem runtime_validators_gate:
  "case createRuntimeValidators generated schemas of
     Inl e \<Rightarrow> \<not> (is_object schemas \<and> list_all (\<lambda>(_, i). JStr i \<in> (\<lambda>(_, s). prop_of s ''$id'') ` set (props schemas)) validatorIds)
   | Inr table \<Rightarrow> is_object schemas \<and> map fst table = map fst validatorIds \<and>
       list_all (\<lambda>(name, i). JStr i \<in> (\<lambda>(_, s). prop_of s ''$id'') ` set (props schemas) \<and>
         (case map_of table name of
            None \<Rightarrow> False
          | Some check \<Rightarrow> createRuntimeBoundaryValidator generated schemas (JStr i) (JStr name) = Inr check \<and>
              (case generated name v of
                 None \<Rightarrow> check v = Inr v
               | Some errors \<Rightarrow> (case check v of
                   Inr _ \<Rightarrow> False
                 | Inl failure \<Rightarrow> boundary failure = name \<and> length (validationErrors failure) = min 16 (length errors)
                     \<and> list_all (\<lambda>e. map fst (props e) = [''instancePath'', ''schemaPath'', ''keyword'']) (validationErrors failure))))) validatorIds"
proof (cases "createRuntimeValidators generated schemas")
  case (Inl e)
  then show ?thesis
    using schemas_available_iff [of schemas validatorIds] by (auto simp: createRuntimeValidators_def)
next
  case (Inr table)
  let ?ids = "(\<lambda>(_, s). prop_of s ''$id'') ` set (props schemas)"
  have table: "table = map (\<lambda>(name, i). (name, checkedValidator (the (map_of (validatorsById generated) i)) name)) validatorIds"
    and obj: "is_object schemas" and avail: "\<And>name i. (name, i) \<in> set validatorIds \<Longrightarrow> JStr i \<in> ?ids"
    using Inr schemas_available_iff [of schemas validatorIds]
    by (auto simp: createRuntimeValidators_def list_all_iff)
  have keys: "map fst table = map fst validatorIds" by (auto simp: table)
  have row: "map_of table name = Some (checkedValidator (generated name) name)" if "(name, i) \<in> set validatorIds" for name i
  proof (rule map_of_is_SomeI)
    show "distinct (map fst table)" using distinct_validator_ids(2) keys by simp
    show "(name, checkedValidator (generated name) name) \<in> set table"
      using that validator_of_name [OF that, of generated]
      by (auto simp: table image_iff intro!: bexI [of _ "(name, i)"])
  qed
  have boundary: "createRuntimeBoundaryValidator generated schemas (JStr i) (JStr name) = Inr (checkedValidator (generated name) name)"
    if "(name, i) \<in> set validatorIds" for name i
    using that avail obj validator_of_name [OF that, of generated]
    by (simp add: createRuntimeBoundaryValidator_def assertSchemasAvailable_def)
  have outcome: "case generated name v of
       None \<Rightarrow> checkedValidator (generated name) name v = Inr v
     | Some errors \<Rightarrow> (case checkedValidator (generated name) name v of
         Inr _ \<Rightarrow> False
       | Inl failure \<Rightarrow> boundary failure = name \<and> length (validationErrors failure) = min 16 (length errors)
           \<and> list_all (\<lambda>e. map fst (props e) = [''instancePath'', ''schemaPath'', ''keyword'']) (validationErrors failure))" for name
    by (auto simp: checkedValidator_def error_fields_def list_all_iff split: option.split)
  have "list_all (\<lambda>(name, i). JStr i \<in> ?ids \<and>
         (case map_of table name of
            None \<Rightarrow> False
          | Some check \<Rightarrow> createRuntimeBoundaryValidator generated schemas (JStr i) (JStr name) = Inr check \<and>
              (case generated name v of
                 None \<Rightarrow> check v = Inr v
               | Some errors \<Rightarrow> (case check v of
                   Inr _ \<Rightarrow> False
                 | Inl failure \<Rightarrow> boundary failure = name \<and> length (validationErrors failure) = min 16 (length errors)
                     \<and> list_all (\<lambda>e. map fst (props e) = [''instancePath'', ''schemaPath'', ''keyword'']) (validationErrors failure))))) validatorIds"
  proof (rule list_all_pairs)
    fix name i assume m: "(name, i) \<in> set validatorIds"
    show "JStr i \<in> ?ids \<and>
         (case map_of table name of
            None \<Rightarrow> False
          | Some check \<Rightarrow> createRuntimeBoundaryValidator generated schemas (JStr i) (JStr name) = Inr check \<and>
              (case generated name v of
                 None \<Rightarrow> check v = Inr v
               | Some errors \<Rightarrow> (case check v of
                   Inr _ \<Rightarrow> False
                 | Inl failure \<Rightarrow> boundary failure = name \<and> length (validationErrors failure) = min 16 (length errors)
                     \<and> list_all (\<lambda>e. map fst (props e) = [''instancePath'', ''schemaPath'', ''keyword'']) (validationErrors failure))))"
      using avail [OF m] outcome [of name] unfolding row [OF m] boundary [OF m] option.case by (intro conjI refl)
  qed
  then show ?thesis using Inr obj keys by simp
qed

end
