(* ===== verification/Ui_Preferences.thy ===== *)
theory Ui_Preferences
  imports Json_Text Guards Machine Spread
begin

text \<open>
  \<open>packages/explorer-state/src/ui-preferences.mjs\<close>: the stored preferences of the user interface
  and the theme controller. Local storage and the media query are the environment: what reading
  returns or throws, whether a write succeeds, and when the colour scheme changes.
\<close>

definition THEMES :: "string list" where "THEMES = [''system'', ''light'', ''dark'']"
definition CONSISTENCY :: "string list" where "CONSISTENCY = [''minimize'', ''authoritative'', ''at-least'', ''exact'', ''historical-date'']"

definition defaultUiPreferences :: jsval where
  "defaultUiPreferences = JObj [(''version'', JInt 1), (''theme'', JStr ''system''), (''pageSize'', JInt 20), (''cacheEnabled'', JBool True),
     (''consistencyMode'', JStr ''minimize''), (''expanded'', JArr [])]"

definition first_occurrences :: "'a list \<Rightarrow> 'a list" where
  "first_occurrences vs = rev (remdups (rev vs))"

definition validateUiPreferences :: "jsval \<Rightarrow> js_error + jsval" where
  "validateUiPreferences v =
     (let p = prop_of v in
      throw_if (\<not> truthy v \<or> p ''version'' \<noteq> JInt 1 \<or> \<not> member_of THEMES (p ''theme'')) Type_Error
      (throw_if (\<not> safe_int_between 1 1000 (p ''pageSize'')) Type_Error
      (throw_if ((case p ''cacheEnabled'' of JBool _ \<Rightarrow> False | _ \<Rightarrow> True) \<or> \<not> member_of CONSISTENCY (p ''consistencyMode'')) Type_Error
      (throw_if (case p ''expanded'' of JArr vs \<Rightarrow> list_ex (\<lambda>i. \<not> str_satisfies (\<lambda>s. length s \<le> 64) i) vs | _ \<Rightarrow> True) Type_Error
      (Inr (JObj [(''version'', JInt 1), (''theme'', p ''theme''), (''pageSize'', p ''pageSize''), (''cacheEnabled'', p ''cacheEnabled''),
        (''consistencyMode'', p ''consistencyMode''), (''expanded'', JArr (take 32 (first_occurrences (items (p ''expanded'')))))]))))))"

text \<open>\<open>raw\<close> is what \<open>storage?.getItem\<close> gives: a text, null, undefined or an exception.\<close>

definition readUiPreferences :: "(string \<Rightarrow> jsval) \<Rightarrow> js_error + jsval \<Rightarrow> jsval" where
  "readUiPreferences num raw = (case raw of
     Inr (JStr s) \<Rightarrow>
       if s = [] then defaultUiPreferences
       else (case json_parse num s of
          None \<Rightarrow> defaultUiPreferences
        | Some v \<Rightarrow>
            if \<not> truthy v \<or> prop_of v ''version'' \<noteq> JInt 1 then defaultUiPreferences
            else (case validateUiPreferences (spread [defaultUiPreferences, v]) of Inl e \<Rightarrow> defaultUiPreferences | Inr w \<Rightarrow> w))
   | _ \<Rightarrow> defaultUiPreferences)"

definition writeUiPreferences :: "bool \<Rightarrow> jsval \<Rightarrow> js_error + jsval \<Rightarrow> (js_error + jsval) \<times> (js_error + jsval)" where
  \<comment> \<open>the result, and what storage holds afterwards; a write that fails changes nothing\<close>
  "writeUiPreferences writable preferences stored =
     (case validateUiPreferences (spread [preferences, JObj [(''version'', JInt 1)]]) of
        Inl e \<Rightarrow> (Inl e, stored)
      | Inr v \<Rightarrow> (Inr v, if writable then Inr (JStr (json v)) else stored))"

subsection \<open>The theme controller\<close>

record theme_controller =
  preferences :: jsval
  media_dark :: "bool option"
  theme_closed :: bool
  applied :: "(jsval \<times> string) list"
  storage :: "js_error + jsval"

definition effectiveTheme :: "theme_controller \<Rightarrow> string" where
  "effectiveTheme c =
     (let t = prop_of (preferences c) ''theme'' in
      if t = JStr ''system'' then (if media_dark c = Some True then ''dark'' else ''light'') else the_str t)"

definition apply_theme :: "theme_controller \<Rightarrow> theme_controller" where
  "apply_theme c =
     (if theme_closed c then c else c\<lparr>applied := applied c @ [(prop_of (preferences c) ''theme'', effectiveTheme c)]\<rparr>)"

definition createThemeController :: "(string \<Rightarrow> jsval) \<Rightarrow> bool option \<Rightarrow> js_error + jsval \<Rightarrow> theme_controller" where
  "createThemeController num media stored =
     apply_theme \<lparr>preferences = readUiPreferences num stored, media_dark = media, theme_closed = False, applied = [], storage = stored\<rparr>"

definition setTheme :: "jsval \<Rightarrow> bool \<Rightarrow> theme_controller \<Rightarrow> (js_error + jsval \<times> string) \<times> theme_controller" where
  "setTheme theme writable c =
     (case writeUiPreferences writable (spread [preferences c, JObj [(''theme'', theme)]]) (storage c) of
        (Inl e, stored) \<Rightarrow> (Inl e, c)
      | (Inr v, stored) \<Rightarrow>
          let c' = apply_theme (c\<lparr>preferences := v, storage := stored\<rparr>) in
          (Inr (prop_of (preferences c') ''theme'', effectiveTheme c'), c'))"

definition getTheme :: "theme_controller \<Rightarrow> jsval \<times> string" where
  "getTheme c = (prop_of (preferences c) ''theme'', effectiveTheme c)"

definition media_changes :: "bool \<Rightarrow> theme_controller \<Rightarrow> theme_controller" where
  \<comment> \<open>the listener of the media query, which \<open>close\<close> removes\<close>
  "media_changes dark c =
     (let c' = c\<lparr>media_dark := map_option (\<lambda>_. dark) (media_dark c)\<rparr> in
      if media_dark c \<noteq> None \<and> \<not> theme_closed c \<and> prop_of (preferences c) ''theme'' = JStr ''system'' then apply_theme c' else c')"

definition close_theme :: "theme_controller \<Rightarrow> theme_controller" where
  "close_theme c = c\<lparr>theme_closed := True\<rparr>"

datatype theme_event = Sets_Theme jsval bool | Media_Changes bool | Closes_Theme

fun theme_step :: "theme_event \<Rightarrow> theme_controller \<Rightarrow> theme_controller option" where
  "theme_step (Sets_Theme theme writable) c = Some (snd (setTheme theme writable c))"
| "theme_step (Media_Changes dark) c = Some (media_changes dark c)"
| "theme_step Closes_Theme c = Some (close_theme c)"

subsection \<open>Validated preferences\<close>

text \<open>Valid preferences have one shape: plain JSON in the order of the defaults.\<close>

definition preferences_of :: "string \<Rightarrow> int \<Rightarrow> bool \<Rightarrow> string \<Rightarrow> string list \<Rightarrow> jsval" where
  "preferences_of t n c m es = JObj [(''version'', JInt 1), (''theme'', JStr t), (''pageSize'', JInt n), (''cacheEnabled'', JBool c),
     (''consistencyMode'', JStr m), (''expanded'', JArr (map JStr es))]"

definition preferences_valid :: "jsval \<Rightarrow> bool" where
  "preferences_valid v \<longleftrightarrow> (\<exists>t n c m es. v = preferences_of t n c m es \<and> t \<in> set THEMES \<and> 1 \<le> n \<and> n \<le> 1000
     \<and> m \<in> set CONSISTENCY \<and> distinct es \<and> length es \<le> 32 \<and> list_all (\<lambda>s. length s \<le> 64) es)"

lemma first_occurrences_strings: "first_occurrences (map JStr ss) = map JStr (first_occurrences ss)"
proof -
  have "remdups (map JStr xs) = map JStr (remdups xs)" for xs by (induction xs) auto
  then show ?thesis by (simp add: first_occurrences_def rev_map)
qed

lemma strings_only: "list_all (str_satisfies P) vs \<Longrightarrow> \<exists>ss. vs = map JStr ss \<and> list_all P ss"
proof (induction vs)
  case (Cons v vs)
  then obtain s ss where "v = JStr s" "P s" "vs = map JStr ss" "list_all P ss" by (auto simp: str_satisfies_def split: jsval.splits)
  then show ?case by (intro exI [of _ "s # ss"]) simp
qed simp

lemma validated_preferences:
  assumes "validateUiPreferences v = Inr w"
  shows "preferences_valid w"
proof -
  let ?p = "prop_of v"
  have ok: "member_of THEMES (?p ''theme'')" "safe_int_between 1 1000 (?p ''pageSize'')" "case ?p ''cacheEnabled'' of JBool _ \<Rightarrow> True | _ \<Rightarrow> False"
    "member_of CONSISTENCY (?p ''consistencyMode'')" "case ?p ''expanded'' of JArr vs \<Rightarrow> list_all (str_satisfies (\<lambda>s. length s \<le> 64)) vs | _ \<Rightarrow> False"
    and w: "w = JObj [(''version'', JInt 1), (''theme'', ?p ''theme''), (''pageSize'', ?p ''pageSize''), (''cacheEnabled'', ?p ''cacheEnabled''),
        (''consistencyMode'', ?p ''consistencyMode''), (''expanded'', JArr (take 32 (first_occurrences (items (?p ''expanded'')))))]"
    using assms unfolding validateUiPreferences_def Let_def
    by (simp_all split: if_splits jsval.splits add: list_ex_iff list_all_iff)
  then obtain t n c m vs where fields: "?p ''theme'' = JStr t" "?p ''pageSize'' = JInt n" "?p ''cacheEnabled'' = JBool c" "?p ''consistencyMode'' = JStr m"
    "?p ''expanded'' = JArr vs" "list_all (str_satisfies (\<lambda>s. length s \<le> 64)) vs" "t \<in> set THEMES" "m \<in> set CONSISTENCY" "1 \<le> n" "n \<le> 1000"
    by (auto simp: member_of_def str_satisfies_def safe_int_between_def split: jsval.splits)
  from strings_only [OF fields(6)] obtain ss where ss: "vs = map JStr ss" "list_all (\<lambda>s. length s \<le> 64) ss" by blast
  then have short: "list_all (\<lambda>s. length s \<le> 64) (take 32 (first_occurrences ss))"
    by (auto simp: list_all_iff first_occurrences_def dest!: in_set_takeD)
  show ?thesis unfolding preferences_valid_def preferences_of_def
    by (rule exI [of _ t], rule exI [of _ n], rule exI [of _ c], rule exI [of _ m], rule exI [of _ "take 32 (first_occurrences ss)"])
       (use short in \<open>simp add: w fields ss(1) first_occurrences_strings take_map\<close>, simp add: first_occurrences_def)
qed

lemma default_valid: "preferences_valid defaultUiPreferences"
  unfolding preferences_valid_def preferences_of_def defaultUiPreferences_def
  by (rule exI [of _ "''system''"], rule exI [of _ 20], rule exI [of _ True], rule exI [of _ "''minimize''"], rule exI [of _ "[]"])
     (simp add: THEMES_def CONSISTENCY_def)

lemma valid_validates:
  assumes "preferences_valid v"
  shows "validateUiPreferences v = Inr v"
proof -
  from assms obtain t n c m es where v: "v = preferences_of t n c m es" and ok: "t \<in> set THEMES" "1 \<le> n" "n \<le> 1000" "m \<in> set CONSISTENCY" "distinct es"
    "length es \<le> 32" "list_all (\<lambda>s. length s \<le> 64) es" unfolding preferences_valid_def by blast
  have "first_occurrences (map JStr es) = map JStr es" using ok(5) unfolding first_occurrences_strings by (simp add: first_occurrences_def distinct_remdups_id)
  moreover have "prop_of v ''version'' = JInt 1" "prop_of v ''theme'' = JStr t" "prop_of v ''pageSize'' = JInt n" "prop_of v ''cacheEnabled'' = JBool c"
    "prop_of v ''consistencyMode'' = JStr m" "prop_of v ''expanded'' = JArr (map JStr es)" "truthy v"
    by (simp_all add: v preferences_of_def prop_of_def)
  moreover have "safe_int_between 1 1000 (JInt n)" using ok(2,3) by (simp add: safe_int_between_def is_safe_integer_def MAX_SAFE_INTEGER_def)
  ultimately show ?thesis using ok
    by (simp add: validateUiPreferences_def Let_def member_of_def str_satisfies_def list_ex_iff list_all_iff) (simp add: v preferences_of_def)
qed

lemma valid_plain: "preferences_valid v \<Longrightarrow> json_plain v"
  by (auto simp: preferences_valid_def preferences_of_def from_entries_def own_order_def is_array_index_def is_digit_def less_eq_char_def
      is_safe_integer_def MAX_SAFE_INTEGER_def list_all_iff)

lemma spread_defaults: "preferences_valid v \<Longrightarrow> spread [defaultUiPreferences, v] = v"
  by (auto simp: preferences_valid_def preferences_of_def defaultUiPreferences_def spread_def from_entries_def own_order_def is_array_index_def
      is_digit_def less_eq_char_def)

lemma read_valid: "preferences_valid (readUiPreferences num raw)"
  by (auto simp: readUiPreferences_def default_valid intro: validated_preferences split: sum.split jsval.split option.split)

lemma written_reads_back: "preferences_valid v \<Longrightarrow> readUiPreferences num (Inr (JStr (json v))) = v"
proof -
  assume v: "preferences_valid v"
  then have "truthy v" "prop_of v ''version'' = JInt 1" "json v \<noteq> []"
    by (auto simp: preferences_valid_def preferences_of_def prop_of_def)
  then show ?thesis using v
    by (simp add: readUiPreferences_def json_parse_json valid_plain spread_defaults valid_validates)
qed

definition theme_ok :: "theme_controller \<Rightarrow> bool" where
  "theme_ok c \<longleftrightarrow> preferences_valid (preferences c)
     \<and> list_all (\<lambda>(t, e). member_of THEMES t \<and> e \<in> {''light'', ''dark''} \<and> (t = JStr ''system'' \<or> t = JStr e)) (applied c)"

lemma effective_theme: "preferences_valid (preferences c) \<Longrightarrow> member_of THEMES (prop_of (preferences c) ''theme'')
    \<and> effectiveTheme c \<in> {''light'', ''dark''} \<and> (prop_of (preferences c) ''theme'' = JStr ''system'' \<or> prop_of (preferences c) ''theme'' = JStr (effectiveTheme c))"
  by (auto simp: preferences_valid_def preferences_of_def prop_of_def effectiveTheme_def Let_def member_of_def str_satisfies_def THEMES_def)

lemma apply_theme_ok: "theme_ok c \<Longrightarrow> theme_ok (apply_theme c)"
  using effective_theme [of c] by (auto simp: theme_ok_def apply_theme_def)

lemma theme_ok_update:
  "theme_ok c \<Longrightarrow> theme_ok (c\<lparr>media_dark := m\<rparr>)" "theme_ok c \<Longrightarrow> theme_ok (c\<lparr>theme_closed := b\<rparr>)"
  "theme_ok c \<Longrightarrow> preferences_valid v \<Longrightarrow> theme_ok (c\<lparr>preferences := v, storage := s\<rparr>)"
  by (simp_all add: theme_ok_def)

lemma theme_step_ok: "theme_ok c \<Longrightarrow> theme_step e c = Some c' \<Longrightarrow> theme_ok c'"
proof (cases e)
  case (Sets_Theme theme writable)
  assume c: "theme_ok c" "theme_step e c = Some c'"
  show ?thesis
  proof (cases "validateUiPreferences (spread [spread [preferences c, JObj [(''theme'', theme)]], JObj [(''version'', JInt 1)]])")
    case (Inr v)
    from validated_preferences [OF this] have "theme_ok (apply_theme (c\<lparr>preferences := v, storage := s\<rparr>))" for s
      using c(1) by (intro apply_theme_ok theme_ok_update)
    then show ?thesis using c(2) Sets_Theme Inr by (auto simp: setTheme_def writeUiPreferences_def Let_def)
  qed (use c Sets_Theme in \<open>simp add: setTheme_def writeUiPreferences_def\<close>)
qed (auto simp: media_changes_def close_theme_def Let_def intro!: apply_theme_ok theme_ok_update split: if_splits)

lemma theme_start_ok: "theme_ok (createThemeController num media stored)"
  unfolding createThemeController_def by (rule apply_theme_ok) (simp add: theme_ok_def read_valid)

interpretation theme: machine_invariant theme_step "createThemeController num media stored" theme_ok
  by unfold_locales (simp add: theme_start_ok, rule theme_step_ok)

text \<open>
  Preferences survive a visit. Whatever local storage holds, throws or refuses and however themes
  and colour schemes change, the preferences in use are valid and every theme shown to the page is
  light or dark and the one preferred unless the system decides; and what a successful write stored
  is read back, at the next visit, as exactly the preferences it returned.
\<close>

theorem preferences_read_back:
  "(case run_events theme_step es (createThemeController num media stored) of
      None \<Rightarrow> False
    | Some c \<Rightarrow> validateUiPreferences (preferences c) = Inr (preferences c)
        \<and> list_all (\<lambda>(t, e). e \<in> {''light'', ''dark''} \<and> (t = JStr ''system'' \<or> t = JStr e)) (applied c))
   \<and> (case writeUiPreferences True p stored of
        (Inl e, after) \<Rightarrow> after = stored
      | (Inr v, after) \<Rightarrow> readUiPreferences num after = v)"
proof -
  have "run_events theme_step es c \<noteq> None" for c
  proof (induction es arbitrary: c)
    case (Cons e es)
    then show ?case by (cases e) simp_all
  qed simp
  then obtain c where c: "run_events theme_step es (createThemeController num media stored) = Some c" by blast
  from theme.holds_run [OF this] have "preferences_valid (preferences c)"
    "list_all (\<lambda>(t, e). e \<in> {''light'', ''dark''} \<and> (t = JStr ''system'' \<or> t = JStr e)) (applied c)"
    unfolding theme_ok_def by (blast, elim conjE list.pred_mono_strong, fast)
  then have "validateUiPreferences (preferences c) = Inr (preferences c)"
    "list_all (\<lambda>(t, e). e \<in> {''light'', ''dark''} \<and> (t = JStr ''system'' \<or> t = JStr e)) (applied c)"
    by (simp_all only: valid_validates)
  moreover have "(case writeUiPreferences True p stored of (Inl e, after) \<Rightarrow> after = stored | (Inr v, after) \<Rightarrow> readUiPreferences num after = v)"
    by (auto simp: writeUiPreferences_def intro!: written_reads_back dest: validated_preferences split: sum.splits)
  ultimately show ?thesis by (simp add: c)
qed

end
