(* ===== verification/Url_Params.thy ===== *)
theory Url_Params
  imports Bytes
begin

text \<open>
  \<open>URLSearchParams\<close> and \<open>encodeURIComponent\<close> as the URL state uses them: percent encoding of the
  UTF-8 bytes of a text, form encoding of a list of parameters, and the parser. \<open>decode\<close> is the
  replacement-character decoder of the platform; it is the prelude's \<open>text_decoder\<close>.
\<close>

definition upper_hex_digit :: "nat \<Rightarrow> char" where
  "upper_hex_digit d = (if d < 10 then char_of (48 + d) else char_of (55 + d))"

definition percent :: "nat \<Rightarrow> string" where
  "percent b = [CHR ''%'', upper_hex_digit (b div 16), upper_hex_digit (b mod 16)]"

definition alnum_byte :: "nat \<Rightarrow> bool" where
  "alnum_byte b \<longleftrightarrow> 48 \<le> b \<and> b \<le> 57 \<or> 65 \<le> b \<and> b \<le> 90 \<or> 97 \<le> b \<and> b \<le> 122"

text \<open>Kept by form encoding: letters, digits and \<open>*-._\<close>; by \<open>encodeURIComponent\<close> also \<open>!~'()\<close>.\<close>

definition form_kept :: "nat \<Rightarrow> bool" where
  "form_kept b \<longleftrightarrow> alnum_byte b \<or> b \<in> {42, 45, 46, 95}"

definition component_kept :: "nat \<Rightarrow> bool" where
  "component_kept b \<longleftrightarrow> form_kept b \<or> b \<in> {33, 39, 40, 41, 126}"

definition form_byte :: "nat \<Rightarrow> string" where
  "form_byte b = (if b = 32 then ''+'' else if form_kept b then [char_of b] else percent b)"

definition form_encode :: "string \<Rightarrow> string" where
  "form_encode s = concat (map form_byte (utf8 s))"

definition encodeURIComponent :: "string \<Rightarrow> string" where
  "encodeURIComponent s = concat (map (\<lambda>b. if component_kept b then [char_of b] else percent b) (utf8 s))"

definition hex_of :: "char \<Rightarrow> nat option" where
  "hex_of c =
     (let n = of_char c :: nat in
      if 48 \<le> n \<and> n \<le> 57 then Some (n - 48) else if 65 \<le> n \<and> n \<le> 70 then Some (n - 55)
      else if 97 \<le> n \<and> n \<le> 102 then Some (n - 87) else None)"

fun percent_bytes :: "string \<Rightarrow> nat list" where
  "percent_bytes [] = []"
| "percent_bytes (c # cs) =
     (if c = CHR ''+'' then 32 # percent_bytes cs
      else if c \<noteq> CHR ''%'' then utf8_char c @ percent_bytes cs
      else (case cs of
         a # b # r \<Rightarrow> (case (hex_of a, hex_of b) of
             (Some x, Some y) \<Rightarrow> (16 * x + y) # percent_bytes r
           | _ \<Rightarrow> utf8_char c @ percent_bytes cs)
       | _ \<Rightarrow> utf8_char c @ percent_bytes cs))"

declare percent_bytes.simps(2) [simp del]

definition form_decode :: "(nat list \<Rightarrow> string) \<Rightarrow> string \<Rightarrow> string" where
  "form_decode decode s = decode (percent_bytes s)"

definition parse_pair :: "(nat list \<Rightarrow> string) \<Rightarrow> string \<Rightarrow> string \<times> string" where
  "parse_pair decode piece =
     (form_decode decode (takeWhile (\<lambda>c. c \<noteq> CHR ''='') piece),
      form_decode decode (tl (dropWhile (\<lambda>c. c \<noteq> CHR ''='') piece)))"

definition drop_question :: "string \<Rightarrow> string" where
  "drop_question s = (if starts_with ''?'' s then tl s else s)"

definition parse_params :: "(nat list \<Rightarrow> string) \<Rightarrow> string \<Rightarrow> (string \<times> string) list" where
  "parse_params decode s = map (parse_pair decode) (filter (\<lambda>p. p \<noteq> []) (split_on (CHR ''&'') (drop_question s)))"

definition params_text :: "(string \<times> string) list \<Rightarrow> string" where
  "params_text ps = join ''&'' (map (\<lambda>(k, v). form_encode k @ ''='' @ form_encode v) ps)"

subsection \<open>Round trip\<close>

lemma hex_of_upper: "d < 16 \<Longrightarrow> hex_of (upper_hex_digit d) = Some d"
  by (auto simp: hex_of_def upper_hex_digit_def)

lemma percent_bytes_percent: "b < 256 \<Longrightarrow> percent_bytes (percent b @ s) = b # percent_bytes s"
proof -
  assume "b < 256"
  then have "hex_of (upper_hex_digit (b div 16)) = Some (b div 16)" "hex_of (upper_hex_digit (b mod 16)) = Some (b mod 16)"
    by (auto intro!: hex_of_upper simp: less_mult_imp_div_less)
  then show ?thesis by (simp add: percent_def percent_bytes.simps)
qed

lemma char_of_small: "b < 256 \<Longrightarrow> char_of b = c \<longleftrightarrow> b = (of_char c :: nat)"
  by (simp add: char_of_eq_iff take_bit_nat_eq_self)

lemma kept_char:
  "component_kept b \<Longrightarrow> char_of b \<noteq> CHR ''+'' \<and> char_of b \<noteq> CHR ''%'' \<and> char_of b \<noteq> CHR ''&'' \<and> char_of b \<noteq> CHR ''=''
     \<and> char_of b \<noteq> CHR ''?'' \<and> utf8_char (char_of b) = [b]"
proof -
  assume k: "component_kept b"
  then have "b < 128" by (auto simp: component_kept_def form_kept_def alnum_byte_def)
  then have "(of_char (char_of b :: char) :: nat) = b" by (simp add: take_bit_nat_eq_self)
  with k \<open>b < 128\<close> show ?thesis
    by (auto simp: component_kept_def form_kept_def alnum_byte_def char_of_small utf8_char_def)
qed

lemma percent_bytes_kept: "component_kept b \<Longrightarrow> percent_bytes (char_of b # s) = b # percent_bytes s"
  using kept_char [of b] by (simp add: percent_bytes.simps)

lemma form_component: "form_kept b \<Longrightarrow> component_kept b"
  by (simp add: component_kept_def)

lemma percent_bytes_form: "b < 256 \<Longrightarrow> percent_bytes (form_byte b @ s) = b # percent_bytes s"
  by (auto simp: form_byte_def percent_bytes_percent percent_bytes_kept form_component percent_bytes.simps(2) [of "CHR ''+''"])

lemma percent_bytes_encode: "percent_bytes (form_encode s) = utf8 s"
proof -
  have "(\<And>b. b \<in> set bs \<Longrightarrow> b < 256) \<Longrightarrow> percent_bytes (concat (map form_byte bs)) = bs" for bs
    by (induction bs) (simp_all add: percent_bytes_form)
  with utf8_bytes show ?thesis by (simp add: form_encode_def)
qed

lemma percent_bytes_component: "percent_bytes (encodeURIComponent s) = utf8 s"
proof -
  have "(\<And>b. b \<in> set bs \<Longrightarrow> b < 256) \<Longrightarrow>
      percent_bytes (concat (map (\<lambda>b. if component_kept b then [char_of b] else percent b) bs)) = bs" for bs
    by (induction bs) (simp_all add: percent_bytes_percent percent_bytes_kept)
  with utf8_bytes show ?thesis by (simp add: encodeURIComponent_def)
qed

lemma upper_hex_plain: "d < 16 \<Longrightarrow> upper_hex_digit d \<notin> {CHR ''&'', CHR ''='', CHR ''?''}"
  by (auto simp: upper_hex_digit_def char_of_small)

lemma percent_plain: "b < 256 \<Longrightarrow> set (percent b) \<inter> {CHR ''&'', CHR ''='', CHR ''?''} = {}"
  using upper_hex_plain [of "b div 16"] upper_hex_plain [of "b mod 16"]
  by (auto simp: percent_def less_mult_imp_div_less)

lemma concat_plain:
  "(\<And>b. b \<in> set bs \<Longrightarrow> set (f b) \<inter> X = {}) \<Longrightarrow> set (concat (map f bs)) \<inter> X = {}"
  by (induction bs) auto

lemma encoded_plain:
  "set (form_encode s) \<inter> {CHR ''&'', CHR ''='', CHR ''?''} = {}"
  "set (encodeURIComponent s) \<inter> {CHR ''&'', CHR ''='', CHR ''?''} = {}"
proof -
  have "set (form_byte b) \<inter> {CHR ''&'', CHR ''='', CHR ''?''} = {}" if "b < 256" for b
    using percent_plain [OF that] kept_char [of b] form_component [of b] by (auto simp: form_byte_def)
  then show "set (form_encode s) \<inter> {CHR ''&'', CHR ''='', CHR ''?''} = {}"
    unfolding form_encode_def by (intro concat_plain) (use utf8_bytes in blast)
  have "set (if component_kept b then [char_of b] else percent b) \<inter> {CHR ''&'', CHR ''='', CHR ''?''} = {}" if "b < 256" for b
    using percent_plain [OF that] kept_char [of b] by auto
  then show "set (encodeURIComponent s) \<inter> {CHR ''&'', CHR ''='', CHR ''?''} = {}"
    unfolding encodeURIComponent_def by (intro concat_plain) (use utf8_bytes in blast)
qed

lemma split_on_join_plain:
  "xs \<noteq> [] \<Longrightarrow> (\<And>x. x \<in> set xs \<Longrightarrow> c \<notin> set x) \<Longrightarrow> split_on c (join [c] xs) = xs"
proof (induction xs rule: list_nonempty_induct)
  case (single x)
  then show ?case by (simp add: split_on_no_sep)
next
  case (cons x xs)
  then obtain y ys where "xs = y # ys" by (cases xs) auto
  with cons show ?case using split_on_append [of c x "join [c] xs"] by simp
qed

context text_decoder
begin

lemma form_decode_encode: "form_decode decode (form_encode s) = s"
  by (simp add: form_decode_def percent_bytes_encode decode_utf8)

lemma form_decode_component: "form_decode decode (encodeURIComponent s) = s"
  by (simp add: form_decode_def percent_bytes_component decode_utf8)

lemma parse_pair_encoded:
  assumes "CHR ''='' \<notin> set k" and "form_decode decode k = k'" and "form_decode decode v = v'"
  shows "parse_pair decode (k @ ''='' @ v) = (k', v')"
proof -
  have "\<And>c. c \<in> set k \<Longrightarrow> c \<noteq> CHR ''=''" using assms(1) by blast
  then have "takeWhile (\<lambda>c. c \<noteq> CHR ''='') (k @ ''='' @ v) = k" "dropWhile (\<lambda>c. c \<noteq> CHR ''='') (k @ ''='' @ v) = ''='' @ v"
    by (simp_all add: takeWhile_append2 dropWhile_append2)
  then show ?thesis using assms(2,3) by (simp add: parse_pair_def)
qed

lemma parse_params_pieces:
  assumes "pieces \<noteq> []" and "\<And>p. p \<in> set pieces \<Longrightarrow> p \<noteq> [] \<and> CHR ''&'' \<notin> set p"
    and "\<not> starts_with ''?'' (hd pieces)"
  shows "parse_params decode (join ''&'' pieces) = map (parse_pair decode) pieces"
proof -
  have split: "split_on (CHR ''&'') (join ''&'' pieces) = pieces" using assms split_on_join_plain [of pieces] by blast
  have "starts_with ''?'' (join ''&'' pieces) = starts_with ''?'' (hd pieces)"
  proof -
    obtain p ps where p: "pieces = p # ps" using assms(1) by (cases pieces) auto
    then obtain c cs where "p = c # cs" using assms(2) by (cases p) auto
    with p show ?thesis by (cases ps) simp_all
  qed
  with assms(3) have "drop_question (join ''&'' pieces) = join ''&'' pieces" by (simp add: drop_question_def)
  moreover have "filter (\<lambda>p. p \<noteq> []) pieces = pieces" using assms(2) by (simp add: filter_id_conv)
  ultimately show ?thesis by (simp add: parse_params_def split)
qed

end

end
