(* ===== verification/Url_State.thy ===== *)
theory Url_State
  imports Url_Params Selection Contracts_Base
begin

text \<open>
  \<open>packages/explorer-state/src/url-state.mjs\<close> and \<open>url-controller.mjs\<close>: the explorer's selection
  as the query of its URL, parsed leniently into a state and a list of issues, and serialised to
  one canonical form; and the controller that keeps the location canonical.
\<close>

subsection \<open>Fields\<close>

definition MAX_SEARCH_BYTES :: nat where "MAX_SEARCH_BYTES = 2048"

record url_field =
  parameter :: string
  property :: string
  maxBytes :: nat
  pattern :: "string \<Rightarrow> bool"
  decode_value :: "string \<Rightarrow> jsval"
  encode_value :: "jsval \<Rightarrow> string option"

definition type_text :: "string \<Rightarrow> bool" where
  "type_text s \<longleftrightarrow> s \<noteq> [] \<and> (is_lower (hd s) \<or> is_upper (hd s)) \<and> list_all (\<lambda>c. is_alnum c \<or> c \<in> set ''._-'') (tl s)"

definition page_size_text :: "string \<Rightarrow> bool" where
  "page_size_text s \<longleftrightarrow> s = ''1000'' \<or> s \<noteq> [] \<and> length s \<le> 3 \<and> list_all is_digit s \<and> hd s \<noteq> CHR ''0''"

definition text_field :: "string \<Rightarrow> string \<Rightarrow> nat \<Rightarrow> (string \<Rightarrow> bool) \<Rightarrow> url_field" where
  "text_field parameter_name property_name max_bytes p = \<lparr>parameter = parameter_name, property = property_name, maxBytes = max_bytes,
     pattern = p, decode_value = JStr, encode_value = js_string\<rparr>"

definition FIELDS :: "url_field list" where
  "FIELDS =
    [text_field ''subject-type'' ''subjectType'' 64 type_text,
     text_field ''subject'' ''subject'' 128 identifier_text,
     text_field ''resource-type'' ''resourceType'' 64 type_text,
     text_field ''resource-id'' ''resourceId'' 128 identifier_text,
     text_field ''permission'' ''permission'' 64 type_text,
     text_field ''relation'' ''relation'' 64 type_text,
     text_field ''view'' ''view'' 32 (\<lambda>s. s \<in> {''objects'', ''relationships'', ''authorization'', ''schema'', ''cache''}),
     \<lparr>parameter = ''page-size'', property = ''pageSize'', maxBytes = 4, pattern = page_size_text,
      decode_value = (\<lambda>s. JInt (int (index_value s))), encode_value = js_string\<rparr>,
     \<lparr>parameter = ''cache'', property = ''cacheEnabled'', maxBytes = 3, pattern = (\<lambda>s. s \<in> {''on'', ''off''}),
      decode_value = (\<lambda>s. JBool (s = ''on'')), encode_value = (\<lambda>v. Some (if truthy v then ''on'' else ''off''))\<rparr>,
     text_field ''consistency'' ''consistencyMode'' 15
       (\<lambda>s. s \<in> {''minimize'', ''authoritative'', ''at-least'', ''exact'', ''historical-date''})]"

definition ALLOWED :: "string list" where
  "ALLOWED = [''backend'', ''storage'', ''platform''] @ map parameter FIELDS"

definition forbidden_key :: "string \<Rightarrow> bool" where
  "forbidden_key k \<longleftrightarrow> list_ex (\<lambda>w. contains w (to_lower k))
     [''cursor'', ''token'', ''basis'', ''revision'', ''request'', ''secret'', ''password'', ''credential'', ''seed'',
      ''cache-state'', ''page'']"

definition valid_text :: "url_field \<Rightarrow> string \<Rightarrow> bool" where
  "valid_text f s \<longleftrightarrow> byte_length s \<le> maxBytes f \<and> pattern f s"

subsection \<open>Serialising\<close>

definition param_text :: "jsval \<Rightarrow> js_error + string" where
  "param_text v = (case js_string v of None \<Rightarrow> Inl Type_Error | Some s \<Rightarrow> Inr s)"

definition field_param :: "jsval \<Rightarrow> url_field \<Rightarrow> string option" where
  "field_param state f =
     (let v = prop_of state (property f) in
      if nullish v then None
      else (case encode_value f v of Some s \<Rightarrow> if valid_text f s then Some s else None | None \<Rightarrow> None))"

definition field_pairs :: "('f \<Rightarrow> string) \<Rightarrow> ('f \<Rightarrow> 'v option) \<Rightarrow> 'f list \<Rightarrow> (string \<times> 'v) list" where
  "field_pairs name g fs = List.map_filter (\<lambda>f. map_option (Pair (name f)) (g f)) fs"

definition canonical_params :: "jsval \<Rightarrow> string \<Rightarrow> string \<Rightarrow> jsval \<Rightarrow> (string \<times> string) list" where
  "canonical_params sel backend storage state =
     [(''backend'', backend), (''storage'', storage), (''platform'', normalizePlatform sel (prop_of state ''platform''))]
     @ field_pairs parameter (field_param state) FIELDS"

definition serializeCanonicalUrl :: "(nat list \<Rightarrow> string) \<Rightarrow> jsval \<Rightarrow> jsval \<Rightarrow> js_error + string" where
  "serializeCanonicalUrl decode catalog state =
     bind_r (param_text (nullish_or (prop_of state ''backend'') (JStr []))) (\<lambda>b.
     bind_r (param_text (nullish_or (prop_of state ''storage'') (JStr []))) (\<lambda>s.
     bind_r (initialSelection catalog
        (parse_params decode (join ''&'' [''backend'' @ ''='' @ encodeURIComponent b, ''storage'' @ ''='' @ encodeURIComponent s]))) (\<lambda>sel.
     bind_r (param_text (prop_of sel ''backend'')) (\<lambda>backend.
     bind_r (param_text (prop_of sel ''storage'')) (\<lambda>storage.
     throw_if (list_ex (\<lambda>f. \<not> nullish (prop_of state (property f)) \<and> encode_value f (prop_of state (property f)) = None) FIELDS) Type_Error
       (Inr (''?'' @ params_text (canonical_params sel backend storage state))))))))"

subsection \<open>Parsing\<close>

type_synonym issue = "string \<times> string option"

fun key_issues :: "string list \<Rightarrow> string list \<Rightarrow> issue list" where
  "key_issues seen [] = []"
| "key_issues seen (k # ks) =
     (if k \<in> set seen then [(''duplicate-field'', Some k)] else [])
     @ (if k \<in> set ALLOWED then [] else [(if forbidden_key k then ''forbidden-field'' else ''unknown-field'', Some k)])
     @ key_issues (k # seen) ks"

definition field_value :: "(string \<times> string) list \<Rightarrow> url_field \<Rightarrow> jsval option" where
  "field_value params f =
     (case map_of params (parameter f) of
        None \<Rightarrow> None | Some s \<Rightarrow> if valid_text f s then Some (decode_value f s) else None)"

definition field_issues :: "(string \<times> string) list \<Rightarrow> issue list" where
  "field_issues params = concat (map (\<lambda>f. case map_of params (parameter f) of
     None \<Rightarrow> [] | Some s \<Rightarrow> if valid_text f s then [] else [(''invalid-value'', Some (parameter f))]) FIELDS)"

definition selection_issues :: "(string \<times> string) list \<Rightarrow> jsval \<Rightarrow> string \<Rightarrow> issue list" where
  "selection_issues params sel platform =
     (let b = get_param params ''backend''; s = get_param params ''storage''; p = get_param params ''platform'' in
      (if b \<noteq> JNull \<and> \<not> strict_eq b (prop_of sel ''backend'') then [(''invalid-backend'', Some ''backend'')] else [])
      @ (if s \<noteq> JNull \<and> \<not> strict_eq s (prop_of sel ''storage'') then [(''invalid-storage'', Some ''storage'')] else [])
      @ (if p \<noteq> JNull \<and> p \<noteq> JStr platform \<and> \<not> (p = JStr ''lambda-1024'' \<and> platform = ''lambda-1769'')
         then [(''invalid-platform'', Some ''platform'')] else []))"

record parsed_url =
  state :: jsval
  issues :: "issue list"
  canonicalSearch :: string

definition url_state :: "jsval \<Rightarrow> string \<Rightarrow> (string \<times> jsval) list \<Rightarrow> jsval" where
  "url_state sel platform fs = JObj (props sel @ [(''platform'', JStr platform)] @ fs)"

definition parseCanonicalUrl :: "(nat list \<Rightarrow> string) \<Rightarrow> jsval \<Rightarrow> string \<Rightarrow> js_error + parsed_url" where
  "parseCanonicalUrl decode catalog search =
     (let searchText = drop_question search in
      if byte_length searchText > MAX_SEARCH_BYTES then
        bind_r (initialSelection catalog []) (\<lambda>sel.
          let st = url_state sel (normalizePlatform sel JNull) [] in
          bind_r (serializeCanonicalUrl decode catalog st) (\<lambda>c.
            Inr \<lparr>state = st, issues = [(''url-too-large'', None)], canonicalSearch = c\<rparr>))
      else
        let params = parse_params decode searchText in
        bind_r (initialSelection catalog params) (\<lambda>sel.
          let platform = normalizePlatform sel (get_param params ''platform'');
              st = url_state sel platform (field_pairs property (field_value params) FIELDS) in
          bind_r (serializeCanonicalUrl decode catalog st) (\<lambda>c.
            Inr \<lparr>state = st, issues = key_issues [] (map fst params) @ selection_issues params sel platform @ field_issues params,
                 canonicalSearch = c\<rparr>)))"

subsection \<open>The controller\<close>

text \<open>
  The browser's side: the search of the location, the calls on \<open>history\<close> and the states
  reported to \<open>onState\<close>, latest first.
\<close>

datatype history_call = ReplaceState string | PushState string

record url_controller =
  search :: string
  current :: jsval
  history :: "history_call list"
  reported :: "(jsval \<times> issue list) list"

definition applyLocation :: "(nat list \<Rightarrow> string) \<Rightarrow> jsval \<Rightarrow> url_controller \<Rightarrow> js_error + url_controller" where
  "applyLocation decode catalog c =
     bind_r (parseCanonicalUrl decode catalog (search c)) (\<lambda>p. Inr
       (let moved = search c \<noteq> canonicalSearch p in
        c\<lparr>current := state p, search := canonicalSearch p,
          history := (if moved then ReplaceState (canonicalSearch p) # history c else history c),
          reported := (state p, issues p) # reported c\<rparr>))"

definition navigate :: "(nat list \<Rightarrow> string) \<Rightarrow> jsval \<Rightarrow> jsval \<Rightarrow> bool \<Rightarrow> url_controller \<Rightarrow> js_error + url_controller" where
  "navigate decode catalog nextState replace c =
     bind_r (serializeCanonicalUrl decode catalog nextState) (\<lambda>t.
     bind_r (parseCanonicalUrl decode catalog t) (\<lambda>p. Inr
       (c\<lparr>search := t, current := state p,
          history := (if replace then ReplaceState t else PushState t) # history c,
          reported := (state p, []) # reported c\<rparr>)))"

subsection \<open>One canonical form\<close>

lemma map_of_field_pairs:
  "distinct (map name fs) \<Longrightarrow> f \<in> set fs \<Longrightarrow> map_of (field_pairs name g fs) (name f) = g f"
proof (induction fs)
  case (Cons x xs)
  have out: "k \<notin> name ` set xs \<Longrightarrow> map_of (field_pairs name g xs) k = None" for k
    by (induction xs) (auto simp: field_pairs_def map_filter_simps split: option.split)
  show ?case
  proof (cases "f = x")
    case True
    then show ?thesis using out [of "name x"] Cons.prems(1)
      by (auto simp: field_pairs_def map_filter_simps split: option.split)
  next
    case False
    then have "name f \<in> name ` set xs" using Cons.prems(2) by simp
    then have "name f \<noteq> name x" using Cons.prems(1) by (metis distinct.simps(2) list.set_map list.simps(9))
    then show ?thesis using Cons False by (auto simp: field_pairs_def map_filter_simps split: option.split)
  qed
qed simp

lemma field_pairs_out: "k \<notin> name ` set fs \<Longrightarrow> map_of (field_pairs name g fs) k = None"
  by (induction fs) (auto simp: field_pairs_def map_filter_simps split: option.split)

lemma field_pairs_keys: "set (map fst (field_pairs name g fs)) \<subseteq> name ` set fs"
  by (induction fs) (auto simp: field_pairs_def map_filter_simps split: option.split)

lemma field_pairs_distinct: "distinct (map name fs) \<Longrightarrow> distinct (map fst (field_pairs name g fs))"
proof (induction fs)
  case (Cons f fs)
  then show ?case using field_pairs_keys [of name g fs]
    by (auto simp: field_pairs_def map_filter_simps split: option.split)
qed (simp add: field_pairs_def map_filter_simps)

lemma field_pairs_cong: "(\<And>f. f \<in> set fs \<Longrightarrow> g f = h f) \<Longrightarrow> field_pairs name g fs = field_pairs name h fs"
  by (induction fs) (auto simp: field_pairs_def map_filter_simps split: option.split)

lemma fields_distinct: "distinct (map parameter FIELDS)" "distinct (map property FIELDS)"
  by (simp_all add: FIELDS_def text_field_def)

lemma field_names:
  "f \<in> set FIELDS \<Longrightarrow> parameter f \<notin> {''backend'', ''storage'', ''platform''} \<and> property f \<notin> {''backend'', ''storage'', ''platform''}"
  by (auto simp: FIELDS_def text_field_def)

lemma nat_str_index_value:
  "s \<noteq> [] \<Longrightarrow> list_all is_digit s \<Longrightarrow> hd s \<noteq> CHR ''0'' \<Longrightarrow> nat_str (index_value s) = s \<and> 0 < index_value s"
proof (induction s rule: rev_induct)
  case (snoc c s)
  have c: "48 \<le> (of_char c :: nat)" "(of_char c :: nat) \<le> 57"
    using snoc.prems by (auto simp: is_digit_def less_eq_char_def)
  then have dc: "digit_char (of_char c - 48) = c" by (simp add: digit_char_def)
  define d where "d = (of_char c :: nat) - 48"
  then have d: "(of_char c :: nat) = 48 + d" "d < 10" using c by auto
  show ?case
  proof (cases "s = []")
    case True
    with snoc.prems have "c \<noteq> CHR ''0''" by simp
    then have "(of_char c :: nat) \<noteq> of_char (CHR ''0'')" by (metis of_char_eq_iff)
    then have "0 < (of_char c :: nat) - 48" using c by simp
    then show ?thesis using True c dc by (simp add: index_value_def nat_str.simps)
  next
    case False
    with snoc have ih: "nat_str (index_value s) = s" "0 < index_value s" by auto
    then have "\<not> index_value (s @ [c]) < 10" by (simp add: index_value_snoc)
    moreover have "index_value (s @ [c]) div 10 = index_value s" "index_value (s @ [c]) mod 10 = of_char c - 48"
      using d by (simp_all add: index_value_snoc)
    ultimately show ?thesis using ih dc by (subst nat_str.simps) (simp add: index_value_snoc)
  qed
qed simp

lemma encode_decode:
  assumes "f \<in> set FIELDS" and "valid_text f s"
  shows "encode_value f (decode_value f s) = Some s" "\<not> nullish (decode_value f s)"
proof -
  have page: "int_str (int (index_value s)) = s" if "page_size_text s"
    using that nat_str_index_value [of s] nat_str_index_value [of "''1000''"]
    by (auto simp: page_size_text_def int_str_def is_digit_def)
  show "encode_value f (decode_value f s) = Some s"
    using assms page by (auto simp: FIELDS_def text_field_def valid_text_def)
  show "\<not> nullish (decode_value f s)"
    using assms(1) by (auto simp: FIELDS_def text_field_def nullish_def)
qed

text \<open>A catalog whose ids are texts of at most 24 bytes.\<close>

definition catalog_ok :: "jsval \<Rightarrow> bool" where
  "catalog_ok catalog \<longleftrightarrow> list_all (\<lambda>b. list_all (str_satisfies (\<lambda>s. byte_length s \<le> 24)) (prop_of b ''id'' # storages_of b))
     (items (prop_of catalog ''backends''))"

lemma str_satisfies_iff: "str_satisfies P v \<longleftrightarrow> (\<exists>s. v = JStr s \<and> P s)"
  by (cases v) (auto simp: str_satisfies_def)

lemma find_backend_id:
  assumes "findBackend catalog i = Some b" and "catalog_ok catalog"
  shows "\<exists>s. prop_of b ''id'' = JStr s \<and> byte_length s \<le> 24 \<and> findBackend catalog (JStr s) = Some b"
    and "\<And>v. v \<in> set (storages_of b) \<Longrightarrow> \<exists>s. v = JStr s \<and> byte_length s \<le> 24"
proof -
  have b: "b \<in> set (items (prop_of catalog ''backends''))" "strict_eq (prop_of b ''id'') i"
    using assms(1) by (auto simp: findBackend_def find_Some_iff)
  then obtain s where s: "prop_of b ''id'' = JStr s" "byte_length s \<le> 24"
    using assms(2) by (auto simp: catalog_ok_def list_all_iff str_satisfies_iff)
  with b(2) have "i = JStr s" by simp
  with assms(1) s show "\<exists>s. prop_of b ''id'' = JStr s \<and> byte_length s \<le> 24 \<and> findBackend catalog (JStr s) = Some b" by blast
  show "v \<in> set (storages_of b) \<Longrightarrow> \<exists>s. v = JStr s \<and> byte_length s \<le> 24" for v
    using assms(2) b(1) by (auto simp: catalog_ok_def list_all_iff str_satisfies_iff)
qed

lemma selection_idem:
  assumes "catalog_ok catalog" and "initialSelection catalog params = Inr sel"
  obtains b s where "sel = selection (JStr b) (JStr s)" "byte_length b \<le> 24" "byte_length s \<le> 24"
    and "\<And>ps. get_param ps ''backend'' = JStr b \<Longrightarrow> get_param ps ''storage'' = JStr s \<Longrightarrow> initialSelection catalog ps = Inr sel"
proof -
  from assms(2) obtain d where d: "findBackend catalog (prop_of catalog ''defaultBackend'') = Some d"
    by (auto simp: initialSelection_def split: option.splits)
  define e where "e = (case findBackend catalog (get_param params ''backend'') of None \<Rightarrow> d | Some b \<Rightarrow> b)"
  then obtain i where e: "findBackend catalog i = Some e" using d by (auto split: option.splits)
  obtain b where b: "prop_of e ''id'' = JStr b" "byte_length b \<le> 24" "findBackend catalog (JStr b) = Some e"
    using find_backend_id(1) [OF e assms(1)] by blast
  obtain st where st: "sel = selection (JStr b) st" "truthy st"
      "st = (if includes_value (storages_of e) (get_param params ''storage'') then get_param params ''storage''
             else first_or_undefined (storages_of e))"
    using assms(2) b(1) d unfolding e_def by (auto simp: initialSelection_def Let_def split: if_splits)
  have "\<exists>s. st = JStr s \<and> byte_length s \<le> 24 \<and> JStr s \<in> set (storages_of e)"
  proof (cases "includes_value (storages_of e) (get_param params ''storage'')")
    case True
    then obtain v where v: "v \<in> set (storages_of e)" "strict_eq v (get_param params ''storage'')"
      by (auto simp: includes_value_def list_ex_iff)
    with find_backend_id(2) [OF e assms(1)] obtain s where "v = JStr s" "byte_length s \<le> 24" by blast
    with v st(3) True show ?thesis by auto
  next
    case False
    with st(2,3) find_backend_id(2) [OF e assms(1)] show ?thesis
      by (cases "storages_of e") (auto simp: first_or_undefined_def)
  qed
  then obtain s where s: "st = JStr s" "byte_length s \<le> 24" "JStr s \<in> set (storages_of e)" by blast
  then have "includes_value (storages_of e) (JStr s)" by (auto simp: includes_value_def list_ex_iff)
  then have "get_param ps ''backend'' = JStr b \<Longrightarrow> get_param ps ''storage'' = JStr s \<Longrightarrow> initialSelection catalog ps = Inr sel" for ps
    using st s b d by (simp add: initialSelection_def Let_def)
  with that st(1) s(1,2) b(2) show thesis by blast
qed

lemma form_encode_no:
  "CHR ''&'' \<notin> set (form_encode k)" "CHR ''='' \<notin> set (form_encode k)" "CHR ''?'' \<notin> set (form_encode k)"
  using encoded_plain(1) [of k] by blast+

lemma params_text_parse:
  assumes dec: "text_decoder decode" and "ps \<noteq> []" and keys: "\<And>k. k \<in> fst ` set ps \<Longrightarrow> form_encode k \<noteq> []"
  shows "parse_params decode (params_text ps) = ps"
proof -
  let ?piece = "\<lambda>(k, v). form_encode k @ ''='' @ form_encode v"
  have pieces: "parse_params decode (join ''&'' (map ?piece ps)) = map (parse_pair decode) (map ?piece ps)"
  proof (rule text_decoder.parse_params_pieces [OF dec])
    show "map ?piece ps \<noteq> []" using assms(2) by simp
    show "p \<noteq> [] \<and> CHR ''&'' \<notin> set p" if "p \<in> set (map ?piece ps)" for p
      using that form_encode_no by auto
    obtain k v qs where ps: "ps = (k, v) # qs" using assms(2) by (cases ps) auto
    have "form_encode k \<noteq> []" using keys [of k] ps by simp
    then have "starts_with ''?'' (hd (map ?piece ps)) = (hd (form_encode k) = CHR ''?'')"
      using ps by (cases "form_encode k") auto
    moreover have "hd (form_encode k) \<noteq> CHR ''?''"
      using form_encode_no(3) [of k] \<open>form_encode k \<noteq> []\<close> by (metis hd_in_set)
    ultimately show "\<not> starts_with ''?'' (hd (map ?piece ps))" by simp
  qed
  have "parse_pair decode (form_encode k @ ''='' @ form_encode v) = (k, v)" for k v
    by (intro text_decoder.parse_pair_encoded [OF dec] text_decoder.form_decode_encode [OF dec] form_encode_no)
  then have "map (parse_pair decode) (map ?piece ps) = ps" by (auto intro!: map_idI)
  with pieces show ?thesis by (simp only: params_text_def)
qed

lemma two_params_parse:
  assumes dec: "text_decoder decode"
  shows "parse_params decode (join ''&'' [''backend'' @ ''='' @ encodeURIComponent b, ''storage'' @ ''='' @ encodeURIComponent s])
    = [(''backend'', b), (''storage'', s)]"
proof -
  let ?ps = "[''backend'' @ ''='' @ encodeURIComponent b, ''storage'' @ ''='' @ encodeURIComponent s]"
  have no: "CHR ''&'' \<notin> set (encodeURIComponent k)" for k using encoded_plain(2) [of k] by blast
  have "parse_params decode (join ''&'' ?ps) = map (parse_pair decode) ?ps"
    by (rule text_decoder.parse_params_pieces [OF dec]) (use no in \<open>auto\<close>)
  moreover have "form_encode ''backend'' = ''backend''" "form_encode ''storage'' = ''storage''"
    by (simp_all add: form_encode_def utf8_char_def form_byte_def form_kept_def alnum_byte_def char_of_small)
  then have "form_decode decode ''backend'' = ''backend''" "form_decode decode ''storage'' = ''storage''"
    using text_decoder.form_decode_encode [OF dec] by metis+
  then have "map (parse_pair decode) ?ps = [(''backend'', b), (''storage'', s)]"
    using text_decoder.form_decode_component [OF dec]
    by (simp add: text_decoder.parse_pair_encoded [OF dec, where k = "''backend''", simplified]
        text_decoder.parse_pair_encoded [OF dec, where k = "''storage''", simplified])
  ultimately show ?thesis by simp
qed

lemma byte_length_form_encode: "byte_length (form_encode s) \<le> 3 * byte_length s"
proof -
  have upper: "(of_char (upper_hex_digit d) :: nat) < 128" if "d < 16" for d
    using that by (auto simp: upper_hex_digit_def take_bit_nat_eq_self)
  have byte: "byte_length (form_byte b) \<le> 3" if "b < 256" for b
    using that upper [of "b div 16"] upper [of "b mod 16"]
    by (auto simp: form_byte_def percent_def byte_length_def less_mult_imp_div_less)
  have "byte_length (concat (map form_byte bs)) \<le> 3 * length bs" if "\<And>b. b \<in> set bs \<Longrightarrow> b < 256" for bs
    using that
  proof (induction bs)
    case (Cons b bs)
    with byte [of b] show ?case by fastforce
  qed simp
  from this [of "utf8 s"] show ?thesis by (simp add: form_encode_def length_utf8 utf8_bytes)
qed

lemma byte_length_ampersand: "byte_length (CHR ''&'' # s) = Suc (byte_length s)"
  by (simp add: byte_length_def)

lemma byte_length_join: "byte_length (join ''&'' xs) \<le> sum_list (map (\<lambda>x. byte_length x + 1) xs)"
proof (induction xs)
  case (Cons x xs)
  then show ?case by (cases xs) (simp_all add: byte_length_ampersand)
qed simp

text \<open>The canonical parameters of a state that the parser could have produced.\<close>

definition decoded_by :: "(url_field \<Rightarrow> jsval option) \<Rightarrow> bool" where
  "decoded_by g \<longleftrightarrow> list_all (\<lambda>f. case g f of None \<Rightarrow> True | Some v \<Rightarrow> \<exists>t. valid_text f t \<and> v = decode_value f t) FIELDS"

lemma url_state_props:
  assumes "sel = selection (JStr b) (JStr s)"
  shows "prop_of (url_state sel p (field_pairs property g FIELDS)) ''backend'' = JStr b"
    and "prop_of (url_state sel p (field_pairs property g FIELDS)) ''storage'' = JStr s"
    and "prop_of (url_state sel p (field_pairs property g FIELDS)) ''platform'' = JStr p"
    and "f \<in> set FIELDS \<Longrightarrow> prop_of (url_state sel p (field_pairs property g FIELDS)) (property f) = (case g f of None \<Rightarrow> JUndef | Some v \<Rightarrow> v)"
  using field_names [of f] map_of_field_pairs [OF fields_distinct(2), of f g]
  by (auto simp: url_state_def assms selection_def prop_of_def)

lemma field_param_decoded:
  assumes "sel = selection (JStr b) (JStr s)" and "decoded_by g" and "f \<in> set FIELDS"
  shows "field_param (url_state sel p (field_pairs property g FIELDS)) f
      = (case g f of None \<Rightarrow> None | Some v \<Rightarrow> encode_value f v)"
    and "g f = Some v \<Longrightarrow> \<exists>t. valid_text f t \<and> v = decode_value f t \<and> encode_value f v = Some t \<and> \<not> nullish v"
proof -
  have dec: "\<exists>t. valid_text f t \<and> v = decode_value f t \<and> encode_value f v = Some t \<and> \<not> nullish v" if "g f = Some v" for v
    using assms(2,3) that encode_decode [OF assms(3)] by (force simp: decoded_by_def list_all_iff split: option.splits)
  then show "g f = Some v \<Longrightarrow> \<exists>t. valid_text f t \<and> v = decode_value f t \<and> encode_value f v = Some t \<and> \<not> nullish v" by blast
  show "field_param (url_state sel p (field_pairs property g FIELDS)) f = (case g f of None \<Rightarrow> None | Some v \<Rightarrow> encode_value f v)"
    using dec unfolding field_param_def url_state_props(4) [OF assms(1,3)]
    by (cases "g f") (auto simp: nullish_def Let_def)
qed

lemma sum_list_field_pairs:
  fixes c :: "string \<times> 'v \<Rightarrow> nat"
  assumes "\<And>f v. f \<in> set fs \<Longrightarrow> g f = Some v \<Longrightarrow> c (name f, v) \<le> h f"
  shows "sum_list (map c (field_pairs name g fs)) \<le> sum_list (map h fs)"
  using assms
proof (induction fs)
  case (Cons f fs)
  then have "sum_list (map c (field_pairs name g fs)) \<le> sum_list (map h fs)" by simp
  moreover have "\<And>v. g f = Some v \<Longrightarrow> c (name f, v) \<le> h f" using Cons.prems by simp
  ultimately show ?case by (cases "g f") (auto simp: field_pairs_def map_filter_simps intro: add_mono trans_le_add2)
qed (simp add: field_pairs_def map_filter_simps)

definition pair_bytes :: "string \<times> string \<Rightarrow> nat" where
  "pair_bytes p = byte_length ((\<lambda>(k, v). form_encode k @ ''='' @ form_encode v) p) + 1"

lemma pair_bytes_le: "byte_length v \<le> n \<Longrightarrow> pair_bytes (k, v) \<le> byte_length (form_encode k) + 3 * n + 2"
  using byte_length_form_encode [of v] by (simp add: pair_bytes_def byte_length_def)

lemma field_budget:
  "sum_list (map (\<lambda>f. byte_length (form_encode (parameter f)) + 3 * maxBytes f + 2) FIELDS) = 1808"
  by (simp add: FIELDS_def text_field_def form_encode_def utf8_char_def form_byte_def form_kept_def alnum_byte_def
      char_of_small byte_length_def)

lemma params_text_bytes: "byte_length (params_text qs) \<le> sum_list (map pair_bytes qs)"
  using byte_length_join [of "map (\<lambda>(k, v). form_encode k @ ''='' @ form_encode v) qs"]
  by (simp add: params_text_def comp_def pair_bytes_def [abs_def])

lemma canonical_params_small:
  assumes "byte_length b \<le> 24" and "byte_length s \<le> 24" and "\<And>f t. f \<in> set FIELDS \<Longrightarrow> h f = Some t \<Longrightarrow> valid_text f t"
  shows "byte_length (params_text ([(''backend'', b), (''storage'', s), (''platform'', normalizePlatform sel x)] @ field_pairs parameter h FIELDS)) \<le> 2048"
proof -
  let ?ps = "[(''backend'', b), (''storage'', s), (''platform'', normalizePlatform sel x)] @ field_pairs parameter h FIELDS"
  have platform: "byte_length (normalizePlatform sel x) \<le> 12"
    using normalize_names [of sel x] by (auto simp: byte_length_def)
  have names: "byte_length (form_encode ''backend'') = 7" "byte_length (form_encode ''storage'') = 7"
    "byte_length (form_encode ''platform'') = 8"
    by (simp_all add: form_encode_def utf8_char_def form_byte_def form_kept_def alnum_byte_def char_of_small byte_length_def)
  have "sum_list (map pair_bytes (field_pairs parameter h FIELDS)) \<le> 1808"
    unfolding field_budget [symmetric]
  proof (rule sum_list_field_pairs)
    fix f v assume "f \<in> set FIELDS" "h f = Some v"
    then have "byte_length v \<le> maxBytes f" using assms(3) by (simp add: valid_text_def)
    then show "pair_bytes (parameter f, v) \<le> byte_length (form_encode (parameter f)) + 3 * maxBytes f + 2"
      by (rule pair_bytes_le)
  qed
  moreover have "pair_bytes (''backend'', b) \<le> 81" "pair_bytes (''storage'', s) \<le> 81"
    "pair_bytes (''platform'', normalizePlatform sel x) \<le> 46"
    using pair_bytes_le [OF assms(1), of "''backend''"] pair_bytes_le [OF assms(2), of "''storage''"]
      pair_bytes_le [OF platform, of "''platform''"] names by simp_all
  ultimately have "sum_list (map pair_bytes ?ps) \<le> 2048" by simp
  moreover have "byte_length (params_text ?ps) \<le> sum_list (map pair_bytes ?ps)" by (rule params_text_bytes)
  ultimately show ?thesis by linarith
qed

lemma key_issues_none:
  "distinct (rev seen @ ks) \<Longrightarrow> set ks \<subseteq> set ALLOWED \<Longrightarrow> key_issues seen ks = []"
  by (induction seen ks rule: key_issues.induct) auto

lemma serialize_decoded:
  assumes dec: "text_decoder decode" and sel: "sel = selection (JStr b) (JStr s)"
    and init: "\<And>ps. get_param ps ''backend'' = JStr b \<Longrightarrow> get_param ps ''storage'' = JStr s \<Longrightarrow> initialSelection catalog ps = Inr sel"
    and g: "decoded_by g"
  defines "h \<equiv> \<lambda>f. case g f of None \<Rightarrow> None | Some v \<Rightarrow> encode_value f v"
  shows "serializeCanonicalUrl decode catalog (url_state sel (normalizePlatform sel x) (field_pairs property g FIELDS))
    = Inr (''?'' @ params_text ([(''backend'', b), (''storage'', s), (''platform'', normalizePlatform sel x)] @ field_pairs parameter h FIELDS))"
proof -
  let ?st = "url_state sel (normalizePlatform sel x) (field_pairs property g FIELDS)"
  note st = url_state_props [OF sel, where p = "normalizePlatform sel x" and g = g]
  have init': "initialSelection catalog [(''backend'', b), (''storage'', s)] = Inr sel"
    by (rule init) (simp_all add: get_param_def)
  have nothrow: "\<not> list_ex (\<lambda>f. \<not> nullish (prop_of ?st (property f)) \<and> encode_value f (prop_of ?st (property f)) = None) FIELDS"
    using field_param_decoded(2) [OF sel g] st(4) by (fastforce simp: list_ex_iff nullish_def split: option.splits)
  have params: "canonical_params sel b s ?st
      = [(''backend'', b), (''storage'', s), (''platform'', normalizePlatform sel x)] @ field_pairs parameter h FIELDS"
    unfolding canonical_params_def st(3) normalize_idem h_def
    using field_pairs_cong [of FIELDS "field_param ?st" "\<lambda>f. case g f of None \<Rightarrow> None | Some v \<Rightarrow> encode_value f v" parameter]
      field_param_decoded(1) [OF sel g] by simp
  have sels: "prop_of sel ''backend'' = JStr b" "prop_of sel ''storage'' = JStr s" by (simp_all add: sel selection_def prop_of_def)
  show ?thesis
    using nothrow
    by (simp add: serializeCanonicalUrl_def st(1,2) nullish_or_def param_text_def two_params_parse [OF dec, simplified] init' sels params)
qed

lemma canonical_fixed:
  assumes dec: "text_decoder decode" and sel: "sel = selection (JStr b) (JStr s)" "byte_length b \<le> 24" "byte_length s \<le> 24"
    and init: "\<And>ps. get_param ps ''backend'' = JStr b \<Longrightarrow> get_param ps ''storage'' = JStr s \<Longrightarrow> initialSelection catalog ps = Inr sel"
    and g: "decoded_by g"
    and c: "serializeCanonicalUrl decode catalog (url_state sel (normalizePlatform sel x) (field_pairs property g FIELDS)) = Inr c"
  shows "parseCanonicalUrl decode catalog c
    = Inr \<lparr>state = url_state sel (normalizePlatform sel x) (field_pairs property g FIELDS), issues = [], canonicalSearch = c\<rparr>"
proof -
  define h where "h = (\<lambda>f. case g f of None \<Rightarrow> None | Some v \<Rightarrow> encode_value f v)"
  define ps where "ps = [(''backend'', b), (''storage'', s), (''platform'', normalizePlatform sel x)] @ field_pairs parameter h FIELDS"
  have cps: "c = ''?'' @ params_text ps" using c serialize_decoded [OF dec sel(1) init g, of x] by (simp add: ps_def h_def)
  have ht: "\<exists>t. h f = Some t \<and> valid_text f t \<and> v = decode_value f t" if "f \<in> set FIELDS" "g f = Some v" for f v
    using field_param_decoded(2) [OF sel(1) g that] that(2) by (auto simp: h_def)
  have hv: "valid_text f t" if "f \<in> set FIELDS" "h f = Some t" for f t
    using that ht [OF that(1)] by (cases "g f") (auto simp: h_def)
  have keys: "set (map fst ps) \<subseteq> set ALLOWED" "distinct (map fst ps)"
  proof -
    have k: "set (map fst (field_pairs parameter h FIELDS)) \<subseteq> parameter ` set FIELDS" by (rule field_pairs_keys)
    then show "set (map fst ps) \<subseteq> set ALLOWED" by (auto simp: ps_def ALLOWED_def)
    have "set (map fst (field_pairs parameter h FIELDS)) \<inter> {''backend'', ''storage'', ''platform''} = {}"
      using k field_names by (auto simp: subset_iff image_iff)
    then show "distinct (map fst ps)"
      using field_pairs_distinct [OF fields_distinct(1), of h] by (auto simp: ps_def)
  qed
  have nonempty: "form_encode k \<noteq> []" if "k \<in> fst ` set ps" for k
  proof -
    have "k \<in> set ALLOWED" using keys(1) that by auto
    then have "k \<noteq> []" by (auto simp: ALLOWED_def FIELDS_def text_field_def)
    then show ?thesis using percent_bytes_encode [of k] utf8_not_Nil [of k] by (metis percent_bytes.simps(1))
  qed
  have parse: "parse_params decode (params_text ps) = ps"
    by (rule params_text_parse [OF dec]) (use nonempty in \<open>auto simp: ps_def\<close>)
  have "drop_question c = params_text ps" by (simp add: cps drop_question_def)
  moreover have "\<not> MAX_SEARCH_BYTES < byte_length (params_text ps)"
    using canonical_params_small [OF sel(2,3) hv, where sel = sel and x = x] by (simp add: ps_def MAX_SEARCH_BYTES_def not_less)
  moreover have gets: "get_param ps ''backend'' = JStr b" "get_param ps ''storage'' = JStr s"
    "get_param ps ''platform'' = JStr (normalizePlatform sel x)"
    by (simp_all add: ps_def get_param_def)
  moreover have looked: "map_of ps (parameter f) = h f" if "f \<in> set FIELDS" for f
    using field_names [OF that] map_of_field_pairs [OF fields_distinct(1) that, of h] by (auto simp: ps_def)
  have "field_pairs property (field_value ps) FIELDS = field_pairs property g FIELDS"
  proof (rule field_pairs_cong)
    fix f assume f: "f \<in> set FIELDS"
    show "field_value ps f = g f"
      using looked [OF f] ht [OF f] by (cases "g f") (auto simp: field_value_def h_def)
  qed
  moreover have "field_issues ps = []"
    using looked hv by (auto simp: field_issues_def split: option.split)
  moreover have "selection_issues ps sel (normalizePlatform sel x) = []"
    by (simp add: selection_issues_def gets sel(1) selection_def prop_of_def)
  moreover have "key_issues [] (map fst ps) = []" by (rule key_issues_none) (use keys in simp_all)
  ultimately show ?thesis
    using c init [OF gets(1,2)] by (simp add: parseCanonicalUrl_def Let_def parse normalize_idem)
qed

lemma field_value_decoded: "decoded_by (field_value params)"
  by (auto simp: decoded_by_def list_all_iff field_value_def split: option.split if_splits)

text \<open>
  C20 Whatever the search part of the location is, the canonical search computed from it is read back
  without any issue, as the same state, and is its own canonical form; so the controller's
  replacement of the location settles after one step.
\<close>

theorem canonical_url_is_fixed_point:
  assumes "text_decoder decode" and "catalog_ok catalog"
  shows "case parseCanonicalUrl decode catalog location_search of
      Inl e \<Rightarrow> True
    | Inr p \<Rightarrow> parseCanonicalUrl decode catalog (canonicalSearch p) = Inr (p\<lparr>issues := []\<rparr>)
        \<and> (case applyLocation decode catalog c of
             Inl _ \<Rightarrow> True
           | Inr c' \<Rightarrow> applyLocation decode catalog c' = Inr (c'\<lparr>reported := (current c', []) # reported c'\<rparr>))"
proof -
  have fixed: "parseCanonicalUrl decode catalog (canonicalSearch p) = Inr (p\<lparr>issues := []\<rparr>)"
    if p: "parseCanonicalUrl decode catalog t = Inr p" for t p
  proof -
    from p obtain params sel g x where init: "initialSelection catalog params = Inr sel" and g: "decoded_by g"
      and st: "state p = url_state sel (normalizePlatform sel x) (field_pairs property g FIELDS)"
      and c: "serializeCanonicalUrl decode catalog (state p) = Inr (canonicalSearch p)"
    proof (cases "byte_length (drop_question t) > MAX_SEARCH_BYTES")
      case True
      have none: "field_pairs property (\<lambda>f. None :: jsval option) FIELDS = []" "decoded_by (\<lambda>f. None)"
        by (simp_all add: field_pairs_def map_filter_def decoded_by_def list_all_iff)
      from p True obtain sel where "initialSelection catalog [] = Inr sel" "state p = url_state sel (normalizePlatform sel JNull) []"
        "serializeCanonicalUrl decode catalog (state p) = Inr (canonicalSearch p)"
        by (auto simp: parseCanonicalUrl_def Let_def)
      with that [of "[]" sel "\<lambda>f. None" JNull] none show thesis by simp
    next
      case False
      let ?params = "parse_params decode (drop_question t)"
      from p False obtain sel where "initialSelection catalog ?params = Inr sel"
        "state p = url_state sel (normalizePlatform sel (get_param ?params ''platform'')) (field_pairs property (field_value ?params) FIELDS)"
        "serializeCanonicalUrl decode catalog (state p) = Inr (canonicalSearch p)"
        by (auto simp: parseCanonicalUrl_def Let_def)
      with that [of ?params sel "field_value ?params" "get_param ?params ''platform''"] field_value_decoded show thesis by simp
    qed
    from selection_idem [OF assms(2) init] obtain b s where bs: "sel = selection (JStr b) (JStr s)" "byte_length b \<le> 24" "byte_length s \<le> 24"
      "\<And>ps. get_param ps ''backend'' = JStr b \<Longrightarrow> get_param ps ''storage'' = JStr s \<Longrightarrow> initialSelection catalog ps = Inr sel"
      by blast
    have "parseCanonicalUrl decode catalog (canonicalSearch p)
        = Inr \<lparr>state = state p, issues = [], canonicalSearch = canonicalSearch p\<rparr>"
      using canonical_fixed [OF assms(1) bs g] c unfolding st by blast
    then show ?thesis by simp
  qed
  have "applyLocation decode catalog c' = Inr (c'\<lparr>reported := (current c', []) # reported c'\<rparr>)"
    if "applyLocation decode catalog c = Inr c'" for c'
    using that fixed by (auto simp: applyLocation_def Let_def)
  with fixed show ?thesis by (auto split: sum.split)
qed

definition sample_catalog :: jsval where
  "sample_catalog = JObj [(''defaultBackend'', JStr ''datomic''),
     (''backends'', JArr [JObj [(''id'', JStr ''datomic''), (''storages'', JArr [JStr ''dynamodb''])]])]"

lemma sample_catalog_ok: "catalog_ok sample_catalog"
  by (simp add: catalog_ok_def sample_catalog_def prop_of_def storages_of_def str_satisfies_def byte_length_def)

lemma sample_parses: "\<exists>p. parseCanonicalUrl latin_decode sample_catalog ''?seed=1'' = Inr p"
proof -
  let ?ps = "parse_params latin_decode ''seed=1''"
  let ?sel = "selection (JStr ''datomic'') (JStr ''dynamodb'')"
  have ps: "?ps = [(''seed'', ''1'')]"
    by (simp add: parse_params_def drop_question_def parse_pair_def form_decode_def percent_bytes.simps utf8_char_def char_of_small)
  have init: "initialSelection sample_catalog qs = Inr ?sel"
    if "get_param qs ''backend'' = JStr ''datomic'' \<or> map_of qs ''backend'' = None"
      "get_param qs ''storage'' = JStr ''dynamodb'' \<or> map_of qs ''storage'' = None" for qs
    using that by (auto simp: initialSelection_def sample_catalog_def findBackend_def prop_of_def get_param_def
        storages_of_def includes_value_def first_or_undefined_def split: option.splits)
  have "\<exists>t. serializeCanonicalUrl latin_decode sample_catalog
      (url_state ?sel (normalizePlatform ?sel x) (field_pairs property (field_value ?ps) FIELDS)) = Inr t" for x
    using serialize_decoded [OF latin.text_decoder_axioms refl _ field_value_decoded, of "''datomic''" "''dynamodb''" sample_catalog] init
    by blast
  moreover have "initialSelection sample_catalog ?ps = Inr ?sel" by (rule init) (simp_all add: ps)
  ultimately show ?thesis
    by (force simp: parseCanonicalUrl_def drop_question_def MAX_SEARCH_BYTES_def byte_length_def Let_def)
qed

lemma canonical_url_witness:
  "\<exists>p. parseCanonicalUrl latin_decode sample_catalog ''?seed=1'' = Inr p
     \<and> parseCanonicalUrl latin_decode sample_catalog (canonicalSearch p) = Inr (p\<lparr>issues := []\<rparr>)"
proof -
  obtain p where "parseCanonicalUrl latin_decode sample_catalog ''?seed=1'' = Inr p" using sample_parses by blast
  with canonical_url_is_fixed_point [OF latin.text_decoder_axioms sample_catalog_ok, where location_search = "''?seed=1''"]
  show ?thesis by simp
qed

end
