(* ===== verification/Spec2Isabelle.thy ===== *)
theory Spec2Isabelle
  imports Benchmark_Publication Cursor_Codec Data_Lifecycle Datascript_Loader Datascript_Transport Deploy_Smoke Descriptor_Presentation Execution_Boundary Exemplar_Evaluator Explorer_Controller Explorer_Operations Fixture_Batching Focus_Management Function_Url Oidc_Policy Page_Contract Post_Compute_Run Profile_Api_Facts Qualification_Cases Qualification_Workloads Service_Contract Ui_Preferences Url_State
begin

text \<open>
  A verification library of the JavaScript core of the EACL demo: the deterministic fixture and its
  reference evaluator, the contracts between client and profile services, the state behind the
  explorer, the authorisation and lifecycle of stored data, and the qualification of a deployment.

  \<^bold>\<open>The program.\<close> A fixture of logical resources is generated deterministically
  (\<open>packages/fixture-generator\<close>), cut into batches and written to a store; a verifier and a reference
  evaluator decide what every backend must answer. A profile, which is a backend with a storage, serves
  the closed contract \<open>explorer.v1\<close> (\<open>packages/contracts\<close>). The explorer page
  (\<open>apps/explorer-main\<close>) chooses a profile from the registry of sealed publications and talks to it
  through a transport, in the browser or over HTTP, under a controller that survives late answers
  (\<open>packages/explorer-state\<close>). Stored data and temporary machines may only be touched under a
  closed policy (\<open>packages/data-lifecycle\<close>), deployments only by the authorities of
  \<open>scripts/github-oidc-policy.mjs\<close>, and a deployment is qualified by cases and workloads before it
  is published (\<open>packages/qualification\<close>).

  \<^bold>\<open>Foundations.\<close> \<open>Js\<close> holds JavaScript values, their comparison, property access,
  printing and sorting, and errors as the left side of a sum; \<open>Json_Text\<close> is \<open>JSON.parse\<close>;
  \<open>Regex\<close> the regular expressions as data with a derivative matcher proved against their language;
  \<open>Guards\<close> sequences of \<open>if (...) throw\<close>; \<open>Spread\<close> object spreads; \<open>Iso_Date\<close>
  times; \<open>Bytes\<close> UTF-8 and base 64; \<open>Url_Params\<close> percent and form encoding;
  \<open>Canonical_Text\<close>, \<open>Stable_Json\<close> and \<open>Canonical_Json\<close> the three canonical forms the
  digests are taken of; \<open>Failures\<close> and \<open>Awaits\<close> the errors and actions of asynchronous code.
  Concurrency is that of one thread: an event is what runs between two awaits. \<open>Machine\<close> states
  it as a step function with the interfaces \<open>machine_invariant\<close> and \<open>machine_monotone\<close>, which
  every stateful component interprets on its own step function, so that its properties speak of all
  schedules; \<open>Coroutines\<close> does the same for functions with many awaits over shared variables
  (\<open>sound_functions\<close>, a sublocale of the machine interface). Other interfaces are
  \<open>closed_table\<close> (route, error and validator tables), \<open>bundle_source\<close> (the stream as its consumers
  see it) and \<open>text_decoder\<close> (the platform's decoder inverts the encoder).

  \<^bold>\<open>Fixture.\<close> \<open>Fixture_Generator\<close> (\<open>generator.mjs\<close>: sampler, \<open>fixtureBundles\<close>),
  \<open>Fixture_References\<close>, \<open>Fixture_Sizes\<close>, \<open>Fixture_Manifest\<close>
  (\<open>generateFixtureManifest\<close>), \<open>Fixture_Batching\<close> (\<open>batching.mjs\<close>), \<open>Fixture_Verifier\<close>
  (\<open>verifier.mjs\<close>) and \<open>Exemplar_Evaluator\<close> (\<open>exemplar-evaluator.mjs\<close>). Shown: the loops
  with their counters are a prefix of one stream; references resolve; manifest totals and digests are
  those of the lines; batches partition the stream within their limits and an interrupted seeding
  resumes to the same end; the verifier accepts the generated file and only it, for the cut point the
  manifest names; the path-guarded search decides the least fixed point of the permission schema.

  \<^bold>\<open>Contracts.\<close> \<open>Contracts_Base\<close> (limits, error codes, routes), \<open>Http_Boundary\<close>
  (\<open>routes.mjs\<close>, \<open>http-boundary.mjs\<close>), \<open>Envelopes\<close> (\<open>envelopes.mjs\<close>,
  \<open>redaction.mjs\<close>), \<open>Function_Url\<close>, \<open>Cursor_Codec\<close>, \<open>Sha256\<close>,
  \<open>Execution_Boundary\<close>, \<open>Handshake\<close> (\<open>descriptor-handshake.mjs\<close>), \<open>Http_Client\<close>
  and \<open>Service_Contract\<close> (\<open>compatibility.mjs\<close>, \<open>read-only-dispatcher.mjs\<close>,
  \<open>runtime-validation.mjs\<close>). Shown: an admitted request is inside the contract; what is logged hides
  what must be hidden; a cursor decodes to what was encoded and only with its authentication code, scope,
  operation, query and time; admission is bounded and cleanups run once under every interleaving; the
  typed-array loops compute FIPS 180-4; the handshake passes one identity only.

  \<^bold>\<open>Explorer state.\<close> \<open>Selection\<close> (\<open>selection.mjs\<close>, \<open>platforms.mjs\<close>,
  \<open>availability.mjs\<close>), \<open>Url_State\<close> (\<open>url-state.mjs\<close>, \<open>url-controller.mjs\<close>),
  \<open>Profile_Registry\<close>, \<open>Profile_Publication\<close>, \<open>Fastest_Evidence\<close>,
  \<open>Benchmark_Publication\<close>, \<open>Descriptor_Presentation\<close>, \<open>Focus_Management\<close>,
  \<open>Ui_Preferences\<close>, the transports \<open>Http_Transport\<close>, \<open>Datascript_Transport\<close> and
  \<open>Datascript_Loader\<close>, and the machines \<open>Profile_Controller\<close>, \<open>Explorer_Controller\<close>
  and \<open>Explorer_Operations\<close>, each named after its module of \<open>packages/explorer-state/src\<close>.
  Shown: whatever order answers arrive in, the session is that of the last switch, a transport is
  released at most once, one that a later switch or a close aborts has been released, and a ready view shows the verified descriptor of
  the current transport; three continuations that do not test the epoch, with runs from the start that
  reach them; requests are those of the contract; a released transport sends nothing; a canonical URL is
  a fixed point; registries and evidence are the sealed documents or fail closed; the benchmark decision
  is that of a rule without sorting.

  \<^bold>\<open>Explorer page.\<close> \<open>Api_Client\<close> (\<open>api.ts\<close>, \<open>preferences.ts\<close>),
  \<open>Profile_Present\<close>, \<open>Profile_Api\<close> and \<open>Profile_Api_Facts\<close> (\<open>profile-api.ts\<close>),
  \<open>App_State\<close> (\<open>state.tsx\<close>) and \<open>Page_Contract\<close>, where the page, its API and the HTTP
  boundary meet. Shown: results reach a panel in the order of its requests; the API sends closed requests
  only and its cursor table stays valid; what the page asks for is admitted by the boundary.

  \<^bold>\<open>Data, deployment, qualification.\<close> \<open>Data_Lifecycle\<close>, \<open>Authorization\<close> and
  \<open>Post_Compute\<close> (\<open>packages/data-lifecycle\<close>), \<open>Oidc_Policy\<close>, \<open>Release_Manifests\<close>
  and \<open>Deploy_Smoke\<close> (\<open>scripts\<close>), \<open>Sensitive_Text\<close>, \<open>Qualification_Targets\<close>,
  \<open>Qualification_Runner\<close>, \<open>Qualification_Reports\<close>, \<open>Qualification_Cases\<close> and
  \<open>Qualification_Workloads\<close> (\<open>packages/qualification/src\<close>). Shown: generations only move
  forward; an authorised execution lies in the approved account, region and targets until its expiry, and
  what the digest does not bind; a passed verification is about the authorised run and leaves nothing
  billable, and the run of \<open>Post_Compute_Run\<close>, on the repository's policy, passes; authorities are disjoint; reports are sound and show nothing sensitive; the pagination case
  and the workload criteria decide what they claim.

  \<^bold>\<open>Parameters.\<close> What is not under \<open>src/\<close> is an argument: SHA-256 of \<open>node:crypto\<close>
  and Web Crypto, HMAC, the URL parser, \<open>node:path\<close>, \<open>fetch\<close> and what a server answers,
  \<open>TextDecoder\<close>, the generated validators, the collation key of \<open>localeCompare\<close>, the clock,
  the formats of \<open>Date.parse\<close> beyond the standard's own, the conversion between decimal texts and
  doubles, and the rounding of a quotient. The few properties that need a law of one of them state it as
  a hypothesis (the decoder inverts the encoder, rounding keeps zero) and have a witness with a concrete
  function. Strings are lists of code units below 256, numbers are mathematical integers or named by
  their printed form; each theory says what it does with values outside.

  \<^bold>\<open>Bounds and fuel.\<close> \<open>json_parse\<close> has fuel for one more than twice the characters of its
  text, and \<open>parse_fuel_enough\<close> shows that more changes nothing. The sampler works modulo \<open>2 ^ 64\<close>
  with the masks of the code, SHA-256 on 32-bit words. Loops of the generator, the evaluator and the
  replacement of sensitive texts are total by a measure; loops over a network are actions over the
  finite sequence of its answers, or runs of a machine, of any length.

  \<^bold>\<open>Not modelled.\<close> The generated validators, the Solid components and their rendering, the
  commands under \<open>scripts\<close> that move files, start processes or call the cloud, the services in
  Clojure and jank, and tests. The decisions these commands take are in the modelled modules.
\<close>

end
